(* ===== verification/C_Prelude.thy ===== *)
theory C_Prelude
  imports Main "HOL-Library.Word" "HOL-Library.Monad_Syntax"
begin

text \<open>
  What the components share: the C fragment the flight software is written in, as far as its
  functions use it.

  An operation of the code is a HOL function into \<open>'a option\<close>. \<open>None\<close> means that the C
  execution has no defined behaviour from there on (an access outside an array, a null or
  dangling pointer followed, a failed \<^verbatim>\<open>assert\<close>, a division by zero, a signed overflow, a read
  of an indeterminate value); every error the code reports itself is an ordinary value of the
  result. Hence a theorem \<open>f x s = Some r\<close> states that the call is safe and what it returns.
  A C \<^verbatim>\<open>int\<close> is an \<open>int\<close> whose arithmetic is checked by \<open>cint\<close>; the union \<^verbatim>\<open>value32_t\<close> and
  the unsigned types are words. A \<^verbatim>\<open>char *\<close> is a \<open>string\<close> without the terminator where only the
  string is used, and the list of all bytes of the block where the terminator matters.
\<close>

section \<open>Collections of facts\<close>

named_theorems config_defs \<open>the constants of config.h\<close>
named_theorems c_defs \<open>the C fragment: guards, arrays, checked integers\<close>

section \<open>Configuration\<close>

text \<open>The constants of include/suchai/config.h.in the components use.\<close>

definition SCH_FP_MAX_ENTRIES :: int where [config_defs]: "SCH_FP_MAX_ENTRIES = 255"
definition SCH_CMD_MAX_ENTRIES :: int where [config_defs]: "SCH_CMD_MAX_ENTRIES = 255"
definition SCH_SECTIONS_PER_PAYLOAD :: int where [config_defs]: "SCH_SECTIONS_PER_PAYLOAD = 10"
definition SCH_SIZE_PER_SECTION :: int where [config_defs]: "SCH_SIZE_PER_SECTION = 262144"
definition SCH_BUFF_MAX_LEN :: nat where [config_defs]: "SCH_BUFF_MAX_LEN = 256"
definition SCH_CMD_MAX_STR_PARAMS :: nat where [config_defs]: "SCH_CMD_MAX_STR_PARAMS = 248"
definition SCH_CMD_MAX_STR_NAME :: nat where [config_defs]: "SCH_CMD_MAX_STR_NAME = 248"
definition SCH_COMM_NODE :: int where [config_defs]: "SCH_COMM_NODE = 1"
definition SCH_COM_MAX_PACKETS :: int where [config_defs]: "SCH_COM_MAX_PACKETS = 10"
definition SCH_MAX_WDT_TIMER :: int where [config_defs]: "SCH_MAX_WDT_TIMER = 60"
definition SCH_MAX_GND_WDT_TIMER :: int where [config_defs]: "SCH_MAX_GND_WDT_TIMER = 48 * 3600"

text \<open>What a command returns (src/system/include/suchai/repoCommand.h) and what the storage
  returns (src/lib/storage/include/suchai/storage.h).\<close>

definition CMD_OK :: int where [config_defs]: "CMD_OK = 1"
definition CMD_ERROR :: int where [config_defs]: "CMD_ERROR = 0"
definition CMD_SYNTAX_ERROR :: int where [config_defs]: "CMD_SYNTAX_ERROR = - 1"
definition SCH_ST_OK :: int where [config_defs]: "SCH_ST_OK = 0"
definition SCH_ST_ERROR :: int where [config_defs]: "SCH_ST_ERROR = - 1"

section \<open>Guards and checked integers\<close>

definition require :: "bool \<Rightarrow> unit option" where
  "require b = (if b then Some () else None)"

definition in_int :: "int \<Rightarrow> bool" where
  "in_int n \<longleftrightarrow> - 2147483648 \<le> n \<and> n \<le> 2147483647"

definition cint :: "int \<Rightarrow> int option" where
  "cint n = (if in_int n then Some n else None)"

definition cdiv :: "int \<Rightarrow> int \<Rightarrow> int option" where
  "cdiv a b = (if b = 0 then None else cint (sgn a * sgn b * (\<bar>a\<bar> div \<bar>b\<bar>)))"

definition cmod :: "int \<Rightarrow> int \<Rightarrow> int option" where
  "cmod a b = (if b = 0 then None else Some (sgn a * (\<bar>a\<bar> mod \<bar>b\<bar>)))"

text \<open>The union \<^verbatim>\<open>value32_t\<close>: 32 bits, read and written as a signed integer by its field \<open>i\<close>.\<close>

type_synonym value32 = "32 word"

type_synonym byte = "8 word"

definition v_i :: "value32 \<Rightarrow> int" where
  "v_i v = sint v"

definition of_i :: "int \<Rightarrow> value32" where
  "of_i n = word_of_int n"

section \<open>Arrays\<close>

definition arr_get :: "'a list \<Rightarrow> int \<Rightarrow> 'a option" where
  "arr_get xs i = (if 0 \<le> i \<and> i < int (length xs) then Some (xs ! nat i) else None)"

definition arr_set :: "'a list \<Rightarrow> int \<Rightarrow> 'a \<Rightarrow> 'a list option" where
  "arr_set xs i v = (if 0 \<le> i \<and> i < int (length xs) then Some (xs[nat i := v]) else None)"

text \<open>\<^verbatim>\<open>memcpy\<close> and \<^verbatim>\<open>memset\<close> into a block, at an offset.\<close>

definition blk_write :: "'a list \<Rightarrow> nat \<Rightarrow> 'a list \<Rightarrow> 'a list option" where
  "blk_write b off xs =
     (if off + length xs \<le> length b
      then Some (take off b @ xs @ drop (off + length xs) b) else None)"

definition blk_read :: "'a list \<Rightarrow> nat \<Rightarrow> nat \<Rightarrow> 'a list option" where
  "blk_read b off n = (if off + n \<le> length b then Some (take n (drop off b)) else None)"

text \<open>
  The search loops of the code, \<^verbatim>\<open>for(i=0; i<n; i++) if(p(a[i])) ...\<close>: the first index whose
  element satisfies \<open>p\<close>.
\<close>

fun find_from :: "nat \<Rightarrow> ('a \<Rightarrow> bool) \<Rightarrow> 'a list \<Rightarrow> nat option" where
  "find_from i p [] = None"
| "find_from i p (x # xs) = (if p x then Some i else find_from (Suc i) p xs)"

definition find_idx :: "('a \<Rightarrow> bool) \<Rightarrow> 'a list \<Rightarrow> nat option" where
  "find_idx p xs = find_from 0 p xs"

section \<open>Strings\<close>

abbreviation NUL :: char where
  "NUL \<equiv> CHR 0x00"

text \<open>Reading a block as a C string; without a terminator the read leaves the block.\<close>

definition cstr_of :: "char list \<Rightarrow> string option" where
  "cstr_of b = (if NUL \<in> set b then Some (takeWhile (\<lambda>c. c \<noteq> NUL) b) else None)"

definition strncpy_bytes :: "string \<Rightarrow> nat \<Rightarrow> char list" where
  "strncpy_bytes src n = take n src @ replicate (n - length src) NUL"

fun strcmp :: "string \<Rightarrow> string \<Rightarrow> int" where
  "strcmp [] [] = 0"
| "strcmp [] (y # ys) = - 1"
| "strcmp (x # xs) [] = 1"
| "strcmp (x # xs) (y # ys) =
     (if x = y then strcmp xs ys
      else if of_char x < (of_char y :: nat) then - 1 else 1)"

definition is_space :: "char \<Rightarrow> bool" where
  "is_space c \<longleftrightarrow> c \<in> {CHR '' '', CHR 0x09, CHR 0x0A, CHR 0x0B, CHR 0x0C, CHR 0x0D}"

definition skip_ws :: "string \<Rightarrow> string" where
  "skip_ws s = dropWhile is_space s"

section \<open>Lemmas\<close>

lemma require_True [simp]: "require True = Some ()"
  by (simp add: require_def)

lemma require_False [simp]: "require False = None"
  by (simp add: require_def)

lemma require_eq_Some [simp]: "require b = Some u \<longleftrightarrow> b"
  by (simp add: require_def)

lemma require_eq_None [simp]: "require b = None \<longleftrightarrow> \<not> b"
  by (simp add: require_def)

lemma cint_ok [simp]: "in_int n \<Longrightarrow> cint n = Some n"
  by (simp add: cint_def)

lemma cint_eq_Some: "cint n = Some m \<longleftrightarrow> in_int n \<and> m = n"
  by (auto simp: cint_def)

lemma v_i_of_i [simp]: "in_int n \<Longrightarrow> v_i (of_i n) = n"
proof -
  assume "in_int n"
  then have "signed_take_bit 31 n = n"
    by (intro signed_take_bit_int_eq_self) (simp_all add: in_int_def)
  then show ?thesis
    by (simp add: v_i_def of_i_def sint_sbintrunc')
qed

lemma of_i_v_i [simp]: "of_i (v_i v) = v"
  by (simp add: v_i_def of_i_def)

lemma in_int_v_i [simp]: "in_int (v_i v)"
  using sint_greater_eq [of v] sint_less [of v] by (simp add: v_i_def in_int_def)

lemma v_i_inject [simp]: "v_i v = v_i w \<longleftrightarrow> v = w"
  by (metis of_i_v_i)

lemma arr_get_ok [simp]: "i < length xs \<Longrightarrow> arr_get xs (int i) = Some (xs ! i)"
  by (simp add: arr_get_def)

lemma arr_set_ok [simp]: "i < length xs \<Longrightarrow> arr_set xs (int i) v = Some (xs[i := v])"
  by (simp add: arr_set_def)

lemma arr_get_eq_Some:
  "arr_get xs i = Some x \<longleftrightarrow> 0 \<le> i \<and> nat i < length xs \<and> x = xs ! nat i"
  by (auto simp: arr_get_def)

lemma arr_set_eq_Some:
  "arr_set xs i v = Some ys \<longleftrightarrow> 0 \<le> i \<and> nat i < length xs \<and> ys = xs[nat i := v]"
  by (auto simp: arr_set_def)

lemma cdiv_pos: "0 \<le> a \<Longrightarrow> 0 < b \<Longrightarrow> in_int a \<Longrightarrow> cdiv a b = Some (a div b)"
proof -
  assume a: "0 \<le> a" and b: "0 < b" and r: "in_int a"
  have eq: "sgn a * sgn b * (\<bar>a\<bar> div \<bar>b\<bar>) = a div b"
    using a b by (cases "a = 0") (simp_all add: sgn_if)
  have "0 \<le> a div b"
    using a b by (simp add: pos_imp_zdiv_nonneg_iff)
  moreover have "a div b \<le> a"
    using a b int_div_le_self [of a b] by (cases "a = 0") auto
  ultimately have "in_int (a div b)"
    using r by (simp add: in_int_def)
  then show ?thesis
    unfolding cdiv_def eq using b by simp
qed

lemma cmod_pos: "0 \<le> a \<Longrightarrow> 0 < b \<Longrightarrow> cmod a b = Some (a mod b)"
  by (cases "a = 0") (auto simp: cmod_def sgn_if)

lemma cdiv_nat: "0 < n \<Longrightarrow> in_int (int k) \<Longrightarrow> cdiv (int k) (int n) = Some (int (k div n))"
  by (subst cdiv_pos) (simp_all add: zdiv_int)

lemma cmod_nat: "0 < n \<Longrightarrow> cmod (int k) (int n) = Some (int (k mod n))"
  by (subst cmod_pos) (simp_all add: zmod_int)

lemma find_from_shift: "find_from i p xs = map_option (\<lambda>k. k + i) (find_idx p xs)"
proof (induction xs arbitrary: i)
  case Nil
  then show ?case by (simp add: find_idx_def)
next
  case (Cons x xs)
  show ?case
    using Cons.IH [of "Suc i"] Cons.IH [of "Suc 0"]
    by (cases "find_idx p xs") (auto simp: find_idx_def)
qed

lemma find_idx_Nil [simp]: "find_idx p [] = None"
  by (simp add: find_idx_def)

lemma find_idx_Cons [simp]:
  "find_idx p (x # xs) = (if p x then Some 0 else map_option Suc (find_idx p xs))"
proof -
  have "find_from (Suc 0) p xs = map_option Suc (find_idx p xs)"
    by (simp add: find_from_shift [of "Suc 0"])
  then show ?thesis by (simp add: find_idx_def)
qed

lemma find_idx_eq_None: "find_idx p xs = None \<longleftrightarrow> (\<forall>x \<in> set xs. \<not> p x)"
  by (induction xs) auto

lemma find_idx_eq_Some:
  "find_idx p xs = Some i \<longleftrightarrow> i < length xs \<and> p (xs ! i) \<and> (\<forall>j < i. \<not> p (xs ! j))"
proof (induction xs arbitrary: i)
  case Nil
  then show ?case by simp
next
  case (Cons x xs)
  show ?case
    by (cases i) (auto simp: Cons.IH less_Suc_eq_0_disj)
qed

lemma find_idx_cong:
  assumes "length xs = length ys" and "\<And>i. i < length ys \<Longrightarrow> p (xs ! i) = q (ys ! i)"
  shows "find_idx p xs = find_idx q ys"
proof (cases "find_idx q ys")
  case None
  then have "\<forall>i < length ys. \<not> q (ys ! i)" by (auto simp: find_idx_eq_None)
  then have "\<forall>x \<in> set xs. \<not> p x" using assms by (auto simp: in_set_conv_nth)
  with None show ?thesis by (simp add: find_idx_eq_None [of p])
next
  case (Some i)
  then have "find_idx p xs = Some i" using assms unfolding find_idx_eq_Some by auto
  with Some show ?thesis by simp
qed

lemma find_idx_SomeD:
  assumes "find_idx p xs = Some i"
  shows "i < length xs" and "p (xs ! i)"
  using assms by (auto simp: find_idx_eq_Some)

lemma strcmp_eq_0 [simp]: "strcmp a b = 0 \<longleftrightarrow> a = b"
  by (induction a b rule: strcmp.induct) auto

lemma takeWhile_not_NUL:
  "NUL \<notin> set s \<Longrightarrow> takeWhile (\<lambda>c. c \<noteq> NUL) (s @ NUL # r) = s"
  by (induction s) auto

lemma cstr_of_terminated:
  "NUL \<notin> set s \<Longrightarrow> cstr_of (s @ NUL # r) = Some s"
  by (simp add: cstr_of_def takeWhile_not_NUL)

lemma cstr_of_strncpy:
  assumes "NUL \<notin> set s" and "length s < n"
  shows "cstr_of (strncpy_bytes s n) = Some s"
proof -
  obtain k where "n - length s = Suc k"
    using assms(2) by (metis Suc_diff_Suc)
  then show ?thesis
    using assms cstr_of_terminated [of s "replicate k NUL"] by (simp add: strncpy_bytes_def)
qed

lemma cstr_of_strncpy_full:
  "NUL \<notin> set s \<Longrightarrow> n \<le> length s \<Longrightarrow> cstr_of (strncpy_bytes s n) = None"
  by (auto simp: cstr_of_def strncpy_bytes_def dest: in_set_takeD)

lemma length_strncpy_bytes [simp]: "length (strncpy_bytes s n) = n"
  by (simp add: strncpy_bytes_def)

lemma blk_write_append:
  assumes "length p = off" and "length m = length xs"
  shows "blk_write (p @ m @ q) off xs = Some (p @ xs @ q)"
  using assms by (simp add: blk_write_def)

lemma length_concat_same: "\<forall>x \<in> set xs. length x = n \<Longrightarrow> length (concat xs) = length xs * n"
  by (induction xs) auto

lemma skip_ws_nonspace [simp]: "s = [] \<or> \<not> is_space (hd s) \<Longrightarrow> skip_ws s = s"
  by (cases s) (auto simp: skip_ws_def)

lemma skip_ws_append: "list_all is_space w \<Longrightarrow> skip_ws (w @ s) = skip_ws s"
  by (induction w) (auto simp: skip_ws_def)

lemma of_nat_word_mod_0: "a < 2 ^ 32 \<Longrightarrow> (of_nat a mod st = (0 :: 32 word)) \<longleftrightarrow> (unat st dvd a)"
proof -
  assume "a < 2 ^ 32"
  then have "unat (of_nat a :: 32 word) = a" by (simp add: unat_of_nat)
  moreover have "(of_nat a mod st = 0) \<longleftrightarrow> unat (of_nat a :: 32 word) mod unat st = 0"
    by (metis unat_mod unat_eq_zero)
  ultimately show ?thesis by (simp add: dvd_eq_mod_eq_0)
qed

end
