(* ===== verification/Storage.thy ===== *)
theory Storage
  imports C_Prelude
begin

text \<open>
  The interface src/lib/storage/include/suchai/storage.h: the records that cross it, and the
  operations an implementation (RAM, flash, SQLite) links in, as a record of functions over the
  implementation's state. The data repository is written against this record; the locales at
  the end are the contract it relies on.

  The result of an operation is its return code and its new state; an output parameter is
  \<open>Some v\<close> when the call wrote \<open>v\<close> through the pointer and \<open>None\<close> when it left it alone.
  The chunks of memory the implementations work on are \<open>mem\<close>: a size and the byte at each offset.
\<close>

section \<open>Byte memories\<close>

record mem =
  mem_size :: nat
  mem_at :: "nat \<Rightarrow> byte"

definition put_bytes :: "(nat \<Rightarrow> byte) \<Rightarrow> nat \<Rightarrow> byte list \<Rightarrow> nat \<Rightarrow> byte" where
  "put_bytes f off bs a = (if off \<le> a \<and> a < off + length bs then bs ! (a - off) else f a)"

definition mem_write :: "mem \<Rightarrow> int \<Rightarrow> byte list \<Rightarrow> mem option" where
  "mem_write m off bs =
     (if 0 \<le> off \<and> off + int (length bs) \<le> int (mem_size m)
      then Some (m\<lparr>mem_at := put_bytes (mem_at m) (nat off) bs\<rparr>) else None)"

definition mem_read :: "mem \<Rightarrow> int \<Rightarrow> nat \<Rightarrow> byte list option" where
  "mem_read m off n =
     (if 0 \<le> off \<and> off + int n \<le> int (mem_size m)
      then Some (map (\<lambda>k. mem_at m (nat off + k)) [0..<n]) else None)"

definition mem_fill :: "mem \<Rightarrow> int \<Rightarrow> nat \<Rightarrow> byte \<Rightarrow> mem option" where
  "mem_fill m off n b = mem_write m off (replicate n b)"

section \<open>Records of storage.h\<close>

definition ST_FP_NULL :: int where [config_defs]: "ST_FP_NULL = - 1"

definition SCH_ST_STR_SIZE :: nat where [config_defs]: "SCH_ST_STR_SIZE = 128"

record fp_entry =
  unixtime :: int
  executions :: int
  periodical :: int
  node :: int
  fp_cmd :: "string option"
  fp_args :: "string option"

definition fp_entry_copy :: "fp_entry \<Rightarrow> fp_entry" where
  "fp_entry_copy src =
     \<lparr>unixtime = unixtime src, executions = executions src, periodical = periodical src,
      node = node src,
      fp_cmd = (case fp_cmd src of Some s \<Rightarrow> Some s | None \<Rightarrow> None),
      fp_args = (case fp_args src of Some s \<Rightarrow> Some s | None \<Rightarrow> None)\<rparr>"

definition fp_entry_clear :: "fp_entry \<Rightarrow> fp_entry" where
  "fp_entry_clear e =
     e\<lparr>unixtime := ST_FP_NULL, executions := 0, periodical := 0, node := SCH_COMM_NODE,
       fp_cmd := None, fp_args := None\<rparr>"

record data_map =
  dm_table :: string
  dm_size :: nat
  sys_index :: int
  sys_ack :: int
  data_order :: string
  var_names :: string

section \<open>The operations of an implementation\<close>

record 's storage_ops =
  op_init :: "'s \<Rightarrow> (int \<times> 's) option"
  op_close :: "'s \<Rightarrow> (int \<times> 's) option"
  op_status_init :: "int \<Rightarrow> bool \<Rightarrow> 's \<Rightarrow> (int \<times> 's) option"
  op_fp_init :: "int \<Rightarrow> bool \<Rightarrow> 's \<Rightarrow> (int \<times> 's) option"
  op_payload_init :: "int \<Rightarrow> bool \<Rightarrow> 's \<Rightarrow> (int \<times> 's) option"
  op_status_get :: "int \<Rightarrow> 's \<Rightarrow> (int \<times> value32 option) option"
  op_status_set :: "int \<Rightarrow> value32 \<Rightarrow> 's \<Rightarrow> (int \<times> 's) option"
  op_fp_set :: "int \<Rightarrow> string option \<Rightarrow> string option \<Rightarrow> int \<Rightarrow> int \<Rightarrow> int \<Rightarrow> 's \<Rightarrow> (int \<times> 's) option"
  op_fp_get_idx :: "int \<Rightarrow> 's \<Rightarrow> (int \<times> fp_entry option) option"
  op_fp_get_args :: "int \<Rightarrow> 's \<Rightarrow> (int \<times> (string \<times> string \<times> int \<times> int \<times> int) option) option"
  op_fp_delete_row :: "int \<Rightarrow> 's \<Rightarrow> (int \<times> 's) option"
  op_fp_delete_row_idx :: "int \<Rightarrow> 's \<Rightarrow> (int \<times> 's) option"
  op_fp_reset :: "'s \<Rightarrow> (int \<times> 's) option"
  op_payload_set :: "int \<Rightarrow> int \<Rightarrow> byte list option \<Rightarrow> data_map \<Rightarrow> 's \<Rightarrow> (int \<times> 's) option"
  op_payload_get :: "int \<Rightarrow> int \<Rightarrow> data_map \<Rightarrow> 's \<Rightarrow> (int \<times> byte list option) option"
  op_payload_reset :: "'s \<Rightarrow> (int \<times> 's) option"
  op_payload_reset_table :: "int \<Rightarrow> 's \<Rightarrow> (int \<times> 's) option"

section \<open>Lemmas on memories and entries\<close>

lemma mem_write_eq_Some:
  "mem_write m off bs = Some m' \<longleftrightarrow>
     0 \<le> off \<and> off + int (length bs) \<le> int (mem_size m) \<and>
     m' = m\<lparr>mem_at := put_bytes (mem_at m) (nat off) bs\<rparr>"
  by (auto simp: mem_write_def)

lemma mem_size_write: "mem_write m off bs = Some m' \<Longrightarrow> mem_size m' = mem_size m"
  by (simp add: mem_write_eq_Some)

lemma mem_write_ok:
  "0 \<le> off \<Longrightarrow> off + int (length bs) \<le> int (mem_size m) \<Longrightarrow> \<exists>m'. mem_write m off bs = Some m'"
  by (simp add: mem_write_def)

lemma mem_read_eq_Some:
  "mem_read m off n = Some bs \<longleftrightarrow>
     0 \<le> off \<and> off + int n \<le> int (mem_size m) \<and> bs = map (\<lambda>k. mem_at m (nat off + k)) [0..<n]"
  by (auto simp: mem_read_def)

lemma mem_read_ok:
  "0 \<le> off \<Longrightarrow> off + int n \<le> int (mem_size m) \<Longrightarrow> \<exists>bs. mem_read m off n = Some bs"
  by (simp add: mem_read_def)

lemma length_mem_read: "mem_read m off n = Some bs \<Longrightarrow> length bs = n"
  by (simp add: mem_read_eq_Some)

lemma map_put_bytes_same: "map (\<lambda>k. put_bytes f off bs (off + k)) [0..<length bs] = bs"
  by (rule nth_equalityI) (simp_all add: put_bytes_def)

lemma map_put_bytes_inside:
  "off \<le> off' \<Longrightarrow> off' + k \<le> off + length bs \<Longrightarrow>
   map (\<lambda>j. put_bytes f off bs (off' + j)) [0..<k] = take k (drop (off' - off) bs)"
  by (rule nth_equalityI) (simp_all add: put_bytes_def)

lemma put_bytes_other: "a < off \<or> off + length bs \<le> a \<Longrightarrow> put_bytes f off bs a = f a"
  by (auto simp: put_bytes_def)

lemma mem_read_write_same:
  "mem_write m off bs = Some m' \<Longrightarrow> mem_read m' off (length bs) = Some bs"
  by (simp add: mem_write_eq_Some mem_read_def map_put_bytes_same)

lemma mem_read_write_inside:
  assumes "mem_write m off bs = Some m'" and "off \<le> off'"
    and "off' + int k \<le> off + int (length bs)"
  shows "mem_read m' off' k = Some (take k (drop (nat (off' - off)) bs))"
proof -
  have "map (\<lambda>j. put_bytes (mem_at m) (nat off) bs (nat off' + j)) [0..<k] =
      take k (drop (nat off' - nat off) bs)"
    using assms by (intro map_put_bytes_inside) (auto simp: mem_write_eq_Some)
  moreover have "nat off' - nat off = nat (off' - off)"
    using assms by (auto simp: mem_write_eq_Some)
  ultimately show ?thesis
    using assms by (simp add: mem_write_eq_Some mem_read_def)
qed

lemma mem_read_write_disjoint:
  assumes "mem_write m off bs = Some m'"
    and "off' + int n \<le> off \<or> off + int (length bs) \<le> off'"
  shows "mem_read m' off' n = mem_read m off' n"
proof (cases "0 \<le> off'")
  case True
  have "put_bytes (mem_at m) (nat off) bs (nat off' + j) = mem_at m (nat off' + j)" if "j < n" for j
    using assms True that by (intro put_bytes_other) (auto simp: mem_write_eq_Some)
  then show ?thesis
    using assms by (simp add: mem_write_eq_Some mem_read_def)
qed (simp add: mem_read_def)

lemma mem_read_fill_same:
  "mem_fill m off n b = Some m' \<Longrightarrow> off \<le> off' \<Longrightarrow> off' + int k \<le> off + int n \<Longrightarrow>
   mem_read m' off' k = Some (replicate k b)"
  unfolding mem_fill_def by (subst mem_read_write_inside) (auto simp: min_def)

lemma mem_read_fill_disjoint:
  assumes "mem_fill m off n b = Some m'" and "off' + int k \<le> off \<or> off + int n \<le> off'"
  shows "mem_read m' off' k = mem_read m off' k"
  using assms unfolding mem_fill_def by (intro mem_read_write_disjoint) auto

lemma mem_size_fill: "mem_fill m off n b = Some m' \<Longrightarrow> mem_size m' = mem_size m"
  by (simp add: mem_fill_def mem_size_write)

text \<open>Copying an entry copies its strings: the copy is the entry.\<close>

lemma fp_entry_copy_id [simp]: "fp_entry_copy e = e"
  by (cases e) (simp add: fp_entry_copy_def split: option.split)

lemma unixtime_clear [simp]: "unixtime (fp_entry_clear e) = - 1"
  by (simp add: fp_entry_clear_def config_defs)

lemma fp_entry_clear_const: "fp_entry_clear e = fp_entry_clear e'"
  by (cases e; cases e') (simp add: fp_entry_clear_def)

section \<open>The contract of an implementation\<close>

text \<open>
  What the data repository relies on. \<open>vars\<close> is the array of stored status values (all copies),
  \<open>slots\<close> the flight-plan table, \<open>samples s p k\<close> the sample \<open>k\<close> of payload \<open>p\<close>. Each law holds in the
  states of the implementation's invariant \<open>inv\<close> and says what the operation returns, what it
  changes and what it leaves.
\<close>

locale status_store =
  fixes ops :: "('s, 'z) storage_ops_scheme"
    and inv :: "'s \<Rightarrow> bool"
    and vars :: "'s \<Rightarrow> value32 list"
  assumes status_get:
      "inv s \<Longrightarrow> 0 \<le> i \<Longrightarrow> i < int (length (vars s)) \<Longrightarrow>
       op_status_get ops i s = Some (SCH_ST_OK, Some (vars s ! nat i))"
    and status_set:
      "inv s \<Longrightarrow> 0 \<le> i \<Longrightarrow> i < int (length (vars s)) \<Longrightarrow>
       \<exists>s'. op_status_set ops i v s = Some (SCH_ST_OK, s') \<and> inv s' \<and>
            vars s' = (vars s)[nat i := v]"
begin

lemma status_set_then_get:
  assumes "inv s" "0 \<le> i" "i < int (length (vars s))" "0 \<le> j" "j < int (length (vars s))"
  shows "\<exists>s'. op_status_set ops i v s = Some (SCH_ST_OK, s') \<and>
     op_status_get ops j s' = Some (SCH_ST_OK, Some (if i = j then v else vars s ! nat j))"
proof -
  from status_set [OF assms(1-3)] obtain s' where
    s': "op_status_set ops i v s = Some (SCH_ST_OK, s')" "inv s'" "vars s' = (vars s)[nat i := v]"
    by blast
  then show ?thesis
    using assms status_get [of s' j] by (auto simp: nth_list_update nat_eq_iff)
qed

end

definition fp_free :: "fp_entry \<Rightarrow> bool" where
  "fp_free e \<longleftrightarrow> unixtime e = ST_FP_NULL"

locale flight_store = status_store ops inv vars
  for ops :: "('s, 'z) storage_ops_scheme" and inv vars +
  fixes slots :: "'s \<Rightarrow> fp_entry list"
  assumes slots_length: "inv s \<Longrightarrow> length (slots s) = nat SCH_FP_MAX_ENTRIES"
    and slots_filled: "inv s \<Longrightarrow> e \<in> set (slots s) \<Longrightarrow> \<not> fp_free e \<Longrightarrow>
       fp_cmd e \<noteq> None \<and> fp_args e \<noteq> None"
    and fp_set: "inv s \<Longrightarrow> 0 \<le> t \<Longrightarrow> find_idx fp_free (slots s) = Some i \<Longrightarrow>
       \<exists>s'. op_fp_set ops t (Some c) (Some a) n p nd s = Some (SCH_ST_OK, s') \<and> inv s' \<and>
            vars s' = vars s \<and>
            slots s' = (slots s)[i := \<lparr>unixtime = t, executions = n, periodical = p, node = nd,
                                        fp_cmd = Some c, fp_args = Some a\<rparr>]"
    and fp_set_full: "inv s \<Longrightarrow> find_idx fp_free (slots s) = None \<Longrightarrow>
       op_fp_set ops t (Some c) (Some a) n p nd s = Some (SCH_ST_ERROR, s)"
    and fp_get_args: "inv s \<Longrightarrow> 0 \<le> t \<Longrightarrow> find_idx (\<lambda>e. unixtime e = t) (slots s) = Some i \<Longrightarrow>
       op_fp_get_args ops t s =
         Some (SCH_ST_OK, Some (the (fp_cmd (slots s ! i)), the (fp_args (slots s ! i)),
                 executions (slots s ! i), periodical (slots s ! i), node (slots s ! i)))"
    and fp_get_args_none: "inv s \<Longrightarrow> find_idx (\<lambda>e. unixtime e = t) (slots s) = None \<Longrightarrow>
       op_fp_get_args ops t s = Some (SCH_ST_ERROR, None)"
    and fp_delete_row: "inv s \<Longrightarrow> find_idx (\<lambda>e. unixtime e = t) (slots s) = Some i \<Longrightarrow>
       \<exists>s'. op_fp_delete_row ops t s = Some (SCH_ST_OK, s') \<and> inv s' \<and> vars s' = vars s \<and>
            slots s' = (slots s)[i := fp_entry_clear (slots s ! i)]"
    and fp_delete_row_none: "inv s \<Longrightarrow> find_idx (\<lambda>e. unixtime e = t) (slots s) = None \<Longrightarrow>
       op_fp_delete_row ops t s = Some (SCH_ST_ERROR, s)"
    and fp_get_idx: "inv s \<Longrightarrow> i < length (slots s) \<Longrightarrow>
       op_fp_get_idx ops (int i) s = Some (SCH_ST_OK, Some (slots s ! i))"
    and fp_delete_row_idx: "inv s \<Longrightarrow> i < length (slots s) \<Longrightarrow>
       \<exists>s'. op_fp_delete_row_idx ops (int i) s = Some (SCH_ST_OK, s') \<and> inv s' \<and>
            vars s' = vars s \<and> slots s' = (slots s)[i := fp_entry_clear (slots s ! i)]"
    and status_set_slots: "inv s \<Longrightarrow> op_status_set ops q v s = Some (rc, s') \<Longrightarrow>
       slots s' = slots s"

locale payload_store = status_store ops inv vars
  for ops :: "('s, 'z) storage_ops_scheme" and inv vars +
  fixes dms :: "data_map list"
    and cap :: "nat \<Rightarrow> nat"
    and samples :: "'s \<Rightarrow> nat \<Rightarrow> nat \<Rightarrow> byte list"
  assumes payload_get: "inv s \<Longrightarrow> p < length dms \<Longrightarrow> k < cap p \<Longrightarrow>
       op_payload_get ops (int p) (int k) (dms ! p) s = Some (SCH_ST_OK, Some (samples s p k))"
    and payload_set: "inv s \<Longrightarrow> p < length dms \<Longrightarrow> k < cap p \<Longrightarrow>
       length bytes = dm_size (dms ! p) \<Longrightarrow>
       \<exists>s'. op_payload_set ops (int p) (int k) (Some bytes) (dms ! p) s = Some (SCH_ST_OK, s') \<and>
            inv s' \<and> vars s' = vars s \<and> samples s' p k = bytes \<and>
            (\<forall>p' k'. p' < length dms \<longrightarrow> k' < cap p' \<longrightarrow> (p', k') \<noteq> (p, k) \<longrightarrow>
               samples s' p' k' = samples s p' k')"
    and status_set_samples: "inv s \<Longrightarrow> op_status_set ops i v s = Some (rc, s') \<Longrightarrow>
       samples s' = samples s"
    and payload_reset_table: "inv s \<Longrightarrow> p < length dms \<Longrightarrow>
       \<exists>s'. op_payload_reset_table ops (int p) s = Some (SCH_ST_OK, s') \<and> inv s' \<and>
            vars s' = vars s \<and>
            (\<forall>k. k < cap p \<longrightarrow> samples s' p k = replicate (dm_size (dms ! p)) 0) \<and>
            (\<forall>p' k'. p' < length dms \<longrightarrow> k' < cap p' \<longrightarrow> p' \<noteq> p \<longrightarrow>
               samples s' p' k' = samples s p' k')"

end
