(* ===== verification/C_Scanf.thy ===== *)
theory C_Scanf
  imports C_Prelude
begin

text \<open>
  The part of \<^verbatim>\<open>sscanf\<close> and \<^verbatim>\<open>sprintf\<close> of the C library the commands parse and print their
  arguments with: white space, literal characters and the conversions \<^verbatim>\<open>%d %i %u %s %n %f\<close>.
  A conversion whose value does not fit its object, and a conversion outside this list, have no
  defined behaviour (\<open>None\<close>). \<^verbatim>\<open>%f\<close> reads a float through a parameter, the library's own
  decimal-to-binary conversion, which gives the bits of the float and what is left of the input.
\<close>

section \<open>Model\<close>

datatype directive =
    DSpace | DLit char | DInt | DAny | DUint | DStr | DPos | DFloat | DBad

datatype scan_arg =
    AInt int | AUint "32 word" | AStr string | APos nat | AFloat value32

type_synonym float_scan = "string \<Rightarrow> (value32 \<times> string) option"

definition conversion :: "char \<Rightarrow> directive" where
  "conversion d =
     (if d = CHR ''d'' then DInt
      else if d = CHR ''i'' then DAny
      else if d = CHR ''u'' then DUint
      else if d = CHR ''s'' then DStr
      else if d = CHR ''n'' then DPos
      else if d = CHR ''f'' then DFloat
      else DBad)"

fun parse_fmt :: "string \<Rightarrow> directive list" where
  "parse_fmt [] = []"
| "parse_fmt [c] = [if is_space c then DSpace else if c = CHR ''%'' then DBad else DLit c]"
| "parse_fmt (c # d # cs) =
     (if is_space c then DSpace # parse_fmt (d # cs)
      else if c = CHR ''%'' then conversion d # parse_fmt cs
      else DLit c # parse_fmt (d # cs))"

definition is_digit :: "char \<Rightarrow> bool" where
  "is_digit c \<longleftrightarrow> 48 \<le> (of_char c :: nat) \<and> (of_char c :: nat) \<le> 57"

definition digit_val :: "char \<Rightarrow> int" where
  "digit_val c = int (of_char c) - 48"

fun digits_val :: "int \<Rightarrow> string \<Rightarrow> int" where
  "digits_val acc [] = acc"
| "digits_val acc (c # cs) = digits_val (10 * acc + digit_val c) cs"

definition scan_nat :: "string \<Rightarrow> (int \<times> string) option" where
  "scan_nat s =
     (let ds = takeWhile is_digit s
      in if ds = [] then None else Some (digits_val 0 ds, dropWhile is_digit s))"

definition scan_int :: "string \<Rightarrow> (int \<times> string) option" where
  "scan_int s =
     (case s of
        [] \<Rightarrow> None
      | c # cs \<Rightarrow>
          if c = CHR ''-'' then map_option (\<lambda>(v, r). (- v, r)) (scan_nat cs)
          else if c = CHR ''+'' then scan_nat cs
          else scan_nat s)"

text \<open>The numbers of \<^verbatim>\<open>%i\<close>: hexadecimal after \<^verbatim>\<open>0x\<close>, octal after \<^verbatim>\<open>0\<close>, otherwise decimal.\<close>

definition is_octal :: "char \<Rightarrow> bool" where
  "is_octal c \<longleftrightarrow> 48 \<le> (of_char c :: nat) \<and> (of_char c :: nat) \<le> 55"

definition hex_val :: "char \<Rightarrow> int option" where
  "hex_val c =
     (let k = (of_char c :: nat)
      in if is_digit c then Some (digit_val c)
         else if 65 \<le> k \<and> k \<le> 70 then Some (int k - 55)
         else if 97 \<le> k \<and> k \<le> 102 then Some (int k - 87)
         else None)"

definition base_val :: "int \<Rightarrow> string \<Rightarrow> int" where
  "base_val b ds = foldl (\<lambda>acc c. b * acc + (case hex_val c of Some v \<Rightarrow> v | None \<Rightarrow> 0)) 0 ds"

definition scan_any_nat :: "string \<Rightarrow> (int \<times> string) option" where
  "scan_any_nat s =
     (if take 2 s = ''0x'' \<or> take 2 s = ''0X'' then
        (let ds = takeWhile (\<lambda>c. hex_val c \<noteq> None) (drop 2 s)
         in if ds = [] then None else Some (base_val 16 ds, dropWhile (\<lambda>c. hex_val c \<noteq> None) (drop 2 s)))
      else if take 1 s = ''0'' then Some (base_val 8 (takeWhile is_octal s), dropWhile is_octal s)
      else scan_nat s)"

definition scan_any :: "string \<Rightarrow> (int \<times> string) option" where
  "scan_any s =
     (case s of
        [] \<Rightarrow> None
      | c # cs \<Rightarrow>
          if c = CHR ''-'' then map_option (\<lambda>(v, r). (- v, r)) (scan_any_nat cs)
          else if c = CHR ''+'' then scan_any_nat cs
          else scan_any_nat s)"

text \<open>The value of \<^verbatim>\<open>sscanf\<close> when the input ends: \<^verbatim>\<open>EOF\<close> before the first conversion.\<close>

definition eof_count :: "int \<Rightarrow> int" where
  "eof_count k = (if k = 0 then - 1 else k)"

fun scan ::
  "float_scan \<Rightarrow> nat \<Rightarrow> directive list \<Rightarrow> string \<Rightarrow> int \<Rightarrow> (int \<times> scan_arg list) option" where
  "scan F n [] inp k = Some (k, [])"
| "scan F n (DSpace # ds) inp k = scan F n ds (skip_ws inp) k"
| "scan F n (DLit c # ds) inp k =
     (case inp of
        [] \<Rightarrow> Some (eof_count k, [])
      | x # xs \<Rightarrow> if x = c then scan F n ds xs k else Some (k, []))"
| "scan F n (DPos # ds) inp k =
     do { (r, as) \<leftarrow> scan F n ds inp k; Some (r, APos (n - length inp) # as) }"
| "scan F n (DStr # ds) inp k =
     (let i = skip_ws inp
      in if i = [] then Some (eof_count k, [])
         else do { (r, as) \<leftarrow> scan F n ds (dropWhile (Not \<circ> is_space) i) (k + 1);
                   Some (r, AStr (takeWhile (Not \<circ> is_space) i) # as) })"
| "scan F n (DInt # ds) inp k =
     (let i = skip_ws inp
      in if i = [] then Some (eof_count k, [])
         else case scan_int i of
                None \<Rightarrow> Some (k, [])
              | Some (v, rest) \<Rightarrow>
                  do { require (in_int v);
                       (r, as) \<leftarrow> scan F n ds rest (k + 1);
                       Some (r, AInt v # as) })"
| "scan F n (DAny # ds) inp k =
     (let i = skip_ws inp
      in if i = [] then Some (eof_count k, [])
         else case scan_any i of
                None \<Rightarrow> Some (k, [])
              | Some (v, rest) \<Rightarrow>
                  do { require (in_int v);
                       (r, as) \<leftarrow> scan F n ds rest (k + 1);
                       Some (r, AInt v # as) })"
| "scan F n (DUint # ds) inp k =
     (let i = skip_ws inp
      in if i = [] then Some (eof_count k, [])
         else case scan_int i of
                None \<Rightarrow> Some (k, [])
              | Some (v, rest) \<Rightarrow>
                  do { require (\<bar>v\<bar> < 2 ^ 32);
                       (r, as) \<leftarrow> scan F n ds rest (k + 1);
                       Some (r, AUint (word_of_int v) # as) })"
| "scan F n (DFloat # ds) inp k =
     (let i = skip_ws inp
      in if i = [] then Some (eof_count k, [])
         else case F i of
                None \<Rightarrow> Some (k, [])
              | Some (v, rest) \<Rightarrow>
                  do { (r, as) \<leftarrow> scan F n ds rest (k + 1);
                       Some (r, AFloat v # as) })"
| "scan F n (DBad # ds) inp k = None"

definition sscanf_f :: "float_scan \<Rightarrow> string \<Rightarrow> string \<Rightarrow> (int \<times> scan_arg list) option" where
  "sscanf_f F s fmt = scan F (length s) (parse_fmt fmt) s 0"

text \<open>The formats without \<^verbatim>\<open>%f\<close> never consult the parameter.\<close>

definition sscanf :: "string \<Rightarrow> string \<Rightarrow> (int \<times> scan_arg list) option" where
  "sscanf s fmt = sscanf_f (\<lambda>_. None) s fmt"

text \<open>\<^verbatim>\<open>%d\<close> of \<^verbatim>\<open>sprintf\<close>.\<close>

fun show_nat :: "nat \<Rightarrow> string" where
  "show_nat n =
     (if n < 10 then [char_of (48 + n)] else show_nat (n div 10) @ [char_of (48 + n mod 10)])"

declare show_nat.simps [simp del]

definition show_int :: "int \<Rightarrow> string" where
  "show_int v = (if v < 0 then CHR ''-'' # show_nat (nat (- v)) else show_nat (nat v))"

text \<open>The pieces \<^verbatim>\<open>strtok_r\<close> cuts a string into at blanks.\<close>

function strtok_sp :: "string \<Rightarrow> string list" where
  "strtok_sp s =
     (let t = dropWhile (\<lambda>c. c = CHR '' '') s
      in if t = [] then []
         else takeWhile (\<lambda>c. c \<noteq> CHR '' '') t # strtok_sp (dropWhile (\<lambda>c. c \<noteq> CHR '' '') t))"
  by pat_completeness auto
termination
proof (relation "measure length")
  fix s t :: string
  assume t: "t = dropWhile (\<lambda>c. c = CHR '' '') s" "t \<noteq> []"
  have "hd t \<noteq> CHR '' ''" using hd_dropWhile [of "\<lambda>c. c = CHR '' ''" s] t by simp
  then have "length (dropWhile (\<lambda>c. c \<noteq> CHR '' '') t) < length t"
    using t(2) by (cases t) (auto simp: less_Suc_eq_le length_dropWhile_le)
  also have "length t \<le> length s" by (simp add: t(1) length_dropWhile_le)
  finally show "(dropWhile (\<lambda>c. c \<noteq> CHR '' '') t, s) \<in> measure length" by simp
qed simp

declare strtok_sp.simps [simp del]

section \<open>Lemmas\<close>

lemma of_char_digit: "d < 10 \<Longrightarrow> of_char (char_of (48 + d :: nat)) = (48 + d :: nat)"
  by (simp add: of_char_of)

lemma is_digit_char_of [simp]: "d < 10 \<Longrightarrow> is_digit (char_of (48 + d :: nat))"
  by (simp add: is_digit_def)

lemma digit_val_char_of [simp]: "d < 10 \<Longrightarrow> digit_val (char_of (48 + d :: nat)) = int d"
  by (simp add: digit_val_def)

lemma digits_val_append: "digits_val acc (xs @ ys) = digits_val (digits_val acc xs) ys"
  by (induction xs arbitrary: acc) auto

lemma show_nat_digits: "list_all is_digit (show_nat n) \<and> show_nat n \<noteq> []"
proof (induction n rule: show_nat.induct)
  case (1 n)
  show ?case
  proof (cases "n < 10")
    case True
    then show ?thesis by (subst show_nat.simps, subst (2) show_nat.simps) simp
  next
    case False
    with 1 have "list_all is_digit (show_nat (n div 10))" by simp
    with False show ?thesis by (subst show_nat.simps, subst (2) show_nat.simps) simp
  qed
qed

lemma digits_val_show_nat: "digits_val 0 (show_nat n) = int n"
proof (induction n rule: show_nat.induct)
  case (1 n)
  show ?case
  proof (cases "n < 10")
    case True
    then show ?thesis by (subst show_nat.simps) simp
  next
    case False
    with 1 have "digits_val 0 (show_nat (n div 10)) = int (n div 10)" by simp
    with False show ?thesis
      by (subst show_nat.simps) (simp add: digits_val_append zdiv_int zmod_int)
  qed
qed

lemma takeWhile_prefix:
  "list_all P xs \<Longrightarrow> ys = [] \<or> \<not> P (hd ys) \<Longrightarrow> takeWhile P (xs @ ys) = xs"
  by (induction xs) (cases ys; auto)+

lemma dropWhile_prefix:
  "list_all P xs \<Longrightarrow> ys = [] \<or> \<not> P (hd ys) \<Longrightarrow> dropWhile P (xs @ ys) = ys"
  by (induction xs) (cases ys; auto)+

lemma scan_nat_show:
  "r = [] \<or> \<not> is_digit (hd r) \<Longrightarrow> scan_nat (show_nat n @ r) = Some (int n, r)"
  using show_nat_digits [of n]
  by (simp add: scan_nat_def Let_def takeWhile_prefix dropWhile_prefix digits_val_show_nat)

lemma is_digit_hd_show_nat: "is_digit (hd (show_nat n @ r))"
  using show_nat_digits [of n] by (cases "show_nat n") auto

lemma not_digit_sign [simp]: "\<not> is_digit (CHR ''-'')" "\<not> is_digit (CHR ''+'')"
  by (simp_all add: is_digit_def)

lemma digit_not_space: "is_digit c \<Longrightarrow> \<not> is_space c"
  by (auto simp: is_digit_def is_space_def)

text \<open>\<^verbatim>\<open>%d\<close> reads back what \<^verbatim>\<open>%d\<close> printed.\<close>

lemma scan_int_show:
  assumes "r = [] \<or> \<not> is_digit (hd r)"
  shows "scan_int (show_int v @ r) = Some (v, r)"
proof (cases "v < 0")
  case True
  then show ?thesis
    using scan_nat_show [OF assms, of "nat (- v)"] by (simp add: scan_int_def show_int_def)
next
  case False
  obtain c cs where s: "show_nat (nat v) @ r = c # cs"
    using show_nat_digits [of "nat v"] by (cases "show_nat (nat v)") auto
  have "is_digit c"
    using is_digit_hd_show_nat [of "nat v" r] s by simp
  then have "c \<noteq> CHR ''-''" "c \<noteq> CHR ''+''" by auto
  then have "scan_int (show_nat (nat v) @ r) = scan_nat (show_nat (nat v) @ r)"
    by (simp add: scan_int_def s)
  with False show ?thesis
    using scan_nat_show [OF assms, of "nat v"] by (simp add: show_int_def)
qed

lemma sign_not_space [simp]: "\<not> is_space (CHR ''-'')"
  by (simp add: is_space_def)

lemma show_int_hd: "\<not> is_space (hd (show_int v)) \<and> show_int v \<noteq> []"
proof (cases "v < 0")
  case False
  then show ?thesis
    using show_nat_digits [of "nat v"] is_digit_hd_show_nat [of "nat v" "[]"]
    by (simp add: show_int_def digit_not_space)
qed (simp add: show_int_def)

lemma show_int_Nil [simp]: "show_int v \<noteq> []"
  using show_int_hd by blast

lemma skip_ws_show_int [simp]: "skip_ws (show_int v @ r) = show_int v @ r"
  using show_int_hd [of v] by (intro skip_ws_nonspace) (simp add: hd_append)

lemma scan_DInt_show:
  assumes "in_int v" and "r = [] \<or> \<not> is_digit (hd r)"
  shows "scan F n (DInt # ds) (show_int v @ r) k =
     do { (c, as) \<leftarrow> scan F n ds r (k + 1); Some (c, AInt v # as) }"
  using assms scan_int_show [OF assms(2), of v] by (simp add: Let_def)

lemma scan_DStr_word:
  assumes "w \<noteq> []" and "list_all (Not \<circ> is_space) w" and "r = [] \<or> is_space (hd r)"
  shows "scan F n (DStr # ds) (w @ r) k =
     do { (c, as) \<leftarrow> scan F n ds r (k + 1); Some (c, AStr w # as) }"
proof -
  have "\<not> is_space (hd (w @ r))"
    using assms(1,2) by (cases w) auto
  then have "skip_ws (w @ r) = w @ r"
    by (intro skip_ws_nonspace) simp
  moreover have "takeWhile (Not \<circ> is_space) (w @ r) = w"
    "dropWhile (Not \<circ> is_space) (w @ r) = r"
    using assms(2,3) by (simp_all add: takeWhile_prefix dropWhile_prefix)
  ultimately show ?thesis
    using assms(1) by (simp add: Let_def)
qed

section \<open>The parameters of a command\<close>

text \<open>
  What every handler starts with, \<^verbatim>\<open>params == NULL || sscanf(params, fmt, ...) != n\<close>: the inner
  \<open>None\<close> is the syntax error. A string conversion writes into a buffer of \<open>buf\<close> bytes, which it must
  fit with its terminator.
\<close>

fun arg_fits :: "nat \<Rightarrow> scan_arg \<Rightarrow> bool" where
  "arg_fits buf (AStr s) = (length s < buf)"
| "arg_fits buf _ = True"

definition parse_params_f ::
    "float_scan \<Rightarrow> nat \<Rightarrow> string \<Rightarrow> char list option \<Rightarrow> int \<Rightarrow> scan_arg list option option" where
  "parse_params_f F buf fmt params n =
     (case params of
        None \<Rightarrow> Some None
      | Some b \<Rightarrow>
          do { p \<leftarrow> cstr_of b;
               (k, as) \<leftarrow> sscanf_f F p fmt;
               require (list_all (arg_fits buf) as);
               Some (if k = n then Some as else None) })"

definition parse_params ::
    "nat \<Rightarrow> string \<Rightarrow> char list option \<Rightarrow> int \<Rightarrow> scan_arg list option option" where
  "parse_params buf fmt params n = parse_params_f (\<lambda>_. None) buf fmt params n"

lemma scan_AInt_range: "scan F n ds inp k = Some (r, as) \<Longrightarrow> AInt v \<in> set as \<Longrightarrow> in_int v"
  by (induction F n ds inp k arbitrary: r as rule: scan.induct)
    (auto simp: Let_def require_def split: list.splits if_splits option.splits bind_splits)

lemma parse_params_AInt_range: "parse_params buf fmt params n = Some (Some as) \<Longrightarrow> AInt v \<in> set as \<Longrightarrow> in_int v"
  using scan_AInt_range
  by (fastforce simp: parse_params_def parse_params_f_def sscanf_f_def split: option.splits bind_splits if_splits)

lemma parse_params_None [simp]: "parse_params buf fmt None n = Some None"
  by (simp add: parse_params_def parse_params_f_def)

lemma parse_params_f_None [simp]: "parse_params_f F buf fmt None n = Some None"
  by (simp add: parse_params_f_def)

lemma scan_DSpace_sp: "\<not> is_space c \<Longrightarrow> scan F n (DSpace # ds) (CHR '' '' # c # r) k = scan F n ds (c # r) k"
  by (simp add: skip_ws_def is_space_def)

lemma is_space_blank [simp]: "is_space (CHR '' '')"
  by (simp add: is_space_def)

lemma is_digit_blank [simp]: "\<not> is_digit (CHR '' '')"
  by (simp add: is_digit_def)

lemma skip_ws_blank [simp]: "skip_ws (CHR '' '' # r) = skip_ws r"
  by (simp add: skip_ws_def)

lemma skip_ws_Nil [simp]: "skip_ws [] = []"
  by (simp add: skip_ws_def)

lemma skip_ws_word:
  "w \<noteq> [] \<Longrightarrow> list_all (Not \<circ> is_space) w \<Longrightarrow> skip_ws (w @ r) = w @ r"
  by (cases w) (simp_all add: skip_ws_def)

lemmas scan_text = scan_int_show skip_ws_word takeWhile_prefix dropWhile_prefix Let_def

lemma show_nat_nonspace: "list_all (Not \<circ> is_space) (show_nat n)"
proof -
  have "list_all is_digit (show_nat n)" using show_nat_digits by blast
  then show ?thesis by (auto simp: list_all_iff digit_not_space)
qed

lemma NUL_not_digit: "\<not> is_digit NUL"
  by (simp add: is_digit_def)

lemma NUL_show_int [simp]: "NUL \<notin> set (show_int v)"
proof -
  have "list_all is_digit (show_nat n)" for n using show_nat_digits by blast
  then have "NUL \<notin> set (show_nat n)" for n using NUL_not_digit by (auto simp: list_all_iff)
  then show ?thesis by (auto simp: show_int_def)
qed

lemma drop_suffix: "drop (length (xs @ ys) - length ys) (xs @ ys) = ys"
  by simp

lemma parse_int_param:
  assumes "in_int t"
  shows "parse_params buf ''%d'' (Some (show_int t @ [NUL])) 1 = Some (Some [AInt t])"
proof -
  have fmt: "parse_fmt ''%d'' = [DInt]" by (simp add: conversion_def is_space_def)
  have "sscanf_f (\<lambda>_. None) (show_int t) ''%d'' = Some (1, [AInt t])"
    unfolding sscanf_f_def fmt
    using assms scan_int_show [of "[]" t] skip_ws_show_int [of t "[]"] by (simp add: Let_def)
  then show ?thesis
    by (simp add: parse_params_def parse_params_f_def cstr_of_terminated)
qed

lemma show_nat_length: "n < 10 ^ Suc k \<Longrightarrow> length (show_nat n) \<le> Suc k"
proof (induction k arbitrary: n)
  case (Suc k)
  show ?case
  proof (cases "n < 10")
    case False
    have "n div 10 < 10 ^ Suc k" using Suc.prems by (simp add: less_mult_imp_div_less)
    then show ?thesis using Suc.IH False by (subst show_nat.simps) simp
  qed (subst show_nat.simps, simp)
qed (subst show_nat.simps, simp)

lemma show_int_length: "in_int n \<Longrightarrow> length (show_int n) \<le> 11"
  using show_nat_length [of "nat n" 9] show_nat_length [of "nat (- n)" 9]
  by (auto simp: show_int_def in_int_def nat_less_iff)

lemma show_int_nonempty [simp]: "show_int v \<noteq> []"
  using show_nat_digits by (simp add: show_int_def)

end
