(* ===== verification/Data_Schema.thy ===== *)
theory Data_Schema
  imports Storage C_Scanf
begin

text \<open>
  The data schema of the application apps/simple (repoDataSchema.h) and
  src/system/repoDataSchema.c: the addresses of the status variables, the table with their names,
  types and default values, the map of the payloads, and the look-ups in the table.
\<close>

section \<open>Addresses\<close>

text \<open>The enumeration \<^verbatim>\<open>dat_status_address_t\<close>.\<close>

named_theorems addr_defs \<open>addresses of the status variables\<close>

definition dat_obc_opmode :: int where [addr_defs]: "dat_obc_opmode = 0"
definition dat_obc_last_reset :: int where [addr_defs]: "dat_obc_last_reset = 1"
definition dat_obc_hrs_alive :: int where [addr_defs]: "dat_obc_hrs_alive = 2"
definition dat_obc_hrs_wo_reset :: int where [addr_defs]: "dat_obc_hrs_wo_reset = 3"
definition dat_obc_reset_counter :: int where [addr_defs]: "dat_obc_reset_counter = 4"
definition dat_obc_sw_wdt :: int where [addr_defs]: "dat_obc_sw_wdt = 5"
definition dat_obc_temp_1 :: int where [addr_defs]: "dat_obc_temp_1 = 6"
definition dat_obc_executed_cmds :: int where [addr_defs]: "dat_obc_executed_cmds = 7"
definition dat_obc_failed_cmds :: int where [addr_defs]: "dat_obc_failed_cmds = 8"
definition dat_rtc_date_time :: int where [addr_defs]: "dat_rtc_date_time = 9"
definition dat_com_count_tm :: int where [addr_defs]: "dat_com_count_tm = 10"
definition dat_com_count_tc :: int where [addr_defs]: "dat_com_count_tc = 11"
definition dat_com_last_tc :: int where [addr_defs]: "dat_com_last_tc = 12"
definition dat_fpl_last :: int where [addr_defs]: "dat_fpl_last = 13"
definition dat_fpl_queue :: int where [addr_defs]: "dat_fpl_queue = 14"
definition dat_drp_idx_temp :: int where [addr_defs]: "dat_drp_idx_temp = 15"
definition dat_drp_ack_temp :: int where [addr_defs]: "dat_drp_ack_temp = 16"
definition dat_status_last_address :: int where [addr_defs]: "dat_status_last_address = 17"

section \<open>The table of status variables\<close>

record dat_sys_var =
  sv_address :: int
  sv_name :: string
  sv_type :: char
  sv_status :: int
  sv_value :: value32

definition DAT_IS_CONFIG :: int where [addr_defs]: "DAT_IS_CONFIG = 0"
definition DAT_IS_STATUS :: int where [addr_defs]: "DAT_IS_STATUS = 1"

definition sys_var :: "int \<Rightarrow> string \<Rightarrow> char \<Rightarrow> int \<Rightarrow> int \<Rightarrow> dat_sys_var" where
  "sys_var a n t st v =
     \<lparr>sv_address = a, sv_name = n, sv_type = t, sv_status = st, sv_value = of_i v\<rparr>"

definition dat_status_list :: "dat_sys_var list" where
  "dat_status_list =
     [sys_var dat_obc_last_reset    ''obc_last_reset''    (CHR ''u'') DAT_IS_STATUS 0,
      sys_var dat_obc_hrs_alive     ''obc_hrs_alive''     (CHR ''u'') DAT_IS_STATUS 0,
      sys_var dat_obc_hrs_wo_reset  ''obc_hrs_wo_reset''  (CHR ''u'') DAT_IS_STATUS 0,
      sys_var dat_obc_reset_counter ''obc_reset_counter'' (CHR ''u'') DAT_IS_STATUS 0,
      sys_var dat_obc_sw_wdt        ''obc_sw_wdt''        (CHR ''u'') DAT_IS_STATUS 0,
      sys_var dat_obc_temp_1        ''obc_temp_1''        (CHR ''f'') DAT_IS_STATUS (- 1),
      sys_var dat_obc_executed_cmds ''obc_executed_cmds'' (CHR ''u'') DAT_IS_STATUS 0,
      sys_var dat_obc_failed_cmds   ''obc_failed_cmds''   (CHR ''u'') DAT_IS_STATUS 0,
      sys_var dat_com_count_tm      ''com_count_tm''      (CHR ''u'') DAT_IS_STATUS 0,
      sys_var dat_com_count_tc      ''com_count_tc''      (CHR ''u'') DAT_IS_STATUS 0,
      sys_var dat_com_last_tc       ''com_last_tc''       (CHR ''u'') DAT_IS_STATUS 0,
      sys_var dat_fpl_last          ''fpl_last''          (CHR ''u'') DAT_IS_STATUS 0,
      sys_var dat_fpl_queue         ''fpl_queue''         (CHR ''u'') DAT_IS_STATUS 0,
      sys_var dat_obc_opmode        ''obc_opmode''        (CHR ''d'') DAT_IS_CONFIG (- 1),
      sys_var dat_rtc_date_time     ''rtc_date_time''     (CHR ''d'') DAT_IS_CONFIG (- 1),
      sys_var dat_drp_idx_temp      ''drp_idx_temp''      (CHR ''u'') DAT_IS_STATUS 0,
      sys_var dat_drp_ack_temp      ''drp_ack_temp''      (CHR ''u'') DAT_IS_CONFIG 0]"

definition dat_status_last_var :: int where
  "dat_status_last_var = int (length dat_status_list)"

definition last_sensor :: int where [addr_defs]: "last_sensor = 1"

definition data_map :: "data_map list" where
  "data_map =
     [\<lparr>dm_table = ''temp_data'', dm_size = 12, sys_index = dat_drp_idx_temp,
       sys_ack = dat_drp_ack_temp, data_order = ''%u %u %f'',
       var_names = ''sat_index timestamp obc_temp_1''\<rparr>]"

section \<open>Look-ups\<close>

definition dat_get_status_var_def :: "int \<Rightarrow> dat_sys_var" where
  "dat_get_status_var_def address =
     (let var = \<lparr>sv_address = 0, sv_name = '''', sv_type = NUL, sv_status = 0, sv_value = 0\<rparr>
      in if address < dat_status_last_address
         then case find_idx (\<lambda>v. sv_address v = address) dat_status_list of
                Some i \<Rightarrow> dat_status_list ! i
              | None \<Rightarrow> var
         else var)"

text \<open>Look-up by name. \<open>Inl (-1)\<close> is the variable the code returns when the name is unknown: only its
  status, -1, is set, every other field is indeterminate.\<close>

definition dat_get_status_var_def_name :: "string option \<Rightarrow> int + dat_sys_var" where
  "dat_get_status_var_def_name name =
     (case name of
        Some n \<Rightarrow>
          (case find_idx (\<lambda>v. strcmp (sv_name v) n = 0) dat_status_list of
             Some i \<Rightarrow> Inr (dat_status_list ! i)
           | None \<Rightarrow> Inl (- 1))
      | None \<Rightarrow> Inl (- 1))"

text \<open>\<^verbatim>\<open>dat_print_system_var\<close>: the line it prints, the float formatter of the C library a parameter.\<close>

definition pad_left :: "nat \<Rightarrow> string \<Rightarrow> string" where
  "pad_left n s = replicate (n - length s) (CHR '' '') @ s"

definition pad_right :: "nat \<Rightarrow> string \<Rightarrow> string" where
  "pad_right n s = s @ replicate (n - length s) (CHR '' '')"

fun show_hex :: "nat \<Rightarrow> string" where
  "show_hex n =
     (if n < 16 then [''0123456789ABCDEF'' ! n]
      else show_hex (n div 16) @ [''0123456789ABCDEF'' ! (n mod 16)])"

declare show_hex.simps [simp del]

definition dat_print_system_var :: "(value32 \<Rightarrow> string) \<Rightarrow> dat_sys_var \<Rightarrow> string" where
  "dat_print_system_var show_f v =
     pad_left 3 (show_int (sv_address v)) @ '', '' @ pad_right 20 (sv_name v) @ '', '' @
     (if sv_type v = CHR ''u'' then show_nat (unat (sv_value v))
      else if sv_type v = CHR ''d'' then show_int (v_i (sv_value v))
      else if sv_type v = CHR ''f'' then show_f (sv_value v)
      else if sv_value v = 0 then ''0'' else ''0X'' @ show_hex (unat (sv_value v))) @
     '', '' @ show_int (sv_status v) @ [CHR 0x0D, CHR 0x0A]"

section \<open>Facts about the table\<close>

lemma dat_status_last_var_eq [simp]: "dat_status_last_var = 17"
  by (simp add: dat_status_last_var_def dat_status_list_def)

lemma dat_status_list_length [simp]: "length dat_status_list = 17"
  by (simp add: dat_status_list_def)

text \<open>Every address below \<^verbatim>\<open>dat_status_last_address\<close> has exactly one entry, and no two share a name.\<close>

lemma dat_status_list_addresses:
  "distinct (map sv_address dat_status_list)" "distinct (map sv_name dat_status_list)"
  "set (map sv_address dat_status_list) = {0..<dat_status_last_address}"
proof -
  show "distinct (map sv_address dat_status_list)" "distinct (map sv_name dat_status_list)"
    by (simp_all add: dat_status_list_def sys_var_def addr_defs)
  have "{0..<17} = set (map int [0..<17])"
    by (auto simp: image_iff intro!: bexI [of _ "nat _"])
  then show "set (map sv_address dat_status_list) = {0..<dat_status_last_address}"
    by (auto simp: dat_status_list_def sys_var_def addr_defs upt_rec)
qed

end
