(* ===== verification/Storage_Ram.thy ===== *)
theory Storage_Ram
  imports Storage
begin

text \<open>
  src/lib/storage/storage_ram.c: status variables, flight plan and payload samples in allocated
  memory. The state \<open>ram\<close> is the static variables of the file; a pointer to a block is \<open>None\<close> when
  null. The array of section pointers can also be dangling, because \<^verbatim>\<open>storage_close\<close> compares
  where it means to assign; a section pointer is the offset into \<^verbatim>\<open>payload_db\<close>. \<open>alloc n\<close> is
  the answer of \<^verbatim>\<open>malloc\<close> to a request of \<open>n\<close> bytes.
\<close>

datatype 'a cptr = CNull | CLive 'a | CFreed

record ram =
  status_db :: "value32 list option"
  status_entries :: nat
  flightplan_db :: "fp_entry list option"
  flightplan_entries :: nat
  payload_db :: "mem option"
  payloads_sections_addresses :: "int list cptr"
  payloads_entries :: int
  storage_is_open :: bool

definition ram_zero :: ram where
  "ram_zero = \<lparr>status_db = None, status_entries = 0, flightplan_db = None, flightplan_entries = 0,
     payload_db = None, payloads_sections_addresses = CNull, payloads_entries = 0,
     storage_is_open = False\<rparr>"

section \<open>Operations\<close>

definition ram_storage_init :: "ram \<Rightarrow> (int \<times> ram) option" where
  "ram_storage_init s = Some (SCH_ST_OK, s\<lparr>storage_is_open := True\<rparr>)"

definition ram_storage_close :: "ram \<Rightarrow> (int \<times> ram) option" where
  "ram_storage_close s =
     (let s1 = s\<lparr>storage_is_open := False, status_entries := 0, flightplan_entries := 0,
                 payloads_entries := 0, status_db := None, flightplan_db := None,
                 payload_db := None\<rparr>
      in case payloads_sections_addresses s of
           CNull \<Rightarrow> Some (SCH_ST_OK, s1)
         | CLive a \<Rightarrow> Some (SCH_ST_OK, s1\<lparr>payloads_sections_addresses := CFreed\<rparr>)
         | CFreed \<Rightarrow> None)"

text \<open>\<^verbatim>\<open>size_t\<close> arithmetic.\<close>

definition size_t :: "int \<Rightarrow> nat" where
  "size_t n = nat (n mod 2 ^ 64)"

definition ram_storage_table_status_init ::
    "(nat \<Rightarrow> bool) \<Rightarrow> int \<Rightarrow> bool \<Rightarrow> ram \<Rightarrow> (int \<times> ram) option" where
  "ram_storage_table_status_init alloc n_variables drp s =
     (if \<not> storage_is_open s then Some (SCH_ST_ERROR, s)
      else if status_db s \<noteq> None \<and> \<not> drp then Some (SCH_ST_ERROR, s)
      else
        let entries = size_t n_variables;
            bytes = size_t (int entries * 4);
            s1 = s\<lparr>status_db := None, status_entries := entries\<rparr>
        in if \<not> alloc bytes then Some (SCH_ST_ERROR, s1)
           else Some (SCH_ST_OK, s1\<lparr>status_db := Some (replicate (bytes div 4) 0)\<rparr>))"

definition ram_storage_table_flight_plan_init ::
    "(nat \<Rightarrow> bool) \<Rightarrow> int \<Rightarrow> bool \<Rightarrow> ram \<Rightarrow> (int \<times> ram) option" where
  "ram_storage_table_flight_plan_init alloc n_entries drp s =
     (if \<not> storage_is_open s then Some (SCH_ST_ERROR, s)
      else if flightplan_db s \<noteq> None \<and> \<not> drp then Some (SCH_ST_ERROR, s)
      else
        let entries = size_t n_entries;
            bytes = size_t (int entries * 32);
            s1 = s\<lparr>flightplan_db := None, flightplan_entries := entries\<rparr>;
            empty = fp_entry_clear \<lparr>unixtime = 0, executions = 0, periodical = 0, node = 0,
                                    fp_cmd = None, fp_args = None\<rparr>
        in if \<not> alloc bytes then Some (SCH_ST_ERROR, s1)
           else do { require (entries = bytes div 32 \<and> in_int (int entries));
                     Some (SCH_ST_OK, s1\<lparr>flightplan_db := Some (replicate entries empty)\<rparr>) })"

definition ram_storage_table_payload_init ::
    "(nat \<Rightarrow> bool) \<Rightarrow> int \<Rightarrow> bool \<Rightarrow> ram \<Rightarrow> (int \<times> ram) option" where
  "ram_storage_table_payload_init alloc n_entries drp s =
     (if \<not> storage_is_open s then Some (SCH_ST_ERROR, s)
      else if payload_db s \<noteq> None \<and> \<not> drp then Some (SCH_ST_ERROR, s)
      else
        do { let s1 = s\<lparr>payload_db := None, payloads_entries := n_entries\<rparr>;
             total \<leftarrow> cint (SCH_SIZE_PER_SECTION * SCH_SECTIONS_PER_PAYLOAD * n_entries);
             if \<not> alloc (size_t total) then Some (SCH_ST_ERROR, s1)
             else
               do { let db = \<lparr>mem_size = size_t total, mem_at = (\<lambda>_. 0)\<rparr>;
                    sections \<leftarrow> cint (SCH_SECTIONS_PER_PAYLOAD * n_entries);
                    require (sections \<le> 0 \<or> alloc (size_t (sections * 8)));
                    let a = map (\<lambda>i. int i * SCH_SIZE_PER_SECTION) [0..<nat sections];
                    Some (SCH_ST_OK, s1\<lparr>payload_db := Some db,
                                        payloads_sections_addresses := CLive a\<rparr>) } })"

text \<open>Status variables: the reader takes an unsigned index and lets \<^verbatim>\<open>status_entries\<close> itself
  through; the writer does not check at all.\<close>

definition ram_storage_status_get_value_idx ::
    "int \<Rightarrow> ram \<Rightarrow> (int \<times> value32 option) option" where
  "ram_storage_status_get_value_idx index s =
     (case status_db s of
        None \<Rightarrow> Some (SCH_ST_ERROR, None)
      | Some db \<Rightarrow>
          if \<not> storage_is_open s then Some (SCH_ST_ERROR, None)
          else let u = index mod 2 ^ 32 in
               if u > int (status_entries s) then Some (SCH_ST_ERROR, None)
               else do { v \<leftarrow> arr_get db u; Some (SCH_ST_OK, Some v) })"

definition ram_storage_status_set_value_idx ::
    "int \<Rightarrow> value32 \<Rightarrow> ram \<Rightarrow> (int \<times> ram) option" where
  "ram_storage_status_set_value_idx index v s =
     (case status_db s of
        None \<Rightarrow> Some (SCH_ST_ERROR, s)
      | Some db \<Rightarrow>
          if \<not> storage_is_open s then Some (SCH_ST_ERROR, s)
          else do { db' \<leftarrow> arr_set db index v;
                    Some (SCH_ST_OK, s\<lparr>status_db := Some db'\<rparr>) })"

definition ram_storage_flight_plan_set_st :: "fp_entry option \<Rightarrow> ram \<Rightarrow> (int \<times> ram) option" where
  "ram_storage_flight_plan_set_st row s =
     (case (flightplan_db s, row) of
        (Some db, Some r) \<Rightarrow>
          if \<not> storage_is_open s then Some (SCH_ST_ERROR, s)
          else (case find_idx (\<lambda>e. unixtime e = ST_FP_NULL) db of
                  Some i \<Rightarrow>
                    Some (SCH_ST_OK, s\<lparr>flightplan_db := Some (db[i := fp_entry_copy r])\<rparr>)
                | None \<Rightarrow> Some (SCH_ST_ERROR, s))
      | _ \<Rightarrow> Some (SCH_ST_ERROR, s))"

definition ram_storage_flight_plan_set ::
    "int \<Rightarrow> string option \<Rightarrow> string option \<Rightarrow> int \<Rightarrow> int \<Rightarrow> int \<Rightarrow> ram \<Rightarrow> (int \<times> ram) option" where
  "ram_storage_flight_plan_set timetodo command args execs period nod s =
     (if timetodo < 0 \<or> command = None \<or> args = None then Some (SCH_ST_ERROR, s)
      else ram_storage_flight_plan_set_st
             (Some \<lparr>unixtime = timetodo, executions = execs, periodical = period, node = nod,
                    fp_cmd = command, fp_args = args\<rparr>) s)"

text \<open>The search of \<^verbatim>\<open>storage_flight_plan_get\<close> does not exclude the marker of an empty slot.\<close>

definition ram_storage_flight_plan_get :: "int \<Rightarrow> ram \<Rightarrow> (int \<times> fp_entry option) option" where
  "ram_storage_flight_plan_get timetodo s =
     (case flightplan_db s of
        None \<Rightarrow> Some (SCH_ST_ERROR, None)
      | Some db \<Rightarrow>
          if \<not> storage_is_open s then Some (SCH_ST_ERROR, None)
          else (case find_idx (\<lambda>e. unixtime e = timetodo) db of
                  Some i \<Rightarrow> Some (SCH_ST_OK, Some (fp_entry_copy (db ! i)))
                | None \<Rightarrow> Some (SCH_ST_ERROR, None)))"

definition ram_storage_flight_plan_get_idx :: "int \<Rightarrow> ram \<Rightarrow> (int \<times> fp_entry option) option" where
  "ram_storage_flight_plan_get_idx index s =
     (case flightplan_db s of
        None \<Rightarrow> Some (SCH_ST_ERROR, None)
      | Some db \<Rightarrow>
          if \<not> storage_is_open s \<or> size_t index \<ge> flightplan_entries s
          then Some (SCH_ST_ERROR, None)
          else do { e \<leftarrow> arr_get db index; Some (SCH_ST_OK, Some (fp_entry_copy e)) })"

definition ram_storage_flight_plan_get_args ::
    "int \<Rightarrow> ram \<Rightarrow> (int \<times> (string \<times> string \<times> int \<times> int \<times> int) option) option" where
  "ram_storage_flight_plan_get_args timetodo s =
     do { (rc, row) \<leftarrow> ram_storage_flight_plan_get timetodo s;
          if rc \<noteq> SCH_ST_OK then Some (rc, None)
          else do { e \<leftarrow> row;
                    command \<leftarrow> fp_cmd e;
                    args \<leftarrow> fp_args e;
                    Some (SCH_ST_OK,
                          Some (command, args, executions e, periodical e, node e)) } }"

definition ram_storage_flight_plan_delete_row :: "int \<Rightarrow> ram \<Rightarrow> (int \<times> ram) option" where
  "ram_storage_flight_plan_delete_row timetodo s =
     (case flightplan_db s of
        None \<Rightarrow> Some (SCH_ST_ERROR, s)
      | Some db \<Rightarrow>
          if \<not> storage_is_open s then Some (SCH_ST_ERROR, s)
          else (case find_idx (\<lambda>e. unixtime e = timetodo) db of
                  Some i \<Rightarrow>
                    Some (SCH_ST_OK, s\<lparr>flightplan_db := Some (db[i := fp_entry_clear (db ! i)])\<rparr>)
                | None \<Rightarrow> Some (SCH_ST_ERROR, s)))"

definition ram_storage_flight_plan_delete_row_idx :: "int \<Rightarrow> ram \<Rightarrow> (int \<times> ram) option" where
  "ram_storage_flight_plan_delete_row_idx index s =
     (case flightplan_db s of
        None \<Rightarrow> Some (SCH_ST_ERROR, s)
      | Some db \<Rightarrow>
          if \<not> storage_is_open s then Some (SCH_ST_ERROR, s)
          else if size_t index \<ge> flightplan_entries s then Some (SCH_ST_ERROR, s)
          else do { e \<leftarrow> arr_get db index;
                    db' \<leftarrow> arr_set db index (fp_entry_clear e);
                    Some (SCH_ST_OK, s\<lparr>flightplan_db := Some db'\<rparr>) })"

text \<open>The loop returns in its first round.\<close>

definition ram_storage_flight_plan_reset :: "ram \<Rightarrow> (int \<times> ram) option" where
  "ram_storage_flight_plan_reset s =
     (case flightplan_db s of
        None \<Rightarrow> Some (SCH_ST_ERROR, s)
      | Some db \<Rightarrow>
          if \<not> storage_is_open s then Some (SCH_ST_ERROR, s)
          else if 0 < flightplan_entries s then
            do { e \<leftarrow> arr_get db 0;
                 db' \<leftarrow> arr_set db 0 (fp_entry_clear e);
                 Some (SCH_ST_OK, s\<lparr>flightplan_db := Some db'\<rparr>) }
          else Some (SCH_ST_ERROR, s))"

text \<open>
  The address of a sample. \<^verbatim>\<open>index_in_section * size\<close> is computed in \<^verbatim>\<open>size_t\<close>, so that a negative
  remainder leaves the block; the upper checks use \<^verbatim>\<open>>\<close>, and the second one the wrong constant.
\<close>

definition ram_get_sample_address :: "int \<Rightarrow> int \<Rightarrow> nat \<Rightarrow> ram \<Rightarrow> (int \<times> int option) option" where
  "ram_get_sample_address payload index sz s =
     do { require (sz \<noteq> 0);
          let samples_per_section = SCH_SIZE_PER_SECTION div int sz;
          sample_section \<leftarrow> cdiv index samples_per_section;
          index_in_section \<leftarrow> cmod index samples_per_section;
          base \<leftarrow> cint (payload * SCH_SECTIONS_PER_PAYLOAD);
          section_index \<leftarrow> cint (base + sample_section);
          if sample_section > SCH_SECTIONS_PER_PAYLOAD then Some (SCH_ST_ERROR, None)
          else
            do { limit \<leftarrow> cint (payloads_entries s * SCH_SIZE_PER_SECTION);
                 if section_index > limit then Some (SCH_ST_ERROR, None)
                 else
                   do { a \<leftarrow> (case payloads_sections_addresses s of CLive a \<Rightarrow> Some a | _ \<Rightarrow> None);
                        section_addr \<leftarrow> arr_get a section_index;
                        require (0 \<le> index_in_section);
                        let address = section_addr + index_in_section * int sz;
                        last \<leftarrow> cint (payloads_entries s * SCH_SECTIONS_PER_PAYLOAD *
                                     SCH_SIZE_PER_SECTION);
                        if address > last then Some (SCH_ST_ERROR, Some address)
                        else Some (SCH_ST_OK, Some address) } } }"

definition ram_storage_payload_set_data ::
    "int \<Rightarrow> int \<Rightarrow> byte list option \<Rightarrow> data_map \<Rightarrow> ram \<Rightarrow> (int \<times> ram) option" where
  "ram_storage_payload_set_data payload index data schema s =
     (if \<not> storage_is_open s then Some (SCH_ST_ERROR, s)
      else case (payload_db s, payloads_sections_addresses s, data) of
        (None, _, _) \<Rightarrow> Some (SCH_ST_ERROR, s)
      | (_, CNull, _) \<Rightarrow> Some (SCH_ST_ERROR, s)
      | (_, _, None) \<Rightarrow> Some (SCH_ST_ERROR, s)
      | (Some db, _, Some bytes) \<Rightarrow>
          do { (rc, addr) \<leftarrow> ram_get_sample_address payload index (dm_size schema) s;
               if rc \<noteq> SCH_ST_OK then Some (SCH_ST_ERROR, s)
               else do { a \<leftarrow> addr;
                         src \<leftarrow> blk_read bytes 0 (dm_size schema);
                         db' \<leftarrow> mem_write db a src;
                         Some (SCH_ST_OK, s\<lparr>payload_db := Some db'\<rparr>) } })"

definition ram_storage_payload_get_data ::
    "int \<Rightarrow> int \<Rightarrow> data_map \<Rightarrow> ram \<Rightarrow> (int \<times> byte list option) option" where
  "ram_storage_payload_get_data payload index schema s =
     (if \<not> storage_is_open s then Some (SCH_ST_ERROR, None)
      else case (payload_db s, payloads_sections_addresses s) of
        (None, _) \<Rightarrow> Some (SCH_ST_ERROR, None)
      | (_, CNull) \<Rightarrow> Some (SCH_ST_ERROR, None)
      | (Some db, _) \<Rightarrow>
          do { (rc, addr) \<leftarrow> ram_get_sample_address payload index (dm_size schema) s;
               if rc \<noteq> SCH_ST_OK then Some (SCH_ST_ERROR, None)
               else do { a \<leftarrow> addr;
                         bytes \<leftarrow> mem_read db a (dm_size schema);
                         Some (SCH_ST_OK, Some bytes) } })"

definition ram_storage_payload_reset :: "(nat \<Rightarrow> bool) \<Rightarrow> ram \<Rightarrow> (int \<times> ram) option" where
  "ram_storage_payload_reset alloc s =
     ram_storage_table_payload_init alloc (payloads_entries s) True s"

definition ram_storage_payload_reset_table :: "int \<Rightarrow> ram \<Rightarrow> (int \<times> ram) option" where
  "ram_storage_payload_reset_table payload s =
     (if \<not> storage_is_open s \<or> payload \<ge> payloads_entries s then Some (SCH_ST_ERROR, s)
      else case (payload_db s, payloads_sections_addresses s) of
        (None, _) \<Rightarrow> Some (SCH_ST_ERROR, s)
      | (_, CNull) \<Rightarrow> Some (SCH_ST_ERROR, s)
      | (_, CFreed) \<Rightarrow> None
      | (Some db, CLive a) \<Rightarrow>
          do { i \<leftarrow> cint (payload * SCH_SECTIONS_PER_PAYLOAD);
               addr \<leftarrow> arr_get a i;
               db' \<leftarrow> mem_fill db addr (nat (SCH_SIZE_PER_SECTION * SCH_SECTIONS_PER_PAYLOAD)) 0;
               Some (SCH_ST_OK, s\<lparr>payload_db := Some db'\<rparr>) })"

definition ram_ops :: "(nat \<Rightarrow> bool) \<Rightarrow> ram storage_ops" where
  "ram_ops alloc =
     \<lparr>op_init = ram_storage_init, op_close = ram_storage_close,
      op_status_init = ram_storage_table_status_init alloc,
      op_fp_init = ram_storage_table_flight_plan_init alloc,
      op_payload_init = ram_storage_table_payload_init alloc,
      op_status_get = ram_storage_status_get_value_idx,
      op_status_set = ram_storage_status_set_value_idx,
      op_fp_set = ram_storage_flight_plan_set,
      op_fp_get_idx = ram_storage_flight_plan_get_idx,
      op_fp_get_args = ram_storage_flight_plan_get_args,
      op_fp_delete_row = ram_storage_flight_plan_delete_row,
      op_fp_delete_row_idx = ram_storage_flight_plan_delete_row_idx,
      op_fp_reset = ram_storage_flight_plan_reset,
      op_payload_set = ram_storage_payload_set_data,
      op_payload_get = ram_storage_payload_get_data,
      op_payload_reset = ram_storage_payload_reset alloc,
      op_payload_reset_table = ram_storage_payload_reset_table\<rparr>"

section \<open>Invariant\<close>

text \<open>
  The state after the three tables are created, for \<open>n\<close> stored status values and the payloads \<open>dms\<close>:
  every block has the size its counter says, a filled flight-plan slot has both its strings, and
  the section pointers cut \<^verbatim>\<open>payload_db\<close> into sections.
\<close>

definition ram_slot_ok :: "fp_entry \<Rightarrow> bool" where
  "ram_slot_ok e \<longleftrightarrow> fp_free e \<or> (fp_cmd e \<noteq> None \<and> fp_args e \<noteq> None)"

definition schema_ok :: "data_map list \<Rightarrow> bool" where
  "schema_ok dms \<longleftrightarrow> length dms \<le> 819 \<and> (\<forall>dm \<in> set dms. 0 < dm_size dm \<and> dm_size dm < 65536)"

definition ram_inv :: "data_map list \<Rightarrow> nat \<Rightarrow> ram \<Rightarrow> bool" where
  "ram_inv dms n s \<longleftrightarrow>
     storage_is_open s \<and> n < 2 ^ 31 \<and> schema_ok dms \<and>
     (\<exists>db. status_db s = Some db \<and> length db = n \<and> status_entries s = n) \<and>
     (\<exists>fl. flightplan_db s = Some fl \<and> length fl = nat SCH_FP_MAX_ENTRIES \<and>
           flightplan_entries s = nat SCH_FP_MAX_ENTRIES \<and> (\<forall>e \<in> set fl. ram_slot_ok e)) \<and>
     (\<exists>m. payload_db s = Some m \<and> mem_size m = 2621440 * length dms \<and>
          payloads_entries s = int (length dms) \<and>
          payloads_sections_addresses s =
            CLive (map (\<lambda>i. int i * SCH_SIZE_PER_SECTION) [0..<10 * length dms]))"

definition ram_vars :: "ram \<Rightarrow> value32 list" where
  "ram_vars s = (case status_db s of Some db \<Rightarrow> db | None \<Rightarrow> [])"

definition ram_slots :: "ram \<Rightarrow> fp_entry list" where
  "ram_slots s = (case flightplan_db s of Some fl \<Rightarrow> fl | None \<Rightarrow> [])"

text \<open>Where sample \<open>k\<close> of payload \<open>p\<close> lies, for samples of \<open>sz\<close> bytes, and how many there can be.\<close>

definition ram_addr :: "nat \<Rightarrow> nat \<Rightarrow> nat \<Rightarrow> int" where
  "ram_addr sz p k =
     (let n = 262144 div sz in int ((10 * p + k div n) * 262144 + (k mod n) * sz))"

definition ram_cap :: "data_map list \<Rightarrow> nat \<Rightarrow> nat" where
  "ram_cap dms p = 10 * (262144 div dm_size (dms ! p))"

definition ram_samples :: "data_map list \<Rightarrow> ram \<Rightarrow> nat \<Rightarrow> nat \<Rightarrow> byte list" where
  "ram_samples dms s p k =
     (case payload_db s of
        Some m \<Rightarrow> the (mem_read m (ram_addr (dm_size (dms ! p)) p k) (dm_size (dms ! p)))
      | None \<Rightarrow> [])"

section \<open>Status and flight plan laws\<close>

lemma ram_status_get:
  "ram_inv dms n s \<Longrightarrow> 0 \<le> i \<Longrightarrow> i < int n \<Longrightarrow>
   ram_storage_status_get_value_idx i s = Some (SCH_ST_OK, Some (ram_vars s ! nat i))"
  by (auto simp: ram_inv_def ram_storage_status_get_value_idx_def ram_vars_def arr_get_def)

lemma ram_status_set:
  "ram_inv dms n s \<Longrightarrow> 0 \<le> i \<Longrightarrow> i < int n \<Longrightarrow>
   \<exists>s'. ram_storage_status_set_value_idx i v s = Some (SCH_ST_OK, s') \<and> ram_inv dms n s' \<and>
     ram_vars s' = (ram_vars s)[nat i := v]"
  by (auto simp: ram_inv_def ram_storage_status_set_value_idx_def ram_vars_def arr_set_def)

lemma ram_vars_length: "ram_inv dms n s \<Longrightarrow> length (ram_vars s) = n"
  by (auto simp: ram_inv_def ram_vars_def)

lemma ram_status_set_frame:
  assumes "ram_storage_status_set_value_idx i v s = Some (rc, s')"
  shows "ram_slots s' = ram_slots s" and "ram_samples dms s' = ram_samples dms s"
  using assms
  by (auto simp: ram_storage_status_set_value_idx_def ram_slots_def ram_samples_def fun_eq_iff
      split: option.splits if_splits bind_splits)

text \<open>A state of the invariant with another flight-plan table.\<close>

lemma ram_inv_slots:
  assumes "ram_inv dms n s" and "length fl = nat SCH_FP_MAX_ENTRIES" and "\<forall>e \<in> set fl. ram_slot_ok e"
  shows "ram_inv dms n (s\<lparr>flightplan_db := Some fl\<rparr>)"
    and "ram_vars (s\<lparr>flightplan_db := Some fl\<rparr>) = ram_vars s"
    and "ram_slots (s\<lparr>flightplan_db := Some fl\<rparr>) = fl"
    and "ram_samples dms (s\<lparr>flightplan_db := Some fl\<rparr>) = ram_samples dms s"
  using assms by (auto simp: ram_inv_def ram_vars_def ram_slots_def ram_samples_def fun_eq_iff)

lemma ram_inv_flightplan:
  assumes "ram_inv dms n s"
  shows "flightplan_db s = Some (ram_slots s)" "storage_is_open s"
    "length (ram_slots s) = nat SCH_FP_MAX_ENTRIES"
    "flightplan_entries s = nat SCH_FP_MAX_ENTRIES" "\<forall>e \<in> set (ram_slots s). ram_slot_ok e"
  using assms by (auto simp: ram_inv_def ram_slots_def)

lemma ram_slot_ok_clear [simp]: "ram_slot_ok (fp_entry_clear e)"
  by (simp add: ram_slot_ok_def fp_free_def config_defs)

lemma set_update_ok: "\<forall>e \<in> set xs. P e \<Longrightarrow> P y \<Longrightarrow> \<forall>e \<in> set (xs[i := y]). P e"
  by (auto dest!: set_update_subset_insert [THEN subsetD])

lemma ram_fp_set:
  assumes "ram_inv dms n s" and "0 \<le> t" and "find_idx fp_free (ram_slots s) = Some i"
  shows "\<exists>s'. ram_storage_flight_plan_set t (Some c) (Some a) ex p nd s = Some (SCH_ST_OK, s') \<and>
     ram_inv dms n s' \<and> ram_vars s' = ram_vars s \<and>
     ram_slots s' = (ram_slots s)[i := \<lparr>unixtime = t, executions = ex, periodical = p, node = nd,
                                        fp_cmd = Some c, fp_args = Some a\<rparr>]"
proof -
  let ?e = "\<lparr>unixtime = t, executions = ex, periodical = p, node = nd,
            fp_cmd = Some c, fp_args = Some a\<rparr>"
  note inv = ram_inv_flightplan [OF assms(1)]
  have "ram_slot_ok ?e" by (simp add: ram_slot_ok_def)
  then have "\<forall>e \<in> set ((ram_slots s)[i := ?e]). ram_slot_ok e"
    using inv(5) by (rule set_update_ok [rotated])
  moreover have "find_idx (\<lambda>e. unixtime e = ST_FP_NULL) (ram_slots s) = Some i"
    using assms(3) by (simp add: fp_free_def [abs_def])
  ultimately show ?thesis
    using assms inv ram_inv_slots [OF assms(1), of "(ram_slots s)[i := ?e]"]
    by (simp add: ram_storage_flight_plan_set_def ram_storage_flight_plan_set_st_def)
qed

lemma ram_fp_set_full:
  assumes "ram_inv dms n s" and "find_idx fp_free (ram_slots s) = None"
  shows "ram_storage_flight_plan_set t (Some c) (Some a) ex p nd s = Some (SCH_ST_ERROR, s)"
  using assms(2) ram_inv_flightplan [OF assms(1)]
  by (simp add: ram_storage_flight_plan_set_def ram_storage_flight_plan_set_st_def fp_free_def [abs_def])

lemma ram_fp_get_args:
  assumes "ram_inv dms n s" and "0 \<le> t" and "find_idx (\<lambda>e. unixtime e = t) (ram_slots s) = Some i"
  shows "ram_storage_flight_plan_get_args t s =
     Some (SCH_ST_OK, Some (the (fp_cmd (ram_slots s ! i)), the (fp_args (ram_slots s ! i)),
             executions (ram_slots s ! i), periodical (ram_slots s ! i), node (ram_slots s ! i)))"
proof -
  note inv = ram_inv_flightplan [OF assms(1)]
  have "ram_slot_ok (ram_slots s ! i)" "unixtime (ram_slots s ! i) = t"
    using inv(5) find_idx_SomeD [OF assms(3)] by auto
  then obtain c a where "fp_cmd (ram_slots s ! i) = Some c" "fp_args (ram_slots s ! i) = Some a"
    using assms(2) by (auto simp: ram_slot_ok_def fp_free_def config_defs)
  then show ?thesis
    using inv assms(3)
    by (simp add: ram_storage_flight_plan_get_args_def ram_storage_flight_plan_get_def)
qed

lemma ram_fp_get_args_none:
  "ram_inv dms n s \<Longrightarrow> find_idx (\<lambda>e. unixtime e = t) (ram_slots s) = None \<Longrightarrow>
   ram_storage_flight_plan_get_args t s = Some (SCH_ST_ERROR, None)"
  using ram_inv_flightplan [of dms n s]
  by (simp add: ram_storage_flight_plan_get_args_def ram_storage_flight_plan_get_def
      config_defs)

lemma ram_fp_delete_row:
  assumes "ram_inv dms n s" and "find_idx (\<lambda>e. unixtime e = t) (ram_slots s) = Some i"
  shows "\<exists>s'. ram_storage_flight_plan_delete_row t s = Some (SCH_ST_OK, s') \<and> ram_inv dms n s' \<and>
     ram_vars s' = ram_vars s \<and> ram_slots s' = (ram_slots s)[i := fp_entry_clear (ram_slots s ! i)]"
proof -
  let ?fl = "(ram_slots s)[i := fp_entry_clear (ram_slots s ! i)]"
  note inv = ram_inv_flightplan [OF assms(1)]
  have "\<forall>e \<in> set ?fl. ram_slot_ok e" using inv(5) by (rule set_update_ok) simp
  note new = ram_inv_slots [OF assms(1) _ this]
  have "ram_storage_flight_plan_delete_row t s = Some (SCH_ST_OK, s\<lparr>flightplan_db := Some ?fl\<rparr>)"
    using assms(2) inv by (simp add: ram_storage_flight_plan_delete_row_def)
  then show ?thesis using new inv(3) by simp
qed

lemma ram_fp_delete_row_none:
  "ram_inv dms n s \<Longrightarrow> find_idx (\<lambda>e. unixtime e = t) (ram_slots s) = None \<Longrightarrow>
   ram_storage_flight_plan_delete_row t s = Some (SCH_ST_ERROR, s)"
  using ram_inv_flightplan [of dms n s]
  by (simp add: ram_storage_flight_plan_delete_row_def)

lemma size_t_int [simp]: "int k < 2 ^ 64 \<Longrightarrow> size_t (int k) = k"
  by (simp add: size_t_def)

lemma ram_fp_get_idx:
  assumes "ram_inv dms n s" and "i < length (ram_slots s)"
  shows "ram_storage_flight_plan_get_idx (int i) s = Some (SCH_ST_OK, Some (ram_slots s ! i))"
  using assms(2) ram_inv_flightplan [OF assms(1)]
  by (simp add: ram_storage_flight_plan_get_idx_def config_defs)

lemma ram_fp_delete_row_idx:
  assumes "ram_inv dms n s" and "i < length (ram_slots s)"
  shows "\<exists>s'. ram_storage_flight_plan_delete_row_idx (int i) s = Some (SCH_ST_OK, s') \<and>
     ram_inv dms n s' \<and> ram_vars s' = ram_vars s \<and>
     ram_slots s' = (ram_slots s)[i := fp_entry_clear (ram_slots s ! i)]"
proof -
  let ?fl = "(ram_slots s)[i := fp_entry_clear (ram_slots s ! i)]"
  note inv = ram_inv_flightplan [OF assms(1)]
  have "\<forall>e \<in> set ?fl. ram_slot_ok e" using inv(5) by (rule set_update_ok) simp
  note new = ram_inv_slots [OF assms(1) _ this]
  have "ram_storage_flight_plan_delete_row_idx (int i) s =
      Some (SCH_ST_OK, s\<lparr>flightplan_db := Some ?fl\<rparr>)"
    using assms(2) inv by (simp add: ram_storage_flight_plan_delete_row_idx_def config_defs)
  then show ?thesis using new inv(3) by simp
qed

section \<open>Payload laws\<close>

lemma samples_per_section:
  assumes "0 < sz" and "sz < (65536::nat)"
  shows "4 \<le> 262144 div sz" and "(262144 div sz) * sz \<le> 262144"
proof -
  have "262144 div 65536 \<le> 262144 div sz" using assms by (intro div_le_mono2) auto
  then show "4 \<le> 262144 div sz" by simp
qed simp

text \<open>A sample lies inside its section, and two samples of a section do not overlap.\<close>

lemma ram_addr_section:
  assumes "0 < sz" and "sz < 65536"
  shows "int ((10 * p + k div (262144 div sz)) * 262144) \<le> ram_addr sz p k"
    and "ram_addr sz p k + int sz \<le> int ((10 * p + k div (262144 div sz) + 1) * 262144)"
proof -
  let ?n = "262144 div sz"
  show "int ((10 * p + k div ?n) * 262144) \<le> ram_addr sz p k"
    by (simp add: ram_addr_def Let_def)
  have "k mod ?n < ?n" using samples_per_section [OF assms] by (intro mod_less_divisor) linarith
  then have "(k mod ?n + 1) * sz \<le> ?n * sz" by (intro mult_right_mono) auto
  also have "\<dots> \<le> 262144" by simp
  finally have "(k mod ?n) * sz + sz \<le> 262144" by (simp add: algebra_simps)
  then have "(10 * p + k div ?n) * 262144 + (k mod ?n) * sz + sz \<le> (10 * p + k div ?n + 1) * 262144"
    by simp
  then show "ram_addr sz p k + int sz \<le> int ((10 * p + k div ?n + 1) * 262144)"
    unfolding ram_addr_def Let_def by (metis of_nat_add of_nat_le_iff)
qed

lemma cap_section:
  assumes "k < 10 * n" shows "k div n \<le> (9::nat)"
proof -
  have "k div n < 10" using assms by (simp add: less_mult_imp_div_less mult.commute)
  then show ?thesis by simp
qed

lemma ram_addr_bounds:
  assumes "0 < sz" and "sz < 65536" and "k < 10 * (262144 div sz)"
  shows "int (2621440 * p) \<le> ram_addr sz p k"
    and "ram_addr sz p k + int sz \<le> int (2621440 * (p + 1))"
  using ram_addr_section [OF assms(1,2), of p k] cap_section [OF assms(3)] by simp_all

lemma ram_addr_disjoint:
  assumes "0 < sz" "sz < 65536" "k < 10 * (262144 div sz)"
    and "0 < sz'" "sz' < 65536" "k' < 10 * (262144 div sz')"
    and "(p, k) \<noteq> (p', k')" and "p = p' \<Longrightarrow> sz = sz'"
  shows "ram_addr sz p k + int sz \<le> ram_addr sz' p' k' \<or>
         ram_addr sz' p' k' + int sz' \<le> ram_addr sz p k"
proof (cases "p = p'")
  case False
  then consider "2621440 * (p + 1) \<le> 2621440 * p'" | "2621440 * (p' + 1) \<le> 2621440 * p"
    by (cases "p < p'") auto
  then show ?thesis
    using ram_addr_bounds [OF assms(1-3), of p] ram_addr_bounds [OF assms(4-6), of p']
    by cases linarith+
next
  case same: True
  let ?n = "262144 div sz"
  have [simp]: "sz' = sz" and ne: "k \<noteq> k'" using assms(7,8) same by auto
  show ?thesis
  proof (cases "k div ?n = k' div ?n")
    case False
    then consider "k div ?n + 1 \<le> k' div ?n" | "k' div ?n + 1 \<le> k div ?n" by linarith
    then show ?thesis
      using ram_addr_section [OF assms(1,2), of p k] ram_addr_section [OF assms(1,2), of p k'] same
      by cases simp_all
  next
    case True
    have mods: "k mod ?n \<noteq> k' mod ?n" using ne True by (metis div_mult_mod_eq)
    have step: "a * sz + sz \<le> b * sz" if "a < b" for a b
    proof -
      have "(a + 1) * sz \<le> b * sz" using that by (intro mult_right_mono) auto
      then show ?thesis by (simp add: algebra_simps)
    qed
    from mods consider "k mod ?n < k' mod ?n" | "k' mod ?n < k mod ?n" by linarith
    then show ?thesis
    proof cases
      case 1
      then show ?thesis using step [OF 1] same True by (simp add: ram_addr_def Let_def flip: of_nat_add of_nat_mult)
    next
      case 2
      then show ?thesis using step [OF 2] same True by (simp add: ram_addr_def Let_def flip: of_nat_add of_nat_mult)
    qed
  qed
qed

lemma ram_inv_payload:
  assumes "ram_inv dms n s" and "p < length dms"
  obtains m where "payload_db s = Some m" "mem_size m = 2621440 * length dms" "storage_is_open s"
    "payloads_entries s = int (length dms)"
    "payloads_sections_addresses s =
       CLive (map (\<lambda>i. int i * SCH_SIZE_PER_SECTION) [0..<10 * length dms])"
    "length dms \<le> 819" "0 < dm_size (dms ! p)" "dm_size (dms ! p) < 65536"
  using assms by (auto simp: ram_inv_def schema_ok_def)

lemma ram_sample_address:
  assumes "ram_inv dms n s" and "p < length dms" and "k < ram_cap dms p"
  shows "ram_get_sample_address (int p) (int k) (dm_size (dms ! p)) s =
     Some (SCH_ST_OK, Some (ram_addr (dm_size (dms ! p)) p k))"
proof -
  let ?sz = "dm_size (dms ! p)"
  let ?n = "262144 div ?sz"
  obtain m where inv: "payloads_entries s = int (length dms)"
      "payloads_sections_addresses s =
         CLive (map (\<lambda>i. int i * SCH_SIZE_PER_SECTION) [0..<10 * length dms])"
      "length dms \<le> 819" "0 < ?sz" "?sz < 65536"
    using ram_inv_payload [OF assms(1,2)] by metis
  have n: "4 \<le> ?n" "?n \<le> 262144" using samples_per_section [OF inv(4,5)] by simp_all
  have k: "k < 10 * ?n" using assms(3) by (simp add: ram_cap_def)
  then have sec: "k div ?n \<le> 9" by (rule cap_section)
  have div: "262144 div int ?sz = int ?n" by (simp add: zdiv_int)
  have "k < 2621440" using k n(2) by linarith
  then have "in_int (int k)" by (simp add: in_int_def)
  then have q: "cdiv (int k) (int ?n) = Some (int (k div ?n))" "cmod (int k) (int ?n) = Some (int (k mod ?n))"
    using n(1) by (auto intro!: cdiv_nat cmod_nat)
  have idx: "10 * p + k div ?n < 10 * length dms" using assms(2) sec by linarith
  then have get: "arr_get (map (\<lambda>i. int i * SCH_SIZE_PER_SECTION) [0..<10 * length dms])
      (int (10 * p + k div ?n)) = Some (int (10 * p + k div ?n) * 262144)"
    by (subst arr_get_ok) (auto simp: config_defs)
  have cints: "in_int (int p * 10)" "in_int (int p * 10 + int (k div ?n))"
      "in_int (int (length dms) * 262144)" "in_int (int (length dms) * 10 * 262144)"
    using inv(3) assms(2) sec by (auto simp: in_int_def)
  have order: "\<not> int (k div ?n) > 10" "\<not> int p * 10 + int (k div ?n) > int (length dms) * 262144"
    using sec idx by auto
  have addr: "int (10 * p + k div ?n) * 262144 + int (k mod ?n) * int ?sz = ram_addr ?sz p k"
    by (simp add: ram_addr_def Let_def)
  have le: "\<not> ram_addr ?sz p k > int (length dms) * 10 * 262144"
    using ram_addr_bounds [OF inv(4,5) k, of p] assms(2) by auto
  have idx_eq: "int p * 10 + int (k div ?n) = int (10 * p + k div ?n)" by simp
  show ?thesis
    using inv(4) q cints order le get addr
    by (simp add: ram_get_sample_address_def SCH_SIZE_PER_SECTION_def SCH_SECTIONS_PER_PAYLOAD_def
        div inv(1,2) idx_eq del: of_nat_add of_nat_mult)
qed

lemma ram_payload_get:
  assumes "ram_inv dms n s" and "p < length dms" and "k < ram_cap dms p"
  shows "ram_storage_payload_get_data (int p) (int k) (dms ! p) s =
     Some (SCH_ST_OK, Some (ram_samples dms s p k))"
proof -
  let ?sz = "dm_size (dms ! p)"
  obtain m where m: "payload_db s = Some m" "mem_size m = 2621440 * length dms" "storage_is_open s"
      "payloads_sections_addresses s =
         CLive (map (\<lambda>i. int i * SCH_SIZE_PER_SECTION) [0..<10 * length dms])"
      "0 < ?sz" "?sz < 65536"
    using ram_inv_payload [OF assms(1,2)] by metis
  have k: "k < 10 * (262144 div ?sz)" using assms(3) by (simp add: ram_cap_def)
  have "0 \<le> ram_addr ?sz p k" "ram_addr ?sz p k + int ?sz \<le> int (mem_size m)"
    using ram_addr_bounds [OF m(5,6) k, of p] m(2) assms(2) by simp_all
  then obtain bs where "mem_read m (ram_addr ?sz p k) ?sz = Some bs" using mem_read_ok by blast
  then show ?thesis
    using m ram_sample_address [OF assms]
    by (simp add: ram_storage_payload_get_data_def ram_samples_def)
qed

lemma ram_inv_payload_db:
  assumes "ram_inv dms n s" and "payload_db s = Some m" and "mem_size m' = mem_size m"
  shows "ram_inv dms n (s\<lparr>payload_db := Some m'\<rparr>)"
    and "ram_vars (s\<lparr>payload_db := Some m'\<rparr>) = ram_vars s"
    and "ram_slots (s\<lparr>payload_db := Some m'\<rparr>) = ram_slots s"
  using assms by (auto simp: ram_inv_def ram_vars_def ram_slots_def)

lemma ram_payload_set:
  assumes "ram_inv dms n s" and "p < length dms" and "k < ram_cap dms p"
    and "length bytes = dm_size (dms ! p)"
  shows "\<exists>s'. ram_storage_payload_set_data (int p) (int k) (Some bytes) (dms ! p) s =
       Some (SCH_ST_OK, s') \<and> ram_inv dms n s' \<and> ram_vars s' = ram_vars s \<and>
     ram_slots s' = ram_slots s \<and> ram_samples dms s' p k = bytes \<and>
     (\<forall>p' k'. p' < length dms \<longrightarrow> k' < ram_cap dms p' \<longrightarrow> (p', k') \<noteq> (p, k) \<longrightarrow>
        ram_samples dms s' p' k' = ram_samples dms s p' k')"
proof -
  let ?sz = "dm_size (dms ! p)"
  obtain m where m: "payload_db s = Some m" "mem_size m = 2621440 * length dms" "storage_is_open s"
      "payloads_sections_addresses s =
         CLive (map (\<lambda>i. int i * SCH_SIZE_PER_SECTION) [0..<10 * length dms])"
      "0 < ?sz" "?sz < 65536"
    using ram_inv_payload [OF assms(1,2)] by metis
  have k: "k < 10 * (262144 div ?sz)" using assms(3) by (simp add: ram_cap_def)
  have "0 \<le> ram_addr ?sz p k" "ram_addr ?sz p k + int (length bytes) \<le> int (mem_size m)"
    using ram_addr_bounds [OF m(5,6) k, of p] m(2) assms(2,4) by simp_all
  then obtain m' where m': "mem_write m (ram_addr ?sz p k) bytes = Some m'"
    using mem_write_ok by blast
  let ?s' = "s\<lparr>payload_db := Some m'\<rparr>"
  have "ram_storage_payload_set_data (int p) (int k) (Some bytes) (dms ! p) s = Some (SCH_ST_OK, ?s')"
    using m m' ram_sample_address [OF assms(1-3)] assms(4)
    by (simp add: ram_storage_payload_set_data_def blk_read_def)
  moreover have "ram_samples dms ?s' p k = bytes"
    using mem_read_write_same [OF m'] assms(4) by (simp add: ram_samples_def)
  moreover have "ram_samples dms ?s' p' k' = ram_samples dms s p' k'"
    if "p' < length dms" "k' < ram_cap dms p'" "(p', k') \<noteq> (p, k)" for p' k'
  proof -
    have sz': "0 < dm_size (dms ! p')" "dm_size (dms ! p') < 65536"
      using ram_inv_payload [OF assms(1) that(1)] by metis+
    have "ram_addr ?sz p k + int ?sz \<le> ram_addr (dm_size (dms ! p')) p' k' \<or>
        ram_addr (dm_size (dms ! p')) p' k' + int (dm_size (dms ! p')) \<le> ram_addr ?sz p k"
      using that k m(5,6) sz' by (intro ram_addr_disjoint) (auto simp: ram_cap_def)
    then show ?thesis
      using mem_read_write_disjoint [OF m', of "ram_addr (dm_size (dms ! p')) p' k'"] m(1) assms(4)
      by (auto simp: ram_samples_def)
  qed
  ultimately show ?thesis
    using ram_inv_payload_db [OF assms(1) m(1) mem_size_write [OF m']] by blast
qed

lemma ram_payload_reset_table:
  assumes "ram_inv dms n s" and "p < length dms"
  shows "\<exists>s'. ram_storage_payload_reset_table (int p) s = Some (SCH_ST_OK, s') \<and>
     ram_inv dms n s' \<and> ram_vars s' = ram_vars s \<and> ram_slots s' = ram_slots s \<and>
     (\<forall>k. k < ram_cap dms p \<longrightarrow> ram_samples dms s' p k = replicate (dm_size (dms ! p)) 0) \<and>
     (\<forall>p' k'. p' < length dms \<longrightarrow> k' < ram_cap dms p' \<longrightarrow> p' \<noteq> p \<longrightarrow>
        ram_samples dms s' p' k' = ram_samples dms s p' k')"
proof -
  let ?sz = "dm_size (dms ! p)"
  obtain m where m: "payload_db s = Some m" "mem_size m = 2621440 * length dms" "storage_is_open s"
      "payloads_entries s = int (length dms)"
      "payloads_sections_addresses s =
         CLive (map (\<lambda>i. int i * SCH_SIZE_PER_SECTION) [0..<10 * length dms])"
      "length dms \<le> 819" "0 < ?sz" "?sz < 65536"
    using ram_inv_payload [OF assms] by metis
  have idx: "10 * p < 10 * length dms" using assms(2) by simp
  have get: "arr_get (map (\<lambda>i. int i * SCH_SIZE_PER_SECTION) [0..<10 * length dms]) (int (10 * p)) =
      Some (int (2621440 * p))"
    using idx by (subst arr_get_ok) (auto simp: config_defs)
  have "0 \<le> int (2621440 * p)" "int (2621440 * p) + int (length (replicate 2621440 (0::byte))) \<le>
      int (mem_size m)"
    using m(2) assms(2) by auto
  then obtain m' where m': "mem_fill m (int (2621440 * p)) 2621440 0 = Some m'"
    unfolding mem_fill_def using mem_write_ok by blast
  let ?s' = "s\<lparr>payload_db := Some m'\<rparr>"
  have c: "cint (int p * 10) = Some (int (10 * p))" using m(6) assms(2) by (simp add: in_int_def)
  have "ram_storage_payload_reset_table (int p) s = Some (SCH_ST_OK, ?s')"
    using m m' get c assms(2)
    by (simp add: ram_storage_payload_reset_table_def SCH_SECTIONS_PER_PAYLOAD_def SCH_SIZE_PER_SECTION_def)
  moreover have "ram_samples dms ?s' p k = replicate ?sz 0" if "k < ram_cap dms p" for k
    using mem_read_fill_same [OF m', of "ram_addr ?sz p k" ?sz]
      ram_addr_bounds [OF m(7,8), of k p] that
    by (simp add: ram_samples_def ram_cap_def)
  moreover have "ram_samples dms ?s' p' k' = ram_samples dms s p' k'"
    if "p' < length dms" "k' < ram_cap dms p'" "p' \<noteq> p" for p' k'
  proof -
    have sz': "0 < dm_size (dms ! p')" "dm_size (dms ! p') < 65536"
      using ram_inv_payload [OF assms(1) that(1)] by metis+
    note b = ram_addr_bounds [OF sz' that(2) [unfolded ram_cap_def], of p']
    have "p' + 1 \<le> p \<or> p + 1 \<le> p'" using that(3) by linarith
    then have "ram_addr (dm_size (dms ! p')) p' k' + int (dm_size (dms ! p')) \<le> int (2621440 * p) \<or>
        int (2621440 * p) + int 2621440 \<le> ram_addr (dm_size (dms ! p')) p' k'"
      using b by (auto simp: algebra_simps)
    then show ?thesis
      using mem_read_fill_disjoint [OF m', of "ram_addr (dm_size (dms ! p')) p' k'"] m(1)
      by (auto simp: ram_samples_def)
  qed
  ultimately show ?thesis
    using ram_inv_payload_db [OF assms(1) m(1) mem_size_fill [OF m']] by blast
qed

section \<open>The contract holds\<close>

lemmas ram_flight_laws =
  ram_status_get ram_status_set ram_vars_length ram_fp_set ram_fp_set_full ram_fp_get_args
  ram_fp_get_args_none ram_fp_delete_row ram_fp_delete_row_none ram_fp_get_idx
  ram_fp_delete_row_idx ram_status_set_frame

lemma ram_slots_filled:
  "ram_inv dms n s \<Longrightarrow> e \<in> set (ram_slots s) \<Longrightarrow> \<not> fp_free e \<Longrightarrow>
   fp_cmd e \<noteq> None \<and> fp_args e \<noteq> None"
  using ram_inv_flightplan(5) [of dms n s] by (auto simp: ram_slot_ok_def)

interpretation ram_store: flight_store "ram_ops alloc" "ram_inv dms n" ram_vars ram_slots
  for alloc dms n
  by unfold_locales
    (simp_all add: ram_ops_def ram_flight_laws ram_inv_flightplan(3) ram_slots_filled)

interpretation ram_payload_store:
  payload_store "ram_ops alloc" "ram_inv dms n" ram_vars dms "ram_cap dms" "ram_samples dms"
  for alloc dms n
  by unfold_locales
    (use ram_payload_get ram_payload_set ram_payload_reset_table ram_status_set_frame
     in \<open>fastforce simp: ram_ops_def\<close>)+

end
