(* ===== verification/Repo_Data.thy ===== *)
theory Repo_Data
  imports Data_Schema Storage_Ram "HOL-Library.Multiset"
begin

unbundle bit_operations_syntax

text \<open>
  src/system/repoData.c: the data repository. Status variables (written and voted three times when
  \<^verbatim>\<open>SCH_STORAGE_TRIPLE_WR\<close> is set), the flight plan with its counter \<^verbatim>\<open>dat_fpl_queue\<close>, and payload
  samples with their index variables. Every operation is written against the storage interface
  \<open>storage_ops\<close>; \<open>cfg\<close> adds the build option. A critical section of \<^verbatim>\<open>repo_data_sem\<close> is one atomic
  step; the clock is the argument \<open>now\<close>.
\<close>

section \<open>Operations\<close>

record 's dat_cfg = "'s storage_ops" +
  triple_wr :: bool

subsection \<open>Status variables\<close>

definition dat_set_status_var :: "'s dat_cfg \<Rightarrow> int \<Rightarrow> value32 \<Rightarrow> 's \<Rightarrow> (int \<times> 's) option" where
  "dat_set_status_var cfg index v s =
     do { (rc, s1) \<leftarrow> op_status_set cfg index v s;
          if triple_wr cfg then
            do { (rc2, s2) \<leftarrow> op_status_set cfg (index + dat_status_last_address) v s1;
                 (rc3, s3) \<leftarrow> op_status_set cfg (index + dat_status_last_address * 2) v s2;
                 Some (rc OR rc2 OR rc3, s3) }
          else Some (rc, s1) }"

definition dat_set_system_var :: "'s dat_cfg \<Rightarrow> int \<Rightarrow> int \<Rightarrow> 's \<Rightarrow> (int \<times> 's) option" where
  "dat_set_system_var cfg index n s = dat_set_status_var cfg index (of_i n) s"

definition dat_set_status_var_name ::
    "'s dat_cfg \<Rightarrow> string option \<Rightarrow> value32 \<Rightarrow> 's \<Rightarrow> (int \<times> 's) option" where
  "dat_set_status_var_name cfg name v s =
     (case dat_get_status_var_def_name name of
        Inl _ \<Rightarrow> Some (- 1, s)
      | Inr var \<Rightarrow> dat_set_status_var cfg (sv_address var) v s)"

text \<open>The return codes of the reads are ignored: a variable that was not written is indeterminate.\<close>

definition dat_get_status_var :: "'s dat_cfg \<Rightarrow> int \<Rightarrow> 's \<Rightarrow> value32 option" where
  "dat_get_status_var cfg index s =
     do { (_, r1) \<leftarrow> op_status_get cfg index s;
          if triple_wr cfg then
            do { (_, r2) \<leftarrow> op_status_get cfg (index + dat_status_last_var) s;
                 (_, r3) \<leftarrow> op_status_get cfg (index + dat_status_last_var * 2) s;
                 value_1 \<leftarrow> r1;
                 value_2 \<leftarrow> r2;
                 value_3 \<leftarrow> r3;
                 Some (if value_1 = value_2 \<or> value_1 = value_3 then value_1
                       else if value_2 = value_3 then value_2
                       else value_1) }
          else r1 }"

definition dat_get_system_var :: "'s dat_cfg \<Rightarrow> int \<Rightarrow> 's \<Rightarrow> int option" where
  "dat_get_system_var cfg index s = do { var \<leftarrow> dat_get_status_var cfg index s; Some (v_i var) }"

text \<open>For an unknown name the address that is read is indeterminate.\<close>

definition dat_get_status_var_name :: "'s dat_cfg \<Rightarrow> string option \<Rightarrow> 's \<Rightarrow> value32 option" where
  "dat_get_status_var_name cfg name s =
     (case dat_get_status_var_def_name name of
        Inl _ \<Rightarrow> None
      | Inr var \<Rightarrow> dat_get_status_var cfg (sv_address var) s)"

text \<open>The functions for testing the triple writing touch one copy.\<close>

definition dat_set_system_var_1 :: "'s dat_cfg \<Rightarrow> int \<Rightarrow> int \<Rightarrow> 's \<Rightarrow> (int \<times> 's) option" where
  "dat_set_system_var_1 cfg index n s = op_status_set cfg index (of_i n) s"

definition dat_get_system_var_1 :: "'s dat_cfg \<Rightarrow> int \<Rightarrow> 's \<Rightarrow> int option" where
  "dat_get_system_var_1 cfg index s =
     do { (_, r) \<leftarrow> op_status_get cfg index s; v \<leftarrow> r; Some (v_i v) }"

fun dat_reset_loop :: "'s dat_cfg \<Rightarrow> nat \<Rightarrow> nat \<Rightarrow> int \<Rightarrow> 's \<Rightarrow> (int \<times> 's) option" where
  "dat_reset_loop cfg index 0 rc s = Some (rc, s)"
| "dat_reset_loop cfg index (Suc k) rc s =
     do { (r, s1) \<leftarrow> dat_set_status_var cfg (int index)
                       (sv_value (dat_get_status_var_def (int index))) s;
          rc' \<leftarrow> cint (rc + r);
          dat_reset_loop cfg (Suc index) k rc' s1 }"

definition dat_reset_status_vars :: "'s dat_cfg \<Rightarrow> 's \<Rightarrow> (int \<times> 's) option" where
  "dat_reset_status_vars cfg s =
     do { (rc, s1) \<leftarrow> dat_reset_loop cfg 0 (nat dat_status_last_address) SCH_ST_OK s;
          Some (if rc = SCH_ST_OK then SCH_ST_OK else SCH_ST_ERROR, s1) }"

subsection \<open>Flight plan\<close>

text \<open>\<^verbatim>\<open>dat_set_fp\<close> reads the counter before it takes the lock and writes it after it has given it
  back: the three steps between which another task can run.\<close>

definition dat_set_fp_count :: "'s dat_cfg \<Rightarrow> int \<Rightarrow> int \<Rightarrow> 's \<Rightarrow> (int \<times> 's) option" where
  "dat_set_fp_count cfg entries rc s =
     (if rc = SCH_ST_OK then
        do { n \<leftarrow> cint (entries + 1);
             (_, s1) \<leftarrow> dat_set_system_var cfg dat_fpl_queue n s;
             Some (rc, s1) }
      else Some (rc, s))"

definition dat_set_fp ::
    "'s dat_cfg \<Rightarrow> int \<Rightarrow> string option \<Rightarrow> string option \<Rightarrow> int \<Rightarrow> int \<Rightarrow> 's \<Rightarrow> (int \<times> 's) option" where
  "dat_set_fp cfg timetodo command args execs period s =
     do { entries \<leftarrow> dat_get_system_var cfg dat_fpl_queue s;
          (rc, s1) \<leftarrow> op_fp_set cfg timetodo command args execs period SCH_COMM_NODE s;
          dat_set_fp_count cfg entries rc s1 }"

definition dat_get_fp ::
    "'s dat_cfg \<Rightarrow> int \<Rightarrow> 's \<Rightarrow> (int \<times> (string \<times> string \<times> int \<times> int) option \<times> 's) option" where
  "dat_get_fp cfg elapsed_sec s =
     do { entries \<leftarrow> dat_get_system_var cfg dat_fpl_queue s;
          (rc, row) \<leftarrow> op_fp_get_args cfg elapsed_sec s;
          let out = map_option (\<lambda>(c, a, e, p, n). (c, a, e, p)) row;
          (rc1, s1) \<leftarrow> (if rc = SCH_ST_OK then op_fp_delete_row cfg elapsed_sec s
                         else Some (rc, s));
          if rc1 = SCH_ST_OK then
            do { n \<leftarrow> cint (entries - 1);
                 (_, s2) \<leftarrow> dat_set_system_var cfg dat_fpl_queue n s1;
                 Some (rc1, out, s2) }
          else Some (rc1, out, s1) }"

definition dat_del_fp :: "'s dat_cfg \<Rightarrow> int \<Rightarrow> 's \<Rightarrow> (int \<times> 's) option" where
  "dat_del_fp cfg timetodo s =
     do { entries \<leftarrow> dat_get_system_var cfg dat_fpl_queue s;
          (rc, s1) \<leftarrow> op_fp_delete_row cfg timetodo s;
          if rc = SCH_ST_OK then
            do { n \<leftarrow> cint (entries - 1);
                 (_, s2) \<leftarrow> dat_set_system_var cfg dat_fpl_queue n s1;
                 Some (rc, s2) }
          else Some (rc, s1) }"

definition dat_reset_fp :: "'s dat_cfg \<Rightarrow> 's \<Rightarrow> (int \<times> 's) option" where
  "dat_reset_fp cfg s =
     do { (rc, s1) \<leftarrow> op_fp_reset cfg s;
          if rc = SCH_ST_OK then
            do { (_, s2) \<leftarrow> dat_set_system_var cfg dat_fpl_queue 0 s1; Some (rc, s2) }
          else Some (rc, s1) }"

text \<open>The loop of \<^verbatim>\<open>dat_purge_fp\<close>: \<open>fp_i\<close> is the variable outside the loop, which keeps the entry of
  an earlier round when the read fails.\<close>

fun dat_purge_loop ::
    "'s dat_cfg \<Rightarrow> int \<Rightarrow> nat \<Rightarrow> nat \<Rightarrow> fp_entry option \<Rightarrow> int \<Rightarrow> 's \<Rightarrow> (int \<times> 's) option" where
  "dat_purge_loop cfg time_min i 0 fp_i fp_entries s = Some (fp_entries, s)"
| "dat_purge_loop cfg time_min i (Suc k) fp_i fp_entries s =
     do { (ok, got) \<leftarrow> op_fp_get_idx cfg (int i) s;
          let fp_i' = (case got of Some e \<Rightarrow> Some e | None \<Rightarrow> fp_i);
          keep \<leftarrow> (if ok = SCH_ST_OK then do { e \<leftarrow> fp_i'; Some (unixtime e > time_min) }
                   else Some False);
          if keep then dat_purge_loop cfg time_min (Suc i) k fp_i' (fp_entries + 1) s
          else
            do { e \<leftarrow> fp_i';
                 if unixtime e \<noteq> ST_FP_NULL then
                   do { (_, s1) \<leftarrow> op_fp_delete_row_idx cfg (int i) s;
                        dat_purge_loop cfg time_min (Suc i) k fp_i' fp_entries s1 }
                 else dat_purge_loop cfg time_min (Suc i) k fp_i' fp_entries s } }"

definition dat_purge_fp :: "'s dat_cfg \<Rightarrow> int \<Rightarrow> 's \<Rightarrow> (int \<times> 's) option" where
  "dat_purge_fp cfg now s =
     do { time_min \<leftarrow> cint (v_i (of_i now) + 1);
          (fp_entries, s1) \<leftarrow> dat_purge_loop cfg time_min 0 (nat SCH_FP_MAX_ENTRIES) None 0 s;
          (_, s2) \<leftarrow> dat_set_system_var cfg dat_fpl_queue fp_entries s1;
          Some (SCH_ST_OK, s2) }"

text \<open>\<^verbatim>\<open>dat_show_fp\<close>: the entries it prints, in order.\<close>

fun dat_show_loop :: "'s dat_cfg \<Rightarrow> nat \<Rightarrow> nat \<Rightarrow> 's \<Rightarrow> fp_entry list option" where
  "dat_show_loop cfg i 0 s = Some []"
| "dat_show_loop cfg i (Suc k) s =
     do { (ok, got) \<leftarrow> op_fp_get_idx cfg (int i) s;
          rest \<leftarrow> dat_show_loop cfg (Suc i) k s;
          if ok = SCH_ST_OK then
            do { e \<leftarrow> got; Some (if unixtime e \<noteq> ST_FP_NULL then e # rest else rest) }
          else Some rest }"

definition dat_show_fp :: "'s dat_cfg \<Rightarrow> 's \<Rightarrow> (int \<times> fp_entry list) option" where
  "dat_show_fp cfg s =
     do { es \<leftarrow> dat_show_loop cfg 0 (nat SCH_FP_MAX_ENTRIES) s; Some (SCH_ST_OK, es) }"

definition dat_get_fp_st_index :: "'s dat_cfg \<Rightarrow> int \<Rightarrow> 's \<Rightarrow> (int \<times> fp_entry option) option" where
  "dat_get_fp_st_index cfg index s = op_fp_get_idx cfg index s"

subsection \<open>Payload samples\<close>

definition dat_add_payload_sample ::
    "'s dat_cfg \<Rightarrow> byte list option \<Rightarrow> int \<Rightarrow> 's \<Rightarrow> (int \<times> 's) option" where
  "dat_add_payload_sample cfg data payload s =
     (case data of
        None \<Rightarrow> Some (- 1, s)
      | Some bytes \<Rightarrow>
          do { dm \<leftarrow> arr_get data_map payload;
               index \<leftarrow> dat_get_system_var cfg (sys_index dm) s;
               require (4 \<le> length bytes);
               if payload \<ge> last_sensor then Some (SCH_ST_ERROR, s)
               else
                 do { (ret, s1) \<leftarrow> op_payload_set cfg payload index (Some bytes) dm s;
                      if ret \<ge> SCH_ST_OK then
                        do { index' \<leftarrow> cint (index + 1);
                             (_, s2) \<leftarrow> dat_set_system_var cfg (sys_index dm) index' s1;
                             Some (0, s2) }
                      else Some (- 1, s1) } })"

definition dat_get_payload_sample ::
    "'s dat_cfg \<Rightarrow> int \<Rightarrow> int \<Rightarrow> 's \<Rightarrow> (int \<times> byte list option) option" where
  "dat_get_payload_sample cfg payload index s =
     do { dm \<leftarrow> arr_get data_map payload; op_payload_get cfg payload index dm s }"

definition dat_get_recent_payload_sample ::
    "'s dat_cfg \<Rightarrow> int \<Rightarrow> int \<Rightarrow> 's \<Rightarrow> (int \<times> byte list option) option" where
  "dat_get_recent_payload_sample cfg payload offset s =
     do { dm \<leftarrow> arr_get data_map payload;
          index \<leftarrow> dat_get_system_var cfg (sys_index dm) s;
          prev \<leftarrow> cint (index - 1);
          k \<leftarrow> cint (prev - offset);
          if k \<ge> 0 then op_payload_get cfg payload k dm s
          else Some (- 1, None) }"

definition dat_delete_payload :: "'s dat_cfg \<Rightarrow> int \<Rightarrow> 's \<Rightarrow> (int \<times> 's) option" where
  "dat_delete_payload cfg payload s =
     (if payload \<ge> last_sensor then Some (SCH_ST_ERROR, s)
      else
        do { (rc, s1) \<leftarrow> op_payload_reset_table cfg payload s;
             if rc = SCH_ST_OK then
               do { dm \<leftarrow> arr_get data_map payload;
                    (_, s2) \<leftarrow> dat_set_system_var cfg (sys_index dm) 0 s1;
                    (_, s3) \<leftarrow> dat_set_system_var cfg (sys_ack dm) 0 s2;
                    Some (rc, s3) }
             else Some (rc, s1) })"

fun dat_zero_indices :: "'s dat_cfg \<Rightarrow> data_map list \<Rightarrow> 's \<Rightarrow> 's option" where
  "dat_zero_indices cfg [] s = Some s"
| "dat_zero_indices cfg (dm # dms) s =
     do { (_, s1) \<leftarrow> dat_set_system_var cfg (sys_index dm) 0 s; dat_zero_indices cfg dms s1 }"

definition dat_delete_memory_sections :: "'s dat_cfg \<Rightarrow> 's \<Rightarrow> (int \<times> 's) option" where
  "dat_delete_memory_sections cfg s =
     do { (_, s1) \<leftarrow> op_payload_reset cfg s;
          (ret, s2) \<leftarrow> op_fp_reset cfg s1;
          s3 \<leftarrow> dat_zero_indices cfg (take (nat last_sensor) data_map) s2;
          (_, s4) \<leftarrow> dat_set_system_var cfg dat_fpl_queue 0 s3;
          Some (ret, s4) }"

subsection \<open>Start and end\<close>

text \<open>\<open>ram_mode\<close> is the build option \<^verbatim>\<open>SCH_STORAGE_MODE == SCH_ST_RAM\<close>.\<close>

definition dat_repo_init :: "bool \<Rightarrow> 's dat_cfg \<Rightarrow> 's \<Rightarrow> 's option" where
  "dat_repo_init ram_mode cfg s =
     do { (_, s1) \<leftarrow> op_init cfg s;
          let status_copies = (if triple_wr cfg then 3 else 1);
          (rc, s2) \<leftarrow> op_status_init cfg (status_copies * dat_status_last_var) False s1;
          s3 \<leftarrow> (if rc = SCH_ST_OK \<and> ram_mode
                  then do { (_, s') \<leftarrow> dat_reset_status_vars cfg s2; Some s' }
                  else Some s2);
          (_, s4) \<leftarrow> op_payload_init cfg last_sensor False s3;
          (_, s5) \<leftarrow> op_fp_init cfg SCH_FP_MAX_ENTRIES False s4;
          Some s5 }"

definition dat_repo_close :: "'s dat_cfg \<Rightarrow> 's \<Rightarrow> 's option" where
  "dat_repo_close cfg s = do { (_, s1) \<leftarrow> op_close cfg s; Some s1 }"

definition ram_cfg :: "(nat \<Rightarrow> bool) \<Rightarrow> bool \<Rightarrow> ram dat_cfg" where
  "ram_cfg alloc tr = storage_ops.extend (ram_ops alloc) \<lparr>triple_wr = tr\<rparr>"

section \<open>Status variables over any storage\<close>

text \<open>What the reader makes of the stored copies, and what the writer stores.\<close>

definition vote :: "bool \<Rightarrow> value32 list \<Rightarrow> nat \<Rightarrow> value32" where
  "vote tr vs i =
     (if tr then
        (let a = vs ! i; b = vs ! (i + 17); c = vs ! (i + 34)
         in if a = b \<or> a = c then a else if b = c then b else a)
      else vs ! i)"

definition write_copies :: "bool \<Rightarrow> nat \<Rightarrow> value32 \<Rightarrow> value32 list \<Rightarrow> value32 list" where
  "write_copies tr i v vs = (if tr then vs[i := v, i + 17 := v, i + 34 := v] else vs[i := v])"

definition n_copies :: "bool \<Rightarrow> nat" where
  "n_copies tr = (if tr then 51 else 17)"

lemma length_write_copies [simp]: "length (write_copies tr i v vs) = length vs"
  by (simp add: write_copies_def)

lemma vote_write_copies:
  "length vs = n_copies tr \<Longrightarrow> i < 17 \<Longrightarrow> j < 17 \<Longrightarrow>
   vote tr (write_copies tr i v vs) j = (if i = j then v else vote tr vs j)"
  by (cases tr) (auto simp: vote_def write_copies_def n_copies_def nth_list_update)

text \<open>One wrong copy does not change the result of the vote, if the others agree.\<close>

lemma vote_one_wrong:
  assumes "length vs = 51" and "i < 17" and "vs ! i = v" and "vs ! (i + 17) = v"
    and "vs ! (i + 34) = v" and "k < 51"
  shows "vote True (vs[k := w]) i = v"
  using assms by (auto simp: vote_def nth_list_update)

locale status_repo = status_store cfg inv vars
  for cfg :: "'s dat_cfg" and inv vars +
  assumes vars_length: "inv s \<Longrightarrow> length (vars s) = n_copies (triple_wr cfg)"
begin

lemma get_var:
  assumes "inv s" and "i < 17"
  shows "dat_get_status_var cfg (int i) s = Some (vote (triple_wr cfg) (vars s) i)"
proof -
  have get: "op_status_get cfg (int j) s = Some (SCH_ST_OK, Some (vars s ! j))"
    if "j < n_copies (triple_wr cfg)" for j
    using status_get [OF assms(1), of "int j"] that vars_length [OF assms(1)] by simp
  have "int i + 17 = int (i + 17)" "int i + 34 = int (i + 34)" by simp_all
  then show ?thesis
    using assms(2) get [of i] get [of "i + 17"] get [of "i + 34"]
    by (simp add: dat_get_status_var_def vote_def n_copies_def Let_def)
qed

lemma set_var:
  assumes "inv s" and "i < 17"
  shows "\<exists>s'. dat_set_status_var cfg (int i) v s = Some (SCH_ST_OK, s') \<and> inv s' \<and>
     vars s' = write_copies (triple_wr cfg) i v (vars s)"
proof -
  have set: "\<exists>s'. op_status_set cfg (int j) v s = Some (SCH_ST_OK, s') \<and> inv s' \<and>
      vars s' = (vars s)[j := v]" if "inv s" "j < n_copies (triple_wr cfg)" for s j
    using status_set [OF that(1), of "int j"] that vars_length [OF that(1)] by simp
  show ?thesis
  proof (cases "triple_wr cfg")
    case False
    then show ?thesis
      using set [OF assms(1), of i] assms(2)
      by (auto simp: dat_set_status_var_def write_copies_def n_copies_def)
  next
    case True
    then have n: "n_copies (triple_wr cfg) = 51" by (simp add: n_copies_def)
    from set [OF assms(1), of i] assms(2) n obtain s1 where
      s1: "op_status_set cfg (int i) v s = Some (SCH_ST_OK, s1)" "inv s1" "vars s1 = (vars s)[i := v]"
      by auto
    from set [OF s1(2), of "i + 17"] assms(2) n obtain s2 where
      s2: "op_status_set cfg (int (i + 17)) v s1 = Some (SCH_ST_OK, s2)" "inv s2"
        "vars s2 = (vars s1)[i + 17 := v]" by auto
    from set [OF s2(2), of "i + 34"] assms(2) n obtain s3 where
      s3: "op_status_set cfg (int (i + 34)) v s2 = Some (SCH_ST_OK, s3)" "inv s3"
        "vars s3 = (vars s2)[i + 34 := v]" by auto
    have "dat_set_status_var cfg (int i) v s = Some (SCH_ST_OK, s3)"
      using True s1(1) s2(1) s3(1) by (simp add: dat_set_status_var_def addr_defs config_defs)
    then show ?thesis
      using True s1 s2 s3 by (auto simp: write_copies_def)
  qed
qed

lemma set_var_vote:
  assumes "inv s" and "i < 17"
  obtains s' where "dat_set_status_var cfg (int i) v s = Some (SCH_ST_OK, s')" "inv s'"
    "\<And>j. j < 17 \<Longrightarrow> vote (triple_wr cfg) (vars s') j =
              (if i = j then v else vote (triple_wr cfg) (vars s) j)"
proof -
  from set_var [OF assms] obtain s' where
    s': "dat_set_status_var cfg (int i) v s = Some (SCH_ST_OK, s')" "inv s'"
      "vars s' = write_copies (triple_wr cfg) i v (vars s)" by blast
  show thesis
    using that [OF s'(1,2)] vote_write_copies [OF vars_length [OF assms(1)] assms(2)] s'(3) by simp
qed

text \<open>What a write of one copy keeps, the write of a variable keeps.\<close>

lemma set_var_frame:
  assumes frame: "\<And>q v s rc s'. inv s \<Longrightarrow> op_status_set cfg q v s = Some (rc, s') \<Longrightarrow> f s' = f s"
    and "inv s" and "i < 17" and "dat_set_status_var cfg (int i) v s = Some (rc, s')"
  shows "f s' = f s"
proof -
  have step: "inv s2 \<and> f s2 = f s1"
    if "inv s1" "j < n_copies (triple_wr cfg)" "op_status_set cfg (int j) v s1 = Some (r, s2)"
    for s1 s2 j r
    using status_set [OF that(1), of "int j" v] frame [OF that(1,3)] that vars_length
    by fastforce
  show ?thesis
  proof (cases "triple_wr cfg")
    case False
    then show ?thesis
      using assms(2-4) step [of s i] by (auto simp: dat_set_status_var_def n_copies_def split: bind_splits)
  next
    case True
    then obtain r1 s1 r2 s2 r3 where
        "op_status_set cfg (int i) v s = Some (r1, s1)"
        "op_status_set cfg (int (i + 17)) v s1 = Some (r2, s2)"
        "op_status_set cfg (int (i + 34)) v s2 = Some (r3, s')"
      using assms(4) by (auto simp: dat_set_status_var_def addr_defs split: bind_splits)
    then show ?thesis
      using True assms(2,3) step [of s i r1 s1] step [of s1 "i + 17" r2 s2] step [of s2 "i + 34" r3 s']
      by (simp add: n_copies_def)
  qed
qed

text \<open>The same for the signed reading of a variable, at an address of the enumeration.\<close>

definition sys :: "'s \<Rightarrow> int \<Rightarrow> int" where
  "sys s i = v_i (vote (triple_wr cfg) (vars s) (nat i))"

lemma get_sys:
  "inv s \<Longrightarrow> 0 \<le> i \<Longrightarrow> i < 17 \<Longrightarrow> dat_get_system_var cfg i s = Some (sys s i)"
  using get_var [of s "nat i"] by (simp add: dat_get_system_var_def sys_def)

lemma set_sys:
  assumes "inv s" and "0 \<le> i" and "i < 17" and "in_int n"
  obtains s' where "dat_set_system_var cfg i n s = Some (SCH_ST_OK, s')" "inv s'"
    "\<And>j. 0 \<le> j \<Longrightarrow> j < 17 \<Longrightarrow> sys s' j = (if i = j then n else sys s j)"
proof -
  have lt: "nat i < 17" using assms(2,3) by simp
  from set_var_vote [OF assms(1) lt, of "of_i n"] obtain s' where
    s': "dat_set_status_var cfg (int (nat i)) (of_i n) s = Some (SCH_ST_OK, s')" "inv s'"
      "\<And>j. j < 17 \<Longrightarrow> vote (triple_wr cfg) (vars s') j =
              (if nat i = j then of_i n else vote (triple_wr cfg) (vars s) j)"
    by metis
  show thesis
  proof (rule that)
    show "dat_set_system_var cfg i n s = Some (SCH_ST_OK, s')"
      using s'(1) assms(2) by (simp add: dat_set_system_var_def)
    show "inv s'" by (rule s'(2))
    show "sys s' j = (if i = j then n else sys s j)" if "0 \<le> j" "j < 17" for j
      using s'(3) [of "nat j"] that assms(2,4) by (auto simp: sys_def nat_eq_iff)
  qed
qed

end

section \<open>The flight plan over any storage\<close>

text \<open>
  The abstract plan: the entries of the table that are in use, without their places. Its size is
  what \<^verbatim>\<open>dat_fpl_queue\<close> is meant to hold.
\<close>

definition fp_used :: "fp_entry list \<Rightarrow> fp_entry list" where
  "fp_used fl = filter (\<lambda>e. \<not> fp_free e) fl"

definition plan :: "fp_entry list \<Rightarrow> fp_entry multiset" where
  "plan fl = mset (fp_used fl)"

lemma plan_append: "plan (xs @ ys) = plan xs + plan ys"
  by (simp add: plan_def fp_used_def)

lemma plan_Cons: "plan (x # xs) = (if fp_free x then plan xs else add_mset x (plan xs))"
  by (simp add: plan_def fp_used_def)

lemma plan_update:
  assumes "i < length fl"
  shows "plan (fl[i := e]) =
     (plan fl - (if fp_free (fl ! i) then {#} else {#fl ! i#})) +
     (if fp_free e then {#} else {#e#})"
proof -
  have "plan fl = plan (take i fl @ fl ! i # drop (Suc i) fl)"
    using id_take_nth_drop [OF assms] by simp
  moreover have "plan (fl[i := e]) = plan (take i fl @ e # drop (Suc i) fl)"
    using upd_conv_take_nth_drop [OF assms] by simp
  ultimately show ?thesis by (simp add: plan_append plan_Cons)
qed

lemma size_plan: "size (plan fl) = length (fp_used fl)"
  by (simp add: plan_def del: mset_filter)

lemma size_plan_le: "size (plan fl) \<le> length fl"
  by (simp add: size_plan fp_used_def)

lemma plan_full: "find_idx fp_free fl = None \<longleftrightarrow> size (plan fl) = length fl"
proof -
  have "size (plan fl) = length fl \<longleftrightarrow> (\<forall>e \<in> set fl. \<not> fp_free e)"
  proof (induction fl)
    case (Cons e fl)
    show ?case using Cons.IH size_plan_le [of fl] by (auto simp: plan_Cons)
  qed (simp add: plan_def fp_used_def)
  then show ?thesis by (simp add: find_idx_eq_None)
qed

lemma fp_free_clear [simp]: "fp_free (fp_entry_clear e)"
  by (simp add: fp_free_def config_defs)

locale flight_repo = flight_store cfg inv vars slots + status_repo cfg inv vars
  for cfg :: "'s dat_cfg" and inv vars slots
begin

lemma set_var_slots:
  "inv s \<Longrightarrow> i < 17 \<Longrightarrow> dat_set_status_var cfg (int i) v s = Some (rc, s') \<Longrightarrow> slots s' = slots s"
  using status_set_slots by (rule set_var_frame)

lemma set_sys_slots:
  assumes "inv s" and "0 \<le> i" and "i < 17" and "dat_set_system_var cfg i n s = Some (rc, s')"
  shows "slots s' = slots s"
  using set_var_slots [OF assms(1), of "nat i"] assms(2-4) by (simp add: dat_set_system_var_def)

definition counted :: "'s \<Rightarrow> bool" where
  "counted s \<longleftrightarrow> inv s \<and> sys s dat_fpl_queue = int (size (plan (slots s)))"

lemma set_queue:
  assumes "inv s" and "n = int (size (plan (slots s)))"
  obtains s' where "dat_set_system_var cfg dat_fpl_queue n s = Some (SCH_ST_OK, s')" "counted s'"
    "slots s' = slots s"
    "\<And>j. 0 \<le> j \<Longrightarrow> j < 17 \<Longrightarrow> j \<noteq> dat_fpl_queue \<Longrightarrow> sys s' j = sys s j"
proof -
  have "size (plan (slots s)) \<le> 255"
    using size_plan_le [of "slots s"] slots_length [OF assms(1)] by (simp add: config_defs)
  then have "in_int n" using assms(2) by (simp add: in_int_def)
  moreover have q: "0 \<le> dat_fpl_queue" "dat_fpl_queue < 17" by (simp_all add: addr_defs)
  ultimately obtain s' where s': "dat_set_system_var cfg dat_fpl_queue n s = Some (SCH_ST_OK, s')"
      "inv s'" "\<And>j. 0 \<le> j \<Longrightarrow> j < 17 \<Longrightarrow> sys s' j = (if dat_fpl_queue = j then n else sys s j)"
    using set_sys [OF assms(1)] by metis
  show thesis
    using that [OF s'(1)] s'(2,3) q set_sys_slots [OF assms(1) q s'(1)] assms(2)
    by (simp add: counted_def)
qed

lemma get_queue: "counted s \<Longrightarrow>
   dat_get_system_var cfg dat_fpl_queue s = Some (int (size (plan (slots s))))"
  using get_sys [of s dat_fpl_queue] by (simp add: counted_def addr_defs)

lemma set_fp:
  assumes "counted s" and "0 \<le> t" and "size (plan (slots s)) < 255"
  shows "\<exists>s'. dat_set_fp cfg t (Some c) (Some a) n p s = Some (SCH_ST_OK, s') \<and> counted s' \<and>
     plan (slots s') = add_mset \<lparr>unixtime = t, executions = n, periodical = p,
        node = SCH_COMM_NODE, fp_cmd = Some c, fp_args = Some a\<rparr> (plan (slots s))"
proof -
  let ?e = "\<lparr>unixtime = t, executions = n, periodical = p, node = SCH_COMM_NODE,
            fp_cmd = Some c, fp_args = Some a\<rparr>"
  from assms(1) have inv: "inv s" by (simp add: counted_def)
  have "find_idx fp_free (slots s) \<noteq> None"
    using assms(3) slots_length [OF inv] by (simp add: plan_full config_defs)
  then obtain i where i: "find_idx fp_free (slots s) = Some i" by blast
  from fp_set [OF inv assms(2) i, of c a n p SCH_COMM_NODE] obtain s1 where
      s1: "op_fp_set cfg t (Some c) (Some a) n p SCH_COMM_NODE s = Some (SCH_ST_OK, s1)" "inv s1"
        "slots s1 = (slots s)[i := ?e]" by blast
  have plan1: "plan (slots s1) = add_mset ?e (plan (slots s))"
    using find_idx_SomeD [OF i] assms(2) by (simp add: s1(3) plan_update fp_free_def config_defs)
  have "int (size (plan (slots s))) + 1 = int (size (plan (slots s1)))" by (simp add: plan1)
  moreover have "in_int (int (size (plan (slots s))) + 1)" using assms(3) by (simp add: in_int_def)
  moreover obtain s2 where "dat_set_system_var cfg dat_fpl_queue
      (int (size (plan (slots s1)))) s1 = Some (SCH_ST_OK, s2)" "counted s2" "slots s2 = slots s1"
    using set_queue [OF s1(2) refl] by metis
  ultimately show ?thesis
    using get_queue [OF assms(1)] s1(1) plan1
    by (simp add: dat_set_fp_def dat_set_fp_count_def del: size_add_mset of_nat_Suc)
qed

lemma set_fp_full:
  assumes "counted s" and "size (plan (slots s)) = 255"
  shows "dat_set_fp cfg t (Some c) (Some a) n p s = Some (SCH_ST_ERROR, s)"
proof -
  from assms(1) have inv: "inv s" by (simp add: counted_def)
  have "find_idx fp_free (slots s) = None"
    using assms(2) slots_length [OF inv] by (simp add: plan_full config_defs)
  then show ?thesis
    using get_queue [OF assms(1)] fp_set_full [OF inv]
    by (simp add: dat_set_fp_def dat_set_fp_count_def config_defs)
qed

text \<open>Removing the first entry of a time.\<close>

lemma plan_remove:
  assumes "counted s" and "find_idx (\<lambda>e. unixtime e = t) (slots s) = Some i" and "0 \<le> t"
    and "slots s' = (slots s)[i := fp_entry_clear (slots s ! i)]"
  shows "plan (slots s) = add_mset (slots s ! i) (plan (slots s'))"
    and "int (size (plan (slots s))) - 1 = int (size (plan (slots s')))"
    and "in_int (int (size (plan (slots s))) - 1)"
proof -
  have i: "i < length (slots s)" "unixtime (slots s ! i) = t"
    using find_idx_SomeD [OF assms(2)] by simp_all
  then have used: "\<not> fp_free (slots s ! i)" using assms(3) by (simp add: fp_free_def config_defs)
  then have "slots s ! i \<in># plan (slots s)" using i(1) by (simp add: plan_def fp_used_def)
  then show eq: "plan (slots s) = add_mset (slots s ! i) (plan (slots s'))"
    using i(1) used by (simp add: assms(4) plan_update)
  show "int (size (plan (slots s))) - 1 = int (size (plan (slots s')))" by (simp add: eq)
  show "in_int (int (size (plan (slots s))) - 1)"
    using size_plan_le [of "slots s"] slots_length [of s] assms(1)
    by (simp add: in_int_def counted_def config_defs)
qed

lemma get_fp:
  assumes "counted s" and "0 \<le> t" and "find_idx (\<lambda>e. unixtime e = t) (slots s) = Some i"
  shows "\<exists>s'. dat_get_fp cfg t s =
       Some (SCH_ST_OK, Some (the (fp_cmd (slots s ! i)), the (fp_args (slots s ! i)),
               executions (slots s ! i), periodical (slots s ! i)), s') \<and> counted s' \<and>
     plan (slots s) = add_mset (slots s ! i) (plan (slots s'))"
proof -
  from assms(1) have inv: "inv s" by (simp add: counted_def)
  from fp_delete_row [OF inv assms(3)] obtain s1 where
      s1: "op_fp_delete_row cfg t s = Some (SCH_ST_OK, s1)" "inv s1"
        "slots s1 = (slots s)[i := fp_entry_clear (slots s ! i)]" by blast
  note rm = plan_remove [OF assms(1,3,2) s1(3)]
  obtain s2 where "dat_set_system_var cfg dat_fpl_queue
      (int (size (plan (slots s1)))) s1 = Some (SCH_ST_OK, s2)" "counted s2" "slots s2 = slots s1"
    using set_queue [OF s1(2) refl] by metis
  then show ?thesis
    using get_queue [OF assms(1)] s1(1) rm fp_get_args [OF inv assms(2,3)]
    by (simp add: dat_get_fp_def)
qed

lemma get_fp_none:
  assumes "counted s" and "find_idx (\<lambda>e. unixtime e = t) (slots s) = None"
  shows "dat_get_fp cfg t s = Some (SCH_ST_ERROR, None, s)"
  using get_queue [OF assms(1)] assms fp_get_args_none [of s t]
  by (simp add: dat_get_fp_def counted_def config_defs)

lemma del_fp:
  assumes "counted s" and "0 \<le> t" and "find_idx (\<lambda>e. unixtime e = t) (slots s) = Some i"
  shows "\<exists>s'. dat_del_fp cfg t s = Some (SCH_ST_OK, s') \<and> counted s' \<and>
     plan (slots s) = add_mset (slots s ! i) (plan (slots s'))"
proof -
  from assms(1) have inv: "inv s" by (simp add: counted_def)
  from fp_delete_row [OF inv assms(3)] obtain s1 where
      s1: "op_fp_delete_row cfg t s = Some (SCH_ST_OK, s1)" "inv s1"
        "slots s1 = (slots s)[i := fp_entry_clear (slots s ! i)]" by blast
  note rm = plan_remove [OF assms(1,3,2) s1(3)]
  obtain s2 where "dat_set_system_var cfg dat_fpl_queue
      (int (size (plan (slots s1)))) s1 = Some (SCH_ST_OK, s2)" "counted s2" "slots s2 = slots s1"
    using set_queue [OF s1(2) refl] by metis
  then show ?thesis
    using get_queue [OF assms(1)] s1(1) rm by (simp add: dat_del_fp_def)
qed

lemma del_fp_none:
  assumes "counted s" and "find_idx (\<lambda>e. unixtime e = t) (slots s) = None"
  shows "dat_del_fp cfg t s = Some (SCH_ST_ERROR, s)"
  using get_queue [OF assms(1)] assms fp_delete_row_none [of s t]
  by (simp add: dat_del_fp_def counted_def config_defs)

end

text \<open>What \<^verbatim>\<open>dat_purge_fp\<close> does to one entry.\<close>

definition purge_entry :: "int \<Rightarrow> fp_entry \<Rightarrow> fp_entry" where
  "purge_entry time_min e =
     (if unixtime e > time_min \<or> fp_free e then e else fp_entry_clear e)"

lemma plan_purge:
  assumes "0 \<le> time_min"
  shows "plan (map (purge_entry time_min) fl) = filter_mset (\<lambda>e. unixtime e > time_min) (plan fl)"
proof (induction fl)
  case (Cons e fl)
  have "fp_free e \<Longrightarrow> \<not> unixtime e > time_min"
    using assms by (simp add: fp_free_def config_defs)
  then show ?case using Cons.IH by (auto simp: plan_Cons purge_entry_def)
qed (simp add: plan_def fp_used_def)

lemma count_purge:
  assumes "0 \<le> time_min"
  shows "length (filter (\<lambda>e. unixtime e > time_min) fl) =
     size (plan (map (purge_entry time_min) fl))"
proof (induction fl)
  case (Cons e fl)
  have "fp_free e \<Longrightarrow> \<not> unixtime e > time_min"
    using assms by (simp add: fp_free_def config_defs)
  then show ?case using Cons.IH by (auto simp: plan_Cons purge_entry_def)
qed (simp add: plan_def fp_used_def)

context flight_repo
begin

lemma purge_loop:
  assumes "inv s" and "i + k = length (slots s)"
  shows "\<exists>s'. dat_purge_loop cfg time_min i k fp_i c s =
       Some (c + int (length (filter (\<lambda>e. unixtime e > time_min) (drop i (slots s)))), s') \<and>
     inv s' \<and> vars s' = vars s \<and>
     slots s' = take i (slots s) @ map (purge_entry time_min) (drop i (slots s))"
  using assms
proof (induction k arbitrary: i fp_i c s)
  case 0
  then show ?case by simp
next
  case (Suc k)
  let ?e = "slots s ! i"
  have i: "i < length (slots s)" using Suc.prems(2) by simp
  note get = fp_get_idx [OF Suc.prems(1) i]
  have dr: "drop i (slots s) = ?e # drop (Suc i) (slots s)"
    using i by (simp add: Cons_nth_drop_Suc)
  have tk: "take (Suc i) (slots s) = take i (slots s) @ [?e]" using i by (rule take_Suc_conv_app_nth)
  show ?case
  proof (cases "unixtime ?e > time_min \<or> fp_free ?e")
    case True
    have "Suc i + k = length (slots s)" using Suc.prems(2) by simp
    note IH = Suc.IH [OF Suc.prems(1) this]
    show ?thesis
      using IH [of "Some ?e" "c + 1"] IH [of "Some ?e" c] get True
      by (cases "unixtime ?e > time_min")
        (auto simp: dr tk purge_entry_def fp_free_def Let_def config_defs)
  next
    case False
    from fp_delete_row_idx [OF Suc.prems(1) i] obtain s1 where
        s1: "op_fp_delete_row_idx cfg (int i) s = Some (SCH_ST_OK, s1)" "inv s1"
          "vars s1 = vars s" "slots s1 = (slots s)[i := fp_entry_clear ?e]" by blast
    have "Suc i + k = length (slots s1)" using Suc.prems(2) by (simp add: s1(4))
    note IH = Suc.IH [OF s1(2) this, of "Some ?e" c]
    have tk1: "take (Suc i) (slots s1) = take i (slots s) @ [fp_entry_clear ?e]"
      using i by (simp add: s1(4) take_Suc_conv_app_nth)
    show ?thesis
      using IH get False s1(1,3)
      by (simp add: dr tk1 [unfolded s1(4)] s1(4) purge_entry_def fp_free_def Let_def config_defs)
  qed
qed

lemma purge_fp:
  assumes "inv s" and "0 \<le> now" and "now < 2147483647"
  shows "\<exists>s'. dat_purge_fp cfg now s = Some (SCH_ST_OK, s') \<and> counted s' \<and>
     plan (slots s') = filter_mset (\<lambda>e. unixtime e > now + 1) (plan (slots s))"
proof -
  have now: "v_i (of_i now) = now" "in_int (now + 1)" using assms(2,3) by (simp_all add: in_int_def)
  have len: "0 + nat SCH_FP_MAX_ENTRIES = length (slots s)" using slots_length [OF assms(1)] by simp
  from purge_loop [OF assms(1) len, of "now + 1" None 0] obtain s1 where
      s1: "dat_purge_loop cfg (now + 1) 0 (nat SCH_FP_MAX_ENTRIES) None 0 s =
             Some (int (size (plan (slots s1))), s1)"
        "inv s1" "slots s1 = map (purge_entry (now + 1)) (slots s)"
    using assms(2) by (auto simp: count_purge)
  obtain s2 where "dat_set_system_var cfg dat_fpl_queue
      (int (size (plan (slots s1)))) s1 = Some (SCH_ST_OK, s2)" "counted s2" "slots s2 = slots s1"
    using set_queue [OF s1(2) refl] by metis
  then show ?thesis
    using s1 now assms(2) by (simp add: dat_purge_fp_def plan_purge)
qed

lemma show_loop:
  assumes "inv s" and "i + k = length (slots s)"
  shows "dat_show_loop cfg i k s = Some (fp_used (drop i (slots s)))"
  using assms
proof (induction k arbitrary: i)
  case 0
  then show ?case by (simp add: fp_used_def)
next
  case (Suc k)
  have i: "i < length (slots s)" using Suc.prems(2) by simp
  then have "drop i (slots s) = slots s ! i # drop (Suc i) (slots s)"
    by (simp add: Cons_nth_drop_Suc)
  then show ?case
    using Suc fp_get_idx [OF Suc.prems(1) i] by (simp add: fp_used_def fp_free_def)
qed

end

lemma data_map_facts:
  assumes "p < length data_map"
  shows "0 \<le> sys_index (data_map ! p)" "sys_index (data_map ! p) < 17"
    "0 \<le> sys_ack (data_map ! p)" "sys_ack (data_map ! p) < 17"
    "arr_get data_map (int p) = Some (data_map ! p)" "int p < last_sensor"
    "4 \<le> dm_size (data_map ! p)"
  using assms by (auto simp: data_map_def addr_defs less_Suc_eq_0_disj arr_get_def)

lemma data_map_idx_inj:
  "p < length data_map \<Longrightarrow> q < length data_map \<Longrightarrow>
   sys_index (data_map ! p) = sys_index (data_map ! q) \<longleftrightarrow> p = q"
  by (auto simp: data_map_def)

section \<open>Payload samples over any storage\<close>

locale payload_repo = payload_store cfg inv vars data_map cap samples + status_repo cfg inv vars
  for cfg :: "'s dat_cfg" and inv vars cap samples +
  assumes cap_int: "cap p < 2147483647"
begin

lemma set_var_samples:
  "inv s \<Longrightarrow> i < 17 \<Longrightarrow> dat_set_status_var cfg (int i) v s = Some (rc, s') \<Longrightarrow>
   samples s' = samples s"
  using status_set_samples by (rule set_var_frame)

lemma set_sys_samples:
  assumes "inv s" and "0 \<le> i" and "i < 17" and "dat_set_system_var cfg i n s = Some (rc, s')"
  shows "samples s' = samples s"
  using set_var_samples [OF assms(1), of "nat i"] assms(2-4) by (simp add: dat_set_system_var_def)

text \<open>The samples a payload holds: those below its index variable.\<close>

definition held :: "'s \<Rightarrow> nat \<Rightarrow> byte list list" where
  "held s p = map (samples s p) [0..<nat (sys s (sys_index (data_map ! p)))]"

definition sampling :: "'s \<Rightarrow> bool" where
  "sampling s \<longleftrightarrow> inv s \<and>
     (\<forall>p < length data_map. 0 \<le> sys s (sys_index (data_map ! p)) \<and>
        sys s (sys_index (data_map ! p)) \<le> int (cap p))"

lemma sampling_index:
  assumes "sampling s" and "p < length data_map"
  obtains k where "inv s" "sys s (sys_index (data_map ! p)) = int k" "k \<le> cap p"
    "held s p = map (samples s p) [0..<k]"
proof -
  let ?n = "sys s (sys_index (data_map ! p))"
  have n: "0 \<le> ?n" "?n \<le> int (cap p)" using assms by (auto simp: sampling_def)
  show thesis
    using that [of "nat ?n"] n assms(1) by (simp add: held_def nat_le_iff sampling_def)
qed

lemma add_sample:
  assumes "sampling s" and "p < length data_map" and "length (held s p) < cap p"
    and "length bytes = dm_size (data_map ! p)"
  shows "\<exists>s'. dat_add_payload_sample cfg (Some bytes) (int p) s = Some (0, s') \<and> sampling s' \<and>
     held s' p = held s p @ [bytes] \<and>
     (\<forall>q < length data_map. q \<noteq> p \<longrightarrow> held s' q = held s q) \<and>
     (\<forall>j. 0 \<le> j \<longrightarrow> j < 17 \<longrightarrow> sys s' j = (if sys_index (data_map ! p) = j then sys s j + 1 else sys s j))"
proof -
  let ?idx = "\<lambda>p. sys_index (data_map ! p)"
  obtain k where inv: "inv s" and k: "sys s (?idx p) = int k"
      and held: "held s p = map (samples s p) [0..<k]"
    using sampling_index [OF assms(1,2)] by metis
  have kcap: "k < cap p" using assms(3) by (simp add: held)
  note dm = data_map_facts [OF assms(2)]
  from payload_set [OF inv assms(2) kcap assms(4)] obtain s1 where
      s1: "op_payload_set cfg (int p) (int k) (Some bytes) (data_map ! p) s = Some (SCH_ST_OK, s1)"
        "inv s1" "vars s1 = vars s" "samples s1 p k = bytes"
        "\<And>p' k'. p' < length data_map \<Longrightarrow> k' < cap p' \<Longrightarrow> (p', k') \<noteq> (p, k) \<Longrightarrow>
           samples s1 p' k' = samples s p' k'"
    by blast
  have c: "in_int (int k + 1)" using kcap cap_int [of p] unfolding in_int_def by linarith
  obtain s2 where s2: "dat_set_system_var cfg (?idx p) (int k + 1) s1 = Some (SCH_ST_OK, s2)" "inv s2"
      "\<And>j. 0 \<le> j \<Longrightarrow> j < 17 \<Longrightarrow> sys s2 j = (if ?idx p = j then int k + 1 else sys s1 j)"
    using set_sys [OF s1(2) dm(1,2) c] by metis
  have same: "samples s2 = samples s1" by (rule set_sys_samples [OF s1(2) dm(1,2) s2(1)])
  have sys2: "sys s2 (?idx q) = (if q = p then int k + 1 else sys s (?idx q))"
    if "q < length data_map" for q
    using s2(3) [of "?idx q"] data_map_facts [OF that] data_map_idx_inj [OF that assms(2)] s1(3)
    by (auto simp: sys_def)
  have "dat_add_payload_sample cfg (Some bytes) (int p) s = Some (0, s2)"
    using get_sys [OF inv dm(1,2)] k dm s1(1) s2(1) c assms(2,4)
    by (simp add: dat_add_payload_sample_def config_defs)
  moreover have "sampling s2"
    using assms(1) s2(2) sys2 kcap by (simp add: sampling_def)
  moreover have "held s2 p = held s p @ [bytes]"
    using kcap s1(4,5) sys2 [OF assms(2)] assms(2) unfolding held
    by (auto simp: held_def same nat_add_distrib)
  moreover have "held s2 q = held s q" if q: "q < length data_map" "q \<noteq> p" for q
  proof -
    obtain n where n: "sys s (?idx q) = int n" "n \<le> cap q" "held s q = map (samples s q) [0..<n]"
      using sampling_index [OF assms(1) q(1)] by metis
    then show ?thesis
      using q s1(5) sys2 [OF q(1)] by (auto simp: held_def same)
  qed
  moreover have "sys s2 j = (if ?idx p = j then sys s j + 1 else sys s j)" if "0 \<le> j" "j < 17" for j
    using s2(3) [OF that] s1(3) k by (auto simp: sys_def)
  ultimately show ?thesis by blast
qed

lemma recent_sample:
  assumes "sampling s" and "p < length data_map" and "j < length (held s p)"
  shows "dat_get_recent_payload_sample cfg (int p) (int j) s = Some (SCH_ST_OK, Some (rev (held s p) ! j))"
proof -
  let ?idx = "sys_index (data_map ! p)"
  obtain k where inv: "inv s" and k: "sys s ?idx = int k" and cap: "k \<le> cap p"
      and held: "held s p = map (samples s p) [0..<k]"
    using sampling_index [OF assms(1,2)] by metis
  have j: "j < k" using assms(3) by (simp add: held)
  note dm = data_map_facts [OF assms(2)]
  have arith: "int k - 1 - int j = int (k - 1 - j)" using j by linarith
  have "in_int (int k - 1)" "in_int (int k - 1 - int j)"
    using cap cap_int [of p] j by (simp_all add: in_int_def)
  moreover have "op_payload_get cfg (int p) (int (k - 1 - j)) (data_map ! p) s =
      Some (SCH_ST_OK, Some (samples s p (k - 1 - j)))"
    by (rule payload_get [OF inv assms(2)]) (use j cap in linarith)
  moreover have "rev (held s p) ! j = samples s p (k - 1 - j)"
    using j by (simp add: held rev_nth)
  ultimately show ?thesis
    using get_sys [OF inv dm(1,2)] k arith dm assms(2)
    by (simp add: dat_get_recent_payload_sample_def)
qed

lemma indexed_sample:
  assumes "sampling s" and "p < length data_map" and "i < length (held s p)"
  shows "dat_get_payload_sample cfg (int p) (int i) s = Some (SCH_ST_OK, Some (held s p ! i))"
proof -
  obtain k where inv: "inv s" and cap: "k \<le> cap p" and held: "held s p = map (samples s p) [0..<k]"
    using sampling_index [OF assms(1,2)] by metis
  have i: "i < k" using assms(3) by (simp add: held)
  then have "op_payload_get cfg (int p) (int i) (data_map ! p) s = Some (SCH_ST_OK, Some (samples s p i))"
    using payload_get [OF inv assms(2), of i] cap by simp
  then show ?thesis
    using data_map_facts(5) [OF assms(2)] i by (simp add: dat_get_payload_sample_def held)
qed

lemma recent_sample_none:
  assumes "sampling s" and "p < length data_map" and "length (held s p) \<le> j" and "j < 2147483647"
  shows "dat_get_recent_payload_sample cfg (int p) (int j) s = Some (- 1, None)"
proof -
  let ?idx = "sys_index (data_map ! p)"
  obtain k where inv: "inv s" and k: "sys s ?idx = int k" and cap: "k \<le> cap p"
      and held: "held s p = map (samples s p) [0..<k]"
    using sampling_index [OF assms(1,2)] by metis
  have j: "k \<le> j" using assms(3) by (simp add: held)
  note dm = data_map_facts [OF assms(2)]
  have "in_int (int k - 1)" "in_int (int k - 1 - int j)" "\<not> 0 \<le> int k - 1 - int j"
    using cap cap_int [of p] j assms(4) by (auto simp: in_int_def)
  then show ?thesis
    using get_sys [OF inv dm(1,2)] k dm assms(2)
    by (simp add: dat_get_recent_payload_sample_def)
qed

end

section \<open>Resetting the status variables\<close>

lemma sv_value_def: "j < 17 \<Longrightarrow>
   \<exists>v \<in> set dat_status_list. sv_address v = int j \<and> dat_get_status_var_def (int j) = v"
proof -
  assume "j < 17"
  then have "int j \<in> set (map sv_address dat_status_list)"
    using dat_status_list_addresses(3) by (simp add: addr_defs)
  then obtain i where i: "find_idx (\<lambda>v. sv_address v = int j) dat_status_list = Some i"
    by (cases "find_idx (\<lambda>v. sv_address v = int j) dat_status_list")
      (auto simp: find_idx_eq_None)
  have "dat_get_status_var_def (int j) = dat_status_list ! i"
    using \<open>j < 17\<close> i by (simp add: dat_get_status_var_def_def Let_def addr_defs)
  then show ?thesis using find_idx_SomeD [OF i] by auto
qed

context status_repo
begin

lemma reset_loop:
  assumes frame: "\<And>q v s rc s'. inv s \<Longrightarrow> op_status_set cfg q v s = Some (rc, s') \<Longrightarrow> f s' = f s"
    and "inv s" and "i + k \<le> 17"
  shows "\<exists>s'. dat_reset_loop cfg i k SCH_ST_OK s = Some (SCH_ST_OK, s') \<and> inv s' \<and> f s' = f s \<and>
     (\<forall>j < 17. vote (triple_wr cfg) (vars s') j =
        (if i \<le> j \<and> j < i + k then sv_value (dat_get_status_var_def (int j))
         else vote (triple_wr cfg) (vars s) j))"
  using assms(2,3)
proof (induction k arbitrary: i s)
  case 0
  then show ?case by auto
next
  case (Suc k)
  let ?v = "sv_value (dat_get_status_var_def (int i))"
  have i: "i < 17" "Suc i + k \<le> 17" using Suc.prems(2) by simp_all
  obtain s1 where s1: "dat_set_status_var cfg (int i) ?v s = Some (SCH_ST_OK, s1)" "inv s1"
      "\<And>j. j < 17 \<Longrightarrow> vote (triple_wr cfg) (vars s1) j =
              (if i = j then ?v else vote (triple_wr cfg) (vars s) j)"
    using set_var_vote [OF Suc.prems(1) i(1), of ?v] by metis
  have fr: "f s1 = f s" using frame Suc.prems(1) i(1) s1(1) by (rule set_var_frame)
  from Suc.IH [OF s1(2) i(2)] obtain s2 where
      s2: "dat_reset_loop cfg (Suc i) k SCH_ST_OK s1 = Some (SCH_ST_OK, s2)" "inv s2" "f s2 = f s1"
        "\<forall>j < 17. vote (triple_wr cfg) (vars s2) j =
          (if Suc i \<le> j \<and> j < Suc i + k then sv_value (dat_get_status_var_def (int j))
           else vote (triple_wr cfg) (vars s1) j)" by blast
  have "dat_reset_loop cfg i (Suc k) SCH_ST_OK s = Some (SCH_ST_OK, s2)"
    using s1(1) s2(1) by (simp add: config_defs in_int_def)
  moreover have "vote (triple_wr cfg) (vars s2) j =
        (if i \<le> j \<and> j < i + Suc k then sv_value (dat_get_status_var_def (int j))
         else vote (triple_wr cfg) (vars s) j)" if "j < 17" for j
    using s2(4) s1(3) [OF that] that by auto
  ultimately show ?case using s2(2,3) fr by auto
qed

lemma reset_status:
  assumes frame: "\<And>q v s rc s'. inv s \<Longrightarrow> op_status_set cfg q v s = Some (rc, s') \<Longrightarrow> f s' = f s"
    and "inv s"
  shows "\<exists>s'. dat_reset_status_vars cfg s = Some (SCH_ST_OK, s') \<and> inv s' \<and> f s' = f s \<and>
    (\<forall>j < 17. vote (triple_wr cfg) (vars s') j = sv_value (dat_get_status_var_def (int j)))"
proof -
  have nat17: "nat dat_status_last_address = 17" by (simp add: addr_defs)
  have le: "0 + 17 \<le> (17::nat)" by simp
  have "\<exists>s'. dat_reset_loop cfg 0 17 SCH_ST_OK s = Some (SCH_ST_OK, s') \<and> inv s' \<and> f s' = f s \<and>
     (\<forall>j < 17. vote (triple_wr cfg) (vars s') j =
        (if 0 \<le> j \<and> j < 0 + 17 then sv_value (dat_get_status_var_def (int j))
         else vote (triple_wr cfg) (vars s) j))"
    using frame assms(2) le by (rule reset_loop)
  then obtain s' where
      "dat_reset_loop cfg 0 17 SCH_ST_OK s = Some (SCH_ST_OK, s')" "inv s'" "f s' = f s"
      "\<forall>j < 17. vote (triple_wr cfg) (vars s') j = sv_value (dat_get_status_var_def (int j))"
    by auto
  then show ?thesis by (simp add: dat_reset_status_vars_def nat17)
qed

end

section \<open>The repository on RAM storage\<close>

lemma ram_cfg_simps [simp]:
  "triple_wr (ram_cfg alloc tr) = tr"
  "op_init (ram_cfg alloc tr) = ram_storage_init"
  "op_close (ram_cfg alloc tr) = ram_storage_close"
  "op_status_init (ram_cfg alloc tr) = ram_storage_table_status_init alloc"
  "op_fp_init (ram_cfg alloc tr) = ram_storage_table_flight_plan_init alloc"
  "op_payload_init (ram_cfg alloc tr) = ram_storage_table_payload_init alloc"
  "op_status_get (ram_cfg alloc tr) = ram_storage_status_get_value_idx"
  "op_status_set (ram_cfg alloc tr) = ram_storage_status_set_value_idx"
  "op_fp_set (ram_cfg alloc tr) = ram_storage_flight_plan_set"
  "op_fp_get_idx (ram_cfg alloc tr) = ram_storage_flight_plan_get_idx"
  "op_fp_get_args (ram_cfg alloc tr) = ram_storage_flight_plan_get_args"
  "op_fp_delete_row (ram_cfg alloc tr) = ram_storage_flight_plan_delete_row"
  "op_fp_delete_row_idx (ram_cfg alloc tr) = ram_storage_flight_plan_delete_row_idx"
  "op_fp_reset (ram_cfg alloc tr) = ram_storage_flight_plan_reset"
  "op_payload_set (ram_cfg alloc tr) = ram_storage_payload_set_data"
  "op_payload_get (ram_cfg alloc tr) = ram_storage_payload_get_data"
  "op_payload_reset (ram_cfg alloc tr) = ram_storage_payload_reset alloc"
  "op_payload_reset_table (ram_cfg alloc tr) = ram_storage_payload_reset_table"
  by (simp_all add: ram_cfg_def ram_ops_def storage_ops.defs)

text \<open>Before the other tables exist only the status table is valid.\<close>

definition ram_status_inv :: "nat \<Rightarrow> ram \<Rightarrow> bool" where
  "ram_status_inv n s \<longleftrightarrow> storage_is_open s \<and> n < 2 ^ 31 \<and>
     (\<exists>db. status_db s = Some db \<and> length db = n \<and> status_entries s = n)"

lemma n_copies_small: "n_copies tr < 2 ^ 31"
  by (simp add: n_copies_def)

interpretation ram_status:
  status_repo "ram_cfg alloc tr" "ram_status_inv (n_copies tr)" ram_vars for alloc tr
proof unfold_locales
  fix s i v
  assume s: "ram_status_inv (n_copies tr) s" and i: "0 \<le> i" "i < int (length (ram_vars s))"
  show "op_status_get (ram_cfg alloc tr) i s = Some (SCH_ST_OK, Some (ram_vars s ! nat i))"
    using s i
    by (auto simp: ram_status_inv_def ram_storage_status_get_value_idx_def ram_vars_def arr_get_def)
  show "\<exists>s'. op_status_set (ram_cfg alloc tr) i v s = Some (SCH_ST_OK, s') \<and>
      ram_status_inv (n_copies tr) s' \<and> ram_vars s' = (ram_vars s)[nat i := v]"
    using s i
    by (auto simp: ram_status_inv_def ram_storage_status_set_value_idx_def ram_vars_def arr_set_def)
qed (auto simp: ram_status_inv_def ram_vars_def)

interpretation ram_repo:
  flight_repo "ram_cfg alloc tr" "ram_inv data_map (n_copies tr)" ram_vars ram_slots for alloc tr
  by unfold_locales (simp_all add: ram_flight_laws ram_inv_flightplan(3) ram_slots_filled)

lemma ram_cap_small: "ram_cap data_map p < 2147483647"
proof -
  have "262144 div dm_size (data_map ! p) \<le> 262144" by simp
  then show ?thesis unfolding ram_cap_def by linarith
qed

interpretation ram_pay:
  payload_repo "ram_cfg alloc tr" "ram_inv data_map (n_copies tr)" ram_vars "ram_cap data_map"
    "ram_samples data_map" for alloc tr
  by unfold_locales
    (use ram_payload_get ram_payload_set ram_payload_reset_table ram_status_set_frame ram_cap_small
     in \<open>fastforce\<close>)+

section \<open>Start-up\<close>

definition alloc_all :: "nat \<Rightarrow> bool" where
  "alloc_all n = True"

text \<open>The state is in order: the invariant of the storage, the counter of the flight plan equal to
  the number of its entries.\<close>

definition fp_ready :: "(nat \<Rightarrow> bool) \<Rightarrow> bool \<Rightarrow> ram \<Rightarrow> bool" where
  "fp_ready alloc tr s \<longleftrightarrow> ram_inv data_map (n_copies tr) s \<and>
     dat_get_system_var (ram_cfg alloc tr) dat_fpl_queue s = Some (int (size (plan (ram_slots s))))"

lemma fp_ready_counted: "fp_ready alloc tr s \<longleftrightarrow> ram_repo.counted alloc tr s"
proof (cases "ram_inv data_map (n_copies tr) s")
  case True
  then show ?thesis
    using ram_repo.get_sys [OF True, of dat_fpl_queue]
    by (simp add: fp_ready_def ram_repo.counted_def addr_defs)
qed (simp add: fp_ready_def ram_repo.counted_def)

lemma ram_status_inv_only:
  assumes "ram_storage_status_set_value_idx q v s = Some (rc, s')"
  shows "flightplan_db s' = flightplan_db s" "payload_db s' = payload_db s"
    "payloads_sections_addresses s' = payloads_sections_addresses s"
  using assms
  by (auto simp: ram_storage_status_set_value_idx_def split: option.splits if_splits bind_splits)

lemma data_map_schema: "schema_ok data_map" "length data_map = 1"
  by (simp_all add: schema_ok_def data_map_def)

lemma ram_repo_init:
  assumes "\<And>n. alloc n"
  obtains s where "dat_repo_init True (ram_cfg alloc tr) ram_zero = Some s"
    "ram_inv data_map (n_copies tr) s" "plan (ram_slots s) = {#}"
    "\<And>j. j < 17 \<Longrightarrow> vote tr (ram_vars s) j = sv_value (dat_get_status_var_def (int j))"
proof -
  let ?cfg = "ram_cfg alloc tr" and ?n = "n_copies tr"
  let ?s1 = "ram_zero\<lparr>storage_is_open := True\<rparr>"
  let ?s2 = "?s1\<lparr>status_entries := ?n, status_db := Some (replicate ?n 0)\<rparr>"
  have n: "(if tr then 3 else 1) * dat_status_last_var = int ?n" "int ?n * 4 < 2 ^ 64"
    by (simp_all add: n_copies_def)
  have st: "ram_storage_table_status_init alloc (int ?n) False ?s1 = Some (SCH_ST_OK, ?s2)"
    using assms size_t_int [of "?n * 4"] n(2)
    by (simp add: ram_storage_table_status_init_def ram_zero_def Let_def)
  have inv2: "ram_status_inv ?n ?s2"
    using n_copies_small [of tr] by (simp add: ram_status_inv_def)
  let ?f = "\<lambda>s. (flightplan_db s, payload_db s, payloads_sections_addresses s)"
  have frame: "?f s' = ?f s"
    if "ram_status_inv ?n s" "op_status_set ?cfg q v s = Some (rc, s')" for q v s rc s'
    using ram_status_inv_only that(2) by simp
  have "\<exists>s3. dat_reset_status_vars ?cfg ?s2 = Some (SCH_ST_OK, s3) \<and> ram_status_inv ?n s3 \<and>
      ?f s3 = ?f ?s2 \<and> (\<forall>j < 17. vote (triple_wr ?cfg) (ram_vars s3) j =
         sv_value (dat_get_status_var_def (int j)))"
    using frame inv2 by (rule ram_status.reset_status [where f = ?f])
  then obtain s3 where s3: "dat_reset_status_vars ?cfg ?s2 = Some (SCH_ST_OK, s3)"
      "ram_status_inv ?n s3" "?f s3 = ?f ?s2"
      "\<forall>j < 17. vote tr (ram_vars s3) j = sv_value (dat_get_status_var_def (int j))"
    by auto
  have clean: "flightplan_db s3 = None" "payload_db s3 = None" using s3(3) by (simp_all add: ram_zero_def)
  let ?db = "\<lparr>mem_size = 2621440, mem_at = (\<lambda>_. 0)\<rparr>"
  let ?a = "map (\<lambda>i. int i * SCH_SIZE_PER_SECTION) [0..<10]"
  let ?s4 = "s3\<lparr>payload_db := Some ?db, payloads_entries := 1, payloads_sections_addresses := CLive ?a\<rparr>"
  have p: "ram_storage_table_payload_init alloc last_sensor False s3 = Some (SCH_ST_OK, ?s4)"
    using assms s3(2) clean
    by (simp add: ram_storage_table_payload_init_def ram_status_inv_def addr_defs size_t_def
        SCH_SIZE_PER_SECTION_def SCH_SECTIONS_PER_PAYLOAD_def in_int_def)
  let ?e = "fp_entry_clear \<lparr>unixtime = 0, executions = 0, periodical = 0, node = 0,
                              fp_cmd = None, fp_args = None\<rparr>"
  let ?s5 = "?s4\<lparr>flightplan_db := Some (replicate 255 ?e), flightplan_entries := 255\<rparr>"
  have fp: "ram_storage_table_flight_plan_init alloc SCH_FP_MAX_ENTRIES False ?s4 = Some (SCH_ST_OK, ?s5)"
    using assms s3(2) clean
    by (simp add: ram_storage_table_flight_plan_init_def ram_status_inv_def size_t_def
        SCH_FP_MAX_ENTRIES_def in_int_def Let_def)
  have init: "dat_repo_init True ?cfg ram_zero = Some ?s5"
    using st s3(1) p fp n(1)
    by (simp add: dat_repo_init_def ram_storage_init_def Let_def)
  have inv5: "ram_inv data_map ?n ?s5"
    using s3(2) data_map_schema
    by (auto simp: ram_inv_def ram_status_inv_def SCH_FP_MAX_ENTRIES_def)
  have "plan (ram_slots ?s5) = {#}"
    by (auto simp: ram_slots_def plan_def fp_used_def simp del: mset_filter)
  moreover have "vote tr (ram_vars ?s5) j = sv_value (dat_get_status_var_def (int j))" if "j < 17" for j
    using s3(4) that by (simp add: ram_vars_def)
  ultimately show thesis using that [OF init inv5] by blast
qed

section \<open>Properties\<close>

text \<open>
  start-up of the data repository. With memory available, \<^verbatim>\<open>dat_repo_init\<close> on RAM storage sets
  up a state in which every status variable reads back the default of \<^verbatim>\<open>dat_status_list\<close> (with and
  without triple writing), the flight plan is empty and its counter is in step with it.
\<close>

theorem dat_repo_init_ready:
  assumes "\<forall>n. alloc n"
  shows "\<exists>s. dat_repo_init True (ram_cfg alloc tr) ram_zero = Some s \<and> fp_ready alloc tr s \<and>
     plan (ram_slots s) = {#} \<and>
     (\<forall>v \<in> set dat_status_list.
        dat_get_status_var (ram_cfg alloc tr) (sv_address v) s = Some (sv_value v))"
proof -
  obtain s where s: "dat_repo_init True (ram_cfg alloc tr) ram_zero = Some s"
      "ram_inv data_map (n_copies tr) s" "plan (ram_slots s) = {#}"
      "\<And>j. j < 17 \<Longrightarrow> vote tr (ram_vars s) j = sv_value (dat_get_status_var_def (int j))"
    using ram_repo_init [of alloc tr] assms by blast
  have get: "dat_get_status_var (ram_cfg alloc tr) (int j) s =
      Some (sv_value (dat_get_status_var_def (int j)))" if "j < 17" for j
    using ram_repo.get_var [OF s(2) that, of alloc] s(4) [OF that] by simp
  have "dat_get_status_var (ram_cfg alloc tr) (sv_address v) s = Some (sv_value v)"
    if v: "v \<in> set dat_status_list" for v
  proof -
    have "sv_address v \<in> {0..<17}"
      using v dat_status_list_addresses(3) by (auto simp: addr_defs)
    then obtain j where j: "j < 17" "sv_address v = int j" by (auto intro: nonneg_int_cases)
    obtain w where "w \<in> set dat_status_list" "sv_address w = int j"
        "dat_get_status_var_def (int j) = w"
      using sv_value_def [OF j(1)] by blast
    then have "dat_get_status_var_def (int j) = v"
      using v j(2) dat_status_list_addresses(1) by (metis distinct_map inj_onD)
    then show ?thesis using get [OF j(1)] j(2) by simp
  qed
  moreover have "fp_ready alloc tr s"
    using s(2,3) get [of 14]
    by (simp add: fp_ready_def dat_get_system_var_def dat_fpl_queue_def)
      (simp add: dat_get_status_var_def_def dat_status_list_def sys_var_def addr_defs Let_def in_int_def)
  ultimately show ?thesis using s(1,3) by blast
qed

text \<open>
  C4: triple writing. After \<^verbatim>\<open>dat_set_status_var\<close> on a build with \<^verbatim>\<open>SCH_STORAGE_TRIPLE_WR\<close>, any
  one of the 51 stored words can be overwritten with anything (\<^verbatim>\<open>_dat_set_system_var\<close>, the function
  the tests use for it) and the variable still reads the value that was set.
\<close>

theorem dat_triple_vote:
  assumes "ram_inv data_map (n_copies True) s" and "i < 17" and "k < 51"
  shows "\<exists>s1 s2. dat_set_status_var (ram_cfg alloc True) (int i) v s = Some (SCH_ST_OK, s1) \<and>
     dat_set_system_var_1 (ram_cfg alloc True) (int k) w s1 = Some (SCH_ST_OK, s2) \<and>
     dat_get_status_var (ram_cfg alloc True) (int i) s2 = Some v"
proof -
  from ram_repo.set_var [OF assms(1,2), of alloc v] obtain s1 where
      s1: "dat_set_status_var (ram_cfg alloc True) (int i) v s = Some (SCH_ST_OK, s1)"
        "ram_inv data_map (n_copies True) s1" "ram_vars s1 = write_copies True i v (ram_vars s)"
    by auto
  have len: "length (ram_vars s1) = 51" "length (ram_vars s) = 51"
    using ram_vars_length [OF s1(2)] ram_vars_length [OF assms(1)] by (simp_all add: n_copies_def)
  from ram_status_set [OF s1(2), of "int k" "of_i w"] assms(3) obtain s2 where
      s2: "ram_storage_status_set_value_idx (int k) (of_i w) s1 = Some (SCH_ST_OK, s2)"
        "ram_inv data_map (n_copies True) s2" "ram_vars s2 = (ram_vars s1)[k := of_i w]"
    by (auto simp: n_copies_def)
  have "vote True (ram_vars s2) i = v"
    unfolding s2(3)
    by (rule vote_one_wrong)
      (use len assms(2,3) in \<open>simp_all add: s1(3) write_copies_def nth_list_update\<close>)
  then show ?thesis
    using s1(1) s2(1) ram_repo.get_var [OF s2(2) assms(2), of alloc]
    by (auto simp: dat_set_system_var_1_def)
qed

lemma ram_init_inv:
  obtains s where "dat_repo_init True (ram_cfg alloc_all tr) ram_zero = Some s"
    "ram_inv data_map (n_copies tr) s" "plan (ram_slots s) = {#}" "fp_ready alloc_all tr s"
    "dat_get_system_var (ram_cfg alloc_all tr) dat_drp_idx_temp s = Some 0"
proof -
  obtain s where s: "dat_repo_init True (ram_cfg alloc_all tr) ram_zero = Some s"
      "ram_inv data_map (n_copies tr) s" "plan (ram_slots s) = {#}"
      "\<And>j. j < 17 \<Longrightarrow> vote tr (ram_vars s) j = sv_value (dat_get_status_var_def (int j))"
    using ram_repo_init [of alloc_all tr] by (auto simp: alloc_all_def)
  have zero: "sv_value (dat_get_status_var_def 14) = 0" "sv_value (dat_get_status_var_def 15) = 0"
    by (simp_all add: dat_get_status_var_def_def dat_status_list_def sys_var_def addr_defs Let_def
        of_i_def)
  show thesis
    using that [OF s(1-3)] s(2-4) zero ram_repo.get_var [OF s(2), of 14 alloc_all]
      ram_repo.get_var [OF s(2), of 15 alloc_all]
    by (simp add: fp_ready_def dat_get_system_var_def addr_defs v_i_def)
qed

theorem dat_triple_vote_witness:
  "\<exists>s s1 s2. dat_repo_init True (ram_cfg alloc_all True) ram_zero = Some s \<and>
     dat_set_status_var (ram_cfg alloc_all True) (int 5) 77 s = Some (SCH_ST_OK, s1) \<and>
     dat_set_system_var_1 (ram_cfg alloc_all True) (int 22) 99 s1 = Some (SCH_ST_OK, s2) \<and>
     dat_get_status_var (ram_cfg alloc_all True) (int 5) s2 = Some 77"
proof (rule ram_init_inv [of True])
  fix s
  assume "dat_repo_init True (ram_cfg alloc_all True) ram_zero = Some s"
    and "ram_inv data_map (n_copies True) s"
  then show ?thesis using dat_triple_vote [of s 5 22 alloc_all 77 99] by fastforce
qed

lemma find_time_plan:
  assumes "0 \<le> t"
  shows "find_idx (\<lambda>e. unixtime e = t) fl = None \<longleftrightarrow> (\<forall>e \<in># plan fl. unixtime e \<noteq> t)"
proof -
  have "set_mset (plan fl) = {e \<in> set fl. \<not> fp_free e}"
    by (auto simp: plan_def fp_used_def)
  then show ?thesis
    using assms by (auto simp: find_idx_eq_None fp_free_def config_defs)
qed

lemma find_time_in_plan:
  assumes "0 \<le> t" and "find_idx (\<lambda>e. unixtime e = t) fl = Some i"
  shows "fl ! i \<in># plan fl" "unixtime (fl ! i) = t"
  using find_idx_SomeD [OF assms(2)] assms(1)
  by (auto simp: plan_def fp_used_def fp_free_def config_defs)

text \<open>
  C2: the flight plan is a bounded multiset of entries. On RAM storage, in a state whose counter is
  in step, \<^verbatim>\<open>dat_set_fp\<close> at a time that is not negative adds exactly the given entry when fewer
  than 255 are held and reports an error and changes nothing otherwise; \<^verbatim>\<open>dat_get_fp\<close> and
  \<^verbatim>\<open>dat_del_fp\<close> take out exactly one entry of the given time (and \<^verbatim>\<open>dat_get_fp\<close> returns its fields)
  when there is one and report an error and change nothing otherwise. Every one of these calls
  leaves the counter \<^verbatim>\<open>dat_fpl_queue\<close> in step.
\<close>

theorem dat_fp_refines_plan:
  assumes "fp_ready alloc tr s" and "0 \<le> t"
  shows "(\<exists>s'. dat_set_fp (ram_cfg alloc tr) t (Some c) (Some a) n p s =
       Some (if size (plan (ram_slots s)) < 255 then SCH_ST_OK else SCH_ST_ERROR, s') \<and>
     fp_ready alloc tr s' \<and>
     plan (ram_slots s') =
       (if size (plan (ram_slots s)) < 255
        then add_mset \<lparr>unixtime = t, executions = n, periodical = p, node = SCH_COMM_NODE,
                       fp_cmd = Some c, fp_args = Some a\<rparr> (plan (ram_slots s))
        else plan (ram_slots s))) \<and>
    (if \<exists>e \<in># plan (ram_slots s). unixtime e = t
     then \<exists>e s1 s2. unixtime e = t \<and>
        dat_get_fp (ram_cfg alloc tr) t s =
          Some (SCH_ST_OK, Some (the (fp_cmd e), the (fp_args e), executions e, periodical e), s1) \<and>
        fp_ready alloc tr s1 \<and> plan (ram_slots s) = add_mset e (plan (ram_slots s1)) \<and>
        dat_del_fp (ram_cfg alloc tr) t s = Some (SCH_ST_OK, s2) \<and>
        fp_ready alloc tr s2 \<and> plan (ram_slots s) = add_mset e (plan (ram_slots s2))
     else dat_get_fp (ram_cfg alloc tr) t s = Some (SCH_ST_ERROR, None, s) \<and>
        dat_del_fp (ram_cfg alloc tr) t s = Some (SCH_ST_ERROR, s))" (is "?set \<and> ?get")
proof -
  have c: "ram_repo.counted alloc tr s" using assms(1) by (simp add: fp_ready_counted)
  then have inv: "ram_inv data_map (n_copies tr) s" by (simp add: ram_repo.counted_def)
  have ?set
  proof (cases "size (plan (ram_slots s)) < 255")
    case True
    then show ?thesis
      using ram_repo.set_fp [OF c assms(2) True] by (simp add: fp_ready_counted)
  next
    case False
    then have "size (plan (ram_slots s)) = 255"
      using size_plan_le [of "ram_slots s"] ram_inv_flightplan(3) [OF inv] by (simp add: config_defs)
    then show ?thesis
      using ram_repo.set_fp_full [OF c] c by (simp add: fp_ready_counted)
  qed
  moreover have ?get
  proof (cases "find_idx (\<lambda>e. unixtime e = t) (ram_slots s)")
    case None
    then show ?thesis
      using find_time_plan [OF assms(2)] ram_repo.get_fp_none [OF c None]
        ram_repo.del_fp_none [OF c None] by auto
  next
    case (Some i)
    have "\<exists>e \<in># plan (ram_slots s). unixtime e = t"
      using find_time_in_plan [OF assms(2) Some] by blast
    then show ?thesis
      using ram_repo.get_fp [OF c assms(2) Some] ram_repo.del_fp [OF c assms(2) Some]
        find_time_in_plan(2) [OF assms(2) Some]
      unfolding fp_ready_counted by auto
  qed
  ultimately show ?thesis by blast
qed

theorem dat_fp_refines_plan_witness:
  "\<exists>s s1 s2. dat_repo_init True (ram_cfg alloc_all False) ram_zero = Some s \<and>
     dat_set_fp (ram_cfg alloc_all False) 100 (Some ''ping'') (Some ''1'') 2 30 s =
       Some (SCH_ST_OK, s1) \<and>
     dat_get_fp (ram_cfg alloc_all False) 100 s1 =
       Some (SCH_ST_OK, Some (''ping'', ''1'', 2, 30), s2) \<and> plan (ram_slots s2) = {#}"
proof (rule ram_init_inv [of False])
  let ?cfg = "ram_cfg alloc_all False"
  fix s
  assume init: "dat_repo_init True ?cfg ram_zero = Some s"
    and s: "plan (ram_slots s) = {#}" "fp_ready alloc_all False s"
  from dat_fp_refines_plan [OF s(2), of 100 "''ping''" "''1''" 2 30, THEN conjunct1] obtain s1 where
      s1: "dat_set_fp ?cfg 100 (Some ''ping'') (Some ''1'') 2 30 s = Some (SCH_ST_OK, s1)"
        "fp_ready alloc_all False s1"
        "plan (ram_slots s1) = {#\<lparr>unixtime = 100, executions = 2, periodical = 30,
           node = SCH_COMM_NODE, fp_cmd = Some ''ping'', fp_args = Some ''1''\<rparr>#}"
    by (auto simp: s(1))
  from dat_fp_refines_plan [OF s1(2), of 100, THEN conjunct2] obtain s2 where
      "dat_get_fp ?cfg 100 s1 = Some (SCH_ST_OK, Some (''ping'', ''1'', 2, 30), s2)"
      "plan (ram_slots s2) = {#}"
    unfolding s1(3) by (auto simp: single_eq_add_mset)
  with init s1(1) show ?thesis by blast
qed

text \<open>
  \<^verbatim>\<open>dat_purge_fp\<close> keeps exactly the entries later than one second from now, and sets the
  counter to their number, whatever the counter was before.
\<close>

theorem dat_purge_fp_resync:
  assumes "ram_inv data_map (n_copies tr) s" and "0 \<le> now" and "now < 2147483647"
  shows "\<exists>s'. dat_purge_fp (ram_cfg alloc tr) now s = Some (SCH_ST_OK, s') \<and> fp_ready alloc tr s' \<and>
     plan (ram_slots s') = filter_mset (\<lambda>e. unixtime e > now + 1) (plan (ram_slots s))"
  using ram_repo.purge_fp [OF assms] unfolding fp_ready_counted .

text \<open>
  C36: two tasks adding entries at the same time. \<^verbatim>\<open>dat_set_fp\<close> reads the counter before it takes
  \<^verbatim>\<open>repo_data_sem\<close> and writes it after it has given it back. If another task adds an entry between
  the read and the rest, both entries are stored but the counter is one short.
\<close>

theorem dat_set_fp_lost_update:
  assumes "fp_ready alloc tr s" and "size (plan (ram_slots s)) \<le> 253" and "0 \<le> t1" and "0 \<le> t2"
  shows "\<exists>n s1 s2 s3. dat_get_system_var (ram_cfg alloc tr) dat_fpl_queue s = Some n \<and>
     dat_set_fp (ram_cfg alloc tr) t2 (Some c2) (Some a2) n2 p2 s = Some (SCH_ST_OK, s1) \<and>
     op_fp_set (ram_cfg alloc tr) t1 (Some c1) (Some a1) n1 p1 SCH_COMM_NODE s1 =
       Some (SCH_ST_OK, s2) \<and>
     dat_set_fp_count (ram_cfg alloc tr) n SCH_ST_OK s2 = Some (SCH_ST_OK, s3) \<and>
     size (plan (ram_slots s3)) = size (plan (ram_slots s)) + 2 \<and>
     dat_get_system_var (ram_cfg alloc tr) dat_fpl_queue s3 =
       Some (int (size (plan (ram_slots s))) + 1)"
proof -
  let ?cfg = "ram_cfg alloc tr" and ?n = "int (size (plan (ram_slots s)))"
  let ?e = "\<lparr>unixtime = t1, executions = n1, periodical = p1, node = SCH_COMM_NODE,
            fp_cmd = Some c1, fp_args = Some a1\<rparr>"
  have c: "ram_repo.counted alloc tr s" using assms(1) by (simp add: fp_ready_counted)
  from ram_repo.set_fp [OF c assms(4), of c2 a2 n2 p2] assms(2) obtain s1 where
      s1: "dat_set_fp ?cfg t2 (Some c2) (Some a2) n2 p2 s = Some (SCH_ST_OK, s1)"
        "ram_repo.counted alloc tr s1" "size (plan (ram_slots s1)) = size (plan (ram_slots s)) + 1"
    by auto
  have inv1: "ram_inv data_map (n_copies tr) s1" using s1(2) by (simp add: ram_repo.counted_def)
  have "find_idx fp_free (ram_slots s1) \<noteq> None"
    using assms(2) s1(3) ram_inv_flightplan(3) [OF inv1] by (simp add: plan_full config_defs)
  then obtain i where i: "find_idx fp_free (ram_slots s1) = Some i" by blast
  from ram_fp_set [OF inv1 assms(3) i, of c1 a1 n1 p1 SCH_COMM_NODE] obtain s2 where
      s2: "ram_storage_flight_plan_set t1 (Some c1) (Some a1) n1 p1 SCH_COMM_NODE s1 =
             Some (SCH_ST_OK, s2)" "ram_inv data_map (n_copies tr) s2"
        "ram_slots s2 = (ram_slots s1)[i := ?e]"
    by auto
  have size2: "size (plan (ram_slots s2)) = size (plan (ram_slots s)) + 2"
    using find_idx_SomeD [OF i] assms(3) s1(3) by (simp add: s2(3) plan_update fp_free_def config_defs)
  have q: "0 \<le> dat_fpl_queue" "dat_fpl_queue < 17" by (simp_all add: addr_defs)
  have small: "in_int (?n + 1)" using assms(2) by (simp add: in_int_def)
  from ram_repo.set_sys [OF s2(2) q small, of alloc] obtain s3 where
      s3: "dat_set_system_var ?cfg dat_fpl_queue (?n + 1) s2 = Some (SCH_ST_OK, s3)"
        "ram_inv data_map (n_copies tr) s3" "ram_repo.sys alloc tr s3 dat_fpl_queue = ?n + 1"
    using q by metis
  have "ram_slots s3 = ram_slots s2" by (rule ram_repo.set_sys_slots [OF s2(2) q s3(1)])
  then show ?thesis
    using ram_repo.get_queue [OF c] s1(1) s2(1) s3(1) size2 small
      ram_repo.get_sys [OF s3(2) q, of alloc] s3(3)
    by (simp add: dat_set_fp_count_def)
qed

theorem dat_set_fp_lost_update_witness:
  "\<exists>s n s1 s2 s3. dat_repo_init True (ram_cfg alloc_all False) ram_zero = Some s \<and>
     dat_get_system_var (ram_cfg alloc_all False) dat_fpl_queue s = Some n \<and>
     dat_set_fp (ram_cfg alloc_all False) 20 (Some ''b'') (Some ''y'') 1 0 s = Some (SCH_ST_OK, s1) \<and>
     op_fp_set (ram_cfg alloc_all False) 10 (Some ''a'') (Some ''x'') 1 0 SCH_COMM_NODE s1 =
       Some (SCH_ST_OK, s2) \<and>
     dat_set_fp_count (ram_cfg alloc_all False) n SCH_ST_OK s2 = Some (SCH_ST_OK, s3) \<and>
     size (plan (ram_slots s3)) = 2 \<and>
     dat_get_system_var (ram_cfg alloc_all False) dat_fpl_queue s3 = Some 1"
proof (rule ram_init_inv [of False])
  fix s
  assume "dat_repo_init True (ram_cfg alloc_all False) ram_zero = Some s"
    and "plan (ram_slots s) = {#}" and "fp_ready alloc_all False s"
  then show ?thesis
    using dat_set_fp_lost_update [of alloc_all False s 10 20 "''b''" "''y''" 1 0 "''a''" "''x''" 1 0]
    by fastforce
qed

text \<open>
  \<^verbatim>\<open>dat_reset_fp\<close> does not clear the flight plan. The loop of \<^verbatim>\<open>storage_flight_plan_reset\<close> in
  storage_ram.c returns in its first round: only slot 0 is cleared, every other entry stays in
  the plan, and the counter is set to 0.
\<close>

theorem dat_reset_fp_first_only:
  assumes "ram_inv data_map (n_copies tr) s"
  shows "\<exists>s'. dat_reset_fp (ram_cfg alloc tr) s = Some (SCH_ST_OK, s') \<and>
     fp_free (ram_slots s' ! 0) \<and> tl (ram_slots s') = tl (ram_slots s) \<and>
     dat_get_system_var (ram_cfg alloc tr) dat_fpl_queue s' = Some 0"
proof -
  let ?fl = "(ram_slots s)[0 := fp_entry_clear (ram_slots s ! 0)]"
  note inv = ram_inv_flightplan [OF assms]
  have pos: "0 < length (ram_slots s)" using inv(3) by (simp add: config_defs)
  have "\<forall>e \<in> set ?fl. ram_slot_ok e" using inv(5) by (rule set_update_ok) simp
  then have fl: "ram_inv data_map (n_copies tr) (s\<lparr>flightplan_db := Some ?fl\<rparr>)"
      "ram_slots (s\<lparr>flightplan_db := Some ?fl\<rparr>) = ?fl"
    using ram_inv_slots [OF assms, of ?fl] inv(3) by simp_all
  have reset: "ram_storage_flight_plan_reset s = Some (SCH_ST_OK, s\<lparr>flightplan_db := Some ?fl\<rparr>)"
    using inv pos by (simp add: ram_storage_flight_plan_reset_def arr_get_def arr_set_def)
  have q: "0 \<le> dat_fpl_queue" "dat_fpl_queue < 17" "in_int 0"
    by (simp_all add: addr_defs in_int_def)
  obtain s' where s': "dat_set_system_var (ram_cfg alloc tr) dat_fpl_queue 0
        (s\<lparr>flightplan_db := Some ?fl\<rparr>) = Some (SCH_ST_OK, s')"
      "ram_inv data_map (n_copies tr) s'" "ram_repo.sys alloc tr s' dat_fpl_queue = 0"
    using ram_repo.set_sys [OF fl(1) q, of alloc] q by metis
  have "ram_slots s' = ?fl"
    using ram_repo.set_sys_slots [OF fl(1) q(1,2) s'(1)] fl(2) by simp
  then show ?thesis
    using reset s'(1,3) ram_repo.get_sys [OF s'(2) q(1,2), of alloc] pos
    by (cases "ram_slots s") (simp_all add: dat_reset_fp_def)
qed

text \<open>A sequence of calls of \<^verbatim>\<open>dat_add_payload_sample\<close>, all of which must succeed.\<close>

fun add_samples :: "'s dat_cfg \<Rightarrow> int \<Rightarrow> byte list list \<Rightarrow> 's \<Rightarrow> 's option" where
  "add_samples cfg p [] s = Some s"
| "add_samples cfg p (b # bs) s =
     do { (rc, s1) \<leftarrow> dat_add_payload_sample cfg (Some b) p s;
          require (rc = 0);
          add_samples cfg p bs s1 }"

context payload_repo
begin

lemma samples_added:
  assumes "sampling s" and "p < length data_map" and "length (held s p) + length bs \<le> cap p"
    and "\<forall>b \<in> set bs. length b = dm_size (data_map ! p)"
  shows "\<exists>s'. add_samples cfg (int p) bs s = Some s' \<and> sampling s' \<and> held s' p = held s p @ bs"
  using assms
proof (induction bs arbitrary: s)
  case (Cons b bs)
  have "length (held s p) < cap p" "length b = dm_size (data_map ! p)"
    using Cons.prems(3,4) by simp_all
  from add_sample [OF Cons.prems(1,2) this] obtain s1 where
      s1: "dat_add_payload_sample cfg (Some b) (int p) s = Some (0, s1)" "sampling s1" "held s1 p = held s p @ [b]"
    by auto
  from Cons.IH [OF s1(2) Cons.prems(2)] Cons.prems(3,4) s1(3) show ?case
    by (auto simp: s1(1))
qed simp

lemma empty_sampling:
  assumes "inv s" and "dat_get_system_var cfg dat_drp_idx_temp s = Some 0"
  shows "sampling s" "held s 0 = []"
proof -
  have z: "sys s dat_drp_idx_temp = 0"
    using get_sys [OF assms(1), of dat_drp_idx_temp] assms(2) by (simp add: addr_defs)
  have dm: "sys_index (data_map ! 0) = dat_drp_idx_temp" by (simp add: data_map_def)
  have "p = 0" if "p < length data_map" for p using that by (simp add: data_map_def)
  then show "sampling s" using assms(1) z dm unfolding sampling_def by fastforce
  show "held s 0 = []" using z dm unfolding held_def by simp
qed

text \<open>The samples added to an empty payload, and how they read back.\<close>

lemma added_samples_recent:
  assumes "inv s" and "dat_get_system_var cfg dat_drp_idx_temp s = Some 0"
    and "length bs \<le> cap 0" and "\<forall>b \<in> set bs. length b = dm_size (data_map ! 0)"
  shows "\<exists>s'. add_samples cfg 0 bs s = Some s' \<and> sampling s' \<and> held s' 0 = bs \<and>
     dat_get_system_var cfg dat_drp_idx_temp s' = Some (int (length bs)) \<and>
     (\<forall>i < length bs. dat_get_payload_sample cfg 0 (int i) s' = Some (SCH_ST_OK, Some (bs ! i))) \<and>
     (\<forall>j < length bs. dat_get_recent_payload_sample cfg 0 (int j) s' = Some (SCH_ST_OK, Some (rev bs ! j))) \<and>
     (\<forall>j < 2147483647. length bs \<le> j \<longrightarrow> dat_get_recent_payload_sample cfg 0 (int j) s' = Some (- 1, None))"
proof -
  have p: "0 < length data_map" and idx: "sys_index (data_map ! 0) = dat_drp_idx_temp" by (simp_all add: data_map_def)
  note empty = empty_sampling [OF assms(1,2)]
  from samples_added [OF empty(1) p, of bs] obtain s' where
      s': "add_samples cfg 0 bs s = Some s'" "sampling s'" "held s' 0 = bs"
    using assms(3,4) by (auto simp: empty(2))
  obtain k where k: "inv s'" "sys s' dat_drp_idx_temp = int k" "held s' 0 = map (samples s' 0) [0..<k]"
    using sampling_index [OF s'(2) p] idx by metis
  have "length bs = k" using s'(3) k(3) by (metis diff_zero length_map length_upt)
  then have "dat_get_system_var cfg dat_drp_idx_temp s' = Some (int (length bs))"
    using get_sys [OF k(1), of dat_drp_idx_temp] k(2) by (simp add: addr_defs)
  then show ?thesis
    using s' indexed_sample [OF s'(2) p] recent_sample [OF s'(2) p] recent_sample_none [OF s'(2) p]
    by (auto simp: s'(3))
qed

end

text \<open>
  C25: payload samples. Samples of the right size added one after the other to an empty payload
  (at most the 218450 its ten sections of the RAM hold) are all stored: the index variable is their
  number, \<^verbatim>\<open>dat_get_payload_sample\<close> with index \<open>i\<close> returns the \<open>i\<close>-th of them,
  \<^verbatim>\<open>dat_get_recent_payload_sample\<close> with offset \<open>j\<close> returns the \<open>j\<close>-th from the last,
  byte for byte, and an offset beyond the first sample is an error.
\<close>

theorem dat_samples_recent:
  assumes "ram_inv data_map (n_copies tr) s"
    and "dat_get_system_var (ram_cfg alloc tr) dat_drp_idx_temp s = Some 0"
    and "length bs \<le> 218450" and "\<forall>b \<in> set bs. length b = 12"
  shows "\<exists>s'. add_samples (ram_cfg alloc tr) 0 bs s = Some s' \<and>
     dat_get_system_var (ram_cfg alloc tr) dat_drp_idx_temp s' = Some (int (length bs)) \<and>
     (\<forall>i < length bs. dat_get_payload_sample (ram_cfg alloc tr) 0 (int i) s' =
        Some (SCH_ST_OK, Some (bs ! i))) \<and>
     (\<forall>j < length bs. dat_get_recent_payload_sample (ram_cfg alloc tr) 0 (int j) s' =
        Some (SCH_ST_OK, Some (rev bs ! j))) \<and>
     (\<forall>j < 2147483647. length bs \<le> j \<longrightarrow>
        dat_get_recent_payload_sample (ram_cfg alloc tr) 0 (int j) s' = Some (- 1, None))"
proof -
  have "dm_size (data_map ! 0) = 12" by (simp add: data_map_def)
  then have "length bs \<le> ram_cap data_map 0" "\<forall>b \<in> set bs. length b = dm_size (data_map ! 0)"
    using assms(3,4) by (simp_all add: ram_cap_def)
  from ram_pay.added_samples_recent [OF assms(1,2) this] show ?thesis by blast
qed

theorem dat_samples_recent_witness:
  "\<exists>s s'. dat_repo_init True (ram_cfg alloc_all True) ram_zero = Some s \<and>
     add_samples (ram_cfg alloc_all True) 0 [replicate 12 1, replicate 12 2] s = Some s' \<and>
     dat_get_payload_sample (ram_cfg alloc_all True) 0 (int 1) s' =
       Some (SCH_ST_OK, Some (replicate 12 2)) \<and>
     dat_get_recent_payload_sample (ram_cfg alloc_all True) 0 (int 1) s' =
       Some (SCH_ST_OK, Some (replicate 12 1)) \<and>
     dat_get_recent_payload_sample (ram_cfg alloc_all True) 0 (int 2) s' = Some (- 1, None)"
proof (rule ram_init_inv [of True])
  fix s
  assume init: "dat_repo_init True (ram_cfg alloc_all True) ram_zero = Some s"
    and s: "ram_inv data_map (n_copies True) s"
      "dat_get_system_var (ram_cfg alloc_all True) dat_drp_idx_temp s = Some 0"
  from dat_samples_recent [OF s, of "[replicate 12 1, replicate 12 2]"] obtain s' where
      s': "add_samples (ram_cfg alloc_all True) 0 [replicate 12 1, replicate 12 2] s = Some s'"
        "\<forall>i < 2. dat_get_payload_sample (ram_cfg alloc_all True) 0 (int i) s' =
           Some (SCH_ST_OK, Some ([replicate 12 1, replicate 12 2] ! i))"
        "\<forall>j < 2. dat_get_recent_payload_sample (ram_cfg alloc_all True) 0 (int j) s' =
           Some (SCH_ST_OK, Some (rev [replicate 12 1, replicate 12 2] ! j))"
        "\<forall>j < 2147483647. 2 \<le> j \<longrightarrow>
           dat_get_recent_payload_sample (ram_cfg alloc_all True) 0 (int j) s' = Some (- 1, None)"
    by (auto simp: numeral_2_eq_2)
  show ?thesis
    using init s'(1) s'(2) [rule_format, of 1] s'(3) [rule_format, of 1] s'(4) [rule_format, of 2] by auto
qed

text \<open>
  The limits of the RAM storage that are not checked. Index 218450, one past the last sample
  of a payload, passes both tests of \<^verbatim>\<open>_get_sample_address\<close> (they use \<^verbatim>\<open>>\<close> where \<^verbatim>\<open>>=\<close> is meant), so
  that with one payload the section pointer is read outside its array; the status reader lets the
  index \<^verbatim>\<open>status_entries\<close> through the same way; and \<^verbatim>\<open>storage_close\<close> leaves the section
  array dangling (\<^verbatim>\<open>==\<close> for \<^verbatim>\<open>=\<close>), so that a second close frees it again. None of
  these calls has a defined result.
\<close>

theorem ram_unchecked_limits:
  assumes "ram_inv data_map (n_copies tr) s"
  shows "ram_storage_payload_get_data 0 218450 (data_map ! 0) s = None \<and>
     ram_storage_status_get_value_idx (int (n_copies tr)) s = None \<and>
     (\<exists>s1. ram_storage_close s = Some (SCH_ST_OK, s1) \<and> ram_storage_close s1 = None)"
proof -
  have p: "0 < length data_map" "length data_map = 1" "dm_size (data_map ! 0) = 12"
    by (simp_all add: data_map_def)
  obtain m where m: "payload_db s = Some m" "storage_is_open s" "payloads_entries s = 1"
      "payloads_sections_addresses s =
         CLive (map (\<lambda>i. int i * SCH_SIZE_PER_SECTION) [0..<10 * length data_map])"
    using ram_inv_payload [OF assms p(1)] p(2) by (metis of_nat_1)
  have q: "cdiv 218450 21845 = Some 10" "cmod 218450 21845 = Some 0"
    by (subst cdiv_pos cmod_pos; simp add: in_int_def)+
  have "ram_get_sample_address 0 218450 12 s = None"
    using m p(2)
    by (simp add: ram_get_sample_address_def SCH_SIZE_PER_SECTION_def SCH_SECTIONS_PER_PAYLOAD_def
        q in_int_def arr_get_def)
  then have "ram_storage_payload_get_data 0 218450 (data_map ! 0) s = None"
    using m p(3) by (simp add: ram_storage_payload_get_data_def)
  moreover have "ram_storage_status_get_value_idx (int (n_copies tr)) s = None"
    using assms n_copies_small [of tr]
    by (auto simp: ram_inv_def ram_storage_status_get_value_idx_def arr_get_def)
  moreover have "\<exists>s1. ram_storage_close s = Some (SCH_ST_OK, s1) \<and> ram_storage_close s1 = None"
    using m by (simp add: ram_storage_close_def)
  ultimately show ?thesis by blast
qed

end
