(* ===== verification/Repo_Command.thy ===== *)
theory Repo_Command
  imports C_Scanf
begin

text \<open>
  The command repository, src/system/repoCommand.c: the table of registered commands, lookup by
  name and by index, construction of a command with its parameters from text, and the
  registrations of the core modules (\<^verbatim>\<open>cmd_obc_init\<close>, \<^verbatim>\<open>cmd_drp_init\<close>, \<^verbatim>\<open>cmd_console_init\<close>,
  \<^verbatim>\<open>cmd_fp_init\<close>, \<^verbatim>\<open>cmd_com_init\<close>, \<^verbatim>\<open>cmd_tm_init\<close>).

  A function pointer is the name of the C function. A \<^verbatim>\<open>char *\<close> of the table is \<open>None\<close> where
  it is null or freed. The parameters of a command are the whole allocated block, terminator
  included. The repository's mutex makes each access atomic; \<^verbatim>\<open>malloc\<close> is taken to succeed, since
  the code does not test it here; logging is left out.
\<close>

section \<open>Model\<close>

record cmd_entry =
  ce_nparams :: int
  ce_fmt :: "string option"
  ce_name :: "string option"
  ce_function :: "string option"

record cmd =
  c_id :: int
  c_nparams :: int
  c_fmt :: "string option"
  c_params :: "char list option"
  c_function :: "string option"

record cmd_repo =
  cmd_list :: "cmd_entry list"
  cmd_index :: int
  cmd_is_sorted :: bool

definition cmd_add :: "string \<Rightarrow> string \<Rightarrow> string \<Rightarrow> int \<Rightarrow> cmd_repo \<Rightarrow> (int \<times> cmd_repo) option" where
  "cmd_add name func fparams nparam r =
     (if cmd_index r < SCH_CMD_MAX_ENTRIES then
        do { let cmd_new = \<lparr>ce_nparams = nparam, ce_fmt = Some fparams, ce_name = Some name,
                            ce_function = Some func\<rparr>;
             l \<leftarrow> arr_set (cmd_list r) (cmd_index r) cmd_new;
             sorted \<leftarrow>
               (if strcmp name ''null'' \<noteq> 0 \<and> cmd_is_sorted r \<and> cmd_index r > 1 then
                  do { prev \<leftarrow> arr_get l (cmd_index r - 1);
                       cur \<leftarrow> arr_get l (cmd_index r);
                       pname \<leftarrow> ce_name prev;
                       cname \<leftarrow> ce_name cur;
                       Some (if strcmp pname cname > 0 then False else cmd_is_sorted r) }
                else Some (cmd_is_sorted r));
             Some (cmd_index r + 1,
                   r\<lparr>cmd_list := l, cmd_is_sorted := sorted, cmd_index := cmd_index r + 1\<rparr>) }
      else Some (- 1, r))"

definition cmd_get_idx :: "int \<Rightarrow> cmd_repo \<Rightarrow> cmd option option" where
  "cmd_get_idx idx r =
     (if idx < SCH_CMD_MAX_ENTRIES then
        do { found \<leftarrow> arr_get (cmd_list r) idx;
             Some (Some \<lparr>c_id = idx, c_nparams = ce_nparams found, c_fmt = ce_fmt found,
                         c_params = None, c_function = ce_function found\<rparr>) }
      else Some None)"

text \<open>The search loop of \<^verbatim>\<open>cmd_get_str\<close> and \<^verbatim>\<open>cmd_get_fmt\<close>: \<^verbatim>\<open>strcmp\<close> follows every name it meets.\<close>

fun cmd_find :: "string \<Rightarrow> nat \<Rightarrow> cmd_entry list \<Rightarrow> nat option option" where
  "cmd_find name i [] = Some None"
| "cmd_find name i (e # es) =
     do { n \<leftarrow> ce_name e;
          if strcmp name n = 0 then Some (Some i) else cmd_find name (Suc i) es }"

definition cmd_get_str :: "string \<Rightarrow> cmd_repo \<Rightarrow> cmd option option" where
  "cmd_get_str name r =
     do { hit \<leftarrow> cmd_find name 0 (cmd_list r);
          case hit of
            None \<Rightarrow> Some None
          | Some i \<Rightarrow> cmd_get_idx (int i) r }"

definition cmd_get_name :: "int \<Rightarrow> cmd_repo \<Rightarrow> string option option" where
  "cmd_get_name idx r =
     (if idx < SCH_CMD_MAX_ENTRIES then
        do { found \<leftarrow> arr_get (cmd_list r) idx;
             name \<leftarrow> ce_name found;
             Some (Some name) }
      else Some None)"

definition cmd_add_params_raw :: "cmd option \<Rightarrow> char list option \<Rightarrow> int \<Rightarrow> cmd option option" where
  "cmd_add_params_raw c params len =
     (case (c, params) of
        (Some cm, Some b) \<Rightarrow>
          do { require (0 \<le> len);
               data \<leftarrow> blk_read b 0 (nat len);
               Some (Some (cm\<lparr>c_params := Some data\<rparr>)) }
      | _ \<Rightarrow> Some c)"

definition cmd_add_params_str :: "cmd option \<Rightarrow> string \<Rightarrow> cmd option" where
  "cmd_add_params_str c params =
     (let len_param =
            (if length params > SCH_CMD_MAX_STR_PARAMS then SCH_CMD_MAX_STR_PARAMS
             else length params)
      in case c of
           Some cm \<Rightarrow>
             if len_param \<noteq> 0
             then Some (cm\<lparr>c_params := Some (strncpy_bytes params (len_param + 1))\<rparr>)
             else Some cm
         | None \<Rightarrow> None)"

text \<open>
  The text of the parameters is printed into a buffer on the stack. The conversions \<^verbatim>\<open>%d\<close> and \<^verbatim>\<open>%u\<close> of \<^verbatim>\<open>vsprintf\<close>,
  and characters that stand for themselves. \<open>None\<close> is undefined behaviour (a conversion that does not fit its argument, as
  \<^verbatim>\<open>%lf\<close> for an integer, or has none), but also stands for the conversions of integers that are not modelled.
\<close>

fun vsprintf_ints :: "string \<Rightarrow> int list \<Rightarrow> string option" where
  "vsprintf_ints [] vs = Some []"
| "vsprintf_ints [c] vs = (if c = CHR ''%'' then None else Some [c])"
| "vsprintf_ints (c # d # cs) vs =
     (if c \<noteq> CHR ''%'' then do { r \<leftarrow> vsprintf_ints (d # cs) vs; Some (c # r) }
      else
        case vs of
          [] \<Rightarrow> None
        | v # vs' \<Rightarrow>
            do { x \<leftarrow> (if d = CHR ''d'' then Some (show_int v)
                      else if d = CHR ''u'' then Some (show_int (v mod 2 ^ 32)) else None);
                 r \<leftarrow> vsprintf_ints cs vs';
                 Some (x @ r) })"

definition cmd_add_params_var :: "cmd option \<Rightarrow> int list \<Rightarrow> cmd option option" where
  "cmd_add_params_var c args =
     (case c of
        None \<Rightarrow> Some None
      | Some cm \<Rightarrow>
          do { fmt \<leftarrow> c_fmt cm;
               str_params \<leftarrow> vsprintf_ints fmt args;
               require (length str_params < SCH_CMD_MAX_STR_PARAMS);
               Some (cmd_add_params_str c str_params) })"

definition cmd_build_from_str :: "string \<Rightarrow> cmd_repo \<Rightarrow> cmd option option" where
  "cmd_build_from_str buff r =
     (if length buff > 0 then
        do { (ok, args) \<leftarrow> sscanf buff ''%s %n'';
             if ok > 0 then
               (case args of
                  [AStr tmp_cmd, APos next] \<Rightarrow>
                    do { new_cmd \<leftarrow> cmd_get_str tmp_cmd r;
                         case new_cmd of
                           None \<Rightarrow> Some None
                         | Some c \<Rightarrow>
                             if next < length buff
                             then Some (cmd_add_params_str (Some c) (drop next buff))
                             else Some (cmd_add_params_str (Some c) '''') }
                | _ \<Rightarrow> None)
             else Some None }
      else Some None)"

text \<open>\<^verbatim>\<open>cmd_save_all\<close>: the size of the buffer, then one write per name and one per separator.\<close>

fun cmd_names_len :: "cmd_entry list \<Rightarrow> nat option" where
  "cmd_names_len [] = Some 0"
| "cmd_names_len (e # es) =
     do { n \<leftarrow> ce_name e; k \<leftarrow> cmd_names_len es; Some (length n + 1 + k) }"

fun cmd_names_copy :: "cmd_entry list \<Rightarrow> nat \<Rightarrow> char list \<Rightarrow> char list option" where
  "cmd_names_copy [] len_cnt b = Some b"
| "cmd_names_copy (e # es) len_cnt b =
     do { n \<leftarrow> ce_name e;
          b1 \<leftarrow> blk_write b len_cnt n;
          b2 \<leftarrow> blk_write b1 (len_cnt + length n) [CHR 0x0A];
          cmd_names_copy es (len_cnt + length n + 1) b2 }"

definition cmd_save_all :: "cmd_repo \<Rightarrow> char list option" where
  "cmd_save_all r =
     do { require (cmd_index r \<le> int (length (cmd_list r)));
          let es = take (nat (cmd_index r)) (cmd_list r);
          names_len \<leftarrow> cmd_names_len es;
          cmd_names_copy es 0 (replicate (names_len + 1) NUL) }"

definition cmd_null :: int where
  "cmd_null = CMD_SYNTAX_ERROR"

text \<open>
  \<^verbatim>\<open>cmd_get_fmt\<close>: a fixed buffer of 30 bytes takes the format of the first match; without a
  match the caller gets the buffer with its indeterminate content (\<open>Some None\<close>).
\<close>

definition cmd_get_fmt :: "string \<Rightarrow> cmd_repo \<Rightarrow> string option option" where
  "cmd_get_fmt name r =
     do { hit \<leftarrow> cmd_find name 0 (cmd_list r);
          case hit of
            None \<Rightarrow> Some None
          | Some i \<Rightarrow>
              do { f \<leftarrow> ce_fmt (cmd_list r ! i);
                   require (length f + 1 \<le> 30);
                   Some (Some f) } }"

subsection \<open>Registrations\<close>

type_synonym cmd_reg = "string \<times> string \<times> string \<times> int"

fun cmd_add_all :: "cmd_reg list \<Rightarrow> cmd_repo \<Rightarrow> cmd_repo option" where
  "cmd_add_all [] r = Some r"
| "cmd_add_all ((name, func, fmt, n) # regs) r =
     do { (rc, r') \<leftarrow> cmd_add name func fmt n r; cmd_add_all regs r' }"

text \<open>The \<^verbatim>\<open>cmd_add\<close> calls of each module, for the Linux build.\<close>

definition cmd_obc_init :: "cmd_reg list" where
  "cmd_obc_init =
    [(''obc_ident'', ''obc_ident'', '''', 0),
     (''obc_debug'', ''obc_debug'', ''%d'', 1),
     (''obc_exit'', ''obc_exit'', '''', 0),
     (''obc_reset'', ''obc_reset'', ''%d'', 1),
     (''obc_get_mem'', ''obc_get_os_memory'', '''', 0),
     (''obc_set_time'', ''obc_set_time'', ''%d'', 1),
     (''obc_get_time'', ''obc_get_time'', ''%d'', 1),
     (''obc_reset_wdt'', ''obc_reset_wdt'', ''%d'', 1),
     (''obc_system'', ''obc_system'', ''%s'', 1),
     (''obc_set_cwd'', ''obc_set_cwd'', ''%s'', 1),
     (''obc_get_cwd'', ''obc_get_cwd'', '''', 0),
     (''obc_ls'', ''obc_ls'', ''%s'', 1),
     (''obc_rm'', ''obc_rm'', ''%s'', 1),
     (''obc_mkdir'', ''obc_mkdir'', ''%s'', 1)]"

definition cmd_drp_init :: "cmd_reg list" where
  "cmd_drp_init =
    [(''drp_ebf'', ''drp_execute_before_flight'', ''%d'', 1),
     (''drp_reset_payload'', ''drp_reset_payload'', ''%d %d'', 2),
     (''drp_reset_status'', ''drp_reset_status'', ''%d'', 1),
     (''drp_print_vars'', ''drp_print_system_vars'', '''', 0),
     (''drp_set_var'', ''drp_update_sys_var_idx'', ''%d %f'', 2),
     (''drp_set_var_name'', ''drp_update_sys_var_name'', ''%s %f'', 2),
     (''drp_get_var_name'', ''drp_get_sys_var_name'', ''%s'', 1),
     (''drp_add_hrs_alive'', ''drp_update_hours_alive'', ''%d'', 1),
     (''drp_clear_gnd_wdt'', ''drp_clear_gnd_wdt'', '''', 0)]"

definition cmd_console_init :: "cmd_reg list" where
  "cmd_console_init =
    [(''test'', ''con_debug_msg'', ''%s'', 1),
     (''help'', ''con_help'', '''', 0),
     (''log_set'', ''con_set_logger'', ''%d %d'', 2)]"

definition cmd_fp_init :: "cmd_reg list" where
  "cmd_fp_init =
    [(''fp_set_cmd'', ''fp_set'', ''%d %d %d %d %d %d %d %d %s %n'', 10),
     (''fp_set_cmd_unix'', ''fp_set_unix'', ''%d %d %d %s %n '', 5),
     (''fp_set_cmd_dt'', ''fp_set_dt'', ''%d %d %d %s %n'', 5),
     (''fp_del_cmd'', ''fp_delete'', ''%d %d %d %d %d %d'', 6),
     (''fp_del_cmd_unix'', ''fp_delete_unix'', ''%d'', 1),
     (''fp_show'', ''fp_show'', '''', 0),
     (''fp_reset'', ''fp_reset'', '''', 0),
     (''fp_purge'', ''fp_purge'', '''', 0)]"

definition cmd_com_init :: "cmd_reg list" where
  "cmd_com_init =
    [(''com_ping'', ''com_ping'', ''%d'', 1),
     (''com_send_rpt'', ''com_send_rpt'', ''%d %s'', 2),
     (''com_send_cmd'', ''com_send_cmd'', ''%d %n'', 2),
     (''com_send_tc'', ''com_send_tc_frame'', ''%d %n'', 2),
     (''com_send_data'', ''com_send_data'', ''%d %d %n'', 3),
     (''com_debug'', ''com_debug'', '''', 0),
     (''com_set_time_node'', ''com_set_time_node'', ''%d'', 1)]"

definition cmd_tm_init :: "cmd_reg list" where
  "cmd_tm_init =
    [(''tm_parse_status'', ''tm_parse_status'', '''', 0),
     (''tm_parse_string'', ''tm_parse_string'', '''', 0),
     (''tm_send_status'', ''tm_send_status'', ''%d'', 1),
     (''tm_send_var'', ''tm_send_var'', ''%d %s'', 2),
     (''tm_get_last'', ''tm_get_last'', ''%u'', 1),
     (''tm_get_single'', ''tm_get_single'', ''%u %u'', 2),
     (''tm_send_last'', ''tm_send_last'', ''%u %u'', 2),
     (''tm_send_all'', ''tm_send_all'', ''%u %u'', 2),
     (''tm_send_n'', ''tm_send_from'', ''%u %u %u'', 3),
     (''tm_parse_payload'', ''tm_parse_payload'', ''%'', 0),
     (''tm_set_ack'', ''tm_set_ack'', ''%u %u'', 2),
     (''tm_send_cmds'', ''tm_send_cmds'', ''%d'', 1),
     (''tm_send_fp'', ''tm_send_fp'', ''%d'', 1),
     (''tm_print_fp'', ''tm_print_fp'', '''', 0),
     (''tm_dump'', ''tm_dump'', ''%d %s'', 2),
     (''tm_send_file'', ''tm_send_file'', ''%s %d'', 2),
     (''tm_parse_file'', ''tm_parse_file'', '''', 0),
     (''tm_send_file_part'', ''tm_send_file_parts'', ''%s %d %d %d %d'', 5),
     (''tm_merge_file'', ''tm_merge_file'', ''%s %d'', 2),
     (''tm_ls'', ''tm_list_files'', ''%s %d'', 2)]"

definition core_cmds :: "bool \<Rightarrow> bool \<Rightarrow> bool \<Rightarrow> cmd_reg list" where
  "core_cmds con_enabled fp_enabled comm_enable =
     cmd_obc_init @ cmd_drp_init @
     (if con_enabled then cmd_console_init else []) @
     (if fp_enabled then cmd_fp_init else []) @
     (if comm_enable then cmd_com_init @ cmd_tm_init else [])"

text \<open>
  The loop that fills the table with \<^verbatim>\<open>null\<close>. It stops only when \<^verbatim>\<open>cmd_add\<close> returns
  \<^verbatim>\<open>SCH_CMD_MAX_ENTRIES\<close>, so not returning is possible and is the value \<open>None\<close>.
\<close>

partial_function (option) cmd_fill_null :: "cmd_repo \<Rightarrow> cmd_repo option" where
  "cmd_fill_null r =
     do { (n_cmd, r') \<leftarrow> cmd_add ''null'' ''cmd_null'' '''' 0 r;
          if n_cmd < SCH_CMD_MAX_ENTRIES then cmd_fill_null r' else Some r' }"

definition cmd_repo_init :: "bool \<Rightarrow> bool \<Rightarrow> bool \<Rightarrow> cmd_repo \<Rightarrow> (int \<times> cmd_repo) option" where
  "cmd_repo_init con_enabled fp_enabled comm_enable r =
     do { r1 \<leftarrow> cmd_add_all (core_cmds con_enabled fp_enabled comm_enable) (r\<lparr>cmd_index := 0\<rparr>);
          let last_cmd_index = cmd_index r1;
          r2 \<leftarrow> cmd_fill_null r1;
          Some (CMD_OK, r2\<lparr>cmd_index := last_cmd_index\<rparr>) }"

definition cmd_repo_close :: "cmd_repo \<Rightarrow> cmd_repo" where
  "cmd_repo_close r =
     r\<lparr>cmd_list := map (\<lambda>e. e\<lparr>ce_name := None, ce_fmt := None\<rparr>) (cmd_list r), cmd_index := 0\<rparr>"

text \<open>The table as the linker leaves it.\<close>

definition cmd_repo_zero :: cmd_repo where
  "cmd_repo_zero =
     \<lparr>cmd_list = replicate 255 \<lparr>ce_nparams = 0, ce_fmt = None, ce_name = None, ce_function = None\<rparr>,
      cmd_index = 0, cmd_is_sorted = True\<rparr>"

section \<open>Well-formed tables\<close>

definition named :: "cmd_entry \<Rightarrow> bool" where
  "named e \<longleftrightarrow> ce_name e \<noteq> None \<and> ce_fmt e \<noteq> None \<and> ce_function e \<noteq> None"

definition repo_wf :: "cmd_repo \<Rightarrow> bool" where
  "repo_wf r \<longleftrightarrow>
     length (cmd_list r) = 255 \<and> 0 \<le> cmd_index r \<and> cmd_index r \<le> 255 \<and>
     (\<forall>i < nat (cmd_index r). named (cmd_list r ! i))"

text \<open>After \<^verbatim>\<open>cmd_repo_init\<close> every entry has a name, so every search is safe.\<close>

definition repo_ready :: "cmd_repo \<Rightarrow> bool" where
  "repo_ready r \<longleftrightarrow> repo_wf r \<and> (\<forall>e \<in> set (cmd_list r). named e)"

fun reg_entry :: "cmd_reg \<Rightarrow> cmd_entry" where
  "reg_entry (name, func, fmt, n) =
     \<lparr>ce_nparams = n, ce_fmt = Some fmt, ce_name = Some name, ce_function = Some func\<rparr>"

definition null_entry :: cmd_entry where
  "null_entry = reg_entry (''null'', ''cmd_null'', '''', 0)"

definition entry_cmd :: "nat \<Rightarrow> cmd_entry \<Rightarrow> cmd" where
  "entry_cmd i e = \<lparr>c_id = int i, c_nparams = ce_nparams e, c_fmt = ce_fmt e, c_params = None,
                   c_function = ce_function e\<rparr>"

lemma named_reg_entry [simp]: "named (reg_entry g)"
  by (cases g) (simp add: named_def)

lemma named_null_entry [simp]: "named null_entry"
  by (simp add: null_entry_def del: reg_entry.simps)

lemma ce_name_reg_entry [simp]: "ce_name (reg_entry g) = Some (fst g)"
  by (cases g) simp

lemma ce_name_null_entry [simp]: "ce_name null_entry = Some ''null''"
  by (simp add: null_entry_def)

lemma cmd_add_ok:
  assumes wf: "repo_wf r" and room: "cmd_index r < 255"
  shows "\<exists>r'. cmd_add name func fmt n r = Some (cmd_index r + 1, r') \<and> repo_wf r' \<and>
           cmd_list r' = (cmd_list r)[nat (cmd_index r) := reg_entry (name, func, fmt, n)] \<and>
           cmd_index r' = cmd_index r + 1"
proof -
  let ?i = "nat (cmd_index r)"
  let ?l = "(cmd_list r)[?i := reg_entry (name, func, fmt, n)]"
  from wf room have i: "0 \<le> cmd_index r" "?i < 255" and len: "length (cmd_list r) = 255"
    by (auto simp: repo_wf_def)
  have set: "arr_set (cmd_list r) (cmd_index r) (reg_entry (name, func, fmt, n)) = Some ?l"
    using i len by (simp add: arr_set_eq_Some)
  have "\<exists>p. arr_get ?l (cmd_index r - 1) = Some p \<and> ce_name p \<noteq> None" if "cmd_index r > 1"
  proof -
    from that i have "nat (cmd_index r - 1) < ?i" by simp
    moreover from this have "named (cmd_list r ! nat (cmd_index r - 1))"
      using wf by (simp add: repo_wf_def)
    ultimately show ?thesis
      using that i len by (auto simp: arr_get_def named_def)
  qed
  note prev = this
  have cur: "arr_get ?l (cmd_index r) = Some (reg_entry (name, func, fmt, n))"
    using i len by (simp add: arr_get_def)
  have "\<exists>sorted. cmd_add name func fmt n r =
      Some (cmd_index r + 1,
        r\<lparr>cmd_list := ?l, cmd_is_sorted := sorted, cmd_index := cmd_index r + 1\<rparr>)"
  proof (cases "strcmp name ''null'' \<noteq> 0 \<and> cmd_is_sorted r \<and> cmd_index r > 1")
    case True
    with prev obtain p pn where "arr_get ?l (cmd_index r - 1) = Some p"
        "ce_name p = Some pn"
      by blast
    with True room set cur show ?thesis
      by (auto simp: cmd_add_def SCH_CMD_MAX_ENTRIES_def)
  next
    case False
    with room set show ?thesis
      by (intro exI [of _ "cmd_is_sorted r"]) (auto simp: cmd_add_def SCH_CMD_MAX_ENTRIES_def)
  qed
  moreover have "named (?l ! j)" if "j < nat (cmd_index r + 1)" for j
    using that wf i len by (cases "j = ?i") (auto simp: repo_wf_def simp del: reg_entry.simps)
  ultimately show ?thesis
    using wf room i len by (auto simp: repo_wf_def)
qed

lemma cmd_add_full: "cmd_index r \<ge> 255 \<Longrightarrow> cmd_add name func fmt n r = Some (- 1, r)"
  by (simp add: cmd_add_def SCH_CMD_MAX_ENTRIES_def)

lemma cmd_add_all_ok:
  assumes "repo_wf r" and "cmd_index r + int (length regs) \<le> 255"
  shows "\<exists>r'. cmd_add_all regs r = Some r' \<and> repo_wf r' \<and>
           cmd_index r' = cmd_index r + int (length regs) \<and>
           cmd_list r' = take (nat (cmd_index r)) (cmd_list r) @ map reg_entry regs @
                         drop (nat (cmd_index r) + length regs) (cmd_list r)"
  using assms
proof (induction regs arbitrary: r)
  case Nil
  then show ?case by simp
next
  case (Cons g regs)
  obtain name func fmt n where g: "g = (name, func, fmt, n)" by (cases g)
  let ?i = "nat (cmd_index r)"
  from Cons.prems obtain r1 where
      r1: "cmd_add name func fmt n r = Some (cmd_index r + 1, r1)" "repo_wf r1"
        "cmd_list r1 = (cmd_list r)[?i := reg_entry g]" "cmd_index r1 = cmd_index r + 1"
    using cmd_add_ok [of r name func fmt n] g by auto
  from Cons.prems have i: "0 \<le> cmd_index r" "nat (cmd_index r + 1) = Suc ?i"
      "?i < length (cmd_list r)"
    by (auto simp: repo_wf_def)
  from Cons.IH [OF r1(2)] Cons.prems(2) r1(4) obtain r' where
      "cmd_add_all regs r1 = Some r'" "repo_wf r'"
      "cmd_index r' = cmd_index r1 + int (length regs)"
      "cmd_list r' = take (nat (cmd_index r1)) (cmd_list r1) @ map reg_entry regs @
         drop (nat (cmd_index r1) + length regs) (cmd_list r1)"
    by auto
  moreover have "take (Suc ?i) ((cmd_list r)[?i := reg_entry g]) =
      take ?i (cmd_list r) @ [reg_entry g]"
    using i(3) by (simp add: take_Suc_conv_app_nth)
  ultimately show ?case
    using r1 g i by simp
qed

lemma cmd_fill_null_ok:
  assumes "repo_wf r" and "cmd_index r < 255"
  shows "\<exists>r'. cmd_fill_null r = Some r' \<and> repo_wf r' \<and> cmd_index r' = 255 \<and>
           cmd_list r' = take (nat (cmd_index r)) (cmd_list r) @
                         replicate (255 - nat (cmd_index r)) null_entry"
  using assms
proof (induction "255 - nat (cmd_index r)" arbitrary: r)
  case 0
  then show ?case by simp
next
  case (Suc k)
  let ?i = "nat (cmd_index r)"
  from cmd_add_ok [OF Suc.prems, of "''null''" "''cmd_null''" "''''" 0]
  obtain r1 where r1: "cmd_add ''null'' ''cmd_null'' '''' 0 r = Some (cmd_index r + 1, r1)"
      "repo_wf r1" "cmd_list r1 = (cmd_list r)[?i := null_entry]" "cmd_index r1 = cmd_index r + 1"
    by (auto simp: null_entry_def)
  from Suc.prems have i: "0 \<le> cmd_index r" "?i < 255" "length (cmd_list r) = 255"
    by (auto simp: repo_wf_def)
  have unfold: "cmd_fill_null r =
      (if cmd_index r + 1 < 255 then cmd_fill_null r1 else Some r1)"
    by (subst cmd_fill_null.simps) (simp add: r1 SCH_CMD_MAX_ENTRIES_def)
  have take: "take (Suc ?i) (cmd_list r1) = take ?i (cmd_list r) @ [null_entry]"
    using i r1(3) by (simp add: take_Suc_conv_app_nth)
  show ?case
  proof (cases "cmd_index r + 1 < 255")
    case True
    have "k = 255 - nat (cmd_index r1)" using Suc.hyps(2) r1(4) i by simp
    from Suc.hyps(1) [OF this r1(2)] True r1(4) obtain r' where
        r': "cmd_fill_null r1 = Some r'" "repo_wf r'" "cmd_index r' = 255"
          "cmd_list r' = take (nat (cmd_index r1)) (cmd_list r1) @
             replicate (255 - nat (cmd_index r1)) null_entry"
      by auto
    have "nat (cmd_index r1) = Suc ?i" using i r1(4) by simp
    moreover have "255 - ?i = Suc (255 - Suc ?i)" using i by simp
    ultimately show ?thesis
      using r' unfold True take by simp
  next
    case False
    then have last: "?i = 254" using i by simp
    then have "cmd_list r1 = take (Suc ?i) (cmd_list r1)" using i r1(3) by simp
    with take last have "cmd_list r1 = take ?i (cmd_list r) @ replicate (255 - ?i) null_entry"
      by simp
    then show ?thesis
      using unfold False r1 last i by simp
  qed
qed

lemma cmd_find_named:
  "\<forall>e \<in> set es. named e \<Longrightarrow>
   cmd_find name i es =
     Some (map_option (\<lambda>k. k + i) (find_idx (\<lambda>e. ce_name e = Some name) es))"
proof (induction es arbitrary: i)
  case Nil
  then show ?case by simp
next
  case (Cons e es)
  from Cons.prems obtain n where n: "ce_name e = Some n" by (auto simp: named_def)
  show ?case
    using Cons n by (cases "find_idx (\<lambda>e. ce_name e = Some name) es") auto
qed

text \<open>Lookup in a ready table: the first entry with the name, or the null pointer.\<close>

lemma cmd_get_str_ready:
  assumes "repo_ready r"
  shows "cmd_get_str name r =
     Some (map_option (\<lambda>i. entry_cmd i (cmd_list r ! i))
            (find_idx (\<lambda>e. ce_name e = Some name) (cmd_list r)))"
proof (cases "find_idx (\<lambda>e. ce_name e = Some name) (cmd_list r)")
  case None
  then show ?thesis
    using assms by (simp add: cmd_get_str_def cmd_find_named repo_ready_def)
next
  case (Some i)
  with assms have "i < 255"
    using find_idx_SomeD(1) by (force simp: repo_ready_def repo_wf_def)
  then show ?thesis
    using assms Some
    by (simp add: cmd_get_str_def cmd_find_named repo_ready_def repo_wf_def cmd_get_idx_def
        SCH_CMD_MAX_ENTRIES_def entry_cmd_def)
qed

lemma core_cmds_length: "length (core_cmds con fp comm) \<le> 61"
  by (simp add: core_cmds_def cmd_obc_init_def cmd_drp_init_def cmd_console_init_def
      cmd_fp_init_def cmd_com_init_def cmd_tm_init_def)

lemma core_cmds_prefix:
  "set (map fst (core_cmds con fp comm)) \<subseteq> set (map fst (core_cmds True True True))"
  by (auto simp: core_cmds_def)

lemma core_cmds_distinct: "distinct (map fst (core_cmds True True True))"
  by code_simp

lemma core_cmds_distinct_any: "distinct (map fst (core_cmds con fp comm))"
  using core_cmds_distinct by (cases con; cases fp; cases comm) (auto simp: core_cmds_def)

lemma core_cmds_not_null: "''null'' \<notin> set (map fst (core_cmds con fp comm))"
proof -
  have "''null'' \<notin> set (map fst (core_cmds True True True))" by code_simp
  then show ?thesis using core_cmds_prefix by blast
qed

lemma core_cmds_fmt_short: "\<forall>(n, f, fmt, k) \<in> set (core_cmds con fp comm). length fmt < 30"
proof -
  have "list_all (\<lambda>(n, f, fmt, k). length fmt < 30) (core_cmds True True True)" by code_simp
  moreover have "set (core_cmds con fp comm) \<subseteq> set (core_cmds True True True)"
    by (auto simp: core_cmds_def)
  ultimately show ?thesis by (auto simp: list_all_iff)
qed

text \<open>The table \<^verbatim>\<open>cmd_repo_init\<close> builds.\<close>

lemma cmd_repo_init_table:
  assumes "length (cmd_list r) = 255" and regs_def: "regs = core_cmds con fp comm"
  shows "\<exists>r'. cmd_repo_init con fp comm r = Some (CMD_OK, r') \<and> repo_ready r' \<and>
           cmd_index r' = int (length regs) \<and>
           cmd_list r' = map reg_entry regs @ replicate (255 - length regs) null_entry"
proof -
  have n: "length regs \<le> 61" using core_cmds_length by (simp add: regs_def)
  have "repo_wf (r\<lparr>cmd_index := 0\<rparr>)" using assms(1) by (simp add: repo_wf_def)
  from cmd_add_all_ok [OF this, of regs] n obtain r1 where
      r1: "cmd_add_all regs (r\<lparr>cmd_index := 0\<rparr>) = Some r1" "repo_wf r1"
        "cmd_index r1 = int (length regs)"
        "cmd_list r1 = map reg_entry regs @ drop (length regs) (cmd_list r)"
    by auto
  from cmd_fill_null_ok [OF r1(2)] r1(3) n obtain r2 where
      r2: "cmd_fill_null r1 = Some r2" "repo_wf r2"
        "cmd_list r2 = take (length regs) (cmd_list r1) @
           replicate (255 - length regs) null_entry"
    by auto
  have l: "cmd_list r2 = map reg_entry regs @ replicate (255 - length regs) null_entry"
    using r1(4) r2(3) by simp
  have all: "\<forall>e \<in> set (cmd_list r2). named e"
    by (auto simp: l simp del: reg_entry.simps)
  then have "\<forall>i < length (cmd_list r2). named (cmd_list r2 ! i)" by simp
  then have "repo_ready (r2\<lparr>cmd_index := int (length regs)\<rparr>)"
    using all r2(2) n by (auto simp: repo_ready_def repo_wf_def)
  then show ?thesis
    using r1 r2(1) l by (auto simp: cmd_repo_init_def regs_def)
qed

lemma find_reg:
  assumes "distinct (map fst regs)" and "i < length regs"
  shows "find_idx (\<lambda>e. ce_name e = Some (fst (regs ! i))) (map reg_entry regs @ rest) = Some i"
  unfolding find_idx_eq_Some
proof (intro conjI allI impI)
  fix j assume j: "j < i"
  then have "map fst regs ! j \<noteq> map fst regs ! i"
    using assms by (simp add: distinct_conv_nth del: nth_map)
  with j assms(2) show "ce_name ((map reg_entry regs @ rest) ! j) \<noteq> Some (fst (regs ! i))"
    by (simp add: nth_append)
qed (use assms(2) in \<open>simp_all add: nth_append\<close>)

lemma find_no_reg:
  assumes "name \<notin> set (map fst regs)" and "name \<noteq> ''null''"
  shows "find_idx (\<lambda>e. ce_name e = Some name) (map reg_entry regs @ replicate k null_entry) = None"
  using assms by (auto simp: find_idx_eq_None image_iff)

text \<open>The text of a command: what \<^verbatim>\<open>sscanf(buff, "%s %n")\<close> sees.\<close>

lemma sscanf_word_pos:
  assumes "w \<noteq> []" and "list_all (Not \<circ> is_space) w" and "list_all is_space sp"
    and "rest = [] \<or> \<not> is_space (hd rest)" and "sp = [] \<longrightarrow> rest = []"
  shows "sscanf (w @ sp @ rest) ''%s %n'' = Some (1, [AStr w, APos (length w + length sp)])"
proof -
  have fmt: "parse_fmt ''%s %n'' = [DStr, DSpace, DPos]"
    by (simp add: conversion_def is_space_def)
  have sep: "sp @ rest = [] \<or> is_space (hd (sp @ rest))"
    using assms(3,5) by (cases sp) auto
  have "skip_ws (sp @ rest) = rest"
    using assms(3,4) by (simp add: skip_ws_append)
  then show ?thesis
    unfolding sscanf_def sscanf_f_def fmt scan_DStr_word [OF assms(1,2) sep] by simp
qed

lemma cmd_names_len_take:
  "\<forall>e \<in> set es. named e \<Longrightarrow>
   cmd_names_len es = Some (length (concat (map (\<lambda>e. the (ce_name e) @ [CHR 0x0A]) es)))"
  by (induction es) (auto simp: named_def)

lemma cmd_names_copy_ok:
  assumes "\<forall>e \<in> set es. named e" and "length p = off"
    and "length m = length (concat (map (\<lambda>e. the (ce_name e) @ [CHR 0x0A]) es))"
  shows "cmd_names_copy es off (p @ m @ q) =
     Some (p @ concat (map (\<lambda>e. the (ce_name e) @ [CHR 0x0A]) es) @ q)"
  using assms
proof (induction es arbitrary: p off m)
  case Nil
  then show ?case by simp
next
  case (Cons e es)
  from Cons.prems obtain n where n: "ce_name e = Some n" by (auto simp: named_def)
  let ?rest = "concat (map (\<lambda>e. the (ce_name e) @ [CHR 0x0A]) es)"
  obtain m1 c m2 where m: "m = m1 @ c # m2" "length m1 = length n" "length m2 = length ?rest"
  proof
    show "m = take (length n) m @ m ! length n # drop (Suc (length n)) m"
      using Cons.prems(3) n by (simp add: id_take_nth_drop)
  qed (use Cons.prems(3) n in simp_all)
  have "blk_write (p @ m @ q) off n = Some (p @ n @ c # m2 @ q)"
    using blk_write_append [of p off m1 n "c # m2 @ q"] Cons.prems(2) m by simp
  moreover have "blk_write (p @ n @ c # m2 @ q) (off + length n) [CHR 0x0A] =
      Some (p @ n @ CHR 0x0A # m2 @ q)"
    using blk_write_append [of "p @ n" "off + length n" "[c]" "[CHR 0x0A]" "m2 @ q"] Cons.prems(2)
    by simp
  moreover have "cmd_names_copy es (off + length n + 1) ((p @ n @ [CHR 0x0A]) @ m2 @ q) =
      Some ((p @ n @ [CHR 0x0A]) @ ?rest @ q)"
    using Cons.prems m by (intro Cons.IH) auto
  ultimately show ?case
    using n by simp
qed

section \<open>Properties\<close>

text \<open>
  C29: start-up of the command repository. From any table of the right size
  \<^verbatim>\<open>cmd_repo_init\<close> ends (its filling loop included), returns \<^verbatim>\<open>CMD_OK\<close>, and every command the
  enabled core modules register can then be looked up by its name and has the function, the
  format and the number of parameters it was registered with; its id is its position. A name
  that was not registered is not found (the null pointer), and no lookup leaves the table.
\<close>

theorem cmd_repo_init_lookup:
  assumes "length (cmd_list r) = 255"
  shows "\<exists>r'. cmd_repo_init con fp comm r = Some (CMD_OK, r') \<and> repo_ready r' \<and>
     (\<forall>i < length (core_cmds con fp comm).
        cmd_get_str (fst (core_cmds con fp comm ! i)) r' =
          Some (Some (entry_cmd i (reg_entry (core_cmds con fp comm ! i))))) \<and>
     (\<forall>name. name \<notin> set (map fst (core_cmds con fp comm)) \<longrightarrow> name \<noteq> ''null'' \<longrightarrow>
        cmd_get_str name r' = Some None)"
proof -
  let ?regs = "core_cmds con fp comm"
  from cmd_repo_init_table [OF assms refl] obtain r' where
      r': "cmd_repo_init con fp comm r = Some (CMD_OK, r')" "repo_ready r'"
        "cmd_list r' = map reg_entry ?regs @ replicate (255 - length ?regs) null_entry"
    by blast
  have "cmd_get_str (fst (?regs ! i)) r' = Some (Some (entry_cmd i (reg_entry (?regs ! i))))"
    if "i < length ?regs" for i
    using that find_reg [OF core_cmds_distinct_any that]
    by (simp add: cmd_get_str_ready [OF r'(2)] r'(3) nth_append del: reg_entry.simps)
  moreover have "cmd_get_str name r' = Some None"
    if "name \<notin> set (map fst ?regs)" "name \<noteq> ''null''" for name
    using find_no_reg [OF that] by (simp add: cmd_get_str_ready [OF r'(2)] r'(3))
  ultimately show ?thesis
    using r' by blast
qed

theorem cmd_repo_init_lookup_witness:
  "length (cmd_list cmd_repo_zero) = 255 \<and>
   (\<exists>r'. cmd_repo_init True True True cmd_repo_zero = Some (CMD_OK, r') \<and>
     cmd_get_str ''obc_debug'' r' =
       Some (Some \<lparr>c_id = 1, c_nparams = 1, c_fmt = Some ''%d'', c_params = None,
                   c_function = Some ''obc_debug''\<rparr>) \<and>
     cmd_get_str ''no_such_cmd'' r' = Some None)"
proof -
  have len: "length (cmd_list cmd_repo_zero) = 255" by (simp add: cmd_repo_zero_def)
  from cmd_repo_init_lookup [OF len, of True True True] obtain r' where
      r': "cmd_repo_init True True True cmd_repo_zero = Some (CMD_OK, r')"
        "\<forall>i < length (core_cmds True True True).
           cmd_get_str (fst (core_cmds True True True ! i)) r' =
             Some (Some (entry_cmd i (reg_entry (core_cmds True True True ! i))))"
        "\<forall>name. name \<notin> set (map fst (core_cmds True True True)) \<longrightarrow> name \<noteq> ''null'' \<longrightarrow>
           cmd_get_str name r' = Some None"
    by blast
  have one: "core_cmds True True True ! 1 = (''obc_debug'', ''obc_debug'', ''%d'', 1)"
    "1 < length (core_cmds True True True)"
    by (simp_all add: core_cmds_def cmd_obc_init_def)
  have "''no_such_cmd'' \<notin> set (map fst (core_cmds True True True))" by code_simp
  then have "cmd_get_str ''no_such_cmd'' r' = Some None" using r'(3) by simp
  moreover have "cmd_get_str ''obc_debug'' r' =
       Some (Some \<lparr>c_id = 1, c_nparams = 1, c_fmt = Some ''%d'', c_params = None,
                   c_function = Some ''obc_debug''\<rparr>)"
    using r'(2) [rule_format, OF one(2)] unfolding one(1) by (simp add: entry_cmd_def)
  ultimately show ?thesis using len r'(1) by blast
qed

text \<open>
  the loop of \<^verbatim>\<open>cmd_repo_init\<close> needs a free entry. If the registered commands already fill the
  table, \<^verbatim>\<open>cmd_add\<close> returns -1 for ever and the filling loop never ends.
\<close>

theorem cmd_fill_null_full:
  assumes "cmd_index r = 255"
  shows "cmd_fill_null r = None"
proof -
  have "cmd_fill_null r = Some x \<Longrightarrow> False" for x
  proof -
    assume ret: "cmd_fill_null r = Some x"
    have "cmd_index r \<noteq> 255"
    proof (rule cmd_fill_null.raw_induct [where P = "\<lambda>r x. cmd_index r \<noteq> 255", OF _ ret])
      fix f r x
      assume IH: "\<And>r x. f r = Some x \<Longrightarrow> cmd_index r \<noteq> 255"
        and eq: "(cmd_add ''null'' ''cmd_null'' '''' 0 r \<bind>
            (\<lambda>(n_cmd, r'). if n_cmd < SCH_CMD_MAX_ENTRIES then f r' else Some r')) = Some x"
      show "cmd_index r \<noteq> 255"
      proof
        assume full: "cmd_index r = 255"
        with eq have "f r = Some x"
          by (simp add: cmd_add_full SCH_CMD_MAX_ENTRIES_def)
        with full show False using IH by blast
      qed
    qed
    with assms show False by simp
  qed
  then show ?thesis by (cases "cmd_fill_null r") auto
qed

text \<open>
  adding a command and finding it. On a ready table with a free entry, \<^verbatim>\<open>cmd_add\<close> of a name
  no entry has keeps the table ready, the new command is found under its name with what it was
  registered with, and every other lookup but that of the filler \<^verbatim>\<open>null\<close> is unchanged. On a full
  table it returns -1 and changes nothing.
\<close>

theorem cmd_add_lookup:
  assumes "repo_ready r" and "\<forall>e \<in> set (cmd_list r). ce_name e \<noteq> Some name"
    and "\<forall>i. nat (cmd_index r) \<le> i \<longrightarrow> i < 255 \<longrightarrow> cmd_list r ! i = null_entry"
  shows "\<exists>rc r'. cmd_add name func fmt n r = Some (rc, r') \<and>
     (if cmd_index r < 255
      then rc = cmd_index r + 1 \<and> repo_ready r' \<and>
        cmd_get_str name r' =
          Some (Some (entry_cmd (nat (cmd_index r)) (reg_entry (name, func, fmt, n)))) \<and>
        (\<forall>other. other \<noteq> name \<longrightarrow> other \<noteq> ''null'' \<longrightarrow>
           cmd_get_str other r' = cmd_get_str other r)
      else rc = - 1 \<and> r' = r)"
proof (cases "cmd_index r < 255")
  case False
  then show ?thesis by (simp add: cmd_add_full)
next
  case True
  let ?i = "nat (cmd_index r)" and ?e = "reg_entry (name, func, fmt, n)"
  from assms(1) True have wf: "repo_wf r" and i: "?i < length (cmd_list r)"
    by (auto simp: repo_ready_def repo_wf_def)
  from cmd_add_ok [OF wf True] obtain r' where
      r': "cmd_add name func fmt n r = Some (cmd_index r + 1, r')" "repo_wf r'"
        "cmd_list r' = (cmd_list r)[?i := ?e]"
    by blast
  have ready: "repo_ready r'"
    using assms(1) r' i by (auto simp: repo_ready_def dest!: set_update_subset_insert [THEN subsetD]
        simp del: reg_entry.simps)
  have "find_idx (\<lambda>e. ce_name e = Some name) (cmd_list r') = Some ?i"
    using assms(2) i by (auto simp: find_idx_eq_Some r'(3) simp del: reg_entry.simps)
  then have new: "cmd_get_str name r' = Some (Some (entry_cmd ?i ?e))"
    using i by (simp add: cmd_get_str_ready [OF ready] r'(3) del: reg_entry.simps)
  have old: "cmd_get_str other r' = cmd_get_str other r"
    if "other \<noteq> name" "other \<noteq> ''null''" for other
  proof -
    have null: "ce_name (cmd_list r ! ?i) = Some ''null''"
      using assms(3) True i assms(1) by (auto simp: repo_ready_def repo_wf_def)
    have same: "ce_name (cmd_list r' ! j) = Some other \<longleftrightarrow> ce_name (cmd_list r ! j) = Some other"
      if "j < length (cmd_list r)" for j
      using that \<open>other \<noteq> name\<close> \<open>other \<noteq> ''null''\<close> null i
      by (cases "j = ?i") (auto simp: r'(3) simp del: reg_entry.simps)
    have find: "find_idx (\<lambda>e. ce_name e = Some other) (cmd_list r') =
        find_idx (\<lambda>e. ce_name e = Some other) (cmd_list r)"
      by (rule find_idx_cong) (use same in \<open>auto simp: r'(3)\<close>)
    have "cmd_list r' ! k = cmd_list r ! k"
      if "find_idx (\<lambda>e. ce_name e = Some other) (cmd_list r) = Some k" for k
      using find_idx_SomeD [OF that] null \<open>other \<noteq> ''null''\<close> by (cases "k = ?i") (auto simp: r'(3))
    with find show ?thesis
      by (cases "find_idx (\<lambda>e. ce_name e = Some other) (cmd_list r)")
        (simp_all add: cmd_get_str_ready [OF ready] cmd_get_str_ready [OF assms(1)])
  qed
  show ?thesis
    using True r'(1) ready new old by auto
qed

lemma init_zero_table:
  obtains r where "cmd_repo_init True True True cmd_repo_zero = Some (CMD_OK, r)" "repo_ready r"
    "cmd_index r = 61"
    "cmd_list r = map reg_entry (core_cmds True True True) @ replicate 194 null_entry"
proof -
  have n: "length (core_cmds True True True) = 61" by code_simp
  have "length (cmd_list cmd_repo_zero) = 255" by (simp add: cmd_repo_zero_def)
  from cmd_repo_init_table [OF this refl, of True True True] show thesis
    using that by (auto simp: n)
qed

lemma init_zero_find:
  assumes "cmd_list r = map reg_entry (core_cmds True True True) @ rest"
  shows "find_idx (\<lambda>e. ce_name e = Some ''obc_debug'') (cmd_list r) = Some 1"
    "cmd_list r ! 1 = reg_entry (''obc_debug'', ''obc_debug'', ''%d'', 1)"
  using assms by (simp_all add: core_cmds_def cmd_obc_init_def)

lemma build_words:
  assumes "repo_ready r" and "w \<noteq> []" and "list_all (Not \<circ> is_space) w"
    and "list_all is_space sp" and "args = [] \<or> \<not> is_space (hd args)" and "sp = [] \<longrightarrow> args = []"
  shows "cmd_build_from_str (w @ sp @ args) r =
     Some (map_option
       (\<lambda>i. (entry_cmd i (cmd_list r ! i))\<lparr>c_params :=
              (if args = [] then None
               else Some (strncpy_bytes args (min (length args) SCH_CMD_MAX_STR_PARAMS + 1)))\<rparr>)
       (find_idx (\<lambda>e. ce_name e = Some w) (cmd_list r)))"
proof -
  note scan = sscanf_word_pos [OF assms(2-6)]
  show ?thesis
  proof (cases "find_idx (\<lambda>e. ce_name e = Some w) (cmd_list r)")
    case None
    then show ?thesis
      using assms(2) by (simp add: cmd_build_from_str_def scan cmd_get_str_ready [OF assms(1)])
  next
    case (Some i)
    show ?thesis
    proof (cases "args = []")
      case True
      then show ?thesis
        using assms(2) Some scan
        by (simp add: cmd_build_from_str_def cmd_get_str_ready [OF assms(1)]
            cmd_add_params_str_def entry_cmd_def config_defs)
    next
      case False
      then show ?thesis
        using assms(2) Some
        by (simp add: cmd_build_from_str_def scan cmd_get_str_ready [OF assms(1)]
            cmd_add_params_str_def entry_cmd_def config_defs min_def)
    qed
  qed
qed

text \<open>
  C22: building a command from text. For the text \<open>w sp args\<close> (a word, white space, anything
  that does not start with white space), \<^verbatim>\<open>cmd_build_from_str\<close> returns null exactly when no
  command is named \<open>w\<close>; otherwise it returns the first such command, and its parameters are
  null when \<open>args\<close> is empty and otherwise the block that \<^verbatim>\<open>cmd_add_params_str\<close> makes of it.
\<close>

theorem cmd_build_from_str_parses:
  assumes "repo_ready r" and "w \<noteq> []" and "list_all (Not \<circ> is_space) w"
    and "list_all is_space sp" and "args = [] \<or> \<not> is_space (hd args)" and "sp = [] \<longrightarrow> args = []"
  shows "cmd_build_from_str (w @ sp @ args) r =
     Some (map_option
       (\<lambda>i. (entry_cmd i (cmd_list r ! i))\<lparr>c_params :=
              (if args = [] then None
               else Some (strncpy_bytes args (min (length args) SCH_CMD_MAX_STR_PARAMS + 1)))\<rparr>)
       (find_idx (\<lambda>e. ce_name e = Some w) (cmd_list r)))"
  by (rule build_words [OF assms])

theorem cmd_build_from_str_parses_witness:
  "\<exists>r. cmd_repo_init True True True cmd_repo_zero = Some (CMD_OK, r) \<and>
     cmd_build_from_str ''obc_debug  7'' r =
       Some (Some \<lparr>c_id = 1, c_nparams = 1, c_fmt = Some ''%d'',
                   c_params = Some [CHR ''7'', NUL], c_function = Some ''obc_debug''\<rparr>)"
proof (rule init_zero_table)
  fix r
  assume init: "cmd_repo_init True True True cmd_repo_zero = Some (CMD_OK, r)"
    and r: "repo_ready r"
      "cmd_list r = map reg_entry (core_cmds True True True) @ replicate 194 null_entry"
  have "cmd_build_from_str (''obc_debug'' @ ''  '' @ ''7'') r =
      Some (Some \<lparr>c_id = 1, c_nparams = 1, c_fmt = Some ''%d'',
                   c_params = Some [CHR ''7'', NUL], c_function = Some ''obc_debug''\<rparr>)"
  proof (subst cmd_build_from_str_parses [OF r(1)])
    show "Some (map_option
       (\<lambda>i. (entry_cmd i (cmd_list r ! i))\<lparr>c_params :=
              (if ''7'' = [] then None
               else Some (strncpy_bytes ''7'' (min (length ''7'') SCH_CMD_MAX_STR_PARAMS + 1)))\<rparr>)
       (find_idx (\<lambda>e. ce_name e = Some ''obc_debug'') (cmd_list r))) =
      Some (Some \<lparr>c_id = 1, c_nparams = 1, c_fmt = Some ''%d'',
                   c_params = Some [CHR ''7'', NUL], c_function = Some ''obc_debug''\<rparr>)"
      unfolding init_zero_find(1) [OF r(2)] option.map init_zero_find(2) [OF r(2)]
      by (simp add: entry_cmd_def config_defs strncpy_bytes_def)
  qed (simp_all add: is_space_def)
  then show ?thesis using init by auto
qed

text \<open>
  the parameter block. Parameters of up to 248 characters can be read back unchanged from the
  block. Longer ones are not "shorted" as the log message says: the block of 249 bytes is filled
  to its end with characters and has no terminator, so that any command that reads it as a
  string reads past the allocation.
\<close>

theorem cmd_params_readable:
  assumes "args \<noteq> []" and "NUL \<notin> set args"
  shows "\<exists>b. cmd_add_params_str (Some c) args = Some (c\<lparr>c_params := Some b\<rparr>) \<and>
     cstr_of b = (if length args \<le> 248 then Some args else None)"
proof -
  let ?b = "strncpy_bytes args (min (length args) 248 + 1)"
  have "cmd_add_params_str (Some c) args = Some (c\<lparr>c_params := Some ?b\<rparr>)"
    using assms(1) by (simp add: cmd_add_params_str_def config_defs min_def)
  moreover have "cstr_of ?b = (if length args \<le> 248 then Some args else None)"
    using assms(2) by (simp add: cstr_of_strncpy cstr_of_strncpy_full min_def)
  ultimately show ?thesis by blast
qed

text \<open>
  the list of commands. \<^verbatim>\<open>cmd_save_all\<close> on a well-formed table stays inside the buffer it
  sized itself and returns the names in registration order, each followed by a line feed, as a
  terminated string.
\<close>

theorem cmd_save_all_names:
  assumes "repo_wf r" and "\<forall>e \<in> set (cmd_list r). \<forall>n. ce_name e = Some n \<longrightarrow> NUL \<notin> set n"
  shows "\<exists>b. cmd_save_all r = Some b \<and>
     cstr_of b = Some (concat (map (\<lambda>e. the (ce_name e) @ [CHR 0x0A])
                         (take (nat (cmd_index r)) (cmd_list r))))"
proof -
  let ?es = "take (nat (cmd_index r)) (cmd_list r)"
  let ?s = "concat (map (\<lambda>e. the (ce_name e) @ [CHR 0x0A]) ?es)"
  from assms(1) have le: "cmd_index r \<le> int (length (cmd_list r))" by (simp add: repo_wf_def)
  have named: "\<forall>e \<in> set ?es. named e"
    using assms(1) by (auto simp: repo_wf_def in_set_conv_nth)
  have "cmd_names_copy ?es 0 (replicate (length ?s + 1) NUL) = Some (?s @ [NUL])"
    using cmd_names_copy_ok [OF named, of "[]" 0 "replicate (length ?s) NUL" "[NUL]"]
    by (simp add: replicate_append_same)
  then have "cmd_save_all r = Some (?s @ [NUL])"
    unfolding cmd_save_all_def cmd_names_len_take [OF named] Let_def using le by simp
  moreover have "NUL \<notin> set (the (ce_name e) @ [CHR 0x0A])" if "e \<in> set ?es" for e
    using that named assms(2) by (force simp: named_def dest: in_set_takeD)
  then have "NUL \<notin> set ?s" by (simp only: set_concat set_map UN_iff image_iff) blast
  then have "cstr_of (?s @ [NUL]) = Some ?s"
    using cstr_of_terminated [of ?s "[]"] by simp
  ultimately show ?thesis by blast
qed

end
