(* ===== verification/Cmd_FP.thy ===== *)
theory Cmd_FP
  imports Repo_Data Repo_Command
begin

text \<open>
  src/system/cmdFP.c: the commands of the flight plan. A handler gets the format and the number of
  parameters it was registered with and the parameter block; its state is the storage behind the
  data repository. \<open>mktime\<close> is that of the C library for a fixed offset of the local standard time.
\<close>

section \<open>Calendar time\<close>

definition leap :: "int \<Rightarrow> bool" where
  "leap y \<longleftrightarrow> (y mod 4 = 0 \<and> y mod 100 \<noteq> 0) \<or> y mod 400 = 0"

definition month_days :: "int \<Rightarrow> int \<Rightarrow> int" where
  "month_days y m =
     [0, 31, 59, 90, 120, 151, 181, 212, 243, 273, 304, 334] ! nat m +
     (if 2 \<le> m \<and> leap y then 1 else 0)"

definition year_days :: "int \<Rightarrow> int" where
  "year_days y = 365 * (y - 1970) + ((y - 1) div 4 - (y - 1) div 100 + (y - 1) div 400) - 477"

text \<open>\<^verbatim>\<open>mktime\<close> brings every field into its range first; months count from 0, years from 1900.\<close>

definition mktime :: "int \<Rightarrow> int \<Rightarrow> int \<Rightarrow> int \<Rightarrow> int \<Rightarrow> int \<Rightarrow> int \<Rightarrow> int" where
  "mktime utc_off mday mon year hour minute sec =
     (let y = year + 1900 + mon div 12; m = mon mod 12;
          days = year_days y + month_days y m + mday - 1
      in ((days * 24 + hour) * 60 + minute) * 60 + sec - utc_off)"

section \<open>Handlers\<close>

text \<open>\<^verbatim>\<open>strncpy(args, params+next, SCH_CMD_MAX_STR_PARAMS)\<close> and the use of \<open>args\<close> as a string.\<close>

definition fp_args_of :: "char list option \<Rightarrow> nat \<Rightarrow> string option" where
  "fp_args_of params next =
     do { b \<leftarrow> params;
          p \<leftarrow> cstr_of b;
          cstr_of (strncpy_bytes (drop next p) SCH_CMD_MAX_STR_PARAMS) }"

definition cmd_rc :: "int \<Rightarrow> int" where
  "cmd_rc rc = (if rc = 0 then CMD_OK else CMD_ERROR)"

definition fp_set ::
    "'s dat_cfg \<Rightarrow> int \<Rightarrow> string \<Rightarrow> char list option \<Rightarrow> int \<Rightarrow> 's \<Rightarrow> (int \<times> 's) option" where
  "fp_set cfg utc_off fmt params nparams s =
     do { parsed \<leftarrow> parse_params SCH_CMD_MAX_STR_PARAMS fmt params (nparams - 1);
          case parsed of
            Some [AInt day, AInt month, AInt year, AInt hour, AInt minute, AInt sec,
                  AInt execs, AInt period, AStr command, APos next] \<Rightarrow>
              do { mon \<leftarrow> cint (month - 1);
                   yr \<leftarrow> cint (year - 1900);
                   args \<leftarrow> fp_args_of params next;
                   let t = mktime utc_off day mon yr hour minute sec;
                   (rc, s1) \<leftarrow> dat_set_fp cfg (v_i (of_i t)) (Some command) (Some args)
                                  execs period s;
                   Some (cmd_rc rc, s1) }
          | Some _ \<Rightarrow> None
          | None \<Rightarrow> Some (CMD_SYNTAX_ERROR, s) }"

definition fp_set_unix ::
    "'s dat_cfg \<Rightarrow> string \<Rightarrow> char list option \<Rightarrow> int \<Rightarrow> 's \<Rightarrow> (int \<times> 's) option" where
  "fp_set_unix cfg fmt params nparams s =
     do { parsed \<leftarrow> parse_params SCH_CMD_MAX_STR_PARAMS fmt params (nparams - 1);
          case parsed of
            Some [AInt t, AInt execs, AInt period, AStr command, APos next] \<Rightarrow>
              do { args \<leftarrow> fp_args_of params next;
                   (rc, s1) \<leftarrow> dat_set_fp cfg t (Some command) (Some args) execs period s;
                   Some (cmd_rc rc, s1) }
          | Some _ \<Rightarrow> None
          | None \<Rightarrow> Some (CMD_SYNTAX_ERROR, s) }"

definition fp_set_dt ::
    "'s dat_cfg \<Rightarrow> int \<Rightarrow> string \<Rightarrow> char list option \<Rightarrow> int \<Rightarrow> 's \<Rightarrow> (int \<times> 's) option" where
  "fp_set_dt cfg now fmt params nparams s =
     do { parsed \<leftarrow> parse_params SCH_CMD_MAX_STR_PARAMS fmt params (nparams - 1);
          case parsed of
            Some [AInt seconds, AInt execs, AInt period, AStr command, APos next] \<Rightarrow>
              do { args \<leftarrow> fp_args_of params next;
                   t \<leftarrow> cint (v_i (of_i now) + seconds);
                   (rc, s1) \<leftarrow> dat_set_fp cfg t (Some command) (Some args) execs period s;
                   Some (cmd_rc rc, s1) }
          | Some _ \<Rightarrow> None
          | None \<Rightarrow> Some (CMD_SYNTAX_ERROR, s) }"

definition fp_delete ::
    "'s dat_cfg \<Rightarrow> int \<Rightarrow> string \<Rightarrow> char list option \<Rightarrow> int \<Rightarrow> 's \<Rightarrow> (int \<times> 's) option" where
  "fp_delete cfg utc_off fmt params nparams s =
     do { parsed \<leftarrow> parse_params 0 fmt params nparams;
          case parsed of
            Some [AInt day, AInt month, AInt year, AInt hour, AInt minute, AInt sec] \<Rightarrow>
              do { mon \<leftarrow> cint (month - 1);
                   yr \<leftarrow> cint (year - 1900);
                   let t = mktime utc_off day mon yr hour minute sec;
                   (rc, s1) \<leftarrow> dat_del_fp cfg (v_i (of_i t)) s;
                   Some (cmd_rc rc, s1) }
          | Some _ \<Rightarrow> None
          | None \<Rightarrow> Some (CMD_SYNTAX_ERROR, s) }"

definition fp_delete_unix ::
    "'s dat_cfg \<Rightarrow> string \<Rightarrow> char list option \<Rightarrow> int \<Rightarrow> 's \<Rightarrow> (int \<times> 's) option" where
  "fp_delete_unix cfg fmt params nparams s =
     do { parsed \<leftarrow> parse_params 0 fmt params nparams;
          case parsed of
            Some [AInt t] \<Rightarrow>
              do { (rc, s1) \<leftarrow> dat_del_fp cfg t s; Some (cmd_rc rc, s1) }
          | Some _ \<Rightarrow> None
          | None \<Rightarrow> Some (CMD_SYNTAX_ERROR, s) }"

definition fp_show :: "'s dat_cfg \<Rightarrow> 's \<Rightarrow> (int \<times> fp_entry list) option" where
  "fp_show cfg s = do { (rc, shown) \<leftarrow> dat_show_fp cfg s; Some (cmd_rc rc, shown) }"

definition fp_reset :: "'s dat_cfg \<Rightarrow> 's \<Rightarrow> (int \<times> 's) option" where
  "fp_reset cfg s = do { (rc, s1) \<leftarrow> dat_reset_fp cfg s; Some (cmd_rc rc, s1) }"

definition fp_purge :: "'s dat_cfg \<Rightarrow> int \<Rightarrow> 's \<Rightarrow> (int \<times> 's) option" where
  "fp_purge cfg now s = do { (rc, s1) \<leftarrow> dat_purge_fp cfg now s; Some (cmd_rc rc, s1) }"

section \<open>Lemmas\<close>

text \<open>The text the ground station sends for \<^verbatim>\<open>fp_set_cmd_unix\<close>.\<close>

definition fp_text :: "int \<Rightarrow> int \<Rightarrow> int \<Rightarrow> string \<Rightarrow> string \<Rightarrow> string" where
  "fp_text t n p c a =
     show_int t @ '' '' @ show_int n @ '' '' @ show_int p @ '' '' @ c @ '' '' @ a"

lemma fp_text_scan:
  assumes "in_int t" "in_int n" "in_int p"
    and "c \<noteq> []" "list_all (Not \<circ> is_space) c" "a = [] \<or> \<not> is_space (hd a)"
  shows "sscanf (fp_text t n p c a) ''%d %d %d %s %n '' =
     Some (4, [AInt t, AInt n, AInt p, AStr c, APos (length (fp_text t n p c a) - length a)])"
proof -
  have fmt: "parse_fmt ''%d %d %d %s %n '' =
      [DInt, DSpace, DInt, DSpace, DInt, DSpace, DStr, DSpace, DPos, DSpace]"
    by (simp add: conversion_def is_space_def)
  show ?thesis
    unfolding sscanf_def sscanf_f_def fmt fp_text_def
    using assms by (simp add: scan_text)
qed

lemma fp_text_parse:
  assumes "in_int t" "in_int n" "in_int p"
    and "c \<noteq> []" "list_all (Not \<circ> is_space) c" "a = [] \<or> \<not> is_space (hd a)"
    and "length c < 248" "length a < 248" "NUL \<notin> set c" "NUL \<notin> set a"
  shows "\<exists>next. parse_params SCH_CMD_MAX_STR_PARAMS ''%d %d %d %s %n '' (Some (fp_text t n p c a @ [NUL])) 4 =
       Some (Some [AInt t, AInt n, AInt p, AStr c, APos next]) \<and>
     fp_args_of (Some (fp_text t n p c a @ [NUL])) next = Some a"
proof -
  let ?txt = "fp_text t n p c a"
  have "NUL \<notin> set ?txt" using assms(9,10) by (simp add: fp_text_def)
  then have str: "cstr_of (?txt @ [NUL]) = Some ?txt" by (rule cstr_of_terminated)
  have "drop (length ?txt - length a) ?txt = a"
    using drop_suffix [of "show_int t @ '' '' @ show_int n @ '' '' @ show_int p @ '' '' @ c @ '' ''" a]
    by (simp only: fp_text_def append_assoc)
  then have "fp_args_of (Some (?txt @ [NUL])) (length ?txt - length a) = Some a"
    using assms(8,10) by (simp add: fp_args_of_def str config_defs cstr_of_strncpy)
  moreover have "sscanf_f (\<lambda>_. None) ?txt ''%d %d %d %s %n '' =
      Some (4, [AInt t, AInt n, AInt p, AStr c, APos (length ?txt - length a)])"
    using fp_text_scan [OF assms(1-6)] by (simp add: sscanf_def)
  ultimately show ?thesis
    using assms(7) by (simp add: parse_params_def parse_params_f_def str config_defs)
qed

section \<open>Properties\<close>

text \<open>
  the command \<^verbatim>\<open>fp_set_cmd_unix\<close> end to end. For the text "time executions period command
  arguments" the handler, with the format it is registered with, adds exactly that entry to the
  flight plan (or fails and leaves it alone when the plan is full), and \<^verbatim>\<open>fp_del_cmd_unix\<close> with the
  same time then takes an entry of that time out again. Without parameters both report a syntax
  error and change nothing.
\<close>

theorem fp_set_unix_adds:
  assumes "fp_ready alloc tr s" and "0 \<le> t"
    and "in_int t" "in_int n" "in_int p"
    and "c \<noteq> []" "list_all (Not \<circ> is_space) c" "a = [] \<or> \<not> is_space (hd a)"
    and "length c < 248" "length a < 248" "NUL \<notin> set c" "NUL \<notin> set a"
    and "size (plan (ram_slots s)) < 255"
  shows "(\<exists>s1 s2. fp_set_unix (ram_cfg alloc tr) ''%d %d %d %s %n '' (Some (fp_text t n p c a @ [NUL])) 5 s =
         Some (CMD_OK, s1) \<and> fp_ready alloc tr s1 \<and>
       plan (ram_slots s1) = add_mset \<lparr>unixtime = t, executions = n, periodical = p,
         node = SCH_COMM_NODE, fp_cmd = Some c, fp_args = Some a\<rparr> (plan (ram_slots s)) \<and>
       fp_delete_unix (ram_cfg alloc tr) ''%d'' (Some (show_int t @ [NUL])) 1 s1 = Some (CMD_OK, s2) \<and>
       fp_ready alloc tr s2 \<and> size (plan (ram_slots s2)) = size (plan (ram_slots s))) \<and>
     fp_set_unix (ram_cfg alloc tr) ''%d %d %d %s %n '' None 5 s = Some (CMD_SYNTAX_ERROR, s) \<and>
     fp_delete_unix (ram_cfg alloc tr) ''%d'' None 1 s = Some (CMD_SYNTAX_ERROR, s)"
proof -
  let ?cfg = "ram_cfg alloc tr"
  let ?e = "\<lparr>unixtime = t, executions = n, periodical = p, node = SCH_COMM_NODE,
            fp_cmd = Some c, fp_args = Some a\<rparr>"
  have c: "ram_repo.counted alloc tr s" using assms(1) by (simp add: fp_ready_counted)
  from ram_repo.set_fp [OF c assms(2,13), of c a n p] obtain s1 where
      s1: "dat_set_fp ?cfg t (Some c) (Some a) n p s = Some (SCH_ST_OK, s1)"
        "ram_repo.counted alloc tr s1" "plan (ram_slots s1) = add_mset ?e (plan (ram_slots s))"
    by blast
  have set: "fp_set_unix ?cfg ''%d %d %d %s %n '' (Some (fp_text t n p c a @ [NUL])) 5 s =
      Some (CMD_OK, s1)"
    using fp_text_parse [OF assms(3-12)] s1(1)
    by (auto simp: fp_set_unix_def cmd_rc_def config_defs)
  have "find_idx (\<lambda>e. unixtime e = t) (ram_slots s1) \<noteq> None"
    unfolding find_time_plan [OF assms(2)] s1(3) by simp
  then obtain i where "find_idx (\<lambda>e. unixtime e = t) (ram_slots s1) = Some i" by blast
  from ram_repo.del_fp [OF s1(2) assms(2) this] obtain e s2 where
      s2: "dat_del_fp ?cfg t s1 = Some (SCH_ST_OK, s2)" "ram_repo.counted alloc tr s2"
        "plan (ram_slots s1) = add_mset e (plan (ram_slots s2))"
    by blast
  have del: "fp_delete_unix ?cfg ''%d'' (Some (show_int t @ [NUL])) 1 s1 = Some (CMD_OK, s2)"
    using s2(1) parse_int_param [OF assms(3)] by (simp add: fp_delete_unix_def cmd_rc_def config_defs)
  have "size (plan (ram_slots s1)) = size (plan (ram_slots s)) + 1"
    "size (plan (ram_slots s1)) = size (plan (ram_slots s2)) + 1"
    by (simp_all add: s1(3)) (metis s1(3) s2(3) size_add_mset Suc_inject)
  then show ?thesis
    using set del s1(2,3) s2(2)
    by (auto simp: fp_ready_counted fp_set_unix_def fp_delete_unix_def)
qed

theorem fp_set_unix_adds_witness:
  "\<exists>s s1 s2. dat_repo_init True (ram_cfg alloc_all False) ram_zero = Some s \<and>
     fp_set_unix (ram_cfg alloc_all False) ''%d %d %d %s %n '' (Some (fp_text 90 1 0 ''ping'' ''5'' @ [NUL])) 5 s =
       Some (CMD_OK, s1) \<and>
     fp_delete_unix (ram_cfg alloc_all False) ''%d'' (Some (show_int 90 @ [NUL])) 1 s1 = Some (CMD_OK, s2) \<and>
     size (plan (ram_slots s2)) = 0"
proof (rule ram_init_inv [of False])
  fix s
  assume "dat_repo_init True (ram_cfg alloc_all False) ram_zero = Some s"
    and "plan (ram_slots s) = {#}" "fp_ready alloc_all False s"
  then show ?thesis
    using fp_set_unix_adds [of alloc_all False s 90 1 0 "''ping''" "''5''"]
    by (auto simp: in_int_def is_space_def)
qed

end
