(* ===== verification/Cmd_DRP.thy ===== *)
theory Cmd_DRP
  imports Cmd_FP
begin

text \<open>
  src/system/cmdDRP.c: the commands on the data repository (status variables, payloads, the state
  before flight, the ground watchdog). Reading a decimal float and turning a float into an integer
  are the C library's and the processor's; \<open>F\<close> and \<open>f2i\<close> stand for them (\<open>f2i v = None\<close> when the
  value does not fit, which C leaves undefined). Commands that print return the lines.
\<close>

definition SCH_DRP_MAGIC :: int where [config_defs]: "SCH_DRP_MAGIC = 1010"
definition MAX_VAR_NAME :: nat where [config_defs]: "MAX_VAR_NAME = 24"

section \<open>Handlers\<close>

definition drp_execute_before_flight ::
    "'s dat_cfg \<Rightarrow> int \<Rightarrow> string \<Rightarrow> char list option \<Rightarrow> int \<Rightarrow> 's \<Rightarrow> (int \<times> 's) option" where
  "drp_execute_before_flight cfg now fmt params nparams s =
     do { parsed \<leftarrow> parse_params 0 fmt params nparams;
          case parsed of
            Some [AInt magic] \<Rightarrow>
              if magic \<noteq> SCH_DRP_MAGIC then Some (CMD_SYNTAX_ERROR, s)
              else
                do { (_, s1) \<leftarrow> dat_reset_status_vars cfg s;
                     (r1, s2) \<leftarrow> dat_set_system_var cfg dat_rtc_date_time (v_i (of_i now)) s1;
                     (r2, s3) \<leftarrow> dat_delete_memory_sections cfg s2;
                     (r3, s4) \<leftarrow> dat_reset_fp cfg s3;
                     rc \<leftarrow> cint (r1 + r2 + r3);
                     Some (if rc = 0 then CMD_OK else CMD_ERROR, s4) }
          | Some _ \<Rightarrow> None
          | None \<Rightarrow> Some (CMD_SYNTAX_ERROR, s) }"

definition drp_reset_payload ::
    "'s dat_cfg \<Rightarrow> string \<Rightarrow> char list option \<Rightarrow> int \<Rightarrow> 's \<Rightarrow> (int \<times> 's) option" where
  "drp_reset_payload cfg fmt params nparams s =
     do { parsed \<leftarrow> parse_params 0 fmt params nparams;
          case parsed of
            Some [AInt payload, AInt magic] \<Rightarrow>
              if payload \<ge> last_sensor \<or> magic \<noteq> SCH_DRP_MAGIC then Some (CMD_SYNTAX_ERROR, s)
              else do { (rc, s1) \<leftarrow> dat_delete_payload cfg payload s;
                        Some (if rc = SCH_ST_OK then CMD_OK else CMD_ERROR, s1) }
          | Some _ \<Rightarrow> None
          | None \<Rightarrow> Some (CMD_SYNTAX_ERROR, s) }"

text \<open>The magic number is read and not compared.\<close>

definition drp_reset_status ::
    "'s dat_cfg \<Rightarrow> string \<Rightarrow> char list option \<Rightarrow> int \<Rightarrow> 's \<Rightarrow> (int \<times> 's) option" where
  "drp_reset_status cfg fmt params nparams s =
     do { parsed \<leftarrow> parse_params 0 fmt params nparams;
          case parsed of
            Some _ \<Rightarrow>
              do { (rc, s1) \<leftarrow> dat_reset_status_vars cfg s;
                   Some (if rc = SCH_ST_OK then CMD_OK else CMD_ERROR, s1) }
          | None \<Rightarrow> Some (CMD_SYNTAX_ERROR, s) }"

fun print_vars_loop ::
    "(value32 \<Rightarrow> string) \<Rightarrow> 's dat_cfg \<Rightarrow> dat_sys_var list \<Rightarrow> 's \<Rightarrow> string list option" where
  "print_vars_loop show_f cfg [] s = Some []"
| "print_vars_loop show_f cfg (var # vars) s =
     do { value \<leftarrow> dat_get_status_var cfg (sv_address var) s;
          rest \<leftarrow> print_vars_loop show_f cfg vars s;
          Some (dat_print_system_var show_f (var\<lparr>sv_value := value\<rparr>) # rest) }"

definition system_vars_header :: string where
  "system_vars_header = ''idx, '' @ pad_right 20 ''name'' @ '', value, type'' @ [CHR 0x0D, CHR 0x0A]"

definition drp_print_system_vars ::
    "(value32 \<Rightarrow> string) \<Rightarrow> 's dat_cfg \<Rightarrow> 's \<Rightarrow> (int \<times> string list) option" where
  "drp_print_system_vars show_f cfg s =
     do { ls \<leftarrow> print_vars_loop show_f cfg dat_status_list s;
          Some (CMD_OK, system_vars_header # ls) }"

text \<open>The value of a variable from a float argument, by the type of the variable.\<close>

definition var_value :: "(value32 \<Rightarrow> int option) \<Rightarrow> char \<Rightarrow> value32 \<Rightarrow> value32 option" where
  "var_value f2i ty v = (if ty = CHR ''f'' then Some v else do { i \<leftarrow> f2i v; Some (of_i i) })"

definition drp_update_sys_var_idx ::
    "float_scan \<Rightarrow> (value32 \<Rightarrow> int option) \<Rightarrow> 's dat_cfg \<Rightarrow> string \<Rightarrow> char list option \<Rightarrow> int \<Rightarrow> 's \<Rightarrow>
     (int \<times> 's) option" where
  "drp_update_sys_var_idx F f2i cfg fmt params nparams s =
     do { parsed \<leftarrow> parse_params_f F 0 fmt params nparams;
          case parsed of
            Some [AInt address, AFloat v] \<Rightarrow>
              let var_address = address mod 2 ^ 32
              in if var_address < dat_status_last_address then
                   do { let variable_def = dat_get_status_var_def var_address;
                        variable \<leftarrow> var_value f2i (sv_type variable_def) v;
                        (rc, s1) \<leftarrow> dat_set_status_var cfg var_address variable s;
                        Some (cmd_rc rc, s1) }
                 else Some (CMD_ERROR, s)
          | Some _ \<Rightarrow> None
          | None \<Rightarrow> Some (CMD_SYNTAX_ERROR, s) }"

definition drp_update_sys_var_name ::
    "float_scan \<Rightarrow> (value32 \<Rightarrow> int option) \<Rightarrow> 's dat_cfg \<Rightarrow> string \<Rightarrow> char list option \<Rightarrow> int \<Rightarrow> 's \<Rightarrow>
     (int \<times> 's) option" where
  "drp_update_sys_var_name F f2i cfg fmt params nparams s =
     (case params of
        None \<Rightarrow> Some (CMD_SYNTAX_ERROR, s)
      | Some b \<Rightarrow>
          do { p \<leftarrow> cstr_of b;
               if length p > MAX_VAR_NAME then Some (CMD_SYNTAX_ERROR, s)
               else
                 do { parsed \<leftarrow> parse_params_f F MAX_VAR_NAME fmt params nparams;
                      case parsed of
                        Some [AStr name, AFloat v] \<Rightarrow>
                          (case dat_get_status_var_def_name (Some name) of
                             Inl _ \<Rightarrow> Some (CMD_ERROR, s)
                           | Inr variable_def \<Rightarrow>
                               do { variable \<leftarrow> var_value f2i (sv_type variable_def) v;
                                    (rc, s1) \<leftarrow> dat_set_status_var cfg (sv_address variable_def)
                                                  variable s;
                                    Some (cmd_rc rc, s1) })
                      | Some _ \<Rightarrow> None
                      | None \<Rightarrow> Some (CMD_SYNTAX_ERROR, s) } })"

definition drp_get_sys_var_name ::
    "(value32 \<Rightarrow> string) \<Rightarrow> 's dat_cfg \<Rightarrow> string \<Rightarrow> char list option \<Rightarrow> int \<Rightarrow> 's \<Rightarrow>
     (int \<times> string list) option" where
  "drp_get_sys_var_name show_f cfg fmt params nparams s =
     (case params of
        None \<Rightarrow> Some (CMD_SYNTAX_ERROR, [])
      | Some b \<Rightarrow>
          do { p \<leftarrow> cstr_of b;
               if length p > MAX_VAR_NAME then Some (CMD_SYNTAX_ERROR, [])
               else
                 do { parsed \<leftarrow> parse_params MAX_VAR_NAME fmt params nparams;
                      case parsed of
                        Some [AStr name] \<Rightarrow>
                          (case dat_get_status_var_def_name (Some name) of
                             Inl _ \<Rightarrow> Some (CMD_ERROR, [])
                           | Inr variable_def \<Rightarrow>
                               do { variable \<leftarrow> dat_get_status_var cfg (sv_address variable_def) s;
                                    Some (CMD_OK, [dat_print_system_var show_f
                                            (variable_def\<lparr>sv_value := variable\<rparr>)]) })
                      | Some _ \<Rightarrow> None
                      | None \<Rightarrow> Some (CMD_SYNTAX_ERROR, []) } })"

definition drp_update_hours_alive ::
    "'s dat_cfg \<Rightarrow> string \<Rightarrow> char list option \<Rightarrow> int \<Rightarrow> 's \<Rightarrow> (int \<times> 's) option" where
  "drp_update_hours_alive cfg fmt params nparams s =
     do { parsed \<leftarrow> parse_params 0 fmt params nparams;
          case parsed of
            Some [AInt v] \<Rightarrow>
              do { current \<leftarrow> dat_get_system_var cfg dat_obc_hrs_alive s;
                   new \<leftarrow> cint (current + v);
                   (rc, s1) \<leftarrow> dat_set_system_var cfg dat_obc_hrs_alive new s;
                   current2 \<leftarrow> dat_get_system_var cfg dat_obc_hrs_wo_reset s1;
                   new2 \<leftarrow> cint (current2 + v);
                   (rc2, s2) \<leftarrow> dat_set_system_var cfg dat_obc_hrs_wo_reset new2 s1;
                   total \<leftarrow> cint (rc + rc2);
                   Some (if total = 0 then CMD_OK else CMD_ERROR, s2) }
          | Some _ \<Rightarrow> None
          | None \<Rightarrow> Some (CMD_SYNTAX_ERROR, s) }"

definition drp_clear_gnd_wdt :: "'s dat_cfg \<Rightarrow> 's \<Rightarrow> (int \<times> 's) option" where
  "drp_clear_gnd_wdt cfg s =
     do { (_, s1) \<leftarrow> dat_set_system_var cfg dat_obc_sw_wdt 0 s; Some (CMD_OK, s1) }"

section \<open>Lemmas\<close>

context status_repo
begin

lemma print_vars:
  assumes "inv s" and "\<forall>v \<in> set vs. 0 \<le> sv_address v \<and> sv_address v < 17"
  shows "print_vars_loop show_f cfg vs s =
     Some (map (\<lambda>v. dat_print_system_var show_f
             (v\<lparr>sv_value := vote (triple_wr cfg) (vars s) (nat (sv_address v))\<rparr>)) vs)"
  using assms(2)
proof (induction vs)
  case (Cons v vs)
  then have "dat_get_status_var cfg (sv_address v) s =
      Some (vote (triple_wr cfg) (vars s) (nat (sv_address v)))"
    using get_var [OF assms(1), of "nat (sv_address v)"] by (simp add: nat_less_iff)
  with Cons show ?case by simp
qed simp

lemma hours_alive:
  assumes "inv s" and "in_int v"
    and "in_int (sys s dat_obc_hrs_alive + v)" and "in_int (sys s dat_obc_hrs_wo_reset + v)"
  shows "\<exists>s'. drp_update_hours_alive cfg ''%d'' (Some (show_int v @ [NUL])) 1 s = Some (CMD_OK, s') \<and>
     inv s' \<and> sys s' dat_obc_hrs_alive = sys s dat_obc_hrs_alive + v \<and>
     sys s' dat_obc_hrs_wo_reset = sys s dat_obc_hrs_wo_reset + v \<and>
     (\<forall>j. 0 \<le> j \<longrightarrow> j < 17 \<longrightarrow> j \<noteq> dat_obc_hrs_alive \<longrightarrow> j \<noteq> dat_obc_hrs_wo_reset \<longrightarrow>
        sys s' j = sys s j)"
proof -
  have a: "0 \<le> dat_obc_hrs_alive" "dat_obc_hrs_alive < 17" "0 \<le> dat_obc_hrs_wo_reset"
      "dat_obc_hrs_wo_reset < 17" "dat_obc_hrs_alive \<noteq> dat_obc_hrs_wo_reset"
    by (simp_all add: addr_defs)
  obtain s1 where s1: "dat_set_system_var cfg dat_obc_hrs_alive
        (sys s dat_obc_hrs_alive + v) s = Some (SCH_ST_OK, s1)" "inv s1"
      "\<And>j. 0 \<le> j \<Longrightarrow> j < 17 \<Longrightarrow> sys s1 j =
         (if dat_obc_hrs_alive = j then sys s dat_obc_hrs_alive + v else sys s j)"
    using set_sys [OF assms(1) a(1,2) assms(3)] by metis
  have same: "sys s1 dat_obc_hrs_wo_reset = sys s dat_obc_hrs_wo_reset"
    using s1(3) [OF a(3,4)] a(5) by simp
  obtain s2 where s2: "dat_set_system_var cfg dat_obc_hrs_wo_reset
        (sys s dat_obc_hrs_wo_reset + v) s1 = Some (SCH_ST_OK, s2)" "inv s2"
      "\<And>j. 0 \<le> j \<Longrightarrow> j < 17 \<Longrightarrow> sys s2 j =
         (if dat_obc_hrs_wo_reset = j then sys s dat_obc_hrs_wo_reset + v else sys s1 j)"
    using set_sys [OF s1(2) a(3,4) assms(4)] by metis
  have "drp_update_hours_alive cfg ''%d'' (Some (show_int v @ [NUL])) 1 s = Some (CMD_OK, s2)"
    using get_sys [OF assms(1) a(1,2)] get_sys [OF s1(2) a(3,4)] s1(1) s2(1) same assms(3,4)
      parse_int_param [OF assms(2)]
    by (simp add: drp_update_hours_alive_def SCH_ST_OK_def in_int_def)
  then show ?thesis
    using s2(2,3) s1(3) a by auto
qed

end

lemma status_list_member:
  assumes "v \<in> set dat_status_list"
  shows "0 \<le> sv_address v" "sv_address v < 17" "sv_name v \<noteq> []"
    "list_all (Not \<circ> is_space) (sv_name v)" "NUL \<notin> set (sv_name v)"
    "dat_get_status_var_def_name (Some (sv_name v)) = Inr v"
proof -
  have addr: "sv_address v \<in> {0..<17}"
    using assms dat_status_list_addresses(3) by (auto simp: addr_defs)
  then show "0 \<le> sv_address v" "sv_address v < 17" by simp_all
  have "list_all (\<lambda>v. sv_name v \<noteq> [] \<and> list_all (Not \<circ> is_space) (sv_name v) \<and>
      NUL \<notin> set (sv_name v)) dat_status_list" by code_simp
  then show "sv_name v \<noteq> []" "list_all (Not \<circ> is_space) (sv_name v)" "NUL \<notin> set (sv_name v)"
    using assms by (auto simp: list_all_iff)
  show "dat_get_status_var_def_name (Some (sv_name v)) = Inr v"
  proof (cases "find_idx (\<lambda>w. sv_name w = sv_name v) dat_status_list")
    case None
    then show ?thesis using assms by (auto simp: find_idx_eq_None)
  next
    case (Some i)
    then have "dat_status_list ! i = v"
      using find_idx_SomeD [OF Some] assms dat_status_list_addresses(2)
      by (metis distinct_map inj_onD nth_mem)
    with Some show ?thesis by (simp add: dat_get_status_var_def_name_def)
  qed
qed

lemma name_value_parse:
  assumes "nm \<noteq> []" "list_all (Not \<circ> is_space) nm" "NUL \<notin> set nm"
    and "x \<noteq> []" "\<not> is_space (hd x)" "NUL \<notin> set x"
    and "F x = Some (w, [])" and "length nm + 1 + length x \<le> 24"
  shows "parse_params_f F MAX_VAR_NAME ''%s %f'' (Some (nm @ '' '' @ x @ [NUL])) 2 =
     Some (Some [AStr nm, AFloat w])"
proof -
  have fmt: "parse_fmt ''%s %f'' = [DStr, DSpace, DFloat]"
    by (simp add: conversion_def is_space_def)
  have str: "cstr_of (nm @ '' '' @ x @ [NUL]) = Some (nm @ '' '' @ x)"
    using cstr_of_terminated [of "nm @ '' '' @ x" "[]"] assms(3,6) by simp
  have "skip_ws x = x" using assms(5) by simp
  then have "sscanf_f F (nm @ '' '' @ x) ''%s %f'' = Some (2, [AStr nm, AFloat w])"
    unfolding sscanf_f_def fmt using assms(1,2,4,7) by (simp add: scan_text)
  then show ?thesis
    using str assms(4,8) by (cases x) (auto simp: parse_params_f_def config_defs)
qed

section \<open>Properties\<close>

text \<open>
  \<^verbatim>\<open>drp_set_var_name\<close>. For every variable of the table and a number the C library reads
  as \<open>w\<close>, the command stores \<open>w\<close> itself in a float variable and the integer it converts to in any
  other, returns \<^verbatim>\<open>CMD_OK\<close>, and leaves every other variable as it was.
\<close>

theorem drp_set_var_name_stores:
  assumes "ram_inv data_map (n_copies tr) s" and "v \<in> set dat_status_list"
    and "x \<noteq> []" "\<not> is_space (hd x)" "NUL \<notin> set x" "F x = Some (w, [])"
    and "length (sv_name v) + 1 + length x \<le> 24" and "f2i w = Some k"
  shows "\<exists>s'. drp_update_sys_var_name F f2i (ram_cfg alloc tr) ''%s %f''
         (Some (sv_name v @ '' '' @ x @ [NUL])) 2 s = Some (CMD_OK, s') \<and>
     dat_get_status_var (ram_cfg alloc tr) (sv_address v) s' =
       Some (if sv_type v = CHR ''f'' then w else of_i k) \<and>
     (\<forall>j. 0 \<le> j \<longrightarrow> j < 17 \<longrightarrow> j \<noteq> sv_address v \<longrightarrow>
        dat_get_status_var (ram_cfg alloc tr) j s' = dat_get_status_var (ram_cfg alloc tr) j s)"
proof -
  let ?cfg = "ram_cfg alloc tr" and ?i = "nat (sv_address v)"
  note v = status_list_member [OF assms(2)]
  let ?val = "if sv_type v = CHR ''f'' then w else of_i k"
  have i: "?i < 17" using v(1,2) by simp
  obtain s' where s': "dat_set_status_var ?cfg (int ?i) ?val s = Some (SCH_ST_OK, s')"
      "ram_inv data_map (n_copies tr) s'"
      "\<And>j. j < 17 \<Longrightarrow> vote (triple_wr ?cfg) (ram_vars s') j =
         (if ?i = j then ?val else vote (triple_wr ?cfg) (ram_vars s) j)"
    using ram_repo.set_var_vote [OF assms(1) i, of alloc ?val] by metis
  have str: "cstr_of (sv_name v @ '' '' @ x @ [NUL]) = Some (sv_name v @ '' '' @ x)"
    using cstr_of_terminated [of "sv_name v @ '' '' @ x" "[]"] v(5) assms(5) by simp
  have "drp_update_sys_var_name F f2i ?cfg ''%s %f'' (Some (sv_name v @ '' '' @ x @ [NUL])) 2 s =
      Some (CMD_OK, s')"
    using name_value_parse [where nm = "sv_name v" and x = x and F = F and w = w, OF v(3-5) assms(3-7)] v(1,6) str s'(1) assms(7,8)
    by (cases "sv_type v = CHR ''f''")
      (simp_all add: drp_update_sys_var_name_def var_value_def MAX_VAR_NAME_def cmd_rc_def SCH_ST_OK_def)
  moreover have "dat_get_status_var ?cfg (sv_address v) s' = Some ?val"
    using ram_repo.get_var [OF s'(2) i, of alloc] s'(3) [OF i] v(1) by simp
  moreover have "dat_get_status_var ?cfg j s' = dat_get_status_var ?cfg j s"
    if "0 \<le> j" "j < 17" "j \<noteq> sv_address v" for j
    using ram_repo.get_var [OF s'(2), of "nat j" alloc] ram_repo.get_var [OF assms(1), of "nat j" alloc]
      s'(3) [of "nat j"] that v(1) by (auto simp: nat_less_iff)
  ultimately show ?thesis by blast
qed

text \<open>
  the protection of the critical commands. Without parameters, or with a number other than
  \<^verbatim>\<open>SCH_DRP_MAGIC\<close>, \<^verbatim>\<open>drp_ebf\<close> reports a syntax error and changes nothing. \<^verbatim>\<open>drp_reset_status\<close>,
  documented with the same protection, reads its number but accepts any: it resets every variable.
\<close>

theorem drp_magic_protection:
  assumes "ram_inv data_map (n_copies tr) s" and "in_int m" and "m \<noteq> 1010"
  shows "drp_execute_before_flight (ram_cfg alloc tr) now ''%d'' None 1 s = Some (CMD_SYNTAX_ERROR, s) \<and>
     drp_execute_before_flight (ram_cfg alloc tr) now ''%d'' (Some (show_int m @ [NUL])) 1 s =
       Some (CMD_SYNTAX_ERROR, s) \<and>
     (\<exists>s'. drp_reset_status (ram_cfg alloc tr) ''%d'' (Some (show_int m @ [NUL])) 1 s =
         Some (CMD_OK, s') \<and>
       (\<forall>j < 17. dat_get_status_var (ram_cfg alloc tr) (int j) s' =
          Some (sv_value (dat_get_status_var_def (int j)))))"
proof -
  let ?cfg = "ram_cfg alloc tr"
  note parse = parse_int_param [OF assms(2), of 0]
  have "\<exists>s'. dat_reset_status_vars ?cfg s = Some (SCH_ST_OK, s') \<and>
      ram_inv data_map (n_copies tr) s' \<and> () = () \<and>
      (\<forall>j < 17. vote (triple_wr ?cfg) (ram_vars s') j = sv_value (dat_get_status_var_def (int j)))"
    using assms(1) by (rule ram_repo.reset_status [where f = "\<lambda>_. ()", rotated]) simp
  then obtain s' where s': "dat_reset_status_vars ?cfg s = Some (SCH_ST_OK, s')"
      "ram_inv data_map (n_copies tr) s'"
      "\<forall>j < 17. vote tr (ram_vars s') j = sv_value (dat_get_status_var_def (int j))"
    by auto
  then show ?thesis
    using parse assms(3) ram_repo.get_var [OF s'(2), of _ alloc]
    by (simp add: drp_execute_before_flight_def drp_reset_status_def SCH_DRP_MAGIC_def)
qed

text \<open>
  \<^verbatim>\<open>drp_add_hrs_alive\<close> adds its argument to the hours alive and the hours without reset, as long
  as neither sum overflows, and changes no other variable.
\<close>

theorem drp_update_hours_alive_adds:
  assumes "ram_inv data_map (n_copies tr) s" and "in_int v"
    and "dat_get_system_var (ram_cfg alloc tr) dat_obc_hrs_alive s = Some a" and "in_int (a + v)"
    and "dat_get_system_var (ram_cfg alloc tr) dat_obc_hrs_wo_reset s = Some b" and "in_int (b + v)"
  shows "\<exists>s'. drp_update_hours_alive (ram_cfg alloc tr) ''%d'' (Some (show_int v @ [NUL])) 1 s =
       Some (CMD_OK, s') \<and>
     dat_get_system_var (ram_cfg alloc tr) dat_obc_hrs_alive s' = Some (a + v) \<and>
     dat_get_system_var (ram_cfg alloc tr) dat_obc_hrs_wo_reset s' = Some (b + v) \<and>
     (\<forall>j. 0 \<le> j \<longrightarrow> j < 17 \<longrightarrow> j \<noteq> dat_obc_hrs_alive \<longrightarrow> j \<noteq> dat_obc_hrs_wo_reset \<longrightarrow>
        dat_get_system_var (ram_cfg alloc tr) j s' = dat_get_system_var (ram_cfg alloc tr) j s)"
proof -
  let ?cfg = "ram_cfg alloc tr"
  have h: "0 \<le> dat_obc_hrs_alive" "dat_obc_hrs_alive < 17" "0 \<le> dat_obc_hrs_wo_reset"
      "dat_obc_hrs_wo_reset < 17" by (simp_all add: addr_defs)
  note get = ram_repo.get_sys [of tr _ _ alloc]
  have ab: "ram_repo.sys alloc tr s dat_obc_hrs_alive = a"
      "ram_repo.sys alloc tr s dat_obc_hrs_wo_reset = b"
    using get [OF assms(1) h(1,2)] get [OF assms(1) h(3,4)] assms(3,5) by simp_all
  from ram_repo.hours_alive [OF assms(1,2), of alloc] assms(4,6) ab obtain s' where
      s': "drp_update_hours_alive ?cfg ''%d'' (Some (show_int v @ [NUL])) 1 s = Some (CMD_OK, s')"
        "ram_inv data_map (n_copies tr) s'" "ram_repo.sys alloc tr s' dat_obc_hrs_alive = a + v"
        "ram_repo.sys alloc tr s' dat_obc_hrs_wo_reset = b + v"
        "\<forall>j. 0 \<le> j \<longrightarrow> j < 17 \<longrightarrow> j \<noteq> dat_obc_hrs_alive \<longrightarrow> j \<noteq> dat_obc_hrs_wo_reset \<longrightarrow>
           ram_repo.sys alloc tr s' j = ram_repo.sys alloc tr s j"
    by auto
  then show ?thesis
    using get [OF s'(2)] get [OF assms(1)] h by (intro exI [of _ s']) simp
qed

end
