(* ===== verification/Os_Queue.thy ===== *)
theory Os_Queue
  imports C_Prelude
begin

text \<open>
  The OS layer's bounded queue (src/os/linux/pthread_queue.c, the file of src/os/sim is the
  same) and the deadline arithmetic of its timed waits and of the semaphores
  (src/os/linux/osSemphr.c). The queue carries the commands between the tasks.

  A slot of the buffer is \<open>None\<close> until it is written (\<^verbatim>\<open>malloc\<close> leaves it indeterminate); a
  \<^verbatim>\<open>memcpy\<close> of one item is one slot. The mutex makes the part between lock and unlock atomic;
  \<^verbatim>\<open>pthread_cond_timedwait\<close> releases it, so a waiting call is given the list of its wake-ups:
  what the wait returned and the queue the other threads left.
\<close>

section \<open>Model\<close>

record 'a os_queue =
  q_buffer :: "'a option list"
  q_size :: nat
  q_items :: nat
  q_in :: nat
  q_out :: nat

definition PTHREAD_QUEUE_ERROR :: int where [c_defs]: "PTHREAD_QUEUE_ERROR = 0"
definition PTHREAD_QUEUE_EMPTY :: int where [c_defs]: "PTHREAD_QUEUE_EMPTY = 0"
definition PTHREAD_QUEUE_FULL :: int where [c_defs]: "PTHREAD_QUEUE_FULL = 0"
definition PTHREAD_QUEUE_OK :: int where [c_defs]: "PTHREAD_QUEUE_OK = 1"

text \<open>
  \<^verbatim>\<open>os_pthread_queue_create\<close>: the three flags say whether the two allocations and the
  initialisation of the mutex and the condition variables succeed; \<open>None\<close> is the null pointer
  the code returns.
\<close>

definition os_pthread_queue_create ::
  "bool \<Rightarrow> bool \<Rightarrow> bool \<Rightarrow> nat \<Rightarrow> 'a os_queue option" where
  "os_pthread_queue_create q_alloc buf_alloc prims_ok len =
     (if q_alloc then
        if buf_alloc then
          if prims_ok then
            Some \<lparr>q_buffer = replicate len None, q_size = len, q_items = 0, q_in = 0, q_out = 0\<rparr>
          else None
        else None
      else None)"

record timespec =
  tv_sec :: int
  tv_nsec :: int

text \<open>The instant a \<^verbatim>\<open>timespec\<close> denotes, in nanoseconds.\<close>

definition ts_ns :: "timespec \<Rightarrow> int" where
  "ts_ns ts = tv_sec ts * 1000000000 + tv_nsec ts"

definition timeout_sec :: "32 word \<Rightarrow> 32 word" where
  "timeout_sec timeout = timeout div 1000"

definition timeout_nsec :: "32 word \<Rightarrow> 32 word" where
  "timeout_nsec timeout = (timeout - 1000 * timeout_sec timeout) * 1000000"

definition queue_deadline :: "timespec \<Rightarrow> 32 word \<Rightarrow> timespec" where
  "queue_deadline ts timeout =
     (let sec = uint (timeout_sec timeout); nsec = uint (timeout_nsec timeout)
      in \<lparr>tv_sec = tv_sec ts + sec + (if tv_nsec ts + nsec > 1000000000 then 1 else 0),
          tv_nsec = (tv_nsec ts + nsec) mod 1000000000\<rparr>)"

definition semaphore_deadline :: "timespec \<Rightarrow> 32 word \<Rightarrow> timespec" where
  "semaphore_deadline ts timeout =
     (let sec = uint (timeout_sec timeout); nsec = uint (timeout_nsec timeout)
      in \<lparr>tv_sec = tv_sec ts + sec + (if tv_nsec ts + nsec \<ge> 1000000000 then 1 else 0),
          tv_nsec = (tv_nsec ts + nsec) mod 1000000000\<rparr>)"

text \<open>\<^verbatim>\<open>osSemaphoreTake\<close>: only a finite timeout reads the clock and waits with a deadline.\<close>

definition portMAX_DELAY :: "32 word" where
  "portMAX_DELAY = 0xffffffff"

definition osSemaphoreTake ::
  "timespec option \<Rightarrow> int \<Rightarrow> (timespec \<Rightarrow> int) \<Rightarrow> 32 word \<Rightarrow> int" where
  "osSemaphoreTake clock lock_ret timedlock_ret timeout =
     (if timeout = portMAX_DELAY then (if lock_ret \<noteq> 0 then 2 else 1)
      else case clock of
             None \<Rightarrow> 2
           | Some ts \<Rightarrow>
               (if timedlock_ret (semaphore_deadline ts timeout) \<noteq> 0 then 2 else 1))"

text \<open>The two critical sections: copy one item in, copy one item out.\<close>

definition queue_put :: "'a \<Rightarrow> 'a os_queue \<Rightarrow> 'a os_queue option" where
  "queue_put v q =
     do { buf \<leftarrow> arr_set (q_buffer q) (int (q_in q)) (Some v);
          require (q_size q \<noteq> 0);
          Some (q\<lparr>q_buffer := buf, q_items := q_items q + 1,
                  q_in := (q_in q + 1) mod q_size q\<rparr>) }"

definition queue_take :: "'a os_queue \<Rightarrow> ('a \<times> 'a os_queue) option" where
  "queue_take q =
     do { slot \<leftarrow> arr_get (q_buffer q) (int (q_out q));
          v \<leftarrow> slot;
          require (q_size q \<noteq> 0);
          Some (v, q\<lparr>q_items := q_items q - 1, q_out := (q_out q + 1) mod q_size q\<rparr>) }"

datatype 'a queue_call =
    QBlocked "'a os_queue"
  | QReturn int "'a option" "'a os_queue"

fun os_pthread_queue_send_locked ::
  "'a \<Rightarrow> 'a os_queue \<Rightarrow> (int \<times> 'a os_queue) list \<Rightarrow> 'a queue_call option" where
  "os_pthread_queue_send_locked v q wakes =
     (if q_items q = q_size q then
        case wakes of
          [] \<Rightarrow> Some (QBlocked q)
        | (ret, q') # ws \<Rightarrow>
            if ret \<noteq> 0 then Some (QReturn PTHREAD_QUEUE_FULL None q')
            else os_pthread_queue_send_locked v q' ws
      else do { q' \<leftarrow> queue_put v q; Some (QReturn PTHREAD_QUEUE_OK None q') })"

fun os_pthread_queue_receive_locked ::
  "'a os_queue \<Rightarrow> (int \<times> 'a os_queue) list \<Rightarrow> 'a queue_call option" where
  "os_pthread_queue_receive_locked q wakes =
     (if q_items q = 0 then
        case wakes of
          [] \<Rightarrow> Some (QBlocked q)
        | (ret, q') # ws \<Rightarrow>
            if ret \<noteq> 0 then Some (QReturn PTHREAD_QUEUE_EMPTY None q')
            else os_pthread_queue_receive_locked q' ws
      else do { (v, q') \<leftarrow> queue_take q; Some (QReturn PTHREAD_QUEUE_OK (Some v) q') })"

definition os_pthread_queue_send ::
  "bool \<Rightarrow> 'a \<Rightarrow> 'a os_queue \<Rightarrow> (int \<times> 'a os_queue) list \<Rightarrow> 'a queue_call option" where
  "os_pthread_queue_send clock_fails v q wakes =
     (if clock_fails then Some (QReturn PTHREAD_QUEUE_ERROR None q)
      else os_pthread_queue_send_locked v q wakes)"

definition os_pthread_queue_receive ::
  "bool \<Rightarrow> 'a os_queue \<Rightarrow> (int \<times> 'a os_queue) list \<Rightarrow> 'a queue_call option" where
  "os_pthread_queue_receive clock_fails q wakes =
     (if clock_fails then Some (QReturn PTHREAD_QUEUE_ERROR None q)
      else os_pthread_queue_receive_locked q wakes)"

section \<open>Specification: a bounded first-in first-out list\<close>

definition queue_contents :: "'a os_queue \<Rightarrow> 'a list" where
  "queue_contents q =
     map (\<lambda>k. the (q_buffer q ! ((q_out q + k) mod q_size q))) [0..<q_items q]"

definition queue_invar :: "'a os_queue \<Rightarrow> bool" where
  "queue_invar q \<longleftrightarrow>
     0 < q_size q \<and> length (q_buffer q) = q_size q \<and> q_items q \<le> q_size q \<and>
     q_out q < q_size q \<and> q_in q = (q_out q + q_items q) mod q_size q \<and>
     (\<forall>k < q_items q. q_buffer q ! ((q_out q + k) mod q_size q) \<noteq> None)"

text \<open>
  What a send that met the queues in \<open>seen\<close> may end with: still waiting, given up with the queue
  as another thread left it, or done with the item behind the contents of one of them.
\<close>

definition send_outcome :: "'a \<Rightarrow> 'a os_queue set \<Rightarrow> 'a queue_call \<Rightarrow> bool" where
  "send_outcome v seen r \<longleftrightarrow>
     (case r of
        QBlocked q' \<Rightarrow> q' \<in> seen \<and> q_items q' = q_size q'
      | QReturn rc x q' \<Rightarrow>
          rc = PTHREAD_QUEUE_FULL \<and> q' \<in> seen \<or>
          rc = PTHREAD_QUEUE_OK \<and> queue_invar q' \<and>
            (\<exists>w \<in> seen. q_items w < q_size w \<and> queue_contents q' = queue_contents w @ [v]))"

text \<open>
  Threads that share one queue. A thread calls \<^verbatim>\<open>os_pthread_queue_send\<close> or
  \<^verbatim>\<open>os_pthread_queue_receive\<close> (the clock may fail for it), which returns at once or leaves the
  thread waiting on the condition variable with the queue it saw; a wake-up makes the \<open>i\<close>-th
  waiting call go on inside its loop, with what \<^verbatim>\<open>pthread_cond_timedwait\<close> returned (0, or
  \<^verbatim>\<open>ETIMEDOUT\<close>) and the queue as it is by then. The trace logs what the calls that returned
  \<^verbatim>\<open>PTHREAD_QUEUE_OK\<close> sent and received.
\<close>

datatype 'a queue_op = Send 'a | Receive

datatype 'a queue_event =
    Call bool "'a queue_op"
  | Wake nat int

record 'a queue_trace =
  t_queue :: "'a os_queue"
  t_waiting :: "('a queue_op \<times> 'a os_queue) list"
  t_sent :: "'a list"
  t_received :: "'a list"

fun queue_op_start :: "bool \<Rightarrow> 'a queue_op \<Rightarrow> 'a os_queue \<Rightarrow> 'a queue_call option" where
  "queue_op_start clock_fails (Send v) q = os_pthread_queue_send clock_fails v q []"
| "queue_op_start clock_fails Receive q = os_pthread_queue_receive clock_fails q []"

fun queue_op_wake ::
  "'a queue_op \<Rightarrow> 'a os_queue \<Rightarrow> int \<Rightarrow> 'a os_queue \<Rightarrow> 'a queue_call option" where
  "queue_op_wake (Send v) seen ret q = os_pthread_queue_send_locked v seen [(ret, q)]"
| "queue_op_wake Receive seen ret q = os_pthread_queue_receive_locked seen [(ret, q)]"

definition op_sent :: "'a queue_op \<Rightarrow> int \<Rightarrow> 'a list" where
  "op_sent x rc =
     (if rc = PTHREAD_QUEUE_OK then (case x of Send v \<Rightarrow> [v] | Receive \<Rightarrow> []) else [])"

definition op_received :: "'a queue_op \<Rightarrow> int \<Rightarrow> 'a option \<Rightarrow> 'a list" where
  "op_received x rc got =
     (if rc = PTHREAD_QUEUE_OK
      then (case x of Send v \<Rightarrow> [] | Receive \<Rightarrow> (case got of None \<Rightarrow> [] | Some v \<Rightarrow> [v]))
      else [])"

fun queue_note :: "'a queue_op \<Rightarrow> 'a queue_call \<Rightarrow> 'a queue_trace \<Rightarrow> 'a queue_trace" where
  "queue_note x (QBlocked q) t = t\<lparr>t_queue := q, t_waiting := t_waiting t @ [(x, q)]\<rparr>"
| "queue_note x (QReturn rc got q) t =
     t\<lparr>t_queue := q, t_sent := t_sent t @ op_sent x rc,
       t_received := t_received t @ op_received x rc got\<rparr>"

fun queue_event_step :: "'a queue_event \<Rightarrow> 'a queue_trace \<Rightarrow> 'a queue_trace option" where
  "queue_event_step (Call clock_fails x) t =
     do { r \<leftarrow> queue_op_start clock_fails x (t_queue t); Some (queue_note x r t) }"
| "queue_event_step (Wake i ret) t =
     (if i < length (t_waiting t) then
        let (x, seen) = t_waiting t ! i in
        do { r \<leftarrow> queue_op_wake x seen ret (t_queue t);
             Some (queue_note x r
               (t\<lparr>t_waiting := take i (t_waiting t) @ drop (Suc i) (t_waiting t)\<rparr>)) }
      else Some t)"

fun queue_events :: "'a queue_event list \<Rightarrow> 'a queue_trace \<Rightarrow> 'a queue_trace option" where
  "queue_events [] t = Some t"
| "queue_events (e # es) t = do { t' \<leftarrow> queue_event_step e t; queue_events es t' }"

definition queue_trace_start :: "'a os_queue \<Rightarrow> 'a queue_trace" where
  "queue_trace_start q = \<lparr>t_queue = q, t_waiting = [], t_sent = [], t_received = []\<rparr>"

text \<open>
  The contract of a bounded first-in first-out list: where the guards of the calls let a put or a
  take through, it is defined and moves one item at the right end. A history that was "received,
  then what the queue holds" stays one.
\<close>

locale fifo =
  fixes put :: "'a \<Rightarrow> 'q \<Rightarrow> 'q option"
    and take_one :: "'q \<Rightarrow> ('a \<times> 'q) option"
    and count :: "'q \<Rightarrow> nat"
    and cap :: nat
    and contents :: "'q \<Rightarrow> 'a list"
    and invar :: "'q \<Rightarrow> bool"
  assumes count_contents: "invar q \<Longrightarrow> count q = length (contents q)"
    and put_ok: "invar q \<Longrightarrow> count q \<noteq> cap \<Longrightarrow>
      \<exists>q'. put v q = Some q' \<and> invar q' \<and> contents q' = contents q @ [v]"
    and take_ok: "invar q \<Longrightarrow> count q \<noteq> 0 \<Longrightarrow>
      \<exists>v q'. take_one q = Some (v, q') \<and> invar q' \<and> contents q = v # contents q'"
begin

definition history :: "'a list \<Rightarrow> 'a list \<Rightarrow> 'q \<Rightarrow> bool" where
  "history sent received q \<longleftrightarrow> invar q \<and> sent = received @ contents q"

lemma put_history:
  assumes "history sent received q" and "count q \<noteq> cap"
  obtains q' where "put v q = Some q'" and "history (sent @ [v]) received q'"
  using put_ok [of q v] assms by (auto simp: history_def)

lemma take_history:
  assumes "history sent received q" and "count q \<noteq> 0"
  obtains v q' where "take_one q = Some (v, q')" and "history sent (received @ [v]) q'"
  using take_ok [of q] assms by (auto simp: history_def)

end

section \<open>The ring buffer implements the list\<close>

lemma length_queue_contents [simp]: "length (queue_contents q) = q_items q"
  by (simp add: queue_contents_def)

lemma ring_slots_distinct:
  fixes n :: nat
  assumes "j < k" and "k < n"
  shows "(b + j) mod n \<noteq> (b + k) mod n"
proof
  assume "(b + j) mod n = (b + k) mod n"
  then have "(b + k) mod n = (b + j) mod n" by simp
  then have "n dvd (b + k) - (b + j)"
    using assms(1) by (subst (asm) mod_eq_dvd_iff_nat) auto
  then have "n dvd k - j" by simp
  then show False
    using assms by (auto dest: dvd_imp_le)
qed

lemma queue_put_ok:
  assumes inv: "queue_invar q" and room: "q_items q \<noteq> q_size q"
  shows "\<exists>q'. queue_put v q = Some q' \<and> queue_invar q' \<and>
           queue_contents q' = queue_contents q @ [v] \<and> q_size q' = q_size q"
proof -
  let ?n = "q_size q" and ?m = "q_items q" and ?o = "q_out q"
  from inv have n: "0 < ?n" and len: "length (q_buffer q) = ?n" and inn: "q_in q = (?o + ?m) mod ?n"
    and m: "?m < ?n" and o: "?o < ?n"
    using room by (auto simp: queue_invar_def)
  define q' where "q' = q\<lparr>q_buffer := (q_buffer q)[q_in q := Some v], q_items := ?m + 1,
                  q_in := (q_in q + 1) mod ?n\<rparr>"
  have lt: "q_in q < ?n" using n by (simp add: inn)
  have put: "queue_put v q = Some q'"
    using lt len n by (simp add: queue_put_def q'_def)
  have other: "q_buffer q' ! ((?o + k) mod ?n) = q_buffer q ! ((?o + k) mod ?n)" if "k < ?m" for k
    using ring_slots_distinct [OF that m, of ?o] by (simp add: q'_def inn)
  have new: "q_buffer q' ! ((?o + ?m) mod ?n) = Some v"
    using lt len by (simp add: q'_def inn)
  have "queue_contents q' = queue_contents q @ [v]"
    using other new by (simp add: queue_contents_def q'_def)
  moreover have "queue_invar q'"
    unfolding queue_invar_def
  proof (intro conjI allI impI)
    fix k assume "k < q_items q'"
    then have "k < ?m \<or> k = ?m" by (auto simp: q'_def)
    then show "q_buffer q' ! ((q_out q' + k) mod q_size q') \<noteq> None"
      using other new inv by (auto simp: q'_def queue_invar_def)
  qed (use n len m o in \<open>simp_all add: q'_def inn mod_Suc_eq mod_simps\<close>)
  ultimately show ?thesis
    using put by (auto simp: q'_def)
qed

lemma queue_take_ok:
  assumes inv: "queue_invar q" and items: "q_items q \<noteq> 0"
  shows "\<exists>v q'. queue_take q = Some (v, q') \<and> queue_invar q' \<and>
           queue_contents q = v # queue_contents q' \<and> q_size q' = q_size q"
proof -
  let ?n = "q_size q" and ?m = "q_items q" and ?o = "q_out q"
  from inv have n: "0 < ?n" and len: "length (q_buffer q) = ?n" and o: "?o < ?n"
    and inn: "q_in q = (?o + ?m) mod ?n" and m: "?m \<le> ?n"
    and full: "\<forall>k < ?m. q_buffer q ! ((?o + k) mod ?n) \<noteq> None"
    by (auto simp: queue_invar_def)
  from full items o obtain v where v: "q_buffer q ! ?o = Some v"
    by (force dest: spec [of _ 0])
  define q' where "q' = q\<lparr>q_items := ?m - 1, q_out := (?o + 1) mod ?n\<rparr>"
  have take: "queue_take q = Some (v, q')"
    using o len n v by (simp add: queue_take_def q'_def)
  have shift: "((?o + 1) mod ?n + k) mod ?n = (?o + Suc k) mod ?n" for k
    by (simp add: mod_add_left_eq)
  have upt: "[0..<?m] = 0 # map Suc [0..<?m - 1]"
    using items by (cases ?m) (simp_all add: map_Suc_upt upt_conv_Cons del: upt_Suc)
  have "queue_contents q = v # queue_contents q'"
    using v o shift by (simp add: queue_contents_def upt q'_def comp_def)
  moreover have "queue_invar q'"
    unfolding queue_invar_def
  proof (intro conjI allI impI)
    fix k assume "k < q_items q'"
    then have "Suc k < ?m" by (auto simp: q'_def)
    then show "q_buffer q' ! ((q_out q' + k) mod q_size q') \<noteq> None"
      using full [rule_format, of "Suc k"] shift by (simp add: q'_def)
  next
    show "q_in q' = (q_out q' + q_items q') mod q_size q'"
      using shift [of "?m - 1"] items by (simp add: q'_def inn)
  qed (use n len m o in \<open>simp_all add: q'_def\<close>)
  ultimately show ?thesis
    using take by (auto simp: q'_def)
qed

interpretation pq: fifo queue_put queue_take q_items n queue_contents
    "\<lambda>q. queue_invar q \<and> q_size q = n"
  for n :: nat
proof unfold_locales
  fix q v assume "queue_invar q \<and> q_size q = n" and "q_items q \<noteq> n"
  then show "\<exists>q'. queue_put v q = Some q' \<and> (queue_invar q' \<and> q_size q' = n) \<and>
      queue_contents q' = queue_contents q @ [v]"
    using queue_put_ok [of q v] by auto
next
  fix q assume "queue_invar q \<and> q_size q = n" and "q_items q \<noteq> 0"
  then show "\<exists>v q'. queue_take q = Some (v, q') \<and> (queue_invar q' \<and> q_size q' = n) \<and>
      queue_contents q = v # queue_contents q'"
    using queue_take_ok [of q] by auto
qed simp

lemma queue_create_invar:
  assumes "0 < len" and "os_pthread_queue_create a b c len = Some q"
  shows "queue_invar q" and "queue_contents q = []" and "q_size q = len"
  using assms by (auto simp: os_pthread_queue_create_def queue_invar_def queue_contents_def
      split: if_splits)

lemma send_outcome_mono:
  "send_outcome v seen r \<Longrightarrow> seen \<subseteq> seen' \<Longrightarrow> send_outcome v seen' r"
  by (auto simp: send_outcome_def split: queue_call.splits)

lemma uint_timeout_sec: "uint (timeout_sec t) = uint t div 1000"
  by (simp add: timeout_sec_def uint_div)

lemma uint_timeout_nsec: "uint (timeout_nsec t) = (uint t mod 1000) * 1000000"
proof -
  have "t - 1000 * timeout_sec t = t mod 1000"
    by (simp add: timeout_sec_def minus_mult_div_eq_mod)
  then have "uint (timeout_nsec t) = (uint t mod 1000) * 1000000 mod 2 ^ 32"
    by (simp add: timeout_nsec_def uint_word_ariths(3) uint_mod)
  moreover have "(uint t mod 1000) * 1000000 < 2 ^ 32" "0 \<le> (uint t mod 1000) * 1000000"
    by simp_all
  ultimately show ?thesis by simp
qed

lemma timeout_split:
  "uint (timeout_sec t) * 1000000000 + uint (timeout_nsec t) = uint t * 1000000"
proof -
  have "uint t = uint t div 1000 * 1000 + uint t mod 1000" by simp
  then show ?thesis
    unfolding uint_timeout_sec uint_timeout_nsec by linarith
qed

lemma timeout_nsec_bound: "uint (timeout_nsec t) < 1000000000"
  by (simp add: uint_timeout_nsec)

section \<open>Threads that share the queue\<close>

fun queue_op_waits :: "'a queue_op \<Rightarrow> 'a os_queue \<Rightarrow> bool" where
  "queue_op_waits (Send v) q \<longleftrightarrow> q_items q = q_size q"
| "queue_op_waits Receive q \<longleftrightarrow> q_items q = 0"

definition trace_inv :: "nat \<Rightarrow> 'a queue_trace \<Rightarrow> bool" where
  "trace_inv n t \<longleftrightarrow> pq.history n (t_sent t) (t_received t) (t_queue t) \<and>
     (\<forall>(x, seen) \<in> set (t_waiting t). queue_op_waits x seen)"

text \<open>
  The body of a call from the test of its loop on, on the queue of the moment: it blocks where
  the guard holds, and otherwise moves one item.
\<close>

lemma queue_op_body:
  assumes inv: "trace_inv n t"
  shows "\<exists>r. queue_op_start False x (t_queue t) = Some r \<and> trace_inv n (queue_note x r t)"
proof (cases x)
  case (Send v)
  show ?thesis
  proof (cases "q_items (t_queue t) = q_size (t_queue t)")
    case True
    with inv Send show ?thesis
      by (auto simp: os_pthread_queue_send_def trace_inv_def)
  next
    case False
    from inv have h: "pq.history n (t_sent t) (t_received t) (t_queue t)"
      by (simp add: trace_inv_def)
    then have "q_items (t_queue t) \<noteq> n"
      using False by (simp add: pq.history_def)
    with h obtain q' where "queue_put v (t_queue t) = Some q'"
        "pq.history n (t_sent t @ [v]) (t_received t) q'"
      by (rule pq.put_history)
    with inv Send False show ?thesis
      by (auto simp: os_pthread_queue_send_def trace_inv_def op_sent_def op_received_def)
  qed
next
  case Receive
  show ?thesis
  proof (cases "q_items (t_queue t) = 0")
    case True
    with inv Receive show ?thesis
      by (auto simp: os_pthread_queue_receive_def trace_inv_def)
  next
    case False
    from inv have "pq.history n (t_sent t) (t_received t) (t_queue t)"
      by (simp add: trace_inv_def)
    then obtain v q' where "queue_take (t_queue t) = Some (v, q')"
        "pq.history n (t_sent t) (t_received t @ [v]) q'"
      using False by (rule pq.take_history)
    with inv Receive False show ?thesis
      by (auto simp: os_pthread_queue_receive_def trace_inv_def op_sent_def op_received_def)
  qed
qed

text \<open>A wake-up re-tests the guard on the queue of the moment, or gives up without touching it.\<close>

lemma queue_op_wake_eq:
  assumes "queue_op_waits x seen"
  shows "queue_op_wake x seen ret q =
    (if ret = 0 then queue_op_start False x q else Some (QReturn PTHREAD_QUEUE_FULL None q))"
  using assms
  by (cases x) (auto simp: os_pthread_queue_send_def os_pthread_queue_receive_def c_defs)

lemma queue_note_failed:
  "trace_inv n t \<Longrightarrow> trace_inv n (queue_note x (QReturn PTHREAD_QUEUE_FULL None (t_queue t)) t)"
  by (simp add: trace_inv_def op_sent_def op_received_def c_defs)

lemma queue_event_step_inv:
  assumes inv: "trace_inv n t"
  shows "\<exists>t'. queue_event_step e t = Some t' \<and> trace_inv n t'"
proof (cases e)
  case (Call cf x)
  show ?thesis
  proof (cases cf)
    case True
    then have "queue_op_start cf x (t_queue t) = Some (QReturn PTHREAD_QUEUE_FULL None (t_queue t))"
      by (cases x) (simp_all add: os_pthread_queue_send_def os_pthread_queue_receive_def c_defs)
    with Call queue_note_failed [OF inv] show ?thesis by simp
  next
    case False
    with Call queue_op_body [OF inv, of x] show ?thesis by auto
  qed
next
  case (Wake i ret)
  show ?thesis
  proof (cases "i < length (t_waiting t)")
    case True
    obtain x seen where w: "t_waiting t ! i = (x, seen)" by (cases "t_waiting t ! i")
    with True have "(x, seen) \<in> set (t_waiting t)" by (metis nth_mem)
    with inv have waits: "queue_op_waits x seen" by (auto simp: trace_inv_def)
    define u where "u = t\<lparr>t_waiting := take i (t_waiting t) @ drop (Suc i) (t_waiting t)\<rparr>"
    have u: "trace_inv n u"
      using inv by (auto simp: trace_inv_def u_def dest: in_set_takeD in_set_dropD)
    have "\<exists>r. queue_op_wake x seen ret (t_queue u) = Some r \<and> trace_inv n (queue_note x r u)"
      using queue_op_body [OF u, of x] queue_note_failed [OF u, of x]
      by (cases "ret = 0") (simp_all add: queue_op_wake_eq [OF waits])
    then show ?thesis
      using Wake True w by (auto simp: u_def)
  qed (use Wake inv in simp)
qed

lemma queue_events_inv:
  "trace_inv n t \<Longrightarrow> \<exists>t'. queue_events es t = Some t' \<and> trace_inv n t'"
proof (induction es arbitrary: t)
  case (Cons e es)
  from queue_event_step_inv [OF Cons.prems, of e] Cons.IH show ?case by auto
qed simp

section \<open>Properties\<close>

text \<open>
  C9: the queue is a bounded FIFO for all the threads that use it. Start from a queue that
  \<^verbatim>\<open>os_pthread_queue_create\<close> returned and let any threads call \<^verbatim>\<open>os_pthread_queue_send\<close> and
  \<^verbatim>\<open>os_pthread_queue_receive\<close> in any interleaving: calls that return at once, calls that wait, any
  wake-ups in any order (with room or without, and also spurious), timeouts, and failures of the
  clock. Every access stays inside the buffer and reads a slot that was written; the items that
  successful receives returned, followed by the items still in the buffer, are exactly the items of
  the successful sends, in the order in which those sends went through; and the capacity is never
  exceeded.
\<close>

theorem os_queue_fifo:
  assumes "os_pthread_queue_create a b c len = Some q" and "0 < len"
  shows "\<exists>t. queue_events evs (queue_trace_start q) = Some t \<and>
           t_sent t = t_received t @ queue_contents (t_queue t) \<and>
           length (queue_contents (t_queue t)) \<le> len"
proof -
  note q = queue_create_invar [OF assms(2,1)]
  then have "trace_inv len (queue_trace_start q)"
    by (simp add: trace_inv_def pq.history_def queue_trace_start_def)
  then obtain t where run: "queue_events evs (queue_trace_start q) = Some t"
      and inv: "trace_inv len t"
    using queue_events_inv by blast
  from inv have "queue_invar (t_queue t) \<and> q_size (t_queue t) = len"
    by (auto simp: trace_inv_def pq.history_def)
  then have "length (queue_contents (t_queue t)) \<le> len"
    by (auto simp: queue_invar_def)
  with run inv show ?thesis
    by (auto simp: trace_inv_def pq.history_def)
qed

theorem os_queue_fifo_witness:
  "\<exists>t. queue_events
      [Call False Receive, Call False (Send (5::nat)), Call False (Send 7), Wake 0 0,
       Call False (Send 9), Call False (Send 11), Wake 0 110, Call True (Send 13),
       Call False Receive, Call False (Send 15)]
      (queue_trace_start (the (os_pthread_queue_create True True True 2))) = Some t \<and>
      t_sent t = t_received t @ queue_contents (t_queue t) \<and>
      length (queue_contents (t_queue t)) \<le> 2"
  by (rule os_queue_fifo [of True True True]) (simp_all add: os_pthread_queue_create_def)

text \<open>
  a call with wake-ups. Whatever queue the other threads leave behind at each wake-up, as
  long as it is a well-formed one, \<^verbatim>\<open>os_pthread_queue_send\<close> is memory safe and ends in one of
  three ways: it is still waiting on a full queue, it reports failure without having touched the
  queue, or it reports success and has appended the item behind everything the queue held when
  the call got past the wait.
\<close>

theorem os_queue_send_outcomes:
  assumes "queue_invar q" and "\<forall>(ret, w) \<in> set wakes. queue_invar w"
  shows "\<exists>r. os_pthread_queue_send cf v q wakes = Some r \<and>
             send_outcome v (insert q (snd ` set wakes)) r"
  using assms
proof (induction v q wakes rule: os_pthread_queue_send_locked.induct)
  case (1 v q wakes)
  show ?case
  proof (cases "cf \<or> q_items q \<noteq> q_size q")
    case True
    then consider "cf" | "\<not> cf" "q_items q \<noteq> q_size q" by blast
    then show ?thesis
    proof cases
      case 1
      then show ?thesis by (simp add: os_pthread_queue_send_def send_outcome_def c_defs)
    next
      case 2
      moreover from 2 \<open>queue_invar q\<close> have "q_items q < q_size q"
        by (simp add: queue_invar_def)
      ultimately show ?thesis
        using queue_put_ok [OF \<open>queue_invar q\<close>, of v]
        by (auto simp: os_pthread_queue_send_def send_outcome_def c_defs)
    qed
  next
    case False
    show ?thesis
    proof (cases wakes)
      case Nil
      with False show ?thesis by (simp add: os_pthread_queue_send_def send_outcome_def)
    next
      case (Cons w ws)
      obtain ret q' where w: "w = (ret, q')" by (cases w)
      show ?thesis
      proof (cases "ret = 0")
        case True
        have eq: "os_pthread_queue_send cf v q wakes = os_pthread_queue_send cf v q' ws"
          using False True Cons w by (simp add: os_pthread_queue_send_def)
        have "snd ` set wakes = insert q' (snd ` set ws)" by (simp add: Cons w)
        moreover have "queue_invar q'" "\<forall>(ret, w) \<in> set ws. queue_invar w"
          using "1.prems"(2) Cons w by auto
        ultimately have "\<exists>r. os_pthread_queue_send cf v q' ws = Some r \<and>
            send_outcome v (insert q' (snd ` set ws)) r"
          using "1.IH" [OF _ Cons w [symmetric]] False True by simp
        then show ?thesis
          using eq by (auto simp: Cons w intro: send_outcome_mono)
      next
        case ret: False
        with False Cons w show ?thesis by (simp add: os_pthread_queue_send_def send_outcome_def c_defs)
      qed
    qed
  qed
qed

theorem os_queue_send_outcomes_witness:
  "\<exists>r. os_pthread_queue_send False (3::nat) (the (os_pthread_queue_create True True True 1))
         [(0, the (os_pthread_queue_create True True True 1))] = Some r \<and>
     send_outcome 3 {the (os_pthread_queue_create True True True 1)} r"
  using os_queue_send_outcomes
    [of "the (os_pthread_queue_create True True True 1)"
        "[(0, the (os_pthread_queue_create True True True 1))]" False "3::nat"]
  by (simp add: os_pthread_queue_create_def queue_invar_def)

text \<open>
  the deadline of a timed wait. \<^verbatim>\<open>osSemaphoreTake\<close> computes exactly "now plus the timeout",
  as a normalised \<^verbatim>\<open>timespec\<close>. The queue operations compute the same deadline except when the
  nanoseconds add up to one second exactly: there their carry test is strict, the second is
  lost and the deadline is one second early (before the call, for a timeout below a second).
\<close>

theorem deadlines:
  assumes "0 \<le> tv_nsec ts" and "tv_nsec ts < 1000000000"
  shows "ts_ns (semaphore_deadline ts t) = ts_ns ts + uint t * 1000000 \<and>
    0 \<le> tv_nsec (semaphore_deadline ts t) \<and> tv_nsec (semaphore_deadline ts t) < 1000000000 \<and>
    (if tv_nsec ts + uint (timeout_nsec t) = 1000000000
     then ts_ns (queue_deadline ts t) = ts_ns ts + uint t * 1000000 - 1000000000
     else queue_deadline ts t = semaphore_deadline ts t)"
proof -
  let ?n = "tv_nsec ts + uint (timeout_nsec t)"
  have range: "0 \<le> ?n" "?n < 2 * 1000000000"
    using assms(1,2) timeout_nsec_bound [of t] by simp_all
  have mod: "?n mod 1000000000 = (if ?n \<ge> 1000000000 then ?n - 1000000000 else ?n)"
    using range mod_pos_pos_trivial [of "?n - 1000000000" 1000000000] by simp
  have split: "uint t * 1000000 = uint (timeout_sec t) * 1000000000 + uint (timeout_nsec t)"
    by (simp add: timeout_split)
  have "ts_ns (semaphore_deadline ts t) = ts_ns ts + uint t * 1000000"
    unfolding ts_ns_def semaphore_deadline_def Let_def split timespec.simps mod by simp
  moreover have "ts_ns (queue_deadline ts t) = ts_ns ts + uint t * 1000000 - 1000000000"
    if "?n = 1000000000"
    unfolding ts_ns_def queue_deadline_def Let_def split timespec.simps that using that by simp
  moreover have "queue_deadline ts t = semaphore_deadline ts t" if "?n \<noteq> 1000000000"
    using that by (simp add: queue_deadline_def semaphore_deadline_def Let_def)
  moreover have "0 \<le> tv_nsec (semaphore_deadline ts t)"
      "tv_nsec (semaphore_deadline ts t) < 1000000000"
    by (simp_all add: semaphore_deadline_def Let_def)
  ultimately show ?thesis by simp
qed

end
