(* ===== verification/Tasks.thy ===== *)
theory Tasks
  imports Cmd_DRP Os_Queue
begin

text \<open>
  The command pipeline: src/system/taskDispatcher.c and taskExecuter.c, started with their three
  queues by mainFS.c. Every task sends commands to \<^verbatim>\<open>dispatcher_queue\<close> (the macro \<^verbatim>\<open>cmd_send\<close>); the
  dispatcher counts a command, passes it to the executer and waits for its result; the executer
  runs the function of the command.

  The two loops are cut at every operation another task can see (a queue operation, a read or a
  write of a status variable, a call of a command); \<open>disp_pc\<close> and \<open>exec_pc\<close> are the places
  between. \<open>exec\<close> is the call through the function pointer of a command. The histories \<open>h_sent\<close>,
  \<open>h_done\<close> and \<open>h_seen\<close> record what was sent, what was run with which result, and the results the
  dispatcher has received; the code does not read them.

  The tasks wait with \<^verbatim>\<open>portMAX_DELAY\<close>. The steps take that as waiting until the operation can be
  done, as FreeRTOS does. The Linux queue turns it into a deadline 0xffffffff ms (49.7 days) ahead; a
  wait that long, and a failure of \<^verbatim>\<open>clock_gettime\<close> (both make the operation return without having
  been done), are outside this model. The first receive of each loop checks its result; the other
  queue operations do not, so there the tasks would go on with an old result or a lost command.
\<close>

section \<open>State\<close>

datatype disp_pc =
    DIdle                  \<comment> \<open>in \<^verbatim>\<open>osQueueReceive(dispatcher_queue)\<close>\<close>
  | DGot cmd               \<comment> \<open>a command, to be counted\<close>
  | DRead cmd int          \<comment> \<open>the counter has been read\<close>
  | DCounted cmd           \<comment> \<open>in \<^verbatim>\<open>osQueueSend(executer_cmd_queue)\<close>\<close>
  | DWait                  \<comment> \<open>in \<^verbatim>\<open>osQueueReceive(executer_stat_queue)\<close>\<close>
  | DFail                  \<comment> \<open>a failed command, to be counted\<close>
  | DFailRead int          \<comment> \<open>the counter of failures has been read\<close>

datatype exec_pc = EIdle | EGot cmd | EDone int

record 's pipe =
  p_store :: 's
  p_disp :: disp_pc
  p_exec :: exec_pc
  p_dq :: "cmd os_queue"
  p_cq :: "cmd os_queue"
  p_sq :: "int os_queue"
  h_sent :: "cmd list"
  h_done :: "(cmd \<times> int) list"
  h_seen :: "int list"

definition SCH_CMD_QUEUE_LEN :: nat where [config_defs]: "SCH_CMD_QUEUE_LEN = 50"

text \<open>\<^verbatim>\<open>suchai_main\<close>: the queues as they are created, both tasks at their first blocking call.\<close>

definition pipe_start :: "'s \<Rightarrow> 's pipe option" where
  "pipe_start s =
     do { dq \<leftarrow> os_pthread_queue_create True True True SCH_CMD_QUEUE_LEN;
          sq \<leftarrow> os_pthread_queue_create True True True 1;
          cq \<leftarrow> os_pthread_queue_create True True True 1;
          Some \<lparr>p_store = s, p_disp = DIdle, p_exec = EIdle, p_dq = dq, p_cq = cq, p_sq = sq,
                h_sent = [], h_done = [], h_seen = []\<rparr> }"

definition check_if_executable :: "cmd \<Rightarrow> int" where
  "check_if_executable new_cmd = 1"

section \<open>Steps\<close>

inductive dispatcher_step :: "'s dat_cfg \<Rightarrow> 's pipe \<Rightarrow> 's pipe \<Rightarrow> bool" for cfg where
  disp_receive:
    "p_disp p = DIdle \<Longrightarrow> q_items (p_dq p) \<noteq> 0 \<Longrightarrow> queue_take (p_dq p) = Some (c, dq) \<Longrightarrow>
     check_if_executable c \<noteq> 0 \<Longrightarrow>
     dispatcher_step cfg p (p\<lparr>p_disp := DGot c, p_dq := dq\<rparr>)"
| disp_read:
    "p_disp p = DGot c \<Longrightarrow> dat_get_system_var cfg dat_obc_executed_cmds (p_store p) = Some n \<Longrightarrow>
     dispatcher_step cfg p (p\<lparr>p_disp := DRead c n\<rparr>)"
| disp_count:
    "p_disp p = DRead c n \<Longrightarrow> cint (n + 1) = Some n' \<Longrightarrow>
     dat_set_system_var cfg dat_obc_executed_cmds n' (p_store p) = Some (rc, s') \<Longrightarrow>
     dispatcher_step cfg p (p\<lparr>p_disp := DCounted c, p_store := s'\<rparr>)"
| disp_send:
    "p_disp p = DCounted c \<Longrightarrow> q_items (p_cq p) \<noteq> q_size (p_cq p) \<Longrightarrow>
     queue_put c (p_cq p) = Some cq \<Longrightarrow>
     dispatcher_step cfg p (p\<lparr>p_disp := DWait, p_cq := cq\<rparr>)"
| disp_result:
    "p_disp p = DWait \<Longrightarrow> q_items (p_sq p) \<noteq> 0 \<Longrightarrow> queue_take (p_sq p) = Some (r, sq) \<Longrightarrow>
     dispatcher_step cfg p
       (p\<lparr>p_disp := (if r \<noteq> CMD_OK then DFail else DIdle), p_sq := sq, h_seen := h_seen p @ [r]\<rparr>)"
| disp_fail_read:
    "p_disp p = DFail \<Longrightarrow> dat_get_system_var cfg dat_obc_failed_cmds (p_store p) = Some n \<Longrightarrow>
     dispatcher_step cfg p (p\<lparr>p_disp := DFailRead n\<rparr>)"
| disp_fail_count:
    "p_disp p = DFailRead n \<Longrightarrow> cint (n + 1) = Some n' \<Longrightarrow>
     dat_set_system_var cfg dat_obc_failed_cmds n' (p_store p) = Some (rc, s') \<Longrightarrow>
     dispatcher_step cfg p (p\<lparr>p_disp := DIdle, p_store := s'\<rparr>)"

inductive executer_step ::
    "(cmd \<Rightarrow> 's \<Rightarrow> (int \<times> 's) option) \<Rightarrow> 's pipe \<Rightarrow> 's pipe \<Rightarrow> bool" for exec where
  exec_receive:
    "p_exec p = EIdle \<Longrightarrow> q_items (p_cq p) \<noteq> 0 \<Longrightarrow> queue_take (p_cq p) = Some (c, cq) \<Longrightarrow>
     executer_step exec p (p\<lparr>p_exec := EGot c, p_cq := cq\<rparr>)"
| exec_run:
    "p_exec p = EGot c \<Longrightarrow> exec c (p_store p) = Some (r, s') \<Longrightarrow>
     executer_step exec p (p\<lparr>p_exec := EDone r, p_store := s', h_done := h_done p @ [(c, r)]\<rparr>)"
| exec_send:
    "p_exec p = EDone r \<Longrightarrow> q_items (p_sq p) \<noteq> q_size (p_sq p) \<Longrightarrow>
     queue_put r (p_sq p) = Some sq \<Longrightarrow>
     executer_step exec p (p\<lparr>p_exec := EIdle, p_sq := sq\<rparr>)"

text \<open>
  What the other tasks do to this state: send a command when there is room, and use the data
  repository, where they keep the invariant of the storage and do not write the two counters.
\<close>

definition quiet :: "'s dat_cfg \<Rightarrow> ('s \<Rightarrow> bool) \<Rightarrow> 's \<Rightarrow> 's \<Rightarrow> bool" where
  "quiet cfg okst s s' \<longleftrightarrow> (okst s \<longrightarrow> okst s') \<and>
     dat_get_system_var cfg dat_obc_executed_cmds s' = dat_get_system_var cfg dat_obc_executed_cmds s \<and>
     dat_get_system_var cfg dat_obc_failed_cmds s' = dat_get_system_var cfg dat_obc_failed_cmds s"

inductive others_step :: "'s dat_cfg \<Rightarrow> ('s \<Rightarrow> bool) \<Rightarrow> 's pipe \<Rightarrow> 's pipe \<Rightarrow> bool" for cfg okst where
  cmd_send:
    "q_items (p_dq p) \<noteq> q_size (p_dq p) \<Longrightarrow> queue_put c (p_dq p) = Some dq \<Longrightarrow>
     others_step cfg okst p (p\<lparr>p_dq := dq, h_sent := h_sent p @ [c]\<rparr>)"
| other_data:
    "quiet cfg okst (p_store p) s' \<Longrightarrow> others_step cfg okst p (p\<lparr>p_store := s'\<rparr>)"

definition pipe_step ::
    "'s dat_cfg \<Rightarrow> (cmd \<Rightarrow> 's \<Rightarrow> (int \<times> 's) option) \<Rightarrow> 's pipe \<Rightarrow> 's pipe \<Rightarrow> bool" where
  "pipe_step cfg exec p p' \<longleftrightarrow> dispatcher_step cfg p p' \<or> executer_step exec p p'"

inductive pipe_reach ::
    "'s dat_cfg \<Rightarrow> (cmd \<Rightarrow> 's \<Rightarrow> (int \<times> 's) option) \<Rightarrow> ('s \<Rightarrow> bool) \<Rightarrow> 's \<Rightarrow> 's pipe \<Rightarrow> bool"
  for cfg exec okst s0 where
  reach_start: "pipe_start s0 = Some p \<Longrightarrow> pipe_reach cfg exec okst s0 p"
| reach_task: "pipe_reach cfg exec okst s0 p \<Longrightarrow> pipe_step cfg exec p p' \<Longrightarrow>
     pipe_reach cfg exec okst s0 p'"
| reach_others: "pipe_reach cfg exec okst s0 p \<Longrightarrow> others_step cfg okst p p' \<Longrightarrow>
     pipe_reach cfg exec okst s0 p'"

inductive_cases dispatcher_stepE: "dispatcher_step cfg p p'"
inductive_cases executer_stepE: "executer_step exec p p'"
inductive_cases others_stepE: "others_step cfg okst p p'"

section \<open>The place of every command\<close>

text \<open>The command between the two ends of the pipeline.\<close>

definition in_flight :: "'s pipe \<Rightarrow> cmd list" where
  "in_flight p =
     (case p_disp p of
        DGot c \<Rightarrow> [c] | DRead c n \<Rightarrow> [c] | DCounted c \<Rightarrow> [c]
      | DWait \<Rightarrow> (case p_exec p of EGot c \<Rightarrow> [c] | EDone r \<Rightarrow> [] | EIdle \<Rightarrow> queue_contents (p_cq p))
      | _ \<Rightarrow> [])"

definition ring :: "nat \<Rightarrow> 'a os_queue \<Rightarrow> bool" where
  "ring n q \<longleftrightarrow> queue_invar q \<and> q_size q = n"

definition exec_waiting :: "'s pipe \<Rightarrow> bool" where
  "exec_waiting p \<longleftrightarrow> p_exec p = EIdle \<and> queue_contents (p_cq p) = [] \<and> queue_contents (p_sq p) = [] \<and>
     h_seen p = map snd (h_done p)"

definition handed_over :: "'s pipe \<Rightarrow> bool" where
  "handed_over p \<longleftrightarrow>
     (case p_exec p of
        EIdle \<Rightarrow>
          (\<exists>c. queue_contents (p_cq p) = [c]) \<and> queue_contents (p_sq p) = [] \<and>
             h_seen p = map snd (h_done p) \<or>
          queue_contents (p_cq p) = [] \<and>
             (\<exists>r. queue_contents (p_sq p) = [r] \<and> map snd (h_done p) = h_seen p @ [r])
      | EGot c \<Rightarrow> queue_contents (p_cq p) = [] \<and> queue_contents (p_sq p) = [] \<and>
             h_seen p = map snd (h_done p)
      | EDone r \<Rightarrow> queue_contents (p_cq p) = [] \<and> queue_contents (p_sq p) = [] \<and>
             map snd (h_done p) = h_seen p @ [r])"

definition pipe_inv :: "'s pipe \<Rightarrow> bool" where
  "pipe_inv p \<longleftrightarrow>
     ring SCH_CMD_QUEUE_LEN (p_dq p) \<and> ring 1 (p_cq p) \<and> ring 1 (p_sq p) \<and>
     (if p_disp p = DWait then handed_over p else exec_waiting p) \<and>
     h_sent p = map fst (h_done p) @ in_flight p @ queue_contents (p_dq p)"

lemma ring_take:
  assumes "ring n q" and "queue_take q = Some (c, q')" and "q_items q \<noteq> 0"
  shows "ring n q'" "queue_contents q = c # queue_contents q'"
  using queue_take_ok [of q] assms by (auto simp: ring_def)

lemma ring_put:
  assumes "ring n q" and "queue_put c q = Some q'" and "q_items q \<noteq> q_size q"
  shows "ring n q'" "queue_contents q' = queue_contents q @ [c]"
  using queue_put_ok [of q c] assms by (auto simp: ring_def)

lemma pipe_start_inv: "pipe_start s = Some p \<Longrightarrow> pipe_inv p"
  by (auto simp: pipe_start_def os_pthread_queue_create_def pipe_inv_def ring_def queue_invar_def
      exec_waiting_def queue_contents_def in_flight_def config_defs)

lemma dispatcher_step_inv:
  assumes "dispatcher_step cfg p p'" and "pipe_inv p"
  shows "pipe_inv p'"
  using assms
proof (cases rule: dispatcher_step.cases)
  case (disp_receive c dq)
  then show ?thesis
    using assms(2) ring_take [of SCH_CMD_QUEUE_LEN "p_dq p" c dq]
    by (auto simp: pipe_inv_def in_flight_def exec_waiting_def)
next
  case (disp_send c cq)
  then show ?thesis
    using assms(2) ring_put [of 1 "p_cq p" c cq]
    by (auto simp: pipe_inv_def in_flight_def exec_waiting_def handed_over_def)
next
  case (disp_result r sq)
  then have sq: "queue_contents (p_sq p) = r # queue_contents sq" "ring 1 sq"
    using assms(2) ring_take [of 1 "p_sq p" r sq] by (auto simp: pipe_inv_def)
  then show ?thesis
    using assms(2) disp_result
    by (cases "p_exec p") (auto simp: pipe_inv_def in_flight_def exec_waiting_def handed_over_def)
qed (auto simp: pipe_inv_def in_flight_def exec_waiting_def)

lemma executer_step_inv:
  assumes "executer_step exec p p'" and "pipe_inv p"
  shows "pipe_inv p'"
  using assms
proof (cases rule: executer_step.cases)
  case (exec_receive c cq)
  then have cq: "queue_contents (p_cq p) = c # queue_contents cq" "ring 1 cq"
    using assms(2) ring_take [of 1 "p_cq p" c cq] by (auto simp: pipe_inv_def)
  then show ?thesis
    using assms(2) exec_receive
    by (cases "p_disp p") (auto simp: pipe_inv_def in_flight_def exec_waiting_def handed_over_def)
next
  case (exec_run c r s')
  then show ?thesis
    using assms(2)
    by (cases "p_disp p") (auto simp: pipe_inv_def in_flight_def exec_waiting_def handed_over_def)
next
  case (exec_send r sq)
  then show ?thesis
    using assms(2) ring_put [of 1 "p_sq p" r sq]
    by (cases "p_disp p") (auto simp: pipe_inv_def in_flight_def exec_waiting_def handed_over_def)
qed

lemma pipe_frame [simp]:
  "handed_over (p\<lparr>p_dq := dq\<rparr>) = handed_over p" "handed_over (p\<lparr>h_sent := h\<rparr>) = handed_over p"
  "handed_over (p\<lparr>p_store := s\<rparr>) = handed_over p"
  "exec_waiting (p\<lparr>p_dq := dq\<rparr>) = exec_waiting p" "exec_waiting (p\<lparr>h_sent := h\<rparr>) = exec_waiting p"
  "exec_waiting (p\<lparr>p_store := s\<rparr>) = exec_waiting p"
  "in_flight (p\<lparr>p_dq := dq\<rparr>) = in_flight p" "in_flight (p\<lparr>h_sent := h\<rparr>) = in_flight p"
  "in_flight (p\<lparr>p_store := s\<rparr>) = in_flight p"
  by (simp_all add: handed_over_def exec_waiting_def in_flight_def split: exec_pc.split disp_pc.split)

lemma others_step_inv:
  assumes "others_step cfg okst p p'" and "pipe_inv p"
  shows "pipe_inv p'"
  using assms
proof (cases rule: others_step.cases)
  case (cmd_send c dq)
  then show ?thesis
    using assms(2) ring_put [of SCH_CMD_QUEUE_LEN "p_dq p" c dq]
    by (simp add: pipe_inv_def)
qed (simp add: pipe_inv_def)

lemma pipe_reach_inv: "pipe_reach cfg exec okst s0 p \<Longrightarrow> pipe_inv p"
  by (induction rule: pipe_reach.induct)
    (auto simp: pipe_step_def intro: pipe_start_inv dispatcher_step_inv executer_step_inv
      others_step_inv)

section \<open>The counters\<close>

text \<open>
  The two variables together; what one command with its result makes of them: the dispatcher counts
  it, the command runs (\<open>upd\<close> is what its own code makes of the two variables), and a failure is
  counted; and a sequence of commands.
\<close>

definition counters :: "'s dat_cfg \<Rightarrow> 's \<Rightarrow> (int \<times> int) option" where
  "counters cfg s =
     do { e \<leftarrow> dat_get_system_var cfg dat_obc_executed_cmds s;
          f \<leftarrow> dat_get_system_var cfg dat_obc_failed_cmds s;
          Some (e, f) }"

fun count_one ::
    "(cmd \<Rightarrow> int \<times> int \<Rightarrow> int \<times> int) \<Rightarrow> cmd \<times> int \<Rightarrow> int \<times> int \<Rightarrow> int \<times> int" where
  "count_one upd (c, r) (e, f) =
     (let (e', f') = upd c (e + 1, f) in (e', if r \<noteq> CMD_OK then f' + 1 else f'))"

definition counts ::
    "(cmd \<Rightarrow> int \<times> int \<Rightarrow> int \<times> int) \<Rightarrow> (cmd \<times> int) list \<Rightarrow> int \<times> int \<Rightarrow> int \<times> int" where
  "counts upd crs ef = fold (count_one upd) crs ef"

text \<open>Commands that have been counted but not run yet, failures that are not counted yet.\<close>

definition counted_pending :: "'s pipe \<Rightarrow> int" where
  "counted_pending p =
     (case p_disp p of DCounted c \<Rightarrow> 1 | DWait \<Rightarrow> int (length (in_flight p)) | _ \<Rightarrow> 0)"

definition n_failed :: "int list \<Rightarrow> int" where
  "n_failed rs = int (length (filter (\<lambda>r. r \<noteq> CMD_OK) rs))"

definition fail_pending :: "'s pipe \<Rightarrow> int" where
  "fail_pending p =
     (case p_disp p of
        DFail \<Rightarrow> 1 | DFailRead n \<Rightarrow> 1
      | DWait \<Rightarrow> n_failed (drop (length (h_seen p)) (map snd (h_done p))) | _ \<Rightarrow> 0)"

lemma n_failed_simps [simp]:
  "n_failed [] = 0" "n_failed (rs @ [r]) = n_failed rs + (if r \<noteq> CMD_OK then 1 else 0)"
  "n_failed [r] = (if r \<noteq> CMD_OK then 1 else 0)"
  by (simp_all add: n_failed_def)

definition count_inv ::
    "'s dat_cfg \<Rightarrow> (cmd \<Rightarrow> int \<times> int \<Rightarrow> int \<times> int) \<Rightarrow> int \<times> int \<Rightarrow> 's pipe \<Rightarrow> bool" where
  "count_inv cfg upd ef0 p \<longleftrightarrow>
     counters cfg (p_store p) =
       Some (fst (counts upd (h_done p) ef0) + counted_pending p,
             snd (counts upd (h_done p) ef0) - fail_pending p) \<and>
     (case p_disp p of
        DRead c n \<Rightarrow> n = fst (counts upd (h_done p) ef0)
      | DFailRead n \<Rightarrow> n = snd (counts upd (h_done p) ef0) - 1
      | _ \<Rightarrow> True)"

text \<open>
  What is asked of a command: that it ends, keeps the invariant of the storage, and does to the two
  counters what \<open>upd\<close> says. Most commands leave them alone (\<open>upd c = id\<close>); \<^verbatim>\<open>drp_reset_status\<close> clears
  them and \<^verbatim>\<open>drp_set_var\<close> can set either.
\<close>

definition cmd_counts ::
    "'s dat_cfg \<Rightarrow> ('s \<Rightarrow> bool) \<Rightarrow> (cmd \<Rightarrow> 's \<Rightarrow> (int \<times> 's) option) \<Rightarrow>
     (cmd \<Rightarrow> int \<times> int \<Rightarrow> int \<times> int) \<Rightarrow> cmd \<Rightarrow> bool" where
  "cmd_counts cfg okst exec upd c \<longleftrightarrow>
     (\<forall>s. okst s \<longrightarrow> (\<exists>r s'. exec c s = Some (r, s') \<and> okst s' \<and>
        counters cfg s' = map_option (upd c) (counters cfg s)))"

text \<open>A command that never raises a counter above \<open>B\<close>, nor makes it negative.\<close>

definition upd_within :: "int \<Rightarrow> (int \<times> int \<Rightarrow> int \<times> int) \<Rightarrow> bool" where
  "upd_within B u \<longleftrightarrow>
     (\<forall>e f. 0 \<le> e \<longrightarrow> 0 \<le> f \<longrightarrow>
        0 \<le> fst (u (e, f)) \<and> fst (u (e, f)) \<le> max e B \<and>
        0 \<le> snd (u (e, f)) \<and> snd (u (e, f)) \<le> max f B)"

lemma counts_simps [simp]:
  "counts upd [] ef = ef" "counts upd (crs @ [cr]) ef = count_one upd cr (counts upd crs ef)"
  by (simp_all add: counts_def)

lemma count_one_sel:
  "fst (count_one upd (c, r) ef) = fst (upd c (fst ef + 1, snd ef))"
  "snd (count_one upd (c, r) ef) =
     snd (upd c (fst ef + 1, snd ef)) + (if r \<noteq> CMD_OK then 1 else 0)"
  by (cases ef, simp add: Let_def split_beta)+

lemma counts_within:
  assumes "\<forall>c \<in> set (map fst crs). upd_within B (upd c)"
    and "0 \<le> fst ef" "fst ef \<le> B" "0 \<le> snd ef" "snd ef \<le> B"
  shows "0 \<le> fst (counts upd crs ef) \<and> fst (counts upd crs ef) \<le> B + int (length crs) \<and>
     0 \<le> snd (counts upd crs ef) \<and> snd (counts upd crs ef) \<le> B + int (length crs)"
  using assms(1)
proof (induction crs rule: rev_induct)
  case (snoc cr crs)
  obtain c r where cr: "cr = (c, r)" by (cases cr)
  have u: "upd_within B (upd c)" using snoc.prems cr by simp
  let ?x = "counts upd crs ef"
  have x: "0 \<le> fst ?x" "fst ?x \<le> B + int (length crs)" "0 \<le> snd ?x" "snd ?x \<le> B + int (length crs)"
    using snoc by auto
  from u [unfolded upd_within_def, rule_format, of "fst ?x + 1" "snd ?x"] x
  show ?case by (auto simp: cr count_one_sel max_def split: if_splits)
qed (use assms(2-5) in simp)

text \<open>Other tasks do not write the counters; every command still on its way was sent.\<close>

lemma quiet_counters: "quiet cfg okst s s' \<Longrightarrow> counters cfg s' = counters cfg s"
  by (simp add: quiet_def counters_def)

lemma running_sent:
  assumes "pipe_inv p" and "p_exec p = EGot c"
  shows "c \<in> set (h_sent p)" "p_disp p = DWait" "h_seen p = map snd (h_done p)"
proof -
  show w: "p_disp p = DWait"
    using assms by (auto simp: pipe_inv_def exec_waiting_def split: if_splits)
  then show "c \<in> set (h_sent p)" "h_seen p = map snd (h_done p)"
    using assms by (auto simp: pipe_inv_def in_flight_def handed_over_def)
qed

lemma pipe_step_sent: "pipe_step cfg exec p p' \<Longrightarrow> h_sent p' = h_sent p"
  by (auto simp: pipe_step_def elim: dispatcher_step.cases executer_step.cases)

lemma others_step_sent: "others_step cfg okst p p' \<Longrightarrow> set (h_sent p) \<subseteq> set (h_sent p')"
  by (auto elim: others_step.cases)

context status_repo
begin

lemma set_counter:
  assumes "inv s" and "a = dat_obc_executed_cmds \<or> a = dat_obc_failed_cmds"
    and "dat_set_system_var cfg a n s = Some (rc, s')" and "in_int n"
  shows "inv s'" "dat_get_system_var cfg a s' = Some n"
    "b = dat_obc_executed_cmds \<or> b = dat_obc_failed_cmds \<Longrightarrow> b \<noteq> a \<Longrightarrow>
     dat_get_system_var cfg b s' = dat_get_system_var cfg b s"
proof -
  have a: "0 \<le> a" "a < 17" using assms(2) by (auto simp: addr_defs)
  obtain s1 where s1: "dat_set_system_var cfg a n s = Some (SCH_ST_OK, s1)" "inv s1"
      "\<And>j. 0 \<le> j \<Longrightarrow> j < 17 \<Longrightarrow> sys s1 j = (if a = j then n else sys s j)"
    using set_sys [OF assms(1) a assms(4)] by metis
  then have eq: "s' = s1" using assms(3) by simp
  show "inv s'" using s1(2) eq by simp
  show "dat_get_system_var cfg a s' = Some n" using get_sys [OF s1(2) a] s1(3) [OF a] eq by simp
  show "dat_get_system_var cfg b s' = dat_get_system_var cfg b s"
    if "b = dat_obc_executed_cmds \<or> b = dat_obc_failed_cmds" "b \<noteq> a"
  proof -
    have b: "0 \<le> b" "b < 17" using that(1) by (auto simp: addr_defs)
    show ?thesis using get_sys [OF s1(2) b] get_sys [OF assms(1) b] s1(3) [OF b] that(2) eq by simp
  qed
qed

lemma counters_differ: "dat_obc_executed_cmds \<noteq> dat_obc_failed_cmds"
  by (simp add: addr_defs)

lemma counters_sys:
  "inv s \<Longrightarrow> counters cfg s = Some (sys s dat_obc_executed_cmds, sys s dat_obc_failed_cmds)"
  using get_sys [of s dat_obc_executed_cmds] get_sys [of s dat_obc_failed_cmds]
  by (simp add: counters_def addr_defs)

lemma counters_get:
  assumes "counters cfg s = Some (e, f)"
  shows "dat_get_system_var cfg dat_obc_executed_cmds s = Some e"
    "dat_get_system_var cfg dat_obc_failed_cmds s = Some f"
  using assms by (auto simp: counters_def bind_eq_Some_conv)

lemma counters_set:
  assumes "inv s" and "counters cfg s = Some ef" and "in_int n"
  shows "dat_set_system_var cfg dat_obc_executed_cmds n s = Some (rc, s') \<Longrightarrow>
      inv s' \<and> counters cfg s' = Some (n, snd ef)"
    "dat_set_system_var cfg dat_obc_failed_cmds n s = Some (rc, s') \<Longrightarrow>
      inv s' \<and> counters cfg s' = Some (fst ef, n)"
proof -
  obtain e f where ef: "ef = (e, f)" by (cases ef)
  note get = counters_get [OF assms(2) [unfolded ef]]
  show "inv s' \<and> counters cfg s' = Some (n, snd ef)"
    if "dat_set_system_var cfg dat_obc_executed_cmds n s = Some (rc, s')"
    using set_counter(1,2) [OF assms(1) _ that assms(3)]
      set_counter(3) [OF assms(1) _ that assms(3), of dat_obc_failed_cmds] counters_differ get
    by (simp add: counters_def ef)
  show "inv s' \<and> counters cfg s' = Some (fst ef, n)"
    if "dat_set_system_var cfg dat_obc_failed_cmds n s = Some (rc, s')"
    using set_counter(1,2) [OF assms(1) _ that assms(3)]
      set_counter(3) [OF assms(1) _ that assms(3), of dat_obc_executed_cmds] counters_differ get
    by (simp add: counters_def ef)
qed

lemma dispatcher_step_count:
  assumes "dispatcher_step cfg p p'" and "pipe_inv p" and "count_inv cfg upd ef0 p" and "inv (p_store p)"
  shows "count_inv cfg upd ef0 p'" "inv (p_store p')"
proof -
  have "count_inv cfg upd ef0 p' \<and> inv (p_store p')"
    using assms(1)
  proof (cases rule: dispatcher_step.cases)
    case (disp_count c n n' rc s')
    then have "in_int (n + 1)" "n' = n + 1" by (simp_all add: cint_eq_Some)
    then show ?thesis
      using counters_set(1) [OF assms(4), of _ n' rc s'] disp_count assms(3)
      by (simp add: count_inv_def counted_pending_def fail_pending_def)
  next
    case (disp_fail_count n n' rc s')
    then have "in_int (n + 1)" "n' = n + 1" by (simp_all add: cint_eq_Some)
    then show ?thesis
      using counters_set(2) [OF assms(4), of _ n' rc s'] disp_fail_count assms(3)
      by (simp add: count_inv_def counted_pending_def fail_pending_def)
  next
    case (disp_send c cq)
    then show ?thesis
      using assms(2-4) ring_put [of 1 "p_cq p" c cq]
      by (auto simp: count_inv_def counted_pending_def fail_pending_def in_flight_def pipe_inv_def
          exec_waiting_def)
  next
    case (disp_result r sq)
    then have sq: "queue_contents (p_sq p) = r # queue_contents sq"
      using assms(2) ring_take [of 1 "p_sq p" r sq] by (auto simp: pipe_inv_def)
    have "in_flight p = []" "map snd (h_done p) = h_seen p @ [r]"
      using assms(2) disp_result sq
      by (cases "p_exec p"; auto simp: in_flight_def pipe_inv_def handed_over_def)+
    then show ?thesis
      using assms(3,4) disp_result
      by (auto simp: count_inv_def counted_pending_def fail_pending_def)
  next
    case (disp_read c n)
    then show ?thesis
      using assms(3,4) counters_get(1) [of "p_store p"]
      by (cases "counts upd (h_done p) ef0")
        (auto simp: count_inv_def counted_pending_def fail_pending_def)
  next
    case (disp_fail_read n)
    then show ?thesis
      using assms(3,4) counters_get(2) [of "p_store p"]
      by (cases "counts upd (h_done p) ef0")
        (auto simp: count_inv_def counted_pending_def fail_pending_def)
  qed (use assms(3,4) in \<open>auto simp: count_inv_def counted_pending_def fail_pending_def\<close>)
  then show "count_inv cfg upd ef0 p'" "inv (p_store p')" by auto
qed

lemma exec_run_count:
  assumes "pipe_inv p" and "count_inv cfg upd ef0 p" and "inv (p_store p)"
    and "p_exec p = EGot c" and "cmd_counts cfg inv exec upd c" and "exec c (p_store p) = Some (r, s')"
    and "p' = p\<lparr>p_exec := EDone r, p_store := s', h_done := h_done p @ [(c, r)]\<rparr>"
  shows "count_inv cfg upd ef0 p' \<and> inv (p_store p')"
proof -
  have s': "inv s'" "counters cfg s' = map_option (upd c) (counters cfg (p_store p))"
    using assms(3,5,6) unfolding cmd_counts_def by force+
  let ?x = "counts upd (h_done p) ef0"
  note w = running_sent [OF assms(1,4)]
  have "counters cfg (p_store p) = Some (fst ?x + 1, snd ?x)"
    using assms(2,4) w(2,3) by (simp add: count_inv_def counted_pending_def fail_pending_def in_flight_def)
  then have "counters cfg s' =
      Some (fst (upd c (fst ?x + 1, snd ?x)), snd (upd c (fst ?x + 1, snd ?x)))"
    using s'(2) by simp
  then show ?thesis
    using s'(1) w(2,3)
    by (simp add: assms(7) count_inv_def counted_pending_def fail_pending_def in_flight_def
        count_one_sel)
qed

lemma executer_step_count:
  assumes "executer_step exec p p'" and "pipe_inv p" and "count_inv cfg upd ef0 p" and "inv (p_store p)"
    and "\<forall>c \<in> set (h_sent p). cmd_counts cfg inv exec upd c"
  shows "count_inv cfg upd ef0 p' \<and> inv (p_store p')"
  using assms(1)
proof (cases rule: executer_step.cases)
  case (exec_receive c cq)
  then have cq: "queue_contents (p_cq p) = c # queue_contents cq"
    using assms(2) ring_take [of 1 "p_cq p" c cq] by (auto simp: pipe_inv_def)
  then show ?thesis
    using assms(2-4) exec_receive
    by (cases "p_disp p") (auto simp: count_inv_def counted_pending_def fail_pending_def in_flight_def
        pipe_inv_def handed_over_def exec_waiting_def)
next
  case (exec_run c r s')
  then show ?thesis
    using exec_run_count [OF assms(2-4), of c exec r s' p'] assms(5) running_sent(1) [OF assms(2)]
    by blast
next
  case (exec_send r sq)
  have w: "p_disp p = DWait"
    using assms(2) exec_send by (auto simp: pipe_inv_def exec_waiting_def split: if_splits)
  then have "queue_contents (p_cq p) = []"
    using assms(2) exec_send by (simp add: pipe_inv_def handed_over_def)
  then show ?thesis
    using assms(3,4) exec_send w
    by (simp add: count_inv_def counted_pending_def fail_pending_def in_flight_def)
qed

lemma others_step_count:
  assumes "others_step cfg inv p p'" and "count_inv cfg upd ef0 p" and "inv (p_store p)"
  shows "count_inv cfg upd ef0 p' \<and> inv (p_store p')"
  using assms(1)
proof (cases rule: others_step.cases)
  case (other_data s')
  then show ?thesis
    using assms(2,3) quiet_counters [of cfg inv "p_store p" s'] by (cases "p_disp p")
      (simp_all add: count_inv_def counted_pending_def fail_pending_def quiet_def)
next
  case (cmd_send c dq)
  then show ?thesis
    using assms(2,3) by (cases "p_disp p")
      (simp_all add: count_inv_def counted_pending_def fail_pending_def)
qed

lemma reach_count:
  assumes "pipe_reach cfg exec inv s0 p" and "inv s0"
    and "\<forall>c \<in> set (h_sent p). cmd_counts cfg inv exec upd c" and "counters cfg s0 = Some ef0"
  shows "count_inv cfg upd ef0 p \<and> inv (p_store p)"
  using assms(1,3)
proof (induction rule: pipe_reach.induct)
  case (reach_start p)
  then show ?case
    using assms(2,4)
    by (cases ef0) (auto simp: pipe_start_def os_pthread_queue_create_def count_inv_def
        counted_pending_def fail_pending_def)
next
  case (reach_task p p')
  then have ih: "count_inv cfg upd ef0 p" "inv (p_store p)"
      "\<forall>c \<in> set (h_sent p). cmd_counts cfg inv exec upd c"
    using pipe_step_sent [OF reach_task(2)] by simp_all
  note p = pipe_reach_inv [OF reach_task(1)]
  show ?case
    using reach_task(2) dispatcher_step_count [OF _ p ih(1,2)] executer_step_count [OF _ p ih]
    unfolding pipe_step_def by blast
next
  case (reach_others p p')
  then show ?case using others_step_count [of p p'] others_step_sent [OF reach_others(2)] by blast
qed

end

section \<open>Progress\<close>

text \<open>How many steps of the two tasks are left at most.\<close>

definition pipe_weight :: "'s pipe \<Rightarrow> nat" where
  "pipe_weight p = 10 * q_items (p_dq p) +
     (case p_disp p of
        DIdle \<Rightarrow> 0 | DGot c \<Rightarrow> 9 | DRead c n \<Rightarrow> 8 | DCounted c \<Rightarrow> 7
      | DWait \<Rightarrow> (case p_exec p of
                    EIdle \<Rightarrow> if q_items (p_cq p) \<noteq> 0 then 6 else 3
                  | EGot c \<Rightarrow> 5 | EDone r \<Rightarrow> 4)
      | DFail \<Rightarrow> 2 | DFailRead n \<Rightarrow> 1)"

lemma queue_contents_Nil: "queue_contents q = [] \<longleftrightarrow> q_items q = 0"
  by (metis length_0_conv length_queue_contents)

lemma queue_contents_items: "queue_contents q = xs \<Longrightarrow> q_items q = length xs"
  by (metis length_queue_contents)

lemma pipe_step_weight:
  assumes "pipe_step cfg exec p p'" and "pipe_inv p"
  shows "pipe_weight p' < pipe_weight p"
proof -
  have "pipe_weight p' < pipe_weight p" if "dispatcher_step cfg p p'"
    using that
  proof (cases rule: dispatcher_step.cases)
    case (disp_receive c dq)
    then have "queue_contents (p_dq p) = c # queue_contents dq"
      using assms(2) ring_take(2) [of SCH_CMD_QUEUE_LEN "p_dq p" c dq] by (simp add: pipe_inv_def)
    then have "q_items (p_dq p) = Suc (q_items dq)"
      by (metis length_Cons length_queue_contents)
    then show ?thesis using disp_receive by (simp add: pipe_weight_def)
  next
    case (disp_send c cq)
    then have "p_exec p = EIdle" using assms(2) by (simp add: pipe_inv_def exec_waiting_def)
    then show ?thesis using disp_send by (simp add: pipe_weight_def)
  next
    case (disp_result r sq)
    then have "queue_contents (p_sq p) \<noteq> []" by (simp add: queue_contents_Nil)
    then have "p_exec p = EIdle" "queue_contents (p_cq p) = []"
      using assms(2) disp_result by (auto simp: pipe_inv_def handed_over_def split: exec_pc.splits)
    then show ?thesis using disp_result by (simp add: pipe_weight_def)
  qed (simp_all add: pipe_weight_def)
  moreover have "executer_step exec p p' \<Longrightarrow> pipe_weight p' < pipe_weight p"
  proof -
    assume step: "executer_step exec p p'"
    have w: "p_disp p = DWait"
      using step assms(2)
      by cases (auto simp: pipe_inv_def exec_waiting_def queue_contents_Nil split: if_splits)
    from step show ?thesis
    proof (cases rule: executer_step.cases)
      case (exec_send r sq)
      then have "queue_contents (p_cq p) = []"
        using assms(2) w by (simp add: pipe_inv_def handed_over_def)
      then show ?thesis using exec_send w by (simp add: pipe_weight_def queue_contents_Nil)
    qed (simp_all add: pipe_weight_def w)
  qed
  ultimately show ?thesis using assms(1) by (auto simp: pipe_step_def)
qed

lemma ring_room:
  assumes "ring (Suc 0) q" and "queue_contents q = []"
  shows "q_items q \<noteq> q_size q" "\<exists>q'. queue_put c q = Some q'"
  using assms queue_put_ok [of q c] queue_contents_items [OF assms(2)] by (auto simp: ring_def)

lemma ring_some:
  assumes "ring n q" and "q_items q \<noteq> 0"
  shows "\<exists>c q'. queue_take q = Some (c, q')"
  using assms queue_take_ok [of q] by (auto simp: ring_def)

context status_repo
begin

lemma get_counter:
  assumes "inv s" and "a = dat_obc_executed_cmds \<or> a = dat_obc_failed_cmds"
  shows "\<exists>n. dat_get_system_var cfg a s = Some n"
  using get_sys [OF assms(1), of a] assms(2) by (auto simp: addr_defs)

lemma put_counter:
  assumes "inv s" and "a = dat_obc_executed_cmds \<or> a = dat_obc_failed_cmds" and "in_int n"
  shows "\<exists>rc s'. dat_set_system_var cfg a n s = Some (rc, s')"
proof -
  have "0 \<le> a" "a < 17" using assms(2) by (auto simp: addr_defs)
  then show ?thesis using set_sys [OF assms(1) _ _ assms(3)] by metis
qed

text \<open>With room in the counters, a task can go on unless everything that was sent is done.\<close>

lemma waiting_step:
  assumes "pipe_inv p" and "inv (p_store p)"
    and "\<forall>c \<in> set (h_sent p). cmd_counts cfg inv exec upd c" and "p_disp p = DWait"
  shows "\<exists>p'. pipe_step cfg exec p p'"
proof (cases "p_exec p")
  case EIdle
  show ?thesis
  proof (cases "q_items (p_cq p) = 0")
    case True
    then have "q_items (p_sq p) \<noteq> 0"
      using assms(1,4) EIdle
      by (auto simp: pipe_inv_def handed_over_def queue_contents_Nil [symmetric])
    then show ?thesis
      using ring_some [of 1 "p_sq p"] assms(1,4) disp_result [of p]
      by (auto simp: pipe_inv_def pipe_step_def)
  next
    case False
    then show ?thesis
      using ring_some [of 1 "p_cq p"] assms(1) EIdle exec_receive [of p]
      by (auto simp: pipe_inv_def pipe_step_def)
  qed
next
  case (EGot c)
  then show ?thesis
    using assms(2,3) running_sent(1) [OF assms(1) EGot] exec_run [of p c exec]
    unfolding cmd_counts_def pipe_step_def by blast
next
  case (EDone r)
  then have "queue_contents (p_sq p) = []" "ring (Suc 0) (p_sq p)"
    using assms(1,4) by (auto simp: pipe_inv_def handed_over_def)
  then show ?thesis
    using ring_room(1) [of "p_sq p"] ring_room(2) [of "p_sq p" r] EDone exec_send [of p r] unfolding pipe_step_def by blast
qed

lemma in_range_next:
  assumes "count_inv cfg upd ef0 p" and "pipe_inv p"
    and "\<forall>c \<in> set (h_sent p). upd_within B (upd c)"
    and "0 \<le> fst ef0" "fst ef0 \<le> B" "0 \<le> snd ef0" "snd ef0 \<le> B"
    and "B + int (length (h_sent p)) < 2147483647"
  shows "p_disp p = DRead c n \<or> p_disp p = DFailRead n \<Longrightarrow> in_int (n + 1)"
proof -
  have sent: "h_sent p = map fst (h_done p) @ in_flight p @ queue_contents (p_dq p)"
    using assms(2) by (simp add: pipe_inv_def)
  have "\<forall>c \<in> set (map fst (h_done p)). upd_within B (upd c)" "length (h_done p) \<le> length (h_sent p)"
    using assms(3) by (simp_all add: sent)
  moreover assume "p_disp p = DRead c n \<or> p_disp p = DFailRead n"
  ultimately show ?thesis
    using counts_within [of "h_done p" B upd ef0] assms(1,4-8)
    by (auto simp: count_inv_def in_int_def)
qed

lemma pipe_progress:
  assumes "pipe_inv p" and "inv (p_store p)"
    and "\<forall>c \<in> set (h_sent p). cmd_counts cfg inv exec upd c" and "pipe_weight p \<noteq> 0"
    and "\<And>c n. p_disp p = DRead c n \<or> p_disp p = DFailRead n \<Longrightarrow> in_int (n + 1)"
  shows "\<exists>p'. pipe_step cfg exec p p'"
proof (cases "p_disp p")
  case DIdle
  then have "q_items (p_dq p) \<noteq> 0" using assms(4) by (simp add: pipe_weight_def)
  then show ?thesis
    using ring_some [of SCH_CMD_QUEUE_LEN "p_dq p"] assms(1) DIdle disp_receive [of p]
    by (auto simp: pipe_inv_def pipe_step_def check_if_executable_def)
next
  case (DGot c)
  then show ?thesis
    using get_counter [OF assms(2)] disp_read [of p c] unfolding pipe_step_def by blast
next
  case (DRead c n)
  then have "\<exists>rc s'. dat_set_system_var cfg dat_obc_executed_cmds (n + 1) (p_store p) = Some (rc, s')"
    "cint (n + 1) = Some (n + 1)"
    using assms(5) put_counter [OF assms(2)] by simp_all
  then show ?thesis using disp_count [of p c n "n + 1"] DRead unfolding pipe_step_def by blast
next
  case (DCounted c)
  then have "queue_contents (p_cq p) = []" "ring (Suc 0) (p_cq p)"
    using assms(1) by (auto simp: pipe_inv_def exec_waiting_def)
  then show ?thesis
    using ring_room(1) [of "p_cq p"] ring_room(2) [of "p_cq p" c] DCounted disp_send [of p c] unfolding pipe_step_def by blast
next
  case DWait
  then show ?thesis using waiting_step assms(1-3) by blast
next
  case DFail
  then show ?thesis
    using get_counter [OF assms(2)] disp_fail_read [of p] unfolding pipe_step_def by blast
next
  case (DFailRead n)
  then have "\<exists>rc s'. dat_set_system_var cfg dat_obc_failed_cmds (n + 1) (p_store p) = Some (rc, s')"
    "cint (n + 1) = Some (n + 1)"
    using assms(5) put_counter [OF assms(2)] by simp_all
  then show ?thesis using disp_fail_count [of p n "n + 1"] DFailRead unfolding pipe_step_def by blast
qed

lemma pipe_step_keeps:
  assumes "pipe_step cfg exec p p'" and "pipe_inv p" and "inv (p_store p)"
    and "\<forall>c \<in> set (h_sent p). cmd_counts cfg inv exec upd c" and "count_inv cfg upd ef0 p"
  shows "pipe_inv p'" "inv (p_store p')" "count_inv cfg upd ef0 p'"
proof -
  show "pipe_inv p'"
    using assms(1,2) dispatcher_step_inv executer_step_inv by (auto simp: pipe_step_def)
  show "inv (p_store p')" "count_inv cfg upd ef0 p'"
    using assms(1) dispatcher_step_count [OF _ assms(2,5,3)] executer_step_count [OF _ assms(2,5,3,4)]
    unfolding pipe_step_def by blast+
qed

lemma pipe_drain:
  assumes "pipe_inv p" and "inv (p_store p)" and "count_inv cfg upd ef0 p"
    and "\<forall>c \<in> set (h_sent p). cmd_counts cfg inv exec upd c"
    and "\<forall>c \<in> set (h_sent p). upd_within B (upd c)"
    and "0 \<le> fst ef0" "fst ef0 \<le> B" "0 \<le> snd ef0" "snd ef0 \<le> B"
    and "B + int (length (h_sent p)) < 2147483647"
  shows "\<exists>p'. (pipe_step cfg exec)\<^sup>*\<^sup>* p p' \<and> map fst (h_done p') = h_sent p \<and>
     h_seen p' = map snd (h_done p') \<and> p_disp p' = DIdle"
  using assms
proof (induction "pipe_weight p" arbitrary: p rule: less_induct)
  case less
  show ?case
  proof (cases "pipe_weight p = 0")
    case True
    then have idle: "p_disp p = DIdle" "q_items (p_dq p) = 0"
      by (auto simp: pipe_weight_def split: disp_pc.splits exec_pc.splits if_splits)
    then have "map fst (h_done p) = h_sent p" "h_seen p = map snd (h_done p)"
      using less.prems(1) by (auto simp: pipe_inv_def in_flight_def exec_waiting_def queue_contents_Nil)
    then show ?thesis using idle(1) by blast
  next
    case False
    obtain p1 where p1: "pipe_step cfg exec p p1"
      using pipe_progress [OF less.prems(1,2,4) False] in_range_next [OF less.prems(3,1,5-10)] by blast
    note keep = pipe_step_keeps [OF p1 less.prems(1,2,4,3)]
    from less.hyps [OF pipe_step_weight [OF p1 less.prems(1)] keep, unfolded pipe_step_sent [OF p1],
        OF less.prems(4-10)]
    show ?thesis using p1 by (blast intro: converse_rtranclp_into_rtranclp)
  qed
qed

end

section \<open>The commands behind the function pointers\<close>

text \<open>
  \<^verbatim>\<open>run_cmd->function(run_cmd->fmt, run_cmd->params, run_cmd->nparams)\<close> for the handlers of cmdFP.c
  and cmdDRP.c that change the data repository; \<open>other\<close> is the handler of any other function.
\<close>

record cmd_env =
  e_now :: int
  e_utc_off :: int
  e_float :: float_scan
  e_f2i :: "value32 \<Rightarrow> int option"

definition run_function ::
    "'s dat_cfg \<Rightarrow> cmd_env \<Rightarrow> (cmd \<Rightarrow> 's \<Rightarrow> (int \<times> 's) option) \<Rightarrow> cmd \<Rightarrow> 's \<Rightarrow> (int \<times> 's) option" where
  "run_function cfg env other c s =
     do { f \<leftarrow> c_function c;
          fmt \<leftarrow> c_fmt c;
          let params = c_params c;
          let n = c_nparams c;
          if f = ''fp_set'' then fp_set cfg (e_utc_off env) fmt params n s
          else if f = ''fp_set_unix'' then fp_set_unix cfg fmt params n s
          else if f = ''fp_set_dt'' then fp_set_dt cfg (e_now env) fmt params n s
          else if f = ''fp_delete'' then fp_delete cfg (e_utc_off env) fmt params n s
          else if f = ''fp_delete_unix'' then fp_delete_unix cfg fmt params n s
          else if f = ''fp_reset'' then fp_reset cfg s
          else if f = ''fp_purge'' then fp_purge cfg (e_now env) s
          else if f = ''drp_execute_before_flight''
          then drp_execute_before_flight cfg (e_now env) fmt params n s
          else if f = ''drp_reset_payload'' then drp_reset_payload cfg fmt params n s
          else if f = ''drp_reset_status'' then drp_reset_status cfg fmt params n s
          else if f = ''drp_update_sys_var_idx''
          then drp_update_sys_var_idx (e_float env) (e_f2i env) cfg fmt params n s
          else if f = ''drp_update_sys_var_name''
          then drp_update_sys_var_name (e_float env) (e_f2i env) cfg fmt params n s
          else if f = ''drp_update_hours_alive'' then drp_update_hours_alive cfg fmt params n s
          else if f = ''drp_clear_gnd_wdt'' then drp_clear_gnd_wdt cfg s
          else if f = ''cmd_null'' then Some (cmd_null, s)
          else other c s }"

section \<open>Properties\<close>

text \<open>
  C1: commands are run once each and in the order they were sent. In every state the two
  tasks and any senders can reach, the commands sent so far are, in this order, those that have
  been run, at most one on its way between the tasks, and those still in \<^verbatim>\<open>dispatcher_queue\<close>;
  and the dispatcher has received the results in the order the commands were run, at most one behind.
\<close>

theorem pipeline_order:
  assumes "pipe_reach cfg exec okst s0 p"
  shows "h_sent p = map fst (h_done p) @ in_flight p @ queue_contents (p_dq p) \<and>
     length (in_flight p) \<le> 1 \<and> length (queue_contents (p_dq p)) \<le> 50 \<and>
     (\<exists>rest. map snd (h_done p) = h_seen p @ rest \<and> length rest \<le> 1)"
proof -
  have inv: "pipe_inv p" using assms by (rule pipe_reach_inv)
  have "length (queue_contents (p_cq p)) \<le> 1" "length (queue_contents (p_dq p)) \<le> 50"
    using inv by (simp_all add: pipe_inv_def ring_def queue_invar_def config_defs)
  moreover have "\<exists>rest. map snd (h_done p) = h_seen p @ rest \<and> length rest \<le> 1"
    using inv by (auto simp: pipe_inv_def exec_waiting_def handed_over_def
        split: if_splits exec_pc.splits)
  moreover have "length (in_flight p) \<le> 1"
    using calculation(1) by (simp add: in_flight_def split: disp_pc.split exec_pc.split)
  ultimately show ?thesis using inv by (simp add: pipe_inv_def)
qed

definition demo_cmd :: cmd where
  "demo_cmd = \<lparr>c_id = 3, c_nparams = 0, c_fmt = Some '''', c_params = None,
     c_function = Some ''drp_clear_gnd_wdt''\<rparr>"

lemma pipe_sent_one:
  obtains p0 p where "pipe_start s = Some p0"
    "others_step cfg okst p0 p" "p_store p = s" "h_sent p = [demo_cmd]" "h_done p = []"
    "h_seen p = []" "p_disp p = DIdle"
proof -
  obtain p0 where p0: "pipe_start s = Some p0" "p_store p0 = s" "h_sent p0 = []" "h_done p0 = []"
      "h_seen p0 = []" "p_disp p0 = DIdle" "q_items (p_dq p0) = 0" "q_size (p_dq p0) = 50"
    by (auto simp: pipe_start_def os_pthread_queue_create_def config_defs)
  have "ring SCH_CMD_QUEUE_LEN (p_dq p0)" using pipe_start_inv [OF p0(1)] by (simp add: pipe_inv_def)
  then obtain dq where "queue_put demo_cmd (p_dq p0) = Some dq"
    using queue_put_ok [of "p_dq p0" demo_cmd] p0(7,8) by (auto simp: ring_def)
  from cmd_send [OF _ this] p0 that show thesis by fastforce
qed

theorem pipeline_order_witness:
  "\<exists>p. pipe_reach (ram_cfg alloc_all False) (\<lambda>c s. Some (CMD_OK, s)) (\<lambda>s. True) ram_zero p \<and>
     h_sent p = [demo_cmd] \<and>
     h_sent p = map fst (h_done p) @ in_flight p @ queue_contents (p_dq p)"
proof (rule pipe_sent_one [of ram_zero "ram_cfg alloc_all False" "\<lambda>s. True"])
  fix p0 p
  assume "pipe_start ram_zero = Some p0"
    and "others_step (ram_cfg alloc_all False) (\<lambda>s. True) p0 p" and "h_sent p = [demo_cmd]"
  then have r: "pipe_reach (ram_cfg alloc_all False) (\<lambda>c s. Some (CMD_OK, s)) (\<lambda>s. True) ram_zero p"
    "h_sent p = [demo_cmd]"
    using reach_start reach_others by metis+
  show ?thesis using pipeline_order [OF r(1)] r by (intro exI [of _ p]) simp
qed

text \<open>The steps of the two tasks lead from reachable states to reachable ones.\<close>

lemma pipe_steps_reach:
  "(pipe_step cfg exec)\<^sup>*\<^sup>* p p' \<Longrightarrow> pipe_reach cfg exec okst s0 p \<Longrightarrow> pipe_reach cfg exec okst s0 p'"
  by (induction rule: rtranclp_induct) (auto intro: reach_task)

lemma pipe_sent:
  assumes "length cs \<le> SCH_CMD_QUEUE_LEN"
  shows "\<exists>p. pipe_reach cfg exec okst s p \<and> h_sent p = cs \<and> h_done p = [] \<and> p_store p = s \<and>
     p_disp p = DIdle \<and> q_items (p_dq p) = length cs"
  using assms
proof (induction cs rule: rev_induct)
  case Nil
  then show ?case
    using reach_start [of s _ cfg exec okst]
    by (auto simp: pipe_start_def os_pthread_queue_create_def)
next
  case (snoc c cs)
  then obtain p where p: "pipe_reach cfg exec okst s p" "h_sent p = cs" "h_done p = []"
      "p_store p = s" "p_disp p = DIdle" "q_items (p_dq p) = length cs" by auto
  have r: "ring SCH_CMD_QUEUE_LEN (p_dq p)" using pipe_reach_inv [OF p(1)] by (simp add: pipe_inv_def)
  have room: "q_items (p_dq p) \<noteq> q_size (p_dq p)" using r p(6) snoc.prems by (simp add: ring_def)
  obtain dq where dq: "queue_put c (p_dq p) = Some dq"
    using queue_put_ok [of "p_dq p" c] r room by (auto simp: ring_def)
  then have "q_items dq = length (cs @ [c])"
    using ring_put(2) [OF r dq room] p(6) by (metis length_append length_queue_contents)
  then show ?case
    using reach_others [OF p(1) cmd_send [OF room dq]] p(2-5)
    by (intro exI [of _ "p\<lparr>p_dq := dq, h_sent := h_sent p @ [c]\<rparr>"]) simp
qed

section \<open>Commands of the data repository and the counters\<close>

text \<open>
  Three core commands with the handlers the executer calls: one that leaves the counters alone, one
  that clears them, and one that always fails.
\<close>

definition reset_cmd :: cmd where
  "reset_cmd = \<lparr>c_id = 4, c_nparams = 1, c_fmt = Some ''%d'', c_params = Some (show_int 1010 @ [NUL]),
     c_function = Some ''drp_reset_status''\<rparr>"

definition null_cmd :: cmd where
  "null_cmd = \<lparr>c_id = 5, c_nparams = 0, c_fmt = Some '''', c_params = None,
     c_function = Some ''cmd_null''\<rparr>"

definition demo_env :: cmd_env where
  "demo_env = \<lparr>e_now = 0, e_utc_off = 0, e_float = (\<lambda>_. None), e_f2i = (\<lambda>_. None)\<rparr>"

definition no_other :: "cmd \<Rightarrow> 's \<Rightarrow> (int \<times> 's) option" where
  "no_other c s = None"

definition core_upd :: "cmd \<Rightarrow> int \<times> int \<Rightarrow> int \<times> int" where
  "core_upd c ef = (if c_function c = Some ''drp_reset_status'' then (0, 0) else ef)"

lemma core_upd_within: "0 \<le> B \<Longrightarrow> upd_within B (core_upd c)"
  by (auto simp: upd_within_def core_upd_def max_def)

lemma core_upd_simps [simp]:
  "core_upd demo_cmd = id" "core_upd null_cmd = id" "core_upd reset_cmd = (\<lambda>_. (0, 0))"
  by (simp_all add: core_upd_def fun_eq_iff demo_cmd_def null_cmd_def reset_cmd_def)

context status_repo
begin

lemma clear_gnd_wdt_counts: "cmd_counts cfg inv (run_function cfg env other) core_upd demo_cmd"
  unfolding cmd_counts_def
proof (intro allI impI)
  fix s assume s: "inv s"
  have a: "0 \<le> dat_obc_sw_wdt" "dat_obc_sw_wdt < 17" "in_int 0"
    by (simp_all add: addr_defs in_int_def)
  obtain s' where s': "dat_set_system_var cfg dat_obc_sw_wdt 0 s = Some (SCH_ST_OK, s')" "inv s'"
      "\<And>j. 0 \<le> j \<Longrightarrow> j < 17 \<Longrightarrow> sys s' j = (if dat_obc_sw_wdt = j then 0 else sys s j)"
    using set_sys [OF s a] by metis
  have "counters cfg s' = counters cfg s"
    using s'(3) [of dat_obc_executed_cmds] s'(3) [of dat_obc_failed_cmds]
    by (simp add: counters_sys s s'(2) addr_defs)
  moreover have "run_function cfg env other demo_cmd s = Some (CMD_OK, s')"
    using s'(1) by (simp add: run_function_def demo_cmd_def drp_clear_gnd_wdt_def)
  ultimately show "\<exists>r s'. run_function cfg env other demo_cmd s = Some (r, s') \<and> inv s' \<and>
      counters cfg s' = map_option (core_upd demo_cmd) (counters cfg s)"
    using s'(2) by (simp add: option.map_id)
qed

lemma null_counts: "cmd_counts cfg inv (run_function cfg env other) core_upd null_cmd"
  by (simp add: cmd_counts_def option.map_id) (simp add: run_function_def null_cmd_def)

lemma reset_status_counts: "cmd_counts cfg inv (run_function cfg env other) core_upd reset_cmd"
  unfolding cmd_counts_def
proof (intro allI impI)
  fix s assume s: "inv s"
  have "\<exists>s'. dat_reset_status_vars cfg s = Some (SCH_ST_OK, s') \<and> inv s' \<and> () = () \<and>
      (\<forall>j < 17. vote (triple_wr cfg) (vars s') j = sv_value (dat_get_status_var_def (int j)))"
    using s by (rule reset_status [where f = "\<lambda>_. ()", rotated]) simp
  then obtain s' where s': "dat_reset_status_vars cfg s = Some (SCH_ST_OK, s')" "inv s'"
      "\<And>j. j < 17 \<Longrightarrow> vote (triple_wr cfg) (vars s') j = sv_value (dat_get_status_var_def (int j))"
    by auto
  have "counters cfg s' = Some (0, 0)"
    using s'(3) [of 7] s'(3) [of 8]
    by (simp add: counters_sys [OF s'(2)] sys_def addr_defs)
      (simp add: dat_get_status_var_def_def dat_status_list_def sys_var_def addr_defs in_int_def)
  moreover have "run_function cfg env other reset_cmd s = Some (CMD_OK, s')"
    using s'(1) parse_int_param [of 1010 0]
    by (simp add: run_function_def reset_cmd_def drp_reset_status_def in_int_def)
  ultimately show "\<exists>r s'. run_function cfg env other reset_cmd s = Some (r, s') \<and> inv s' \<and>
      counters cfg s' = map_option (core_upd reset_cmd) (counters cfg s)"
    using s'(2) counters_sys [OF s] by simp
qed

end

lemma ram_started:
  obtains s where "dat_repo_init True (ram_cfg alloc_all tr) ram_zero = Some s"
    "ram_inv data_map (n_copies tr) s" "counters (ram_cfg alloc_all tr) s = Some (0, 0)"
proof -
  let ?cfg = "ram_cfg alloc_all tr"
  obtain s where s: "dat_repo_init True ?cfg ram_zero = Some s" "ram_inv data_map (n_copies tr) s"
      "\<And>j. j < 17 \<Longrightarrow> vote tr (ram_vars s) j = sv_value (dat_get_status_var_def (int j))"
    using ram_repo_init [of alloc_all tr] by (auto simp: alloc_all_def)
  have "counters ?cfg s = Some (0, 0)"
    using ram_repo.get_var [OF s(2), of 7 alloc_all] ram_repo.get_var [OF s(2), of 8 alloc_all]
    by (simp add: counters_def s(3) dat_get_system_var_def addr_defs)
      (simp add: dat_get_status_var_def_def dat_status_list_def sys_var_def addr_defs in_int_def)
  with s(1,2) that show thesis by blast
qed

text \<open>
  C23: the counters. Take any reachable state in which the dispatcher is idle, back at its queue, and
  suppose of every command sent so far that it ends, keeps the storage well formed and makes of the
  two variables \<^verbatim>\<open>obc_executed_cmds\<close> and \<^verbatim>\<open>obc_failed_cmds\<close> what \<open>upd\<close> says: nothing for most commands,
  \<open>(0, 0)\<close> for \<^verbatim>\<open>drp_reset_status\<close>, a number for \<^verbatim>\<open>drp_set_var\<close>. Then the two variables are what
  counting the commands one after the other gives, from their values at the start: each command adds
  one to the first, then has its own effect, and adds one to the second if its result is not
  \<^verbatim>\<open>CMD_OK\<close>. The other tasks may have done anything else to the data repository meanwhile, but have
  not written the two variables.
\<close>

theorem pipeline_counters:
  assumes "pipe_reach (ram_cfg alloc tr) exec (ram_inv data_map (n_copies tr)) s0 p"
    and "ram_inv data_map (n_copies tr) s0"
    and "\<forall>c \<in> set (h_sent p).
           cmd_counts (ram_cfg alloc tr) (ram_inv data_map (n_copies tr)) exec upd c"
    and "dat_get_system_var (ram_cfg alloc tr) dat_obc_executed_cmds s0 = Some e0"
    and "dat_get_system_var (ram_cfg alloc tr) dat_obc_failed_cmds s0 = Some f0"
    and "p_disp p = DIdle"
  shows "dat_get_system_var (ram_cfg alloc tr) dat_obc_executed_cmds (p_store p) =
       Some (fst (counts upd (h_done p) (e0, f0))) \<and>
     dat_get_system_var (ram_cfg alloc tr) dat_obc_failed_cmds (p_store p) =
       Some (snd (counts upd (h_done p) (e0, f0)))"
proof -
  have "counters (ram_cfg alloc tr) s0 = Some (e0, f0)"
    using assms(4,5) by (simp add: counters_def)
  then have "count_inv (ram_cfg alloc tr) upd (e0, f0) p"
    using ram_repo.reach_count [OF assms(1-3)] by blast
  then have "counters (ram_cfg alloc tr) (p_store p) =
      Some (fst (counts upd (h_done p) (e0, f0)), snd (counts upd (h_done p) (e0, f0)))"
    using assms(6) by (simp add: count_inv_def counted_pending_def fail_pending_def)
  then show ?thesis by (blast intro: ram_repo.counters_get)
qed

text \<open>
  Three commands of the core, run by the real handlers: the second clears what the first counted.
\<close>

lemma core_cmds_count:
  "\<forall>c \<in> set [demo_cmd, reset_cmd, null_cmd].
     cmd_counts (ram_cfg alloc tr) (ram_inv data_map (n_copies tr))
       (run_function (ram_cfg alloc tr) env other) core_upd c"
  using ram_repo.clear_gnd_wdt_counts ram_repo.reset_status_counts ram_repo.null_counts by auto

theorem pipeline_counters_witness:
  "\<exists>s p. dat_repo_init True (ram_cfg alloc_all False) ram_zero = Some s \<and>
     pipe_reach (ram_cfg alloc_all False) (run_function (ram_cfg alloc_all False) demo_env no_other)
       (ram_inv data_map (n_copies False)) s p \<and>
     map fst (h_done p) = [demo_cmd, reset_cmd, null_cmd] \<and>
     dat_get_system_var (ram_cfg alloc_all False) dat_obc_executed_cmds (p_store p) = Some 1"
proof -
  let ?cfg = "ram_cfg alloc_all False" and ?inv = "ram_inv data_map (n_copies False)"
  let ?exec = "run_function ?cfg demo_env no_other" and ?cs = "[demo_cmd, reset_cmd, null_cmd]"
  obtain s where s: "dat_repo_init True ?cfg ram_zero = Some s" "?inv s" "counters ?cfg s = Some (0, 0)"
    by (rule ram_started)
  obtain p where p: "pipe_reach ?cfg ?exec ?inv s p" "h_sent p = ?cs"
    using pipe_sent [of ?cs ?cfg ?exec ?inv s] by (auto simp: config_defs)
  have c: "\<forall>c \<in> set (h_sent p). cmd_counts ?cfg ?inv ?exec core_upd c"
    unfolding p(2) by (rule core_cmds_count)
  have i: "count_inv ?cfg core_upd (0, 0) p" "?inv (p_store p)"
    using ram_repo.reach_count [OF p(1) s(2) c s(3)] by simp_all
  obtain p' where p': "(pipe_step ?cfg ?exec)\<^sup>*\<^sup>* p p'" "map fst (h_done p') = ?cs" "p_disp p' = DIdle"
    using ram_repo.pipe_drain [OF pipe_reach_inv [OF p(1)] i(2,1) c, of 0] core_upd_within [of 0] p(2)
    by auto
  have r: "pipe_reach ?cfg ?exec ?inv s p'" using p'(1) p(1) by (rule pipe_steps_reach)
  have "h_sent p' = ?cs" using p'(1) p(2) by (induction) (simp_all add: pipe_step_sent)
  with c p(2) have "\<forall>c \<in> set (h_sent p'). cmd_counts ?cfg ?inv ?exec core_upd c" by simp
  from pipeline_counters [OF r s(2) this ram_repo.counters_get [OF s(3)] p'(3)]
  have "dat_get_system_var ?cfg dat_obc_executed_cmds (p_store p') =
      Some (fst (counts core_upd (h_done p') (0, 0)))" by simp
  moreover have "fst (counts core_upd (h_done p') (0, 0)) = 1"
    using p'(2) by (auto simp: counts_def map_eq_Cons_conv count_one_sel)
  ultimately show ?thesis using s(1) r p'(2) by auto
qed

text \<open>
  C12: nothing that was sent is lost or stuck. From every reachable state every step of the two tasks
  lowers \<open>pipe_weight\<close>, so only that many can follow each other, and they can go on until every
  command sent has been run, its result received and, if it failed, counted. This holds if every
  command sent ends, keeps the storage well formed and has on the two counters an effect \<open>upd\<close> that
  never raises them above \<open>B\<close> (\<^verbatim>\<open>drp_reset_status\<close> and most commands: \<open>B = 0\<close>), if the other tasks do not
  write the counters, and if \<open>B\<close> and the counters at the start leave room for one increment per
  command below \<open>INT_MAX\<close>: otherwise the dispatcher's increment overflows, which C leaves undefined.
\<close>

theorem pipeline_drains:
  assumes "pipe_reach (ram_cfg alloc tr) exec (ram_inv data_map (n_copies tr)) s0 p"
    and "ram_inv data_map (n_copies tr) s0"
    and "\<forall>c \<in> set (h_sent p).
           cmd_counts (ram_cfg alloc tr) (ram_inv data_map (n_copies tr)) exec upd c"
    and "\<forall>c \<in> set (h_sent p). upd_within B (upd c)"
    and "dat_get_system_var (ram_cfg alloc tr) dat_obc_executed_cmds s0 = Some e0" "0 \<le> e0" "e0 \<le> B"
    and "dat_get_system_var (ram_cfg alloc tr) dat_obc_failed_cmds s0 = Some f0" "0 \<le> f0" "f0 \<le> B"
    and "B + int (length (h_sent p)) < 2147483647"
  shows "(\<forall>p'. pipe_step (ram_cfg alloc tr) exec p p' \<longrightarrow> pipe_weight p' < pipe_weight p) \<and>
     (\<exists>p'. (pipe_step (ram_cfg alloc tr) exec)\<^sup>*\<^sup>* p p' \<and> map fst (h_done p') = h_sent p \<and>
        h_seen p' = map snd (h_done p') \<and> p_disp p' = DIdle)"
proof -
  have inv: "pipe_inv p" using assms(1) by (rule pipe_reach_inv)
  have "counters (ram_cfg alloc tr) s0 = Some (e0, f0)"
    using assms(5,8) by (simp add: counters_def)
  then have c: "count_inv (ram_cfg alloc tr) upd (e0, f0) p"
      "ram_inv data_map (n_copies tr) (p_store p)"
    using ram_repo.reach_count [OF assms(1-3)] by simp_all
  have "\<forall>p'. pipe_step (ram_cfg alloc tr) exec p p' \<longrightarrow> pipe_weight p' < pipe_weight p"
    using pipe_step_weight inv by blast
  then show ?thesis
    using ram_repo.pipe_drain [OF inv c(2,1) assms(3,4)] assms(6,7,9-11) by simp
qed

theorem pipeline_drains_witness:
  "\<exists>s p p'. dat_repo_init True (ram_cfg alloc_all False) ram_zero = Some s \<and>
     h_sent p = [demo_cmd, reset_cmd, null_cmd] \<and> h_done p = [] \<and>
     (pipe_step (ram_cfg alloc_all False)
        (run_function (ram_cfg alloc_all False) demo_env no_other))\<^sup>*\<^sup>* p p' \<and>
     map fst (h_done p') = [demo_cmd, reset_cmd, null_cmd]"
proof -
  let ?cfg = "ram_cfg alloc_all False" and ?inv = "ram_inv data_map (n_copies False)"
  let ?exec = "run_function ?cfg demo_env no_other" and ?cs = "[demo_cmd, reset_cmd, null_cmd]"
  obtain s where s: "dat_repo_init True ?cfg ram_zero = Some s" "?inv s" "counters ?cfg s = Some (0, 0)"
    by (rule ram_started)
  obtain p where p: "pipe_reach ?cfg ?exec ?inv s p" "h_sent p = ?cs" "h_done p = []"
    using pipe_sent [of ?cs ?cfg ?exec ?inv s] by (auto simp: config_defs)
  have c: "\<forall>c \<in> set (h_sent p). cmd_counts ?cfg ?inv ?exec core_upd c"
      "\<forall>c \<in> set (h_sent p). upd_within 0 (core_upd c)"
    unfolding p(2) by (rule core_cmds_count, simp add: core_upd_within)
  from pipeline_drains [OF p(1) s(2) c ram_repo.counters_get(1) [OF s(3)] _ _
      ram_repo.counters_get(2) [OF s(3)]] p(2,3) s(1)
  show ?thesis by fastforce
qed

end
