(* ===== verification/Task_Loops.thy ===== *)
theory Task_Loops
  imports Tasks
begin

text \<open>
  The tasks that send commands on their own: src/system/taskFlightPlan.c, taskWatchdog.c and
  taskConsole.c, and the start of the system in taskInit.c. One round of a task's loop is one
  function; what it hands to \<^verbatim>\<open>cmd_send\<close> is part of its result (\<open>None\<close>: the null pointer, nothing sent).
\<close>

section \<open>Flight plan task\<close>

definition flight_plan_tick ::
    "'s dat_cfg \<Rightarrow> cmd_repo \<Rightarrow> int \<Rightarrow> 's \<Rightarrow> (cmd option \<times> 's) option" where
  "flight_plan_tick cfg repo elapsed_sec s =
     do { let now = v_i (of_i elapsed_sec);
          (rc, row, s1) \<leftarrow> dat_get_fp cfg now s;
          if rc = - 1 then Some (None, s1)
          else
            do { (command, args, execs, period) \<leftarrow> row;
                 require (length command < SCH_CMD_MAX_STR_NAME);
                 require (length args < SCH_CMD_MAX_STR_PARAMS);
                 (_, s2) \<leftarrow> dat_set_system_var cfg dat_fpl_last now s1;
                 s3 \<leftarrow> (if period > 0 \<and> execs > 1 then
                          do { t \<leftarrow> cint (now + period);
                               (_, s') \<leftarrow> dat_set_fp cfg t (Some command) (Some args)
                                             (execs - 1) period s2;
                               Some s' }
                        else Some s2);
                 new_cmd \<leftarrow> cmd_get_str command repo;
                 Some (cmd_add_params_str new_cmd args, s3) } }"

text \<open>\<open>k\<close> rounds, one per second from \<open>now\<close> on: the times and what was sent.\<close>

fun flight_plan_run ::
    "'s dat_cfg \<Rightarrow> cmd_repo \<Rightarrow> int \<Rightarrow> nat \<Rightarrow> 's \<Rightarrow> ((int \<times> cmd option) list \<times> 's) option" where
  "flight_plan_run cfg repo now 0 s = Some ([], s)"
| "flight_plan_run cfg repo now (Suc k) s =
     do { (c, s1) \<leftarrow> flight_plan_tick cfg repo now s;
          (cs, s2) \<leftarrow> flight_plan_run cfg repo (now + 1) k s1;
          Some ((now, c) # cs, s2) }"

section \<open>Watchdog task\<close>

definition watchdog_tick ::
    "'s dat_cfg \<Rightarrow> cmd_repo \<Rightarrow> 32 word \<Rightarrow> 's \<Rightarrow> (32 word \<times> cmd option list \<times> 's) option" where
  "watchdog_tick cfg repo elapsed_obc_timer s =
     do { let timer = elapsed_obc_timer + 1;
          n \<leftarrow> dat_get_system_var cfg dat_obc_sw_wdt s;
          let elapsed_sw_timer = (word_of_int n + 1 :: 32 word);
          (_, s1) \<leftarrow> dat_set_system_var cfg dat_obc_sw_wdt (sint elapsed_sw_timer) s;
          (timer', sent) \<leftarrow>
            (if timer > word_of_int SCH_MAX_WDT_TIMER
             then do { rst_wdt \<leftarrow> cmd_get_str ''obc_reset_wdt'' repo; Some (0, [rst_wdt]) }
             else Some (timer, []));
          sent' \<leftarrow>
            (if elapsed_sw_timer > word_of_int SCH_MAX_GND_WDT_TIMER
             then do { rst_obc \<leftarrow> cmd_build_from_str ''obc_reset 1'' repo; Some (sent @ [rst_obc]) }
             else Some sent);
          Some (timer', sent', s1) }"

fun watchdog_run ::
    "'s dat_cfg \<Rightarrow> cmd_repo \<Rightarrow> nat \<Rightarrow> 32 word \<Rightarrow> 's \<Rightarrow>
     (32 word \<times> cmd option list list \<times> 's) option" where
  "watchdog_run cfg repo 0 timer s = Some (timer, [], s)"
| "watchdog_run cfg repo (Suc k) timer s =
     do { (t1, sent, s1) \<leftarrow> watchdog_tick cfg repo timer s;
          (t2, rest, s2) \<leftarrow> watchdog_run cfg repo k t1 s1;
          Some (t2, sent # rest, s2) }"

section \<open>Start of the system\<close>

definition init_update_status_vars :: "'s dat_cfg \<Rightarrow> 's \<Rightarrow> (int \<times> 's) option" where
  "init_update_status_vars cfg s =
     do { (r1, s1) \<leftarrow> dat_set_system_var cfg dat_obc_hrs_wo_reset 0 s;
          n \<leftarrow> dat_get_system_var cfg dat_obc_reset_counter s1;
          n' \<leftarrow> cint (n + 1);
          (r2, s2) \<leftarrow> dat_set_system_var cfg dat_obc_reset_counter n' s1;
          (r3, s3) \<leftarrow> dat_set_system_var cfg dat_obc_sw_wdt 0 s2;
          rc \<leftarrow> cint (r1 + r2 + r3);
          Some (rc, s3) }"

text \<open>\<^verbatim>\<open>taskInit\<close> up to the set-up of libcsp and the creation of the tasks.\<close>

definition taskInit ::
    "bool \<Rightarrow> bool \<Rightarrow> bool \<Rightarrow> bool \<Rightarrow> 's dat_cfg \<Rightarrow> int \<Rightarrow> cmd_repo \<Rightarrow> 's \<Rightarrow> (cmd_repo \<times> 's) option" where
  "taskInit con fp comm ram_mode cfg now r s =
     do { (_, r1) \<leftarrow> cmd_repo_init con fp comm r;
          s1 \<leftarrow> dat_repo_init ram_mode cfg s;
          (_, s2) \<leftarrow> init_update_status_vars cfg s1;
          (_, s3) \<leftarrow> dat_purge_fp cfg now s2;
          Some (r1, s3) }"

section \<open>Console task\<close>

text \<open>
  \<^verbatim>\<open>console_read\<close> on Linux: \<open>line\<close> is what the line editor returned (\<open>None\<close>: end of input), \<open>len\<close> is
  255 and the buffer of 256 bytes starts zeroed. The result is the string in the buffer.
\<close>

definition console_read :: "string option \<Rightarrow> string option option" where
  "console_read line =
     (case line of
        None \<Rightarrow> Some None
      | Some l \<Rightarrow>
          do { let buffer = take 254 l;
               if take 5 buffer = ''/exit'' then Some (Some ''obc_exit'')
               else
                 do { (k, as) \<leftarrow> sscanf buffer ''%d: %n'';
                      if k = 1 then
                        (case as of
                           [AInt nd, APos next] \<Rightarrow>
                             if next < 255 \<and> next \<noteq> 0
                             then Some (Some (take 254 (''com_send_cmd '' @ show_int nd @ '' '' @
                                                        drop next buffer)))
                             else Some (Some buffer)
                         | _ \<Rightarrow> Some (Some buffer))
                      else Some (Some buffer) } })"

definition console_round :: "cmd_repo \<Rightarrow> string option \<Rightarrow> cmd option option" where
  "console_round repo line =
     do { got \<leftarrow> console_read line;
          case got of
            None \<Rightarrow> Some None
          | Some buffer \<Rightarrow> cmd_build_from_str buffer repo }"

section \<open>Rounds of the flight plan task\<close>

context flight_repo
begin

lemma set_other_counted:
  assumes "counted s" and "0 \<le> i" "i < 17" "i \<noteq> dat_fpl_queue" and "in_int n"
  obtains s' where "dat_set_system_var cfg i n s = Some (SCH_ST_OK, s')" "counted s'"
    "slots s' = slots s"
proof -
  have inv: "inv s" using assms(1) by (simp add: counted_def)
  obtain s' where s': "dat_set_system_var cfg i n s = Some (SCH_ST_OK, s')" "inv s'"
      "\<And>j. 0 \<le> j \<Longrightarrow> j < 17 \<Longrightarrow> sys s' j = (if i = j then n else sys s j)"
    using set_sys [OF inv assms(2,3,5)] by metis
  have "slots s' = slots s" by (rule set_sys_slots [OF inv assms(2,3) s'(1)])
  then show thesis
    using that [OF s'(1)] assms(1,4) s'(2) s'(3) [of dat_fpl_queue]
    by (simp add: counted_def addr_defs)
qed

lemma tick_none:
  assumes "counted s" and "0 \<le> now" "now < 2147483648" and "\<forall>e \<in># plan (slots s). unixtime e \<noteq> now"
  shows "flight_plan_tick cfg repo now s = Some (None, s)"
proof -
  have "v_i (of_i now) = now" using assms(2,3) by (simp add: in_int_def)
  then show ?thesis
    using get_fp_none [OF assms(1)] find_time_plan [OF assms(2), of "slots s"] assms(4)
    by (simp add: flight_plan_tick_def SCH_ST_ERROR_def)
qed

text \<open>An entry that is due: it is taken out, sent, and put back for its next time when it has one.\<close>

lemma tick_due:
  assumes "counted s" and "0 \<le> now" "now < 2147483648" and "\<exists>e \<in># plan (slots s). unixtime e = now"
    and fits: "\<forall>e \<in># plan (slots s). length (the (fp_cmd e)) < 248 \<and> length (the (fp_args e)) < 248"
    and range: "\<forall>e \<in># plan (slots s). in_int (now + periodical e)"
    and lookup: "\<forall>c. \<exists>nc. cmd_get_str c repo = Some nc"
  shows "\<exists>e s' nc. e \<in># plan (slots s) \<and> unixtime e = now \<and> counted s' \<and>
     cmd_get_str (the (fp_cmd e)) repo = Some nc \<and>
     flight_plan_tick cfg repo now s = Some (cmd_add_params_str nc (the (fp_args e)), s') \<and>
     plan (slots s') = plan (slots s) - {#e#} +
       (if periodical e > 0 \<and> executions e > 1
        then {#\<lparr>unixtime = now + periodical e, executions = executions e - 1,
               periodical = periodical e, node = SCH_COMM_NODE,
               fp_cmd = Some (the (fp_cmd e)), fp_args = Some (the (fp_args e))\<rparr>#}
        else {#})"
proof -
  have now: "v_i (of_i now) = now" "in_int now" using assms(2,3) by (simp_all add: in_int_def)
  obtain i where i: "find_idx (\<lambda>e. unixtime e = now) (slots s) = Some i"
    using find_time_plan [OF assms(2), of "slots s"] assms(4) by fastforce
  let ?e = "slots s ! i"
  let ?c = "the (fp_cmd ?e)" and ?a = "the (fp_args ?e)"
  note e = find_time_in_plan [OF assms(2) i]
  from get_fp [OF assms(1,2) i] obtain s1 where
      s1: "dat_get_fp cfg now s = Some (SCH_ST_OK, Some (?c, ?a, executions ?e, periodical ?e), s1)"
        "counted s1" "plan (slots s) = add_mset ?e (plan (slots s1))" by blast
  obtain s2 where s2: "dat_set_system_var cfg dat_fpl_last now s1 = Some (SCH_ST_OK, s2)"
      "counted s2" "slots s2 = slots s1"
    using set_other_counted [OF s1(2), of dat_fpl_last now] now(2) by (auto simp: addr_defs)
  have room: "size (plan (slots s2)) < 255"
  proof -
    have "size (plan (slots s)) \<le> 255"
      using size_plan_le [of "slots s"] slots_length [of s] assms(1) by (simp add: counted_def config_defs)
    then show ?thesis by (simp add: s1(3) s2(3))
  qed
  obtain nc where nc: "cmd_get_str ?c repo = Some nc" using lookup by blast
  have fit: "length ?c < 248" "length ?a < 248" using fits e(1) by auto
  note tick = flight_plan_tick_def Let_def SCH_CMD_MAX_STR_NAME_def SCH_CMD_MAX_STR_PARAMS_def
    SCH_ST_OK_def
  show ?thesis
  proof (cases "periodical ?e > 0 \<and> executions ?e > 1")
    case False
    then have "flight_plan_tick cfg repo now s = Some (cmd_add_params_str nc ?a, s2)"
      using s1(1) s2(1) nc fit now(1) by (auto simp: tick)
    then show ?thesis using e nc s1(3) s2(2,3) False by auto
  next
    case True
    have t: "in_int (now + periodical ?e)" using range e(1) by blast
    have "0 \<le> now + periodical ?e" using True assms(2) by simp
    from set_fp [OF s2(2) this room, of ?c ?a "executions ?e - 1" "periodical ?e"] obtain s3 where
        s3: "dat_set_fp cfg (now + periodical ?e) (Some ?c) (Some ?a) (executions ?e - 1)
               (periodical ?e) s2 = Some (SCH_ST_OK, s3)" "counted s3"
          "plan (slots s3) = add_mset \<lparr>unixtime = now + periodical ?e,
             executions = executions ?e - 1, periodical = periodical ?e, node = SCH_COMM_NODE,
             fp_cmd = Some ?c, fp_args = Some ?a\<rparr> (plan (slots s2))" by blast
    then have "flight_plan_tick cfg repo now s = Some (cmd_add_params_str nc ?a, s3)"
      using True s1(1) s2(1) s3(1) nc fit now(1) t by (simp add: tick)
    then show ?thesis using e nc s1(3) s2(3) s3(2,3) True by auto
  qed
qed

end

text \<open>An entry for \<open>m\<close> more executions every \<open>p\<close> seconds from \<open>t\<close> on, and the times it is due.\<close>

definition fp_sched :: "string \<Rightarrow> string \<Rightarrow> int \<Rightarrow> int \<Rightarrow> int \<Rightarrow> fp_entry" where
  "fp_sched c a p t m = \<lparr>unixtime = t, executions = m, periodical = p, node = SCH_COMM_NODE,
     fp_cmd = Some c, fp_args = Some a\<rparr>"

definition due :: "int \<Rightarrow> int \<Rightarrow> int \<Rightarrow> int \<Rightarrow> bool" where
  "due p t m x \<longleftrightarrow> (\<exists>i. 0 \<le> i \<and> i < m \<and> x = t + i * p)"

lemma due_first: "1 \<le> m \<Longrightarrow> due p t m t"
  unfolding due_def by (rule exI [of _ 0]) simp

lemma due_before: "1 \<le> p \<Longrightarrow> x < t \<Longrightarrow> \<not> due p t m x"
proof
  assume "1 \<le> p" "x < t" "due p t m x"
  then obtain i where "0 \<le> i" "x = t + i * p" by (auto simp: due_def)
  moreover have "0 \<le> i * p" using \<open>0 \<le> i\<close> \<open>1 \<le> p\<close> by simp
  ultimately show False using \<open>x < t\<close> by simp
qed

lemma due_next: "1 \<le> p \<Longrightarrow> t < x \<Longrightarrow> due p t m x \<longleftrightarrow> due p (t + p) (m - 1) x"
proof
  assume p: "1 \<le> p" "t < x" and "due p t m x"
  then obtain i where i: "0 \<le> i" "i < m" "x = t + i * p" by (auto simp: due_def)
  then have "i \<noteq> 0" using p(2) by auto
  then show "due p (t + p) (m - 1) x"
    using i unfolding due_def by (intro exI [of _ "i - 1"]) (auto simp: algebra_simps)
next
  assume "due p (t + p) (m - 1) x"
  then obtain i where "0 \<le> i" "i < m - 1" "x = t + p + i * p" by (auto simp: due_def)
  then show "due p t m x"
    unfolding due_def by (intro exI [of _ "i + 1"]) (auto simp: algebra_simps)
qed

lemma due_empty: "m \<le> 0 \<Longrightarrow> \<not> due p t m x"
  by (auto simp: due_def)

lemma upto_Cons: "[now..now + int (Suc k) - 1] = now # [now + 1..now + 1 + int k - 1]"
  by (subst upto_rec1) auto

context flight_repo
begin

lemma run_empty:
  assumes "counted s" and "plan (slots s) = {#}" and "0 \<le> now" "now + int k \<le> 2147483648"
  shows "flight_plan_run cfg repo now k s = Some (map (\<lambda>x. (x, None)) [now..now + int k - 1], s)"
  using assms(3,4)
proof (induction k arbitrary: now)
  case (Suc k)
  have "flight_plan_tick cfg repo now s = Some (None, s)"
    using Suc.prems assms(1,2) by (intro tick_none) auto
  moreover have "flight_plan_run cfg repo (now + 1) k s =
      Some (map (\<lambda>x. (x, None)) [now + 1..now + 1 + int k - 1], s)"
    using Suc.prems by (intro Suc.IH) auto
  ultimately show ?case unfolding upto_Cons by simp
qed simp

lemma run_periodic:
  assumes "counted s" and "plan (slots s) = {#fp_sched c a p t m#}" and "1 \<le> p" and "1 \<le> m"
    and "0 \<le> now" "now \<le> t" "t + m * p \<le> 2147483647" "now + int k \<le> 2147483648"
    and fit: "length c < 248" "length a < 248"
    and lookup: "\<forall>x. \<exists>nc. cmd_get_str x repo = Some nc" "cmd_get_str c repo = Some nc"
  shows "\<exists>s'. flight_plan_run cfg repo now k s =
       Some (map (\<lambda>x. (x, if due p t m x then cmd_add_params_str nc a else None))
               [now..now + int k - 1], s') \<and> counted s' \<and>
     (t + (m - 1) * p < now + int k \<longrightarrow> plan (slots s') = {#})"
  using assms(1-8)
proof (induction k arbitrary: now s t m)
  case 0
  have "0 \<le> (m - 1) * p" using "0.prems"(3,4) by simp
  then have "\<not> t + (m - 1) * p < now" using "0.prems"(6) by linarith
  then show ?case using "0.prems"(1) by simp
next
  case (Suc k)
  let ?C = "cmd_add_params_str nc a"
  let ?e = "fp_sched c a p t m"
  note prems = Suc.prems
  have "0 \<le> (m - 1) * p" using prems(3,4) by simp
  then have t: "t + p \<le> 2147483647" "0 \<le> t" using prems(4-7) by (auto simp: algebra_simps)
  show ?case
  proof (cases "now = t")
    case False
    have tick: "flight_plan_tick cfg repo now s = Some (None, s)"
      using prems False by (intro tick_none) (auto simp: fp_sched_def)
    have "\<exists>s'. flight_plan_run cfg repo (now + 1) k s =
        Some (map (\<lambda>x. (x, if due p t m x then ?C else None)) [now + 1..now + 1 + int k - 1], s') \<and>
        counted s' \<and> (t + (m - 1) * p < now + 1 + int k \<longrightarrow> plan (slots s') = {#})"
      using prems False by (intro Suc.IH) auto
    moreover have "\<not> due p t m now" using prems(3,6) False by (intro due_before) auto
    ultimately show ?thesis unfolding upto_Cons using tick by (auto simp: algebra_simps)
  next
    case True
    have due: "due p t m now" using prems(4) True due_first by simp
    from tick_due [OF prems(1,5), of repo] prems(2,3,5,8) True fit lookup t
    obtain s1 where s1: "flight_plan_tick cfg repo now s = Some (?C, s1)" "counted s1"
        "plan (slots s1) = (if m > 1 then {#fp_sched c a p (t + p) (m - 1)#} else {#})"
      by (auto simp: fp_sched_def in_int_def)
    have later: "map (\<lambda>x. (x, if due p t m x then ?C else None)) [now + 1..now + 1 + int k - 1] =
        map (\<lambda>x. (x, if due p (t + p) (m - 1) x then ?C else None)) [now + 1..now + 1 + int k - 1]"
      using prems(3) True by (auto simp: due_next)
    show ?thesis
    proof (cases "m > 1")
      case more: True
      have "\<exists>s'. flight_plan_run cfg repo (now + 1) k s1 =
          Some (map (\<lambda>x. (x, if due p (t + p) (m - 1) x then ?C else None))
                  [now + 1..now + 1 + int k - 1], s') \<and>
          counted s' \<and> (t + p + (m - 1 - 1) * p < now + 1 + int k \<longrightarrow> plan (slots s') = {#})"
        using prems True more s1(2,3) by (intro Suc.IH) (auto simp: algebra_simps)
      then show ?thesis
        unfolding upto_Cons using s1(1) due later by (auto simp: algebra_simps)
    next
      case last: False
      then have m: "m = 1" using prems(4) by simp
      have "flight_plan_run cfg repo (now + 1) k s1 =
          Some (map (\<lambda>x. (x, None)) [now + 1..now + 1 + int k - 1], s1)"
        using prems last s1(2,3) by (intro run_empty) auto
      moreover have "map (\<lambda>x. (x, if due p (t + p) (m - 1) x then ?C else None))
          [now + 1..now + 1 + int k - 1] = map (\<lambda>x. (x, None)) [now + 1..now + 1 + int k - 1]"
        using m by (auto simp: due_empty)
      ultimately show ?thesis
        unfolding upto_Cons using s1 due later last by auto
    qed
  qed
qed

end

section \<open>Properties\<close>

lemma ready_lookup: "repo_ready r \<Longrightarrow> \<exists>nc. cmd_get_str x r = Some nc"
  by (simp add: cmd_get_str_ready)

text \<open>
  C7: a periodic entry of the flight plan. With the single entry "command \<open>c\<close> with arguments \<open>a\<close>, \<open>m\<close>
  executions, every \<open>p\<close> seconds from \<open>t\<close> on" in the plan and the task making one round in every second
  of the clock, the command is sent at exactly the \<open>m\<close> times \<open>t\<close>, \<open>t + p\<close>, ..., \<open>t + (m-1) p\<close> and at no
  other, and after the last of them the plan is empty and the counter in step. So \<^verbatim>\<open>executions\<close> is the
  number of runs in all, one per period; with \<open>m = 1\<close> the command runs once and the entry is gone.
  This is what storage.h says of the parameter ("max number of executions", line 229). docs/flightplan.md,
  repoData.h and line 41 of storage.h describe something else: the number of
  runs per period, repeated every period until the entry is removed. (A round that comes late and skips
  a second also skips the entries due in it; that is outside this statement.)
\<close>

theorem flight_plan_periodic:
  assumes "fp_ready alloc tr s" and "plan (ram_slots s) = {#fp_sched c a p t m#}"
    and "1 \<le> p" "1 \<le> m" "0 \<le> now" "now \<le> t" "t + m * p \<le> 2147483647"
    and "now + int k \<le> 2147483648" and "length c < 248" "length a < 248"
    and "repo_ready repo" and "cmd_get_str c repo = Some nc"
  shows "\<exists>s'. flight_plan_run (ram_cfg alloc tr) repo now k s =
       Some (map (\<lambda>x. (x, if \<exists>i. 0 \<le> i \<and> i < m \<and> x = t + i * p
                            then cmd_add_params_str nc a else None)) [now..now + int k - 1], s') \<and>
     fp_ready alloc tr s' \<and> (t + (m - 1) * p < now + int k \<longrightarrow> plan (ram_slots s') = {#})"
proof -
  have "ram_repo.counted alloc tr s" using assms(1) by (simp add: fp_ready_counted)
  then show ?thesis
    using ram_repo.run_periodic [of alloc tr s c a p t m now k repo nc] assms(2-12) ready_lookup
    by (simp add: fp_ready_counted due_def)
qed

theorem flight_plan_periodic_witness:
  "\<exists>s s1 s2 r. dat_repo_init True (ram_cfg alloc_all False) ram_zero = Some s \<and>
     cmd_repo_init True True True cmd_repo_zero = Some (CMD_OK, r) \<and>
     dat_set_fp (ram_cfg alloc_all False) 101 (Some ''obc_ident'') (Some '''') 2 2 s = Some (0, s1) \<and>
     flight_plan_run (ram_cfg alloc_all False) r 100 5 s1 =
       Some (map (\<lambda>x. (x, if \<exists>i. 0 \<le> i \<and> i < 2 \<and> x = 101 + i * 2
                            then Some (entry_cmd 0 (reg_entry (''obc_ident'', ''obc_ident'', '''', 0)))
                            else None)) [100..100 + int 5 - 1], s2) \<and>
     plan (ram_slots s2) = {#}"
proof (rule ram_init_inv [of False], rule init_zero_table)
  let ?cfg = "ram_cfg alloc_all False"
  fix s r
  assume init: "dat_repo_init True ?cfg ram_zero = Some s"
    "cmd_repo_init True True True cmd_repo_zero = Some (CMD_OK, r)"
    and s: "plan (ram_slots s) = {#}" "fp_ready alloc_all False s"
    and r: "repo_ready r"
      "cmd_list r = map reg_entry (core_cmds True True True) @ replicate 194 null_entry"
  have "ram_repo.counted alloc_all False s" using s(2) by (simp add: fp_ready_counted)
  from ram_repo.set_fp [OF this, of 101 "''obc_ident''" "''''" 2 2] obtain s1 where
      s1: "dat_set_fp ?cfg 101 (Some ''obc_ident'') (Some '''') 2 2 s = Some (0, s1)"
        "fp_ready alloc_all False s1" "plan (ram_slots s1) = {#fp_sched ''obc_ident'' '''' 2 101 2#}"
    by (auto simp: s(1) fp_ready_counted fp_sched_def SCH_ST_OK_def)
  have "find_idx (\<lambda>e. ce_name e = Some ''obc_ident'') (cmd_list r) = Some 0"
    "cmd_list r ! 0 = reg_entry (''obc_ident'', ''obc_ident'', '''', 0)"
    using r(2) by (simp_all add: core_cmds_def cmd_obc_init_def)
  then have look: "cmd_get_str ''obc_ident'' r =
      Some (Some (entry_cmd 0 (reg_entry (''obc_ident'', ''obc_ident'', '''', 0))))"
    by (simp add: cmd_get_str_ready [OF r(1)])
  have add: "cmd_add_params_str (Some cm) '''' = Some cm" for cm by (simp add: cmd_add_params_str_def)
  have "\<exists>s2. flight_plan_run ?cfg r 100 5 s1 =
       Some (map (\<lambda>x. (x, if \<exists>i. 0 \<le> i \<and> i < 2 \<and> x = 101 + i * 2
                            then cmd_add_params_str (Some (entry_cmd 0 (reg_entry
                                   (''obc_ident'', ''obc_ident'', '''', 0)))) ''''
                            else None)) [100..100 + int 5 - 1], s2) \<and>
     fp_ready alloc_all False s2 \<and> (101 + (2 - 1) * 2 < 100 + int 5 \<longrightarrow> plan (ram_slots s2) = {#})"
    by (rule flight_plan_periodic [OF s1(2,3)]) (simp_all add: r(1) look)
  then obtain s2 where s2: "flight_plan_run ?cfg r 100 5 s1 =
       Some (map (\<lambda>x. (x, if \<exists>i. 0 \<le> i \<and> i < 2 \<and> x = 101 + i * 2
                            then Some (entry_cmd 0 (reg_entry (''obc_ident'', ''obc_ident'', '''', 0)))
                            else None)) [100..100 + int 5 - 1], s2)"
    and "101 + (2 - 1) * 2 < 100 + int 5 \<longrightarrow> plan (ram_slots s2) = {#}"
    unfolding add by blast
  then have "plan (ram_slots s2) = {#}" by simp
  with init s1(1) s2 show ?thesis by blast
qed

section \<open>Several entries for the same second\<close>

lemma flight_plan_run_split:
  "flight_plan_run cfg repo now (j + k) s =
     do { (xs, s1) \<leftarrow> flight_plan_run cfg repo now j s;
          (ys, s2) \<leftarrow> flight_plan_run cfg repo (now + int j) k s1;
          Some (xs @ ys, s2) }"
proof (induction j arbitrary: now s)
  case 0
  show ?case by (auto split: Option.bind_split)
next
  case (Suc j)
  have shift: "now + 1 + int j = now + int (Suc j)" by simp
  show ?case
    by (auto simp: Suc.IH shift split: Option.bind_split)
qed

context flight_repo
begin

lemma run_quiet:
  assumes "counted s" and "0 \<le> now" "now + int k \<le> 2147483648"
    and "\<forall>e \<in># plan (slots s). unixtime e < now \<or> now + int k \<le> unixtime e"
  shows "flight_plan_run cfg repo now k s = Some (map (\<lambda>x. (x, None)) [now..now + int k - 1], s)"
  using assms(2-4)
proof (induction k arbitrary: now)
  case (Suc k)
  have "flight_plan_tick cfg repo now s = Some (None, s)"
    using Suc.prems assms(1) by (intro tick_none) force+
  moreover have "flight_plan_run cfg repo (now + 1) k s =
      Some (map (\<lambda>x. (x, None)) [now + 1..now + 1 + int k - 1], s)"
    using Suc.prems by (intro Suc.IH) force+
  ultimately show ?case unfolding upto_Cons by simp
qed simp

lemma run_same_second:
  assumes "counted s" and "0 \<le> now" "now + int k + 1 + int j \<le> 2147483648"
    and all: "\<forall>e \<in># plan (slots s). unixtime e = now + int k \<and> periodical e \<le> 0 \<and>
        in_int (now + int k + periodical e) \<and>
        length (the (fp_cmd e)) < 248 \<and> length (the (fp_args e)) < 248"
    and "plan (slots s) \<noteq> {#}" and lookup: "\<forall>c. \<exists>nc. cmd_get_str c repo = Some nc"
  shows "\<exists>e s' nc. e \<in># plan (slots s) \<and> cmd_get_str (the (fp_cmd e)) repo = Some nc \<and>
     flight_plan_run cfg repo now (k + Suc j) s =
       Some (map (\<lambda>x. (x, None)) [now..now + int k - 1] @
             (now + int k, cmd_add_params_str nc (the (fp_args e))) #
             map (\<lambda>x. (x, None)) [now + int k + 1..now + int k + 1 + int j - 1], s') \<and>
     counted s' \<and> plan (slots s') = plan (slots s) - {#e#}"
proof -
  have one: "flight_plan_run cfg repo now k s = Some (map (\<lambda>x. (x, None)) [now..now + int k - 1], s)"
    using assms(1-4) by (intro run_quiet) auto
  have "\<exists>e \<in># plan (slots s). unixtime e = now + int k" using all assms(5) by blast
  from tick_due [OF assms(1) _ _ this _ _ lookup] assms(2,3) all obtain e s' nc where
      e: "e \<in># plan (slots s)" "counted s'" "cmd_get_str (the (fp_cmd e)) repo = Some nc"
        "flight_plan_tick cfg repo (now + int k) s =
           Some (cmd_add_params_str nc (the (fp_args e)), s')"
        "plan (slots s') = plan (slots s) - {#e#}"
    by (force split: if_splits)
  have "flight_plan_run cfg repo (now + int k + 1) j s' =
      Some (map (\<lambda>x. (x, None)) [now + int k + 1..now + int k + 1 + int j - 1], s')"
    using assms(2-4) e(2,5) by (intro run_quiet) (auto dest: in_diffD)
  then show ?thesis
    unfolding flight_plan_run_split one using e by (auto simp: add_ac)
qed

end

text \<open>
  several entries for the same second. When all entries of the plan are due at \<open>T\<close> and none is
  periodic, the task, running once per second over any window around \<open>T\<close>, sends exactly one of them,
  at \<open>T\<close>; the others are never sent and stay in the plan (until a purge).
\<close>

theorem flight_plan_same_second:
  assumes "fp_ready alloc tr s" and "plan (ram_slots s) = P" "P \<noteq> {#}"
    and "\<forall>e \<in># P. unixtime e = now + int k \<and> periodical e = 0 \<and>
           length (the (fp_cmd e)) < 248 \<and> length (the (fp_args e)) < 248"
    and "0 \<le> now" "now + int k + 1 + int j \<le> 2147483648" and "repo_ready repo"
  shows "\<exists>e s' nc. e \<in># P \<and> cmd_get_str (the (fp_cmd e)) repo = Some nc \<and>
     flight_plan_run (ram_cfg alloc tr) repo now (k + Suc j) s =
       Some (map (\<lambda>x. (x, None)) [now..now + int k - 1] @
             (now + int k, cmd_add_params_str nc (the (fp_args e))) #
             map (\<lambda>x. (x, None)) [now + int k + 1..now + int k + 1 + int j - 1], s') \<and>
     fp_ready alloc tr s' \<and> plan (ram_slots s') = P - {#e#}"
proof -
  have counted: "ram_repo.counted alloc tr s" using assms(1) by (simp add: fp_ready_counted)
  have "in_int (now + int k)" using assms(5,6) by (simp add: in_int_def)
  then show ?thesis
    using ram_repo.run_same_second [OF counted, of now k j repo] assms(2-7)
    by (simp add: fp_ready_counted ready_lookup)
qed

theorem flight_plan_same_second_witness:
  "\<exists>s s1 s2 s3 r e out. dat_repo_init True (ram_cfg alloc_all False) ram_zero = Some s \<and>
     cmd_repo_init True True True cmd_repo_zero = Some (CMD_OK, r) \<and>
     dat_set_fp (ram_cfg alloc_all False) 101 (Some ''obc_ident'') (Some '''') 1 0 s = Some (0, s1) \<and>
     dat_set_fp (ram_cfg alloc_all False) 101 (Some ''obc_debug'') (Some ''1'') 1 0 s1 = Some (0, s2) \<and>
     flight_plan_run (ram_cfg alloc_all False) r 100 10 s2 = Some (out, s3) \<and>
     plan (ram_slots s3) = {#e#} \<and> unixtime e = 101"
proof (rule ram_init_inv [of False], rule init_zero_table)
  let ?cfg = "ram_cfg alloc_all False"
  fix s r
  assume init: "dat_repo_init True ?cfg ram_zero = Some s"
    "cmd_repo_init True True True cmd_repo_zero = Some (CMD_OK, r)"
    and s: "plan (ram_slots s) = {#}" "fp_ready alloc_all False s" and r: "repo_ready r"
  let ?a = "fp_sched ''obc_ident'' '''' 0 101 1" and ?b = "fp_sched ''obc_debug'' ''1'' 0 101 1"
  have "ram_repo.counted alloc_all False s" using s(2) by (simp add: fp_ready_counted)
  from ram_repo.set_fp [OF this, of 101 "''obc_ident''" "''''" 1 0] obtain s1 where
      s1: "dat_set_fp ?cfg 101 (Some ''obc_ident'') (Some '''') 1 0 s = Some (0, s1)"
        "ram_repo.counted alloc_all False s1" "plan (ram_slots s1) = {#?a#}"
    by (auto simp: s(1) fp_sched_def SCH_ST_OK_def)
  from ram_repo.set_fp [OF s1(2), of 101 "''obc_debug''" "''1''" 1 0] obtain s2 where
      s2: "dat_set_fp ?cfg 101 (Some ''obc_debug'') (Some ''1'') 1 0 s1 = Some (0, s2)"
        "fp_ready alloc_all False s2" "plan (ram_slots s2) = {#?a, ?b#}"
    by (auto simp: s1(3) fp_ready_counted fp_sched_def SCH_ST_OK_def)
  have "\<exists>e s3 nc. e \<in># {#?a, ?b#} \<and> cmd_get_str (the (fp_cmd e)) r = Some nc \<and>
     flight_plan_run ?cfg r 100 (1 + Suc 8) s2 =
       Some (map (\<lambda>x. (x, None)) [100..100 + int 1 - 1] @
             (100 + int 1, cmd_add_params_str nc (the (fp_args e))) #
             map (\<lambda>x. (x, None)) [100 + int 1 + 1..100 + int 1 + 1 + int 8 - 1], s3) \<and>
     fp_ready alloc_all False s3 \<and> plan (ram_slots s3) = {#?a, ?b#} - {#e#}"
    by (rule flight_plan_same_second [OF s2(2,3)]) (auto simp: r fp_sched_def)
  then obtain e s3 out where e: "e \<in># {#?a, ?b#}" "plan (ram_slots s3) = {#?a, ?b#} - {#e#}"
      and run: "flight_plan_run ?cfg r 100 (1 + Suc 8) s2 = Some (out, s3)" by blast
  have ten: "(1 + Suc 8 :: nat) = 10" by simp
  have "plan (ram_slots s3) = {#?a#} \<or> plan (ram_slots s3) = {#?b#}" using e by auto
  moreover have "unixtime ?a = 101" "unixtime ?b = 101" by (simp_all add: fp_sched_def)
  ultimately show ?thesis using init s1(1) s2(1) run unfolding ten by blast
qed

section \<open>The watchdog and the start-up counters over any storage\<close>

context status_repo
begin

lemma watchdog_tick_step:
  assumes "inv s" and "0 \<le> sys s dat_obc_sw_wdt" "sys s dat_obc_sw_wdt + 1 < 2147483648"
    and "t \<le> 60" and rst: "cmd_get_str ''obc_reset_wdt'' repo = Some rst"
    "cmd_build_from_str ''obc_reset 1'' repo = Some rb"
  shows "\<exists>s'. watchdog_tick cfg repo (of_nat t) s =
       Some (of_nat (Suc t mod 61),
             (if Suc t mod 61 = 0 then [rst] else []) @
             (if sys s dat_obc_sw_wdt + 1 > 172800 then [rb] else []), s') \<and>
     inv s' \<and> sys s' dat_obc_sw_wdt = sys s dat_obc_sw_wdt + 1"
proof -
  let ?w = "sys s dat_obc_sw_wdt" and ?W = "word_of_int (sys s dat_obc_sw_wdt) + 1 :: 32 word"
  have W: "?W = word_of_int (?w + 1)" by simp
  have u: "uint ?W = ?w + 1"
    unfolding W uint_word_of_int using assms(2,3) by (intro mod_pos_pos_trivial) simp_all
  have sw: "sint ?W = ?w + 1"
    unfolding W using assms(2,3) by (intro v_i_of_i [unfolded v_i_def of_i_def]) (simp add: in_int_def)
  have gnd: "?W > word_of_int SCH_MAX_GND_WDT_TIMER \<longleftrightarrow> ?w + 1 > 172800"
    unfolding word_less_def u by (simp add: config_defs)
  have obc: "(of_nat t + 1 :: 32 word) > word_of_int SCH_MAX_WDT_TIMER \<longleftrightarrow> t = 60"
    using assms(4) by (simp add: word_less_nat_alt config_defs unat_word_ariths unat_of_nat) arith
  have i: "0 \<le> dat_obc_sw_wdt" "dat_obc_sw_wdt < 17" by (simp_all add: addr_defs)
  have in_w: "in_int (?w + 1)" using assms(2,3) by (simp add: in_int_def)
  obtain s' where s': "dat_set_system_var cfg dat_obc_sw_wdt (?w + 1) s = Some (SCH_ST_OK, s')"
      "inv s'" "sys s' dat_obc_sw_wdt = ?w + 1"
    using set_sys [OF assms(1) i in_w] i by metis
  have "Suc t mod 61 = (if t = 60 then 0 else Suc t)" using assms(4) by auto
  then show ?thesis
    using get_sys [OF assms(1) i] s' rst obc gnd sw
    by (auto simp: watchdog_tick_def Let_def add_ac)
qed

lemma watchdog_run_from:
  assumes "inv s" and "0 \<le> sys s dat_obc_sw_wdt" "sys s dat_obc_sw_wdt + int k < 2147483648"
    and rst: "cmd_get_str ''obc_reset_wdt'' repo = Some rst"
    "cmd_build_from_str ''obc_reset 1'' repo = Some rb"
  shows "\<exists>s'. watchdog_run cfg repo k (of_nat (t mod 61)) s =
       Some (of_nat ((t + k) mod 61),
             map (\<lambda>i. (if (t + i) mod 61 = 0 then [rst] else []) @
                      (if sys s dat_obc_sw_wdt + int i > 172800 then [rb] else [])) [1..<Suc k], s') \<and>
     inv s' \<and> sys s' dat_obc_sw_wdt = sys s dat_obc_sw_wdt + int k"
  using assms(1-3)
proof (induction k arbitrary: s t)
  case (Suc k)
  let ?w = "sys s dat_obc_sw_wdt"
  have "t mod 61 \<le> 60" by (simp add: less_Suc_eq_le [symmetric])
  with watchdog_tick_step [OF Suc.prems(1,2) _ _ rst, of "t mod 61"] Suc.prems(3)
  obtain s1 where s1: "watchdog_tick cfg repo (of_nat (t mod 61)) s =
       Some (of_nat (Suc t mod 61), (if Suc t mod 61 = 0 then [rst] else []) @
             (if ?w + 1 > 172800 then [rb] else []), s1)"
      "inv s1" "sys s1 dat_obc_sw_wdt = ?w + 1" by (auto simp: mod_Suc_eq)
  obtain s2 where s2: "watchdog_run cfg repo k (of_nat (Suc t mod 61)) s1 =
       Some (of_nat ((Suc t + k) mod 61),
             map (\<lambda>i. (if (Suc t + i) mod 61 = 0 then [rst] else []) @
                      (if ?w + 1 + int i > 172800 then [rb] else [])) [1..<Suc k], s2)"
      "inv s2" "sys s2 dat_obc_sw_wdt = ?w + 1 + int k"
    using Suc.IH [OF s1(2), of "Suc t"] s1(3) Suc.prems(2,3) by auto
  have list: "[1..<Suc (Suc k)] = 1 # map Suc [1..<Suc k]"
    unfolding map_Suc_upt by (subst upt_conv_Cons) (simp_all del: upt_Suc)
  show ?case
    unfolding list watchdog_run.simps s1(1) using s2
    by (simp add: add_ac comp_def del: upt_Suc)
qed simp

lemma init_update_vars:
  assumes "inv s" and "sys s dat_obc_reset_counter < 2147483647"
  obtains s' where "init_update_status_vars cfg s = Some (SCH_ST_OK, s')" "inv s'"
    "\<And>j. 0 \<le> j \<Longrightarrow> j < 17 \<Longrightarrow> sys s' j =
       (if j = dat_obc_reset_counter then sys s j + 1
        else if j \<in> {dat_obc_hrs_wo_reset, dat_obc_sw_wdt} then 0 else sys s j)"
proof -
  have i: "0 \<le> dat_obc_hrs_wo_reset" "dat_obc_hrs_wo_reset < 17" "0 \<le> dat_obc_reset_counter"
    "dat_obc_reset_counter < 17" "0 \<le> dat_obc_sw_wdt" "dat_obc_sw_wdt < 17"
    "dat_obc_reset_counter \<noteq> dat_obc_hrs_wo_reset" "dat_obc_reset_counter \<noteq> dat_obc_sw_wdt"
    by (simp_all add: addr_defs)
  have z: "in_int 0" by (simp add: in_int_def)
  obtain s1 where s1: "dat_set_system_var cfg dat_obc_hrs_wo_reset 0 s = Some (SCH_ST_OK, s1)" "inv s1"
      "\<And>j. 0 \<le> j \<Longrightarrow> j < 17 \<Longrightarrow> sys s1 j = (if dat_obc_hrs_wo_reset = j then 0 else sys s j)"
    using set_sys [OF assms(1) i(1,2) z] by metis
  let ?n = "sys s dat_obc_reset_counter"
  have n: "dat_get_system_var cfg dat_obc_reset_counter s1 = Some ?n"
    using get_sys [OF s1(2) i(3,4)] s1(3) [OF i(3,4)] i(7) by simp
  have "in_int ?n" by (simp add: sys_def)
  then have n1: "in_int (?n + 1)" using assms(2) by (simp add: in_int_def)
  obtain s2 where s2: "dat_set_system_var cfg dat_obc_reset_counter (?n + 1) s1 = Some (SCH_ST_OK, s2)"
      "inv s2" "\<And>j. 0 \<le> j \<Longrightarrow> j < 17 \<Longrightarrow> sys s2 j = (if dat_obc_reset_counter = j then ?n + 1 else sys s1 j)"
    using set_sys [OF s1(2) i(3,4) n1] by metis
  obtain s3 where s3: "dat_set_system_var cfg dat_obc_sw_wdt 0 s2 = Some (SCH_ST_OK, s3)" "inv s3"
      "\<And>j. 0 \<le> j \<Longrightarrow> j < 17 \<Longrightarrow> sys s3 j = (if dat_obc_sw_wdt = j then 0 else sys s2 j)"
    using set_sys [OF s2(2) i(5,6) z] by metis
  show thesis
  proof (rule that)
    show "init_update_status_vars cfg s = Some (SCH_ST_OK, s3)"
      using s1(1) n n1 s2(1) s3(1)
      by (simp add: init_update_status_vars_def SCH_ST_OK_def in_int_def)
    show "inv s3" by (rule s3(2))
    fix j :: int assume "0 \<le> j" "j < 17"
    then show "sys s3 j = (if j = dat_obc_reset_counter then sys s j + 1
        else if j \<in> {dat_obc_hrs_wo_reset, dat_obc_sw_wdt} then 0 else sys s j)"
      using s1(3) s2(3) s3(3) i(7,8) by auto
  qed
qed

end

text \<open>
  the watchdog task. After \<open>k\<close> rounds (one per second) from the start of the task the variable
  \<^verbatim>\<open>dat_obc_sw_wdt\<close> has counted \<open>k\<close> seconds; \<^verbatim>\<open>obc_reset_wdt\<close> is sent in round \<open>i\<close> exactly when \<open>i\<close> is a
  multiple of 61 (one more than \<^verbatim>\<open>SCH_MAX_WDT_TIMER\<close>), and \<^verbatim>\<open>obc_reset 1\<close> exactly when the count has
  gone above \<^verbatim>\<open>SCH_MAX_GND_WDT_TIMER\<close> (48 hours without a clear from ground).
\<close>

theorem watchdog_counts:
  assumes "ram_inv data_map (n_copies tr) s"
    and "dat_get_system_var (ram_cfg alloc tr) dat_obc_sw_wdt s = Some w"
    and "0 \<le> w" "w + int k < 2147483648"
    and "cmd_get_str ''obc_reset_wdt'' repo = Some rst"
    and "cmd_build_from_str ''obc_reset 1'' repo = Some rb"
  shows "\<exists>s'. watchdog_run (ram_cfg alloc tr) repo k 0 s =
       Some (of_nat (k mod 61),
             map (\<lambda>i. (if i mod 61 = 0 then [rst] else []) @
                      (if w + int i > 172800 then [rb] else [])) [1..<Suc k], s') \<and>
     dat_get_system_var (ram_cfg alloc tr) dat_obc_sw_wdt s' = Some (w + int k)"
proof -
  have i: "0 \<le> dat_obc_sw_wdt" "dat_obc_sw_wdt < 17" by (simp_all add: addr_defs)
  note get = ram_repo.get_sys [OF _ i, of tr _ alloc]
  have w: "ram_repo.sys alloc tr s dat_obc_sw_wdt = w" using get [OF assms(1)] assms(2) by simp
  have "\<exists>s'. watchdog_run (ram_cfg alloc tr) repo k (of_nat (0 mod 61)) s =
       Some (of_nat ((0 + k) mod 61),
             map (\<lambda>i. (if (0 + i) mod 61 = 0 then [rst] else []) @
                      (if ram_repo.sys alloc tr s dat_obc_sw_wdt + int i > 172800 then [rb] else []))
               [1..<Suc k], s') \<and>
     ram_inv data_map (n_copies tr) s' \<and>
     ram_repo.sys alloc tr s' dat_obc_sw_wdt = ram_repo.sys alloc tr s dat_obc_sw_wdt + int k"
    using assms(1,3-6) w by (intro ram_repo.watchdog_run_from) simp_all
  then show ?thesis unfolding w using get by (auto simp del: upt_Suc)
qed

theorem watchdog_counts_witness:
  "\<exists>s r s' rst t out. dat_repo_init True (ram_cfg alloc_all False) ram_zero = Some s \<and>
     cmd_repo_init True True True cmd_repo_zero = Some (CMD_OK, r) \<and>
     cmd_get_str ''obc_reset_wdt'' r = Some rst \<and>
     watchdog_run (ram_cfg alloc_all False) r 61 0 s = Some (t, out, s') \<and>
     out ! 59 = [] \<and> out ! 60 = [rst] \<and>
     dat_get_system_var (ram_cfg alloc_all False) dat_obc_sw_wdt s' = Some 61"
proof (rule init_zero_table, rule ram_repo_init [of alloc_all False])
  fix r s
  let ?cfg = "ram_cfg alloc_all False"
  assume r: "cmd_repo_init True True True cmd_repo_zero = Some (CMD_OK, r)" "repo_ready r"
    and s: "dat_repo_init True ?cfg ram_zero = Some s" "ram_inv data_map (n_copies False) s"
      "\<And>j. j < 17 \<Longrightarrow> vote False (ram_vars s) j = sv_value (dat_get_status_var_def (int j))"
  have zero: "dat_get_system_var ?cfg dat_obc_sw_wdt s = Some 0"
    using ram_repo.get_var [OF s(2), of 5 alloc_all]
    by (simp add: s(3) dat_get_system_var_def addr_defs)
      (simp add: dat_get_status_var_def_def dat_status_list_def sys_var_def addr_defs in_int_def)
  obtain rst where rst: "cmd_get_str ''obc_reset_wdt'' r = Some rst"
    using ready_lookup [OF r(2)] by blast
  obtain rb where rb: "cmd_build_from_str ''obc_reset 1'' r = Some rb"
    using build_words [OF r(2), of "''obc_reset''" "'' ''" "''1''"] by (simp add: is_space_def)
  have "\<exists>s'. watchdog_run ?cfg r 61 0 s =
       Some (of_nat (61 mod 61),
             map (\<lambda>i. (if i mod 61 = 0 then [rst] else []) @
                      (if 0 + int i > 172800 then [rb] else [])) [1..<Suc 61], s') \<and>
     dat_get_system_var ?cfg dat_obc_sw_wdt s' = Some (0 + int 61)"
    by (rule watchdog_counts [OF s(2) zero _ _ rst rb]) simp_all
  then show ?thesis using r(1) s(1) rst by (fastforce simp: nth_append simp del: upt_Suc)
qed (simp add: alloc_all_def)

text \<open>
  The variables at start-up. \<^verbatim>\<open>init_update_status_vars\<close> counts the reset (as long as the counter
  has not reached \<^verbatim>\<open>INT_MAX\<close>, where the addition would overflow), sets the hours without reset and the
  ground watchdog to zero, and leaves the fourteen other variables alone.
\<close>

theorem init_update_status_vars_counts:
  assumes "ram_inv data_map (n_copies tr) s"
    and "dat_get_system_var (ram_cfg alloc tr) dat_obc_reset_counter s = Some n" "n < 2147483647"
  shows "\<exists>s'. init_update_status_vars (ram_cfg alloc tr) s = Some (SCH_ST_OK, s') \<and>
     (\<forall>j. 0 \<le> j \<longrightarrow> j < 17 \<longrightarrow> dat_get_system_var (ram_cfg alloc tr) j s' =
        (if j = dat_obc_reset_counter then Some (n + 1)
         else if j \<in> {dat_obc_hrs_wo_reset, dat_obc_sw_wdt} then Some 0
         else dat_get_system_var (ram_cfg alloc tr) j s))"
proof -
  have i: "0 \<le> dat_obc_reset_counter" "dat_obc_reset_counter < 17" by (simp_all add: addr_defs)
  have n: "ram_repo.sys alloc tr s dat_obc_reset_counter = n"
    using ram_repo.get_sys [OF assms(1) i, of alloc] assms(2) by simp
  from ram_repo.init_update_vars [OF assms(1), of alloc] n assms(3) obtain s' where
      s': "init_update_status_vars (ram_cfg alloc tr) s = Some (SCH_ST_OK, s')"
        "ram_inv data_map (n_copies tr) s'"
        "\<And>j. 0 \<le> j \<Longrightarrow> j < 17 \<Longrightarrow> ram_repo.sys alloc tr s' j =
           (if j = dat_obc_reset_counter then ram_repo.sys alloc tr s j + 1
            else if j \<in> {dat_obc_hrs_wo_reset, dat_obc_sw_wdt} then 0
            else ram_repo.sys alloc tr s j)" by metis
  show ?thesis
    using s'(1,3) n ram_repo.get_sys [OF s'(2), of _ alloc] ram_repo.get_sys [OF assms(1), of _ alloc]
    by (intro exI [of _ s']) auto
qed

context flight_repo
begin

lemma init_update_counted:
  assumes "counted s" and "sys s dat_obc_reset_counter < 2147483647"
  obtains s' where "init_update_status_vars cfg s = Some (SCH_ST_OK, s')" "counted s'"
    "slots s' = slots s"
proof -
  have inv: "inv s" using assms(1) by (simp add: counted_def)
  obtain s' where ok: "init_update_status_vars cfg s = Some (SCH_ST_OK, s')"
    using init_update_vars [OF inv assms(2)] by metis
  note addr = addr_defs in_int_def
  obtain s1 where s1: "dat_set_system_var cfg dat_obc_hrs_wo_reset 0 s = Some (SCH_ST_OK, s1)"
      "counted s1" "slots s1 = slots s"
    using set_other_counted [OF assms(1), of dat_obc_hrs_wo_reset 0] by (auto simp: addr)
  obtain n where n: "dat_get_system_var cfg dat_obc_reset_counter s1 = Some n" "in_int (n + 1)"
    using ok s1(1) by (auto simp: init_update_status_vars_def cint_def split: bind_splits if_splits)
  obtain s2 where s2: "dat_set_system_var cfg dat_obc_reset_counter (n + 1) s1 = Some (SCH_ST_OK, s2)"
      "counted s2" "slots s2 = slots s1"
    using set_other_counted [OF s1(2) _ _ _ n(2), of dat_obc_reset_counter] by (auto simp: addr)
  obtain s3 where "dat_set_system_var cfg dat_obc_sw_wdt 0 s2 = Some (SCH_ST_OK, s3)"
      "counted s3" "slots s3 = slots s2"
    using set_other_counted [OF s2(2), of dat_obc_sw_wdt 0] by (auto simp: addr)
  then show thesis
    using that ok s1 n s2 by (auto simp: init_update_status_vars_def split: bind_splits)
qed

end

text \<open>
  C28: a cold start. With memory available and the clock anywhere below 2038, \<^verbatim>\<open>taskInit\<close> sets up the
  command table (every built-in command can be looked up by its name) and a data repository whose flight
  plan is empty and whose counter is in step, for every choice of the build options.
\<close>

theorem taskInit_cold_start:
  assumes "\<forall>n. alloc n" and "0 \<le> now" "now < 2147483647"
  shows "\<exists>r s. taskInit con fp comm True (ram_cfg alloc tr) now cmd_repo_zero ram_zero = Some (r, s) \<and>
     repo_ready r \<and> fp_ready alloc tr s \<and> plan (ram_slots s) = {#} \<and>
     (\<forall>i < length (core_cmds con fp comm).
        cmd_get_str (fst (core_cmds con fp comm ! i)) r =
          Some (Some (entry_cmd i (reg_entry (core_cmds con fp comm ! i)))))"
proof -
  let ?regs = "core_cmds con fp comm" and ?cfg = "ram_cfg alloc tr"
  have "length (cmd_list cmd_repo_zero) = 255" by (simp add: cmd_repo_zero_def)
  from cmd_repo_init_table [OF this refl] obtain r where
      r: "cmd_repo_init con fp comm cmd_repo_zero = Some (CMD_OK, r)" "repo_ready r"
        "cmd_list r = map reg_entry ?regs @ replicate (255 - length ?regs) null_entry" by blast
  have look: "cmd_get_str (fst (?regs ! i)) r = Some (Some (entry_cmd i (reg_entry (?regs ! i))))"
    if "i < length ?regs" for i
    using that find_reg [OF core_cmds_distinct_any that]
    by (simp add: cmd_get_str_ready [OF r(2)] r(3) nth_append del: reg_entry.simps)
  obtain s where s: "dat_repo_init True ?cfg ram_zero = Some s" "ram_inv data_map (n_copies tr) s"
      "plan (ram_slots s) = {#}"
      "\<And>j. j < 17 \<Longrightarrow> vote tr (ram_vars s) j = sv_value (dat_get_status_var_def (int j))"
    using ram_repo_init [of alloc tr] assms(1) by blast
  have zero: "sv_value (dat_get_status_var_def 4) = 0" "sv_value (dat_get_status_var_def 14) = 0"
    by (simp_all add: dat_get_status_var_def_def dat_status_list_def sys_var_def addr_defs of_i_def)
  have "ram_repo.sys alloc tr s dat_obc_reset_counter = 0" "ram_repo.sys alloc tr s dat_fpl_queue = 0"
    using ram_repo.get_sys [OF s(2), of 4 alloc] ram_repo.get_sys [OF s(2), of 14 alloc]
      ram_repo.get_var [OF s(2), of 4 alloc] ram_repo.get_var [OF s(2), of 14 alloc] zero
    by (simp_all add: s(4) dat_get_system_var_def addr_defs v_i_def)
  then have "ram_repo.counted alloc tr s" and "ram_repo.sys alloc tr s dat_obc_reset_counter < 2147483647"
    using s(2,3) by (simp_all add: ram_repo.counted_def)
  then obtain s1 where s1: "init_update_status_vars ?cfg s = Some (SCH_ST_OK, s1)"
      "ram_repo.counted alloc tr s1" "ram_slots s1 = ram_slots s"
    by (rule ram_repo.init_update_counted)
  have "ram_inv data_map (n_copies tr) s1" using s1(2) by (simp add: ram_repo.counted_def)
  from ram_repo.purge_fp [OF this assms(2,3), of alloc] obtain s2 where
      s2: "dat_purge_fp ?cfg now s1 = Some (SCH_ST_OK, s2)" "ram_repo.counted alloc tr s2"
        "plan (ram_slots s2) = {#}"
    using s(3) s1(3) by auto
  have "taskInit con fp comm True ?cfg now cmd_repo_zero ram_zero = Some (r, s2)"
    using r(1) s(1) s1(1) s2(1) by (simp add: taskInit_def)
  then show ?thesis using r(2) s2(2,3) look fp_ready_counted by blast
qed

theorem taskInit_cold_start_witness:
  "\<exists>r s. taskInit True True True True (ram_cfg alloc_all True) 1600000000 cmd_repo_zero ram_zero =
       Some (r, s) \<and> repo_ready r \<and> fp_ready alloc_all True s \<and> plan (ram_slots s) = {#}"
proof -
  have "\<forall>n. alloc_all n" by (simp add: alloc_all_def)
  from taskInit_cold_start [OF this, of 1600000000 True True True True] show ?thesis by auto
qed

end
