(* ===== verification/Os_Time.thy ===== *)
theory Os_Time
  imports C_Prelude
begin

text \<open>
  Ticks and delays: src/os/linux/osDelay.c and src/os/sim/osDelay.c. Ticks are microseconds in an
  \<^verbatim>\<open>unsigned long\<close> of 64 bits, delays are milliseconds in a \<^verbatim>\<open>uint32_t\<close>; the products of the code wrap
  at the width of their operands.
\<close>

section \<open>Linux\<close>

definition osDefineTime :: "32 word \<Rightarrow> 64 word" where
  "osDefineTime mseconds = ucast mseconds * 1000"

text \<open>The readings of \<^verbatim>\<open>CLOCK_MONOTONIC_RAW\<close> are seconds and nanoseconds.\<close>

definition osTaskGetTickCount :: "int \<Rightarrow> int \<Rightarrow> 64 word" where
  "osTaskGetTickCount tv_sec tv_nsec = word_of_int (tv_sec * 1000000 + tv_nsec div 1000)"

text \<open>The argument of \<^verbatim>\<open>usleep\<close>.\<close>

definition osDelay :: "32 word \<Rightarrow> 32 word" where
  "osDelay mseconds = mseconds * 1000"

text \<open>
  \<open>c1\<close> is the first reading of the ticks and \<open>c2\<close> the second, after the sleep if there is one. The
  result is the argument of \<^verbatim>\<open>osDelay\<close> (\<open>None\<close>: no sleep) and the new \<^verbatim>\<open>*lastTime\<close>.
\<close>

definition osTaskDelayUntil :: "64 word \<Rightarrow> 64 word \<Rightarrow> 64 word \<Rightarrow> 32 word \<Rightarrow> 32 word option \<times> 64 word" where
  "osTaskDelayUntil c1 c2 lastTime mseconds =
     (let c_usec = c1;
          d_usec = c_usec - lastTime;
          s_usec = osDefineTime mseconds
      in if d_usec > s_usec then (None, c2 - (d_usec - s_usec))
         else (let s_msec = ucast ((s_usec - d_usec) div 1000) in (Some s_msec, c2)))"

section \<open>Simulated time\<close>

record sim_time =
  ticks_us :: "64 word"
  sim_unixtime :: int

definition sim_zero :: sim_time where
  "sim_zero = \<lparr>ticks_us = 0, sim_unixtime = 0\<rparr>"

definition sim_osTaskSetTickCount :: "64 word \<Rightarrow> sim_time \<Rightarrow> sim_time" where
  "sim_osTaskSetTickCount new_tick_us t = t\<lparr>ticks_us := new_tick_us\<rparr>"

definition sim_delay_target :: "32 word \<Rightarrow> sim_time \<Rightarrow> 64 word" where
  "sim_delay_target mseconds t = ucast (mseconds * 1000 :: 32 word) + ticks_us t"

text \<open>
  The wait on the condition variable: \<open>ws\<close> are the ticks set while the thread waits, one per broadcast.
  \<open>None\<close>: still waiting after all of them.
\<close>

fun sim_wait :: "64 word \<Rightarrow> 64 word list \<Rightarrow> sim_time \<Rightarrow> sim_time option" where
  "sim_wait max_ticks_us ws t =
     (if ticks_us t < max_ticks_us
      then (case ws of
              [] \<Rightarrow> None
            | w # ws' \<Rightarrow> sim_wait max_ticks_us ws' (sim_osTaskSetTickCount w t))
      else Some t)"

declare sim_wait.simps [simp del]

definition sim_osDelay :: "32 word \<Rightarrow> 64 word list \<Rightarrow> sim_time \<Rightarrow> sim_time option" where
  "sim_osDelay mseconds ws t = sim_wait (sim_delay_target mseconds t) ws t"

definition sim_osTaskDelayUntil ::
    "64 word \<Rightarrow> 32 word \<Rightarrow> 64 word list \<Rightarrow> sim_time \<Rightarrow> (64 word \<times> sim_time) option" where
  "sim_osTaskDelayUntil lastTime mseconds ws t =
     (let c_usec = ticks_us t;
          d_usec = c_usec - lastTime;
          s_usec = osDefineTime mseconds
      in if d_usec > s_usec then Some (ticks_us t - (d_usec - s_usec), t)
         else do { let s_msec = ucast ((s_usec - d_usec) div 1000);
                   t' \<leftarrow> sim_osDelay s_msec ws t;
                   Some (ticks_us t', t') })"

text \<open>\<^verbatim>\<open>osSetTimeUnix\<close> has no \<^verbatim>\<open>return\<close> statement: only the state after it is specified.\<close>

definition sim_osSetTimeUnix :: "int \<Rightarrow> sim_time \<Rightarrow> sim_time" where
  "sim_osSetTimeUnix time t = t\<lparr>sim_unixtime := time\<rparr>"

definition sim_osGetTimeUnix :: "sim_time \<Rightarrow> int" where
  "sim_osGetTimeUnix t = sim_unixtime t"

section \<open>Lemmas\<close>

lemma unat_bound: "unat (w :: 'a::len word) < 2 ^ LENGTH('a)"
  by (rule unsigned_less)

lemma unat_ucast_small: "unat w < 2 ^ LENGTH('b) \<Longrightarrow> unat (ucast w :: 'b::len word) = unat w"
  by (simp add: unsigned_ucast_eq take_bit_nat_eq_self)

lemma unat_osDefineTime: "unat (osDefineTime ms) = unat ms * 1000"
proof -
  have u: "unat (ucast ms :: 64 word) = unat ms"
    using unat_bound [of ms] by (intro unat_ucast_small) simp
  show ?thesis
    using unat_bound [of ms] by (simp add: osDefineTime_def unat_word_ariths u)
qed

lemma unat_osDelay: "unat (osDelay ms) = (unat ms * 1000) mod 2 ^ 32"
  by (simp add: osDelay_def unat_word_ariths)

text \<open>The sleep of the code, when it sleeps: the time left, in whole milliseconds.\<close>

lemma delay_until_sleep:
  assumes "unat d \<le> unat ms * 1000"
  shows "unat (ucast ((osDefineTime ms - d) div 1000) :: 32 word) = (unat ms * 1000 - unat d) div 1000"
proof -
  let ?s = "osDefineTime ms"
  have sub: "unat (?s - d) = unat ms * 1000 - unat d"
    using assms by (simp add: unat_sub word_le_nat_alt unat_osDefineTime)
  have "(unat ms * 1000 - unat d) div 1000 \<le> unat ms" by (simp add: div_le_mono less_mult_imp_div_less)
  then have "(unat ms * 1000 - unat d) div 1000 < 2 ^ 32" using unat_bound [of ms] by simp
  then show ?thesis
    by (subst unat_ucast_small) (simp_all add: unat_div sub)
qed

section \<open>Rounds of a periodic task\<close>

text \<open>
  The loop \<^verbatim>\<open>while(1) { osTaskDelayUntil(&xLastWakeTime, delay_ms); work }\<close> of the tasks. \<open>now\<close> is the second
  reading of the ticks in the round before. \<open>w\<close> is the time until the first reading of this round, that is
  the work of the task; \<open>x\<close> is the time between the two readings beyond what \<^verbatim>\<open>usleep\<close> was asked for. POSIX
  promises that \<^verbatim>\<open>usleep\<close> sleeps at least its argument (if no signal handler interrupts it), so \<open>x\<close> is
  a natural number: the oversleep and the time the calls take. Without a sleep it is only the latter.
\<close>

definition delay_round :: "32 word \<Rightarrow> 64 word \<times> nat \<Rightarrow> 64 word \<times> 64 word \<Rightarrow> 64 word \<times> 64 word" where
  "delay_round ms wx st =
     (let (w, x) = wx;
          (now, lastTime) = st;
          c1 = now + w;
          c2 = (case fst (osTaskDelayUntil c1 c1 lastTime ms) of
                  None \<Rightarrow> c1 + of_nat x | Some s \<Rightarrow> c1 + ucast (osDelay s) + of_nat x)
      in (c2, snd (osTaskDelayUntil c1 c2 lastTime ms)))"

fun delay_rounds :: "32 word \<Rightarrow> (64 word \<times> nat) list \<Rightarrow> 64 word \<times> 64 word \<Rightarrow> 64 word \<times> 64 word" where
  "delay_rounds ms [] st = st"
| "delay_rounds ms (wx # wxs) st = delay_rounds ms wxs (delay_round ms wx st)"

lemma osDefineTime_nat: "osDefineTime ms = of_nat (unat ms * 1000)"
  using unat_osDefineTime [of ms] by (metis unsigned_word_eqI unat_of_nat word_nchotomy of_nat_unat ucast_id)

lemma delay_until_late:
  assumes "unat (c1 - l) > unat ms * 1000"
  shows "osTaskDelayUntil c1 c2 l ms = (None, l + of_nat (unat ms * 1000) + (c2 - c1))"
proof -
  have "c1 - l > osDefineTime ms"
    using assms by (simp add: word_less_nat_alt unat_osDefineTime)
  then show ?thesis
    by (simp add: osTaskDelayUntil_def Let_def osDefineTime_nat algebra_simps)
qed

lemma delay_round_step:
  assumes "unat ms \<le> 4294967"
  shows "\<exists>D. snd (delay_round ms (w, x) (now, l)) = l + of_nat D \<and>
     unat ms * 1000 + x \<le> D + 999 \<and> D \<le> unat ms * 1000 + x"
proof (cases "unat (now + w - l) > unat ms * 1000")
  case True
  then show ?thesis
    using delay_until_late [OF True] by (intro exI [of _ "unat ms * 1000 + x"]) (simp add: delay_round_def Let_def)
next
  case False
  let ?d = "unat (now + w - l)"
  define s :: "32 word" where "s = ucast ((osDefineTime ms - (now + w - l)) div 1000)"
  have "\<not> now + w - l > osDefineTime ms"
    using False by (simp add: word_less_nat_alt unat_osDefineTime)
  then have s: "\<And>c2. osTaskDelayUntil (now + w) c2 l ms = (Some s, c2)"
      "unat s = (unat ms * 1000 - ?d) div 1000"
    using False delay_until_sleep by (simp_all add: osTaskDelayUntil_def Let_def s_def)
  have "unat s * 1000 \<le> unat ms * 1000" using s(2) by simp
  then have small: "unat s * 1000 < 2 ^ 32" using assms by simp
  then have "unat (osDelay s) = unat s * 1000" by (simp add: unat_osDelay)
  then have us: "(ucast (osDelay s) :: 64 word) = of_nat (unat s * 1000)"
    by (metis of_nat_unat)
  have "snd (delay_round ms (w, x) (now, l)) = now + w + of_nat (unat s * 1000) + of_nat x"
    using s(1) us by (simp add: delay_round_def Let_def)
  also have "\<dots> = l + of_nat (?d + unat s * 1000 + x)" by simp
  finally have "snd (delay_round ms (w, x) (now, l)) = l + of_nat (?d + unat s * 1000 + x)" .
  moreover have "unat s * 1000 \<le> unat ms * 1000 - ?d" unfolding s(2) by (rule div_times_less_eq_dividend)
  moreover have "unat ms * 1000 - ?d \<le> unat s * 1000 + 999"
    unfolding s(2) using div_mult_mod_eq [of "unat ms * 1000 - ?d" 1000]
      mod_less_divisor [of 1000 "unat ms * 1000 - ?d"] by linarith
  ultimately show ?thesis using False by (intro exI [of _ "?d + unat s * 1000 + x"]) auto
qed

lemma sim_wait_find:
  assumes "ticks_us t < m"
  shows "sim_wait m ws t = map_option (\<lambda>i. t\<lparr>ticks_us := ws ! i\<rparr>) (find_idx (\<lambda>w. unat m \<le> unat w) ws)"
  using assms
proof (induction ws arbitrary: t)
  case (Cons w ws)
  show ?case
  proof (cases "w < m")
    case True
    then show ?thesis
      using Cons.prems Cons.IH [of "sim_osTaskSetTickCount w t"]
      by (simp add: sim_wait.simps [of m "w # ws" t] sim_osTaskSetTickCount_def find_idx_Cons
          word_less_nat_alt option.map_comp comp_def)
  next
    case False
    then show ?thesis
      using Cons.prems
      by (simp add: sim_wait.simps [of m "w # ws" t] sim_wait.simps [of m ws] sim_osTaskSetTickCount_def
          find_idx_Cons word_less_nat_alt)
  qed
qed (simp add: sim_wait.simps)

section \<open>Properties\<close>

text \<open>
  C37: the drift of the periodic tasks on Linux. Over any rounds of a task with a period of at most 4294967 ms,
  whatever their work takes, the variable \<^verbatim>\<open>xLastWakeTime\<close> moves by one period per round plus everything the
  sleeps overran and the calls took, less at most 999 microseconds per round (the sleep is cut to whole
  milliseconds); also when a round is late, and across the wrap-around of the tick counter. So a task is
  never released more than a millisecond per round too early, but \<^verbatim>\<open>osTaskDelayUntil\<close> reads the clock for
  \<^verbatim>\<open>lastTime\<close> after the sleep and nothing compensates the overruns: they add up.
\<close>

theorem os_delay_drift:
  assumes "unat ms \<le> 4294967"
  shows "\<exists>D. snd (delay_rounds ms wxs (now, l)) = l + of_nat D \<and>
     length wxs * (unat ms * 1000) + sum_list (map snd wxs) \<le> D + length wxs * 999 \<and>
     D \<le> length wxs * (unat ms * 1000) + sum_list (map snd wxs)"
proof (induction wxs arbitrary: now l)
  case Nil
  show ?case by (rule exI [of _ 0]) simp
next
  case (Cons wx wxs)
  obtain w x where wx: "wx = (w, x)" by (cases wx)
  obtain now1 l1 where st: "delay_round ms wx (now, l) = (now1, l1)" by fastforce
  obtain D1 where D1: "l1 = l + of_nat D1" "unat ms * 1000 + x \<le> D1 + 999" "D1 \<le> unat ms * 1000 + x"
    using delay_round_step [OF assms, of w x now l] st wx by auto
  obtain D2 where D2: "snd (delay_rounds ms wxs (now1, l1)) = l1 + of_nat D2"
      "length wxs * (unat ms * 1000) + sum_list (map snd wxs) \<le> D2 + length wxs * 999"
      "D2 \<le> length wxs * (unat ms * 1000) + sum_list (map snd wxs)"
    using Cons.IH by blast
  show ?case
  proof (intro exI conjI)
    show "snd (delay_rounds ms (wx # wxs) (now, l)) = l + of_nat (D1 + D2)"
      using st D1(1) D2(1) by simp
    show "length (wx # wxs) * (unat ms * 1000) + sum_list (map snd (wx # wxs)) \<le>
        (D1 + D2) + length (wx # wxs) * 999"
      using D1(2) D2(2) wx by simp
    show "D1 + D2 \<le> length (wx # wxs) * (unat ms * 1000) + sum_list (map snd (wx # wxs))"
      using D1(3) D2(3) wx by simp
  qed
qed

theorem os_delay_drift_witness:
  "\<exists>D. snd (delay_rounds 1000 [(250, 70), (3000000, 5), (10, 65)] (0, 0)) = of_nat D \<and>
     2997143 \<le> D \<and> D \<le> 3000140"
proof -
  have "unat (1000 :: 32 word) \<le> 4294967" by simp
  from os_delay_drift [OF this, of "[(250, 70), (3000000, 5), (10, 65)]" 0 0] show ?thesis by auto
qed

text \<open>
  the range of \<^verbatim>\<open>osDelay\<close>. The product \<^verbatim>\<open>mseconds*1000\<close> of the code is a 32-bit product: the sleep is
  the requested one exactly up to 4294967 ms (about 71 minutes), and shorter for every longer request.
  In simulated time a wait up to that limit returns exactly when the ticks reach the requested time.
\<close>

theorem os_delay_range:
  "(unat (osDelay ms) = unat ms * 1000 \<longleftrightarrow> unat ms \<le> 4294967) \<and>
   (unat ms > 4294967 \<longrightarrow> unat (osDelay ms) < unat ms * 1000) \<and>
   (unat ms \<le> 4294967 \<longrightarrow> unat (ticks_us t) + unat ms * 1000 < 2 ^ 64 \<longrightarrow>
      sim_osDelay ms ws t =
        (if ms = 0 then Some t
         else map_option (\<lambda>i. t\<lparr>ticks_us := ws ! i\<rparr>)
                (find_idx (\<lambda>w. unat (ticks_us t) + unat ms * 1000 \<le> unat w) ws)))"
proof (intro conjI impI)
  have lt: "unat (osDelay ms) < 2 ^ 32" using unat_bound [of "osDelay ms"] by simp
  show "unat (osDelay ms) = unat ms * 1000 \<longleftrightarrow> unat ms \<le> 4294967"
    using lt by (auto simp: unat_osDelay)
  show "unat ms > 4294967 \<Longrightarrow> unat (osDelay ms) < unat ms * 1000"
    using lt by simp
  assume ms: "unat ms \<le> 4294967" "unat (ticks_us t) + unat ms * 1000 < 2 ^ 64"
  have "unat (osDelay ms) = unat ms * 1000" using ms(1) by (simp add: unat_osDelay)
  then have "unat (ucast (osDelay ms) :: 64 word) = unat ms * 1000"
    using lt by (subst unat_ucast_small) simp_all
  then have target: "unat (sim_delay_target ms t) = unat (ticks_us t) + unat ms * 1000"
    using ms(2) by (simp add: sim_delay_target_def osDelay_def unat_word_ariths)
  then show "sim_osDelay ms ws t = (if ms = 0 then Some t
         else map_option (\<lambda>i. t\<lparr>ticks_us := ws ! i\<rparr>)
                (find_idx (\<lambda>w. unat (ticks_us t) + unat ms * 1000 \<le> unat w) ws))"
    using sim_wait_find [of t "sim_delay_target ms t" ws]
    by (auto simp: sim_osDelay_def word_less_nat_alt unat_eq_zero sim_wait.simps)
qed

end
