(* ===== verification/Com_Frames.thy ===== *)
theory Com_Frames
  imports Storage
begin

text \<open>
  The frames of src/system/include/suchai/cmdCOM.h and their layout in memory. The frames are packed
  structures of a little-endian host; the byte-order functions of libcsp are a parameter, of which
  the locale \<open>byte_order\<close> states what its documentation promises: a value put in network order and
  taken back is the value.
\<close>

section \<open>Words and bytes\<close>

definition le16 :: "16 word \<Rightarrow> byte list" where
  "le16 w = [of_nat (unat w mod 256), of_nat (unat w div 256)]"

definition le32 :: "32 word \<Rightarrow> byte list" where
  "le32 w = [of_nat (unat w mod 256), of_nat (unat w div 256 mod 256),
             of_nat (unat w div 65536 mod 256), of_nat (unat w div 16777216)]"

definition of_le16 :: "byte \<Rightarrow> byte \<Rightarrow> 16 word" where
  "of_le16 a b = of_nat (unat a + 256 * unat b)"

definition of_le32 :: "byte \<Rightarrow> byte \<Rightarrow> byte \<Rightarrow> byte \<Rightarrow> 32 word" where
  "of_le32 a b c d = of_nat (unat a + 256 * unat b + 65536 * unat c + 16777216 * unat d)"

text \<open>The word at the start of a block.\<close>

definition of_word_bytes :: "byte list \<Rightarrow> value32" where
  "of_word_bytes bs = of_le32 (bs ! 0) (bs ! 1) (bs ! 2) (bs ! 3)"

text \<open>A block seen as an array of 32-bit words; the bytes after the last whole word stay.\<close>

fun map_words :: "(32 word \<Rightarrow> 32 word) \<Rightarrow> byte list \<Rightarrow> byte list" where
  "map_words f (a # b # c # d # r) = le32 (f (of_le32 a b c d)) @ map_words f r"
| "map_words f r = r"

section \<open>Byte order\<close>

record csp_order =
  csp_hton16 :: "16 word \<Rightarrow> 16 word"
  csp_ntoh16 :: "16 word \<Rightarrow> 16 word"
  csp_hton32 :: "32 word \<Rightarrow> 32 word"
  csp_ntoh32 :: "32 word \<Rightarrow> 32 word"

text \<open>What libcsp does on a little-endian host.\<close>

definition swap16 :: "16 word \<Rightarrow> 16 word" where
  "swap16 w = of_le16 (of_nat (unat w div 256)) (of_nat (unat w mod 256))"

definition swap32 :: "32 word \<Rightarrow> 32 word" where
  "swap32 w = of_le32 (of_nat (unat w div 16777216)) (of_nat (unat w div 65536 mod 256))
                (of_nat (unat w div 256 mod 256)) (of_nat (unat w mod 256))"

definition csp_le :: csp_order where
  "csp_le = \<lparr>csp_hton16 = swap16, csp_ntoh16 = swap16, csp_hton32 = swap32, csp_ntoh32 = swap32\<rparr>"

definition order_ok :: "csp_order \<Rightarrow> bool" where
  "order_ok ord \<longleftrightarrow> (\<forall>w. csp_ntoh16 ord (csp_hton16 ord w) = w) \<and>
     (\<forall>w. csp_ntoh32 ord (csp_hton32 ord w) = w)"

definition hton32_buff :: "csp_order \<Rightarrow> byte list \<Rightarrow> byte list" where
  "hton32_buff ord bs = map_words (csp_hton32 ord) bs"

definition ntoh32_buff :: "csp_order \<Rightarrow> byte list \<Rightarrow> byte list" where
  "ntoh32_buff ord bs = map_words (csp_ntoh32 ord) bs"

section \<open>Frames\<close>

definition COM_FRAME_MAX_LEN :: nat where [config_defs]: "COM_FRAME_MAX_LEN = 192"

record com_frame =
  cf_nframe :: "16 word"
  cf_type :: "8 word"
  cf_node :: "8 word"
  cf_ndata :: "32 word"
  cf_data :: "byte list"

record com_frame_file =
  ff_nframe :: "16 word"
  ff_type :: "8 word"
  ff_node :: "8 word"
  ff_fileid :: "16 word"
  ff_total :: "16 word"
  ff_data :: "byte list"

definition frame_bytes :: "com_frame \<Rightarrow> byte list" where
  "frame_bytes f = le16 (cf_nframe f) @ [cf_type f, cf_node f] @ le32 (cf_ndata f) @ cf_data f"

definition file_frame_bytes :: "com_frame_file \<Rightarrow> byte list" where
  "file_frame_bytes f =
     le16 (ff_nframe f) @ [ff_type f, ff_node f] @ le16 (ff_fileid f) @ le16 (ff_total f) @ ff_data f"

text \<open>A cast of a pointer to a frame: the block must be as long as the frame.\<close>

definition as_frame :: "byte list \<Rightarrow> com_frame option" where
  "as_frame bs =
     (if length bs < 8 + COM_FRAME_MAX_LEN then None
      else Some \<lparr>cf_nframe = of_le16 (bs ! 0) (bs ! 1), cf_type = bs ! 2, cf_node = bs ! 3,
                 cf_ndata = of_le32 (bs ! 4) (bs ! 5) (bs ! 6) (bs ! 7),
                 cf_data = take COM_FRAME_MAX_LEN (drop 8 bs)\<rparr>)"

definition as_file_frame :: "byte list \<Rightarrow> com_frame_file option" where
  "as_file_frame bs =
     (if length bs < 8 + COM_FRAME_MAX_LEN then None
      else Some \<lparr>ff_nframe = of_le16 (bs ! 0) (bs ! 1), ff_type = bs ! 2, ff_node = bs ! 3,
                 ff_fileid = of_le16 (bs ! 4) (bs ! 5), ff_total = of_le16 (bs ! 6) (bs ! 7),
                 ff_data = take COM_FRAME_MAX_LEN (drop 8 bs)\<rparr>)"

text \<open>The parameters of a command are characters; the same block as bytes.\<close>

definition bytes_of :: "char list \<Rightarrow> byte list" where
  "bytes_of cs = map (\<lambda>c. of_nat (of_char c)) cs"

definition chars_of :: "byte list \<Rightarrow> char list" where
  "chars_of bs = map (\<lambda>b. char_of (unat b)) bs"

section \<open>Lemmas\<close>

lemma unat_byte [simp]: "n < 256 \<Longrightarrow> unat (of_nat n :: byte) = n"
  by (simp add: unsigned_of_nat take_bit_nat_eq_self)

lemma byte_lt [simp]: "unat (b :: byte) < 256"
  using unsigned_less [of b] by simp

lemma unat16_lt: "unat (w :: 16 word) < 65536"
  using unsigned_less [of w] by simp

lemma unat32_lt: "unat (w :: 32 word) < 4294967296"
  using unsigned_less [of w] by simp

lemma of_le16_le16: "le16 w = [a, b] \<Longrightarrow> of_le16 a b = w"
proof -
  assume "le16 w = [a, b]"
  then have ab: "a = of_nat (unat w mod 256)" "b = of_nat (unat w div 256)" by (auto simp: le16_def)
  have "unat w div 256 < 256" using unat16_lt [of w] by simp
  then have "unat a + 256 * unat b = unat w" unfolding ab by simp
  then show ?thesis by (simp add: of_le16_def)
qed

lemma digits_256:
  "n mod 256 + 256 * (n div 256 mod 256) + 65536 * (n div 65536 mod 256) + 16777216 * (n div 16777216) = n"
  for n :: nat
proof -
  have "n div 65536 = n div 256 div 256" "n div 16777216 = n div 65536 div 256"
    by (simp_all add: div_mult2_eq [symmetric])
  then show ?thesis
    using div_mult_mod_eq [of n 256] div_mult_mod_eq [of "n div 256" 256]
      div_mult_mod_eq [of "n div 65536" 256] by linarith
qed

lemma of_le32_le32: "le32 w = [a, b, c, d] \<Longrightarrow> of_le32 a b c d = w"
proof -
  let ?n = "unat w"
  assume "le32 w = [a, b, c, d]"
  then have abcd: "a = of_nat (?n mod 256)" "b = of_nat (?n div 256 mod 256)"
      "c = of_nat (?n div 65536 mod 256)" "d = of_nat (?n div 16777216)" by (auto simp: le32_def)
  have "?n div 16777216 < 256" using unat32_lt [of w] by simp
  then have "unat a + 256 * unat b + 65536 * unat c + 16777216 * unat d =
      ?n mod 256 + 256 * (?n div 256 mod 256) + 65536 * (?n div 65536 mod 256) + 16777216 * (?n div 16777216)"
    unfolding abcd by simp
  also have "\<dots> = ?n" by (rule digits_256)
  finally show ?thesis by (simp add: of_le32_def)
qed

lemma of_le32_bytes: "le32 (of_le32 a b c d) = [a, b, c, d]"
proof -
  let ?n = "unat a + 256 * unat b + 65536 * unat c + 16777216 * unat d"
  have lt: "unat a < 256" "unat b < 256" "unat c < 256" "unat d < 256" by simp_all
  then have "?n < 4294967296" by linarith
  then have n: "unat (of_le32 a b c d) = ?n"
    unfolding of_le32_def unsigned_of_nat of_nat_id by (intro take_bit_nat_eq_self) simp
  have d: "(x + 256 * y) mod 256 = x" "(x + 256 * y) div 256 = y" if "x < 256" for x y :: nat
    using that by simp_all
  have n': "?n = unat a + 256 * (unat b + 256 * (unat c + 256 * unat d))" by simp
  have "?n mod 256 = unat a" "?n div 256 = unat b + 256 * (unat c + 256 * unat d)"
    unfolding n' using lt by (simp_all only: d)
  moreover have "?n div 65536 = ?n div 256 div 256" "?n div 16777216 = ?n div 256 div 256 div 256"
    by (simp_all add: div_mult2_eq [symmetric])
  ultimately have "?n mod 256 = unat a" "?n div 256 mod 256 = unat b" "?n div 65536 mod 256 = unat c"
      "?n div 16777216 = unat d"
    using lt by (simp_all only: d)
  then show ?thesis unfolding le32_def n by simp
qed
lemma of_word_bytes_le32 [simp]: "of_word_bytes (le32 w @ r) = w"
proof -
  obtain a b c d where n: "le32 w = [a, b, c, d]" by (simp add: le32_def)
  then show ?thesis using of_le32_le32 [OF n] by (simp add: of_word_bytes_def)
qed

lemma le_length [simp]: "length (le16 w) = 2" "length (le32 v) = 4"
  by (simp_all add: le16_def le32_def)

lemma length_map_words [simp]: "length (map_words f bs) = length bs"
  by (induction f bs rule: map_words.induct) simp_all

lemma map_words_inverse:
  assumes "\<And>w. g (f w) = w"
  shows "map_words g (map_words f bs) = bs"
  using assms
proof (induction f bs rule: map_words.induct)
  case (1 f a b c d r)
  obtain a' b' c' d' where le: "le32 (f (of_le32 a b c d)) = [a', b', c', d']"
    by (simp add: le32_def)
  have "of_le32 a' b' c' d' = f (of_le32 a b c d)" using le by (rule of_le32_le32)
  then show ?case
    using 1 le by (simp add: of_le32_bytes)
qed simp_all

lemma as_frame_bytes:
  assumes "length (cf_data f) = COM_FRAME_MAX_LEN"
  shows "as_frame (frame_bytes f @ rest) = Some f"
proof -
  obtain a b where n: "le16 (cf_nframe f) = [a, b]" by (simp add: le16_def)
  obtain w x y z where d: "le32 (cf_ndata f) = [w, x, y, z]" by (simp add: le32_def)
  show ?thesis
    using assms of_le16_le16 [OF n] of_le32_le32 [OF d]
    by (simp add: as_frame_def frame_bytes_def n d)
qed

lemma as_file_frame_bytes:
  assumes "length (ff_data f) = COM_FRAME_MAX_LEN"
  shows "as_file_frame (file_frame_bytes f @ rest) = Some f"
proof -
  obtain a b where n: "le16 (ff_nframe f) = [a, b]" by (simp add: le16_def)
  obtain w x where i: "le16 (ff_fileid f) = [w, x]" by (simp add: le16_def)
  obtain y z where t: "le16 (ff_total f) = [y, z]" by (simp add: le16_def)
  show ?thesis
    using assms of_le16_le16 [OF n] of_le16_le16 [OF i] of_le16_le16 [OF t]
    by (simp add: as_file_frame_def file_frame_bytes_def n i t)
qed

lemma bytes_of_chars [simp]: "bytes_of (chars_of bs) = bs"
  by (simp add: bytes_of_def chars_of_def comp_def)

lemma length_chars_of [simp]: "length (chars_of bs) = length bs" "length (bytes_of cs) = length cs"
  by (simp_all add: chars_of_def bytes_of_def)

lemma chars_of_append: "chars_of (xs @ ys) = chars_of xs @ chars_of ys"
  by (simp add: chars_of_def)

lemma chars_of_bytes [simp]: "chars_of (bytes_of cs) = cs"
  by (simp add: chars_of_def bytes_of_def comp_def)

section \<open>The byte order of libcsp\<close>

locale byte_order =
  fixes ord :: csp_order
  assumes ntoh_hton_16: "csp_ntoh16 ord (csp_hton16 ord w) = w"
    and ntoh_hton_32: "csp_ntoh32 ord (csp_hton32 ord v) = v"
begin

lemma ntoh_hton_buff: "ntoh32_buff ord (hton32_buff ord bs) = bs"
  by (simp add: ntoh32_buff_def hton32_buff_def map_words_inverse ntoh_hton_32)

end

lemma order_ok_byte_order: "order_ok ord \<longleftrightarrow> byte_order ord"
  by (auto simp: order_ok_def byte_order_def)

lemma swap16_swap16: "swap16 (swap16 w) = w"
proof -
  let ?n = "unat w"
  have lt: "?n div 256 < 256" using unat16_lt [of w] by simp
  have "unat (swap16 w) = ?n div 256 + 256 * (?n mod 256)"
  proof -
    have "?n div 256 + 256 * (?n mod 256) < 65536" using lt by linarith
    then show ?thesis
      unfolding swap16_def of_le16_def unsigned_of_nat of_nat_id
      using lt by (simp add: take_bit_nat_eq_self)
  qed
  moreover have "(?n div 256 + 256 * (?n mod 256)) div 256 = ?n mod 256"
    "(?n div 256 + 256 * (?n mod 256)) mod 256 = ?n div 256"
    using lt by simp_all
  ultimately show ?thesis
    using lt by (simp add: swap16_def of_le16_def)
qed

lemma swap32_le32: "le32 (swap32 w) = rev (le32 w)"
  unfolding swap32_def of_le32_bytes by (simp add: le32_def)

lemma le32_inject: "le32 v = le32 w \<Longrightarrow> v = w"
  by (metis of_le32_le32 le32_def)

lemma swap32_swap32: "swap32 (swap32 w) = w"
  by (rule le32_inject) (simp add: swap32_le32)

interpretation csp: byte_order csp_le
  by unfold_locales (simp_all add: csp_le_def swap16_swap16 swap32_swap32)

lemma csp_le_ok: "order_ok csp_le"
  unfolding order_ok_byte_order by (rule csp.byte_order_axioms)

end
