(* ===== verification/Cmd_OBC.thy ===== *)
theory Cmd_OBC
  imports Repo_Command Repo_Data Cmd_FP
begin

text \<open>
  The logger (src/lib/utils/log_utils.c), the processor functions of the x86 target
  (src/drivers/x86/cpu.c) and the commands of src/system/cmdOBC.c and cmdConsole.c. What a command asks
  of the host is a list of events. The lines a command logs as its result (level \<^verbatim>\<open>RES\<close>) are events;
  its error and debug lines are not.
\<close>

section \<open>Logger\<close>

datatype log_dest = LogPrint | LogSend | LogFile

record log_state =
  log_lvl :: "32 word"
  log_node :: "8 word"
  log_function :: "log_dest option"
  log_file_name :: string

definition log_zero :: log_state where
  "log_zero = \<lparr>log_lvl = 0, log_node = 0, log_function = None, log_file_name = ''''\<rparr>"

definition LOG_LVL_RESULT :: "32 word" where [config_defs]: "LOG_LVL_RESULT = 1"
definition LOG_LVL_ERROR :: "32 word" where [config_defs]: "LOG_LVL_ERROR = 2"
definition LOG_LVL_VERBOSE :: "32 word" where [config_defs]: "LOG_LVL_VERBOSE = 6"

definition log_set :: "32 word \<Rightarrow> int \<Rightarrow> log_state \<Rightarrow> log_state option" where
  "log_set level nd st =
     (let st1 = st\<lparr>log_lvl := level\<rparr>
      in if nd = 0 then Some (st1\<lparr>log_function := Some LogPrint\<rparr>)
         else if nd > 0
         then Some (st1\<lparr>log_function := Some LogSend, log_node := word_of_int nd\<rparr>)
         else do { m \<leftarrow> cint (- nd);
                   Some (st1\<lparr>log_function := Some LogFile,
                             log_file_name := take (SCH_BUFF_MAX_LEN - 1)
                               (''suchai_'' @ show_int m @ ''.log'')\<rparr>) })"

text \<open>\<open>sem\<close> is what \<^verbatim>\<open>osSemaphoreCreate\<close> returns.\<close>

definition log_init :: "int \<Rightarrow> 32 word \<Rightarrow> int \<Rightarrow> log_state \<Rightarrow> (int \<times> log_state) option" where
  "log_init sem level nd st = do { st1 \<leftarrow> log_set level nd st; Some (sem, st1) }"

text \<open>What leaves the system.\<close>

datatype os_event =
    Out string                            \<comment> \<open>the terminal\<close>
  | ToFile string string                  \<comment> \<open>a line appended to a file\<close>
  | Packet "8 word" "16 word" string      \<comment> \<open>node, length field and text of a packet\<close>
  | Sys string                            \<comment> \<open>\<^verbatim>\<open>system\<close>\<close>
  | Chdir string
  | Mkdir string

record log_env =
  le_now :: int
  le_buffer :: "nat option"   \<comment> \<open>\<^verbatim>\<open>csp_buffer_get\<close>: the size of the data block, if there is one\<close>
  le_open :: "string \<Rightarrow> bool"  \<comment> \<open>whether a file can be opened for appending\<close>

abbreviation CRLF :: string where
  "CRLF \<equiv> [CHR 0x0D, CHR 0x0A]"

definition log_line :: "log_env \<Rightarrow> string \<Rightarrow> string \<Rightarrow> string \<Rightarrow> string" where
  "log_line env lvl tag msg =
     ''['' @ lvl @ ''][''  @ show_nat (nat (le_now env mod 2 ^ 64)) @ ''][''  @ tag @ ''] '' @ msg @ CRLF"

definition log_print :: "log_env \<Rightarrow> string \<Rightarrow> string \<Rightarrow> string \<Rightarrow> os_event list" where
  "log_print env lvl tag msg = [Out (log_line env lvl tag msg)]"

text \<open>
  \<open>msg\<close> is the formatted message. \<^verbatim>\<open>vsnprintf\<close> writes at most 255 characters but returns the length of
  the whole message, which is the index of the terminator the code writes.
\<close>

definition log_send :: "log_env \<Rightarrow> log_state \<Rightarrow> string \<Rightarrow> os_event list option" where
  "log_send env st msg =
     (case le_buffer env of
        None \<Rightarrow> Some []
      | Some cap \<Rightarrow>
          do { require (SCH_BUFF_MAX_LEN \<le> cap);
               let text = take (SCH_BUFF_MAX_LEN - 1) msg;
               let len = length msg;
               require (len < cap);
               Some [Packet (log_node st) (of_nat len) text] })"

definition log_file :: "log_env \<Rightarrow> log_state \<Rightarrow> string \<Rightarrow> string \<Rightarrow> string \<Rightarrow> os_event list" where
  "log_file env st lvl tag msg =
     (if le_open env (log_file_name st) then [ToFile (log_file_name st) (log_line env lvl tag msg)]
      else [])"

text \<open>The macros of log_utils.h at level \<open>l\<close>; the function pointer is null until \<^verbatim>\<open>log_init\<close>.\<close>

definition log_at ::
    "log_env \<Rightarrow> log_state \<Rightarrow> 32 word \<Rightarrow> string \<Rightarrow> string \<Rightarrow> string \<Rightarrow> os_event list option" where
  "log_at env st l lvl tag msg =
     (if log_lvl st \<ge> l then
        (case log_function st of
           None \<Rightarrow> None
         | Some LogPrint \<Rightarrow> Some (log_print env lvl tag msg)
         | Some LogSend \<Rightarrow> log_send env st msg
         | Some LogFile \<Rightarrow> Some (log_file env st lvl tag msg))
      else Some [])"

definition LOGR :: "log_env \<Rightarrow> log_state \<Rightarrow> string \<Rightarrow> string \<Rightarrow> os_event list option" where
  "LOGR env st tag msg = log_at env st LOG_LVL_RESULT ''RES  '' tag msg"

section \<open>Processor\<close>

text \<open>The parts of the C library that act on the host.\<close>

record os_host =
  os_system :: "string \<Rightarrow> int"
  os_chdir :: "string \<Rightarrow> int"
  os_getcwd :: "string option"
  os_readdir :: "string \<Rightarrow> string list option"
  os_stat :: "string \<Rightarrow> int option"
  os_mkdir :: "string \<Rightarrow> int"

definition cpu_set_unixtime :: "os_host \<Rightarrow> int \<Rightarrow> int \<times> os_event list" where
  "cpu_set_unixtime h time =
     (let cmd = take 63 (''sudo date +%s -s @'' @ show_int time)
      in (if os_system h cmd \<noteq> 0 then 1 else 0, [Sys cmd]))"

definition cpu_debug :: "int \<Rightarrow> int \<times> os_event list" where
  "cpu_debug arg = (1, [Out (''CPU DEBUG '' @ show_int arg @ CRLF)])"

definition cpu_reset_wdt :: "int \<Rightarrow> int" where
  "cpu_reset_wdt arg = 0"

text \<open>The first component: whether the function returns.\<close>

definition cpu_reboot :: "int \<Rightarrow> bool \<times> os_event list" where
  "cpu_reboot arg = (if arg = 0 then (False, []) else if arg = 1 then (True, [Sys ''sudo reboot''])
                     else (False, []))"

definition dat_set_time :: "os_host \<Rightarrow> int \<Rightarrow> int \<times> os_event list" where
  "dat_set_time h new_time = cpu_set_unixtime h new_time"

section \<open>Commands of cmdOBC.c\<close>

text \<open>The name, number and version are set by the build.\<close>

definition obc_ident :: "string \<Rightarrow> int \<Rightarrow> string \<Rightarrow> int \<times> os_event list" where
  "obc_ident name ident version =
     (CMD_OK, [Out (''Name: '' @ name @ CRLF @ ''ID  : '' @ show_int ident @ CRLF @
                    ''Ver : '' @ version @ CRLF @ ''Node: '' @ show_int SCH_COMM_NODE @ CRLF)])"

text \<open>An optional integer parameter.\<close>

definition opt_arg :: "string \<Rightarrow> char list option \<Rightarrow> int \<Rightarrow> int option" where
  "opt_arg fmt params nparams =
     do { parsed \<leftarrow> parse_params 0 fmt params nparams;
          case parsed of Some [AInt a] \<Rightarrow> Some a | Some _ \<Rightarrow> None | None \<Rightarrow> Some 0 }"

definition obc_debug :: "string \<Rightarrow> char list option \<Rightarrow> int \<Rightarrow> (int \<times> os_event list) option" where
  "obc_debug fmt params nparams =
     do { dbg_type \<leftarrow> opt_arg fmt params nparams;
          let (rc, es) = cpu_debug dbg_type;
          Some (if rc = 0 then CMD_OK else CMD_ERROR, es) }"

definition obc_reset_wdt :: "string \<Rightarrow> char list option \<Rightarrow> int \<Rightarrow> int option" where
  "obc_reset_wdt fmt params nparams =
     do { arg \<leftarrow> opt_arg fmt params nparams;
          let rc = cpu_reset_wdt arg;
          Some (if rc = 1 then CMD_OK else CMD_ERROR) }"

text \<open>The commands that may end the process return no code when they do.\<close>

definition obc_exit ::
    "'s dat_cfg \<Rightarrow> cmd_repo \<Rightarrow> 's \<Rightarrow> (int option \<times> os_event list \<times> cmd_repo \<times> 's) option" where
  "obc_exit cfg r s =
     do { let r1 = cmd_repo_close r;
          s1 \<leftarrow> dat_repo_close cfg s;
          let (returns, es) = cpu_reboot 0;
          Some (if returns then Some CMD_OK else None, es, r1, s1) }"

definition obc_reset ::
    "string \<Rightarrow> char list option \<Rightarrow> int \<Rightarrow> (int option \<times> os_event list) option" where
  "obc_reset fmt params nparams =
     do { arg \<leftarrow> opt_arg fmt params nparams;
          let (returns, es) = cpu_reboot arg;
          Some (if returns then Some CMD_OK else None, es) }"
text \<open>The fields of \<^verbatim>\<open>struct mallinfo\<close>, in the order the command prints them.\<close>

definition mem_labels :: "string list" where
  "mem_labels =
     [''Total non-mmapped bytes (arena):       '', ''# of free chunks (ordblks):            '',
      ''# of free fastbin blocks (smblks):     '', ''# of mapped regions (hblks):           '',
      ''Bytes in mapped regions (hblkhd):      '', ''Max. total allocated space (usmblks):  '',
      ''Free bytes held in fastbins (fsmblks): '', ''Total allocated space (uordblks):      '',
      ''Total free space (fordblks):           '', ''Topmost releasable block (keepcost):   '']"

fun log_results :: "log_env \<Rightarrow> log_state \<Rightarrow> string \<Rightarrow> string list \<Rightarrow> os_event list option" where
  "log_results env st tag [] = Some []"
| "log_results env st tag (m # ms) =
     do { es \<leftarrow> LOGR env st tag m; es' \<leftarrow> log_results env st tag ms; Some (es @ es') }"

definition obc_get_os_memory ::
    "bool \<Rightarrow> int list \<Rightarrow> log_env \<Rightarrow> log_state \<Rightarrow> (int \<times> os_event list) option" where
  "obc_get_os_memory have_malloc mi env st =
     (if have_malloc then
        do { es \<leftarrow> log_results env st ''cmdOBC'' (map (\<lambda>(l, v). l @ show_int v) (zip mem_labels mi));
             Some (CMD_OK, es) }
      else Some (CMD_ERROR, []))"

definition obc_set_time ::
    "os_host \<Rightarrow> string \<Rightarrow> char list option \<Rightarrow> int \<Rightarrow> (int \<times> os_event list) option" where
  "obc_set_time h fmt params nparams =
     do { parsed \<leftarrow> parse_params 0 fmt params nparams;
          case parsed of
            Some [AInt time_to_set] \<Rightarrow>
              (let (rc, es) = dat_set_time h time_to_set
               in Some (if rc = 0 then CMD_OK else CMD_ERROR, es))
          | Some _ \<Rightarrow> None
          | None \<Rightarrow> Some (CMD_SYNTAX_ERROR, []) }"

text \<open>\<open>date\<close> is the text \<^verbatim>\<open>strftime\<close> makes of the time.\<close>

definition dat_show_time ::
    "(int \<Rightarrow> string) \<Rightarrow> log_env \<Rightarrow> log_state \<Rightarrow> int \<Rightarrow> (int \<times> os_event list) option" where
  "dat_show_time date env st format =
     do { let time_to_show = le_now env;
          e1 \<leftarrow> (if format = 0 \<or> format > 1 then LOGR env st ''repoData'' (date time_to_show)
                  else Some []);
          e2 \<leftarrow> (if format \<ge> 1 then LOGR env st ''repoData'' (show_int time_to_show) else Some []);
          Some (0, e1 @ e2) }"

definition obc_get_time ::
    "(int \<Rightarrow> string) \<Rightarrow> log_env \<Rightarrow> log_state \<Rightarrow> string \<Rightarrow> char list option \<Rightarrow> int \<Rightarrow>
     (int \<times> os_event list) option" where
  "obc_get_time date env st fmt params nparams =
     do { format \<leftarrow> (case params of
            None \<Rightarrow> Some 0
          | Some b \<Rightarrow>
              do { p \<leftarrow> cstr_of b;
                   (k, as) \<leftarrow> sscanf p fmt;
                   if k < nparams then Some 0
                   else (case as of [AInt f] \<Rightarrow> Some f | [] \<Rightarrow> Some 0 | _ \<Rightarrow> None) });
          (rc, es) \<leftarrow> dat_show_time date env st format;
          Some (if rc = 0 then CMD_OK else CMD_ERROR, es) }"

definition obc_system ::
    "os_host \<Rightarrow> log_env \<Rightarrow> log_state \<Rightarrow> char list option \<Rightarrow> (int \<times> os_event list) option" where
  "obc_system h env st params =
     (case params of
        Some b \<Rightarrow>
          do { p \<leftarrow> cstr_of b;
               let rc = os_system h p;
               if rc < 0
               then do { es \<leftarrow> LOGR env st ''cmdOBC'' (''Call to system failed! ('' @ show_int rc @ '')'');
                         Some (CMD_ERROR, Sys p # es) }
               else do { es \<leftarrow> LOGR env st ''cmdOBC'' (''Call to system returned ('' @ show_int rc @ '')'');
                         Some (CMD_OK, Sys p # es) } }
      | None \<Rightarrow> Some (CMD_SYNTAX_ERROR, []))"

definition obc_set_cwd :: "os_host \<Rightarrow> char list option \<Rightarrow> (int \<times> os_event list) option" where
  "obc_set_cwd h params =
     (case params of
        None \<Rightarrow> Some (CMD_SYNTAX_ERROR, [])
      | Some b \<Rightarrow>
          do { p \<leftarrow> cstr_of b;
               Some (if os_chdir h p \<noteq> 0 then CMD_ERROR else CMD_OK, [Chdir p]) })"

definition obc_get_cwd :: "os_host \<Rightarrow> log_env \<Rightarrow> log_state \<Rightarrow> (int \<times> os_event list) option" where
  "obc_get_cwd h env st =
     (case os_getcwd h of
        Some cwd \<Rightarrow> do { es \<leftarrow> LOGR env st ''cmdOBC'' (''CWD: '' @ cwd); Some (CMD_OK, es) }
      | None \<Rightarrow> Some (CMD_ERROR, []))"

text \<open>
  The loop of \<^verbatim>\<open>obc_ls\<close>: \<open>sz\<close> is the size in the variable \<^verbatim>\<open>fstat\<close>, which keeps the value of the entry
  before when \<^verbatim>\<open>stat\<close> fails (\<open>None\<close>: not yet set). The block for the path has
  \<^verbatim>\<open>strlen(path)+strlen(d_name)+2\<close> bytes.
\<close>

fun ls_loop ::
    "os_host \<Rightarrow> log_env \<Rightarrow> log_state \<Rightarrow> string \<Rightarrow> int option \<Rightarrow> string list \<Rightarrow> os_event list option" where
  "ls_loop h env st path sz [] = Some []"
| "ls_loop h env st path sz (d # ds) =
     do { let path_len = length path + length d + 2;
          let file_path = take (path_len - 1) (path @ ''/'' @ d);
          let sz' = (case os_stat h file_path of Some n \<Rightarrow> Some n | None \<Rightarrow> sz);
          n \<leftarrow> sz';
          es \<leftarrow> LOGR env st ''cmdOBC'' (show_int (v_i (of_i n)) @ [CHR 0x09] @ '' '' @ d);
          es' \<leftarrow> ls_loop h env st path sz' ds;
          Some (es @ es') }"

definition obc_ls ::
    "os_host \<Rightarrow> log_env \<Rightarrow> log_state \<Rightarrow> char list option \<Rightarrow> (int \<times> os_event list) option" where
  "obc_ls h env st params =
     do { path \<leftarrow> (case params of Some b \<Rightarrow> cstr_of b | None \<Rightarrow> Some ''.'');
          case os_readdir h path of
            Some ds \<Rightarrow> do { es \<leftarrow> ls_loop h env st path None ds; Some (CMD_OK, es) }
          | None \<Rightarrow> Some (CMD_ERROR, []) }"

definition obc_mkdir :: "os_host \<Rightarrow> char list option \<Rightarrow> (int \<times> os_event list) option" where
  "obc_mkdir h params =
     (case params of
        None \<Rightarrow> Some (CMD_SYNTAX_ERROR, [])
      | Some b \<Rightarrow>
          do { p \<leftarrow> cstr_of b;
               Some (if os_stat h p = None
                     then (if os_mkdir h p = 0 then CMD_OK else CMD_ERROR, [Mkdir p])
                     else (CMD_ERROR, [])) })"

definition obc_rm :: "os_host \<Rightarrow> bool \<Rightarrow> char list option \<Rightarrow> (int \<times> os_event list) option" where
  "obc_rm h alloc params =
     (case params of
        None \<Rightarrow> Some (CMD_SYNTAX_ERROR, [])
      | Some b \<Rightarrow>
          do { p \<leftarrow> cstr_of b;
               if \<not> alloc then Some (CMD_ERROR, [])
               else
                 do { let cmd = ''rm '' @ p;
                      require (length cmd + 1 \<le> length p + 5);
                      Some (if os_system h cmd = 0 then CMD_OK else CMD_ERROR, [Sys cmd]) } })"

section \<open>Commands of cmdConsole.c\<close>

definition con_debug_msg ::
    "log_env \<Rightarrow> log_state \<Rightarrow> char list option \<Rightarrow> (int \<times> os_event list) option" where
  "con_debug_msg env st params =
     (case params of
        None \<Rightarrow> Some (CMD_SYNTAX_ERROR, [])
      | Some b \<Rightarrow> do { p \<leftarrow> cstr_of b; es \<leftarrow> LOGR env st ''cmdConsole'' p; Some (CMD_OK, es) })"

fun print_cmds :: "nat \<Rightarrow> cmd_entry list \<Rightarrow> os_event list option" where
  "print_cmds i [] = Some []"
| "print_cmds i (e # es) =
     do { name \<leftarrow> ce_name e;
          fmt \<leftarrow> ce_fmt e;
          rest \<leftarrow> print_cmds (Suc i) es;
          Some (Out (pad_left 5 (show_nat i) @ '' '' @ name @ (if fmt \<noteq> '''' then '' '' @ fmt else '''') @
                     CRLF) # rest) }"

definition cmd_print_all :: "cmd_repo \<Rightarrow> os_event list option" where
  "cmd_print_all r =
     do { require (cmd_index r \<le> int (length (cmd_list r)));
          rows \<leftarrow> print_cmds 0 (take (nat (cmd_index r)) (cmd_list r));
          Some (Out (pad_left 5 ''Index'' @ '' Name '' @ pad_left 25 ''Params'' @ CRLF) # rows) }"

definition con_help :: "cmd_repo \<Rightarrow> (int \<times> os_event list) option" where
  "con_help r =
     do { es \<leftarrow> cmd_print_all r; Some (CMD_OK, Out (''List of commands:'' @ CRLF) # es) }"

definition con_set_logger ::
    "log_env \<Rightarrow> string \<Rightarrow> char list option \<Rightarrow> int \<Rightarrow> log_state \<Rightarrow> (int \<times> os_event list \<times> log_state) option"
  where
  "con_set_logger env fmt params nparams st =
     do { parsed \<leftarrow> parse_params 0 fmt params nparams;
          case parsed of
            Some [AInt lvl, AInt nd] \<Rightarrow>
              if lvl > uint LOG_LVL_VERBOSE then Some (CMD_ERROR, [], st)
              else
                do { st1 \<leftarrow> log_set (word_of_int lvl) nd st;
                     es \<leftarrow> LOGR env st1 ''cmdConsole''
                             (''Log level '' @ show_int (sint (log_lvl st1)) @ '' to node '' @
                              show_int (uint (log_node st1)));
                     Some (CMD_OK, es, st1) }
          | Some _ \<Rightarrow> None
          | None \<Rightarrow> Some (CMD_SYNTAX_ERROR, [], st) }"

section \<open>Lemmas\<close>

lemma parse_two_ints:
  assumes "in_int a" "in_int b"
  shows "parse_params buf ''%d %d'' (Some (show_int a @ '' '' @ show_int b @ [NUL])) 2 =
     Some (Some [AInt a, AInt b])"
proof -
  have fmt: "parse_fmt ''%d %d'' = [DInt, DSpace, DInt]" by (simp add: conversion_def is_space_def)
  have b: "skip_ws (show_int b) = show_int b" "scan_int (show_int b) = Some (b, [])"
    using skip_ws_show_int [of b "[]"] scan_int_show [of "[]" b] by simp_all
  have "sscanf_f (\<lambda>_. None) (show_int a @ '' '' @ show_int b) ''%d %d'' = Some (2, [AInt a, AInt b])"
    unfolding sscanf_f_def fmt
    using assms b by (simp add: scan_text skip_ws_show_int)
  moreover have "cstr_of (show_int a @ '' '' @ show_int b @ [NUL]) =
      Some (show_int a @ '' '' @ show_int b)"
    using cstr_of_terminated [of "show_int a @ '' '' @ show_int b"] by simp
  ultimately show ?thesis by (simp add: parse_params_def parse_params_f_def)
qed

text \<open>
  The destinations of a line by the number of the command \<^verbatim>\<open>log_set\<close>: 0 the terminal, above 0 a packet
  to that node (its lowest eight bits), below 0 the file of that number.
\<close>

definition log_route :: "log_env \<Rightarrow> int \<Rightarrow> string \<Rightarrow> string \<Rightarrow> string \<Rightarrow> os_event list option" where
  "log_route env nd lvl tag msg =
     (if nd = 0 then Some [Out (log_line env lvl tag msg)]
      else if nd > 0 then log_send env (log_zero\<lparr>log_node := word_of_int nd\<rparr>) msg
      else (let f = ''suchai_'' @ show_int (- nd) @ ''.log''
            in Some (if le_open env f then [ToFile f (log_line env lvl tag msg)] else [])))"

lemma log_set_at:
  assumes "in_int nd" and "nd \<noteq> - 2147483648"
  shows "\<exists>st'. log_set level nd st = Some st' \<and> log_lvl st' = level \<and>
     (nd > 0 \<longrightarrow> log_node st' = word_of_int nd) \<and>
     (\<forall>l lvl tag msg. log_at env st' l lvl tag msg =
        (if level < l then Some [] else log_route env nd lvl tag msg))"
proof -
  have m: "in_int (- nd)" using assms by (auto simp: in_int_def)
  have fits: "take 255 (''suchai_'' @ show_int (- nd) @ ''.log'') = ''suchai_'' @ show_int (- nd) @ ''.log''"
    using show_int_length [OF m] by simp
  show ?thesis
    using m fits
    by (auto simp: log_set_def Let_def log_at_def log_route_def log_print_def log_send_def log_file_def
        config_defs not_le split: option.splits)
qed

lemma word_level_less:
  assumes "in_int lvl" "lvl \<le> 6" "0 \<le> l" "l \<le> 6"
  shows "(word_of_int lvl :: 32 word) < word_of_int l \<longleftrightarrow> 0 \<le> lvl \<and> lvl < l"
proof (cases "0 \<le> lvl")
  case True
  then have "uint (word_of_int lvl :: 32 word) = lvl"
    unfolding uint_word_of_int using assms(2) by (intro mod_pos_pos_trivial) simp_all
  moreover have "uint (word_of_int l :: 32 word) = l"
    unfolding uint_word_of_int using assms(3,4) by (intro mod_pos_pos_trivial) simp_all
  ultimately show ?thesis using True by (simp add: word_less_def)
next
  case False
  have "lvl mod 4294967296 = (lvl + 4294967296) mod 4294967296" by simp
  also have "\<dots> = lvl + 4294967296"
    using False assms(1) by (intro mod_pos_pos_trivial) (simp_all add: in_int_def)
  finally have "uint (word_of_int lvl :: 32 word) = lvl + 4294967296" by (simp add: uint_word_of_int)
  moreover have "uint (word_of_int l :: 32 word) = l"
    unfolding uint_word_of_int using assms(3,4) by (intro mod_pos_pos_trivial) simp_all
  ultimately show ?thesis using False assms(1,4) by (simp add: word_less_def in_int_def)
qed

lemma in_int_byte: "in_int (uint (w :: 8 word))"
proof -
  have "0 \<le> uint w" "uint w < 256" using uint_bounded [of w] by simp_all
  then show ?thesis unfolding in_int_def by linarith
qed

text \<open>
  On the x86 target the two debug functions return the code their callers take for a failure: the
  command the watchdog task sends every minute is always counted as failed.
\<close>

lemma obc_x86_fails:
  "obc_reset_wdt fmt params nparams = Some rc \<Longrightarrow> rc = CMD_ERROR"
  "obc_debug fmt params nparams = Some (rc', es) \<Longrightarrow> rc' = CMD_ERROR"
  by (auto simp: obc_reset_wdt_def cpu_reset_wdt_def obc_debug_def cpu_debug_def split: bind_splits)

section \<open>Properties\<close>

text \<open>
  setting the logger. For the command \<^verbatim>\<open>log_set\<close> with a level up to 6 and a node, the command
  succeeds, and from then on a line of level \<open>l\<close> is dropped exactly when the level set is below \<open>l\<close> and
  otherwise goes where the node says. The level is stored as an unsigned number: a negative level turns
  every line on, although the check of the command was meant to keep it in the range 0 to 6.
\<close>

theorem con_set_logger_routes:
  assumes "in_int lvl" "lvl \<le> 6" and "in_int nd" "nd \<noteq> - 2147483648"
    and "\<forall>cap. le_buffer env = Some cap \<longrightarrow> 256 \<le> cap"
  shows "\<exists>es st'. con_set_logger env ''%d %d''
       (Some (show_int lvl @ '' '' @ show_int nd @ [NUL])) 2 st = Some (CMD_OK, es, st') \<and>
     (\<forall>l name tag msg. 0 \<le> l \<longrightarrow> l \<le> 6 \<longrightarrow> log_at env st' (word_of_int l) name tag msg =
        (if 0 \<le> lvl \<and> lvl < l then Some [] else log_route env nd name tag msg))"
proof -
  obtain st' where st': "log_set (word_of_int lvl) nd st = Some st'" "log_lvl st' = word_of_int lvl"
      "\<And>l name tag msg. log_at env st' l name tag msg =
         (if word_of_int lvl < l then Some [] else log_route env nd name tag msg)"
    using log_set_at [OF assms(3,4), of "word_of_int lvl" st env] by blast
  have low: "(word_of_int lvl :: 32 word) < word_of_int l \<longleftrightarrow> 0 \<le> lvl \<and> lvl < l" if "0 \<le> l" "l \<le> 6" for l
    using word_level_less [OF assms(1,2) that] .
  let ?msg = "''Log level '' @ show_int (sint (log_lvl st')) @ '' to node '' @
                              show_int (uint (log_node st'))"
  have "in_int (sint (log_lvl st'))" "in_int (uint (log_node st'))"
    using in_int_v_i [of "log_lvl st'"] in_int_byte by (simp_all add: v_i_def)
  then have "length ?msg < 256"
    using show_int_length [of "sint (log_lvl st')"] show_int_length [of "uint (log_node st')"] by simp
  then have "\<exists>es. log_route env nd name tag ?msg = Some es" for name tag
    using assms(5) by (auto simp: log_route_def log_send_def config_defs Let_def split: option.splits)
  then obtain es where "LOGR env st' ''cmdConsole'' ?msg = Some es"
    unfolding LOGR_def st'(3) by (metis (full_types))
  moreover have "\<not> uint LOG_LVL_VERBOSE < lvl" using assms(2) by (simp add: config_defs)
  ultimately have "con_set_logger env ''%d %d'' (Some (show_int lvl @ '' '' @ show_int nd @ [NUL])) 2 st =
      Some (CMD_OK, es, st')"
    using parse_two_ints [OF assms(1,3), of 0] st'(1) by (simp add: con_set_logger_def)
  then show ?thesis using st'(3) low by auto
qed

end
