(* ===== verification/Cmd_COM.thy ===== *)
theory Cmd_COM
  imports Com_Frames Cmd_OBC
begin

text \<open>
  src/system/cmdCOM.c: the commands that talk to other nodes and the functions that cut data into
  frames. libcsp is a parameter: whether a connection is made, what each call of \<^verbatim>\<open>csp_buffer_get\<close> gives
  (the old content of the block), whether each \<^verbatim>\<open>csp_send\<close> succeeds, and what closing returns. What is
  sent is part of the result. The pauses between frames are not modelled.
\<close>

section \<open>libcsp\<close>

record net =
  nt_conn :: bool
  nt_buf :: "nat \<Rightarrow> byte list option"
  nt_send :: "nat \<Rightarrow> bool"
  nt_close :: bool

definition net_up :: "net \<Rightarrow> bool" where
  "net_up net \<longleftrightarrow> nt_conn net \<and> nt_close net \<and>
     (\<forall>k. nt_send net k \<and> (\<exists>b. nt_buf net k = Some b \<and> length b = COM_FRAME_MAX_LEN))"

definition SCH_TRX_PORT_FILE :: int where [config_defs]: "SCH_TRX_PORT_FILE = 9"
definition SCH_TRX_PORT_TC :: int where [config_defs]: "SCH_TRX_PORT_TC = 10"
definition SCH_TRX_PORT_RPT :: int where [config_defs]: "SCH_TRX_PORT_RPT = 11"
definition SCH_TRX_PORT_CMD :: int where [config_defs]: "SCH_TRX_PORT_CMD = 12"
definition SCH_TRX_PORT_DBG :: int where [config_defs]: "SCH_TRX_PORT_DBG = 13"
definition SCH_TRX_PORT_DBG_TM :: int where [config_defs]: "SCH_TRX_PORT_DBG_TM = 14"
definition SCH_TRX_PORT_TM :: int where [config_defs]: "SCH_TRX_PORT_TM = 15"

definition TM_TYPE_GENERIC :: int where [config_defs]: "TM_TYPE_GENERIC = 0"
definition TM_TYPE_STATUS :: int where [config_defs]: "TM_TYPE_STATUS = 1"
definition TM_TYPE_HELP :: int where [config_defs]: "TM_TYPE_HELP = 2"
definition TM_TYPE_PAYLOAD :: int where [config_defs]: "TM_TYPE_PAYLOAD = 10"
definition TM_TYPE_FILE_START :: int where [config_defs]: "TM_TYPE_FILE_START = 100"
definition TM_TYPE_FILE_DATA :: int where [config_defs]: "TM_TYPE_FILE_DATA = 101"
definition TM_TYPE_FILE_END :: int where [config_defs]: "TM_TYPE_FILE_END = 102"
definition TM_TYPE_FILE_PART :: int where [config_defs]: "TM_TYPE_FILE_PART = 103"
definition TM_TYPE_FP :: int where [config_defs]: "TM_TYPE_FP = 105"

definition rc_of :: "int \<Rightarrow> bool \<Rightarrow> int" where
  "rc_of rc_send close_ok = (if rc_send = 1 \<and> close_ok then CMD_OK else CMD_ERROR)"

text \<open>\<^verbatim>\<open>memcpy\<close> of the first \<open>n\<close> bytes of the data into a block of old content \<open>b\<close>.\<close>

definition fill_block :: "byte list \<Rightarrow> byte list \<Rightarrow> nat \<Rightarrow> byte list option" where
  "fill_block b data n =
     do { require (n \<le> length b);
          require (n \<le> length data);
          Some (take n data @ drop n b) }"

section \<open>Telemetry\<close>

definition tm_frame :: "csp_order \<Rightarrow> int \<Rightarrow> int \<Rightarrow> int \<Rightarrow> byte list \<Rightarrow> com_frame" where
  "tm_frame ord nframe type ndata block =
     \<lparr>cf_nframe = csp_hton16 ord (word_of_int nframe), cf_type = word_of_int type,
      cf_node = word_of_int SCH_COMM_NODE, cf_ndata = csp_hton32 ord (word_of_int ndata),
      cf_data = block\<rparr>"

text \<open>
  The loop of \<^verbatim>\<open>com_send_telemetry\<close>; \<open>k\<close> counts the calls of libcsp. It need not end: then the
  result is \<open>None\<close>, as it is when the code leaves the bounds of a block. The counters \<^verbatim>\<open>n_bytes\<close>
  (unsigned) and \<^verbatim>\<open>n_structs\<close> are changed as in the code.
\<close>

partial_function (option) telemetry_loop ::
    "csp_order \<Rightarrow> net \<Rightarrow> int \<Rightarrow> int \<Rightarrow> int \<Rightarrow> nat \<Rightarrow> int \<Rightarrow> byte list \<Rightarrow> int \<Rightarrow> int \<Rightarrow>
     (int \<times> com_frame list) option" where
  "telemetry_loop ord net type size_data per_frame k nframe data n_bytes n_structs =
     (if n_bytes \<le> 0 then Some (if k = 0 then 0 else 1, [])
      else
        do { let structs_sent = (if n_structs < per_frame then n_structs else per_frame);
             bytes_sent \<leftarrow> cint (structs_sent * size_data);
             case nt_buf net k of
               None \<Rightarrow> Some (0, [])
             | Some b \<Rightarrow>
                 do { require (0 \<le> bytes_sent);
                      block \<leftarrow> fill_block b data (nat bytes_sent);
                      let frame = tm_frame ord nframe type structs_sent block;
                      if \<not> nt_send net k then Some (0, [])
                      else
                        do { (rc, frames) \<leftarrow>
                               telemetry_loop ord net type size_data per_frame (Suc k) (nframe + 1)
                                 (drop (nat bytes_sent) data) ((n_bytes - bytes_sent) mod 2 ^ 64)
                                 (n_structs - structs_sent);
                             Some (rc, frame # frames) } } })"

definition com_send_telemetry ::
    "csp_order \<Rightarrow> net \<Rightarrow> int \<Rightarrow> byte list \<Rightarrow> int \<Rightarrow> int \<Rightarrow> int \<Rightarrow> (int \<times> com_frame list) option" where
  "com_send_telemetry ord net type data n_bytes n_structs n_frame =
     do { require (n_structs mod 2 ^ 64 \<noteq> 0);
          let size_data = v_i (of_i (n_bytes div (n_structs mod 2 ^ 64)));
          require (size_data mod 2 ^ 64 \<noteq> 0);
          let structs_per_frame = int COM_FRAME_MAX_LEN div (size_data mod 2 ^ 64);
          if \<not> nt_conn net then Some (CMD_ERROR, [])
          else
            do { (rc_send, frames) \<leftarrow>
                   telemetry_loop ord net type size_data structs_per_frame 0 n_frame data n_bytes n_structs;
                 Some (rc_of rc_send (nt_close net), frames) } }"

text \<open>The older \<^verbatim>\<open>_com_send_data\<close>: its loop always ends.\<close>

function send_data_loop ::
    "csp_order \<Rightarrow> net \<Rightarrow> int \<Rightarrow> int \<Rightarrow> nat \<Rightarrow> int \<Rightarrow> byte list \<Rightarrow> nat \<Rightarrow> int \<Rightarrow>
     (int \<times> com_frame list) option" where
  "send_data_loop ord net type size_data k nframe data len n_data =
     (if len = 0 then Some (if k = 0 then 0 else 1, [])
      else
        (case nt_buf net k of
           None \<Rightarrow> Some (0, [])
         | Some b \<Rightarrow>
             do { let sent = (if len < COM_FRAME_MAX_LEN then len else COM_FRAME_MAX_LEN);
                  require (size_data mod 2 ^ 64 \<noteq> 0);
                  data_sent \<leftarrow> (if n_data mod 2 ^ 64 < int COM_FRAME_MAX_LEN div (size_data mod 2 ^ 64)
                                 then Some n_data else cdiv (int sent) size_data);
                  block \<leftarrow> fill_block b data sent;
                  let frame = tm_frame ord nframe type
                                (if type = TM_TYPE_PAYLOAD then data_sent else n_data) block;
                  if \<not> nt_send net k then Some (0, [])
                  else
                    do { (rc, frames) \<leftarrow>
                           send_data_loop ord net type size_data (Suc k) (nframe + 1) (drop sent data)
                             (len - sent) (if type = TM_TYPE_PAYLOAD then n_data - data_sent else n_data);
                         Some (rc, frame # frames) } }))"
  by pat_completeness auto
termination
  by (relation "measure (\<lambda>(ord, net, type, size_data, k, nframe, data, len, n_data). len)")
    (auto simp: COM_FRAME_MAX_LEN_def)

declare send_data_loop.simps [simp del]

definition com_send_data_1 ::
    "csp_order \<Rightarrow> net \<Rightarrow> byte list \<Rightarrow> nat \<Rightarrow> int \<Rightarrow> int \<Rightarrow> int \<Rightarrow> (int \<times> com_frame list) option" where
  "com_send_data_1 ord net data len type n_data n_frame =
     do { size_data \<leftarrow> (if type = TM_TYPE_PAYLOAD then cdiv (v_i (of_i (int len))) n_data
                          else Some (v_i (of_i (int len))));
          require (nt_conn net);
          (rc_send, frames) \<leftarrow> send_data_loop ord net type size_data 0 n_frame data len n_data;
          Some (rc_of rc_send (nt_close net), frames) }"

text \<open>\<^verbatim>\<open>com_send_debug\<close> returns nothing although it is declared \<^verbatim>\<open>int\<close>: only the frames count.\<close>

definition com_send_debug :: "csp_order \<Rightarrow> net \<Rightarrow> byte list \<Rightarrow> nat \<Rightarrow> com_frame list option" where
  "com_send_debug ord net data len =
     do { (_, frames) \<leftarrow> com_send_telemetry ord net 0 data (int len) (v_i (of_i (int len))) 0;
          Some frames }"

section \<open>Files\<close>

definition file_frame :: "csp_order \<Rightarrow> int \<Rightarrow> int \<Rightarrow> int \<Rightarrow> int \<Rightarrow> byte list \<Rightarrow> com_frame_file" where
  "file_frame ord nframe type fileid parts block =
     \<lparr>ff_nframe = csp_hton16 ord (word_of_int nframe), ff_type = word_of_int type,
      ff_node = word_of_int SCH_COMM_NODE, ff_fileid = csp_hton16 ord (word_of_int fileid),
      ff_total = csp_hton16 ord (word_of_int parts), ff_data = block\<rparr>"

text \<open>The loop of \<^verbatim>\<open>com_send_file_parts\<close>. The first component of the result: 1 and 0 are the last value of
  \<^verbatim>\<open>rc_send\<close>, \<open>None\<close> the return from inside the loop after a failed send.\<close>

function file_parts_loop ::
    "csp_order \<Rightarrow> net \<Rightarrow> int \<Rightarrow> int \<Rightarrow> int \<Rightarrow> nat \<Rightarrow> int \<Rightarrow> byte list \<Rightarrow> nat \<Rightarrow>
     (int option \<times> com_frame_file list) option" where
  "file_parts_loop ord net type fileid parts k start_part data n_bytes =
     (if n_bytes = 0 then Some (Some (if k = 0 then 0 else 1), [])
      else
        (case nt_buf net k of
           None \<Rightarrow> Some (Some 0, [])
         | Some b \<Rightarrow>
             do { let bytes_sent = (if n_bytes \<ge> COM_FRAME_MAX_LEN then COM_FRAME_MAX_LEN else n_bytes);
                  block \<leftarrow> fill_block b data bytes_sent;
                  let filled = (if bytes_sent < COM_FRAME_MAX_LEN
                                then take bytes_sent block @ replicate (COM_FRAME_MAX_LEN - bytes_sent) 0xAA
                                else block);
                  let frame = file_frame ord start_part type fileid parts filled;
                  if \<not> nt_send net k then Some (None, [])
                  else
                    do { (rc, frames) \<leftarrow>
                           file_parts_loop ord net type fileid parts (Suc k) (start_part + 1)
                             (drop bytes_sent data) (n_bytes - bytes_sent);
                         Some (rc, frame # frames) } }))"
  by pat_completeness auto
termination
  by (relation "measure (\<lambda>(ord, net, type, fileid, parts, k, start_part, data, n_bytes). n_bytes)")
    (auto simp: COM_FRAME_MAX_LEN_def)

declare file_parts_loop.simps [simp del]

text \<open>\<open>prev\<close>: whether the caller passes a connection. \<open>net\<close> then belongs to this call.\<close>

definition com_send_file_parts ::
    "csp_order \<Rightarrow> net \<Rightarrow> byte list option \<Rightarrow> nat \<Rightarrow> int \<Rightarrow> int \<Rightarrow> int \<Rightarrow> int \<Rightarrow> bool \<Rightarrow>
     (int \<times> com_frame_file list) option" where
  "com_send_file_parts ord net data n_bytes file_id start_part file_parts type prev =
     (case data of
        None \<Rightarrow> Some (CMD_ERROR, [])
      | Some bytes \<Rightarrow>
          if \<not> prev \<and> \<not> nt_conn net then Some (CMD_ERROR, [])
          else
            do { (rc, frames) \<leftarrow>
                   file_parts_loop ord net type file_id file_parts 0 start_part bytes n_bytes;
                 Some (case rc of
                         None \<Rightarrow> (CMD_ERROR, frames)
                       | Some rc_send \<Rightarrow> (rc_of rc_send (prev \<or> nt_close net), frames)) })"

text \<open>
  \<open>fileid\<close> is \<^verbatim>\<open>rand() % USHRT_MAX\<close>. The three parts use \<open>net\<close> at their own calls: \<open>n1\<close>, \<open>n2\<close> and \<open>n3\<close>.
\<close>

definition com_send_file ::
    "csp_order \<Rightarrow> net \<Rightarrow> net \<Rightarrow> net \<Rightarrow> int \<Rightarrow> string option \<Rightarrow> byte list option \<Rightarrow> nat \<Rightarrow>
     (int \<times> com_frame_file list) option" where
  "com_send_file ord n1 n2 n3 fileid name data n_bytes =
     (case (name, data) of
        (Some nm, Some bytes) \<Rightarrow>
          do { let data_frames = int (n_bytes div COM_FRAME_MAX_LEN);
               let n_data_bytes = (n_bytes div COM_FRAME_MAX_LEN) * COM_FRAME_MAX_LEN;
               let n_tail_bytes = n_bytes - n_data_bytes;
               if \<not> nt_conn n1 then Some (CMD_ERROR, [])
               else
                 do { (r1, f1) \<leftarrow> com_send_file_parts ord n1 (Some (bytes_of (nm @ [NUL]))) (length nm + 1)
                                     fileid 0 (data_frames + 1) TM_TYPE_FILE_START True;
                      (r2, f2) \<leftarrow> (if r1 \<noteq> 0 \<and> n_data_bytes > 0
                                    then com_send_file_parts ord n2 (Some bytes) n_data_bytes fileid 1
                                           (data_frames + 1) TM_TYPE_FILE_DATA True
                                    else Some (r1, []));
                      (r3, f3) \<leftarrow> (if r2 \<noteq> 0
                                    then com_send_file_parts ord n3 (Some (drop n_data_bytes bytes))
                                           n_tail_bytes fileid (data_frames + 1) (data_frames + 1)
                                           TM_TYPE_FILE_END True
                                    else Some (r2, []));
                      Some (rc_of r3 (nt_close n1), f1 @ f2 @ f3) } }
      | _ \<Rightarrow> Some (CMD_ERROR, []))"
section \<open>Commands\<close>

text \<open>
  The calls of libcsp that the commands make, and what they give: the round-trip time of a ping,
  whether there is a buffer, and the return code of a transaction with the first byte of its reply.
\<close>

datatype csp_req =
    Ping "8 word"
  | SendTo "8 word" int "byte list"
  | Transaction "8 word" int "byte list"

record csp_api =
  ca_ping :: "8 word \<Rightarrow> int"
  ca_buf :: "nat \<Rightarrow> bool"
  ca_sendto :: "8 word \<Rightarrow> int \<Rightarrow> byte list \<Rightarrow> int"
  ca_trans :: "8 word \<Rightarrow> int \<Rightarrow> byte list \<Rightarrow> int \<times> byte"

definition com_ping ::
    "csp_api \<Rightarrow> string \<Rightarrow> char list option \<Rightarrow> int \<Rightarrow> (int \<times> csp_req list) option" where
  "com_ping api fmt params nparams =
     do { parsed \<leftarrow> parse_params 0 fmt params nparams;
          case parsed of
            Some [AInt nd] \<Rightarrow>
              Some (if ca_ping api (word_of_int nd) > 0 then CMD_OK else CMD_ERROR, [Ping (word_of_int nd)])
          | Some _ \<Rightarrow> None
          | None \<Rightarrow> Some (CMD_SYNTAX_ERROR, []) }"

definition com_send_rpt ::
    "csp_api \<Rightarrow> string \<Rightarrow> char list option \<Rightarrow> int \<Rightarrow> (int \<times> csp_req list) option" where
  "com_send_rpt api fmt params nparams =
     do { parsed \<leftarrow> parse_params SCH_CMD_MAX_STR_PARAMS fmt params nparams;
          case parsed of
            Some [AInt nd, AStr msg] \<Rightarrow>
              if \<not> ca_buf api (length msg + 1) then Some (CMD_ERROR, [])
              else
                (let data = bytes_of (msg @ [NUL])
                 in Some (if ca_sendto api (word_of_int nd) SCH_TRX_PORT_RPT data = 0 then CMD_OK else CMD_ERROR,
                          [SendTo (word_of_int nd) SCH_TRX_PORT_RPT data]))
          | Some _ \<Rightarrow> None
          | None \<Rightarrow> Some (CMD_SYNTAX_ERROR, []) }"

text \<open>The text after the position \<open>next\<close> of the parameters, copied into a zeroed buffer of \<open>cap\<close> bytes of
  which at most \<open>n\<close> are written, and used as a string.\<close>

definition params_tail :: "char list option \<Rightarrow> nat \<Rightarrow> nat \<Rightarrow> nat \<Rightarrow> string option" where
  "params_tail params next n cap =
     do { b \<leftarrow> params;
          p \<leftarrow> cstr_of b;
          cstr_of (strncpy_bytes (drop next p) n @ replicate (cap - n) NUL) }"

definition send_text ::
    "nat \<Rightarrow> nat \<Rightarrow> csp_api \<Rightarrow> string \<Rightarrow> char list option \<Rightarrow> int \<Rightarrow> (int \<times> csp_req list) option" where
  "send_text n cap api fmt params nparams =
     do { parsed \<leftarrow> parse_params 0 fmt params (nparams - 1);
          case parsed of
            Some [AInt nd, APos next] \<Rightarrow>
              if next > 1 then
                do { msg \<leftarrow> params_tail params next n cap;
                     let (rc, rep) = ca_trans api (word_of_int nd) SCH_TRX_PORT_TC (bytes_of msg);
                     Some (if rc > 0 \<and> rep = 200 then CMD_OK else CMD_ERROR,
                           [Transaction (word_of_int nd) SCH_TRX_PORT_TC (bytes_of msg)]) }
              else Some (CMD_SYNTAX_ERROR, [])
          | Some _ \<Rightarrow> None
          | None \<Rightarrow> Some (CMD_SYNTAX_ERROR, []) }"

definition com_send_cmd ::
    "csp_api \<Rightarrow> string \<Rightarrow> char list option \<Rightarrow> int \<Rightarrow> (int \<times> csp_req list) option" where
  "com_send_cmd = send_text SCH_CMD_MAX_STR_PARAMS SCH_CMD_MAX_STR_PARAMS"

definition com_send_tc_frame ::
    "csp_api \<Rightarrow> string \<Rightarrow> char list option \<Rightarrow> int \<Rightarrow> (int \<times> csp_req list) option" where
  "com_send_tc_frame = send_text (COM_FRAME_MAX_LEN - 1) COM_FRAME_MAX_LEN"

definition com_send_data ::
    "csp_api \<Rightarrow> string \<Rightarrow> char list option \<Rightarrow> int \<Rightarrow> (int \<times> csp_req list) option" where
  "com_send_data api fmt params nparams =
     do { parsed \<leftarrow> parse_params 0 fmt params (nparams - 1);
          case parsed of
            Some [AInt nd, AInt port, APos next] \<Rightarrow>
              if next = 0 then Some (CMD_ERROR, [])
              else
                do { b \<leftarrow> params;
                     p \<leftarrow> cstr_of b;
                     let data = bytes_of (drop next p);
                     let (rc, rep) = ca_trans api (word_of_int nd) (uint (word_of_int port :: 8 word)) data;
                     Some (if rc = 1 then CMD_OK else CMD_ERROR,
                           [Transaction (word_of_int nd) (uint (word_of_int port :: 8 word)) data]) }
          | Some _ \<Rightarrow> None
          | None \<Rightarrow> Some (CMD_SYNTAX_ERROR, []) }"

definition com_debug :: "log_env \<Rightarrow> log_state \<Rightarrow> int \<Rightarrow> (int \<times> os_event list) option" where
  "com_debug env st address =
     do { e1 \<leftarrow> LOGR env st ''cmdCOM'' (''CSP Node '' @ show_int address);
          e2 \<leftarrow> LOGR env st ''cmdCOM'' ''Route table'';
          e3 \<leftarrow> LOGR env st ''cmdCOM'' ''Interfaces'';
          Some (CMD_OK, e1 @ e2 @ e3) }"

definition com_set_time_node ::
    "csp_api \<Rightarrow> int \<Rightarrow> string \<Rightarrow> char list option \<Rightarrow> int \<Rightarrow> (int \<times> csp_req list) option" where
  "com_set_time_node api now fmt params nparams =
     do { parsed \<leftarrow> parse_params 0 fmt params nparams;
          case parsed of
            Some [AInt nd] \<Rightarrow>
              do { let cmd = take (SCH_CMD_MAX_STR_NAME - 1)
                               (show_int nd @ '' obc_set_time '' @ show_int (v_i (of_i now)));
                   com_send_cmd api ''%d %n'' (Some (cmd @ [NUL])) 2 }
          | Some _ \<Rightarrow> None
          | None \<Rightarrow> Some (CMD_SYNTAX_ERROR, []) }"

section \<open>Telemetry: what the receiver gets\<close>

text \<open>What a frame carries: as many structures of \<open>sz\<close> bytes as its header says.\<close>

definition frame_payload :: "csp_order \<Rightarrow> nat \<Rightarrow> com_frame \<Rightarrow> byte list" where
  "frame_payload ord sz f = take (unat (csp_ntoh32 ord (cf_ndata f)) * sz) (cf_data f)"

definition frames_number :: "csp_order \<Rightarrow> int \<Rightarrow> com_frame list \<Rightarrow> bool" where
  "frames_number ord n fs \<longleftrightarrow>
     (\<forall>i < length fs. csp_ntoh16 ord (cf_nframe (fs ! i)) = word_of_int (n + int i) \<and>
        length (cf_data (fs ! i)) = COM_FRAME_MAX_LEN)"

lemma frames_number_Cons:
  "frames_number ord n (f # fs) \<longleftrightarrow>
     csp_ntoh16 ord (cf_nframe f) = word_of_int n \<and> length (cf_data f) = COM_FRAME_MAX_LEN \<and>
     frames_number ord (n + 1) fs"
proof -
  have "(\<forall>i < Suc (length fs). P i) \<longleftrightarrow> P 0 \<and> (\<forall>i < length fs. P (Suc i))" for P
    using All_less_Suc2 by blast
  then show ?thesis by (auto simp: frames_number_def add_ac)
qed

lemma telemetry_loop_step:
  assumes "0 < n_bytes" and "x = (if n_structs < p then n_structs else p)" and "0 \<le> x * sz"
    and "nt_buf net k = Some b" "nt_send net k" "x * sz \<le> int (length b)" "x * sz \<le> int (length data)"
    and "in_int (x * sz)"
  shows "telemetry_loop ord net type sz p k nframe data n_bytes n_structs =
     do { (rc, frames) \<leftarrow> telemetry_loop ord net type sz p (Suc k) (nframe + 1)
            (drop (nat (x * sz)) data) ((n_bytes - x * sz) mod 2 ^ 64) (n_structs - x);
          Some (rc, tm_frame ord nframe type x
                      (take (nat (x * sz)) data @ drop (nat (x * sz)) b) # frames) }"
proof -
  have "nat (x * sz) \<le> length b" "nat (x * sz) \<le> length data" using assms(6,7) by linarith+
  then show ?thesis
    using assms(1,3-5,8) assms(2) [symmetric]
    by (subst telemetry_loop.simps) (simp add: fill_block_def require_def del: mod_diff_right_eq)
qed

context byte_order
begin

lemma frame_payload_tm:
  assumes "length b = COM_FRAME_MAX_LEN" "m * sz \<le> COM_FRAME_MAX_LEN" "m * sz \<le> length data" "1 \<le> sz"
  shows "frame_payload ord sz (tm_frame ord nframe type (int m) (take (m * sz) data @ drop (m * sz) b)) =
    take (m * sz) data"
proof -
  have "m \<le> m * sz" using assms(4) by simp
  also have "\<dots> \<le> 192" using assms(2) by (simp add: COM_FRAME_MAX_LEN_def)
  finally have "m < 4294967296" by simp
  then have "unat (word_of_int (int m) :: 32 word) = m"
    by (simp add: unsigned_of_nat take_bit_nat_eq_self)
  then show ?thesis
    using assms(1-3) by (simp add: frame_payload_def tm_frame_def ntoh_hton_32)
qed

lemma telemetry_loop_ok:
  assumes net: "net_up net" and sz: "1 \<le> sz" "sz \<le> COM_FRAME_MAX_LEN"
    and "length data = n * sz" "n * sz < 2147483648" "n \<noteq> 0 \<or> k \<noteq> 0"
  shows "\<exists>frames. telemetry_loop ord net type (int sz) (int (COM_FRAME_MAX_LEN div sz)) k nframe data
       (int (n * sz)) (int n) = Some (1, frames) \<and>
     concat (map (frame_payload ord sz) frames) = data \<and> frames_number ord nframe frames \<and>
     length frames * (COM_FRAME_MAX_LEN div sz) < n + COM_FRAME_MAX_LEN div sz"
  using assms(4-6)
proof (induction n arbitrary: k nframe data rule: less_induct)
  case (less n)
  let ?p = "COM_FRAME_MAX_LEN div sz"
  have p: "1 \<le> ?p" "?p * sz \<le> COM_FRAME_MAX_LEN"
    using sz by (simp_all add: Suc_le_eq div_greater_zero_iff)
  show ?case
  proof (cases "n = 0")
    case True
    then show ?thesis
      using less.prems p(1) by (subst telemetry_loop.simps) (simp add: frames_number_def)
  next
    case False
    define m where "m = min n ?p"
    have m: "1 \<le> m" "m \<le> n" "m \<le> ?p" using False p(1) by (auto simp: m_def)
    have msz: "m * sz \<le> COM_FRAME_MAX_LEN" "m * sz \<le> n * sz" using m(2,3) p(2)
      by (meson mult_le_mono1 order_trans)+
    obtain b where b: "nt_buf net k = Some b" "length b = COM_FRAME_MAX_LEN" "nt_send net k"
      using net by (auto simp: net_up_def)
    let ?f = "tm_frame ord nframe type (int m) (take (m * sz) data @ drop (m * sz) b)"
    have rest: "length (drop (m * sz) data) = (n - m) * sz" "(n - m) * sz < 2147483648"
      using less.prems(1,2) by (simp_all add: diff_mult_distrib)
    from less.IH [of "n - m" "drop (m * sz) data" "Suc k" "nframe + 1", OF _ rest] m(1) False
    obtain frames where IH:
      "telemetry_loop ord net type (int sz) (int ?p) (Suc k) (nframe + 1) (drop (m * sz) data)
         (int ((n - m) * sz)) (int (n - m)) = Some (1, frames)"
      "concat (map (frame_payload ord sz) frames) = drop (m * sz) data"
      "frames_number ord (nframe + 1) frames" "length frames * ?p < n - m + ?p" by auto
    have sent: "(if int n < int ?p then int n else int ?p) = int m" by (simp add: m_def)
    have nat_sent: "nat (int m * int sz) = m * sz" by (simp add: nat_mult_distrib)
    have diff: "int (n * sz) - int m * int sz = int ((n - m) * sz)"
      using m(2) by (simp add: of_nat_diff left_diff_distrib)
    have left: "(int (n * sz) - int m * int sz) mod 2 ^ 64 = int ((n - m) * sz)"
      "int n - int m = int (n - m)"
      unfolding diff using rest(2) m(2) by (simp_all del: of_nat_mult add: of_nat_diff)
    have "in_int (int m * int sz)"
      using msz(1) by (simp add: in_int_def COM_FRAME_MAX_LEN_def flip: of_nat_mult)
    then have step: "telemetry_loop ord net type (int sz) (int ?p) k nframe data (int (n * sz)) (int n) =
        Some (1, ?f # frames)"
      using False sz(1) b msz less.prems(1) IH(1)
      by (subst telemetry_loop_step [OF _ sent [symmetric], where b = b])
        (simp_all only: nat_sent left, simp_all flip: of_nat_mult)
    have "length frames * ?p + ?p < n + ?p" if "m = ?p" using IH(4) m(2) that by linarith
    moreover have "frames = []" if "m \<noteq> ?p"
    proof -
      have "m = n" using that by (auto simp: m_def min_def split: if_splits)
      then show ?thesis using IH(1) by (subst (asm) telemetry_loop.simps) simp
    qed
    ultimately have "length (?f # frames) * ?p < n + ?p" using m(1,2) by (cases "m = ?p") auto
    then show ?thesis
      using step IH(2,3) frame_payload_tm [OF b(2) msz(1), of data nframe type] msz(2) less.prems(1) sz(1) b(2)
      by (intro exI [of _ "?f # frames"])
        (simp add: frames_number_Cons, simp add: tm_frame_def ntoh_hton_16 msz(1))
  qed
qed

end

text \<open>
  When the bytes do not divide into the structures, the loop runs out of structures first and then
  sends frames with no structure in them for ever.
\<close>

lemma telemetry_loop_stuck:
  assumes ret: "telemetry_loop ord net type sz p k nframe data n_bytes n_structs = Some r"
    and "net_up net" "0 < sz" "0 \<le> p" "0 \<le> n_structs" "n_structs * sz < n_bytes" "n_bytes < 2147483648"
  shows False
proof -
  define stuck where "stuck net sz p n_bytes n_structs \<longleftrightarrow> net_up net \<and> 0 < sz \<and> 0 \<le> p \<and>
      0 \<le> n_structs \<and> n_structs * sz < n_bytes \<and> n_bytes < 2147483648"
    for net and sz p n_bytes n_structs :: int
  have "\<not> stuck net sz p n_bytes n_structs"
  proof (rule telemetry_loop.raw_induct
      [where P = "\<lambda>ord net type sz p k nframe data n_bytes n_structs r. \<not> stuck net sz p n_bytes n_structs",
       OF _ ret])
    fix f ord net type k nframe data r and sz p n_bytes n_structs :: int
    let ?x = "if n_structs < p then n_structs else p"
    assume IH: "\<And>ord net type sz p k nframe data n_bytes n_structs r.
        f ord net type sz p k nframe data n_bytes n_structs = Some r \<Longrightarrow> \<not> stuck net sz p n_bytes n_structs"
      and eq: "(if n_bytes \<le> 0 then Some (if k = 0 then 0 else 1, [])
        else let structs_sent = ?x
             in cint (structs_sent * sz) \<bind> (\<lambda>bytes_sent.
                  case nt_buf net k of None \<Rightarrow> Some (0, [])
                  | Some b \<Rightarrow> require (0 \<le> bytes_sent) \<bind> (\<lambda>_.
                      fill_block b data (nat bytes_sent) \<bind> (\<lambda>block.
                        let frame = tm_frame ord nframe type structs_sent block
                        in if \<not> nt_send net k then Some (0, [])
                           else f ord net type sz p (Suc k) (nframe + 1) (drop (nat bytes_sent) data)
                                  ((n_bytes - bytes_sent) mod 2 ^ 64) (n_structs - structs_sent) \<bind>
                                (\<lambda>(rc, frames). Some (rc, frame # frames)))))) = Some r"
    show "\<not> stuck net sz p n_bytes n_structs"
    proof
      assume st: "stuck net sz p n_bytes n_structs"
      define x where "x = ?x"
      have x: "0 \<le> x" "x \<le> n_structs" using st by (auto simp: stuck_def x_def)
      have le: "0 \<le> x * sz" "x * sz \<le> n_structs * sz"
        using st x by (auto simp: stuck_def intro!: mult_right_mono)
      then have more: "0 < n_bytes" using st unfolding stuck_def by linarith
      have pos: "0 < n_bytes - x * sz" "n_bytes - x * sz < 2147483648"
        using st le unfolding stuck_def by linarith+
      have "(n_structs - x) * sz < n_bytes - x * sz" using st by (simp add: stuck_def left_diff_distrib)
      then have "stuck net sz p ((n_bytes - x * sz) mod 2 ^ 64) (n_structs - x)"
        using st x le pos by (auto simp: stuck_def)
      moreover obtain b where "nt_buf net k = Some b" "nt_send net k"
        using st by (auto simp: stuck_def net_up_def)
      then have "\<exists>k nframe data r. f ord net type sz p k nframe data
          ((n_bytes - x * sz) mod 2 ^ 64) (n_structs - x) = Some r"
        using eq more unfolding x_def [symmetric]
        by (auto simp: Let_def cint_def split: bind_splits if_splits) metis
      ultimately show False using IH by blast
    qed
  qed
  then show False using assms(2-7) by (simp add: stuck_def)
qed

lemma telemetry_size:
  assumes "1 \<le> n" "n_bytes < 2147483648" and that: "int n < 18446744073709551616"
  shows "v_i (of_i (int n_bytes div (int n mod 18446744073709551616))) = int (n_bytes div n)"
proof -
  have "n_bytes div n < 2147483648" using assms(2) by (meson div_le_dividend order_le_less_trans)
  then have "in_int (int (n_bytes div n))" by (simp add: in_int_def)
  moreover have "int n mod 18446744073709551616 = int n" using that by simp
  ultimately show ?thesis by (simp flip: zdiv_int)
qed

section \<open>Properties of telemetry\<close>

text \<open>
  C26: telemetry arrives whole. On a link that is up, sending \<open>n\<close> structures of \<open>sz\<close> bytes (at most a
  frame) with \<^verbatim>\<open>com_send_telemetry\<close> returns and succeeds, the frames are numbered from \<open>n_frame\<close> on, there
  are no more of them than needed, and the structures each frame announces, one after the other, are the
  data that was sent.
\<close>

theorem com_send_telemetry_whole:
  assumes "order_ok ord" and "net_up net" and "1 \<le> sz" "sz \<le> COM_FRAME_MAX_LEN"
    and "1 \<le> n" "n * sz < 2147483648" "length data = n * sz"
  shows "\<exists>frames. com_send_telemetry ord net type data (int (n * sz)) (int n) n_frame =
       Some (CMD_OK, frames) \<and>
     concat (map (frame_payload ord sz) frames) = data \<and> frames_number ord n_frame frames \<and>
     (length frames - 1) * (COM_FRAME_MAX_LEN div sz) < n"
proof -
  have "n * 1 \<le> n * sz" using assms(3) by (intro mult_le_mono2) simp
  then have n: "n < 2147483648" using assms(6) by linarith
  have mod: "int n mod 18446744073709551616 = int n" "int sz mod 18446744073709551616 = int sz"
    using n assms(4) by (simp_all add: COM_FRAME_MAX_LEN_def)
  have dat: "v_i (of_i (int (n * sz) div int n)) = int sz"
    using telemetry_size [OF assms(5,6)] n mod(1) assms(5) by simp
  from byte_order.telemetry_loop_ok [OF assms(1) [unfolded order_ok_byte_order] assms(2-4,7,6),
      of 0 type n_frame] assms(5)
  obtain frames where fr: "telemetry_loop ord net type (int sz) (int (COM_FRAME_MAX_LEN div sz)) 0 n_frame data
       (int (n * sz)) (int n) = Some (1, frames)"
     "concat (map (frame_payload ord sz) frames) = data" "frames_number ord n_frame frames"
     "length frames * (COM_FRAME_MAX_LEN div sz) < n + COM_FRAME_MAX_LEN div sz" by auto
  have "com_send_telemetry ord net type data (int (n * sz)) (int n) n_frame = Some (CMD_OK, frames)"
    using assms(2,3,5) fr(1)
    by (simp add: com_send_telemetry_def mod dat Let_def require_def net_up_def rc_of_def zdiv_int
        del: of_nat_mult)
  moreover have "(length frames - 1) * (COM_FRAME_MAX_LEN div sz) < n"
    using fr(4) assms(5) by (cases frames) (simp_all add: add_mult_distrib)
  ultimately show ?thesis using fr(2,3) by blast
qed

definition net_ideal :: net where
  "net_ideal = \<lparr>nt_conn = True, nt_buf = (\<lambda>_. Some (replicate COM_FRAME_MAX_LEN 0)),
     nt_send = (\<lambda>_. True), nt_close = True\<rparr>"

lemma net_ideal_up: "net_up net_ideal"
  by (simp add: net_up_def net_ideal_def)

theorem com_send_telemetry_whole_witness:
  "\<exists>frames. com_send_telemetry csp_le net_ideal 10 (replicate 1200 7) 1200 100 0 = Some (CMD_OK, frames) \<and>
     concat (map (frame_payload csp_le 12) frames) = replicate 1200 7"
proof -
  have "\<exists>frames. com_send_telemetry csp_le net_ideal 10 (replicate 1200 7) (int (100 * 12)) (int 100) 0 =
       Some (CMD_OK, frames) \<and>
     concat (map (frame_payload csp_le 12) frames) = replicate 1200 7 \<and> frames_number csp_le 0 frames \<and>
     (length frames - 1) * (COM_FRAME_MAX_LEN div 12) < 100"
    by (rule com_send_telemetry_whole [OF csp_le_ok net_ideal_up]) (simp_all add: COM_FRAME_MAX_LEN_def)
  then show ?thesis by auto
qed

text \<open>
  C38: when \<^verbatim>\<open>com_send_telemetry\<close> does not return. With no structure it divides by zero; and on a link
  that is up, when the number of bytes is not a multiple of the number of structures, its loop never ends.
\<close>

theorem com_send_telemetry_stuck:
  assumes "net_up net" and "0 < n_structs \<longrightarrow> n_structs \<le> n_bytes \<and> n_bytes mod n_structs \<noteq> 0"
    and "0 \<le> n_structs" "0 \<le> n_bytes" "n_bytes < 2147483648"
  shows "com_send_telemetry ord net type data n_bytes n_structs n_frame = None"
proof (cases "n_structs = 0")
  case True
  then show ?thesis by (simp add: com_send_telemetry_def require_def)
next
  case False
  define n where "n = nat n_structs"
  define b where "b = nat n_bytes"
  have n: "n_structs = int n" "1 \<le> n" and b: "n_bytes = int b" "b < 2147483648" "n \<le> b"
    using assms(2-5) False by (auto simp: n_def b_def nat_le_iff)
  have "int (b mod n) \<noteq> 0" using assms(2,3) False n(1) b(1) by (simp add: zmod_int)
  then have b4: "b mod n \<noteq> 0" by simp
  have mod: "int n mod 18446744073709551616 = int n" using b(2,3) by simp
  let ?s = "b div n"
  have s: "1 \<le> ?s" "?s < 2147483648" using b(2,3) n(2)
    by (simp_all add: Suc_le_eq div_greater_zero_iff order_le_less_trans [OF div_le_dividend])
  have dat: "v_i (of_i (int b div int n)) = int ?s"
    using telemetry_size [OF n(2) b(2)] mod b(2,3) by simp
  have "n * ?s + b mod n = b" by simp
  then have less: "int n * int ?s < int b"
    using b4 by (metis less_add_same_cancel1 not_gr_zero of_nat_less_iff of_nat_mult)
  have "telemetry_loop ord net type (int ?s) (int COM_FRAME_MAX_LEN div int ?s) 0 n_frame data (int b) (int n) = None"
  proof (rule ccontr)
    assume "\<not> ?thesis"
    then obtain r where "telemetry_loop ord net type (int ?s) (int COM_FRAME_MAX_LEN div int ?s) 0 n_frame
        data (int b) (int n) = Some r" by blast
    then show False
      by (rule telemetry_loop_stuck) (use assms(1) s less b(2) in \<open>auto simp flip: zdiv_int\<close>)
  qed
  moreover have "int ?s mod 18446744073709551616 = int ?s" using s(2) by simp
  ultimately show ?thesis
    using assms(1) s(1) n(2)
    by (simp add: com_send_telemetry_def n(1) b(1) mod dat Let_def require_def net_up_def)
qed

theorem com_send_telemetry_stuck_witness:
  "com_send_telemetry csp_le net_ideal 105 [] 0 0 0 = None \<and>
   com_send_telemetry csp_le net_ideal 0 (replicate 20 1) 20 3 0 = None"
proof
  show "com_send_telemetry csp_le net_ideal 105 [] 0 0 0 = None"
    by (rule com_send_telemetry_stuck [OF net_ideal_up]) simp_all
  show "com_send_telemetry csp_le net_ideal 0 (replicate 20 1) 20 3 0 = None"
    by (rule com_send_telemetry_stuck [OF net_ideal_up]) simp_all
qed

end
