(* ===== verification/Task_Comm.thy ===== *)
theory Task_Comm
  imports Cmd_COM
begin

text \<open>
  The communications task, src/system/taskCommunications.c: what is done with a packet that has been
  read from a connection. A packet is its data block and its length; what the task sends on, queues and
  prints is a list of actions. Accepting connections and reading packets are calls of libcsp.
\<close>

section \<open>Packets and actions\<close>

record packet =
  pk_data :: "byte list"
  pk_length :: nat
  pk_src :: int

datatype comm_act =
    Queue cmd                       \<comment> \<open>\<^verbatim>\<open>cmd_send\<close>\<close>
  | ReplyOk                         \<comment> \<open>the byte 200 back to the sender\<close>
  | Broadcast "byte list"           \<comment> \<open>the digital repeater\<close>
  | Show string
  | ShowRaw "byte list"
  | Resend "byte list"              \<comment> \<open>a copy to \<^verbatim>\<open>SCH_RESEND_TM_NODE\<close>\<close>
  | AppHook packet
  | Service packet                  \<comment> \<open>\<^verbatim>\<open>csp_service_handler\<close>\<close>

text \<open>\<^verbatim>\<open>packet->data[packet->length] = 0\<close> and the block as a string.\<close>

definition packet_text :: "packet \<Rightarrow> string option" where
  "packet_text pk =
     do { b \<leftarrow> blk_write (chars_of (pk_data pk)) (pk_length pk) [NUL];
          cstr_of b }"

text \<open>\<^verbatim>\<open>strtok\<close> with the separator ;\<close>

function strtok_all :: "string \<Rightarrow> string list" where
  "strtok_all s =
     (let s' = dropWhile (\<lambda>c. c = CHR '';'') s
      in if s' = [] then []
         else takeWhile (\<lambda>c. c \<noteq> CHR '';'') s' # strtok_all (dropWhile (\<lambda>c. c \<noteq> CHR '';'') s'))"
  by pat_completeness auto
termination
proof (relation "measure length")
  fix s s' :: string
  assume s': "s' = dropWhile (\<lambda>c. c = CHR '';'') s" "s' \<noteq> []"
  then have "hd s' \<noteq> CHR '';''" using hd_dropWhile by blast
  then have "length (dropWhile (\<lambda>c. c \<noteq> CHR '';'') s') < length s'"
    using s'(2) by (cases s') (simp_all add: le_imp_less_Suc length_dropWhile_le)
  moreover have "length s' \<le> length s" using s'(1) length_dropWhile_le by blast
  ultimately show "(dropWhile (\<lambda>c. c \<noteq> CHR '';'') s', s) \<in> measure length" by simp
qed simp

declare strtok_all.simps [simp del]

section \<open>Receivers\<close>

fun tc_loop :: "cmd_repo \<Rightarrow> string list \<Rightarrow> comm_act list option" where
  "tc_loop repo [] = Some []"
| "tc_loop repo (cmd_str # rest) =
     do { new_cmd \<leftarrow> cmd_build_from_str cmd_str repo;
          acts \<leftarrow> tc_loop repo rest;
          Some ((case new_cmd of None \<Rightarrow> [] | Some c \<Rightarrow> [Queue c]) @ acts) }"

definition com_receive_tc :: "cmd_repo \<Rightarrow> packet \<Rightarrow> comm_act list option" where
  "com_receive_tc repo pk = do { text \<leftarrow> packet_text pk; tc_loop repo (strtok_all text) }"

definition com_receive_cmd :: "cmd_repo \<Rightarrow> packet \<Rightarrow> comm_act list option" where
  "com_receive_cmd repo pk =
     do { text \<leftarrow> packet_text pk;
          new_cmd \<leftarrow> cmd_build_from_str text repo;
          Some (case new_cmd of None \<Rightarrow> [] | Some c \<Rightarrow> [Queue c]) }"

text \<open>A command with a copy of the frame as its parameters.\<close>

definition queue_raw :: "cmd_repo \<Rightarrow> string \<Rightarrow> byte list \<Rightarrow> comm_act list option" where
  "queue_raw repo name frame =
     do { c \<leftarrow> cmd_get_str name repo;
          c' \<leftarrow> cmd_add_params_raw c (Some (chars_of frame)) (int (8 + COM_FRAME_MAX_LEN));
          Some (case c' of None \<Rightarrow> [] | Some cm \<Rightarrow> [Queue cm]) }"

text \<open>The frame in the byte order of the host. The rest of the block stays.\<close>

definition ntoh_frame :: "csp_order \<Rightarrow> com_frame \<Rightarrow> com_frame" where
  "ntoh_frame ord f =
     f\<lparr>cf_nframe := csp_ntoh16 ord (cf_nframe f), cf_ndata := csp_ntoh32 ord (cf_ndata f)\<rparr>"

definition com_receive_tm :: "csp_order \<Rightarrow> cmd_repo \<Rightarrow> packet \<Rightarrow> comm_act list option" where
  "com_receive_tm ord repo pk =
     do { frame \<leftarrow> as_frame (pk_data pk);
          let f = ntoh_frame ord frame;
          let type = uint (cf_type f);
          if type = TM_TYPE_STATUS then queue_raw repo ''tm_parse_status'' (frame_bytes f)
          else if type = TM_TYPE_HELP then queue_raw repo ''tm_parse_string'' (frame_bytes f)
          else if type = TM_TYPE_FP then queue_raw repo ''tm_print_fp'' (frame_bytes f)
          else if TM_TYPE_PAYLOAD \<le> type \<and> type < TM_TYPE_PAYLOAD + last_sensor
          then queue_raw repo ''tm_parse_payload'' (frame_bytes f)
          else
            do { require (pk_length pk \<le> length (pk_data pk));
                 Some [ShowRaw (take (pk_length pk) (frame_bytes f @ drop (8 + COM_FRAME_MAX_LEN) (pk_data pk)))] } }"

definition ntoh_file_frame :: "csp_order \<Rightarrow> com_frame_file \<Rightarrow> com_frame_file" where
  "ntoh_file_frame ord f =
     f\<lparr>ff_nframe := csp_ntoh16 ord (ff_nframe f), ff_total := csp_ntoh16 ord (ff_total f),
       ff_fileid := csp_ntoh16 ord (ff_fileid f)\<rparr>"

definition com_receive_file :: "csp_order \<Rightarrow> cmd_repo \<Rightarrow> packet \<Rightarrow> comm_act list option" where
  "com_receive_file ord repo pk =
     do { frame \<leftarrow> as_file_frame (pk_data pk);
          let f = ntoh_file_frame ord frame;
          let type = uint (ff_type f);
          if TM_TYPE_FILE_START \<le> type \<and> type \<le> TM_TYPE_FILE_PART
          then queue_raw repo ''tm_parse_file'' (file_frame_bytes f)
          else Some [] }"

section \<open>One packet\<close>

text \<open>
  \<open>port\<close> and \<open>dst\<close> are those of the connection; \<open>resend\<close> and \<open>hook\<close> are the build options
  \<^verbatim>\<open>SCH_RESEND_TM_NODE\<close> and \<^verbatim>\<open>SCH_HOOK_COMM\<close>.
\<close>

definition comm_dispatch ::
    "csp_order \<Rightarrow> bool \<Rightarrow> bool \<Rightarrow> cmd_repo \<Rightarrow> int \<Rightarrow> int \<Rightarrow> packet \<Rightarrow> comm_act list option" where
  "comm_dispatch ord resend hook repo port dst pk =
     (if port = SCH_TRX_PORT_FILE then com_receive_file ord repo pk
      else if port = SCH_TRX_PORT_TC
      then do { acts \<leftarrow> com_receive_tc repo pk; Some (ReplyOk # acts) }
      else if port = SCH_TRX_PORT_RPT
      then (if dst = SCH_COMM_NODE
            then do { require (pk_length pk \<le> length (pk_data pk));
                      Some [Broadcast (take (pk_length pk) (pk_data pk))] }
            else do { text \<leftarrow> cstr_of (chars_of (pk_data pk)); Some [Show (''RPT: '' @ text)] })
      else if port = SCH_TRX_PORT_CMD
      then do { acts \<leftarrow> com_receive_cmd repo pk; Some (ReplyOk # acts) }
      else if port = SCH_TRX_PORT_DBG
      then do { text \<leftarrow> cstr_of (chars_of (pk_data pk));
                Some [Show (''['' @ show_int (pk_src pk) @ ''] '' @ text)] }
      else if port = SCH_TRX_PORT_DBG_TM
      then do { f \<leftarrow> as_frame (pk_data pk);
                text \<leftarrow> cstr_of (chars_of (drop 8 (pk_data pk)));
                Some [Show (''['' @ show_int (uint (cf_node f)) @ ''][''  @ show_int (uint (cf_nframe f)) @
                            '']'' @ CRLF @ text)] }
      else if port = SCH_TRX_PORT_TM
      then do { acts \<leftarrow> com_receive_tm ord repo pk;
                Some ((if resend then [Resend (take (pk_length pk) (pk_data pk))] else []) @ acts) }
      else Some ((if hook \<and> port > SCH_TRX_PORT_TM then [AppHook pk] else []) @ [Service pk]))"

text \<open>The counters are written before the packet is looked at.\<close>

definition comm_packet ::
    "csp_order \<Rightarrow> bool \<Rightarrow> bool \<Rightarrow> cmd_repo \<Rightarrow> int \<Rightarrow> int \<Rightarrow> packet \<Rightarrow> 's dat_cfg \<Rightarrow> int \<Rightarrow> 's \<Rightarrow>
     (comm_act list \<times> 's) option" where
  "comm_packet ord resend hook repo port dst pk cfg now s =
     do { n \<leftarrow> dat_get_system_var cfg dat_com_count_tc s;
          count_tc \<leftarrow> cint (n + 1);
          (_, s1) \<leftarrow> dat_set_system_var cfg dat_com_count_tc count_tc s;
          (_, s2) \<leftarrow> dat_set_system_var cfg dat_com_last_tc (v_i (of_i now)) s1;
          acts \<leftarrow> comm_dispatch ord resend hook repo port dst pk;
          Some (acts, s2) }"

fun comm_packets ::
    "csp_order \<Rightarrow> bool \<Rightarrow> bool \<Rightarrow> cmd_repo \<Rightarrow> int \<Rightarrow> int \<Rightarrow> packet list \<Rightarrow> 's dat_cfg \<Rightarrow> int \<Rightarrow> 's \<Rightarrow>
     (comm_act list \<times> 's) option" where
  "comm_packets ord resend hook repo port dst [] cfg now s = Some ([], s)"
| "comm_packets ord resend hook repo port dst (pk # pks) cfg now s =
     do { (a1, s1) \<leftarrow> comm_packet ord resend hook repo port dst pk cfg now s;
          (a2, s2) \<leftarrow> comm_packets ord resend hook repo port dst pks cfg now s1;
          Some (a1 @ a2, s2) }"
section \<open>Lemmas\<close>

lemma build_total: "repo_ready r \<Longrightarrow> \<exists>nc. cmd_build_from_str s r = Some nc"
proof -
  assume r: "repo_ready r"
  have fmt: "parse_fmt ''%s %n'' = [DStr, DSpace, DPos]" by (simp add: conversion_def is_space_def)
  show ?thesis
    unfolding cmd_build_from_str_def sscanf_def sscanf_f_def fmt
    by (auto simp: Let_def eof_count_def cmd_get_str_ready [OF r] split: option.split)
qed

lemma strtok_sep: "strtok_all (CHR '';'' # s) = strtok_all s"
  by (simp add: strtok_all.simps [of "CHR '';'' # s"] strtok_all.simps [of s])

lemma strtok_piece:
  assumes "p \<noteq> []" "CHR '';'' \<notin> set p" "rest = [] \<or> hd rest = CHR '';''"
  shows "strtok_all (p @ rest) = p # strtok_all rest"
proof -
  have "dropWhile (\<lambda>c. c = CHR '';'') (p @ rest) = p @ rest" using assms(1,2) by (cases p) auto
  moreover have "takeWhile (\<lambda>c. c \<noteq> CHR '';'') (p @ rest) = p"
    "dropWhile (\<lambda>c. c \<noteq> CHR '';'') (p @ rest) = rest"
    using assms(2,3) by (cases rest; auto simp: takeWhile_append dropWhile_append)+
  ultimately show ?thesis using assms(1) by (subst strtok_all.simps) (simp add: Let_def)
qed

text \<open>The text of a telecommand frame: its commands, separated by semicolons.\<close>

fun tc_text :: "string list \<Rightarrow> string" where
  "tc_text [] = ''''"
| "tc_text [p] = p"
| "tc_text (p # ps) = p @ '';'' @ tc_text ps"

definition tc_piece :: "string \<Rightarrow> bool" where
  "tc_piece p \<longleftrightarrow> p \<noteq> [] \<and> CHR '';'' \<notin> set p \<and> NUL \<notin> set p"

lemma strtok_text: "\<forall>p \<in> set ps. tc_piece p \<Longrightarrow> strtok_all (tc_text ps) = ps"
proof (induction ps rule: tc_text.induct)
  case 1
  show ?case by (simp add: strtok_all.simps)
next
  case (2 p)
  then show ?case
    using strtok_piece [of p "[]"] by (simp add: tc_piece_def strtok_all.simps [of "[]"])
next
  case (3 p q ps)
  then show ?case using strtok_piece [of p "'';'' @ tc_text (q # ps)"] by (simp add: tc_piece_def strtok_sep)
qed

lemma tc_text_NUL: "\<forall>p \<in> set ps. tc_piece p \<Longrightarrow> NUL \<notin> set (tc_text ps)"
  by (induction ps rule: tc_text.induct) (auto simp: tc_piece_def)

lemma tc_loop_ready:
  "repo_ready r \<Longrightarrow> tc_loop r ps =
     Some (concat (map (\<lambda>p. case the (cmd_build_from_str p r) of None \<Rightarrow> [] | Some c \<Rightarrow> [Queue c]) ps))"
proof (induction ps)
  case (Cons p ps)
  obtain nc where "cmd_build_from_str p r = Some nc" using build_total [OF Cons.prems] by blast
  then show ?case using Cons by simp
qed simp

lemma packet_text_of:
  assumes "pk_data pk = bytes_of s @ x # rest" "pk_length pk = length s" "NUL \<notin> set s"
  shows "packet_text pk = Some s"
proof -
  have "chars_of (pk_data pk) = s @ [char_of (unat x)] @ chars_of rest"
    unfolding assms(1) by (simp add: chars_of_def bytes_of_def comp_def)
  then show ?thesis
    using assms(2) blk_write_append [of s "length s" "[char_of (unat x)]" "[NUL]" "chars_of rest"]
      cstr_of_terminated [OF assms(3)]
    by (simp add: packet_text_def)
qed

lemma parse_node_text:
  assumes "in_int nd" "t \<noteq> []" "\<not> is_space (hd t)" "NUL \<notin> set t"
  shows "parse_params buf ''%d %n'' (Some (show_int nd @ '' '' @ t @ [NUL])) 1 =
     Some (Some [AInt nd, APos (length (show_int nd) + 1)])"
proof -
  have fmt: "parse_fmt ''%d %n'' = [DInt, DSpace, DPos]" by (simp add: conversion_def is_space_def)
  have "sscanf_f (\<lambda>_. None) (show_int nd @ '' '' @ t) ''%d %n'' =
      Some (1, [AInt nd, APos (length (show_int nd) + 1)])"
    unfolding sscanf_f_def fmt using assms by (simp add: scan_text skip_ws_show_int)
  moreover have "cstr_of (show_int nd @ '' '' @ t @ [NUL]) = Some (show_int nd @ '' '' @ t)"
    using cstr_of_terminated [of "show_int nd @ '' '' @ t"] assms(4) by simp
  ultimately show ?thesis by (simp add: parse_params_def parse_params_f_def)
qed

lemma send_text_sends:
  assumes "in_int nd" "t \<noteq> []" "\<not> is_space (hd t)" "NUL \<notin> set t" "length t \<le> n" "n < cap"
  shows "send_text n cap api ''%d %n'' (Some (show_int nd @ '' '' @ t @ [NUL])) 2 =
     Some (let (rc, rep) = ca_trans api (word_of_int nd) SCH_TRX_PORT_TC (bytes_of t)
           in (if rc > 0 \<and> rep = 200 then CMD_OK else CMD_ERROR,
               [Transaction (word_of_int nd) SCH_TRX_PORT_TC (bytes_of t)]))"
proof -
  have len: "1 < length (show_int nd) + 1" using show_int_nonempty [of nd] by simp
  have "cstr_of (show_int nd @ '' '' @ t @ [NUL]) = Some (show_int nd @ '' '' @ t)"
    using cstr_of_terminated [of "show_int nd @ '' '' @ t"] assms(4) by simp
  moreover have "drop (length (show_int nd) + 1) (show_int nd @ '' '' @ t) = t" by simp
  moreover have "cstr_of (strncpy_bytes t n @ replicate (cap - n) NUL) = Some t"
  proof -
    obtain k where k: "cap - n = Suc k" using assms(6) by (metis Suc_diff_Suc)
    have "strncpy_bytes t n @ replicate (cap - n) NUL = t @ NUL # replicate (n - length t + k) NUL"
      using assms(5) by (simp add: strncpy_bytes_def k replicate_app_Cons_same flip: replicate_add)
    then show ?thesis using cstr_of_terminated [OF assms(4)] by simp
  qed
  ultimately have "params_tail (Some (show_int nd @ '' '' @ t @ [NUL])) (length (show_int nd) + 1) n cap = Some t"
    by (simp add: params_tail_def)
  then show ?thesis
    using parse_node_text [OF assms(1-4), of 0] len by (simp add: send_text_def case_prod_beta Let_def)
qed

section \<open>Properties\<close>

text \<open>
  C24: a telecommand frame from the ground to the queue. The command \<^verbatim>\<open>com_send_tc\<close> with commands
  separated by semicolons (at most 191 characters in all) sends exactly this text to the port for
  telecommands; the receiving node answers it and queues, in this order, the commands that its
  repository knows, each with its parameters, and nothing else.
\<close>

theorem tc_frame_commands:
  assumes "repo_ready r" and "ps \<noteq> []" "\<forall>p \<in> set ps. tc_piece p" "\<not> is_space (hd (tc_text ps))"
    and "length (tc_text ps) \<le> 191" and "in_int nd"
  shows "(\<exists>rc. com_send_tc_frame api ''%d %n'' (Some (show_int nd @ '' '' @ tc_text ps @ [NUL])) 2 =
       Some (rc, [Transaction (word_of_int nd) SCH_TRX_PORT_TC (bytes_of (tc_text ps))])) \<and>
     comm_dispatch ord resend hook r SCH_TRX_PORT_TC dst
       \<lparr>pk_data = bytes_of (tc_text ps) @ x # rest, pk_length = length (tc_text ps), pk_src = src\<rparr> =
       Some (ReplyOk # concat (map (\<lambda>p. case the (cmd_build_from_str p r) of
                                          None \<Rightarrow> [] | Some c \<Rightarrow> [Queue c]) ps))"
proof
  have ne: "tc_text ps \<noteq> []" using assms(2,3) by (cases ps rule: tc_text.cases) (auto simp: tc_piece_def)
  note nul = tc_text_NUL [OF assms(3)]
  have "com_send_tc_frame = send_text 191 192"
    by (simp add: com_send_tc_frame_def COM_FRAME_MAX_LEN_def)
  then show "\<exists>rc. com_send_tc_frame api ''%d %n'' (Some (show_int nd @ '' '' @ tc_text ps @ [NUL])) 2 =
       Some (rc, [Transaction (word_of_int nd) SCH_TRX_PORT_TC (bytes_of (tc_text ps))])"
    using send_text_sends [OF assms(6) ne assms(4) nul assms(5), of 192 api]
    by (auto simp: Let_def split: prod.split)
  show "comm_dispatch ord resend hook r SCH_TRX_PORT_TC dst
       \<lparr>pk_data = bytes_of (tc_text ps) @ x # rest, pk_length = length (tc_text ps), pk_src = src\<rparr> =
       Some (ReplyOk # concat (map (\<lambda>p. case the (cmd_build_from_str p r) of
                                          None \<Rightarrow> [] | Some c \<Rightarrow> [Queue c]) ps))"
    using packet_text_of [where pk = "\<lparr>pk_data = bytes_of (tc_text ps) @ x # rest,
        pk_length = length (tc_text ps), pk_src = src\<rparr>", OF _ _ nul]
    by (simp add: comm_dispatch_def config_defs com_receive_tc_def strtok_text [OF assms(3)]
        tc_loop_ready [OF assms(1)])
qed

theorem tc_frame_commands_witness:
  "\<exists>r c. cmd_repo_init True True True cmd_repo_zero = Some (CMD_OK, r) \<and>
     cmd_build_from_str ''obc_ident'' r = Some (Some c) \<and>
     comm_dispatch csp_le False False r SCH_TRX_PORT_TC 1
       \<lparr>pk_data = bytes_of (tc_text [''obc_ident'', ''no_such 1'', ''obc_ident'']) @ 7 # [8, 9],
        pk_length = length (tc_text [''obc_ident'', ''no_such 1'', ''obc_ident'']), pk_src = 10\<rparr> =
       Some [ReplyOk, Queue c, Queue c]"
proof (rule init_zero_table)
  fix r
  assume init: "cmd_repo_init True True True cmd_repo_zero = Some (CMD_OK, r)"
    and r: "repo_ready r"
      "cmd_list r = map reg_entry (core_cmds True True True) @ replicate 194 null_entry"
  have find: "find_idx (\<lambda>e. ce_name e = Some ''obc_ident'') (cmd_list r) = Some 0"
    "find_idx (\<lambda>e. ce_name e = Some ''no_such'') (cmd_list r) = None"
    using r(2) by (simp_all add: core_cmds_def cmd_obc_init_def find_idx_eq_None cmd_drp_init_def
        cmd_console_init_def cmd_fp_init_def cmd_com_init_def cmd_tm_init_def null_entry_def)
  obtain c where c: "cmd_build_from_str ''obc_ident'' r = Some (Some c)"
    using build_words [OF r(1), of "''obc_ident''" "''''" "''''"] find(1) by (simp add: is_space_def)
  have none: "cmd_build_from_str ''no_such 1'' r = Some None"
    using build_words [OF r(1), of "''no_such''" "'' ''" "''1''"] find(2) by (simp add: is_space_def)
  have ps: "\<forall>p \<in> set [''obc_ident'', ''no_such 1'', ''obc_ident'']. tc_piece p"
    "\<not> is_space (hd (tc_text [''obc_ident'', ''no_such 1'', ''obc_ident'']))"
    by (simp_all add: tc_piece_def is_space_def)
  have "in_int 10" by (simp add: in_int_def)
  from tc_frame_commands [OF r(1) _ ps _ this, of undefined csp_le False False 1 7 "[8, 9]" 10]
  show ?thesis using init c none by (intro exI [of _ r] exI [of _ c]) simp
qed

end
