(* ===== verification/File_Transfer.thy ===== *)
theory File_Transfer
  imports Task_Comm
begin

text \<open>
  Files over the link: the file commands of src/system/cmdTM.c on top of the frames of cmdCOM.c and
  the communications task. The file system is a map from path names to contents.
\<close>

section \<open>Receiving\<close>

text \<open>The static variables of \<^verbatim>\<open>tm_parse_file\<close> and the file system it writes to.\<close>

record file_rx =
  rx_files :: "string \<Rightarrow> byte list option"
  rx_dir :: bool
  rx_fname :: "string option"
  rx_last_id :: int
  rx_last_frame :: int

definition recv_dir :: string where "recv_dir = ''recv_files/''"

text \<open>The tail of the last frame: the bytes 0xAA at its end are taken for the filling.\<close>

definition strip_fill :: "byte list \<Rightarrow> byte list" where
  "strip_fill bs = rev (dropWhile (\<lambda>b. b = 0xAA) (rev bs))"

definition file_start :: "com_frame_file \<Rightarrow> file_rx \<Rightarrow> file_rx option" where
  "file_start frame rx =
     do { rname \<leftarrow> cstr_of (chars_of (ff_data frame));
          let idname = take 9 (show_int (uint (ff_fileid frame)) @ ''_'');
          let expectedfname = recv_dir @ rname;
          let fname = (if rx_files rx expectedfname \<noteq> None then recv_dir @ idname @ rname else expectedfname);
          Some (rx\<lparr>rx_fname := Some fname, rx_last_id := uint (ff_fileid frame),
                   rx_last_frame := uint (ff_nframe frame)\<rparr>) }"

text \<open>The name of a part is cut to the 20 bytes the code allocates for it after the directory.\<close>

definition file_part :: "com_frame_file \<Rightarrow> file_rx \<Rightarrow> file_rx" where
  "file_part frame rx =
     rx\<lparr>rx_fname := Some (take (length recv_dir + 19)
           (recv_dir @ show_int (uint (ff_fileid frame)) @ ''_'' @ show_int (uint (ff_nframe frame)) @ ''_'' @
            show_int (uint (ff_total frame)) @ ''.part'')),
        rx_last_id := uint (ff_fileid frame), rx_last_frame := uint (ff_nframe frame) - 1\<rparr>"

definition file_write :: "(string \<Rightarrow> bool) \<Rightarrow> int \<Rightarrow> com_frame_file \<Rightarrow> file_rx \<Rightarrow> (int \<times> file_rx)" where
  "file_write can_open type frame rx =
     (case rx_fname rx of
        None \<Rightarrow> (CMD_ERROR, rx)
      | Some fname \<Rightarrow>
          if rx_last_id rx \<noteq> uint (ff_fileid frame) \<or> rx_last_frame rx \<noteq> uint (ff_nframe frame) - 1
          then (CMD_ERROR, rx)
          else
            (let bytes = (if type = TM_TYPE_FILE_END \<or>
                             (type = TM_TYPE_FILE_PART \<and> ff_nframe frame = ff_total frame)
                          then strip_fill (ff_data frame) else ff_data frame)
             in if \<not> can_open fname then (CMD_ERROR, rx)
                else
                  (let old = (if type = TM_TYPE_FILE_PART then []
                              else case rx_files rx fname of None \<Rightarrow> [] | Some c \<Rightarrow> c)
                   in (CMD_OK, rx\<lparr>rx_last_id := uint (ff_fileid frame),
                                 rx_last_frame := uint (ff_nframe frame),
                                 rx_files := (rx_files rx)(fname \<mapsto> old @ bytes)\<rparr>))))"

definition tm_parse_file ::
    "(string \<Rightarrow> bool) \<Rightarrow> char list option \<Rightarrow> file_rx \<Rightarrow> (int \<times> file_rx) option" where
  "tm_parse_file can_open params rx =
     (case params of
        None \<Rightarrow> Some (CMD_SYNTAX_ERROR, rx)
      | Some b \<Rightarrow>
          do { frame \<leftarrow> as_file_frame (bytes_of b);
               let type = uint (ff_type frame);
               let rx1 = rx\<lparr>rx_dir := True\<rparr>;
               rx2 \<leftarrow> (if type = TM_TYPE_FILE_START then file_start frame rx1 else Some rx1);
               let rx3 = (if type = TM_TYPE_FILE_PART then file_part frame rx2 else rx2);
               let (rc, rx4) = (if type \<in> {TM_TYPE_FILE_DATA, TM_TYPE_FILE_PART, TM_TYPE_FILE_END}
                                then file_write can_open type frame rx3 else (CMD_OK, rx3));
               if rc \<noteq> CMD_OK then Some (rc, rx4)
               else if type = TM_TYPE_FILE_END \<or> type = TM_TYPE_FILE_PART
               then Some (CMD_OK, rx4\<lparr>rx_fname := None, rx_last_id := 0, rx_last_frame := 0\<rparr>)
               else Some (CMD_OK, rx4) })"

section \<open>Sending\<close>

definition basename :: "string \<Rightarrow> string" where
  "basename path = rev (takeWhile (\<lambda>c. c \<noteq> CHR ''/'') (rev path))"

text \<open>\<open>files\<close> is the file system, \<open>alloc\<close> whether \<^verbatim>\<open>malloc\<close> succeeds.\<close>

definition tm_send_file ::
    "csp_order \<Rightarrow> net \<Rightarrow> net \<Rightarrow> net \<Rightarrow> int \<Rightarrow> (string \<Rightarrow> byte list option) \<Rightarrow> (nat \<Rightarrow> bool) \<Rightarrow>
     string \<Rightarrow> char list option \<Rightarrow> int \<Rightarrow> (int \<times> (int \<times> com_frame_file list) option) option" where
  "tm_send_file ord n1 n2 n3 fileid files alloc fmt params nparams =
     do { parsed \<leftarrow> parse_params SCH_CMD_MAX_STR_PARAMS fmt params nparams;
          case parsed of
            Some [AStr file_name, AInt nd] \<Rightarrow>
              (case files file_name of
                 None \<Rightarrow> Some (CMD_ERROR, None)
               | Some content \<Rightarrow>
                   if \<not> alloc (length content) then Some (CMD_ERROR, None)
                   else
                     do { (rc, frames) \<leftarrow> com_send_file ord n1 n2 n3 fileid (Some (basename file_name))
                                            (Some content) (length content);
                          Some (rc, Some (nd, frames)) })
          | Some _ \<Rightarrow> None
          | None \<Rightarrow> Some (CMD_SYNTAX_ERROR, None) }"

text \<open>
  The bytes \<^verbatim>\<open>tm_send_file_parts\<close> selects: the inner \<open>None\<close> is the syntax error. The sums are those of the
  code, unsigned of 64 bits; a negative offset makes \<^verbatim>\<open>fseek\<close> fail and the file is read from its start.
\<close>

definition select_parts :: "nat \<Rightarrow> int \<Rightarrow> int \<Rightarrow> (int \<times> nat) option option" where
  "select_parts file_size start_frame end_frame =
     do { start_byte \<leftarrow> cint (start_frame * int COM_FRAME_MAX_LEN);
          let wanted = ((end_frame - start_frame) * int COM_FRAME_MAX_LEN) mod 2 ^ 64;
          let read_bytes =
            (if end_frame < 0 then int file_size
             else if (start_byte + wanted) mod 2 ^ 64 > int file_size
                  then (int file_size - start_byte) mod 2 ^ 64 else wanted);
          if start_byte > int file_size \<or> (start_byte + read_bytes) mod 2 ^ 64 > int file_size
          then Some None
          else Some (Some (start_byte, nat read_bytes)) }"

definition tm_send_file_parts ::
    "csp_order \<Rightarrow> net \<Rightarrow> (string \<Rightarrow> byte list option) \<Rightarrow> (nat \<Rightarrow> bool) \<Rightarrow>
     string \<Rightarrow> char list option \<Rightarrow> int \<Rightarrow> (int \<times> com_frame_file list) option" where
  "tm_send_file_parts ord net files alloc fmt params nparams =
     do { parsed \<leftarrow> parse_params SCH_CMD_MAX_STR_PARAMS fmt params nparams;
          case parsed of
            Some [AStr file_name, AInt file_id, AInt start_frame, AInt end_frame, AInt nd] \<Rightarrow>
              (case files file_name of
                 None \<Rightarrow> Some (CMD_ERROR, [])
               | Some content \<Rightarrow>
                   do { sel \<leftarrow> select_parts (length content) start_frame end_frame;
                        case sel of
                          None \<Rightarrow> Some (CMD_SYNTAX_ERROR, [])
                        | Some (start_byte, read_bytes) \<Rightarrow>
                            if \<not> alloc read_bytes then Some (CMD_ERROR, [])
                            else
                              do { let from = drop (nat start_byte) content;
                                   require (read_bytes \<le> length from);
                                   let n_parts = (length content + COM_FRAME_MAX_LEN - 1) div COM_FRAME_MAX_LEN;
                                   com_send_file_parts ord net (Some (take read_bytes from)) read_bytes
                                     file_id start_frame (int n_parts - 1) TM_TYPE_FILE_PART False } })
          | Some _ \<Rightarrow> None
          | None \<Rightarrow> Some (CMD_SYNTAX_ERROR, []) }"

section \<open>Merging parts and listing files\<close>

definition part_name :: "string \<Rightarrow> (int \<times> int \<times> int) option option" where
  "part_name d_name =
     do { (k, as) \<leftarrow> sscanf d_name ''%d_%d_%d.part'';
          Some (if k = 3 then (case as of [AInt i, AInt f, AInt m] \<Rightarrow> Some (i, f, m) | _ \<Rightarrow> None) else None) }"

definition filter_file_part_name :: "int \<Rightarrow> string \<Rightarrow> int option" where
  "filter_file_part_name merging_file_id d_name =
     do { p \<leftarrow> part_name d_name;
          Some (case p of Some (i, f, m) \<Rightarrow> if i = merging_file_id then 1 else 0 | None \<Rightarrow> 0) }"

text \<open>
  The search for missing frames over the sorted names: \<^verbatim>\<open>while(++last != frame)\<close> ends only when the frame
  is later than the last one (otherwise the counter overflows), and lists the numbers in between.
\<close>

fun missing_frames :: "int \<Rightarrow> string list \<Rightarrow> (int list \<times> int \<times> int option) option" where
  "missing_frames prev [] = Some ([], prev, None)"
| "missing_frames prev (d # ds) =
     do { p \<leftarrow> part_name d;
          case p of
            None \<Rightarrow> missing_frames prev ds
          | Some (i, frame, m) \<Rightarrow>
              do { require (prev < frame);
                   (more, prev', m') \<leftarrow> missing_frames frame ds;
                   Some ([prev + 1..frame - 1] @ more, prev',
                         Some (case m' of None \<Rightarrow> m | Some m'' \<Rightarrow> m'')) } }"

text \<open>\<open>names\<close> is what \<^verbatim>\<open>scandir\<close> with the filter and \<^verbatim>\<open>versionsort\<close> returns. The result: the frames reported
  missing and the shell command.\<close>

definition tm_merge_file ::
    "os_host \<Rightarrow> (int \<Rightarrow> string list) \<Rightarrow> string \<Rightarrow> char list option \<Rightarrow> int \<Rightarrow>
     (int \<times> int list \<times> os_event list) option" where
  "tm_merge_file h names fmt params nparams =
     do { parsed \<leftarrow> parse_params SCH_CMD_MAX_STR_PARAMS fmt params nparams;
          case parsed of
            Some [AStr file_name, AInt file_id] \<Rightarrow>
              do { (missing, prev, m) \<leftarrow> missing_frames (- 1) (names file_id);
                   let tail = (case m of None \<Rightarrow> [] | Some mx \<Rightarrow> [prev + 1..mx]);
                   let cmd = take (SCH_CMD_MAX_STR_PARAMS - 2)
                     (''cat $(find -name '' @ [CHR 0x22] @ show_int file_id @ ''_*.part'' @ [CHR 0x22] @
                      '' | sort -V) > recv_files/'' @ file_name);
                   Some (if os_system h cmd = 0 then CMD_OK else CMD_ERROR, missing @ tail, [Sys cmd]) }
          | Some _ \<Rightarrow> None
          | None \<Rightarrow> Some (CMD_SYNTAX_ERROR, [], []) }"

fun list_loop ::
    "csp_order \<Rightarrow> os_host \<Rightarrow> (string \<Rightarrow> net) \<Rightarrow> string \<Rightarrow> int option \<Rightarrow> string list \<Rightarrow>
     com_frame list option" where
  "list_loop ord h nets path sz [] = Some []"
| "list_loop ord h nets path sz (d # ds) =
     do { let file = take (COM_FRAME_MAX_LEN - 1) (path @ ''/'' @ d);
          let sz' = (case os_stat h file of Some n \<Rightarrow> Some n | None \<Rightarrow> sz);
          n \<leftarrow> sz';
          let buff = take (COM_FRAME_MAX_LEN - 1) (show_int n @ [CHR 0x09] @ '' '' @ d);
          (rc, frames) \<leftarrow> com_send_telemetry ord (nets d) 0 (bytes_of buff) (int (length buff))
                            (int (length buff)) 0;
          if rc \<noteq> CMD_OK then Some frames
          else do { rest \<leftarrow> list_loop ord h nets path sz' ds; Some (frames @ rest) } }"

definition tm_list_files ::
    "csp_order \<Rightarrow> os_host \<Rightarrow> (string \<Rightarrow> net) \<Rightarrow> string \<Rightarrow> char list option \<Rightarrow> int \<Rightarrow>
     (int \<times> com_frame list) option" where
  "tm_list_files ord h nets fmt params nparams =
     do { parsed \<leftarrow> parse_params SCH_CMD_MAX_STR_PARAMS fmt params nparams;
          case parsed of
            Some [AStr path, AInt nd] \<Rightarrow>
              (case os_readdir h path of
                 Some ds \<Rightarrow> do { frames \<leftarrow> list_loop ord h nets path None ds; Some (CMD_OK, frames) }
               | None \<Rightarrow> Some (CMD_ERROR, []))
          | Some _ \<Rightarrow> None
          | None \<Rightarrow> Some (CMD_SYNTAX_ERROR, []) }"
section \<open>What is sent\<close>

function chunks :: "byte list \<Rightarrow> byte list list" where
  "chunks bs = (if bs = [] then [] else take COM_FRAME_MAX_LEN bs # chunks (drop COM_FRAME_MAX_LEN bs))"
  by pat_completeness auto
termination
  by (relation "measure length") (auto simp: COM_FRAME_MAX_LEN_def)

declare chunks.simps [simp del]

lemma chunks_Nil [simp]: "chunks [] = []"
  by (simp add: chunks.simps)

definition fill :: "byte list \<Rightarrow> byte list" where
  "fill bs = bs @ replicate (COM_FRAME_MAX_LEN - length bs) 0xAA"

fun file_frames :: "csp_order \<Rightarrow> int \<Rightarrow> int \<Rightarrow> int \<Rightarrow> int \<Rightarrow> byte list list \<Rightarrow> com_frame_file list" where
  "file_frames ord n type fileid parts [] = []"
| "file_frames ord n type fileid parts (c # cs) =
     file_frame ord n type fileid parts (fill c) # file_frames ord (n + 1) type fileid parts cs"

lemma concat_chunks: "concat (chunks bs) = bs"
proof (induction bs rule: chunks.induct)
  case (1 bs)
  then show ?case by (cases "bs = []") (simp_all add: chunks.simps [of bs])
qed

lemma length_chunks_exact:
  "length bs = n * COM_FRAME_MAX_LEN \<Longrightarrow> length (chunks bs) = n \<and> (\<forall>c \<in> set (chunks bs). length c = COM_FRAME_MAX_LEN)"
proof (induction n arbitrary: bs)
  case 0
  then show ?case by (simp add: chunks.simps)
next
  case (Suc n)
  then have ne: "bs \<noteq> []" "length (drop COM_FRAME_MAX_LEN bs) = n * COM_FRAME_MAX_LEN"
      "length (take COM_FRAME_MAX_LEN bs) = COM_FRAME_MAX_LEN"
    by (auto simp: COM_FRAME_MAX_LEN_def)
  then show ?case using Suc.IH [OF ne(2)] by (simp add: chunks.simps [of bs])
qed

lemma chunks_short: "bs \<noteq> [] \<Longrightarrow> length bs \<le> COM_FRAME_MAX_LEN \<Longrightarrow> chunks bs = [bs]"
  by (simp add: chunks.simps [of bs])

lemma file_parts_loop_sends:
  assumes "net_up net" and "n \<le> length data"
  shows "file_parts_loop ord net type fileid parts k start data n =
     Some (Some (if n = 0 \<and> k = 0 then 0 else 1), file_frames ord start type fileid parts (chunks (take n data)))"
  using assms(2)
proof (induction n arbitrary: k start data rule: less_induct)
  case (less n)
  show ?case
  proof (cases "n = 0")
    case True
    then show ?thesis by (simp add: file_parts_loop.simps chunks.simps)
  next
    case False
    obtain b where b: "nt_buf net k = Some b" "length b = COM_FRAME_MAX_LEN" "nt_send net k"
      using assms(1) by (auto simp: net_up_def)
    define m where "m = min n COM_FRAME_MAX_LEN"
    have m: "0 < m" "m \<le> n" "m \<le> COM_FRAME_MAX_LEN" using False by (auto simp: m_def COM_FRAME_MAX_LEN_def)
    have sent: "(if n \<ge> COM_FRAME_MAX_LEN then COM_FRAME_MAX_LEN else n) = m" by (simp add: m_def)
    have block: "fill_block b data m = Some (take m data @ drop m b)"
      using m b(2) less.prems by (simp add: fill_block_def require_def)
    have filled: "(if m < COM_FRAME_MAX_LEN
        then take m (take m data @ drop m b) @ replicate (COM_FRAME_MAX_LEN - m) 0xAA
        else take m data @ drop m b) = fill (take m data)"
      using m b(2) less.prems by (auto simp: fill_def)
    have chunk: "chunks (take n data) = take m data # chunks (take (n - m) (drop m data))"
    proof -
      have "take n data \<noteq> []" using False less.prems by auto
      moreover have "take COM_FRAME_MAX_LEN (take n data) = take m data" by (simp add: m_def min.commute)
      moreover have "drop COM_FRAME_MAX_LEN (take n data) = take (n - m) (drop m data)"
        by (cases "n \<le> COM_FRAME_MAX_LEN") (simp_all add: m_def drop_take min_def)
      ultimately show ?thesis by (simp add: chunks.simps [of "take n data"])
    qed
    have "file_parts_loop ord net type fileid parts (Suc k) (start + 1) (drop m data) (n - m) =
        Some (Some 1, file_frames ord (start + 1) type fileid parts (chunks (take (n - m) (drop m data))))"
      using less.IH [of "n - m" "drop m data" "Suc k" "start + 1"] m less.prems by simp
    then show ?thesis
      using False b(1,3)
      by (subst file_parts_loop.simps) (simp add: Let_def sent block filled chunk)
  qed
qed

lemma com_send_file_parts_sends:
  assumes "net_up net" and "n \<le> length data"
  shows "com_send_file_parts ord net (Some data) n fileid start parts type True =
     Some (if n = 0 then CMD_ERROR else CMD_OK, file_frames ord start type fileid parts (chunks (take n data)))"
  using file_parts_loop_sends [OF assms, of ord type fileid parts 0 start]
  by (simp add: com_send_file_parts_def rc_of_def)

text \<open>All frames of a file.\<close>

definition whole_file :: "csp_order \<Rightarrow> int \<Rightarrow> string \<Rightarrow> byte list \<Rightarrow> com_frame_file list" where
  "whole_file ord fileid name data =
     (let d = length data div COM_FRAME_MAX_LEN
      in [file_frame ord 0 TM_TYPE_FILE_START fileid (int d + 1) (fill (bytes_of (name @ [NUL])))] @
         file_frames ord 1 TM_TYPE_FILE_DATA fileid (int d + 1) (chunks (take (d * COM_FRAME_MAX_LEN) data)) @
         (if d * COM_FRAME_MAX_LEN = length data then []
          else [file_frame ord (int d + 1) TM_TYPE_FILE_END fileid (int d + 1)
                  (fill (drop (d * COM_FRAME_MAX_LEN) data))]))"

lemma com_send_file_frames:
  assumes "net_up n1" "net_up n2" "net_up n3" "length name < COM_FRAME_MAX_LEN"
  shows "com_send_file ord n1 n2 n3 fileid (Some name) (Some data) (length data) =
     Some (if length data mod COM_FRAME_MAX_LEN = 0 then CMD_ERROR else CMD_OK, whole_file ord fileid name data)"
proof -
  define d where "d = length data div COM_FRAME_MAX_LEN"
  define n where "n = d * COM_FRAME_MAX_LEN"
  have n: "n \<le> length data" unfolding n_def d_def by (rule div_times_less_eq_dividend)
  have tail: "length data - n = length data mod COM_FRAME_MAX_LEN"
    by (simp add: n_def d_def minus_div_mult_eq_mod)
  then have z: "length data mod COM_FRAME_MAX_LEN = 0 \<longleftrightarrow> n = length data" using n by auto
  have "chunks (bytes_of (name @ [NUL])) = [bytes_of (name @ [NUL])]"
    using assms(4) by (intro chunks_short) (auto simp: bytes_of_def)
  then have p1: "com_send_file_parts ord n1 (Some (bytes_of (name @ [NUL]))) (length name + 1) fileid 0 (int d + 1)
      TM_TYPE_FILE_START True = Some (CMD_OK, [file_frame ord 0 TM_TYPE_FILE_START fileid (int d + 1)
        (fill (bytes_of (name @ [NUL])))])"
    using com_send_file_parts_sends [OF assms(1), of "length name + 1" "bytes_of (name @ [NUL])"] by simp
  note p2 = com_send_file_parts_sends [OF assms(2) n, of ord fileid 1 "int d + 1" TM_TYPE_FILE_DATA]
  note p3 = com_send_file_parts_sends [OF assms(3), of "length data - n" "drop n data" ord fileid
      "int d + 1" "int d + 1" TM_TYPE_FILE_END]
  have short: "length (drop n data) \<le> COM_FRAME_MAX_LEN"
    using tail by (simp add: less_imp_le COM_FRAME_MAX_LEN_def)
  have "chunks (drop n data) = (if n = length data then [] else [drop n data])"
    using n chunks_short [OF _ short] by auto
  then have end_part: "com_send_file_parts ord n3 (Some (drop n data)) (length data - n) fileid (int d + 1) (int d + 1)
      TM_TYPE_FILE_END True = Some (if n = length data then (CMD_ERROR, [])
        else (CMD_OK, [file_frame ord (int d + 1) TM_TYPE_FILE_END fileid (int d + 1) (fill (drop n data))]))"
    using p3 n by auto
  have ok: "CMD_OK = 1" "CMD_ERROR = 0" by (simp_all add: config_defs)
  have up: "nt_conn n1" "nt_close n1" using assms(1) by (simp_all add: net_up_def)
  show ?thesis
    unfolding com_send_file_def whole_file_def Let_def z d_def [symmetric] n_def [symmetric]
    using up p1 p2 end_part by (cases "n = 0"; cases "n = length data") (simp_all add: rc_of_def ok)
qed

section \<open>What is received\<close>

text \<open>A frame from the link to the command it becomes, and the command run.\<close>

definition rx_frame ::
    "csp_order \<Rightarrow> cmd_repo \<Rightarrow> (string \<Rightarrow> bool) \<Rightarrow> com_frame_file \<Rightarrow> file_rx \<Rightarrow> (int \<times> file_rx) option" where
  "rx_frame ord repo can_open f rx =
     do { acts \<leftarrow> com_receive_file ord repo \<lparr>pk_data = file_frame_bytes f, pk_length = 200, pk_src = 1\<rparr>;
          case acts of [Queue c] \<Rightarrow> tm_parse_file can_open (c_params c) rx | _ \<Rightarrow> None }"

fun rx_frames ::
    "csp_order \<Rightarrow> cmd_repo \<Rightarrow> (string \<Rightarrow> bool) \<Rightarrow> com_frame_file list \<Rightarrow> file_rx \<Rightarrow> file_rx option" where
  "rx_frames ord repo can_open [] rx = Some rx"
| "rx_frames ord repo can_open (f # fs) rx =
     do { (rc, rx1) \<leftarrow> rx_frame ord repo can_open f rx;
          require (rc = CMD_OK);
          rx_frames ord repo can_open fs rx1 }"

definition parser_known :: "cmd_repo \<Rightarrow> bool" where
  "parser_known repo \<longleftrightarrow> repo_ready repo \<and>
     find_idx (\<lambda>e. ce_name e = Some ''tm_parse_file'') (cmd_list repo) \<noteq> None"

lemma rx_frames_append:
  "rx_frames ord repo can_open (xs @ ys) rx =
     do { rx1 \<leftarrow> rx_frames ord repo can_open xs rx; rx_frames ord repo can_open ys rx1 }"
  by (induction xs arbitrary: rx) (auto split: Option.bind_split)

lemma length_fill [simp]: "length bs \<le> COM_FRAME_MAX_LEN \<Longrightarrow> length (fill bs) = COM_FRAME_MAX_LEN"
  by (simp add: fill_def)

lemma length_file_frame_bytes: "length (file_frame_bytes f) = 8 + length (ff_data f)"
  by (simp add: file_frame_bytes_def)

context byte_order
begin

lemma rx_frame_parse:
  assumes "parser_known repo" "length block = COM_FRAME_MAX_LEN" "100 \<le> type" "type \<le> 103"
  shows "rx_frame ord repo can_open (file_frame ord n type fileid parts block) rx =
     tm_parse_file can_open (Some (chars_of (file_frame_bytes
       \<lparr>ff_nframe = word_of_int n, ff_type = word_of_int type, ff_node = word_of_int SCH_COMM_NODE,
        ff_fileid = word_of_int fileid, ff_total = word_of_int parts, ff_data = block\<rparr>))) rx"
proof -
  let ?f = "file_frame ord n type fileid parts block"
  let ?h = "\<lparr>ff_nframe = word_of_int n, ff_type = word_of_int type, ff_node = word_of_int SCH_COMM_NODE,
        ff_fileid = word_of_int fileid, ff_total = word_of_int parts, ff_data = block\<rparr> :: com_frame_file"
  obtain i where i: "find_idx (\<lambda>e. ce_name e = Some ''tm_parse_file'') (cmd_list repo) = Some i"
    and r: "repo_ready repo" using assms(1) by (auto simp: parser_known_def)
  have as: "as_file_frame (file_frame_bytes ?f) = Some ?f"
    using as_file_frame_bytes [of ?f "[]"] assms(2) by (simp add: file_frame_def)
  have h: "ntoh_file_frame ord ?f = ?h"
    by (simp add: ntoh_file_frame_def file_frame_def ntoh_hton_16)
  have "uint (word_of_int type :: 8 word) = type" using assms(3,4) by (simp add: uint_word_of_int)
  moreover have "length (file_frame_bytes ?h) = 8 + COM_FRAME_MAX_LEN"
    using assms(2) by (simp add: length_file_frame_bytes)
  ultimately show ?thesis
    using assms(3,4) i
    by (simp add: rx_frame_def com_receive_file_def as h config_defs queue_raw_def
        cmd_get_str_ready [OF r] cmd_add_params_raw_def blk_read_def require_def entry_cmd_def)
qed

end

lemma tm_parse_bytes:
  assumes "length (ff_data f) = COM_FRAME_MAX_LEN"
  shows "as_file_frame (file_frame_bytes f) = Some f"
  using as_file_frame_bytes [OF assms, of "[]"] by simp

lemma uint_word16: "0 \<le> n \<Longrightarrow> n < 65536 \<Longrightarrow> uint (word_of_int n :: 16 word) = n"
  by (simp add: uint_word_of_int)

definition rx_content :: "file_rx \<Rightarrow> string \<Rightarrow> byte list" where
  "rx_content rx fname = (case rx_files rx fname of None \<Rightarrow> [] | Some c \<Rightarrow> c)"

text \<open>The receiver in the middle of a file.\<close>

definition receiving :: "file_rx \<Rightarrow> string \<Rightarrow> int \<Rightarrow> int \<Rightarrow> bool" where
  "receiving rx fname fileid n \<longleftrightarrow>
     rx_fname rx = Some fname \<and> rx_last_id rx = fileid \<and> rx_last_frame rx = n"

context byte_order
begin

lemma rx_start:
  assumes "parser_known repo" "NUL \<notin> set name" "length name < COM_FRAME_MAX_LEN"
    and "0 \<le> fileid" "fileid < 65536"
  shows "\<exists>rx'. rx_frame ord repo can_open
       (file_frame ord 0 TM_TYPE_FILE_START fileid parts (fill (bytes_of (name @ [NUL])))) rx = Some (CMD_OK, rx') \<and>
     rx_files rx' = rx_files rx \<and>
     receiving rx' (if rx_files rx (recv_dir @ name) = None then recv_dir @ name
                    else recv_dir @ show_int fileid @ ''_'' @ name) fileid 0"
proof -
  let ?block = "fill (bytes_of (name @ [NUL]))"
  have len: "length ?block = COM_FRAME_MAX_LEN" using assms(3) by (intro length_fill) simp
  have "chars_of ?block = name @ NUL # chars_of (replicate (COM_FRAME_MAX_LEN - (length name + 1)) 0xAA)"
    by (simp add: fill_def chars_of_append)
  then have str: "cstr_of (chars_of ?block) = Some name" using cstr_of_terminated [OF assms(2)] by simp
  have "nat fileid < 10 ^ Suc 4" using assms(5) by simp
  then have idn: "length (show_int fileid) \<le> 5"
    using show_nat_length [of "nat fileid" 4] assms(4) by (simp add: show_int_def)
  have "uint (word_of_int fileid :: 16 word) = fileid" by (rule uint_word16 [OF assms(4,5)])
  then show ?thesis
    using len idn
    by (simp add: rx_frame_parse [OF assms(1) len] TM_TYPE_FILE_START_def tm_parse_file_def tm_parse_bytes
        file_start_def str receiving_def config_defs Let_def)
qed

lemma rx_data:
  assumes "parser_known repo" "\<forall>f. can_open f" "0 \<le> fileid" "fileid < 65536"
    and "\<forall>c \<in> set cs. length c = COM_FRAME_MAX_LEN" "receiving rx fname fileid (n - 1)"
    and "1 \<le> n" "n + int (length cs) < 65536"
  shows "\<exists>rx'. rx_frames ord repo can_open (file_frames ord n TM_TYPE_FILE_DATA fileid parts cs) rx = Some rx' \<and>
     receiving rx' fname fileid (n + int (length cs) - 1) \<and>
     rx_files rx' = (if cs = [] then rx_files rx else (rx_files rx)(fname \<mapsto> rx_content rx fname @ concat cs))"
  using assms(5-8)
proof (induction cs arbitrary: n rx)
  case (Cons c cs)
  have c: "fill c = c" "length c = COM_FRAME_MAX_LEN" using Cons.prems(1) by (simp_all add: fill_def)
  have id: "uint (word_of_int fileid :: 16 word) = fileid" by (rule uint_word16 [OF assms(3,4)])
  have n: "uint (word_of_int n :: 16 word) = n" using Cons.prems(3,4) by (intro uint_word16) auto
  let ?rx = "rx\<lparr>rx_dir := True, rx_last_id := fileid, rx_last_frame := n,
      rx_files := (rx_files rx)(fname \<mapsto> rx_content rx fname @ c)\<rparr>"
  have one: "rx_frame ord repo can_open (file_frame ord n TM_TYPE_FILE_DATA fileid parts c) rx = Some (CMD_OK, ?rx)"
    using Cons.prems(2) assms(2) c(2)
    by (simp add: rx_frame_parse [OF assms(1) c(2)] TM_TYPE_FILE_DATA_def tm_parse_file_def tm_parse_bytes
        file_write_def receiving_def id n config_defs Let_def rx_content_def)
  have "receiving ?rx fname fileid (n + 1 - 1)" using Cons.prems(2) by (simp add: receiving_def)
  then have "\<exists>rx'. rx_frames ord repo can_open (file_frames ord (n + 1) TM_TYPE_FILE_DATA fileid parts cs) ?rx =
       Some rx' \<and> receiving rx' fname fileid (n + 1 + int (length cs) - 1) \<and>
     rx_files rx' = (if cs = [] then rx_files ?rx
                     else (rx_files ?rx)(fname \<mapsto> rx_content ?rx fname @ concat cs))"
    using Cons.prems by (intro Cons.IH) auto
  then obtain rx' where rx': "rx_frames ord repo can_open
        (file_frames ord (n + 1) TM_TYPE_FILE_DATA fileid parts cs) ?rx = Some rx'"
      "receiving rx' fname fileid (n + 1 + int (length cs) - 1)"
      "rx_files rx' = (if cs = [] then rx_files ?rx
                     else (rx_files ?rx)(fname \<mapsto> rx_content ?rx fname @ concat cs))"
    by blast
  have "rx_content ?rx fname = rx_content rx fname @ c" by (simp add: rx_content_def)
  then have "rx_files rx' = (rx_files rx)(fname \<mapsto> rx_content rx fname @ concat (c # cs))"
    using rx'(3) by (cases "cs = []") simp_all
  moreover have "rx_frames ord repo can_open (file_frames ord n TM_TYPE_FILE_DATA fileid parts (c # cs)) rx = Some rx'"
    using one c(1) rx'(1) by (simp add: require_def)
  ultimately show ?case using rx'(2) by (intro exI [of _ rx']) (simp add: algebra_simps)
qed simp

lemma strip_fill_fill: "strip_fill (fill bs) = strip_fill bs"
  by (simp add: strip_fill_def fill_def dropWhile_append)

lemma rx_end:
  assumes "parser_known repo" "\<forall>f. can_open f" "0 \<le> fileid" "fileid < 65536"
    and "length tail \<le> COM_FRAME_MAX_LEN" "receiving rx fname fileid (n - 1)" "0 \<le> n" "n < 65536"
  shows "\<exists>rx'. rx_frame ord repo can_open (file_frame ord n TM_TYPE_FILE_END fileid parts (fill tail)) rx =
       Some (CMD_OK, rx') \<and> rx_fname rx' = None \<and>
     rx_files rx' = (rx_files rx)(fname \<mapsto> rx_content rx fname @ strip_fill tail)"
proof -
  have len: "length (fill tail) = COM_FRAME_MAX_LEN" using assms(5) by simp
  show ?thesis
    using assms(2,6) len uint_word16 [OF assms(3,4)] uint_word16 [OF assms(7,8)]
    by (simp add: rx_frame_parse [OF assms(1) len] TM_TYPE_FILE_END_def tm_parse_file_def tm_parse_bytes
        file_write_def receiving_def config_defs Let_def rx_content_def strip_fill_fill)
qed

end


definition rx_name :: "file_rx \<Rightarrow> int \<Rightarrow> string \<Rightarrow> string" where
  "rx_name rx fileid name =
     (if rx_files rx (recv_dir @ name) = None then recv_dir @ name
      else recv_dir @ show_int fileid @ ''_'' @ name)"

context byte_order
begin

lemma rx_whole_file:
  assumes "parser_known repo" "\<forall>f. can_open f" "0 \<le> fileid" "fileid < 65536"
    and "NUL \<notin> set name" "length name < COM_FRAME_MAX_LEN"
    and "length data div COM_FRAME_MAX_LEN + 1 < 65536" "length data mod COM_FRAME_MAX_LEN \<noteq> 0"
    and "rx_files rx (rx_name rx fileid name) = None"
  shows "\<exists>rx'. rx_frames ord repo can_open (whole_file ord fileid name data) rx = Some rx' \<and>
     rx_fname rx' = None \<and>
     rx_files rx' = (rx_files rx)(rx_name rx fileid name \<mapsto>
       take (length data div COM_FRAME_MAX_LEN * COM_FRAME_MAX_LEN) data @
       strip_fill (drop (length data div COM_FRAME_MAX_LEN * COM_FRAME_MAX_LEN) data))"
proof -
  define d where "d = length data div COM_FRAME_MAX_LEN"
  define n where "n = d * COM_FRAME_MAX_LEN"
  define cs where "cs = chunks (take n data)"
  have n: "n \<le> length data" unfolding n_def d_def by (rule div_times_less_eq_dividend)
  have len_n: "length (take n data) = d * COM_FRAME_MAX_LEN" using n n_def by simp
  have cs: "length cs = d" "\<forall>c \<in> set cs. length c = COM_FRAME_MAX_LEN" "concat cs = take n data"
    using length_chunks_exact [OF len_n] concat_chunks [of "take n data"] by (simp_all add: cs_def)
  have tail: "length (drop n data) = length data mod COM_FRAME_MAX_LEN"
    by (simp add: n_def d_def minus_div_mult_eq_mod)
  then have short: "length (drop n data) \<le> COM_FRAME_MAX_LEN" "n \<noteq> length data"
    using assms(8) by (auto simp: COM_FRAME_MAX_LEN_def)
  let ?fname = "rx_name rx fileid name"
  obtain rx1 where rx1: "rx_frame ord repo can_open (file_frame ord 0 TM_TYPE_FILE_START fileid (int d + 1)
        (fill (bytes_of (name @ [NUL])))) rx = Some (CMD_OK, rx1)"
      "rx_files rx1 = rx_files rx" "receiving rx1 ?fname fileid (1 - 1)"
    using rx_start [OF assms(1,5,6,3,4)] unfolding rx_name_def by fastforce
  have fit: "1 + int (length cs) < 65536" using cs(1) assms(7) by (simp add: d_def)
  obtain rx2 where rx2: "rx_frames ord repo can_open (file_frames ord 1 TM_TYPE_FILE_DATA fileid (int d + 1) cs) rx1 =
        Some rx2" "receiving rx2 ?fname fileid (1 + int (length cs) - 1)"
      "rx_files rx2 = (if cs = [] then rx_files rx1
         else (rx_files rx1)(?fname \<mapsto> rx_content rx1 ?fname @ concat cs))"
    using rx_data [OF assms(1-4) cs(2) rx1(3) _ fit, of "int d + 1"] by auto
  have old: "rx_content rx1 ?fname = []" using rx1(2) assms(9) by (simp add: rx_content_def)
  have c2: "rx_content rx2 ?fname = take n data"
    using rx2(3) old cs(3) rx1(2) assms(9) by (cases "cs = []") (simp_all add: rx_content_def)
  have f2: "(rx_files rx2)(?fname \<mapsto> c) = (rx_files rx)(?fname \<mapsto> c)" for c
    using rx2(3) rx1(2) by (cases "cs = []") simp_all
  have "receiving rx2 ?fname fileid (int d + 1 - 1)" using rx2(2) cs(1) by simp
  then obtain rx3 where rx3: "rx_frame ord repo can_open (file_frame ord (int d + 1) TM_TYPE_FILE_END fileid
        (int d + 1) (fill (drop n data))) rx2 = Some (CMD_OK, rx3)" "rx_fname rx3 = None"
      "rx_files rx3 = (rx_files rx2)(?fname \<mapsto> rx_content rx2 ?fname @ strip_fill (drop n data))"
    using rx_end [OF assms(1-4) short(1), of rx2 ?fname "int d + 1"] fit cs(1) by auto
  have "rx_frames ord repo can_open (whole_file ord fileid name data) rx = Some rx3"
    using rx1(1) rx2(1) rx3(1) short(2)
    by (simp add: whole_file_def Let_def rx_frames_append require_def d_def [symmetric] n_def [symmetric] cs_def [symmetric])
  then show ?thesis
    using rx3(2,3) f2 c2 unfolding d_def [symmetric] n_def [symmetric] by (intro exI [of _ rx3]) simp
qed

end

text \<open>
  C5: A file of at most 65534 full blocks and a rest that \<open>com_send_file\<close> sends is rebuilt by the receiver: the
  frames go through \<open>com_receive_file\<close> and \<open>tm_parse_file\<close> without an error, no file stays open, and one
  file is new, under the name sent (with the file's number before it when the name was taken). Its
  content is the one sent, except for bytes 0xAA at the very end, which count as filling.
\<close>

theorem file_transfer_whole:
  assumes "order_ok ord" "net_up n1" "net_up n2" "net_up n3" "parser_known repo" "\<forall>f. can_open f"
    and "0 \<le> fileid" "fileid < 65536" "NUL \<notin> set name" "length name < 192"
    and "length data div 192 < 65535" "length data mod 192 \<noteq> 0"
    and "rx_files rx (rx_name rx fileid name) = None"
  shows "\<exists>frames rx'. com_send_file ord n1 n2 n3 fileid (Some name) (Some data) (length data) = Some (CMD_OK, frames) \<and>
     rx_frames ord repo can_open frames rx = Some rx' \<and> rx_fname rx' = None \<and>
     rx_files rx' = (rx_files rx)(rx_name rx fileid name \<mapsto>
       take (length data div 192 * 192) data @ strip_fill (drop (length data div 192 * 192) data))"
proof -
  have ord: "byte_order ord" using assms(1) by (simp add: order_ok_byte_order)
  have "com_send_file ord n1 n2 n3 fileid (Some name) (Some data) (length data) =
      Some (CMD_OK, whole_file ord fileid name data)"
    using com_send_file_frames [OF assms(2-4), of name ord fileid data] assms(10,12)
    by (simp add: COM_FRAME_MAX_LEN_def)
  then show ?thesis
    using byte_order.rx_whole_file [OF ord assms(5-9), of data rx] assms(10-13)
    by (simp add: COM_FRAME_MAX_LEN_def)
qed

definition rx_idle :: file_rx where
  "rx_idle = \<lparr>rx_files = (\<lambda>_. None), rx_dir = False, rx_fname = None, rx_last_id = 0, rx_last_frame = 0\<rparr>"

theorem file_transfer_whole_witness:
  "\<exists>repo frames rx'. cmd_repo_init True True True cmd_repo_zero = Some (CMD_OK, repo) \<and>
     com_send_file csp_le net_ideal net_ideal net_ideal 7 (Some ''log.txt'') (Some (replicate 400 1)) (length (replicate 400 (1 :: byte))) =
       Some (CMD_OK, frames) \<and>
     rx_frames csp_le repo (\<lambda>_. True) frames rx_idle = Some rx' \<and> rx_fname rx' = None \<and>
     rx_files rx' = (rx_files rx_idle)(rx_name rx_idle 7 ''log.txt'' \<mapsto>
       take (length (replicate 400 (1 :: byte)) div 192 * 192) (replicate 400 1) @
       strip_fill (drop (length (replicate 400 (1 :: byte)) div 192 * 192) (replicate 400 1)))"
proof (rule init_zero_table)
  fix r
  assume init: "cmd_repo_init True True True cmd_repo_zero = Some (CMD_OK, r)"
    and r: "repo_ready r"
      "cmd_list r = map reg_entry (core_cmds True True True) @ replicate 194 null_entry"
  have "\<exists>e \<in> set (cmd_list r). ce_name e = Some ''tm_parse_file''"
    by (simp add: r(2) core_cmds_def cmd_tm_init_def)
  then have "parser_known r" using r(1) by (auto simp: parser_known_def find_idx_eq_None)
  then show ?thesis
    using file_transfer_whole [OF csp_le_ok net_ideal_up net_ideal_up net_ideal_up, of r "\<lambda>_. True" 7 "''log.txt''"
        "replicate 400 1" rx_idle] init
    by (simp add: rx_idle_def rx_name_def)
qed

text \<open>
  A file whose length is a multiple of 192 is never closed: every block goes out, but \<open>com_send_file\<close> reports an
  error and the frame that ends the file is not sent.
\<close>

theorem file_transfer_no_end:
  assumes "net_up n1" "net_up n2" "net_up n3" "length name < 192" "length data mod 192 = 0"
  shows "com_send_file ord n1 n2 n3 fileid (Some name) (Some data) (length data) =
     Some (CMD_ERROR,
       file_frame ord 0 TM_TYPE_FILE_START fileid (int (length data div 192) + 1) (fill (bytes_of (name @ [NUL]))) #
       file_frames ord 1 TM_TYPE_FILE_DATA fileid (int (length data div 192) + 1) (chunks data))"
proof -
  have "length data div 192 * 192 = length data" using assms(5) by (metis div_mult_mod_eq add_0_right)
  then show ?thesis
    using com_send_file_frames [OF assms(1-3), of name ord fileid data] assms(4,5)
    by (simp add: whole_file_def Let_def COM_FRAME_MAX_LEN_def)
qed

theorem file_transfer_no_end_witness:
  "com_send_file csp_le net_ideal net_ideal net_ideal 7 (Some ''a.bin'') (Some (replicate 384 1)) (length (replicate 384 (1 :: byte))) =
     Some (CMD_ERROR,
       file_frame csp_le 0 TM_TYPE_FILE_START 7 (int (length (replicate 384 (1 :: byte)) div 192) + 1)
         (fill (bytes_of (''a.bin'' @ [NUL]))) #
       file_frames csp_le 1 TM_TYPE_FILE_DATA 7 (int (length (replicate 384 (1 :: byte)) div 192) + 1)
         (chunks (replicate 384 1)))"
  by (rule file_transfer_no_end [OF net_ideal_up net_ideal_up net_ideal_up]) simp_all

end
