(* ===== verification/Cmd_TM.thy ===== *)
theory Cmd_TM
  imports File_Transfer Cmd_DRP
begin

text \<open>
  The telemetry commands of src/system/cmdTM.c that are not about files, and the two functions of
  repoData.c that print payload samples. \<open>nets\<close> gives for a node what libcsp does with the connection
  to it (Cmd_COM). \<open>show_f\<close> is the C library's printing of a float.
\<close>

section \<open>Printing a sample\<close>

text \<open>
  One field: its text and the bytes it takes. The type is also the format of \<^verbatim>\<open>printf\<close>: only the formats
  that are a percent sign and a letter are in the model, as in every schema.
\<close>

definition print_field :: "(value32 \<Rightarrow> string) \<Rightarrow> string \<Rightarrow> byte list \<Rightarrow> (string \<times> nat) option" where
  "print_field show_f type data =
     (let c = (if length type < 2 then NUL else type ! 1)
      in if c = CHR ''f'' then
           do { require (type = ''%f''); require (4 \<le> length data);
                Some (show_f (of_word_bytes data), 4) }
         else if c = CHR ''u'' then
           do { require (type = ''%u''); require (4 \<le> length data);
                Some (show_nat (unat (of_word_bytes data)), 4) }
         else if c = CHR ''i'' \<or> c = CHR ''d'' then
           do { require (length type = 2 \<and> type ! 0 = CHR ''%''); require (4 \<le> length data);
                Some (show_int (v_i (of_word_bytes data)), 4) }
         else if c = CHR ''h'' then
           do { require (2 \<le> length data);
                Some (show_int (sint (of_le16 (data ! 0) (data ! 1))), 2) }
         else if c = CHR ''s'' then
           do { require (type = ''%s''); require (SCH_ST_STR_SIZE \<le> length data);
                Some (takeWhile (\<lambda>x. x \<noteq> NUL) (chars_of (take SCH_ST_STR_SIZE data)), SCH_ST_STR_SIZE) }
         else Some ('''', 1))"

fun print_fields :: "(value32 \<Rightarrow> string) \<Rightarrow> string list \<Rightarrow> string list \<Rightarrow> byte list \<Rightarrow> string option" where
  "print_fields show_f (type # types) (name # names) data =
     do { (txt, n) \<leftarrow> print_field show_f type data;
          rest \<leftarrow> print_fields show_f types names (drop n data);
          Some (name @ '': '' @ txt @ [CHR 0x0D, CHR 0x0A] @ rest) }"
| "print_fields show_f types names data = Some []"

definition dat_print_payload_struct :: "(value32 \<Rightarrow> string) \<Rightarrow> byte list \<Rightarrow> int \<Rightarrow> (int \<times> string) option" where
  "dat_print_payload_struct show_f data payload =
     do { dm \<leftarrow> arr_get data_map payload;
          out \<leftarrow> print_fields show_f (strtok_sp (data_order dm)) (strtok_sp (var_names dm)) data;
          Some (0, out) }"

fun fprint_fields :: "(value32 \<Rightarrow> string) \<Rightarrow> string list \<Rightarrow> byte list \<Rightarrow> string option" where
  "fprint_fields show_f [] data = Some [CHR 0x0A]"
| "fprint_fields show_f (type # types) data =
     do { (txt, n) \<leftarrow> print_field show_f type data;
          rest \<leftarrow> fprint_fields show_f types (drop n data);
          Some (txt @ '','' @ rest) }"

text \<open>\<open>stream\<close>: whether the stream is one; the text is what is written to it.\<close>

definition dat_fprint_payload_struct ::
    "(value32 \<Rightarrow> string) \<Rightarrow> bool \<Rightarrow> byte list \<Rightarrow> int \<Rightarrow> (int \<times> string) option" where
  "dat_fprint_payload_struct show_f stream data payload =
     (if \<not> stream then Some (- 1, '''')
      else do { dm \<leftarrow> arr_get data_map payload;
                out \<leftarrow> fprint_fields show_f (strtok_sp (data_order dm)) data;
                Some (0, out) })"

section \<open>Status variables\<close>

text \<open>\<^verbatim>\<open>dat_sys_var_short_t\<close>, packed: the address and the value in the byte order of the network.\<close>

definition short_var :: "csp_order \<Rightarrow> int \<Rightarrow> value32 \<Rightarrow> byte list" where
  "short_var ord address v = le16 (csp_hton16 ord (word_of_int address)) @ le32 (csp_hton32 ord v)"

fun status_buff :: "csp_order \<Rightarrow> 's dat_cfg \<Rightarrow> dat_sys_var list \<Rightarrow> 's \<Rightarrow> byte list option" where
  "status_buff ord cfg [] s = Some []"
| "status_buff ord cfg (var # vars) s =
     do { v \<leftarrow> dat_get_status_var cfg (sv_address var) s;
          rest \<leftarrow> status_buff ord cfg vars s;
          Some (short_var ord (sv_address var) v @ rest) }"

definition tm_send_status ::
    "csp_order \<Rightarrow> (int \<Rightarrow> net) \<Rightarrow> 's dat_cfg \<Rightarrow> string \<Rightarrow> char list option \<Rightarrow> int \<Rightarrow> 's \<Rightarrow>
     (int \<times> com_frame list) option" where
  "tm_send_status ord nets cfg fmt params nparams s =
     do { parsed \<leftarrow> parse_params 0 fmt params nparams;
          case parsed of
            Some [AInt dest_node] \<Rightarrow>
              do { buff \<leftarrow> status_buff ord cfg dat_status_list s;
                   com_send_data_1 ord (nets dest_node) buff (length buff) TM_TYPE_STATUS dat_status_last_var 0 }
          | Some _ \<Rightarrow> None
          | None \<Rightarrow> Some (CMD_SYNTAX_ERROR, []) }"

text \<open>For an unknown name the address is indeterminate.\<close>

definition tm_send_var ::
    "csp_order \<Rightarrow> (int \<Rightarrow> net) \<Rightarrow> 's dat_cfg \<Rightarrow> string \<Rightarrow> char list option \<Rightarrow> int \<Rightarrow> 's \<Rightarrow>
     (int \<times> com_frame list) option" where
  "tm_send_var ord nets cfg fmt params nparams s =
     do { parsed \<leftarrow> parse_params SCH_CMD_MAX_STR_PARAMS fmt params nparams;
          case parsed of
            Some [AInt dest_node, AStr var_name] \<Rightarrow>
              (case dat_get_status_var_def_name (Some var_name) of
                 Inl _ \<Rightarrow> None
               | Inr system_var \<Rightarrow>
                   do { v \<leftarrow> dat_get_status_var cfg (sv_address system_var) s;
                        let buff = short_var ord (sv_address system_var) v;
                        com_send_data_1 ord (nets dest_node) buff (length buff) TM_TYPE_GENERIC 1 0 })
          | Some _ \<Rightarrow> None
          | None \<Rightarrow> Some (CMD_SYNTAX_ERROR, []) }"

fun parse_status_loop :: "(value32 \<Rightarrow> string) \<Rightarrow> csp_order \<Rightarrow> nat \<Rightarrow> byte list \<Rightarrow> string list option" where
  "parse_status_loop show_f ord 0 data = Some []"
| "parse_status_loop show_f ord (Suc k) data =
     do { require (6 \<le> length data);
          let address = uint (csp_ntoh16 ord (of_le16 (data ! 0) (data ! 1)));
          let v = csp_ntoh32 ord (of_word_bytes (drop 2 data));
          rest \<leftarrow> parse_status_loop show_f ord k (drop 6 data);
          Some (dat_print_system_var show_f ((dat_get_status_var_def address)\<lparr>sv_value := v\<rparr>) # rest) }"

text \<open>The lines it prints.\<close>

definition tm_parse_status ::
    "(value32 \<Rightarrow> string) \<Rightarrow> csp_order \<Rightarrow> char list option \<Rightarrow> (int \<times> string list) option" where
  "tm_parse_status show_f ord params =
     (case params of
        None \<Rightarrow> Some (CMD_SYNTAX_ERROR, [])
      | Some b \<Rightarrow>
          do { frame \<leftarrow> as_frame (bytes_of b);
               if uint (cf_type frame) \<noteq> TM_TYPE_STATUS \<or> unat (cf_ndata frame) > COM_FRAME_MAX_LEN div 6
               then Some (CMD_SYNTAX_ERROR, [])
               else do { ls \<leftarrow> parse_status_loop show_f ord (unat (cf_ndata frame)) (cf_data frame);
                         Some (CMD_OK, ls) } })"

text \<open>
  \<open>alloc\<close>: what \<^verbatim>\<open>malloc\<close> does. Its block, as long as the text without its terminator, is cleared over the length
  of the text after the first character, and then forgotten.
\<close>

definition tm_parse_string :: "(nat \<Rightarrow> bool) \<Rightarrow> char list option \<Rightarrow> (int \<times> string) option" where
  "tm_parse_string alloc params =
     (case params of
        None \<Rightarrow> Some (CMD_SYNTAX_ERROR, '''')
      | Some b \<Rightarrow>
          do { txt \<leftarrow> cstr_of (drop 8 b);
               more \<leftarrow> cstr_of (drop 9 b);
               require (alloc (length txt) \<or> more = '''');
               require (length more \<le> length txt);
               Some (CMD_OK, ''Available commands list: '' @ txt) })"

section \<open>Payload samples\<close>

text \<open>
  The samples of one frame: \<open>k\<close> is the room left in it, \<open>pos\<close> the number of the next sample of the
  \<open>n_samples\<close> that end before \<open>stop\<close>. The result of the read is not checked: a sample that is not
  there leaves the frame indeterminate.
\<close>

fun frame_samples ::
    "'s dat_cfg \<Rightarrow> int \<Rightarrow> int \<Rightarrow> int \<Rightarrow> int \<Rightarrow> nat \<Rightarrow> int \<Rightarrow> 's \<Rightarrow> byte list list option" where
  "frame_samples cfg payload n_samples index_pay stop 0 pos s = Some []"
| "frame_samples cfg payload n_samples index_pay stop (Suc k) pos s =
     (if pos \<ge> n_samples then Some []
      else
        do { delay \<leftarrow> cint (index_pay - stop);
             newest \<leftarrow> cint (n_samples + delay);
             off \<leftarrow> cint (newest - (pos + 1));
             (_, got) \<leftarrow> dat_get_recent_payload_sample cfg payload off s;
             buff \<leftarrow> got;
             rest \<leftarrow> frame_samples cfg payload n_samples index_pay stop k (pos + 1) s;
             Some (buff # rest) })"

definition payload_frame :: "csp_order \<Rightarrow> int \<Rightarrow> int \<Rightarrow> byte list list \<Rightarrow> com_frame option" where
  "payload_frame ord i payload samples =
     do { block \<leftarrow> blk_write (replicate COM_FRAME_MAX_LEN 0) 0 (concat samples);
          Some (tm_frame ord i (TM_TYPE_PAYLOAD + payload) (int (length samples)) (hton32_buff ord block)) }"

text \<open>The loop over the frames; \<open>k\<close> frames are left.\<close>

fun tel_loop ::
    "csp_order \<Rightarrow> net \<Rightarrow> 's dat_cfg \<Rightarrow> int \<Rightarrow> int \<Rightarrow> int \<Rightarrow> int \<Rightarrow> int \<Rightarrow> nat \<Rightarrow> int \<Rightarrow> int \<Rightarrow> 's \<Rightarrow>
     (int \<times> com_frame list) option" where
  "tel_loop ord net cfg payload n_samples index_pay stop per_frame 0 i rc_send s = Some (rc_send, [])"
| "tel_loop ord net cfg payload n_samples index_pay stop per_frame (Suc k) i rc_send s =
     (case nt_buf net (nat i) of
        None \<Rightarrow> Some (0, [])
      | Some _ \<Rightarrow>
          do { samples \<leftarrow> frame_samples cfg payload n_samples index_pay stop (nat per_frame) (i * per_frame) s;
               frame \<leftarrow> payload_frame ord i payload samples;
               if \<not> nt_send net (nat i) then Some (0, [])
               else
                 do { (rc, frames) \<leftarrow> tel_loop ord net cfg payload n_samples index_pay stop per_frame k (i + 1) 1 s;
                      Some (rc, frame # frames) } })"

text \<open>
  The connection is to port \<^verbatim>\<open>SCH_TRX_PORT_APP\<close>, which is a build option (15 by default, like the
  fixed \<^verbatim>\<open>SCH_TRX_PORT_TM\<close> on which the receiver runs \<^verbatim>\<open>com_receive_tm\<close>). The port is not part of a
  frame; that the two are equal is the default build.
\<close>

definition tm_send_tel_from_to ::
    "csp_order \<Rightarrow> net \<Rightarrow> 's dat_cfg \<Rightarrow> int \<Rightarrow> int \<Rightarrow> int \<Rightarrow> 's \<Rightarrow> (int \<times> com_frame list) option" where
  "tm_send_tel_from_to ord net cfg start stop payload s =
     do { dm \<leftarrow> arr_get data_map payload;
          structs_per_frame \<leftarrow> cdiv (int COM_FRAME_MAX_LEN) (int (dm_size dm));
          n_samples \<leftarrow> cint (stop - start);
          q \<leftarrow> cdiv n_samples structs_per_frame;
          r \<leftarrow> cmod n_samples structs_per_frame;
          let n_frames = (if r \<noteq> 0 then q + 1 else q);
          index_pay \<leftarrow> dat_get_system_var cfg (sys_index dm) s;
          if \<not> nt_conn net then Some (CMD_ERROR, [])
          else
            do { (rc_send, frames) \<leftarrow>
                   tel_loop ord net cfg payload n_samples index_pay stop structs_per_frame (nat n_frames) 0 0 s;
                 Some (rc_of rc_send (nt_close net), frames) } }"

definition tm_get_single ::
    "(value32 \<Rightarrow> string) \<Rightarrow> 's dat_cfg \<Rightarrow> string \<Rightarrow> char list option \<Rightarrow> int \<Rightarrow> 's \<Rightarrow> (int \<times> string) option" where
  "tm_get_single show_f cfg fmt params nparams s =
     do { parsed \<leftarrow> parse_params 0 fmt params nparams;
          case parsed of
            Some [AUint payload, AUint index] \<Rightarrow>
              if uint payload \<ge> last_sensor then Some (CMD_SYNTAX_ERROR, '''')
              else
                do { (ret, got) \<leftarrow> dat_get_payload_sample cfg (uint payload) (v_i index) s;
                     if ret = - 1 then Some (CMD_ERROR, '''')
                     else do { buff \<leftarrow> got;
                               (_, out) \<leftarrow> dat_print_payload_struct show_f buff (uint payload);
                               Some (CMD_OK, out) } }
          | Some _ \<Rightarrow> None
          | None \<Rightarrow> Some (CMD_SYNTAX_ERROR, '''') }"

text \<open>Here the sample is printed before the result of the read is looked at.\<close>

definition tm_get_last ::
    "(value32 \<Rightarrow> string) \<Rightarrow> 's dat_cfg \<Rightarrow> string \<Rightarrow> char list option \<Rightarrow> int \<Rightarrow> 's \<Rightarrow> (int \<times> string) option" where
  "tm_get_last show_f cfg fmt params nparams s =
     do { parsed \<leftarrow> parse_params 0 fmt params nparams;
          case parsed of
            Some [AUint payload] \<Rightarrow>
              if uint payload \<ge> last_sensor then Some (CMD_SYNTAX_ERROR, '''')
              else
                do { dm \<leftarrow> arr_get data_map (uint payload);
                     index_pay \<leftarrow> dat_get_system_var cfg (sys_index dm) s;
                     if index_pay < 1 then Some (CMD_ERROR, '''')
                     else
                       do { (ret, got) \<leftarrow> dat_get_recent_payload_sample cfg (uint payload) 0 s;
                            buff \<leftarrow> got;
                            (_, out) \<leftarrow> dat_print_payload_struct show_f buff (uint payload);
                            Some (if ret = - 1 then CMD_ERROR else CMD_OK, out) } }
          | Some _ \<Rightarrow> None
          | None \<Rightarrow> Some (CMD_SYNTAX_ERROR, '''') }"

definition tm_send_last ::
    "csp_order \<Rightarrow> (int \<Rightarrow> net) \<Rightarrow> 's dat_cfg \<Rightarrow> string \<Rightarrow> char list option \<Rightarrow> int \<Rightarrow> 's \<Rightarrow>
     (int \<times> com_frame list) option" where
  "tm_send_last ord nets cfg fmt params nparams s =
     do { parsed \<leftarrow> parse_params 0 fmt params nparams;
          case parsed of
            Some [AUint payload, AUint dest_node] \<Rightarrow>
              if uint payload \<ge> last_sensor then Some (CMD_SYNTAX_ERROR, [])
              else
                do { dm \<leftarrow> arr_get data_map (uint payload);
                     index_pay \<leftarrow> dat_get_system_var cfg (sys_index dm) s;
                     if index_pay < 1 then Some (CMD_ERROR, [])
                     else
                       do { per_frame \<leftarrow> cdiv (int COM_FRAME_MAX_LEN) (int (dm_size dm));
                            let structs_per_frame = (if per_frame > index_pay then index_pay else per_frame);
                            tm_send_tel_from_to ord (nets (v_i dest_node)) cfg (index_pay - structs_per_frame)
                              index_pay (uint payload) s } }
          | Some _ \<Rightarrow> None
          | None \<Rightarrow> Some (CMD_SYNTAX_ERROR, []) }"

definition tm_send_all ::
    "csp_order \<Rightarrow> (int \<Rightarrow> net) \<Rightarrow> 's dat_cfg \<Rightarrow> string \<Rightarrow> char list option \<Rightarrow> int \<Rightarrow> 's \<Rightarrow>
     (int \<times> com_frame list) option" where
  "tm_send_all ord nets cfg fmt params nparams s =
     do { parsed \<leftarrow> parse_params 0 fmt params nparams;
          case parsed of
            Some [AUint payload, AUint dest_node] \<Rightarrow>
              if uint payload \<ge> last_sensor then Some (CMD_SYNTAX_ERROR, [])
              else
                do { dm \<leftarrow> arr_get data_map (uint payload);
                     index_pay \<leftarrow> dat_get_system_var cfg (sys_index dm) s;
                     index_ack \<leftarrow> dat_get_system_var cfg (sys_ack dm) s;
                     tm_send_tel_from_to ord (nets (v_i dest_node)) cfg index_ack index_pay (uint payload) s }
          | Some _ \<Rightarrow> None
          | None \<Rightarrow> Some (CMD_SYNTAX_ERROR, []) }"

text \<open>The sum of the acknowledged index and the number of samples is unsigned.\<close>

definition tm_send_from ::
    "csp_order \<Rightarrow> (int \<Rightarrow> net) \<Rightarrow> 's dat_cfg \<Rightarrow> string \<Rightarrow> char list option \<Rightarrow> int \<Rightarrow> 's \<Rightarrow>
     (int \<times> com_frame list) option" where
  "tm_send_from ord nets cfg fmt params nparams s =
     do { parsed \<leftarrow> parse_params 0 fmt params nparams;
          case parsed of
            Some [AUint payload, AUint dest_node, AUint samples] \<Rightarrow>
              if uint payload \<ge> last_sensor then Some (CMD_SYNTAX_ERROR, [])
              else if samples < 1 then Some (CMD_SYNTAX_ERROR, [])
              else
                do { dm \<leftarrow> arr_get data_map (uint payload);
                     index_pay \<leftarrow> dat_get_system_var cfg (sys_index dm) s;
                     index_ack \<leftarrow> dat_get_system_var cfg (sys_ack dm) s;
                     let des = v_i (of_i index_ack + samples);
                     tm_send_tel_from_to ord (nets (v_i dest_node)) cfg index_ack
                       (if des > index_pay then index_pay else des) (uint payload) s }
          | Some _ \<Rightarrow> None
          | None \<Rightarrow> Some (CMD_SYNTAX_ERROR, []) }"

text \<open>
  Saving the samples of a frame. The assertion compares a product of 32 bits; the loop goes by the
  number of samples.
\<close>

fun save_samples :: "'s dat_cfg \<Rightarrow> int \<Rightarrow> nat \<Rightarrow> nat \<Rightarrow> byte list \<Rightarrow> int \<Rightarrow> 's \<Rightarrow> (int \<times> 's) option" where
  "save_samples cfg payload sz 0 data errors s = Some (errors, s)"
| "save_samples cfg payload sz (Suc k) data errors s =
     do { sample \<leftarrow> blk_read data 0 sz;
          (rc, s1) \<leftarrow> dat_add_payload_sample cfg (Some sample) payload s;
          save_samples cfg payload sz k (drop sz data) (if rc = - 1 then errors + 1 else errors) s1 }"

definition tm_parse_payload ::
    "csp_order \<Rightarrow> 's dat_cfg \<Rightarrow> char list option \<Rightarrow> 's \<Rightarrow> (int \<times> 's) option" where
  "tm_parse_payload ord cfg params s =
     (case params of
        None \<Rightarrow> Some (CMD_SYNTAX_ERROR, s)
      | Some b \<Rightarrow>
          do { frame \<leftarrow> as_frame (bytes_of b);
               let payload = uint (cf_type frame) - TM_TYPE_PAYLOAD;
               if payload \<ge> last_sensor then Some (CMD_SYNTAX_ERROR, s)
               else
                 do { dm \<leftarrow> arr_get data_map payload;
                      let data = ntoh32_buff ord (cf_data frame);
                      require (unat (cf_ndata frame * of_nat (dm_size dm)) \<le> COM_FRAME_MAX_LEN);
                      (errors, s1) \<leftarrow> save_samples cfg payload (dm_size dm) (unat (cf_ndata frame)) data 0 s;
                      Some (if errors > 0 then CMD_ERROR else CMD_OK, s1) } })"

text \<open>The comparisons with the number of samples are unsigned.\<close>

definition tm_set_ack ::
    "'s dat_cfg \<Rightarrow> string \<Rightarrow> char list option \<Rightarrow> int \<Rightarrow> 's \<Rightarrow> (int \<times> 's) option" where
  "tm_set_ack cfg fmt params nparams s =
     do { parsed \<leftarrow> parse_params 0 fmt params nparams;
          case parsed of
            Some [AUint payload, AUint k_samples] \<Rightarrow>
              if uint payload \<ge> last_sensor then Some (CMD_ERROR, s)
              else if k_samples < 1 then Some (CMD_ERROR, s)
              else
                do { dm \<leftarrow> arr_get data_map (uint payload);
                     ack_pay \<leftarrow> dat_get_system_var cfg (sys_ack dm) s;
                     index_pay \<leftarrow> dat_get_system_var cfg (sys_index dm) s;
                     if ack_pay = - 1 \<or> index_pay = - 1 then Some (CMD_ERROR, s)
                     else if of_i ack_pay > k_samples then Some (CMD_ERROR, s)
                     else
                       do { (_, s1) \<leftarrow> dat_set_system_var cfg (sys_ack dm)
                                         (if k_samples > of_i index_pay then index_pay else v_i k_samples) s;
                            Some (CMD_OK, s1) } }
          | Some _ \<Rightarrow> None
          | None \<Rightarrow> Some (CMD_SYNTAX_ERROR, s) }"

section \<open>Commands and flight plan\<close>

definition tm_send_cmds ::
    "csp_order \<Rightarrow> (int \<Rightarrow> net) \<Rightarrow> cmd_repo \<Rightarrow> string \<Rightarrow> char list option \<Rightarrow> int \<Rightarrow>
     (int \<times> com_frame list) option" where
  "tm_send_cmds ord nets repo fmt params nparams =
     do { parsed \<leftarrow> parse_params 0 fmt params nparams;
          case parsed of
            Some [AInt nd] \<Rightarrow>
              do { b \<leftarrow> cmd_save_all repo;
                   names \<leftarrow> cstr_of b;
                   com_send_data_1 ord (nets nd) (bytes_of b) (length names) TM_TYPE_HELP 1 0 }
          | Some _ \<Rightarrow> None
          | None \<Rightarrow> Some (CMD_SYNTAX_ERROR, []) }"

definition FP_CMDARGS_MAX_LEN :: nat where [config_defs]: "FP_CMDARGS_MAX_LEN = 176"

text \<open>\<^verbatim>\<open>fp_container_t\<close>. A missing command or argument would be printed from a null pointer.\<close>

definition fp_container :: "csp_order \<Rightarrow> fp_entry \<Rightarrow> byte list option" where
  "fp_container ord e =
     do { c \<leftarrow> fp_cmd e;
          a \<leftarrow> fp_args e;
          Some (le32 (csp_hton32 ord (of_i (unixtime e))) @ le32 (csp_hton32 ord (of_i (executions e))) @
                le32 (csp_hton32 ord (of_i (periodical e))) @ le32 (csp_hton32 ord (of_i (node e))) @
                bytes_of (strncpy_bytes (take (FP_CMDARGS_MAX_LEN - 1) (c @ '' '' @ a)) FP_CMDARGS_MAX_LEN)) }"

text \<open>The entries, at most \<open>room\<close> of them.\<close>

fun fp_containers :: "csp_order \<Rightarrow> 's dat_cfg \<Rightarrow> nat \<Rightarrow> nat \<Rightarrow> int \<Rightarrow> 's \<Rightarrow> byte list list option" where
  "fp_containers ord cfg i 0 room s = Some []"
| "fp_containers ord cfg i (Suc k) room s =
     do { (ok, got) \<leftarrow> dat_get_fp_st_index cfg (int i) s;
          used \<leftarrow> (if ok = SCH_ST_OK then do { e \<leftarrow> got; Some (unixtime e \<noteq> ST_FP_NULL \<and> room > 0) }
                    else Some False);
          if used then
            do { e \<leftarrow> got;
                 c \<leftarrow> fp_container ord e;
                 rest \<leftarrow> fp_containers ord cfg (Suc i) k (room - 1) s;
                 Some (c # rest) }
          else fp_containers ord cfg (Suc i) k room s }"

text \<open>The array has as many places as the counter says: it must be positive, and places that are not
  filled are indeterminate.\<close>

definition tm_send_fp ::
    "csp_order \<Rightarrow> (int \<Rightarrow> net) \<Rightarrow> 's dat_cfg \<Rightarrow> string \<Rightarrow> char list option \<Rightarrow> int \<Rightarrow> 's \<Rightarrow>
     (int \<times> com_frame list) option" where
  "tm_send_fp ord nets cfg fmt params nparams s =
     do { parsed \<leftarrow> parse_params 0 fmt params nparams;
          case parsed of
            Some [AInt nd] \<Rightarrow>
              do { fp_entries \<leftarrow> dat_get_system_var cfg dat_fpl_queue s;
                   require (fp_entries > 0);
                   fp_send \<leftarrow> fp_containers ord cfg 0 (nat SCH_FP_MAX_ENTRIES) fp_entries s;
                   require (int (length fp_send) = fp_entries);
                   com_send_telemetry ord (nets nd) TM_TYPE_FP (concat fp_send)
                     (int (length (concat fp_send))) fp_entries 0 }
          | Some _ \<Rightarrow> None
          | None \<Rightarrow> Some (CMD_SYNTAX_ERROR, []) }"

definition tm_print_fp :: "csp_order \<Rightarrow> char list option \<Rightarrow> (int \<times> string) option" where
  "tm_print_fp ord params =
     (case params of
        None \<Rightarrow> Some (CMD_SYNTAX_ERROR, '''')
      | Some b \<Rightarrow>
          do { frame \<leftarrow> as_frame (bytes_of b);
               let fld = (\<lambda>k. show_int (v_i (csp_ntoh32 ord (of_word_bytes (drop k (cf_data frame))))));
               cmd_args \<leftarrow> cstr_of (drop 24 b);
               Some (CMD_OK, take (FP_CMDARGS_MAX_LEN + 49)
                 (cmd_args @ [CHR 0x09] @ fld 0 @ [CHR 0x09] @ fld 12 @ [CHR 0x09] @ fld 4 @ [CHR 0x09] @ fld 8)) })"

section \<open>Dump\<close>

fun dump_loop ::
    "(value32 \<Rightarrow> string) \<Rightarrow> 's dat_cfg \<Rightarrow> int \<Rightarrow> nat \<Rightarrow> int \<Rightarrow> 's \<Rightarrow> string option" where
  "dump_loop show_f cfg payload_id 0 i s = Some ''''"
| "dump_loop show_f cfg payload_id (Suc k) i s =
     do { (ret, got) \<leftarrow> dat_get_payload_sample cfg payload_id i s;
          line \<leftarrow> (if ret = 0 then
                     do { buff \<leftarrow> got;
                          (_, out) \<leftarrow> dat_fprint_payload_struct show_f True buff payload_id;
                          Some out }
                   else Some '''');
          rest \<leftarrow> dump_loop show_f cfg payload_id k (i + 1) s;
          Some (line @ rest) }"

text \<open>The file it writes, with its content. The number of the payload is not checked.\<close>

definition tm_dump ::
    "(value32 \<Rightarrow> string) \<Rightarrow> (string \<Rightarrow> bool) \<Rightarrow> 's dat_cfg \<Rightarrow> string \<Rightarrow> char list option \<Rightarrow> int \<Rightarrow> 's \<Rightarrow>
     (int \<times> (string \<times> string) option) option" where
  "tm_dump show_f can_open cfg fmt params nparams s =
     do { parsed \<leftarrow> parse_params SCH_CMD_MAX_STR_PARAMS fmt params nparams;
          case parsed of
            Some [AInt payload_id, AStr filename] \<Rightarrow>
              if \<not> can_open filename then Some (CMD_ERROR, None)
              else
                do { dm \<leftarrow> arr_get data_map payload_id;
                     let header = map (\<lambda>c. if c = CHR '' '' then CHR '','' else c) (var_names dm);
                     payload_len \<leftarrow> dat_get_system_var cfg (sys_index dm) s;
                     rows \<leftarrow> dump_loop show_f cfg payload_id (nat payload_len) 0 s;
                     Some (CMD_OK, Some (filename, header @ '','' @ [CHR 0x0A] @ rows)) }
          | Some _ \<Rightarrow> None
          | None \<Rightarrow> Some (CMD_SYNTAX_ERROR, None) }"

end
