(* ===== verification/Telemetry.thy ===== *)
theory Telemetry
  imports Cmd_TM
begin

text \<open>
  Telemetry from end to end: what a telemetry command sends, \<^verbatim>\<open>com_receive_tm\<close> of the other node turns into
  a command, and that command shows or saves what was held at the sender. The acknowledged index
  that the ground moves.
\<close>

section \<open>From a frame to a command\<close>

definition knows :: "cmd_repo \<Rightarrow> string \<Rightarrow> bool" where
  "knows repo name \<longleftrightarrow> repo_ready repo \<and> find_idx (\<lambda>e. ce_name e = Some name) (cmd_list repo) \<noteq> None"

lemma queue_raw_known:
  assumes "knows repo name" "length frame = 8 + COM_FRAME_MAX_LEN"
  obtains c where "queue_raw repo name frame = Some [Queue c]" "c_params c = Some (chars_of frame)"
proof -
  obtain i where "find_idx (\<lambda>e. ce_name e = Some name) (cmd_list repo) = Some i" and r: "repo_ready repo"
    using assms(1) by (auto simp: knows_def)
  then have "queue_raw repo name frame =
      Some [Queue ((entry_cmd i (cmd_list repo ! i))\<lparr>c_params := Some (chars_of frame)\<rparr>)]"
    using assms(2)
    by (simp add: queue_raw_def cmd_get_str_ready [OF r] cmd_add_params_raw_def blk_read_def require_def)
  with that show thesis by simp
qed

lemma knows_core:
  assumes "name \<in> set (map fst (core_cmds True True True))"
  obtains r where "cmd_repo_init True True True cmd_repo_zero = Some (CMD_OK, r)" "knows r name"
proof (rule init_zero_table)
  fix r
  assume r: "cmd_repo_init True True True cmd_repo_zero = Some (CMD_OK, r)" "repo_ready r"
      "cmd_list r = map reg_entry (core_cmds True True True) @ replicate 194 null_entry"
  from assms obtain x where x: "x \<in> set (core_cmds True True True)" "name = fst x" by auto
  have "reg_entry x \<in> set (cmd_list r)" using x(1) by (simp add: r(3))
  moreover have "ce_name (reg_entry x) = Some name" unfolding x(2) by (cases x) simp
  ultimately have "knows r name" using r(2) unfolding knows_def find_idx_eq_None by blast
  then show thesis using that [OF r(1)] by blast
qed

definition tm_packet :: "com_frame \<Rightarrow> packet" where
  "tm_packet f = \<lparr>pk_data = frame_bytes f, pk_length = 8 + COM_FRAME_MAX_LEN, pk_src = SCH_COMM_NODE\<rparr>"

lemma length_frame_bytes: "length (frame_bytes f) = 8 + length (cf_data f)"
  by (simp add: frame_bytes_def)

lemma as_frame_params:
  "length (cf_data f) = COM_FRAME_MAX_LEN \<Longrightarrow> as_frame (bytes_of (chars_of (frame_bytes f))) = Some f"
  using as_frame_bytes [of f "[]"] by simp

text \<open>The command that a telemetry of a type becomes.\<close>

definition tm_parser :: "int \<Rightarrow> string" where
  "tm_parser type =
     (if type = TM_TYPE_STATUS then ''tm_parse_status''
      else if type = TM_TYPE_HELP then ''tm_parse_string''
      else if type = TM_TYPE_FP then ''tm_print_fp'' else ''tm_parse_payload'')"

context byte_order
begin

lemma receive_tm:
  assumes "length block = COM_FRAME_MAX_LEN"
    and "type = TM_TYPE_STATUS \<or> type = TM_TYPE_HELP \<or> type = TM_TYPE_FP \<or> type = TM_TYPE_PAYLOAD"
    and "knows repo (tm_parser type)"
  obtains c where "com_receive_tm ord repo (tm_packet (tm_frame ord i type n block)) = Some [Queue c]"
    "c_params c = Some (chars_of (frame_bytes \<lparr>cf_nframe = word_of_int i, cf_type = word_of_int type,
       cf_node = word_of_int SCH_COMM_NODE, cf_ndata = word_of_int n, cf_data = block\<rparr>))"
proof -
  let ?f = "tm_frame ord i type n block"
  let ?h = "\<lparr>cf_nframe = word_of_int i, cf_type = word_of_int type,
       cf_node = word_of_int SCH_COMM_NODE, cf_ndata = word_of_int n, cf_data = block\<rparr> :: com_frame"
  have as: "as_frame (frame_bytes ?f) = Some ?f"
    using as_frame_bytes [of ?f "[]"] assms(1) by (simp add: tm_frame_def)
  have h: "ntoh_frame ord ?f = ?h"
    by (simp add: ntoh_frame_def tm_frame_def ntoh_hton_16 ntoh_hton_32)
  have ty: "uint (word_of_int type :: 8 word) = type"
    using assms(2) by (auto simp: uint_word_of_int config_defs)
  have "length (frame_bytes ?h) = 8 + COM_FRAME_MAX_LEN" using assms(1) by (simp add: length_frame_bytes)
  from queue_raw_known [OF assms(3) this] obtain c where
      c: "queue_raw repo (tm_parser type) (frame_bytes ?h) = Some [Queue c]"
        "c_params c = Some (chars_of (frame_bytes ?h))" by blast
  have "com_receive_tm ord repo (tm_packet ?f) = Some [Queue c]"
    using assms(2) c(1)
    by (auto simp: com_receive_tm_def tm_packet_def as h ty tm_parser_def last_sensor_def config_defs)
  then show thesis using c(2) by (rule that)
qed

end

section \<open>Status variables\<close>

lemma word16_hd: "of_le16 ((le16 w @ r) ! 0) ((le16 w @ r) ! 1) = w"
proof -
  obtain a b where n: "le16 w = [a, b]" by (simp add: le16_def)
  then show ?thesis using of_le16_le16 [OF n] by simp
qed

lemma of_word_bytes_drop2 [simp]: "of_word_bytes (drop 2 (le16 v @ r)) = of_word_bytes r"
  by (simp add: of_word_bytes_def)

lemma length_short_var [simp]: "length (short_var ord a v) = 6"
  by (simp add: short_var_def)

context byte_order
begin

lemma status_lines:
  assumes "\<forall>v \<in> set vs. 0 \<le> sv_address v \<and> sv_address v < 65536 \<and> dat_get_status_var_def (sv_address v) = v"
    and "print_vars_loop show_f cfg vs s = Some ls"
  shows "\<exists>b. status_buff ord cfg vs s = Some b \<and> length b = 6 * length vs \<and>
     (\<forall>r. parse_status_loop show_f ord (length vs) (b @ r) = Some ls)"
  using assms
proof (induction vs arbitrary: ls)
  case (Cons v vs)
  from Cons.prems(2) obtain x ls' where x: "dat_get_status_var cfg (sv_address v) s = Some x"
      "print_vars_loop show_f cfg vs s = Some ls'"
      "ls = dat_print_system_var show_f (v\<lparr>sv_value := x\<rparr>) # ls'"
    by (auto split: bind_splits)
  from Cons.IH [OF _ x(2)] Cons.prems(1) obtain b where
      b: "status_buff ord cfg vs s = Some b" "length b = 6 * length vs"
        "\<forall>r. parse_status_loop show_f ord (length vs) (b @ r) = Some ls'" by auto
  have a: "0 \<le> sv_address v" "sv_address v < 65536" "dat_get_status_var_def (sv_address v) = v"
    using Cons.prems(1) by auto
  have "parse_status_loop show_f ord (length (v # vs)) ((short_var ord (sv_address v) x @ b) @ r) = Some ls" for r
  proof -
    let ?d = "short_var ord (sv_address v) x @ b @ r"
    have h: "of_le16 (?d ! 0) (?d ! 1) = csp_hton16 ord (word_of_int (sv_address v))"
        "of_word_bytes (drop 2 ?d) = csp_hton32 ord x" "drop 6 ?d = b @ r"
      using word16_hd [of "csp_hton16 ord (word_of_int (sv_address v))"] by (simp_all add: short_var_def)
    have "uint (word_of_int (sv_address v) :: 16 word) = sv_address v" by (rule uint_word16 [OF a(1,2)])
    then show ?thesis
      using b(3) a(3) x(3) h
      by (simp add: ntoh_hton_16 ntoh_hton_32 del: of_word_bytes_drop2)
  qed
  then show ?case using x(1) b(1,2) by simp
qed simp

end


lemma send_data_one:
  assumes "net_up net" "data \<noteq> []" "length data \<le> COM_FRAME_MAX_LEN" "type \<noteq> TM_TYPE_PAYLOAD"
    and "0 < n" "n < 2147483648"
  shows "\<exists>pad. length (data @ pad) = COM_FRAME_MAX_LEN \<and>
     com_send_data_1 ord net data (length data) type n i = Some (CMD_OK, [tm_frame ord i type n (data @ pad)])"
proof -
  obtain b where b: "nt_buf net 0 = Some b" "length b = COM_FRAME_MAX_LEN" "nt_send net 0" "nt_conn net" "nt_close net"
    using assms(1) by (auto simp: net_up_def)
  let ?L = "length data"
  have L: "0 < int ?L" "?L \<le> 192" "in_int (int ?L)" using assms(2,3) by (auto simp: config_defs in_int_def)
  have div: "cdiv (int ?L) (int ?L) = Some 1" using L cdiv_pos [of "int ?L" "int ?L"] by simp
  have block: "fill_block b data ?L = Some (data @ drop ?L b)"
    using b(2) L by (simp add: fill_block_def require_def config_defs)
  have "(if ?L < COM_FRAME_MAX_LEN then ?L else COM_FRAME_MAX_LEN) = ?L" using assms(3) by simp
  then have "send_data_loop ord net type (int ?L) 0 i data ?L n = Some (1, [tm_frame ord i type n (data @ drop ?L b)])"
    using b L div block assms(2,4)
    by (subst send_data_loop.simps) (simp add: Let_def require_def send_data_loop.simps [of _ _ _ _ "Suc 0"])
  then have "com_send_data_1 ord net data ?L type n i = Some (CMD_OK, [tm_frame ord i type n (data @ drop ?L b)])"
    using b(4,5) L(3) assms(4) by (simp add: com_send_data_1_def require_def rc_of_def)
  moreover have "length (data @ drop ?L b) = COM_FRAME_MAX_LEN" using b(2) assms(3) by simp
  ultimately show ?thesis by blast
qed

lemma dat_status_list_defs:
  "\<forall>v \<in> set dat_status_list. 0 \<le> sv_address v \<and> sv_address v < 17 \<and> dat_get_status_var_def (sv_address v) = v"
proof
  fix v
  assume v: "v \<in> set dat_status_list"
  then have "sv_address v \<in> {0..<17}"
    using dat_status_list_addresses(3) by (auto simp: addr_defs)
  then obtain j where j: "j < 17" "sv_address v = int j" by (auto intro: nonneg_int_cases)
  obtain w where "w \<in> set dat_status_list" "sv_address w = int j" "dat_get_status_var_def (int j) = w"
    using sv_value_def [OF j(1)] by blast
  then have "dat_get_status_var_def (int j) = v"
    using v j(2) dat_status_list_addresses(1) by (metis distinct_map inj_onD)
  then show "0 \<le> sv_address v \<and> sv_address v < 17 \<and> dat_get_status_var_def (sv_address v) = v"
    using j by simp
qed

text \<open>
  C27: The status telemetry shows on the ground what is on board. Over a link that works \<open>tm_send_status\<close> is one
  frame; the node that receives it runs \<open>tm_parse_status\<close>, and the lines it prints are exactly the lines
  that \<open>drp_print_system_vars\<close> prints at the sender below its line of headings (which \<open>tm_parse_status\<close>
  does not print): one line for each of the 17 variables of the table, with the value the repository
  gives (after the vote, if there are three copies).
\<close>

theorem status_telemetry_lines:
  assumes "order_ok ord" "net_up (nets nd)" "in_int nd" "knows repo ''tm_parse_status''"
    and "ram_inv data_map (n_copies tr) s"
  shows "\<exists>frame c ls. tm_send_status ord nets (ram_cfg alloc tr) ''%d'' (Some (show_int nd @ [NUL])) 1 s =
       Some (CMD_OK, [frame]) \<and>
     com_receive_tm ord repo (tm_packet frame) = Some [Queue c] \<and>
     tm_parse_status show_f ord (c_params c) = Some (CMD_OK, ls) \<and>
     drp_print_system_vars show_f (ram_cfg alloc tr) s = Some (CMD_OK, system_vars_header # ls) \<and>
     length ls = 17"
proof -
  have ord: "byte_order ord" using assms(1) by (simp add: order_ok_byte_order)
  let ?cfg = "ram_cfg alloc tr"
  have "\<forall>v \<in> set dat_status_list. 0 \<le> sv_address v \<and> sv_address v < 17"
    using dat_status_list_defs by blast
  from ram_repo.print_vars [OF assms(5) this] obtain ls where
      ls: "print_vars_loop show_f ?cfg dat_status_list s = Some ls" "length ls = 17" by simp
  have "\<forall>v \<in> set dat_status_list. 0 \<le> sv_address v \<and> sv_address v < 65536 \<and>
      dat_get_status_var_def (sv_address v) = v" using dat_status_list_defs by force
  from byte_order.status_lines [OF ord this ls(1)] obtain b where
      b: "status_buff ord ?cfg dat_status_list s = Some b" "length b = 102"
        "\<And>r. parse_status_loop show_f ord 17 (b @ r) = Some ls" by auto
  have "b \<noteq> []" "length b \<le> COM_FRAME_MAX_LEN" "TM_TYPE_STATUS \<noteq> TM_TYPE_PAYLOAD"
    using b(2) by (auto simp: config_defs)
  from send_data_one [OF assms(2) this, of 17 ord 0] obtain pad where
      pad: "length (b @ pad) = COM_FRAME_MAX_LEN"
        "com_send_data_1 ord (nets nd) b (length b) TM_TYPE_STATUS 17 0 =
           Some (CMD_OK, [tm_frame ord 0 TM_TYPE_STATUS 17 (b @ pad)])" by auto
  have send: "tm_send_status ord nets ?cfg ''%d'' (Some (show_int nd @ [NUL])) 1 s =
      Some (CMD_OK, [tm_frame ord 0 TM_TYPE_STATUS 17 (b @ pad)])"
    using parse_int_param [OF assms(3), of 0] b(1) pad(2) by (simp add: tm_send_status_def)
  have known: "knows repo (tm_parser TM_TYPE_STATUS)" using assms(4) by (simp add: tm_parser_def)
  obtain c where c: "com_receive_tm ord repo (tm_packet (tm_frame ord 0 TM_TYPE_STATUS 17 (b @ pad))) = Some [Queue c]"
      "c_params c = Some (chars_of (frame_bytes \<lparr>cf_nframe = word_of_int 0, cf_type = word_of_int TM_TYPE_STATUS,
         cf_node = word_of_int SCH_COMM_NODE, cf_ndata = word_of_int 17, cf_data = b @ pad\<rparr>))"
    using byte_order.receive_tm [OF ord pad(1) _ known, of 0 17] by blast
  have "tm_parse_status show_f ord (c_params c) = Some (CMD_OK, ls)"
    using pad(1) b(3) [of pad]
    by (simp add: c(2) tm_parse_status_def as_frame_bytes [where rest = "[]", simplified] config_defs)
  then show ?thesis
    using send c(1) ls by (auto simp: drp_print_system_vars_def)
qed

theorem status_telemetry_lines_witness:
  "\<exists>repo s frame c ls. cmd_repo_init True True True cmd_repo_zero = Some (CMD_OK, repo) \<and>
     dat_repo_init True (ram_cfg alloc_all True) ram_zero = Some s \<and>
     tm_send_status csp_le (\<lambda>_. net_ideal) (ram_cfg alloc_all True) ''%d'' (Some (show_int 10 @ [NUL])) 1 s =
       Some (CMD_OK, [frame]) \<and>
     com_receive_tm csp_le repo (tm_packet frame) = Some [Queue c] \<and>
     tm_parse_status (\<lambda>_. ''?'') csp_le (c_params c) = Some (CMD_OK, ls) \<and>
     drp_print_system_vars (\<lambda>_. ''?'') (ram_cfg alloc_all True) s = Some (CMD_OK, system_vars_header # ls) \<and>
     length ls = 17"
proof -
  have "''tm_parse_status'' \<in> set (map fst (core_cmds True True True))"
    by (simp add: core_cmds_def cmd_tm_init_def)
  then obtain r where r: "cmd_repo_init True True True cmd_repo_zero = Some (CMD_OK, r)" "knows r ''tm_parse_status''"
    by (rule knows_core)
  obtain s where s: "dat_repo_init True (ram_cfg alloc_all True) ram_zero = Some s" "ram_inv data_map (n_copies True) s"
    by (rule ram_init_inv [of True])
  have "in_int 10" by (simp add: in_int_def)
  from status_telemetry_lines [OF csp_le_ok _ this r(2) s(2), of "\<lambda>_. net_ideal" alloc_all "\<lambda>_. ''?''"] net_ideal_up
  show ?thesis using r(1) s(1) by blast
qed


section \<open>Payload samples\<close>

lemma blk_write_zeros:
  "length xs \<le> n \<Longrightarrow> blk_write (replicate n 0) 0 xs = Some (xs @ replicate (n - length xs) 0)"
  by (simp add: blk_write_def require_def)

context payload_repo
begin

text \<open>The samples of a frame are those at \<open>start + pos\<close> and after, as many as fit and are asked for.\<close>

lemma samples_of_frame:
  assumes "sampling s" and "p < length data_map" and "a \<le> b" "b \<le> length (held s p)"
    and "length (held s p) = n" "n < 2147483648" "pos \<le> b - a"
  shows "frame_samples cfg (int p) (int b - int a) (int n) (int b) k (int pos) s =
     Some (take k (drop (a + pos) (take b (held s p))))"
  using assms(7)
proof (induction k arbitrary: pos)
  case (Suc k)
  show ?case
  proof (cases "pos < b - a")
    case False
    then have "pos = b - a" using Suc.prems by simp
    then show ?thesis using assms(3,4) by simp
  next
    case True
    let ?off = "n - (a + pos + 1)"
    have n: "a + pos + 1 \<le> n" using True assms(3-5) by linarith
    have ints: "in_int (int n - int b)" "in_int (int b - int a + (int n - int b))"
        "int b - int a + (int n - int b) - (int pos + 1) = int ?off" "in_int (int ?off)"
      using n assms(3-6) True by (auto simp: in_int_def)
    have "?off < length (held s p)" using n assms(5) by simp
    from recent_sample [OF assms(1,2) this]
    have get: "dat_get_recent_payload_sample cfg (int p) (int ?off) s = Some (SCH_ST_OK, Some (held s p ! (a + pos)))"
      using n assms(5) by (simp add: rev_nth)
    have rest: "frame_samples cfg (int p) (int b - int a) (int n) (int b) k (int (pos + 1)) s =
        Some (take k (drop (a + (pos + 1)) (take b (held s p))))"
      using True by (intro Suc.IH) simp
    have "drop (a + pos) (take b (held s p)) = held s p ! (a + pos) # drop (a + (pos + 1)) (take b (held s p))"
      using True assms(3,4) by (subst Cons_nth_drop_Suc [symmetric]) auto
    then show ?thesis
      using True get rest ints assms(3) by (simp add: add_ac)
  qed
qed simp

end


lemma ram_sample_length:
  assumes "ram_pay.sampling alloc tr s" "p < length data_map" "x \<in> set (ram_pay.held alloc tr s p)"
  shows "length x = dm_size (data_map ! p)"
proof -
  obtain k where k: "ram_inv data_map (n_copies tr) s" "k \<le> ram_cap data_map p"
      "ram_pay.held alloc tr s p = map (ram_samples data_map s p) [0..<k]"
    using ram_pay.sampling_index [OF assms(1,2)] by metis
  obtain j where j: "j < k" "x = ram_samples data_map s p j" using assms(3) k(3) by auto
  then have cap: "j < ram_cap data_map p" using k(2) by simp
  have "ram_storage_payload_get_data (int p) (int j) (data_map ! p) s = Some (SCH_ST_OK, Some x)"
    using ram_pay.payload_get [OF k(1) assms(2) cap, of alloc] j(2) by simp
  then show ?thesis
    by (auto simp: ram_storage_payload_get_data_def dest: length_mem_read
        split: option.splits if_splits bind_splits cptr.splits)
qed

text \<open>The samples of the frame \<open>j\<close> when \<open>m\<close> go into each, and the frame.\<close>

definition batch :: "nat \<Rightarrow> 'a list \<Rightarrow> nat \<Rightarrow> 'a list" where
  "batch m xs j = take m (drop (j * m) xs)"

definition sample_frame :: "csp_order \<Rightarrow> nat \<Rightarrow> byte list list \<Rightarrow> nat \<Rightarrow> com_frame" where
  "sample_frame ord p bs j =
     tm_frame ord (int j) (TM_TYPE_PAYLOAD + int p) (int (length bs))
       (hton32_buff ord (concat bs @ replicate (COM_FRAME_MAX_LEN - length (concat bs)) 0))"

lemma concat_batches:
  "length xs \<le> (i + k) * m \<Longrightarrow> concat (map (batch m xs) [i..<i + k]) = drop (i * m) xs"
proof (induction k arbitrary: i)
  case (Suc k)
  have "concat (map (batch m xs) [i..<i + Suc k]) = batch m xs i @ drop (Suc i * m) xs"
    using Suc.IH [of "Suc i"] Suc.prems by (simp add: upt_conv_Cons del: upt_Suc)
  also have "\<dots> = drop (i * m) xs"
    unfolding batch_def using append_take_drop_id [of m "drop (i * m) xs"] by (simp add: add.commute)
  finally show ?case .
qed simp

context payload_repo
begin

lemma tel_loop_sends:
  assumes "net_up net" and "sampling s" and "p < length data_map" and "a \<le> b" "b \<le> length (held s p)"
    and "length (held s p) = n" "n < 2147483648"
    and "\<forall>x \<in> set (held s p). length x = sz" "m * sz \<le> COM_FRAME_MAX_LEN"
    and "k = 0 \<or> (i + k - 1) * m \<le> b - a"
  shows "tel_loop ord net cfg (int p) (int b - int a) (int n) (int b) (int m) k (int i) rc s =
     Some (if k = 0 then rc else 1,
           map (\<lambda>j. sample_frame ord p (batch m (drop a (take b (held s p))) j) j) [i..<i + k])"
  using assms(10)
proof (induction k arbitrary: i rc)
  case (Suc k)
  have pos: "i * m \<le> b - a" using Suc.prems by (auto simp: add_mult_distrib)
  obtain x where up: "nt_buf net i = Some x" "nt_send net i" using assms(1) by (auto simp: net_up_def)
  let ?bs = "batch m (drop a (take b (held s p))) i"
  have "int i * int m = int (i * m)" by simp
  then have fs: "frame_samples cfg (int p) (int b - int a) (int n) (int b) m (int i * int m) s = Some ?bs"
    using samples_of_frame [OF assms(2-7) pos, of m] by (simp add: batch_def add.commute)
  have sub: "set ?bs \<subseteq> set (held s p)"
    unfolding batch_def by (meson set_take_subset set_drop_subset subset_trans)
  then have "length (concat ?bs) = length ?bs * sz" using assms(8) by (intro length_concat_same) blast
  also have "\<dots> \<le> m * sz" by (simp add: batch_def)
  finally have len: "length (concat ?bs) \<le> COM_FRAME_MAX_LEN" using assms(9) by simp
  have fr: "payload_frame ord (int i) (int p) ?bs = Some (sample_frame ord p ?bs i)"
    by (simp add: payload_frame_def blk_write_zeros [OF len] sample_frame_def)
  have "k = 0 \<or> (Suc i + k - 1) * m \<le> b - a" using Suc.prems by simp
  from Suc.IH [OF this, of 1] have rest:
    "tel_loop ord net cfg (int p) (int b - int a) (int n) (int b) (int m) k (int i + 1) 1 s =
     Some (1, map (\<lambda>j. sample_frame ord p (batch m (drop a (take b (held s p))) j) j) [Suc i..<Suc i + k])"
    by (simp add: add.commute)
  show ?case
    using up fs fr rest by (simp add: upt_conv_Cons del: upt_Suc)
qed simp

end


context payload_repo
begin

lemma save_samples_adds:
  assumes "p < length data_map" and "\<forall>x \<in> set bs. length x = dm_size (data_map ! p)"
    and "sampling s" and "length (held s p) + length bs \<le> cap p"
  shows "\<exists>s'. save_samples cfg (int p) (dm_size (data_map ! p)) (length bs) (concat bs @ r) e s = Some (e, s') \<and>
     sampling s' \<and> held s' p = held s p @ bs"
  using assms(2-4)
proof (induction bs arbitrary: s)
  case (Cons b bs)
  have b: "length b = dm_size (data_map ! p)" "length (held s p) < cap p" using Cons.prems by simp_all
  from add_sample [OF Cons.prems(2) assms(1) b(2,1)] obtain s1 where
      s1: "dat_add_payload_sample cfg (Some b) (int p) s = Some (0, s1)" "sampling s1" "held s1 p = held s p @ [b]"
    by blast
  from Cons.IH [OF _ s1(2)] Cons.prems(1,3) s1(3) obtain s2 where
      "save_samples cfg (int p) (dm_size (data_map ! p)) (length bs) (concat bs @ r) e s1 = Some (e, s2)"
      "sampling s2" "held s2 p = held s1 p @ bs" by auto
  then show ?case using s1 b(1) by (simp add: blk_read_def require_def)
qed simp

end

text \<open>A frame from the link to the command it becomes, and the command run; then several frames.\<close>

definition rx_payload ::
    "csp_order \<Rightarrow> cmd_repo \<Rightarrow> 's dat_cfg \<Rightarrow> com_frame \<Rightarrow> 's \<Rightarrow> (int \<times> 's) option" where
  "rx_payload ord repo cfg f s =
     do { acts \<leftarrow> com_receive_tm ord repo (tm_packet f);
          case acts of [Queue c] \<Rightarrow> tm_parse_payload ord cfg (c_params c) s | _ \<Rightarrow> None }"

fun rx_payloads :: "csp_order \<Rightarrow> cmd_repo \<Rightarrow> 's dat_cfg \<Rightarrow> com_frame list \<Rightarrow> 's \<Rightarrow> 's option" where
  "rx_payloads ord repo cfg [] s = Some s"
| "rx_payloads ord repo cfg (f # fs) s =
     do { (rc, s1) \<leftarrow> rx_payload ord repo cfg f s;
          require (rc = CMD_OK);
          rx_payloads ord repo cfg fs s1 }"

lemma temp_data: "0 < length data_map" "dm_size (data_map ! 0) = 12"
    "sys_index (data_map ! 0) = dat_drp_idx_temp" "sys_ack (data_map ! 0) = dat_drp_ack_temp"
  by (simp_all add: data_map_def)

lemma rx_sample_frame:
  assumes "byte_order ord" "knows repo ''tm_parse_payload''" "\<forall>x \<in> set bs. length x = 12" "length bs \<le> 16"
    and "ram_pay.sampling alloc tr s" "length (ram_pay.held alloc tr s 0) + length bs \<le> 218450"
  shows "\<exists>s'. rx_payload ord repo (ram_cfg alloc tr) (sample_frame ord 0 bs j) s = Some (CMD_OK, s') \<and>
     ram_pay.sampling alloc tr s' \<and> ram_pay.held alloc tr s' 0 = ram_pay.held alloc tr s 0 @ bs"
proof -
  let ?block = "concat bs @ replicate (COM_FRAME_MAX_LEN - length (concat bs)) 0"
  have "length (concat bs) = length bs * 12" by (rule length_concat_same [OF assms(3)])
  then have len: "length (hton32_buff ord ?block) = COM_FRAME_MAX_LEN"
    using assms(4) by (simp add: hton32_buff_def config_defs)
  have known: "knows repo (tm_parser TM_TYPE_PAYLOAD)" using assms(2) by (simp add: tm_parser_def config_defs)
  obtain c where c: "com_receive_tm ord repo (tm_packet (sample_frame ord 0 bs j)) = Some [Queue c]"
      "c_params c = Some (chars_of (frame_bytes \<lparr>cf_nframe = word_of_int (int j),
         cf_type = word_of_int TM_TYPE_PAYLOAD, cf_node = word_of_int SCH_COMM_NODE,
         cf_ndata = word_of_int (int (length bs)), cf_data = hton32_buff ord ?block\<rparr>))"
    using byte_order.receive_tm [OF assms(1) len _ known, of "int j" "int (length bs)"]
    by (auto simp: sample_frame_def)
  have n: "unat (word_of_int (int (length bs)) :: 32 word) = length bs"
    using assms(4) by (simp add: unat_word_ariths unsigned_of_nat take_bit_nat_eq_self)
  have prod: "unat (word_of_int (int (length bs)) * of_nat 12 :: 32 word) \<le> COM_FRAME_MAX_LEN"
    using assms(4) n by (simp add: unat_word_ariths config_defs)
  have cap: "ram_cap data_map 0 = 218450" by (simp add: ram_cap_def temp_data)
  from ram_pay.save_samples_adds [OF temp_data(1) _ assms(5), of bs
      "replicate (COM_FRAME_MAX_LEN - length (concat bs)) 0" 0] obtain s' where
      "save_samples (ram_cfg alloc tr) 0 12 (length bs) ?block 0 s = Some (0, s')"
      "ram_pay.sampling alloc tr s'" "ram_pay.held alloc tr s' 0 = ram_pay.held alloc tr s 0 @ bs"
    using assms(3,6) by (auto simp: cap temp_data)
  moreover have "uint (word_of_int TM_TYPE_PAYLOAD :: 8 word) = TM_TYPE_PAYLOAD"
    by (simp add: TM_TYPE_PAYLOAD_def uint_word_of_int)
  moreover have "arr_get data_map 0 = Some (data_map ! 0)" using arr_get_ok [OF temp_data(1)] by simp
  ultimately show ?thesis
    using c n prod len
    by (simp add: rx_payload_def tm_parse_payload_def as_frame_bytes [where rest = "[]", simplified]
        last_sensor_def temp_data byte_order.ntoh_hton_buff [OF assms(1)] require_def)
qed


lemma rx_sample_frames:
  assumes "byte_order ord" "knows repo ''tm_parse_payload''"
    and "\<forall>j \<in> set js. length (B j) \<le> 16 \<and> (\<forall>x \<in> set (B j). length x = 12)"
    and "ram_pay.sampling alloc tr s"
    and "length (ram_pay.held alloc tr s 0) + length (concat (map B js)) \<le> 218450"
  shows "\<exists>s'. rx_payloads ord repo (ram_cfg alloc tr) (map (\<lambda>j. sample_frame ord 0 (B j) j) js) s = Some s' \<and>
     ram_pay.held alloc tr s' 0 = ram_pay.held alloc tr s 0 @ concat (map B js)"
  using assms(3-5)
proof (induction js arbitrary: s)
  case (Cons j js)
  have j: "\<forall>x \<in> set (B j). length x = 12" "length (B j) \<le> 16"
      "length (ram_pay.held alloc tr s 0) + length (B j) \<le> 218450" using Cons.prems by auto
  from rx_sample_frame [OF assms(1,2) j(1,2) Cons.prems(2) j(3), of j] obtain s1 where
      s1: "rx_payload ord repo (ram_cfg alloc tr) (sample_frame ord 0 (B j) j) s = Some (CMD_OK, s1)"
        "ram_pay.sampling alloc tr s1" "ram_pay.held alloc tr s1 0 = ram_pay.held alloc tr s 0 @ B j" by blast
  from Cons.IH [OF _ s1(2)] Cons.prems(1,3) s1(3) show ?case by (auto simp: s1(1))
qed simp

text \<open>
  C6: Payload telemetry is lossless. For any samples \<open>a\<close> to \<open>b - 1\<close> that the sender holds, \<open>tm_send_tel_from_to\<close>
  succeeds over a link that works (16 samples to a frame, every word in the byte order of the
  network); the other node runs \<open>tm_parse_payload\<close> for each frame, without an error, and ends with
  exactly these samples, in this order and byte for byte, after those it held before.
\<close>

theorem payload_telemetry_roundtrip:
  assumes "order_ok ord" "net_up net" "knows repo ''tm_parse_payload''"
    and "ram_pay.sampling alloc tr s" "a < b" "b \<le> length (ram_pay.held alloc tr s 0)"
    and "ram_pay.sampling alloc' tr' t" "length (ram_pay.held alloc' tr' t 0) + (b - a) \<le> 218450"
  shows "\<exists>frames t'. tm_send_tel_from_to ord net (ram_cfg alloc tr) (int a) (int b) 0 s = Some (CMD_OK, frames) \<and>
     rx_payloads ord repo (ram_cfg alloc' tr') frames t = Some t' \<and>
     ram_pay.held alloc' tr' t' 0 = ram_pay.held alloc' tr' t 0 @ drop a (take b (ram_pay.held alloc tr s 0))"
proof -
  let ?cfg = "ram_cfg alloc tr" and ?h = "ram_pay.held alloc tr s 0"
  have ord: "byte_order ord" using assms(1) by (simp add: order_ok_byte_order)
  obtain n where n: "ram_inv data_map (n_copies tr) s" "ram_repo.sys alloc tr s dat_drp_idx_temp = int n"
      "n \<le> ram_cap data_map 0" "?h = map (ram_samples data_map s 0) [0..<n]"
    using ram_pay.sampling_index [OF assms(4) temp_data(1)] temp_data(3) by metis
  have len: "length ?h = n" by (simp add: n(4))
  have small: "n < 2147483648" using n(3) ram_cap_small [of 0] by linarith
  define xs where "xs = drop a (take b ?h)"
  define d where "d = length xs"
  have d: "d = b - a" "0 < d" "d < 2147483648" using assms(5,6) len small by (simp_all add: d_def xs_def)
  define k where "k = (if d mod 16 = 0 then d div 16 else d div 16 + 1)"
  have split: "d = 16 * (d div 16) + d mod 16" "d mod 16 < 16" by simp_all
  have k: "0 < k" "(k - 1) * 16 \<le> d" "d \<le> k * 16" "int (d div 16) + (if d mod 16 = 0 then 0 else 1) = int k"
    using split d(2) by (auto simp: k_def)
  have sizes: "\<forall>x \<in> set ?h. length x = 12" using ram_sample_length [OF assms(4) temp_data(1)] temp_data(2) by simp
  have "k = 0 \<or> (0 + k - 1) * 16 \<le> b - a" "(16 :: nat) * 12 \<le> COM_FRAME_MAX_LEN" "a \<le> b"
    using k(2) d(1) assms(5) by (simp_all add: config_defs)
  from ram_pay.tel_loop_sends [OF assms(2,4) temp_data(1) this(3) assms(6) len small sizes this(2,1), of ord 0]
  have loop: "tel_loop ord net ?cfg 0 (int b - int a) (int n) (int b) 16 k 0 0 s =
      Some (1, map (\<lambda>j. sample_frame ord 0 (batch 16 xs j) j) [0..<k])"
    using k(1) by (simp add: xs_def)
  have ints: "int b - int a = int d" "in_int (int d)" "in_int 192" using d assms(5) by (auto simp: in_int_def)
  have divs: "cdiv 192 12 = Some 16" "cdiv (int d) 16 = Some (int (d div 16))" "cmod (int d) 16 = Some (int (d mod 16))"
    using cdiv_pos [of 192 12] cdiv_nat [of 16 d] cmod_nat [of 16 d] ints by simp_all
  have "arr_get data_map 0 = Some (data_map ! 0)" using arr_get_ok [OF temp_data(1)] by simp
  moreover have "dat_get_system_var ?cfg dat_drp_idx_temp s = Some (int n)"
    using ram_repo.get_sys [OF n(1), of dat_drp_idx_temp alloc] n(2) by (simp add: addr_defs)
  moreover have "nat (if int (d mod 16) \<noteq> 0 then int (d div 16) + 1 else int (d div 16)) = k"
    by (simp add: k_def nat_add_distrib)
  moreover have "nt_conn net" "nt_close net" using assms(2) by (simp_all add: net_up_def)
  ultimately have send: "tm_send_tel_from_to ord net ?cfg (int a) (int b) 0 s =
      Some (CMD_OK, map (\<lambda>j. sample_frame ord 0 (batch 16 xs j) j) [0..<k])"
    using loop ints divs by (simp add: tm_send_tel_from_to_def temp_data config_defs rc_of_def Let_def)
  have all: "concat (map (batch 16 xs) [0..<k]) = xs"
    using concat_batches [of xs 0 k 16] k(3) by (simp add: d_def)
  have "set xs \<subseteq> set ?h" unfolding xs_def by (meson set_take_subset set_drop_subset subset_trans)
  then have "\<forall>j \<in> set [0..<k]. length (batch 16 xs j) \<le> 16 \<and> (\<forall>x \<in> set (batch 16 xs j). length x = 12)"
    using sizes unfolding batch_def by (auto dest!: in_set_takeD in_set_dropD)
  from rx_sample_frames [OF ord assms(3) this assms(7)] assms(8) all d show ?thesis
    using send by (auto simp: d_def xs_def)
qed


theorem payload_telemetry_roundtrip_witness:
  "\<exists>repo s0 s frames t'. cmd_repo_init True True True cmd_repo_zero = Some (CMD_OK, repo) \<and>
     dat_repo_init True (ram_cfg alloc_all True) ram_zero = Some s0 \<and>
     add_samples (ram_cfg alloc_all True) (int 0) (replicate 40 (replicate 12 7)) s0 = Some s \<and>
     tm_send_tel_from_to csp_le net_ideal (ram_cfg alloc_all True) (int 3) (int 36) 0 s = Some (CMD_OK, frames) \<and>
     rx_payloads csp_le repo (ram_cfg alloc_all True) frames s0 = Some t' \<and>
     ram_pay.held alloc_all True t' 0 = replicate 33 (replicate 12 7)"
proof -
  have "''tm_parse_payload'' \<in> set (map fst (core_cmds True True True))"
    by (simp add: core_cmds_def cmd_tm_init_def)
  then obtain r where r: "cmd_repo_init True True True cmd_repo_zero = Some (CMD_OK, r)" "knows r ''tm_parse_payload''"
    by (rule knows_core)
  obtain s0 where s0: "dat_repo_init True (ram_cfg alloc_all True) ram_zero = Some s0"
      "ram_inv data_map (n_copies True) s0" "dat_get_system_var (ram_cfg alloc_all True) dat_drp_idx_temp s0 = Some 0"
    by (rule ram_init_inv [of True])
  note empty = ram_pay.empty_sampling [OF s0(2,3)]
  have cap: "ram_cap data_map 0 = 218450" by (simp add: ram_cap_def temp_data)
  from ram_pay.samples_added [OF empty(1) temp_data(1), of "replicate 40 (replicate 12 7)"] obtain s where
      s: "add_samples (ram_cfg alloc_all True) (int 0) (replicate 40 (replicate 12 7)) s0 = Some s"
        "ram_pay.sampling alloc_all True s" "ram_pay.held alloc_all True s 0 = replicate 40 (replicate 12 7)"
    by (auto simp: empty(2) cap temp_data)
  from payload_telemetry_roundtrip [OF csp_le_ok net_ideal_up r(2) s(2) _ _ empty(1), of 3 36]
  show ?thesis using r(1) s0(1) s(1,3) empty(2) by auto
qed

section \<open>The acknowledged index\<close>

lemma scan_two_uints:
  assumes "a < 2 ^ 32" "b < 2 ^ 32"
  shows "parse_params buf ''%u %u'' (Some (show_nat a @ '' '' @ show_nat b @ [NUL])) 2 =
     Some (Some [AUint (of_nat a), AUint (of_nat b)])"
proof -
  have fmt: "parse_fmt ''%u %u'' = [DUint, DSpace, DUint]" by (simp add: conversion_def is_space_def)
  have show_n: "show_nat n = show_int (int n)" for n by (simp add: show_int_def)
  have w: "word_of_int (int n) = (of_nat n :: 32 word)" for n by simp
  have "sscanf_f (\<lambda>_. None) (show_int (int a) @ '' '' @ show_int (int b)) ''%u %u'' =
      Some (2, [AUint (of_nat a), AUint (of_nat b)])"
    unfolding sscanf_f_def fmt
    using assms scan_int_show [of "[]" "int b"] skip_ws_show_int [of "int b" "[]"]
    by (simp add: scan_text skip_ws_show_int require_def)
  moreover have "NUL \<notin> set (show_int (int a) @ '' '' @ show_int (int b))" by simp
  ultimately show ?thesis
    using cstr_of_terminated [of "show_int (int a) @ '' '' @ show_int (int b)" "[]"]
    by (simp add: parse_params_def parse_params_f_def show_n)
qed

lemma of_i_less_nat:
  assumes "0 \<le> x" "in_int x" "k < 2 ^ 32"
  shows "of_nat k < of_i x \<longleftrightarrow> int k < x" "of_i x < of_nat k \<longleftrightarrow> x < int k"
proof -
  have "uint (of_i x) = x" using assms(1,2) by (simp add: of_i_def uint_word_of_int in_int_def)
  moreover have "uint (of_nat k :: 32 word) = int k" using assms(3) by (simp add: uint_nat unsigned_of_nat take_bit_nat_eq_self)
  ultimately show "of_nat k < of_i x \<longleftrightarrow> int k < x" "of_i x < of_nat k \<longleftrightarrow> x < int k"
    by (simp_all add: word_less_alt)
qed

text \<open>
  C31: The acknowledged index moves only forward and never past what was sampled. While \<open>0 \<le> ack \<le> index\<close>,
  \<open>tm_set_ack\<close> with \<open>k\<close> samples is an error that changes nothing if \<open>k\<close> is zero or less than what was already
  acknowledged; otherwise the acknowledged index becomes the smaller of \<open>k\<close> and the index, so the
  relation holds again, and every other status variable keeps its value.
\<close>

theorem tm_set_ack_forward:
  assumes "ram_inv data_map (n_copies tr) s" "k < 2 ^ 32"
    and "dat_get_system_var (ram_cfg alloc tr) dat_drp_ack_temp s = Some ack"
    and "dat_get_system_var (ram_cfg alloc tr) dat_drp_idx_temp s = Some index"
    and "0 \<le> ack" "ack \<le> index"
  shows "\<exists>rc s'. tm_set_ack (ram_cfg alloc tr) ''%u %u'' (Some (show_nat 0 @ '' '' @ show_nat k @ [NUL])) 2 s =
       Some (rc, s') \<and>
     (if k = 0 \<or> int k < ack then rc = CMD_ERROR \<and> s' = s
      else rc = CMD_OK \<and> ram_inv data_map (n_copies tr) s' \<and> ack \<le> min (int k) index \<and>
        (\<forall>j. 0 \<le> j \<and> j < 17 \<longrightarrow> dat_get_system_var (ram_cfg alloc tr) j s' =
           (if j = dat_drp_ack_temp then Some (min (int k) index) else dat_get_system_var (ram_cfg alloc tr) j s)))"
proof -
  let ?cfg = "ram_cfg alloc tr"
  have idx: "ram_repo.sys alloc tr s dat_drp_idx_temp = index" "ram_repo.sys alloc tr s dat_drp_ack_temp = ack"
    using ram_repo.get_sys [OF assms(1), of _ alloc] assms(3,4) by (simp_all add: addr_defs)
  have "in_int index" using assms(4) by (auto simp: dat_get_system_var_def split: bind_splits)
  then have ints: "in_int index" "in_int ack" using assms(5,6) by (auto simp: in_int_def)
  have "0 \<le> index" using assms(5,6) by simp
  note cmp = of_i_less_nat [OF assms(5) ints(2) assms(2)] of_i_less_nat [OF this ints(1) assms(2)]
  have v: "v_i (of_nat k) = int k" if "int k \<le> index"
    using v_i_of_i [of "int k"] that ints(1) by (simp add: of_i_def in_int_def)
  have small: "of_nat k < (1 :: 32 word) \<longleftrightarrow> k = 0"
    using assms(2) by (auto simp: word_less_nat_alt unsigned_of_nat take_bit_nat_eq_self)
  have parse: "parse_params 0 ''%u %u'' (Some (show_nat 0 @ '' '' @ show_nat k @ [NUL])) 2 =
      Some (Some [AUint 0, AUint (of_nat k)])" using scan_two_uints [of 0 k 0] assms(2) by simp
  have dm: "arr_get data_map 0 = Some (data_map ! 0)" using arr_get_ok [OF temp_data(1)] by simp
  have addr: "dat_drp_ack_temp = 16" by (simp add: addr_defs)
  show ?thesis
  proof (cases "k = 0 \<or> int k < ack")
    case True
    then show ?thesis
      using parse dm assms(3-6) cmp small
      by (auto simp: tm_set_ack_def temp_data last_sensor_def)
  next
    case False
    have "in_int (min (int k) index)" using ints(1) \<open>0 \<le> index\<close> by (auto simp: in_int_def min_def)
    then obtain s' where s': "dat_set_system_var ?cfg dat_drp_ack_temp (min (int k) index) s = Some (SCH_ST_OK, s')"
        "ram_inv data_map (n_copies tr) s'"
        "\<And>j. 0 \<le> j \<Longrightarrow> j < 17 \<Longrightarrow> ram_repo.sys alloc tr s' j =
          (if dat_drp_ack_temp = j then min (int k) index else ram_repo.sys alloc tr s j)"
      using ram_repo.set_sys [OF assms(1), of dat_drp_ack_temp "min (int k) index" alloc] by (auto simp: addr)
    have "(if of_i index < of_nat k then index else v_i (of_nat k)) = min (int k) index"
      using cmp(4) v by auto
    then have "tm_set_ack ?cfg ''%u %u'' (Some (show_nat 0 @ '' '' @ show_nat k @ [NUL])) 2 s = Some (CMD_OK, s')"
      using parse dm assms(3-6) cmp small False s'(1)
      by (simp add: tm_set_ack_def temp_data last_sensor_def)
    moreover have "dat_get_system_var ?cfg j s' =
        (if j = dat_drp_ack_temp then Some (min (int k) index) else dat_get_system_var ?cfg j s)" if "0 \<le> j" "j < 17" for j
      using ram_repo.get_sys [OF s'(2) that, of alloc] ram_repo.get_sys [OF assms(1) that, of alloc] s'(3) [OF that]
      by auto
    ultimately show ?thesis using False assms(6) s'(2) by auto
  qed
qed

theorem tm_set_ack_forward_witness:
  "\<exists>s rc s'. dat_repo_init True (ram_cfg alloc_all True) ram_zero = Some s \<and>
     tm_set_ack (ram_cfg alloc_all True) ''%u %u'' (Some (show_nat 0 @ '' '' @ show_nat 5 @ [NUL])) 2 s = Some (rc, s') \<and>
     rc = CMD_OK \<and> dat_get_system_var (ram_cfg alloc_all True) dat_drp_ack_temp s' = Some 0"
proof -
  obtain s where s: "dat_repo_init True (ram_cfg alloc_all True) ram_zero = Some s"
      "ram_inv data_map (n_copies True) s" "\<And>j. j < 17 \<Longrightarrow> vote True (ram_vars s) j = sv_value (dat_get_status_var_def (int j))"
    using ram_repo_init [of alloc_all True] by (auto simp: alloc_all_def)
  have get: "dat_get_system_var (ram_cfg alloc_all True) dat_drp_ack_temp s = Some 0"
      "dat_get_system_var (ram_cfg alloc_all True) dat_drp_idx_temp s = Some 0"
    using ram_repo.get_var [OF s(2), of 16 alloc_all] ram_repo.get_var [OF s(2), of 15 alloc_all] s(3) [of 16] s(3) [of 15]
    by (simp_all add: dat_get_system_var_def addr_defs)
      (simp_all add: dat_get_status_var_def_def dat_status_list_def sys_var_def addr_defs Let_def in_int_def)
  from tm_set_ack_forward [OF s(2) _ get, of 5] obtain rc s' where
      "tm_set_ack (ram_cfg alloc_all True) ''%u %u'' (Some (show_nat 0 @ '' '' @ show_nat 5 @ [NUL])) 2 s = Some (rc, s')"
      "rc = CMD_OK" "\<forall>j. 0 \<le> j \<and> j < 17 \<longrightarrow> dat_get_system_var (ram_cfg alloc_all True) j s' =
           (if j = dat_drp_ack_temp then Some (min (int 5) 0) else dat_get_system_var (ram_cfg alloc_all True) j s)"
    by auto
  then show ?thesis using s(1) by (auto simp: addr_defs)
qed

end
