(* ===== verification/Storage_Flash.thy ===== *)
theory Storage_Flash
  imports Com_Frames Storage_Ram
begin

text \<open>
  src/lib/storage/storage_flash.c on a host (the build without \<^verbatim>\<open>NANOMIND\<close>): the flash and the FRAM are arrays.
  Status variables are words of the FRAM; the flight plan is 512-byte containers in one section of the
  flash, found through a table of times and addresses (the TLB) that is kept in memory and backed up
  in the FRAM; payload samples lie in the pages of the sections after it.
\<close>

section \<open>State\<close>

definition ST_PAGE_SIZE :: int where [config_defs]: "ST_PAGE_SIZE = 512"
definition ST_FRAM_SIZE :: int where [config_defs]: "ST_FRAM_SIZE = 32768"
definition FP_CONTAINER_SIZE :: int where [config_defs]: "FP_CONTAINER_SIZE = 512"
definition ST_CMD_MAX :: nat where [config_defs]: "ST_CMD_MAX = 248"
definition SCH_FLASH_INIT_MEMORY :: int where [config_defs]: "SCH_FLASH_INIT_MEMORY = 0"

definition st_flightplan_sections :: int where
  "st_flightplan_sections = SCH_FP_MAX_ENTRIES * FP_CONTAINER_SIZE div SCH_SIZE_PER_SECTION + 1"

definition commands_per_section :: int where
  "commands_per_section = SCH_SIZE_PER_SECTION div FP_CONTAINER_SIZE"

record fp_addr =
  fa_addr :: value32
  fa_unixtime :: int

record flash =
  fl_flash :: mem
  fl_fram :: mem
  fl_open :: bool
  fl_fp_addr :: "int list cptr"
  fl_fp_base :: int
  fl_fp_entries :: int
  fl_tlb_base :: int
  fl_tlb :: "fp_addr list"
  fl_pay_addr :: "int list cptr"
  fl_pay_sections :: int
  fl_pay_entries :: int
  fl_pay_base :: int

definition flash_zero :: flash where
  "flash_zero =
     \<lparr>fl_flash = \<lparr>mem_size = 67108864, mem_at = (\<lambda>_. 0)\<rparr>, fl_fram = \<lparr>mem_size = 32768, mem_at = (\<lambda>_. 0)\<rparr>,
      fl_open = False, fl_fp_addr = CNull, fl_fp_base = 0, fl_fp_entries = 0, fl_tlb_base = 0,
      fl_tlb = replicate 256 \<lparr>fa_addr = 0, fa_unixtime = 0\<rparr>, fl_pay_addr = CNull,
      fl_pay_sections = 0, fl_pay_entries = 0, fl_pay_base = 0\<rparr>"

definition live :: "'a cptr \<Rightarrow> 'a option" where
  "live p = (case p of CLive a \<Rightarrow> Some a | _ \<Rightarrow> None)"

section \<open>The memories\<close>

text \<open>Lengths are of 16 bits.\<close>

definition storage_read_flash :: "int \<Rightarrow> int \<Rightarrow> flash \<Rightarrow> byte list option" where
  "storage_read_flash addr len s = mem_read (fl_flash s) addr (nat (len mod 65536))"

definition storage_write_flash :: "int \<Rightarrow> byte list \<Rightarrow> int \<Rightarrow> flash \<Rightarrow> flash option" where
  "storage_write_flash addr data len s =
     do { src \<leftarrow> blk_read data 0 (nat (len mod 65536));
          m \<leftarrow> mem_write (fl_flash s) addr src;
          Some (s\<lparr>fl_flash := m\<rparr>) }"

definition storage_erase_flash :: "int \<Rightarrow> flash \<Rightarrow> flash option" where
  "storage_erase_flash addr s =
     do { m \<leftarrow> mem_fill (fl_flash s) (addr div SCH_SIZE_PER_SECTION * SCH_SIZE_PER_SECTION)
                (nat SCH_SIZE_PER_SECTION) 0;
          Some (s\<lparr>fl_flash := m\<rparr>) }"

definition storage_write_fram :: "int \<Rightarrow> byte list \<Rightarrow> flash \<Rightarrow> flash option" where
  "storage_write_fram addr data s =
     do { m \<leftarrow> mem_write (fl_fram s) addr data; Some (s\<lparr>fl_fram := m\<rparr>) }"

definition storage_read_fram :: "int \<Rightarrow> nat \<Rightarrow> flash \<Rightarrow> byte list option" where
  "storage_read_fram addr len s = mem_read (fl_fram s) addr len"

section \<open>Opening and closing\<close>

definition flash_storage_init :: "flash \<Rightarrow> (int \<times> flash) option" where
  "flash_storage_init s =
     do { let tlb = SCH_FLASH_INIT_MEMORY;
          fp \<leftarrow> cint (tlb + SCH_SIZE_PER_SECTION);
          pay \<leftarrow> cint (fp + SCH_SIZE_PER_SECTION * st_flightplan_sections);
          Some (SCH_ST_OK, s\<lparr>fl_tlb_base := tlb, fl_fp_base := fp, fl_pay_base := pay, fl_open := True\<rparr>) }"

definition flash_storage_close :: "flash \<Rightarrow> (int \<times> flash) option" where
  "flash_storage_close s =
     do { require (fl_fp_addr s \<noteq> CFreed);
          require (fl_pay_addr s \<noteq> CFreed);
          Some (SCH_ST_OK, s\<lparr>fl_open := False, fl_fp_addr := CNull, fl_tlb_base := 0, fl_fp_base := 0,
                             fl_fp_entries := 0, fl_pay_addr := CNull, fl_pay_sections := 0,
                             fl_pay_entries := 0, fl_pay_base := 0\<rparr>) }"

definition flash_storage_table_status_init :: "int \<Rightarrow> bool \<Rightarrow> flash \<Rightarrow> (int \<times> flash) option" where
  "flash_storage_table_status_init n_variables drp s =
     Some (if \<not> fl_open s then SCH_ST_ERROR else SCH_ST_OK, s)"

text \<open>The addresses of \<open>n\<close> sections from \<open>base\<close>.\<close>

definition section_addrs :: "int \<Rightarrow> int \<Rightarrow> int list option" where
  "section_addrs base n =
     do { require (\<forall>i \<in> set [0..<nat n]. in_int (int i * SCH_SIZE_PER_SECTION) \<and>
                     in_int (base + int i * SCH_SIZE_PER_SECTION));
          Some (map (\<lambda>i. (base + int i * SCH_SIZE_PER_SECTION) mod 2 ^ 32) [0..<nat n]) }"

section \<open>The table of times and addresses\<close>

definition fp_addr_bytes :: "fp_addr \<Rightarrow> byte list" where
  "fp_addr_bytes e = le32 (fa_addr e) @ le32 (of_i (fa_unixtime e))"

fun fp_addrs_of :: "nat \<Rightarrow> byte list \<Rightarrow> fp_addr list" where
  "fp_addrs_of 0 bs = []"
| "fp_addrs_of (Suc k) bs =
     \<lparr>fa_addr = of_word_bytes bs, fa_unixtime = v_i (of_word_bytes (drop 4 bs))\<rparr> # fp_addrs_of k (drop 8 bs)"

definition tlb_start :: int where
  "tlb_start = ST_FRAM_SIZE - (SCH_FP_MAX_ENTRIES + 1) * 8"

definition storage_flightplan_load_tlb :: "flash \<Rightarrow> (int \<times> flash) option" where
  "storage_flightplan_load_tlb s =
     do { bs \<leftarrow> storage_read_fram tlb_start (nat ((SCH_FP_MAX_ENTRIES + 1) * 8)) s;
          Some (SCH_ST_OK, s\<lparr>fl_tlb := fp_addrs_of (nat (SCH_FP_MAX_ENTRIES + 1)) bs\<rparr>) }"

definition storage_flightplan_dump_tlb :: "int \<Rightarrow> flash \<Rightarrow> (int \<times> flash) option" where
  "storage_flightplan_dump_tlb index s =
     (if index < 0 then
        do { s1 \<leftarrow> storage_write_fram tlb_start (concat (map fp_addr_bytes (fl_tlb s))) s; Some (SCH_ST_OK, s1) }
      else
        do { e \<leftarrow> arr_get (fl_tlb s) index;
             s1 \<leftarrow> storage_write_fram (tlb_start + index * 8) (fp_addr_bytes e) s;
             Some (SCH_ST_OK, s1) })"

text \<open>The last place of the table counts the containers that were written.\<close>

definition storage_flightplan_update_tlb :: "int \<Rightarrow> int \<Rightarrow> int \<Rightarrow> flash \<Rightarrow> (int \<times> flash) option" where
  "storage_flightplan_update_tlb index t addr s =
     do { tlb1 \<leftarrow> arr_set (fl_tlb s) index \<lparr>fa_addr = word_of_int addr, fa_unixtime = t\<rparr>;
          c \<leftarrow> arr_get tlb1 SCH_FP_MAX_ENTRIES;
          tlb2 \<leftarrow> arr_set tlb1 SCH_FP_MAX_ENTRIES (c\<lparr>fa_addr := 1 + fa_addr c\<rparr>);
          (rc, s1) \<leftarrow> storage_flightplan_dump_tlb index (s\<lparr>fl_tlb := tlb2\<rparr>);
          if rc = SCH_ST_OK then storage_flightplan_dump_tlb SCH_FP_MAX_ENTRIES s1 else Some (rc, s1) }"

definition storage_flightplan_find_index_tlb :: "int \<Rightarrow> flash \<Rightarrow> int" where
  "storage_flightplan_find_index_tlb t s =
     (case find_idx (\<lambda>e. fa_unixtime e = t) (take (nat SCH_FP_MAX_ENTRIES) (fl_tlb s)) of
        Some i \<Rightarrow> int i
      | None \<Rightarrow> - 1)"

text \<open>The place of a container in the flash.\<close>

definition container_addr :: "int \<Rightarrow> flash \<Rightarrow> int option" where
  "container_addr index_flash s =
     do { section_index \<leftarrow> cdiv index_flash commands_per_section;
          index_in_section \<leftarrow> cmod index_flash commands_per_section;
          a \<leftarrow> live (fl_fp_addr s);
          base \<leftarrow> arr_get a section_index;
          Some ((base + index_in_section * FP_CONTAINER_SIZE) mod 2 ^ 32) }"

text \<open>
  Writing the valid containers again. \<open>block\<close> is the copy of the section in memory.
\<close>

fun rebuild_loop :: "byte list \<Rightarrow> nat \<Rightarrow> nat \<Rightarrow> int \<Rightarrow> flash \<Rightarrow> (int \<times> flash) option" where
  "rebuild_loop block i 0 rc s = Some (rc, s)"
| "rebuild_loop block i (Suc k) rc s =
     do { e \<leftarrow> arr_get (fl_tlb s) (int i);
          if fa_unixtime e = ST_FP_NULL then rebuild_loop block (Suc i) k rc s
          else
            do { a \<leftarrow> live (fl_fp_addr s);
                 a0 \<leftarrow> arr_get a 0;
                 let old_index = ((uint (fa_addr e) - a0) mod 2 ^ 32) div FP_CONTAINER_SIZE;
                 c \<leftarrow> arr_get (fl_tlb s) SCH_FP_MAX_ENTRIES;
                 new_addr \<leftarrow> container_addr (v_i (fa_addr c)) s;
                 (r1, s1) \<leftarrow> storage_flightplan_update_tlb (int i) (fa_unixtime e) new_addr s;
                 entry \<leftarrow> blk_read block (nat (old_index * FP_CONTAINER_SIZE)) (nat FP_CONTAINER_SIZE);
                 s2 \<leftarrow> storage_write_flash new_addr entry FP_CONTAINER_SIZE s1;
                 rebuild_loop block (Suc i) k (rc + r1) s2 } }"

text \<open>
  \<open>junk\<close> is the content of the block that \<^verbatim>\<open>malloc\<close> gives, \<open>None\<close> when it gives none. The length of the read,
  262144, does not fit its 16 bits.
\<close>

definition flight_plan_rebuild_tlb :: "byte list option \<Rightarrow> flash \<Rightarrow> (int \<times> flash) option" where
  "flight_plan_rebuild_tlb junk s =
     (case junk of
        None \<Rightarrow> Some (SCH_ST_ERROR, s)
      | Some block \<Rightarrow>
          do { a \<leftarrow> live (fl_fp_addr s);
               a0 \<leftarrow> arr_get a 0;
               bs \<leftarrow> storage_read_flash a0 (commands_per_section * FP_CONTAINER_SIZE) s;
               fp_entries \<leftarrow> blk_write block 0 bs;
               s1 \<leftarrow> storage_erase_flash a0 s;
               tlb \<leftarrow> arr_set (fl_tlb s1) SCH_FP_MAX_ENTRIES \<lparr>fa_addr = 0, fa_unixtime = 0\<rparr>;
               (rc, s2) \<leftarrow> rebuild_loop fp_entries 0 (nat SCH_FP_MAX_ENTRIES) 0 (s1\<lparr>fl_tlb := tlb\<rparr>);
               (r, s3) \<leftarrow> storage_flightplan_dump_tlb (- 1) s2;
               Some (rc + r, s3) })"

definition flight_plan_erase_index_tlb :: "int \<Rightarrow> flash \<Rightarrow> (int \<times> flash) option" where
  "flight_plan_erase_index_tlb index s =
     (if index < 0 \<or> index \<ge> fl_fp_entries s then Some (- 1, s)
      else
        do { tlb \<leftarrow> arr_set (fl_tlb s) index \<lparr>fa_addr = of_i ST_FP_NULL, fa_unixtime = ST_FP_NULL\<rparr>;
             storage_flightplan_dump_tlb index (s\<lparr>fl_tlb := tlb\<rparr>) })"


section \<open>Flight plan\<close>

definition container_bytes :: "fp_entry \<Rightarrow> string \<Rightarrow> string \<Rightarrow> byte list" where
  "container_bytes e c a =
     le32 (of_i (unixtime e)) @ le32 (of_i (executions e)) @ le32 (of_i (periodical e)) @ le32 (of_i (node e)) @
     bytes_of (strncpy_bytes c ST_CMD_MAX) @ bytes_of (strncpy_bytes a ST_CMD_MAX)"

text \<open>\<open>alloc\<close> is \<^verbatim>\<open>malloc\<close>, whose result is not checked here.\<close>

definition flash_storage_flight_plan_set_st ::
    "(nat \<Rightarrow> bool) \<Rightarrow> byte list option \<Rightarrow> fp_entry option \<Rightarrow> flash \<Rightarrow> (int \<times> flash) option" where
  "flash_storage_flight_plan_set_st alloc junk row s =
     (case row of
        None \<Rightarrow> Some (SCH_ST_ERROR, s)
      | Some e \<Rightarrow>
          if \<not> fl_open s then Some (SCH_ST_ERROR, s)
          else
            do { c \<leftarrow> arr_get (fl_tlb s) SCH_FP_MAX_ENTRIES;
                 (_, s1) \<leftarrow> (if uint (fa_addr c) > commands_per_section then flight_plan_rebuild_tlb junk s
                              else Some (SCH_ST_OK, s));
                 let index_tlb = storage_flightplan_find_index_tlb ST_FP_NULL s1;
                 if index_tlb = - 1 \<or> index_tlb \<ge> fl_fp_entries s1 then Some (SCH_ST_ERROR, s1)
                 else
                   do { c1 \<leftarrow> arr_get (fl_tlb s1) SCH_FP_MAX_ENTRIES;
                        addr \<leftarrow> container_addr (v_i (fa_addr c1)) s1;
                        require (alloc 512);
                        cmd \<leftarrow> fp_cmd e;
                        args \<leftarrow> fp_args e;
                        (rc, s2) \<leftarrow> storage_flightplan_update_tlb index_tlb (unixtime e) addr s1;
                        if rc = SCH_ST_OK then
                          do { s3 \<leftarrow> storage_write_flash addr (container_bytes e cmd args) FP_CONTAINER_SIZE s2;
                               Some (SCH_ST_OK, s3) }
                        else Some (rc, s2) } })"

definition flash_storage_flight_plan_set ::
    "(nat \<Rightarrow> bool) \<Rightarrow> byte list option \<Rightarrow> int \<Rightarrow> string option \<Rightarrow> string option \<Rightarrow> int \<Rightarrow> int \<Rightarrow> int \<Rightarrow> flash \<Rightarrow>
     (int \<times> flash) option" where
  "flash_storage_flight_plan_set alloc junk timetodo command args execs period nod s =
     (if timetodo < 0 \<or> command = None \<or> args = None \<or> \<not> fl_open s then Some (SCH_ST_ERROR, s)
      else flash_storage_flight_plan_set_st alloc junk
             (Some \<lparr>unixtime = timetodo, executions = execs, periodical = period, node = nod,
                    fp_cmd = command, fp_args = args\<rparr>) s)"

text \<open>The strings end at their first NUL, wherever in the block it is.\<close>

definition flash_storage_flight_plan_get_idx ::
    "(nat \<Rightarrow> bool) \<Rightarrow> int \<Rightarrow> flash \<Rightarrow> (int \<times> fp_entry option) option" where
  "flash_storage_flight_plan_get_idx alloc index s =
     (if index \<ge> fl_fp_entries s then Some (SCH_ST_ERROR, None)
      else
        do { e \<leftarrow> arr_get (fl_tlb s) index;
             if fa_unixtime e = ST_FP_NULL then Some (SCH_ST_ERROR, None)
             else
               do { require (alloc 512);
                    bs \<leftarrow> storage_read_flash (uint (fa_addr e)) FP_CONTAINER_SIZE s;
                    cmd \<leftarrow> cstr_of (chars_of (drop 16 bs));
                    args \<leftarrow> cstr_of (chars_of (drop 264 bs));
                    Some (SCH_ST_OK, Some \<lparr>unixtime = v_i (of_word_bytes bs),
                      executions = v_i (of_word_bytes (drop 4 bs)), periodical = v_i (of_word_bytes (drop 8 bs)),
                      node = v_i (of_word_bytes (drop 12 bs)), fp_cmd = Some cmd, fp_args = Some args\<rparr>) } })"

definition flash_storage_flight_plan_get_st ::
    "(nat \<Rightarrow> bool) \<Rightarrow> int \<Rightarrow> flash \<Rightarrow> (int \<times> fp_entry option) option" where
  "flash_storage_flight_plan_get_st alloc timetodo s =
     (let index = storage_flightplan_find_index_tlb timetodo s
      in if index < 0 then Some (SCH_ST_ERROR, None)
         else flash_storage_flight_plan_get_idx alloc index s)"

text \<open>The strings are copied into buffers of 248 bytes, which a longer one leaves without terminator.\<close>

definition flash_storage_flight_plan_get_args ::
    "(nat \<Rightarrow> bool) \<Rightarrow> int \<Rightarrow> flash \<Rightarrow> (int \<times> (string \<times> string \<times> int \<times> int \<times> int) option) option" where
  "flash_storage_flight_plan_get_args alloc timetodo s =
     do { (rc, row) \<leftarrow> flash_storage_flight_plan_get_st alloc timetodo s;
          if rc \<noteq> SCH_ST_OK then Some (SCH_ST_ERROR, None)
          else do { e \<leftarrow> row;
                    command \<leftarrow> fp_cmd e;
                    args \<leftarrow> fp_args e;
                    require (length command < ST_CMD_MAX \<and> length args < ST_CMD_MAX);
                    Some (SCH_ST_OK, Some (command, args, executions e, periodical e, node e)) } }"

definition flash_storage_flight_plan_delete_row_idx :: "int \<Rightarrow> flash \<Rightarrow> (int \<times> flash) option" where
  "flash_storage_flight_plan_delete_row_idx index s =
     (if index \<ge> fl_fp_entries s then Some (SCH_ST_ERROR, s) else flight_plan_erase_index_tlb index s)"

definition flash_storage_flight_plan_delete_row :: "int \<Rightarrow> flash \<Rightarrow> (int \<times> flash) option" where
  "flash_storage_flight_plan_delete_row timetodo s =
     (let index = storage_flightplan_find_index_tlb timetodo s
      in if index < 0 then Some (SCH_ST_ERROR, s)
         else flash_storage_flight_plan_delete_row_idx index s)"

fun erase_sections :: "int list \<Rightarrow> flash \<Rightarrow> flash option" where
  "erase_sections [] s = Some s"
| "erase_sections (a # as) s = do { s1 \<leftarrow> storage_erase_flash a s; erase_sections as s1 }"

text \<open>The guard looks at the array of the payloads, not at that of the flight plan.\<close>

definition flash_storage_flight_plan_reset :: "flash \<Rightarrow> (int \<times> flash) option" where
  "flash_storage_flight_plan_reset s =
     (if \<not> fl_open s \<or> fl_pay_addr s = CNull then Some (SCH_ST_ERROR, s)
      else
        do { a \<leftarrow> live (fl_fp_addr s);
             require (st_flightplan_sections \<le> int (length a));
             s1 \<leftarrow> erase_sections (take (nat st_flightplan_sections) a) s;
             let tlb = replicate (nat SCH_FP_MAX_ENTRIES) \<lparr>fa_addr = of_i ST_FP_NULL, fa_unixtime = ST_FP_NULL\<rparr> @
                       [\<lparr>fa_addr = 0, fa_unixtime = 0\<rparr>];
             (rc, s2) \<leftarrow> storage_flightplan_dump_tlb (- 1) (s1\<lparr>fl_tlb := tlb\<rparr>);
             Some (if rc = SCH_ST_OK then SCH_ST_OK else SCH_ST_ERROR, s2) })"

text \<open>With \<open>drp\<close> the array is freed before the reset that uses it.\<close>

definition flash_storage_table_flight_plan_init ::
    "(nat \<Rightarrow> bool) \<Rightarrow> int \<Rightarrow> bool \<Rightarrow> flash \<Rightarrow> (int \<times> flash) option" where
  "flash_storage_table_flight_plan_init alloc n_entries drp s =
     (if \<not> fl_open s then Some (SCH_ST_ERROR, s)
      else if fl_fp_addr s \<noteq> CNull \<and> \<not> drp then Some (SCH_ST_ERROR, s)
      else
        do { s1 \<leftarrow> (if fl_fp_addr s \<noteq> CNull then
                      do { require (fl_fp_addr s \<noteq> CFreed);
                           (_, s') \<leftarrow> flash_storage_flight_plan_reset (s\<lparr>fl_fp_addr := CFreed\<rparr>);
                           Some s' }
                    else Some s);
             require (alloc (nat (st_flightplan_sections * 4)));
             a \<leftarrow> section_addrs (fl_fp_base s1) st_flightplan_sections;
             storage_flightplan_load_tlb
               (s1\<lparr>fl_fp_entries := n_entries, fl_fp_addr := CLive a,
                   fl_tlb := replicate (nat (SCH_FP_MAX_ENTRIES + 1)) \<lparr>fa_addr = of_i (- 1), fa_unixtime = - 1\<rparr>\<rparr>) })"

section \<open>Status variables\<close>

text \<open>The address is cut to 16 bits.\<close>

definition flash_storage_status_get_value_idx :: "int \<Rightarrow> flash \<Rightarrow> (int \<times> value32 option) option" where
  "flash_storage_status_get_value_idx index s =
     do { bs \<leftarrow> storage_read_fram ((index * 4) mod 65536) 4 s; Some (SCH_ST_OK, Some (of_word_bytes bs)) }"

definition flash_storage_status_set_value_idx :: "int \<Rightarrow> value32 \<Rightarrow> flash \<Rightarrow> (int \<times> flash) option" where
  "flash_storage_status_set_value_idx index v s =
     do { s1 \<leftarrow> storage_write_fram ((index * 4) mod 65536) (le32 v) s; Some (SCH_ST_OK, s1) }"

section \<open>Payload samples\<close>

definition flash_storage_table_payload_init ::
    "(nat \<Rightarrow> bool) \<Rightarrow> int \<Rightarrow> bool \<Rightarrow> flash \<Rightarrow> (int \<times> flash) option" where
  "flash_storage_table_payload_init alloc n_entries drp s =
     (if \<not> fl_open s then Some (SCH_ST_ERROR, s)
      else if fl_pay_addr s \<noteq> CNull \<and> \<not> drp then Some (SCH_ST_ERROR, s)
      else
        do { require (fl_pay_addr s \<noteq> CFreed);
             sections \<leftarrow> cint (SCH_SECTIONS_PER_PAYLOAD * n_entries);
             require (sections \<le> 0 \<or> alloc (size_t (sections * 4)));
             a \<leftarrow> section_addrs (fl_pay_base s) sections;
             Some (0, s\<lparr>fl_pay_entries := n_entries, fl_pay_sections := sections, fl_pay_addr := CLive a\<rparr>) })"

definition check_address_alignment :: "int \<Rightarrow> int \<Rightarrow> int" where
  "check_address_alignment addr sz =
     (if ((addr + sz) mod 2 ^ 32) div ST_PAGE_SIZE > addr div ST_PAGE_SIZE then SCH_ST_ERROR else SCH_ST_OK)"

definition write_data_with_check :: "int \<Rightarrow> byte list \<Rightarrow> int \<Rightarrow> flash \<Rightarrow> (int \<times> flash) option" where
  "write_data_with_check addr data sz s =
     (if check_address_alignment addr sz = SCH_ST_ERROR then Some (SCH_ST_ERROR, s)
      else do { s1 \<leftarrow> storage_write_flash addr data sz s; Some (SCH_ST_OK, s1) })"

definition read_data_with_check :: "int \<Rightarrow> int \<Rightarrow> flash \<Rightarrow> (int \<times> byte list option) option" where
  "read_data_with_check addr sz s =
     (if check_address_alignment addr sz = SCH_ST_ERROR then Some (SCH_ST_ERROR, None)
      else do { bs \<leftarrow> storage_read_flash addr sz s; Some (SCH_ST_OK, Some bs) })"

text \<open>The number of the page counts from the first section, and is added to the address of the sample's own
  section.\<close>

definition flash_get_sample_address :: "int \<Rightarrow> int \<Rightarrow> nat \<Rightarrow> flash \<Rightarrow> (int \<times> int option) option" where
  "flash_get_sample_address payload index sz s =
     do { require (sz \<noteq> 0);
          let samples_per_page = ST_PAGE_SIZE div int sz;
          if samples_per_page = 0 then Some (SCH_ST_ERROR, None)
          else
            do { sample_page \<leftarrow> cdiv index samples_per_page;
                 index_in_page \<leftarrow> cmod index samples_per_page;
                 let pages_in_section = SCH_SIZE_PER_SECTION div ST_PAGE_SIZE;
                 samples_per_section \<leftarrow> cint (samples_per_page * pages_in_section);
                 sample_section \<leftarrow> cdiv index samples_per_section;
                 first \<leftarrow> cint (payload * SCH_SECTIONS_PER_PAYLOAD);
                 section_index \<leftarrow> cint (first + sample_section);
                 if sample_section > SCH_SECTIONS_PER_PAYLOAD then Some (SCH_ST_ERROR, None)
                 else
                   do { limit \<leftarrow> cint (fl_pay_entries s * SCH_SECTIONS_PER_PAYLOAD);
                        if section_index > limit then Some (SCH_ST_ERROR, None)
                        else
                          do { a \<leftarrow> live (fl_pay_addr s);
                               base \<leftarrow> arr_get a section_index;
                               page_off \<leftarrow> cint (sample_page * ST_PAGE_SIZE);
                               let address = (base + page_off + index_in_page * int sz) mod 2 ^ 32;
                               upper \<leftarrow> cint (fl_pay_entries s * SCH_SECTIONS_PER_PAYLOAD * SCH_SIZE_PER_SECTION);
                               end_addr \<leftarrow> cint (SCH_FLASH_INIT_MEMORY + fl_fp_base s + upper);
                               Some (if address > end_addr mod 2 ^ 32 then SCH_ST_ERROR else SCH_ST_OK, Some address) } } } }"

definition flash_storage_payload_set_data ::
    "int \<Rightarrow> int \<Rightarrow> byte list option \<Rightarrow> data_map \<Rightarrow> flash \<Rightarrow> (int \<times> flash) option" where
  "flash_storage_payload_set_data payload index data schema s =
     (if \<not> fl_open s \<or> fl_pay_addr s = CNull then Some (SCH_ST_ERROR, s)
      else case data of
        None \<Rightarrow> Some (SCH_ST_ERROR, s)
      | Some bytes \<Rightarrow>
          do { (rc, addr) \<leftarrow> flash_get_sample_address payload index (dm_size schema) s;
               if rc \<noteq> SCH_ST_OK then Some (SCH_ST_ERROR, s)
               else do { a \<leftarrow> addr;
                         (r, s1) \<leftarrow> write_data_with_check a bytes (int (dm_size schema)) s;
                         Some (if r \<noteq> SCH_ST_ERROR then SCH_ST_OK else SCH_ST_ERROR, s1) } })"

definition flash_storage_payload_get_data ::
    "int \<Rightarrow> int \<Rightarrow> data_map \<Rightarrow> flash \<Rightarrow> (int \<times> byte list option) option" where
  "flash_storage_payload_get_data payload index schema s =
     (if \<not> fl_open s \<or> fl_pay_addr s = CNull then Some (SCH_ST_ERROR, None)
      else
        do { (rc, addr) \<leftarrow> flash_get_sample_address payload index (dm_size schema) s;
             if rc \<noteq> SCH_ST_OK then Some (SCH_ST_ERROR, None)
             else do { a \<leftarrow> addr;
                       (r, got) \<leftarrow> read_data_with_check a (int (dm_size schema)) s;
                       Some (if r \<noteq> SCH_ST_ERROR then SCH_ST_OK else SCH_ST_ERROR, got) } })"

definition flash_storage_payload_reset_table :: "int \<Rightarrow> flash \<Rightarrow> (int \<times> flash) option" where
  "flash_storage_payload_reset_table payload s =
     (if \<not> fl_open s \<or> fl_pay_addr s = CNull \<or> payload \<ge> fl_pay_entries s then Some (SCH_ST_ERROR, s)
      else
        do { a \<leftarrow> live (fl_pay_addr s);
             first \<leftarrow> cint (payload * SCH_SECTIONS_PER_PAYLOAD);
             require (0 \<le> first \<and> first + SCH_SECTIONS_PER_PAYLOAD \<le> int (length a));
             s1 \<leftarrow> erase_sections (take (nat SCH_SECTIONS_PER_PAYLOAD) (drop (nat first) a)) s;
             Some (SCH_ST_OK, s1) })"

fun reset_tables :: "nat \<Rightarrow> nat \<Rightarrow> flash \<Rightarrow> flash option" where
  "reset_tables i 0 s = Some s"
| "reset_tables i (Suc k) s =
     do { (_, s1) \<leftarrow> flash_storage_payload_reset_table (int i) s; reset_tables (Suc i) k s1 }"

definition flash_storage_payload_reset :: "flash \<Rightarrow> (int \<times> flash) option" where
  "flash_storage_payload_reset s =
     (if \<not> fl_open s \<or> fl_pay_addr s = CNull \<or> fl_pay_entries s = 0 then Some (SCH_ST_ERROR, s)
      else do { s1 \<leftarrow> reset_tables 0 (nat (fl_pay_entries s)) s; Some (SCH_ST_OK, s1) })"

definition flash_ops :: "(nat \<Rightarrow> bool) \<Rightarrow> byte list option \<Rightarrow> flash storage_ops" where
  "flash_ops alloc junk =
     \<lparr>op_init = flash_storage_init, op_close = flash_storage_close,
      op_status_init = flash_storage_table_status_init,
      op_fp_init = flash_storage_table_flight_plan_init alloc,
      op_payload_init = flash_storage_table_payload_init alloc,
      op_status_get = flash_storage_status_get_value_idx,
      op_status_set = flash_storage_status_set_value_idx,
      op_fp_set = flash_storage_flight_plan_set alloc junk,
      op_fp_get_idx = flash_storage_flight_plan_get_idx alloc,
      op_fp_get_args = flash_storage_flight_plan_get_args alloc,
      op_fp_delete_row = flash_storage_flight_plan_delete_row,
      op_fp_delete_row_idx = flash_storage_flight_plan_delete_row_idx,
      op_fp_reset = flash_storage_flight_plan_reset,
      op_payload_set = flash_storage_payload_set_data,
      op_payload_get = flash_storage_payload_get_data,
      op_payload_reset = flash_storage_payload_reset,
      op_payload_reset_table = flash_storage_payload_reset_table\<rparr>"

end
