(* ===== verification/Repo_Spec.thy ===== *)
theory Repo_Spec
  imports Repo_Data
begin

text \<open>
  What a client of the data repository sees of the status variables and of the payload samples: a word per variable and a list of
  samples. Over every storage that keeps the laws of Storage.thy, each call of repoData.c does to its state what the
  specification here does to that view.
\<close>

section \<open>Sequences of calls\<close>

text \<open>A client of the data repository, and what it is told.\<close>

datatype repo_call = Set_Var nat value32 | Get_Var nat | Add_Sample "byte list"
  | Get_Sample nat | Get_Recent nat

datatype repo_answer = Code int | Value value32 | Sample int "byte list option"

fun repo_call_run :: "'s dat_cfg \<Rightarrow> repo_call \<Rightarrow> 's \<Rightarrow> (repo_answer \<times> 's) option" where
  "repo_call_run cfg (Set_Var i v) s = do { (rc, s1) \<leftarrow> dat_set_status_var cfg (int i) v s; Some (Code rc, s1) }"
| "repo_call_run cfg (Get_Var i) s = do { v \<leftarrow> dat_get_status_var cfg (int i) s; Some (Value v, s) }"
| "repo_call_run cfg (Add_Sample b) s = do { (rc, s1) \<leftarrow> dat_add_payload_sample cfg (Some b) 0 s; Some (Code rc, s1) }"
| "repo_call_run cfg (Get_Sample j) s =
     do { (rc, b) \<leftarrow> dat_get_payload_sample cfg 0 (int j) s; Some (Sample rc b, s) }"
| "repo_call_run cfg (Get_Recent j) s =
     do { (rc, b) \<leftarrow> dat_get_recent_payload_sample cfg 0 (int j) s; Some (Sample rc b, s) }"

fun repo_calls_run :: "'s dat_cfg \<Rightarrow> repo_call list \<Rightarrow> 's \<Rightarrow> (repo_answer list \<times> 's) option" where
  "repo_calls_run cfg [] s = Some ([], s)"
| "repo_calls_run cfg (c # cs) s =
     do { (a, s1) \<leftarrow> repo_call_run cfg c s; (as, s2) \<leftarrow> repo_calls_run cfg cs s1; Some (a # as, s2) }"

text \<open>
  The repository as a client sees it: a word per variable and a list of samples, whose length is the value
  of the variable that counts them.
\<close>

fun spec_call :: "repo_call \<Rightarrow> (nat \<Rightarrow> value32) \<times> byte list list \<Rightarrow>
    repo_answer \<times> (nat \<Rightarrow> value32) \<times> byte list list" where
  "spec_call (Set_Var i v) (vs, bs) = (Code SCH_ST_OK, vs(i := v), bs)"
| "spec_call (Get_Var i) (vs, bs) = (Value (vs i), vs, bs)"
| "spec_call (Add_Sample b) (vs, bs) =
     (Code 0, vs(nat dat_drp_idx_temp := of_i (int (length bs) + 1)), bs @ [b])"
| "spec_call (Get_Sample j) (vs, bs) = (Sample SCH_ST_OK (Some (bs ! j)), vs, bs)"
| "spec_call (Get_Recent j) (vs, bs) =
     (if j < length bs then Sample SCH_ST_OK (Some (rev bs ! j)) else Sample (- 1) None, vs, bs)"

fun spec_calls :: "repo_call list \<Rightarrow> (nat \<Rightarrow> value32) \<times> byte list list \<Rightarrow> repo_answer list" where
  "spec_calls [] a = []"
| "spec_calls (c # cs) a = fst (spec_call c a) # spec_calls cs (snd (spec_call c a))"

text \<open>
  The calls that are in order when \<open>n\<close> samples are held: variables of the list, not a write of the counter of
  the samples, samples of 12 bytes, reads by index of samples that are held (the code does not check the
  index), reads of recent samples with any offset.
\<close>

fun call_ok :: "nat \<Rightarrow> repo_call \<Rightarrow> bool" where
  "call_ok n (Set_Var i v) \<longleftrightarrow> i < 17 \<and> int i \<noteq> dat_drp_idx_temp"
| "call_ok n (Get_Var i) \<longleftrightarrow> i < 17"
| "call_ok n (Add_Sample b) \<longleftrightarrow> length b = 12"
| "call_ok n (Get_Sample j) \<longleftrightarrow> j < n"
| "call_ok n (Get_Recent j) \<longleftrightarrow> j < 2147483647"

fun adds :: "repo_call list \<Rightarrow> nat" where
  "adds [] = 0"
| "adds (Add_Sample b # cs) = Suc (adds cs)"
| "adds (_ # cs) = adds cs"

fun calls_ok :: "nat \<Rightarrow> repo_call list \<Rightarrow> bool" where
  "calls_ok n [] \<longleftrightarrow> True"
| "calls_ok n (c # cs) \<longleftrightarrow> call_ok n c \<and> calls_ok (n + adds [c]) cs"

lemma temp_payload: "0 < length data_map" "dm_size (data_map ! 0) = 12" "sys_index (data_map ! 0) = dat_drp_idx_temp"
  by (simp_all add: data_map_def)

lemma data_map_only: "p < length data_map \<longleftrightarrow> p = 0"
  by (simp add: data_map_def)

context payload_repo
begin

text \<open>A state shows the values \<open>vs\<close> and the samples \<open>bs\<close>.\<close>

definition shows_repo :: "'s \<Rightarrow> (nat \<Rightarrow> value32) \<times> byte list list \<Rightarrow> bool" where
  "shows_repo s a \<longleftrightarrow> sampling s \<and> held s 0 = snd a \<and> (\<forall>i < 17. vote (triple_wr cfg) (vars s) i = fst a i)"

lemma shows_set:
  assumes "shows_repo s (vs, bs)" "i < 17" "int i \<noteq> dat_drp_idx_temp"
  shows "\<exists>s'. dat_set_status_var cfg (int i) v s = Some (SCH_ST_OK, s') \<and> shows_repo s' (vs(i := v), bs)"
proof -
  have inv: "inv s" and held: "held s 0 = bs" using assms(1) by (simp_all add: shows_repo_def sampling_def)
  obtain s' where s': "dat_set_status_var cfg (int i) v s = Some (SCH_ST_OK, s')" "inv s'"
      "\<And>j. j < 17 \<Longrightarrow> vote (triple_wr cfg) (vars s') j = (if i = j then v else vote (triple_wr cfg) (vars s) j)"
    using set_var_vote [OF inv assms(2), of v] by metis
  have smp: "samples s' = samples s" by (rule set_var_samples [OF inv assms(2) s'(1)])
  have "sys s' dat_drp_idx_temp = sys s dat_drp_idx_temp"
    using s'(3) [of "nat dat_drp_idx_temp"] assms(3) by (auto simp: sys_def addr_defs)
  then have "sampling s'" "held s' 0 = bs"
    using assms(1) held s'(2) temp_payload(3)
    by (simp_all add: shows_repo_def sampling_def held_def smp data_map_only)
  then show ?thesis using s'(1,3) assms(1) by (auto simp: shows_repo_def)
qed

lemma shows_add:
  assumes "shows_repo s (vs, bs)" "length b = 12" "length bs < cap 0"
  shows "\<exists>s'. dat_add_payload_sample cfg (Some b) 0 s = Some (0, s') \<and>
     shows_repo s' (vs(nat dat_drp_idx_temp := of_i (int (length bs) + 1)), bs @ [b])"
proof -
  have smp: "sampling s" and held: "held s 0 = bs" using assms(1) by (simp_all add: shows_repo_def)
  from add_sample [OF smp temp_payload(1), of b] obtain s' where
      s': "dat_add_payload_sample cfg (Some b) 0 s = Some (0, s')" "sampling s'" "held s' 0 = bs @ [b]"
        "\<And>j. 0 \<le> j \<Longrightarrow> j < 17 \<Longrightarrow> sys s' j = (if dat_drp_idx_temp = j then sys s j + 1 else sys s j)"
    using assms(2,3) held temp_payload by auto
  obtain k where k: "sys s dat_drp_idx_temp = int k" "held s 0 = map (samples s 0) [0..<k]"
    using sampling_index [OF smp temp_payload(1)] temp_payload(3) by metis
  have kl: "k = length bs" using k(2) held by (metis diff_zero length_map length_upt)
  have v: "vote (triple_wr cfg) (vars x) j = of_i (sys x (int j))" for x j by (simp add: sys_def)
  have "vote (triple_wr cfg) (vars s') j = (vs(nat dat_drp_idx_temp := of_i (int (length bs) + 1))) j" if "j < 17" for j
    using s'(4) [of "int j"] k(1) kl that assms(1) v [of s j] v [of s' j]
    by (auto simp: shows_repo_def addr_defs)
  then show ?thesis using s'(1-3) by (auto simp: shows_repo_def)
qed

lemma shows_index:
  assumes "shows_repo s a"
  shows "dat_get_system_var cfg dat_drp_idx_temp s = Some (int (length (snd a)))"
proof -
  have smp: "sampling s" and held: "held s 0 = snd a" using assms by (simp_all add: shows_repo_def)
  obtain k where k: "inv s" "sys s dat_drp_idx_temp = int k" "held s 0 = map (samples s 0) [0..<k]"
    using sampling_index [OF smp temp_payload(1)] temp_payload(3) by metis
  have "length (snd a) = k" using held k(3) by (metis diff_zero length_map length_upt)
  then show ?thesis using get_sys [OF k(1), of dat_drp_idx_temp] k(2) by (simp add: addr_defs)
qed

lemma shows_call:
  assumes "shows_repo s a" "call_ok (length (snd a)) c" "length (snd a) + adds [c] \<le> cap 0"
  shows "\<exists>s'. repo_call_run cfg c s = Some (fst (spec_call c a), s') \<and> shows_repo s' (snd (spec_call c a))"
proof -
  obtain vs bs where a: "a = (vs, bs)" by (cases a)
  note s = assms(1) [unfolded a]
  have smp: "sampling s" "inv s" "held s 0 = bs" using s by (simp_all add: shows_repo_def sampling_def)
  show ?thesis
  proof (cases c)
    case (Set_Var i v)
    then show ?thesis using shows_set [OF s, of i v] assms(2) by (auto simp: a)
  next
    case (Get_Var i)
    then show ?thesis using get_var [OF smp(2), of i] assms(2) s by (simp add: a shows_repo_def)
  next
    case (Add_Sample b)
    then show ?thesis using shows_add [OF s, of b] assms(2,3) by (auto simp: a)
  next
    case (Get_Sample j)
    then show ?thesis
      using indexed_sample [OF smp(1) temp_payload(1), of j] assms(2) smp(3) s by (simp add: a)
  next
    case (Get_Recent j)
    then show ?thesis
      using recent_sample [OF smp(1) temp_payload(1), of j] recent_sample_none [OF smp(1) temp_payload(1), of j]
        assms(2) smp(3) s by (auto simp: a)
  qed
qed

lemma spec_call_samples: "length (snd (snd (spec_call c a))) = length (snd a) + adds [c]"
  by (cases a; cases c) simp_all

lemma shows_calls:
  assumes "shows_repo s a" "calls_ok (length (snd a)) cs" "length (snd a) + adds cs \<le> cap 0"
  shows "\<exists>s' a'. repo_calls_run cfg cs s = Some (spec_calls cs a, s') \<and> shows_repo s' a' \<and>
     length (snd a') = length (snd a) + adds cs"
  using assms
proof (induction cs arbitrary: s a)
  case (Cons c cs)
  have n: "adds (c # cs) = adds [c] + adds cs" by (cases c) simp_all
  from shows_call [OF Cons.prems(1), of c] Cons.prems(2,3) n obtain s1 where
      s1: "repo_call_run cfg c s = Some (fst (spec_call c a), s1)" "shows_repo s1 (snd (spec_call c a))" by auto
  have "calls_ok (length (snd (snd (spec_call c a)))) cs"
      "length (snd (snd (spec_call c a))) + adds cs \<le> cap 0"
    using Cons.prems(2,3) n by (simp_all add: spec_call_samples)
  from Cons.IH [OF s1(2) this] obtain s' a' where
      "repo_calls_run cfg cs s1 = Some (spec_calls cs (snd (spec_call c a)), s')" "shows_repo s' a'"
      "length (snd a') = length (snd (snd (spec_call c a))) + adds cs" by blast
  then show ?case using s1(1) by (intro exI [of _ s'] exI [of _ a']) (simp add: spec_call_samples n)
qed fastforce

end

end
