(* ===== verification/Flash_Laws.thy ===== *)
theory Flash_Laws
  imports Storage_Flash Repo_Spec
begin

text \<open>
  The flash storage as a provider of the data repository: it satisfies the contracts \<open>status_store\<close> and
  \<open>payload_store\<close> of Storage, the latter for half of the samples the sections could hold and for
  sample sizes that do not divide a page. The flight plan keeps its contract for 512 entries set
  since the last reset.
\<close>

section \<open>Invariant\<close>

definition flash_sizes_ok :: "data_map list \<Rightarrow> bool" where
  "flash_sizes_ok dms \<longleftrightarrow> length dms \<le> 25 \<and>
     (\<forall>dm \<in> set dms. 0 < dm_size dm \<and> 512 div dm_size dm \<noteq> 0 \<and> 512 div dm_size dm * dm_size dm < 512)"

definition flash_inv :: "data_map list \<Rightarrow> nat \<Rightarrow> flash \<Rightarrow> bool" where
  "flash_inv dms n s \<longleftrightarrow>
     fl_open s \<and> mem_size (fl_flash s) = 67108864 \<and> mem_size (fl_fram s) = 32768 \<and> n \<le> 7680 \<and>
     flash_sizes_ok dms \<and> fl_fp_base s = 262144 \<and> fl_pay_entries s = int (length dms) \<and>
     fl_pay_addr s = CLive (map (\<lambda>i. 524288 + int i * 262144) [0..<10 * length dms])"

section \<open>Status variables\<close>

definition flash_vars :: "nat \<Rightarrow> flash \<Rightarrow> value32 list" where
  "flash_vars n s = map (\<lambda>i. of_word_bytes (the (mem_read (fl_fram s) (int i * 4) 4))) [0..<n]"

lemma flash_vars_length [simp]: "length (flash_vars n s) = n"
  by (simp add: flash_vars_def)

lemma fram_addr: "i < 7680 \<Longrightarrow> (int i * 4) mod 65536 = int i * 4"
  by (simp add: mult.commute)

lemma flash_status_get:
  assumes "flash_inv dms n s" "i < n"
  shows "flash_storage_status_get_value_idx (int i) s = Some (SCH_ST_OK, Some (flash_vars n s ! i))"
proof -
  have i: "i < 7680" "mem_size (fl_fram s) = 32768" using assms by (auto simp: flash_inv_def)
  then obtain bs where "mem_read (fl_fram s) (int i * 4) 4 = Some bs"
    using mem_read_ok [of "int i * 4" 4 "fl_fram s"] by auto
  then show ?thesis
    using assms(2) i
    by (simp add: flash_storage_status_get_value_idx_def storage_read_fram_def fram_addr flash_vars_def)
qed

lemma flash_status_set:
  assumes "flash_inv dms n s" "i < n"
  obtains m where "flash_storage_status_set_value_idx (int i) v s = Some (SCH_ST_OK, s\<lparr>fl_fram := m\<rparr>)"
    "mem_size m = 32768" "flash_vars n (s\<lparr>fl_fram := m\<rparr>) = (flash_vars n s)[i := v]"
proof -
  have i: "i < 7680" "mem_size (fl_fram s) = 32768" using assms by (auto simp: flash_inv_def)
  then obtain m where m: "mem_write (fl_fram s) (int i * 4) (le32 v) = Some m"
    using mem_write_ok [of "int i * 4" "le32 v" "fl_fram s"] by auto
  have "of_word_bytes (the (mem_read m (int j * 4) 4)) =
      (if j = i then v else of_word_bytes (the (mem_read (fl_fram s) (int j * 4) 4)))" for j
  proof (cases "j = i")
    case True
    then show ?thesis
      using mem_read_write_same [OF m] of_word_bytes_le32 [of v "[]"] by simp
  next
    case False
    then have "int j * 4 + int 4 \<le> int i * 4 \<or> int i * 4 + int (length (le32 v)) \<le> int j * 4" by auto
    from mem_read_write_disjoint [OF m this] False show ?thesis by simp
  qed
  then have "flash_vars n (s\<lparr>fl_fram := m\<rparr>) = (flash_vars n s)[i := v]"
    using assms(2) by (auto simp: flash_vars_def nth_list_update intro!: nth_equalityI)
  then show thesis
    using that m i mem_size_write [OF m]
    by (simp add: flash_storage_status_set_value_idx_def storage_write_fram_def fram_addr)
qed

lemma flash_inv_fram:
  "flash_inv dms n s \<Longrightarrow> mem_size m = 32768 \<Longrightarrow> flash_inv dms n (s\<lparr>fl_fram := m\<rparr>)"
  by (simp add: flash_inv_def)

section \<open>Where a sample lies\<close>

definition flash_addr :: "nat \<Rightarrow> nat \<Rightarrow> nat \<Rightarrow> nat" where
  "flash_addr sz p k =
     (let spp = 512 div sz
      in 524288 + (10 * p + k div (spp * 512)) * 262144 + k div spp * 512 + k mod spp * sz)"

definition flash_cap :: "data_map list \<Rightarrow> nat \<Rightarrow> nat" where
  "flash_cap dms p = 5 * (512 div dm_size (dms ! p) * 512)"

lemma div_bound:
  fixes k b c :: nat
  assumes "k < c * b"
  shows "k div b < c"
  using assms by (simp add: less_mult_imp_div_less)

lemma sample_in_page:
  fixes k sz :: nat
  assumes "512 div sz \<noteq> 0" "512 div sz * sz < 512"
  shows "k mod (512 div sz) * sz + sz < 512"
proof -
  have "k mod (512 div sz) + 1 \<le> 512 div sz" using assms(1) by (simp add: Suc_le_eq)
  then have "(k mod (512 div sz) + 1) * sz \<le> 512 div sz * sz" by (rule mult_le_mono1)
  then show ?thesis using assms(2) by (simp add: algebra_simps)
qed

lemma flash_addr_bounds:
  assumes "512 div sz \<noteq> 0" "512 div sz * sz < 512" "k < 5 * (512 div sz * 512)"
  shows "524288 + 10 * p * 262144 \<le> flash_addr sz p k"
    "flash_addr sz p k + sz < 524288 + (10 * p + 9) * 262144"
proof -
  let ?spp = "512 div sz"
  have "k div (?spp * 512) < 5" using assms(3) by (rule div_bound)
  then have s: "k div (?spp * 512) \<le> 4" by simp
  have "k < 2560 * ?spp" using assms(3) by simp
  then have p: "k div ?spp < 2560" by (rule div_bound)
  show "524288 + 10 * p * 262144 \<le> flash_addr sz p k" by (simp add: flash_addr_def Let_def)
  show "flash_addr sz p k + sz < 524288 + (10 * p + 9) * 262144"
    using s p sample_in_page [OF assms(1,2), of k] by (simp add: flash_addr_def Let_def)
qed

lemma flash_addr_mono:
  assumes "512 div sz \<noteq> 0" "512 div sz * sz < 512" "k < k'"
  shows "flash_addr sz p k + sz \<le> flash_addr sz p k'"
proof -
  let ?spp = "512 div sz"
  have sec: "k div (?spp * 512) \<le> k' div (?spp * 512)" using assms(3) by (simp add: div_le_mono)
  have pg: "k div ?spp \<le> k' div ?spp" using assms(3) by (simp add: div_le_mono)
  show ?thesis
  proof (cases "k div ?spp = k' div ?spp")
    case True
    have "k mod ?spp < k' mod ?spp"
      using assms(3) True by (metis div_mult_mod_eq nat_add_left_cancel_less)
    then have "(k mod ?spp + 1) * sz \<le> k' mod ?spp * sz" by (intro mult_le_mono1) simp
    then show ?thesis using sec True by (simp add: flash_addr_def Let_def algebra_simps)
  next
    case False
    then have "k div ?spp + 1 \<le> k' div ?spp" using pg by simp
    then have "(k div ?spp + 1) * 512 \<le> k' div ?spp * 512" by (intro mult_le_mono1)
    then show ?thesis
      using sec sample_in_page [OF assms(1,2), of k] by (simp add: flash_addr_def Let_def algebra_simps)
  qed
qed

lemma flash_addr_disjoint:
  assumes "512 div sz \<noteq> 0" "512 div sz * sz < 512" "k < 5 * (512 div sz * 512)"
    and "512 div sz' \<noteq> 0" "512 div sz' * sz' < 512" "k' < 5 * (512 div sz' * 512)"
    and "(p, k) \<noteq> (p', k')" "p = p' \<Longrightarrow> sz = sz'"
  shows "flash_addr sz p k + sz \<le> flash_addr sz' p' k' \<or> flash_addr sz' p' k' + sz' \<le> flash_addr sz p k"
proof (cases "p = p'")
  case True
  then have "k < k' \<or> k' < k" using assms(7) by auto
  then show ?thesis using True assms(8) flash_addr_mono [OF assms(1,2)] by blast
next
  case False
  note b = flash_addr_bounds [OF assms(1-3), of p] and b' = flash_addr_bounds [OF assms(4-6), of p']
  have "p + 1 \<le> p' \<or> p' + 1 \<le> p" using False by linarith
  then show ?thesis
  proof
    assume "p + 1 \<le> p'"
    then have "(10 * p + 10) * 262144 \<le> 10 * p' * (262144 :: nat)" by (intro mult_le_mono1) simp
    then have "flash_addr sz p k + sz \<le> flash_addr sz' p' k'" using b(2) b'(1) by simp
    then show ?thesis ..
  next
    assume "p' + 1 \<le> p"
    then have "(10 * p' + 10) * 262144 \<le> 10 * p * (262144 :: nat)" by (intro mult_le_mono1) simp
    then have "flash_addr sz' p' k' + sz' \<le> flash_addr sz p k" using b'(2) b(1) by simp
    then show ?thesis ..
  qed
qed


section \<open>Samples\<close>

definition flash_samples :: "data_map list \<Rightarrow> flash \<Rightarrow> nat \<Rightarrow> nat \<Rightarrow> byte list" where
  "flash_samples dms s p k =
     the (mem_read (fl_flash s) (int (flash_addr (dm_size (dms ! p)) p k)) (dm_size (dms ! p)))"

lemma flash_inv_payload:
  assumes "flash_inv dms n s" "p < length dms"
  shows "0 < dm_size (dms ! p)" "512 div dm_size (dms ! p) \<noteq> 0"
    "512 div dm_size (dms ! p) * dm_size (dms ! p) < 512" "length dms \<le> 25"
    "fl_open s" "mem_size (fl_flash s) = 67108864" "fl_pay_entries s = int (length dms)" "fl_fp_base s = 262144"
    "fl_pay_addr s = CLive (map (\<lambda>i. 524288 + int i * 262144) [0..<10 * length dms])"
  using assms by (auto simp: flash_inv_def flash_sizes_ok_def)

lemma flash_sample_fits:
  assumes "flash_inv dms n s" "p < length dms" "k < flash_cap dms p"
  shows "flash_addr (dm_size (dms ! p)) p k + dm_size (dms ! p) < 67108864"
    "flash_addr (dm_size (dms ! p)) p k \<le> 262144 + length dms * 2621440"
proof -
  note i = flash_inv_payload [OF assms(1,2)]
  note b = flash_addr_bounds [OF i(2,3) assms(3) [unfolded flash_cap_def], of p]
  show "flash_addr (dm_size (dms ! p)) p k + dm_size (dms ! p) < 67108864"
    "flash_addr (dm_size (dms ! p)) p k \<le> 262144 + length dms * 2621440"
    using b(2) i(4) assms(2) by auto
qed

lemma flash_sample_address:
  assumes "flash_inv dms n s" "p < length dms" "k < flash_cap dms p"
  shows "flash_get_sample_address (int p) (int k) (dm_size (dms ! p)) s =
     Some (SCH_ST_OK, Some (int (flash_addr (dm_size (dms ! p)) p k)))"
proof -
  let ?sz = "dm_size (dms ! p)" and ?spp = "512 div dm_size (dms ! p)"
  note i = flash_inv_payload [OF assms(1,2)]
  have spp: "?spp \<le> 512" "0 < ?spp" using i(2) by (simp_all add: div_le_dividend)
  have k: "k < 5 * (?spp * 512)" using assms(3) by (simp add: flash_cap_def)
  then have "k < 1310720" using spp by linarith
  then have ik: "in_int (int k)" by (simp add: in_int_def)
  have sec: "k div (?spp * 512) < 5" using k by (rule div_bound)
  have "k < 2560 * ?spp" using k by simp
  then have pg: "k div ?spp < 2560" by (rule div_bound)
  have d1: "cdiv (int k) (int ?spp) = Some (int (k div ?spp))" "cmod (int k) (int ?spp) = Some (int (k mod ?spp))"
      "cdiv (int k) (int (?spp * 512)) = Some (int (k div (?spp * 512)))"
    using cdiv_nat [OF spp(2) ik] cmod_nat [OF spp(2), of k] cdiv_nat [OF _ ik, of "?spp * 512"] spp(2) by simp_all
  have idx: "10 * p + k div (?spp * 512) < 10 * length dms" using assms(2) sec by linarith
  have get: "arr_get (map (\<lambda>i. 524288 + int i * 262144) [0..<10 * length dms]) (int (10 * p + k div (?spp * 512))) =
      Some (524288 + int (10 * p + k div (?spp * 512)) * 262144)"
    using idx by (subst arr_get_ok) simp_all
  have isp: "in_int (int (?spp * 512))" using spp(1) unfolding in_int_def by linarith
  have ints: "in_int (int p * 10)" "in_int (int (10 * p + k div (?spp * 512)))"
      "in_int (int (length dms) * 10)" "in_int (int (k div ?spp) * 512)" "in_int (int (length dms) * 10 * 262144)"
      "in_int (0 + 262144 + int (length dms) * 10 * 262144)"
    using spp i(4) assms(2) sec pg by (simp_all add: in_int_def)
  have addr: "524288 + int (10 * p + k div (?spp * 512)) * 262144 + int (k div ?spp) * 512 + int (k mod ?spp) * int ?sz =
      int (flash_addr ?sz p k)"
    by (simp add: flash_addr_def Let_def)
  note fit = flash_sample_fits [OF assms]
  have md: "int (flash_addr ?sz p k) mod 4294967296 = int (flash_addr ?sz p k)" using fit(1) by simp
  have le: "\<not> int (flash_addr ?sz p k) > (0 + 262144 + int (length dms) * 10 * 262144) mod 4294967296"
    using fit(2) i(4) by simp
  have conv: "512 div int ?sz = int ?spp" "int ?spp * 512 = int (?spp * 512)"
      "int p * 10 + int (k div (?spp * 512)) = int (10 * p + k div (?spp * 512))"
    by (simp_all add: zdiv_int)
  have sec2: "\<not> int (k div (?spp * 512)) > 10" "\<not> int (10 * p + k div (?spp * 512)) > int (length dms) * 10"
    using sec idx by linarith+
  show ?thesis
    unfolding flash_get_sample_address_def Let_def ST_PAGE_SIZE_def SCH_SIZE_PER_SECTION_def
      SCH_SECTIONS_PER_PAYLOAD_def SCH_FLASH_INIT_MEMORY_def conv(1)
    using i spp d1 get isp ints addr md le sec2
    by (simp add: conv live_def require_def del: of_nat_add of_nat_mult of_nat_div of_nat_mod)
qed


lemma flash_aligned:
  assumes "flash_inv dms n s" "p < length dms" "k < flash_cap dms p"
  shows "check_address_alignment (int (flash_addr (dm_size (dms ! p)) p k)) (int (dm_size (dms ! p))) = SCH_ST_OK"
proof -
  let ?sz = "dm_size (dms ! p)" and ?spp = "512 div dm_size (dms ! p)"
  note i = flash_inv_payload [OF assms(1,2)]
  let ?q = "1024 + (10 * p + k div (?spp * 512)) * 512 + k div ?spp"
  have a: "flash_addr ?sz p k = k mod ?spp * ?sz + ?q * 512" by (simp add: flash_addr_def Let_def)
  note in_page = sample_in_page [OF i(2,3), of k]
  have "flash_addr ?sz p k div 512 = ?q" "(flash_addr ?sz p k + ?sz) div 512 = ?q"
    using in_page by (simp_all add: a)
  then have "int (flash_addr ?sz p k) div 512 = int ?q" "(int (flash_addr ?sz p k) + int ?sz) div 512 = int ?q"
    using zdiv_int [of "flash_addr ?sz p k" 512] zdiv_int [of "flash_addr ?sz p k + ?sz" 512] by auto
  moreover have "(int (flash_addr ?sz p k) + int ?sz) mod 4294967296 = int (flash_addr ?sz p k) + int ?sz"
    using flash_sample_fits(1) [OF assms] by simp
  ultimately show ?thesis by (simp add: check_address_alignment_def config_defs)
qed

lemma flash_payload_get:
  assumes "flash_inv dms n s" "p < length dms" "k < flash_cap dms p"
  shows "flash_storage_payload_get_data (int p) (int k) (dms ! p) s =
     Some (SCH_ST_OK, Some (flash_samples dms s p k))"
proof -
  let ?sz = "dm_size (dms ! p)"
  note i = flash_inv_payload [OF assms(1,2)]
  have sz: "nat (int ?sz mod 65536) = ?sz" using i(2) div_less [of 512 ?sz] by (cases "512 < ?sz") auto
  obtain bs where "mem_read (fl_flash s) (int (flash_addr ?sz p k)) ?sz = Some bs"
    using mem_read_ok [of "int (flash_addr ?sz p k)" ?sz "fl_flash s"] flash_sample_fits(1) [OF assms] i(6) by auto
  then show ?thesis
    using i sz flash_sample_address [OF assms] flash_aligned [OF assms]
    by (simp add: flash_storage_payload_get_data_def read_data_with_check_def storage_read_flash_def
        flash_samples_def config_defs)
qed

lemma flash_inv_flash:
  assumes "flash_inv dms n s" "mem_size m = 67108864"
  shows "flash_inv dms n (s\<lparr>fl_flash := m\<rparr>)" "flash_vars n (s\<lparr>fl_flash := m\<rparr>) = flash_vars n s"
  using assms by (simp_all add: flash_inv_def flash_vars_def)

lemma flash_payload_set:
  assumes "flash_inv dms n s" "p < length dms" "k < flash_cap dms p" "length bytes = dm_size (dms ! p)"
  shows "\<exists>s'. flash_storage_payload_set_data (int p) (int k) (Some bytes) (dms ! p) s = Some (SCH_ST_OK, s') \<and>
     flash_inv dms n s' \<and> flash_vars n s' = flash_vars n s \<and> flash_samples dms s' p k = bytes \<and>
     (\<forall>p' k'. p' < length dms \<longrightarrow> k' < flash_cap dms p' \<longrightarrow> (p', k') \<noteq> (p, k) \<longrightarrow>
        flash_samples dms s' p' k' = flash_samples dms s p' k')"
proof -
  let ?sz = "dm_size (dms ! p)"
  note i = flash_inv_payload [OF assms(1,2)]
  have sz: "nat (int ?sz mod 65536) = ?sz" using i(2) div_less [of 512 ?sz] by (cases "512 < ?sz") auto
  obtain m where m: "mem_write (fl_flash s) (int (flash_addr ?sz p k)) bytes = Some m"
    using mem_write_ok [of "int (flash_addr ?sz p k)" bytes "fl_flash s"] flash_sample_fits(1) [OF assms(1-3)] i(6) assms(4)
    by auto
  let ?s' = "s\<lparr>fl_flash := m\<rparr>"
  have "flash_storage_payload_set_data (int p) (int k) (Some bytes) (dms ! p) s = Some (SCH_ST_OK, ?s')"
    using i sz m assms(4) flash_sample_address [OF assms(1-3)] flash_aligned [OF assms(1-3)]
    by (simp add: flash_storage_payload_set_data_def write_data_with_check_def storage_write_flash_def
        blk_read_def require_def config_defs)
  moreover have "flash_samples dms ?s' p k = bytes"
    using mem_read_write_same [OF m] assms(4) by (simp add: flash_samples_def)
  moreover have "flash_samples dms ?s' p' k' = flash_samples dms s p' k'"
    if "p' < length dms" "k' < flash_cap dms p'" "(p', k') \<noteq> (p, k)" for p' k'
  proof -
    note i' = flash_inv_payload [OF assms(1) that(1)]
    have "flash_addr (dm_size (dms ! p')) p' k' + dm_size (dms ! p') \<le> flash_addr ?sz p k \<or>
        flash_addr ?sz p k + ?sz \<le> flash_addr (dm_size (dms ! p')) p' k'"
      using flash_addr_disjoint [OF i'(2,3) that(2) [unfolded flash_cap_def] i(2,3) assms(3) [unfolded flash_cap_def] that(3)]
      by auto
    then have "int (flash_addr (dm_size (dms ! p')) p' k') + int (dm_size (dms ! p')) \<le> int (flash_addr ?sz p k) \<or>
        int (flash_addr ?sz p k) + int (length bytes) \<le> int (flash_addr (dm_size (dms ! p')) p' k')"
      using assms(4) by linarith
    then show ?thesis
      using mem_read_write_disjoint [OF m] by (simp add: flash_samples_def)
  qed
  ultimately show ?thesis
    using flash_inv_flash [OF assms(1), of m] mem_size_write [OF m] i(6) by auto
qed


lemma mem_at_fill: "mem_fill m off n b = Some m' \<Longrightarrow>
   mem_at m' a = (if nat off \<le> a \<and> a < nat off + n then b else mem_at m a)"
  by (auto simp: mem_fill_def mem_write_eq_Some put_bytes_def)

lemma erase_section:
  assumes "mem_size (fl_flash s) = 67108864" "i < 256"
  obtains m where "storage_erase_flash (int i * 262144) s = Some (s\<lparr>fl_flash := m\<rparr>)" "mem_size m = 67108864"
    "\<And>a. mem_at m a = (if i * 262144 \<le> a \<and> a < (i + 1) * 262144 then 0 else mem_at (fl_flash s) a)"
proof -
  have "0 \<le> int i * 262144" "int i * 262144 + int (length (replicate 262144 (0 :: byte))) \<le> int (mem_size (fl_flash s))"
    using assms by auto
  then obtain m where m: "mem_fill (fl_flash s) (int i * 262144) 262144 0 = Some m"
    unfolding mem_fill_def using mem_write_ok by blast
  show thesis
  proof (rule that)
    show "storage_erase_flash (int i * 262144) s = Some (s\<lparr>fl_flash := m\<rparr>)"
      using m by (simp add: storage_erase_flash_def config_defs)
    show "mem_size m = 67108864" using mem_size_fill [OF m] assms(1) by simp
    show "mem_at m a = (if i * 262144 \<le> a \<and> a < (i + 1) * 262144 then 0 else mem_at (fl_flash s) a)" for a
      using mem_at_fill [OF m, of a] by (simp add: nat_mult_distrib)
  qed
qed

lemma erase_sections_at:
  assumes "mem_size (fl_flash s) = 67108864" "j + c \<le> 256"
  shows "\<exists>m. erase_sections (map (\<lambda>i. int i * 262144) [j..<j + c]) s = Some (s\<lparr>fl_flash := m\<rparr>) \<and>
     mem_size m = 67108864 \<and>
     (\<forall>a. mem_at m a = (if j * 262144 \<le> a \<and> a < (j + c) * 262144 then 0 else mem_at (fl_flash s) a))"
  using assms
proof (induction c arbitrary: j s)
  case 0
  then show ?case by (intro exI [of _ "fl_flash s"]) auto
next
  case (Suc c)
  from erase_section [of s j] Suc.prems obtain m1 where
      m1: "storage_erase_flash (int j * 262144) s = Some (s\<lparr>fl_flash := m1\<rparr>)" "mem_size m1 = 67108864"
        "\<And>a. mem_at m1 a = (if j * 262144 \<le> a \<and> a < (j + 1) * 262144 then 0 else mem_at (fl_flash s) a)" by auto
  from Suc.IH [of "s\<lparr>fl_flash := m1\<rparr>" "Suc j"] m1(2) Suc.prems obtain m2 where
      m2: "erase_sections (map (\<lambda>i. int i * 262144) [Suc j..<Suc j + c]) (s\<lparr>fl_flash := m1\<rparr>) = Some (s\<lparr>fl_flash := m2\<rparr>)"
        "mem_size m2 = 67108864"
        "\<And>a. mem_at m2 a = (if Suc j * 262144 \<le> a \<and> a < (Suc j + c) * 262144 then 0 else mem_at m1 a)" by auto
  have "erase_sections (map (\<lambda>i. int i * 262144) [j..<j + Suc c]) s = Some (s\<lparr>fl_flash := m2\<rparr>)"
    using m1(1) m2(1) by (simp add: upt_conv_Cons del: upt_Suc)
  moreover have "mem_at m2 a = (if j * 262144 \<le> a \<and> a < (j + Suc c) * 262144 then 0 else mem_at (fl_flash s) a)" for a
    using m1(3) [of a] m2(3) [of a] by auto
  ultimately show ?case using m2(2) by blast
qed

lemma flash_payload_reset_table:
  assumes "flash_inv dms n s" "p < length dms"
  shows "\<exists>s'. flash_storage_payload_reset_table (int p) s = Some (SCH_ST_OK, s') \<and>
     flash_inv dms n s' \<and> flash_vars n s' = flash_vars n s \<and>
     (\<forall>k. k < flash_cap dms p \<longrightarrow> flash_samples dms s' p k = replicate (dm_size (dms ! p)) 0) \<and>
     (\<forall>p' k'. p' < length dms \<longrightarrow> k' < flash_cap dms p' \<longrightarrow> p' \<noteq> p \<longrightarrow>
        flash_samples dms s' p' k' = flash_samples dms s p' k')"
proof -
  note i = flash_inv_payload [OF assms]
  let ?a = "map (\<lambda>i. 524288 + int i * 262144) [0..<10 * length dms]"
  have "take 10 (drop (10 * p) ?a) = map (\<lambda>i. int i * 262144) [10 * p + 2..<10 * p + 2 + 10]"
    using assms(2) by (auto intro!: nth_equalityI simp: algebra_simps)
  moreover obtain m where m: "erase_sections (map (\<lambda>i. int i * 262144) [10 * p + 2..<10 * p + 2 + 10]) s = Some (s\<lparr>fl_flash := m\<rparr>)"
      "mem_size m = 67108864"
      "\<And>a. mem_at m a = (if (10 * p + 2) * 262144 \<le> a \<and> a < (10 * p + 2 + 10) * 262144 then 0 else mem_at (fl_flash s) a)"
    using erase_sections_at [of s "10 * p + 2" 10] i(4,6) assms(2) by auto
  moreover have "in_int (int p * 10)" using i(4) assms(2) by (simp add: in_int_def)
  moreover have "nat (int p * 10) = 10 * p" by (simp add: nat_mult_distrib)
  ultimately have reset: "flash_storage_payload_reset_table (int p) s = Some (SCH_ST_OK, s\<lparr>fl_flash := m\<rparr>)"
    using i assms(2)
    by (simp add: flash_storage_payload_reset_table_def live_def require_def config_defs)
  have bounds: "524288 + 10 * p' * 262144 \<le> flash_addr (dm_size (dms ! p')) p' k"
      "flash_addr (dm_size (dms ! p')) p' k + dm_size (dms ! p') < 524288 + (10 * p' + 9) * 262144"
      "flash_addr (dm_size (dms ! p')) p' k + dm_size (dms ! p') < 67108864"
    if "p' < length dms" "k < flash_cap dms p'" for p' k
    using flash_addr_bounds [OF flash_inv_payload(2,3) [OF assms(1) that(1)] that(2) [unfolded flash_cap_def], of p']
      flash_sample_fits(1) [OF assms(1) that] by simp_all
  have here: "flash_samples dms (s\<lparr>fl_flash := m\<rparr>) p k = replicate (dm_size (dms ! p)) 0"
    if "k < flash_cap dms p" for k
    using bounds [OF assms(2) that] m(2)
    by (auto simp: flash_samples_def mem_read_def m(3) map_replicate_const intro!: nth_equalityI)
  have there: "flash_samples dms (s\<lparr>fl_flash := m\<rparr>) p' k = flash_samples dms s p' k"
    if "p' < length dms" "k < flash_cap dms p'" "p' \<noteq> p" for p' k
  proof -
    have "p' + 1 \<le> p \<or> p + 1 \<le> p'" using that(3) by linarith
    then have "(10 * p' + 10) * 262144 \<le> 10 * p * (262144 :: nat) \<or> (10 * p + 10) * 262144 \<le> 10 * p' * (262144 :: nat)"
      by auto
    then have "mem_at m (flash_addr (dm_size (dms ! p')) p' k + j) = mem_at (fl_flash s) (flash_addr (dm_size (dms ! p')) p' k + j)"
      if "j < dm_size (dms ! p')" for j
      using bounds [OF \<open>p' < length dms\<close> \<open>k < flash_cap dms p'\<close>] that by (auto simp: m(3))
    then show ?thesis using m(2) i(6) by (simp add: flash_samples_def mem_read_def)
  qed
  show ?thesis
    using reset here there flash_inv_flash [OF assms(1) m(2)] by blast
qed

lemma flash_status_set_samples:
  "flash_storage_status_set_value_idx q v s = Some (rc, s') \<Longrightarrow> flash_samples dms s' = flash_samples dms s"
  by (auto simp: flash_storage_status_set_value_idx_def storage_write_fram_def flash_samples_def fun_eq_iff
      split: bind_splits)

section \<open>The contracts hold\<close>

lemma flash_ops_status_set:
  assumes "flash_inv dms n s" "i < n"
  shows "\<exists>s'. flash_storage_status_set_value_idx (int i) v s = Some (SCH_ST_OK, s') \<and> flash_inv dms n s' \<and>
     flash_vars n s' = (flash_vars n s)[i := v]"
  using flash_status_set [OF assms] flash_inv_fram [OF assms(1)] by metis

interpretation flash_store: payload_store "flash_ops alloc junk" "flash_inv dms n" "flash_vars n" dms "flash_cap dms" "flash_samples dms"
  for alloc junk dms n
proof unfold_locales
  fix s i v
  assume s: "flash_inv dms n s" and i: "0 \<le> i" "i < int (length (flash_vars n s))"
  then have "nat i < n" "int (nat i) = i" by auto
  then show "op_status_get (flash_ops alloc junk) i s = Some (SCH_ST_OK, Some (flash_vars n s ! nat i))"
    "\<exists>s'. op_status_set (flash_ops alloc junk) i v s = Some (SCH_ST_OK, s') \<and> flash_inv dms n s' \<and>
       flash_vars n s' = (flash_vars n s)[nat i := v]"
    using flash_status_get [OF s, of "nat i"] flash_ops_status_set [OF s, of "nat i"] by (simp_all add: flash_ops_def)
qed (use flash_payload_get flash_payload_set flash_payload_reset_table flash_status_set_samples
     in \<open>fastforce simp: flash_ops_def\<close>)+

definition flash_cfg :: "(nat \<Rightarrow> bool) \<Rightarrow> byte list option \<Rightarrow> bool \<Rightarrow> flash dat_cfg" where
  "flash_cfg alloc junk tr = storage_ops.extend (flash_ops alloc junk) \<lparr>triple_wr = tr\<rparr>"

lemma flash_cfg_simps [simp]:
  "triple_wr (flash_cfg alloc junk tr) = tr"
  "op_status_get (flash_cfg alloc junk tr) = flash_storage_status_get_value_idx"
  "op_status_set (flash_cfg alloc junk tr) = flash_storage_status_set_value_idx"
  "op_fp_set (flash_cfg alloc junk tr) = flash_storage_flight_plan_set alloc junk"
  "op_fp_get_idx (flash_cfg alloc junk tr) = flash_storage_flight_plan_get_idx alloc"
  "op_fp_get_args (flash_cfg alloc junk tr) = flash_storage_flight_plan_get_args alloc"
  "op_fp_delete_row (flash_cfg alloc junk tr) = flash_storage_flight_plan_delete_row"
  "op_fp_reset (flash_cfg alloc junk tr) = flash_storage_flight_plan_reset"
  "op_payload_set (flash_cfg alloc junk tr) = flash_storage_payload_set_data"
  "op_payload_get (flash_cfg alloc junk tr) = flash_storage_payload_get_data"
  "op_payload_reset_table (flash_cfg alloc junk tr) = flash_storage_payload_reset_table"
  by (simp_all add: flash_cfg_def flash_ops_def storage_ops.defs)

interpretation flash_pay:
  payload_repo "flash_cfg alloc junk tr" "flash_inv data_map (n_copies tr)" "flash_vars (n_copies tr)"
    "flash_cap data_map" "flash_samples data_map" for alloc junk tr
proof unfold_locales
  fix s i v
  assume s: "flash_inv data_map (n_copies tr) s" and i: "0 \<le> i" "i < int (length (flash_vars (n_copies tr) s))"
  then have "nat i < n_copies tr" "int (nat i) = i" by auto
  then show "op_status_get (flash_cfg alloc junk tr) i s = Some (SCH_ST_OK, Some (flash_vars (n_copies tr) s ! nat i))"
    "\<exists>s'. op_status_set (flash_cfg alloc junk tr) i v s = Some (SCH_ST_OK, s') \<and> flash_inv data_map (n_copies tr) s' \<and>
       flash_vars (n_copies tr) s' = (flash_vars (n_copies tr) s)[nat i := v]"
    using flash_status_get [OF s, of "nat i"] flash_ops_status_set [OF s, of "nat i"] by simp_all
next
  show "flash_cap data_map p < 2147483647" for p
  proof -
    have "512 div dm_size (data_map ! p) \<le> 512" by (rule div_le_dividend)
    then show ?thesis unfolding flash_cap_def by linarith
  qed
qed (use flash_payload_get flash_payload_set flash_payload_reset_table flash_status_set_samples
     in \<open>fastforce\<close>)+

end
