(* ===== verification/Flash_Plan.thy ===== *)
theory Flash_Plan
  imports Flash_Laws
begin

text \<open>
  The flight plan in the flash. The table of times and addresses in memory and its copy in the FRAM
  agree after every operation, so the plan survives a reset; a container that the table points to is
  never written over, because new ones go behind all others; and with the 513th entry set since the
  last reset of the plan the code leaves its array of sections.
\<close>

section \<open>The copy of the table\<close>

lemma tlb_start_eq: "tlb_start = 30720"
  by (simp add: tlb_start_def config_defs)

lemma length_fp_addr_bytes [simp]: "length (fp_addr_bytes e) = 8"
  by (simp add: fp_addr_bytes_def)

definition tlb_saved :: "flash \<Rightarrow> bool" where
  "tlb_saved s \<longleftrightarrow> mem_size (fl_fram s) = 32768 \<and> length (fl_tlb s) = 256 \<and>
     (\<forall>i < 256. mem_read (fl_fram s) (30720 + int i * 8) 8 = Some (fp_addr_bytes (fl_tlb s ! i)) \<and>
        in_int (fa_unixtime (fl_tlb s ! i)))"

lemma dump_entry:
  assumes "mem_size (fl_fram s) = 32768" "length (fl_tlb s) = 256" "i < 256"
  shows "\<exists>m. storage_flightplan_dump_tlb (int i) s = Some (SCH_ST_OK, s\<lparr>fl_fram := m\<rparr>) \<and> mem_size m = 32768 \<and>
     (\<forall>j. mem_read m (30720 + int j * 8) 8 =
        (if j = i then Some (fp_addr_bytes (fl_tlb s ! i)) else mem_read (fl_fram s) (30720 + int j * 8) 8)) \<and>
     (\<forall>off k. off + int k \<le> 30720 \<longrightarrow> mem_read m off k = mem_read (fl_fram s) off k)"
proof -
  obtain m where m: "mem_write (fl_fram s) (30720 + int i * 8) (fp_addr_bytes (fl_tlb s ! i)) = Some m"
    using mem_write_ok [of "30720 + int i * 8" "fp_addr_bytes (fl_tlb s ! i)" "fl_fram s"] assms by auto
  have "mem_read m (30720 + int j * 8) 8 =
      (if j = i then Some (fp_addr_bytes (fl_tlb s ! i)) else mem_read (fl_fram s) (30720 + int j * 8) 8)" for j
  proof (cases "j = i")
    case True
    then show ?thesis using mem_read_write_same [OF m] by simp
  next
    case False
    then have "30720 + int j * 8 + int 8 \<le> 30720 + int i * 8 \<or>
        30720 + int i * 8 + int (length (fp_addr_bytes (fl_tlb s ! i))) \<le> 30720 + int j * 8" by auto
    from mem_read_write_disjoint [OF m this] False show ?thesis by simp
  qed
  moreover have "mem_read m off k = mem_read (fl_fram s) off k" if "off + int k \<le> 30720" for off k
    using mem_read_write_disjoint [OF m, of off k] that by simp
  moreover have "storage_flightplan_dump_tlb (int i) s = Some (SCH_ST_OK, s\<lparr>fl_fram := m\<rparr>)"
    using m assms by (simp add: storage_flightplan_dump_tlb_def storage_write_fram_def tlb_start_eq)
  ultimately show ?thesis using mem_size_write [OF m] assms(1) by auto
qed

lemma fp_addrs_of_read:
  assumes "\<forall>i < k. mem_read m (off + int i * 8) 8 = Some (fp_addr_bytes (es ! i)) \<and> in_int (fa_unixtime (es ! i))"
    and "length es = k"
  shows "fp_addrs_of k (map (\<lambda>j. mem_at m (nat off + j)) [0..<8 * k]) = es"
  using assms
proof (induction k arbitrary: off es)
  case (Suc k)
  from Suc.prems obtain e es' where es: "es = e # es'" "length es' = k" by (cases es) auto
  let ?bs = "map (\<lambda>j. mem_at m (nat off + j)) [0..<8 * Suc k]"
  have first: "mem_read m off 8 = Some (fp_addr_bytes e)" "in_int (fa_unixtime e)"
    using Suc.prems(1) [rule_format, of 0] es(1) by simp_all
  then have off: "0 \<le> off" and e: "map (\<lambda>j. mem_at m (nat off + j)) [0..<8] = fp_addr_bytes e"
    by (simp_all add: mem_read_eq_Some)
  have "[0..<8 * Suc k] = [0..<8] @ [8..<8 * Suc k]" using upt_add_eq_append [of 0 8 "8 * k"] by simp
  moreover have "[8..<8 * Suc k] = map (\<lambda>j. j + 8) [0..<8 * k]" by (simp add: map_add_upt add.commute)
  ultimately have bs: "?bs = fp_addr_bytes e @ map (\<lambda>j. mem_at m (nat (off + 8) + j)) [0..<8 * k]"
    using e off by (simp add: comp_def nat_add_distrib add_ac)
  have "\<forall>i < k. mem_read m (off + 8 + int i * 8) 8 = Some (fp_addr_bytes (es' ! i)) \<and> in_int (fa_unixtime (es' ! i))"
    using Suc.prems(1) es(1) by (auto dest: spec [of _ "Suc _"] simp: algebra_simps)
  from Suc.IH [OF this es(2)] have rest: "fp_addrs_of k (map (\<lambda>j. mem_at m (nat (off + 8) + j)) [0..<8 * k]) = es'" .
  show ?case
    unfolding bs using rest first(2) by (simp add: es(1) fp_addr_bytes_def)
qed simp

lemma load_saved:
  assumes "tlb_saved s"
  shows "storage_flightplan_load_tlb (s\<lparr>fl_tlb := x\<rparr>) = Some (SCH_ST_OK, s)"
proof -
  have "fp_addrs_of 256 (map (\<lambda>j. mem_at (fl_fram s) (nat 30720 + j)) [0..<8 * 256]) = fl_tlb s"
    using assms by (intro fp_addrs_of_read) (simp_all add: tlb_saved_def)
  moreover have "mem_read (fl_fram s) 30720 2048 = Some (map (\<lambda>j. mem_at (fl_fram s) (nat 30720 + j)) [0..<8 * 256])"
    using assms by (simp add: tlb_saved_def mem_read_def)
  ultimately show ?thesis
    by (simp add: storage_flightplan_load_tlb_def storage_read_fram_def tlb_start_eq config_defs)
qed


section \<open>Containers\<close>

definition row_ok :: "fp_entry \<Rightarrow> string \<Rightarrow> string \<Rightarrow> bool" where
  "row_ok e c a \<longleftrightarrow> in_int (unixtime e) \<and> in_int (executions e) \<and> in_int (periodical e) \<and> in_int (node e) \<and>
     fp_cmd e = Some c \<and> fp_args e = Some a \<and> NUL \<notin> set c \<and> NUL \<notin> set a \<and> length c < 248 \<and> length a < 248"

lemma length_container [simp]: "length (container_bytes e c a) = 512"
  by (simp add: container_bytes_def ST_CMD_MAX_def)

lemma cstr_of_append: "cstr_of xs = Some s \<Longrightarrow> cstr_of (xs @ ys) = Some s"
  by (auto simp: cstr_of_def takeWhile_append split: if_splits)

lemma container_fields:
  assumes "row_ok e c a"
  shows "v_i (of_word_bytes (container_bytes e c a)) = unixtime e"
    "v_i (of_word_bytes (drop 4 (container_bytes e c a))) = executions e"
    "v_i (of_word_bytes (drop 8 (container_bytes e c a))) = periodical e"
    "v_i (of_word_bytes (drop 12 (container_bytes e c a))) = node e"
    "cstr_of (chars_of (drop 16 (container_bytes e c a))) = Some c"
    "cstr_of (chars_of (drop 264 (container_bytes e c a))) = Some a"
proof -
  have len: "length (bytes_of (strncpy_bytes x ST_CMD_MAX)) = 248" for x by (simp add: ST_CMD_MAX_def)
  have str: "cstr_of (strncpy_bytes x ST_CMD_MAX) = Some x" if "NUL \<notin> set x" "length x < 248" for x
    using that by (intro cstr_of_strncpy) (simp_all add: ST_CMD_MAX_def)
  show "v_i (of_word_bytes (container_bytes e c a)) = unixtime e"
    "v_i (of_word_bytes (drop 4 (container_bytes e c a))) = executions e"
    "v_i (of_word_bytes (drop 8 (container_bytes e c a))) = periodical e"
    "v_i (of_word_bytes (drop 12 (container_bytes e c a))) = node e"
    using assms by (simp_all add: container_bytes_def row_ok_def)
  show "cstr_of (chars_of (drop 16 (container_bytes e c a))) = Some c"
    using assms str [of c] by (simp add: container_bytes_def row_ok_def chars_of_append cstr_of_append)
  show "cstr_of (chars_of (drop 264 (container_bytes e c a))) = Some a"
    using assms str [of a] len by (simp add: container_bytes_def row_ok_def)
qed

section \<open>Invariant\<close>

definition used_containers :: "flash \<Rightarrow> nat" where
  "used_containers s = unat (fa_addr (fl_tlb s ! 255))"

text \<open>A used place of the table points to a container with its time, among those written so far.\<close>

definition place_ok :: "flash \<Rightarrow> fp_addr \<Rightarrow> bool" where
  "place_ok s p \<longleftrightarrow>
     (\<exists>j e c a. j < used_containers s \<and> fa_addr p = of_nat (262144 + 512 * j) \<and> row_ok e c a \<and>
        unixtime e = fa_unixtime p \<and>
        mem_read (fl_flash s) (262144 + 512 * int j) 512 = Some (container_bytes e c a))"

definition flash_fp_inv :: "flash \<Rightarrow> bool" where
  "flash_fp_inv s \<longleftrightarrow>
     fl_open s \<and> mem_size (fl_flash s) = 67108864 \<and> fl_fp_base s = 262144 \<and> fl_fp_entries s = 255 \<and>
     fl_fp_addr s = CLive [262144] \<and> tlb_saved s \<and> used_containers s \<le> 512 \<and>
     (\<forall>i < 255. fa_unixtime (fl_tlb s ! i) \<noteq> - 1 \<longrightarrow> place_ok s (fl_tlb s ! i))"

text \<open>The entry of a place; those of free places are cleared.\<close>

definition place_entry :: "flash \<Rightarrow> fp_addr \<Rightarrow> fp_entry" where
  "place_entry s p =
     (if fa_unixtime p = - 1
      then fp_entry_clear \<lparr>unixtime = 0, executions = 0, periodical = 0, node = 0, fp_cmd = None, fp_args = None\<rparr>
      else
        (let bs = the (mem_read (fl_flash s) (uint (fa_addr p)) 512)
         in \<lparr>unixtime = v_i (of_word_bytes bs), executions = v_i (of_word_bytes (drop 4 bs)),
             periodical = v_i (of_word_bytes (drop 8 bs)), node = v_i (of_word_bytes (drop 12 bs)),
             fp_cmd = cstr_of (chars_of (drop 16 bs)), fp_args = cstr_of (chars_of (drop 264 bs))\<rparr>))"

definition flash_slots :: "flash \<Rightarrow> fp_entry list" where
  "flash_slots s = map (place_entry s) (take 255 (fl_tlb s))"

lemma place_entry_ok:
  assumes "place_ok s p" "fa_unixtime p \<noteq> - 1" "used_containers s \<le> 512"
  obtains j e c a where "j < used_containers s" "uint (fa_addr p) = 262144 + 512 * int j" "row_ok e c a"
    "unixtime e = fa_unixtime p" "place_entry s p = e" "fa_addr p = of_nat (262144 + 512 * j)"
    "mem_read (fl_flash s) (262144 + 512 * int j) 512 = Some (container_bytes e c a)"
proof -
  obtain j e c a where p: "j < used_containers s" "fa_addr p = of_nat (262144 + 512 * j)" "row_ok e c a"
      "unixtime e = fa_unixtime p" "mem_read (fl_flash s) (262144 + 512 * int j) 512 = Some (container_bytes e c a)"
    using assms(1) by (auto simp: place_ok_def)
  have "262144 + 512 * j < 4294967296" using p(1) assms(3) by simp
  then have "uint (of_nat (262144 + 512 * j) :: 32 word) = int (262144 + 512 * j)"
    by (simp add: uint_nat unsigned_of_nat take_bit_nat_eq_self del: of_nat_add of_nat_mult)
  then have u: "uint (fa_addr p) = 262144 + 512 * int j" by (simp add: p(2))
  have "place_entry s p = e"
    using assms(2) p(3,5) container_fields [OF p(3)] by (simp add: place_entry_def u Let_def row_ok_def)
  then show thesis using that [OF p(1) u p(3,4) _ p(2,5)] by blast
qed

lemma place_free: "flash_fp_inv s \<Longrightarrow> i < 255 \<Longrightarrow>
   unixtime (place_entry s (fl_tlb s ! i)) = fa_unixtime (fl_tlb s ! i)"
proof -
  assume s: "flash_fp_inv s" and i: "i < 255"
  show ?thesis
  proof (cases "fa_unixtime (fl_tlb s ! i) = - 1")
    case True
    then show ?thesis by (simp add: place_entry_def)
  next
    case False
    then have ok: "place_ok s (fl_tlb s ! i)" "used_containers s \<le> 512" using s i by (auto simp: flash_fp_inv_def)
    from place_entry_ok [OF ok(1) False ok(2)] show ?thesis by metis
  qed
qed

lemma find_slots:
  assumes "flash_fp_inv s"
  shows "find_idx (\<lambda>e. fa_unixtime e = t) (take 255 (fl_tlb s)) = find_idx (\<lambda>e. unixtime e = t) (flash_slots s)"
proof (rule find_idx_cong)
  have len: "length (fl_tlb s) = 256" using assms by (simp add: flash_fp_inv_def tlb_saved_def)
  show "length (take 255 (fl_tlb s)) = length (flash_slots s)" by (simp add: flash_slots_def)
  fix i
  assume "i < length (flash_slots s)"
  then show "(fa_unixtime (take 255 (fl_tlb s) ! i) = t) = (unixtime (flash_slots s ! i) = t)"
    using place_free [OF assms, of i] len by (simp add: flash_slots_def)
qed


section \<open>Operations\<close>

text \<open>What an operation on the plan leaves: everything but the flash, the FRAM from the table on, and the
  table.\<close>

definition plan_frame :: "flash \<Rightarrow> flash \<Rightarrow> bool" where
  "plan_frame s s' \<longleftrightarrow>
     s' = s\<lparr>fl_flash := fl_flash s', fl_fram := fl_fram s', fl_tlb := fl_tlb s'\<rparr> \<and>
     mem_size (fl_flash s') = mem_size (fl_flash s) \<and> mem_size (fl_fram s') = mem_size (fl_fram s) \<and>
     (\<forall>off k. off + int k \<le> 30720 \<longrightarrow> mem_read (fl_fram s') off k = mem_read (fl_fram s) off k) \<and>
     (\<forall>off k. 524288 \<le> off \<longrightarrow> mem_read (fl_flash s') off k = mem_read (fl_flash s) off k)"

lemma plan_frame_vars: "plan_frame s s' \<Longrightarrow> n \<le> 7680 \<Longrightarrow> flash_vars n s' = flash_vars n s"
  by (auto simp: plan_frame_def flash_vars_def)

lemma plan_frame_samples: "plan_frame s s' \<Longrightarrow> flash_samples dms s' = flash_samples dms s"
  by (auto simp: plan_frame_def flash_samples_def fun_eq_iff flash_addr_def Let_def)

lemma plan_frame_inv:
  assumes "plan_frame s s'" "flash_inv dms n s"
  shows "flash_inv dms n s'"
proof -
  have "s' = s\<lparr>fl_flash := fl_flash s', fl_fram := fl_fram s', fl_tlb := fl_tlb s'\<rparr>"
    using assms(1) by (simp add: plan_frame_def)
  then have "fl_open s' = fl_open s" "fl_fp_base s' = fl_fp_base s" "fl_pay_entries s' = fl_pay_entries s"
      "fl_pay_addr s' = fl_pay_addr s"
    by (metis flash.select_convs flash.update_convs flash.surjective)+
  then show ?thesis using assms by (simp add: plan_frame_def flash_inv_def)
qed

definition put_place :: "nat \<Rightarrow> fp_addr \<Rightarrow> fp_addr list \<Rightarrow> fp_addr list" where
  "put_place i p tlb = tlb[i := p, 255 := (tlb ! 255)\<lparr>fa_addr := 1 + fa_addr (tlb ! 255)\<rparr>]"

lemma update_tlb:
  assumes "tlb_saved s" "i < 255" "in_int t"
  obtains m where
    "storage_flightplan_update_tlb (int i) t addr s = Some (SCH_ST_OK,
       s\<lparr>fl_tlb := put_place i \<lparr>fa_addr = word_of_int addr, fa_unixtime = t\<rparr> (fl_tlb s), fl_fram := m\<rparr>)"
    "tlb_saved (s\<lparr>fl_tlb := put_place i \<lparr>fa_addr = word_of_int addr, fa_unixtime = t\<rparr> (fl_tlb s), fl_fram := m\<rparr>)"
    "mem_size m = 32768" "\<And>off k. off + int k \<le> 30720 \<Longrightarrow> mem_read m off k = mem_read (fl_fram s) off k"
proof -
  let ?p = "\<lparr>fa_addr = word_of_int addr, fa_unixtime = t\<rparr>"
  let ?tlb = "put_place i ?p (fl_tlb s)"
  have s: "mem_size (fl_fram s) = 32768" "length (fl_tlb s) = 256" using assms(1) by (simp_all add: tlb_saved_def)
  have len: "length ?tlb = 256" using s(2) by (simp add: put_place_def)
  obtain m1 where m1: "storage_flightplan_dump_tlb (int i) (s\<lparr>fl_tlb := ?tlb\<rparr>) = Some (SCH_ST_OK, s\<lparr>fl_tlb := ?tlb, fl_fram := m1\<rparr>)"
      "mem_size m1 = 32768"
      "\<And>j. mem_read m1 (30720 + int j * 8) 8 =
        (if j = i then Some (fp_addr_bytes (?tlb ! i)) else mem_read (fl_fram s) (30720 + int j * 8) 8)"
      "\<And>off k. off + int k \<le> 30720 \<Longrightarrow> mem_read m1 off k = mem_read (fl_fram s) off k"
    using dump_entry [of "s\<lparr>fl_tlb := ?tlb\<rparr>" i] s len assms(2) by fastforce
  obtain m2 where m2: "storage_flightplan_dump_tlb (int 255) (s\<lparr>fl_tlb := ?tlb, fl_fram := m1\<rparr>) =
        Some (SCH_ST_OK, s\<lparr>fl_tlb := ?tlb, fl_fram := m2\<rparr>)"
      "mem_size m2 = 32768"
      "\<And>j. mem_read m2 (30720 + int j * 8) 8 =
        (if j = 255 then Some (fp_addr_bytes (?tlb ! 255)) else mem_read m1 (30720 + int j * 8) 8)"
      "\<And>off k. off + int k \<le> 30720 \<Longrightarrow> mem_read m2 off k = mem_read m1 off k"
    using dump_entry [of "s\<lparr>fl_tlb := ?tlb, fl_fram := m1\<rparr>" 255] m1(2) len by fastforce
  have set: "arr_set (fl_tlb s) (int i) ?p = Some ((fl_tlb s)[i := ?p])"
      "arr_get ((fl_tlb s)[i := ?p]) (int 255) = Some (fl_tlb s ! 255)"
      "arr_set ((fl_tlb s)[i := ?p]) (int 255) ((fl_tlb s ! 255)\<lparr>fa_addr := 1 + fa_addr (fl_tlb s ! 255)\<rparr>) = Some ?tlb"
    using s(2) assms(2) by (simp_all add: put_place_def del: of_nat_numeral)
  show thesis
  proof (rule that)
    show "storage_flightplan_update_tlb (int i) t addr s = Some (SCH_ST_OK, s\<lparr>fl_tlb := ?tlb, fl_fram := m2\<rparr>)"
      using set m1(1) m2(1) by (simp add: storage_flightplan_update_tlb_def SCH_FP_MAX_ENTRIES_def)
    have "in_int (fa_unixtime (?tlb ! j))" if "j < 256" for j
      using assms that by (auto simp: tlb_saved_def put_place_def nth_list_update)
    moreover have "mem_read m2 (30720 + int j * 8) 8 = Some (fp_addr_bytes (?tlb ! j))" if "j < 256" for j
      using m1(3) [of j] m2(3) [of j] assms(1,2) that by (auto simp: tlb_saved_def put_place_def nth_list_update)
    ultimately show "tlb_saved (s\<lparr>fl_tlb := ?tlb, fl_fram := m2\<rparr>)" using len m2(2) by (simp add: tlb_saved_def)
    show "mem_size m2 = 32768" by (rule m2(2))
    show "mem_read m2 off k = mem_read (fl_fram s) off k" if "off + int k \<le> 30720" for off k
      using m1(4) m2(4) that by simp
  qed
qed


lemma container_addr_eq:
  assumes "fl_fp_addr s = CLive [262144]" "k \<le> 512"
  shows "container_addr (int k) s = (if k < 512 then Some (262144 + 512 * int k) else None)"
proof -
  have "cdiv (int k) 512 = Some (int (k div 512))" "cmod (int k) 512 = Some (int (k mod 512))"
    using cdiv_nat [of 512 k] cmod_nat [of 512 k] assms(2) by (simp_all add: in_int_def)
  then have eq: "container_addr (int k) s = do { b \<leftarrow> arr_get [262144] (int (k div 512)); Some ((b + int (k mod 512) * 512) mod 2 ^ 32) }"
    using assms(1) by (simp add: container_addr_def commands_per_section_def config_defs live_def)
  consider "k < 512" | "k = 512" using assms(2) by linarith
  then show ?thesis using eq arr_get_def [of "[262144 :: int]" 0] arr_get_def [of "[262144 :: int]" 1] by cases simp_all
qed

lemma flash_config: "commands_per_section = 512" "FP_CONTAINER_SIZE = 512" "SCH_FP_MAX_ENTRIES = 255"
    "ST_FP_NULL = - 1" "SCH_ST_OK = 0" "SCH_ST_ERROR = - 1"
  by (simp_all add: commands_per_section_def config_defs)

lemma counter_word:
  assumes "used_containers s \<le> 512"
  shows "uint (fa_addr (fl_tlb s ! 255)) = int (used_containers s)" "v_i (fa_addr (fl_tlb s ! 255)) = int (used_containers s)"
    "unat (1 + fa_addr (fl_tlb s ! 255)) = used_containers s + 1"
proof -
  let ?w = "fa_addr (fl_tlb s ! 255)"
  show u: "uint ?w = int (used_containers s)" by (simp only: used_containers_def uint_nat)
  have "of_i (uint ?w) = ?w" by (simp add: of_i_def)
  moreover have "v_i (of_i (int (used_containers s))) = int (used_containers s)"
    using assms by (intro v_i_of_i) (simp add: in_int_def)
  ultimately show "v_i ?w = int (used_containers s)" by (simp add: u)
  have "unat ?w \<le> 512" using assms by (simp add: used_containers_def)
  then have "unat (1 + ?w) = unat (1 :: 32 word) + unat ?w"
    using unat_add_lem [of "1 :: 32 word" ?w] by simp
  then show "unat (1 + ?w) = used_containers s + 1" by (simp add: used_containers_def)
qed

lemma uint_addr: "j \<le> 512 \<Longrightarrow> uint (word_of_int (262144 + 512 * int j) :: 32 word) = 262144 + 512 * int j"
  by (subst uint_word_of_int) simp

lemma find_free:
  assumes "flash_fp_inv s"
  shows "storage_flightplan_find_index_tlb ST_FP_NULL s =
     (case find_idx fp_free (flash_slots s) of Some i \<Rightarrow> int i | None \<Rightarrow> - 1)"
proof -
  have "fp_free = (\<lambda>e. unixtime e = - 1)" by (auto simp: fp_free_def config_defs)
  then show ?thesis
    using find_slots [OF assms, of "- 1"] by (simp add: storage_flightplan_find_index_tlb_def config_defs)
qed

lemma flash_slots_length: "flash_fp_inv s \<Longrightarrow> length (flash_slots s) = 255"
  by (simp add: flash_slots_def flash_fp_inv_def tlb_saved_def)

lemma slots_nth: "flash_fp_inv s \<Longrightarrow> j < 255 \<Longrightarrow> flash_slots s ! j = place_entry s (fl_tlb s ! j)"
  by (simp add: flash_slots_def flash_fp_inv_def tlb_saved_def)

text \<open>Writing the next container: the places in use keep their entries, the new place has the new one.\<close>

lemma old_places:
  assumes "mem_write (fl_flash s) (262144 + 512 * int (used_containers s)) bs = Some (fl_flash s')"
    and "used_containers s' = used_containers s + 1" "used_containers s \<le> 512"
    and "place_ok s q" "fa_unixtime q \<noteq> - 1"
  shows "place_ok s' q" "place_entry s' q = place_entry s q"
proof -
  obtain j e c a where j: "j < used_containers s" "uint (fa_addr q) = 262144 + 512 * int j" "row_ok e c a"
      "unixtime e = fa_unixtime q" "fa_addr q = of_nat (262144 + 512 * j)"
      "mem_read (fl_flash s) (262144 + 512 * int j) 512 = Some (container_bytes e c a)"
    using place_entry_ok [OF assms(4,5,3)] by metis
  have same: "mem_read (fl_flash s') (262144 + 512 * int j) 512 = mem_read (fl_flash s) (262144 + 512 * int j) 512"
    using mem_read_write_disjoint [OF assms(1), of "262144 + 512 * int j" 512] j(1) by simp
  then show "place_ok s' q"
    unfolding place_ok_def using assms(2) j
    by (intro exI [of _ j] exI [of _ e] exI [of _ c] exI [of _ a]) simp
  show "place_entry s' q = place_entry s q" using same by (simp add: place_entry_def j(2))
qed

lemma new_place:
  assumes "mem_write (fl_flash s) (262144 + 512 * int (used_containers s)) (container_bytes e c a) = Some (fl_flash s')"
    and "used_containers s' = used_containers s + 1" "used_containers s \<le> 512" "row_ok e c a" "0 \<le> unixtime e"
  shows "place_ok s' \<lparr>fa_addr = word_of_int (262144 + 512 * int (used_containers s)), fa_unixtime = unixtime e\<rparr>"
    "place_entry s' \<lparr>fa_addr = word_of_int (262144 + 512 * int (used_containers s)), fa_unixtime = unixtime e\<rparr> = e"
proof -
  have new: "mem_read (fl_flash s') (262144 + 512 * int (used_containers s)) 512 = Some (container_bytes e c a)"
    using mem_read_write_same [OF assms(1)] by simp
  show "place_ok s' \<lparr>fa_addr = word_of_int (262144 + 512 * int (used_containers s)), fa_unixtime = unixtime e\<rparr>"
    unfolding place_ok_def using new assms(2,4)
    by (intro exI [of _ "used_containers s"] exI [of _ e] exI [of _ c] exI [of _ a]) simp
  show "place_entry s' \<lparr>fa_addr = word_of_int (262144 + 512 * int (used_containers s)), fa_unixtime = unixtime e\<rparr> = e"
    using new assms(4,5) container_fields [OF assms(4)]
    unfolding place_entry_def fp_addr.select_convs uint_addr [OF assms(3)]
    by (simp add: Let_def row_ok_def)
qed

text \<open>The step of \<^verbatim>\<open>storage_flight_plan_set_st\<close> while there is room in the section.\<close>

lemma flash_fp_set_step:
  assumes "flash_fp_inv s" "used_containers s < 512" "find_idx fp_free (flash_slots s) = Some i"
    and "e = \<lparr>unixtime = t, executions = n, periodical = p, node = nd, fp_cmd = Some c, fp_args = Some a\<rparr>"
    and "row_ok e c a" "0 \<le> t" "alloc 512"
  obtains m f where "flash_storage_flight_plan_set alloc junk t (Some c) (Some a) n p nd s = Some (SCH_ST_OK,
      s\<lparr>fl_tlb := put_place i \<lparr>fa_addr = word_of_int (262144 + 512 * int (used_containers s)), fa_unixtime = unixtime e\<rparr>
           (fl_tlb s), fl_fram := m, fl_flash := f\<rparr>)"
    "tlb_saved (s\<lparr>fl_tlb := put_place i \<lparr>fa_addr = word_of_int (262144 + 512 * int (used_containers s)), fa_unixtime = unixtime e\<rparr>
           (fl_tlb s), fl_fram := m\<rparr>)"
    "mem_write (fl_flash s) (262144 + 512 * int (used_containers s)) (container_bytes e c a) = Some f"
    "\<And>off k. off + int k \<le> 30720 \<Longrightarrow> mem_read m off k = mem_read (fl_fram s) off k"
proof -
  have len: "length (fl_tlb s) = 256" "length (flash_slots s) = 255"
    using assms(1) flash_slots_length by (auto simp: flash_fp_inv_def tlb_saved_def)
  have i: "i < 255" using find_idx_SomeD [OF assms(3)] len by auto
  have saved: "tlb_saved s" "used_containers s \<le> 512" "mem_size (fl_flash s) = 67108864"
    using assms(1,2) by (simp_all add: flash_fp_inv_def)
  let ?addr = "262144 + 512 * int (used_containers s)"
  let ?tlb = "put_place i \<lparr>fa_addr = word_of_int ?addr, fa_unixtime = unixtime e\<rparr> (fl_tlb s)"
  have time: "unixtime e = t" "in_int (unixtime e)" using assms(4,5) by (simp_all add: row_ok_def)
  obtain m where m: "storage_flightplan_update_tlb (int i) t ?addr s = Some (SCH_ST_OK, s\<lparr>fl_tlb := ?tlb, fl_fram := m\<rparr>)"
      "tlb_saved (s\<lparr>fl_tlb := ?tlb, fl_fram := m\<rparr>)"
      "\<And>off k. off + int k \<le> 30720 \<Longrightarrow> mem_read m off k = mem_read (fl_fram s) off k"
    using update_tlb [OF saved(1) i time(2), of ?addr] unfolding time(1) by blast
  obtain f where f: "mem_write (fl_flash s) ?addr (container_bytes e c a) = Some f"
    using mem_write_ok [of ?addr "container_bytes e c a" "fl_flash s"] saved(3) assms(2) by auto
  have "arr_get (fl_tlb s) 255 = Some (fl_tlb s ! 255)" using arr_get_ok [of 255 "fl_tlb s"] len by simp
  moreover have "container_addr (v_i (fa_addr (fl_tlb s ! 255))) s = Some ?addr"
    using container_addr_eq [of s "used_containers s"] assms(1,2) counter_word(2) [OF saved(2)]
    by (simp add: flash_fp_inv_def)
  moreover have "storage_flightplan_find_index_tlb (- 1) s = int i"
    using find_free [OF assms(1)] assms(3) by (simp add: config_defs)
  moreover have "storage_write_flash ?addr (container_bytes e c a) 512 (s\<lparr>fl_tlb := ?tlb, fl_fram := m\<rparr>) =
      Some (s\<lparr>fl_tlb := ?tlb, fl_fram := m, fl_flash := f\<rparr>)"
    using f by (simp add: storage_write_flash_def blk_read_def require_def)
  ultimately have "flash_storage_flight_plan_set alloc junk t (Some c) (Some a) n p nd s =
      Some (SCH_ST_OK, s\<lparr>fl_tlb := ?tlb, fl_fram := m, fl_flash := f\<rparr>)"
    unfolding flash_storage_flight_plan_set_def flash_storage_flight_plan_set_st_def assms(4) [symmetric] flash_config
    using assms(1,5-7) i m(1) counter_word(1) [OF saved(2)] saved(2) time(1)
    by (simp add: flash_fp_inv_def require_def row_ok_def flash_config(5))
  then show thesis using m(2) f m(3) by (rule that)
qed

lemma flash_fp_set:
  assumes "flash_fp_inv s" "used_containers s < 512" "find_idx fp_free (flash_slots s) = Some i"
    and "e = \<lparr>unixtime = t, executions = n, periodical = p, node = nd, fp_cmd = Some c, fp_args = Some a\<rparr>"
    and "row_ok e c a" "0 \<le> t" "alloc 512"
  shows "\<exists>s'. flash_storage_flight_plan_set alloc junk t (Some c) (Some a) n p nd s = Some (SCH_ST_OK, s') \<and>
     flash_fp_inv s' \<and> flash_slots s' = (flash_slots s)[i := e] \<and>
     used_containers s' = used_containers s + 1 \<and> plan_frame s s'"
proof (rule flash_fp_set_step [where alloc = alloc and junk = junk, OF assms])
  let ?pl = "\<lparr>fa_addr = word_of_int (262144 + 512 * int (used_containers s)), fa_unixtime = unixtime e\<rparr>"
  let ?tlb = "put_place i ?pl (fl_tlb s)"
  fix m f
  assume mf: "flash_storage_flight_plan_set alloc junk t (Some c) (Some a) n p nd s =
        Some (SCH_ST_OK, s\<lparr>fl_tlb := ?tlb, fl_fram := m, fl_flash := f\<rparr>)"
      "tlb_saved (s\<lparr>fl_tlb := ?tlb, fl_fram := m\<rparr>)"
      "mem_write (fl_flash s) (262144 + 512 * int (used_containers s)) (container_bytes e c a) = Some f"
      "\<And>off k. off + int k \<le> 30720 \<Longrightarrow> mem_read m off k = mem_read (fl_fram s) off k"
  define s' where "s' = s\<lparr>fl_tlb := ?tlb, fl_fram := m, fl_flash := f\<rparr>"
  have len: "length (fl_tlb s) = 256" and used: "used_containers s \<le> 512"
    using assms(1,2) by (simp_all add: flash_fp_inv_def tlb_saved_def)
  have i: "i < 255" using find_idx_SomeD [OF assms(3)] flash_slots_length [OF assms(1)] by auto
  have used': "used_containers s' = used_containers s + 1"
    using counter_word(3) [OF used] len by (simp add: s'_def used_containers_def put_place_def)
  have wr: "mem_write (fl_flash s) (262144 + 512 * int (used_containers s)) (container_bytes e c a) = Some (fl_flash s')"
    using mf(3) by (simp add: s'_def)
  have time: "0 \<le> unixtime e" using assms(4,6) by simp
  note old = old_places [OF wr used' used] and new = new_place [OF wr used' used assms(5) time]
  have nths: "fl_tlb s' ! j = (if j = i then ?pl else fl_tlb s ! j)" if "j < 255" for j
    using that len by (simp add: s'_def put_place_def nth_list_update)
  have ok: "place_ok s (fl_tlb s ! j)" if "j < 255" "fa_unixtime (fl_tlb s ! j) \<noteq> - 1" for j
    using assms(1) that by (simp add: flash_fp_inv_def)
  have "place_ok s' (fl_tlb s' ! j)" if "j < 255" "fa_unixtime (fl_tlb s' ! j) \<noteq> - 1" for j
    using that nths [OF that(1)] new(1) old(1) ok by (cases "j = i") auto
  then have inv': "flash_fp_inv s'"
    using assms(1,2) used' mem_size_write [OF mf(3)] mf(2) by (simp add: flash_fp_inv_def s'_def tlb_saved_def)
  have "flash_slots s' ! j = (flash_slots s)[i := e] ! j" if "j < 255" for j
  proof -
    have "place_entry s' (fl_tlb s ! j) = place_entry s (fl_tlb s ! j)"
      using old(2) [OF ok [OF that]] by (cases "fa_unixtime (fl_tlb s ! j) = - 1") (simp_all add: place_entry_def)
    then show ?thesis
      using slots_nth [OF inv' that] slots_nth [OF assms(1) that] nths [OF that] new(2) that
        flash_slots_length [OF assms(1)] by (cases "j = i") simp_all
  qed
  then have "flash_slots s' = (flash_slots s)[i := e]"
    using flash_slots_length [OF inv'] flash_slots_length [OF assms(1)] by (intro nth_equalityI) simp_all
  moreover have "mem_read f off k = mem_read (fl_flash s) off k" if "524288 \<le> off" for off k
    using mem_read_write_disjoint [OF mf(3), of off k] that assms(2) by simp
  then have "plan_frame s s'"
    using mf(2,4) mem_size_write [OF mf(3)] assms(1)
    by (simp add: plan_frame_def s'_def flash_fp_inv_def tlb_saved_def)
  ultimately show ?thesis using mf(1) inv' used' unfolding s'_def by blast
qed


lemma flash_fp_set_full:
  assumes "flash_fp_inv s" "used_containers s \<le> 512" "find_idx fp_free (flash_slots s) = None"
  shows "flash_storage_flight_plan_set alloc junk t (Some c) (Some a) n p nd s = Some (SCH_ST_ERROR, s)"
proof -
  have "arr_get (fl_tlb s) 255 = Some (fl_tlb s ! 255)"
    using arr_get_ok [of 255 "fl_tlb s"] assms(1) by (simp add: flash_fp_inv_def tlb_saved_def)
  then show ?thesis
    using assms(1,2) find_free [OF assms(1)] assms(3) counter_word(1) [OF assms(2)]
    unfolding flash_storage_flight_plan_set_def flash_storage_flight_plan_set_st_def flash_config
    by (simp add: flash_fp_inv_def flash_config)
qed

text \<open>With the section full, the code reads the address of a second section from an array of one.\<close>

lemma flash_fp_set_beyond:
  assumes "flash_fp_inv s" "used_containers s = 512" "find_idx fp_free (flash_slots s) \<noteq> None" "0 \<le> t"
  shows "flash_storage_flight_plan_set alloc junk t (Some c) (Some a) n p nd s = None"
proof -
  obtain i where i: "find_idx fp_free (flash_slots s) = Some i" using assms(3) by auto
  have le: "i < 255" "used_containers s \<le> 512"
    using find_idx_SomeD [OF i] flash_slots_length [OF assms(1)] assms(2) by auto
  have "arr_get (fl_tlb s) 255 = Some (fl_tlb s ! 255)"
    using arr_get_ok [of 255 "fl_tlb s"] assms(1) by (simp add: flash_fp_inv_def tlb_saved_def)
  moreover have "container_addr (v_i (fa_addr (fl_tlb s ! 255))) s = None"
    using container_addr_eq [of s 512] assms(1,2) counter_word(2) [OF le(2)] by (simp add: flash_fp_inv_def)
  ultimately show ?thesis
    using assms(1,2,4) find_free [OF assms(1)] i le(1) counter_word(1) [OF le(2)]
    unfolding flash_storage_flight_plan_set_def flash_storage_flight_plan_set_st_def flash_config
    by (simp add: flash_fp_inv_def flash_config)
qed

lemma find_time:
  assumes "flash_fp_inv s"
  shows "storage_flightplan_find_index_tlb t s =
     (case find_idx (\<lambda>e. unixtime e = t) (flash_slots s) of Some i \<Rightarrow> int i | None \<Rightarrow> - 1)"
  using find_slots [OF assms, of t] by (simp add: storage_flightplan_find_index_tlb_def flash_config)

lemma slot_index:
  assumes "flash_fp_inv s" "0 \<le> t" "find_idx (\<lambda>e. unixtime e = t) (flash_slots s) = Some i"
  shows "i < 255" "fa_unixtime (fl_tlb s ! i) = t" "flash_slots s ! i = place_entry s (fl_tlb s ! i)"
    "place_ok s (fl_tlb s ! i)" "arr_get (fl_tlb s) (int i) = Some (fl_tlb s ! i)"
proof -
  show i: "i < 255" using find_idx_SomeD [OF assms(3)] flash_slots_length [OF assms(1)] by auto
  show slot: "flash_slots s ! i = place_entry s (fl_tlb s ! i)" by (rule slots_nth [OF assms(1) i])
  show t: "fa_unixtime (fl_tlb s ! i) = t"
    using find_idx_SomeD [OF assms(3)] place_free [OF assms(1) i] slot by simp
  show "place_ok s (fl_tlb s ! i)" using assms(1,2) t i by (simp add: flash_fp_inv_def)
  show "arr_get (fl_tlb s) (int i) = Some (fl_tlb s ! i)"
    using assms(1) i by (intro arr_get_ok) (simp add: flash_fp_inv_def tlb_saved_def)
qed

lemma flash_fp_get_args:
  assumes "flash_fp_inv s" "alloc 512" "0 \<le> t" "find_idx (\<lambda>e. unixtime e = t) (flash_slots s) = Some i"
  shows "flash_storage_flight_plan_get_args alloc t s =
     Some (SCH_ST_OK, Some (the (fp_cmd (flash_slots s ! i)), the (fp_args (flash_slots s ! i)),
        executions (flash_slots s ! i), periodical (flash_slots s ! i), node (flash_slots s ! i)))"
proof -
  note si = slot_index [OF assms(1,3,4)]
  have ne: "fa_unixtime (fl_tlb s ! i) \<noteq> - 1" "used_containers s \<le> 512" using si(2) assms(1,3) by (auto simp: flash_fp_inv_def)
  obtain j e c a where j: "uint (fa_addr (fl_tlb s ! i)) = 262144 + 512 * int j" "row_ok e c a"
      "place_entry s (fl_tlb s ! i) = e" "mem_read (fl_flash s) (262144 + 512 * int j) 512 = Some (container_bytes e c a)"
    using place_entry_ok [OF si(4) ne] by metis
  have "storage_read_flash (uint (fa_addr (fl_tlb s ! i))) 512 s = Some (container_bytes e c a)"
    using j(1,4) by (simp add: storage_read_flash_def)
  then have "flash_storage_flight_plan_get_idx alloc (int i) s = Some (SCH_ST_OK, Some e)"
    using si(1,5) ne(1) assms(1,2) container_fields [OF j(2)] j(2)
    by (simp add: flash_storage_flight_plan_get_idx_def flash_config flash_fp_inv_def require_def row_ok_def)
  then show ?thesis
    using find_time [OF assms(1), of t] assms(4) j(2,3) si(3)
    by (simp add: flash_storage_flight_plan_get_args_def flash_storage_flight_plan_get_st_def Let_def row_ok_def
        require_def ST_CMD_MAX_def)
qed

lemma flash_fp_absent:
  assumes "flash_fp_inv s" "find_idx (\<lambda>e. unixtime e = t) (flash_slots s) = None"
  shows "flash_storage_flight_plan_get_args alloc t s = Some (SCH_ST_ERROR, None)"
    "flash_storage_flight_plan_delete_row t s = Some (SCH_ST_ERROR, s)"
  using find_time [OF assms(1), of t] assms(2)
  by (simp_all add: flash_storage_flight_plan_get_args_def flash_storage_flight_plan_get_st_def
      flash_storage_flight_plan_delete_row_def Let_def flash_config)

lemma flash_fp_delete:
  assumes "flash_fp_inv s" "0 \<le> t" "find_idx (\<lambda>e. unixtime e = t) (flash_slots s) = Some i"
  shows "\<exists>s'. flash_storage_flight_plan_delete_row t s = Some (SCH_ST_OK, s') \<and> flash_fp_inv s' \<and>
     flash_slots s' = (flash_slots s)[i := fp_entry_clear (flash_slots s ! i)] \<and>
     used_containers s' = used_containers s \<and> plan_frame s s'"
proof -
  note si = slot_index [OF assms]
  let ?tlb = "(fl_tlb s)[i := \<lparr>fa_addr = of_i (- 1), fa_unixtime = - 1\<rparr>]"
  have s: "mem_size (fl_fram s) = 32768" "length (fl_tlb s) = 256" using assms(1) by (simp_all add: flash_fp_inv_def tlb_saved_def)
  obtain m where m: "storage_flightplan_dump_tlb (int i) (s\<lparr>fl_tlb := ?tlb\<rparr>) = Some (SCH_ST_OK, s\<lparr>fl_tlb := ?tlb, fl_fram := m\<rparr>)"
      "mem_size m = 32768"
      "\<And>j. mem_read m (30720 + int j * 8) 8 =
        (if j = i then Some (fp_addr_bytes (?tlb ! i)) else mem_read (fl_fram s) (30720 + int j * 8) 8)"
      "\<And>off k. off + int k \<le> 30720 \<Longrightarrow> mem_read m off k = mem_read (fl_fram s) off k"
    using dump_entry [of "s\<lparr>fl_tlb := ?tlb\<rparr>" i] s si(1) by fastforce
  define s' where "s' = s\<lparr>fl_tlb := ?tlb, fl_fram := m\<rparr>"
  have "arr_set (fl_tlb s) (int i) \<lparr>fa_addr = of_i (- 1), fa_unixtime = - 1\<rparr> = Some ?tlb" using s(2) si(1) by simp
  then have del: "flash_storage_flight_plan_delete_row t s = Some (SCH_ST_OK, s')"
    using find_time [OF assms(1), of t] assms(1,3) si(1) m(1)
    by (simp add: flash_storage_flight_plan_delete_row_def flash_storage_flight_plan_delete_row_idx_def
        flight_plan_erase_index_tlb_def flash_config flash_fp_inv_def s'_def Let_def)
  have used: "used_containers s' = used_containers s" using si(1) by (simp add: s'_def used_containers_def)
  have nths: "fl_tlb s' ! j = (if j = i then \<lparr>fa_addr = of_i (- 1), fa_unixtime = - 1\<rparr> else fl_tlb s ! j)" if "j < 256" for j
    using that s(2) by (simp add: s'_def nth_list_update)
  have saved: "tlb_saved s'"
    using assms(1) m(2,3) s(2) nths by (auto simp: tlb_saved_def flash_fp_inv_def s'_def in_int_def)
  have same: "place_ok s' q = place_ok s q" "place_entry s' q = place_entry s q" for q
    using used by (simp_all add: place_ok_def place_entry_def s'_def)
  have inv': "flash_fp_inv s'"
    using assms(1) saved used nths same(1) by (simp add: flash_fp_inv_def s'_def)
  have "flash_slots s' ! j = (flash_slots s)[i := fp_entry_clear (flash_slots s ! i)] ! j" if "j < 255" for j
    using slots_nth [OF inv' that] slots_nth [OF assms(1) that] nths [of j] same(2) that flash_slots_length [OF assms(1)]
      fp_entry_clear_const
    by (cases "j = i") (auto simp: place_entry_def)
  then have "flash_slots s' = (flash_slots s)[i := fp_entry_clear (flash_slots s ! i)]"
    using flash_slots_length [OF inv'] flash_slots_length [OF assms(1)] by (intro nth_equalityI) simp_all
  moreover have "plan_frame s s'" using m(2,4) s(1) by (simp add: plan_frame_def s'_def)
  ultimately show ?thesis using del inv' used by blast
qed


section \<open>Reset and power loss\<close>

lemma nth_block:
  assumes "\<forall>x \<in> set xs. length x = n" "i < length xs"
  shows "take n (drop (n * i) (concat xs)) = xs ! i"
  using assms
proof (induction xs arbitrary: i)
  case (Cons x xs)
  then show ?case by (cases i) auto
qed simp

lemma dump_all:
  assumes "mem_size (fl_fram s) = 32768" "length (fl_tlb s) = 256" "\<forall>e \<in> set (fl_tlb s). in_int (fa_unixtime e)"
  shows "\<exists>m. storage_flightplan_dump_tlb (- 1) s = Some (SCH_ST_OK, s\<lparr>fl_fram := m\<rparr>) \<and> tlb_saved (s\<lparr>fl_fram := m\<rparr>) \<and>
     (\<forall>off k. off + int k \<le> 30720 \<longrightarrow> mem_read m off k = mem_read (fl_fram s) off k)"
proof -
  let ?bs = "concat (map fp_addr_bytes (fl_tlb s))"
  have len: "length ?bs = 2048" using length_concat_same [of "map fp_addr_bytes (fl_tlb s)" 8] assms(2) by simp
  then obtain m where m: "mem_write (fl_fram s) 30720 ?bs = Some m"
    using mem_write_ok [of 30720 ?bs "fl_fram s"] assms(1) by auto
  have "mem_read m (30720 + int i * 8) 8 = Some (fp_addr_bytes (fl_tlb s ! i))" if "i < 256" for i
  proof -
    have "mem_read m (30720 + int i * 8) 8 = Some (take 8 (drop (8 * i) ?bs))"
      using mem_read_write_inside [OF m, of "30720 + int i * 8" 8] that len by (simp add: nat_mult_distrib mult.commute)
    also have "take 8 (drop (8 * i) ?bs) = fp_addr_bytes (fl_tlb s ! i)"
      using nth_block [of "map fp_addr_bytes (fl_tlb s)" 8 i] that assms(2) by simp
    finally show ?thesis .
  qed
  then have "tlb_saved (s\<lparr>fl_fram := m\<rparr>)"
    using assms mem_size_write [OF m] by (auto simp: tlb_saved_def)
  moreover have "storage_flightplan_dump_tlb (- 1) s = Some (SCH_ST_OK, s\<lparr>fl_fram := m\<rparr>)"
    using m by (simp add: storage_flightplan_dump_tlb_def storage_write_fram_def tlb_start_eq)
  moreover have "\<forall>off k. off + int k \<le> 30720 \<longrightarrow> mem_read m off k = mem_read (fl_fram s) off k"
    using mem_read_write_disjoint [OF m] by simp
  ultimately show ?thesis by blast
qed

definition no_place :: fp_addr where
  "no_place = \<lparr>fa_addr = of_i (- 1), fa_unixtime = - 1\<rparr>"

lemma flash_fp_reset:
  assumes "fl_open s" "fl_pay_addr s \<noteq> CNull" "fl_fp_addr s = CLive [262144]" "fl_fp_base s = 262144" "fl_fp_entries s = 255"
    and "mem_size (fl_flash s) = 67108864" "mem_size (fl_fram s) = 32768"
  shows "\<exists>s'. flash_storage_flight_plan_reset s = Some (SCH_ST_OK, s') \<and> flash_fp_inv s' \<and>
     plan (flash_slots s') = {#} \<and> used_containers s' = 0 \<and> plan_frame s s'"
proof -
  let ?tlb = "replicate 255 no_place @ [\<lparr>fa_addr = 0, fa_unixtime = 0\<rparr>]"
  obtain f where f: "storage_erase_flash 262144 s = Some (s\<lparr>fl_flash := f\<rparr>)" "mem_size f = 67108864"
      "\<And>a. mem_at f a = (if 262144 \<le> a \<and> a < 524288 then 0 else mem_at (fl_flash s) a)"
    using erase_section [OF assms(6), of 1] by auto
  have "length ?tlb = 256" "\<forall>e \<in> set ?tlb. in_int (fa_unixtime e)" by (auto simp: no_place_def in_int_def)
  then obtain m where m: "storage_flightplan_dump_tlb (- 1) (s\<lparr>fl_flash := f, fl_tlb := ?tlb\<rparr>) =
        Some (SCH_ST_OK, s\<lparr>fl_flash := f, fl_tlb := ?tlb, fl_fram := m\<rparr>)"
      "tlb_saved (s\<lparr>fl_flash := f, fl_tlb := ?tlb, fl_fram := m\<rparr>)"
      "\<forall>off k. off + int k \<le> 30720 \<longrightarrow> mem_read m off k = mem_read (fl_fram s) off k"
    using dump_all [of "s\<lparr>fl_flash := f, fl_tlb := ?tlb\<rparr>"] assms(7) by auto
  define s' where "s' = s\<lparr>fl_flash := f, fl_tlb := ?tlb, fl_fram := m\<rparr>"
  have sec: "st_flightplan_sections = 1" by (simp add: st_flightplan_sections_def config_defs)
  have "flash_storage_flight_plan_reset s = Some (SCH_ST_OK, s')"
    unfolding flash_storage_flight_plan_reset_def sec flash_config Let_def no_place_def [symmetric]
    using assms(1-3) f(1) m(1) by (simp add: live_def require_def s'_def flash_config)
  moreover have tlb: "fl_tlb s' ! i = (if i < 255 then no_place else \<lparr>fa_addr = 0, fa_unixtime = 0\<rparr>)" if "i < 256" for i
    using that by (auto simp: s'_def nth_append)
  have used: "used_containers s' = 0" using tlb [of 255] by (simp add: used_containers_def)
  have inv: "flash_fp_inv s'"
    using assms f(2) m(2) used tlb by (simp add: flash_fp_inv_def s'_def no_place_def)
  have "fp_free e" if "e \<in> set (flash_slots s')" for e
    using that by (auto simp: flash_slots_def s'_def place_entry_def no_place_def fp_free_def config_defs)
  then have "plan (flash_slots s') = {#}" by (auto simp: plan_def fp_used_def filter_empty_conv)
  moreover have "mem_read f off k = mem_read (fl_flash s) off k" if "524288 \<le> off" for off k
    using f(2,3) assms(6) that by (auto simp: mem_read_def)
  then have "plan_frame s s'"
    using f(2) m(2,3) assms(6,7) by (simp add: plan_frame_def s'_def tlb_saved_def)
  ultimately show ?thesis using inv used by blast
qed

text \<open>
  Power off and on: the memories stay, every variable is as at the start of the program. This is the board with its
  chips (\<^verbatim>\<open>NANOMIND\<close>); in the debug build for a host storage_flash.c puts static arrays in their place, which
  are lost with the process.
\<close>

definition power_cycle :: "flash \<Rightarrow> flash" where
  "power_cycle s = flash_zero\<lparr>fl_flash := fl_flash s, fl_fram := fl_fram s\<rparr>"

definition booted :: "flash \<Rightarrow> flash" where
  "booted s = (power_cycle s)\<lparr>fl_open := True, fl_fp_base := 262144, fl_pay_base := 524288, fl_pay_entries := 1,
     fl_pay_sections := 10, fl_pay_addr := CLive (map (\<lambda>i. 524288 + int i * 262144) [0..<10]),
     fl_fp_entries := 255, fl_fp_addr := CLive [262144], fl_tlb := fl_tlb s\<rparr>"

lemma flash_repo_init:
  assumes "tlb_saved s" "\<forall>n. alloc n"
  shows "dat_repo_init False (flash_cfg alloc junk tr) (power_cycle s) = Some (booted s)"
proof -
  let ?s1 = "(power_cycle s)\<lparr>fl_open := True, fl_fp_base := 262144, fl_pay_base := 524288\<rparr>"
  have sec: "st_flightplan_sections = 1" by (simp add: st_flightplan_sections_def config_defs)
  have init: "flash_storage_init (power_cycle s) = Some (SCH_ST_OK, ?s1)"
    by (simp add: flash_storage_init_def power_cycle_def flash_zero_def sec config_defs in_int_def)
  let ?a = "map (\<lambda>i. 524288 + int i * 262144) [0..<10]"
  have a: "section_addrs 524288 10 = Some ?a" "section_addrs 262144 1 = Some [262144]"
    by (simp_all add: section_addrs_def require_def config_defs in_int_def)
  let ?s2 = "?s1\<lparr>fl_pay_entries := 1, fl_pay_sections := 10, fl_pay_addr := CLive ?a\<rparr>"
  have pay: "flash_storage_table_payload_init alloc 1 False ?s1 = Some (0, ?s2)"
    using assms(2) a(1) by (simp add: flash_storage_table_payload_init_def power_cycle_def flash_zero_def require_def
        SCH_SECTIONS_PER_PAYLOAD_def in_int_def)
  let ?s3 = "?s2\<lparr>fl_fp_entries := 255, fl_fp_addr := CLive [262144], fl_tlb := fl_tlb s\<rparr>"
  have "tlb_saved ?s3" using assms(1) by (simp add: tlb_saved_def power_cycle_def)
  note load = load_saved [OF this, of "replicate 256 no_place"]
  have fp: "flash_storage_table_flight_plan_init alloc 255 False ?s2 = Some (SCH_ST_OK, ?s3)"
    using assms(2) a(2) load
    by (simp add: flash_storage_table_flight_plan_init_def power_cycle_def flash_zero_def require_def sec flash_config
        no_place_def)
  have ops: "op_init (flash_cfg alloc junk tr) = flash_storage_init"
      "op_status_init (flash_cfg alloc junk tr) = flash_storage_table_status_init"
      "op_fp_init (flash_cfg alloc junk tr) = flash_storage_table_flight_plan_init alloc"
      "op_payload_init (flash_cfg alloc junk tr) = flash_storage_table_payload_init alloc"
    by (simp_all add: flash_cfg_def flash_ops_def storage_ops.defs)
  show ?thesis
    using init pay fp
    by (simp add: dat_repo_init_def ops flash_storage_table_status_init_def last_sensor_def flash_config booted_def Let_def)
qed


lemma booted_same:
  assumes "flash_fp_inv s"
  shows "flash_fp_inv (booted s)" "flash_slots (booted s) = flash_slots s" "used_containers (booted s) = used_containers s"
    "flash_vars n (booted s) = flash_vars n s" "flash_samples dms (booted s) = flash_samples dms s"
proof -
  have mems: "fl_flash (booted s) = fl_flash s" "fl_fram (booted s) = fl_fram s" "fl_tlb (booted s) = fl_tlb s"
    by (simp_all add: booted_def power_cycle_def)
  show used: "used_containers (booted s) = used_containers s" by (simp add: used_containers_def mems)
  have "place_ok (booted s) = place_ok s" "tlb_saved (booted s) = tlb_saved s"
    by (simp_all add: fun_eq_iff place_ok_def tlb_saved_def mems used)
  then show "flash_fp_inv (booted s)"
    using assms used mems by (simp add: flash_fp_inv_def) (simp add: booted_def)
  have "place_entry (booted s) = place_entry s" by (simp add: fun_eq_iff place_entry_def mems)
  then show "flash_slots (booted s) = flash_slots s" by (simp add: flash_slots_def mems)
  show "flash_vars n (booted s) = flash_vars n s" "flash_samples dms (booted s) = flash_samples dms s"
    by (simp_all add: flash_vars_def flash_samples_def fun_eq_iff mems)
qed

lemma flash_data_map: "flash_sizes_ok data_map"
  by (simp add: flash_sizes_ok_def data_map_def)

lemma booted_inv:
  assumes "mem_size (fl_flash s) = 67108864" "mem_size (fl_fram s) = 32768" "n \<le> 7680"
  shows "flash_inv data_map n (booted s)"
  using assms flash_data_map
  by (simp add: flash_inv_def booted_def power_cycle_def data_map_def)

text \<open>A node that was never used: the memories are zero. Start-up, then a reset of the flight plan.\<close>

lemma zero_saved: "tlb_saved flash_zero"
proof -
  have z: "fp_addr_bytes \<lparr>fa_addr = 0, fa_unixtime = 0\<rparr> = [0, 0, 0, 0, 0, 0, 0, 0]"
    by (simp add: fp_addr_bytes_def le32_def of_i_def)
  have tlb: "fl_tlb flash_zero = replicate 256 \<lparr>fa_addr = 0, fa_unixtime = 0\<rparr>"
      "mem_size (fl_fram flash_zero) = 32768" by (simp_all add: flash_zero_def)
  have e: "fl_tlb flash_zero ! i = \<lparr>fa_addr = 0, fa_unixtime = 0\<rparr>" if "i < 256" for i
    unfolding tlb by (rule nth_replicate [OF that])
  have l: "length (fl_tlb flash_zero) = 256" unfolding tlb by (rule length_replicate)
  have "mem_read (fl_fram flash_zero) (30720 + int i * 8) 8 = Some [0, 0, 0, 0, 0, 0, 0, 0]" if "i < 256" for i
    using that by (simp add: mem_read_def flash_zero_def upt_rec)
  then show ?thesis
    unfolding tlb_saved_def using tlb(2) l e z by (simp add: in_int_def)
qed

lemma flash_first_start:
  assumes "\<forall>n. alloc n"
  obtains s0 s where "dat_repo_init False (flash_cfg alloc junk tr) flash_zero = Some s0"
    "flash_storage_flight_plan_reset s0 = Some (SCH_ST_OK, s)" "flash_fp_inv s" "plan (flash_slots s) = {#}"
    "used_containers s = 0" "flash_inv data_map (n_copies tr) s"
proof -
  have z: "power_cycle flash_zero = flash_zero" by (simp add: power_cycle_def)
  have init: "dat_repo_init False (flash_cfg alloc junk tr) flash_zero = Some (booted flash_zero)"
    using flash_repo_init [OF zero_saved assms] unfolding z .
  have f: "fl_open (booted flash_zero)" "fl_pay_addr (booted flash_zero) \<noteq> CNull" "fl_fp_addr (booted flash_zero) = CLive [262144]"
      "fl_fp_base (booted flash_zero) = 262144" "fl_fp_entries (booted flash_zero) = 255"
      "mem_size (fl_flash (booted flash_zero)) = 67108864" "mem_size (fl_fram (booted flash_zero)) = 32768"
    by (simp_all add: booted_def power_cycle_def flash_zero_def)
  from flash_fp_reset [OF f] obtain s where
      s: "flash_storage_flight_plan_reset (booted flash_zero) = Some (SCH_ST_OK, s)" "flash_fp_inv s"
        "plan (flash_slots s) = {#}" "used_containers s = 0" "plan_frame (booted flash_zero) s" by blast
  have "flash_inv data_map (n_copies tr) s"
    by (rule plan_frame_inv [OF s(5)], rule booted_inv) (simp_all add: flash_zero_def n_copies_def)
  then show thesis using that [OF init s(1-4)] by blast
qed

lemma flash_fp_set_empty:
  assumes "flash_fp_inv s" "used_containers s < 512" "plan (flash_slots s) = {#}" "0 \<le> t" "alloc 512"
    and "row_ok \<lparr>unixtime = t, executions = n, periodical = p, node = nd, fp_cmd = Some c, fp_args = Some a\<rparr> c a"
  shows "\<exists>s1. flash_storage_flight_plan_set alloc junk t (Some c) (Some a) n p nd s = Some (SCH_ST_OK, s1) \<and>
     flash_fp_inv s1 \<and> used_containers s1 = used_containers s + 1 \<and> plan (flash_slots s1) =
       {#\<lparr>unixtime = t, executions = n, periodical = p, node = nd, fp_cmd = Some c, fp_args = Some a\<rparr>#}"
proof -
  let ?e = "\<lparr>unixtime = t, executions = n, periodical = p, node = nd, fp_cmd = Some c, fp_args = Some a\<rparr>"
  note len = flash_slots_length [OF assms(1)]
  obtain i where i: "find_idx fp_free (flash_slots s) = Some i"
    using plan_full [of "flash_slots s"] len assms(3) by (cases "find_idx fp_free (flash_slots s)") auto
  from flash_fp_set [where alloc = alloc and junk = junk, OF assms(1,2) i refl assms(6,4,5)] obtain s1 where
      s1: "flash_storage_flight_plan_set alloc junk t (Some c) (Some a) n p nd s = Some (SCH_ST_OK, s1)" "flash_fp_inv s1"
        "flash_slots s1 = (flash_slots s)[i := ?e]" "used_containers s1 = used_containers s + 1" by blast
  have il: "i < length (flash_slots s)" "fp_free (flash_slots s ! i)" using find_idx_SomeD [OF i] by auto
  have "\<not> fp_free ?e" using assms(4) by (simp add: fp_free_def config_defs)
  then have "plan (flash_slots s1) = {#?e#}"
    using plan_update [of i "flash_slots s" ?e] il assms(3) by (simp add: s1(3))
  then show ?thesis using s1 by auto
qed

section \<open>Properties\<close>

text \<open>
  C3: The flight plan in the flash is a multiset of entries. As long as fewer than 512 entries were set since the
  plan was last reset, setting an entry (with strings of less than 248 characters) adds exactly it
  if one of the 255 places is free and is an error that changes nothing if none is; looking up and
  deleting give and take out one entry of the time asked for, or are errors without effect. Status
  variables and payload samples in the same memories keep their values.
\<close>

theorem flash_plan_refines:
  assumes "flash_fp_inv s" "used_containers s < 512" "0 \<le> t" "alloc 512"
    and "row_ok \<lparr>unixtime = t, executions = n, periodical = p, node = nd, fp_cmd = Some c, fp_args = Some a\<rparr> c a"
  shows "(\<exists>s'. flash_storage_flight_plan_set alloc junk t (Some c) (Some a) n p nd s =
       Some (if size (plan (flash_slots s)) < 255 then SCH_ST_OK else SCH_ST_ERROR, s') \<and> flash_fp_inv s' \<and>
     plan (flash_slots s') = (if size (plan (flash_slots s)) < 255
        then add_mset \<lparr>unixtime = t, executions = n, periodical = p, node = nd, fp_cmd = Some c, fp_args = Some a\<rparr>
               (plan (flash_slots s))
        else plan (flash_slots s)) \<and>
     flash_vars 7680 s' = flash_vars 7680 s \<and> flash_samples data_map s' = flash_samples data_map s) \<and>
    (if \<exists>e \<in># plan (flash_slots s). unixtime e = t
     then \<exists>e s'. unixtime e = t \<and>
        flash_storage_flight_plan_get_args alloc t s =
          Some (SCH_ST_OK, Some (the (fp_cmd e), the (fp_args e), executions e, periodical e, node e)) \<and>
        flash_storage_flight_plan_delete_row t s = Some (SCH_ST_OK, s') \<and> flash_fp_inv s' \<and>
        plan (flash_slots s) = add_mset e (plan (flash_slots s')) \<and>
        flash_vars 7680 s' = flash_vars 7680 s \<and> flash_samples data_map s' = flash_samples data_map s
     else flash_storage_flight_plan_get_args alloc t s = Some (SCH_ST_ERROR, None) \<and>
        flash_storage_flight_plan_delete_row t s = Some (SCH_ST_ERROR, s))" (is "?set \<and> ?get")
proof
  let ?e = "\<lparr>unixtime = t, executions = n, periodical = p, node = nd, fp_cmd = Some c, fp_args = Some a\<rparr>"
  note len = flash_slots_length [OF assms(1)]
  show ?set
  proof (cases "find_idx fp_free (flash_slots s)")
    case None
    then have "size (plan (flash_slots s)) = 255" using plan_full [of "flash_slots s"] len by simp
    then show ?thesis using flash_fp_set_full [OF assms(1) _ None] assms(1,2) by auto
  next
    case (Some i)
    then have "size (plan (flash_slots s)) \<noteq> 255" using plan_full [of "flash_slots s"] len by simp
    then have lt: "size (plan (flash_slots s)) < 255" using size_plan_le [of "flash_slots s"] len by simp
    have i: "i < 255" "fp_free (flash_slots s ! i)" using find_idx_SomeD [OF Some] len by auto
    from flash_fp_set [where alloc = alloc and junk = junk, OF assms(1,2) Some refl assms(5,3,4)] obtain s' where
        s': "flash_storage_flight_plan_set alloc junk t (Some c) (Some a) n p nd s = Some (SCH_ST_OK, s')" "flash_fp_inv s'"
          "flash_slots s' = (flash_slots s)[i := ?e]" "plan_frame s s'" by blast
    have "\<not> fp_free ?e" using assms(3) by (simp add: fp_free_def config_defs)
    then have "plan (flash_slots s') = add_mset ?e (plan (flash_slots s))"
      using plan_update [of i "flash_slots s" ?e] i len by (simp add: s'(3))
    then show ?thesis
      using s'(1,2) lt plan_frame_vars [OF s'(4), of 7680] plan_frame_samples [OF s'(4), of data_map] by auto
  qed
  show ?get
  proof (cases "find_idx (\<lambda>e. unixtime e = t) (flash_slots s)")
    case None
    then show ?thesis using find_time_plan [OF assms(3)] flash_fp_absent [OF assms(1) None] by auto
  next
    case (Some i)
    let ?f = "flash_slots s ! i"
    have f: "?f \<in># plan (flash_slots s)" "unixtime ?f = t" using find_time_in_plan [OF assms(3) Some] by auto
    have i: "i < length (flash_slots s)" "\<not> fp_free ?f"
      using find_idx_SomeD [OF Some] f(2) assms(3) by (auto simp: fp_free_def config_defs)
    from flash_fp_delete [OF assms(1,3) Some] obtain s' where
        s': "flash_storage_flight_plan_delete_row t s = Some (SCH_ST_OK, s')" "flash_fp_inv s'"
          "flash_slots s' = (flash_slots s)[i := fp_entry_clear ?f]" "plan_frame s s'" by blast
    have "plan (flash_slots s) = add_mset ?f (plan (flash_slots s'))"
      using plan_update [of i "flash_slots s" "fp_entry_clear ?f"] i f(1) by (simp add: s'(3))
    then show ?thesis
      using f s'(1,2) flash_fp_get_args [where alloc = alloc, OF assms(1,4,3) Some] plan_frame_vars [OF s'(4), of 7680]
        plan_frame_samples [OF s'(4), of data_map] by (auto intro!: exI [of _ ?f])
  qed
qed


theorem flash_plan_refines_witness:
  "\<exists>s0 s s'. dat_repo_init False (flash_cfg alloc_all None True) flash_zero = Some s0 \<and>
     flash_storage_flight_plan_reset s0 = Some (SCH_ST_OK, s) \<and>
     flash_storage_flight_plan_set alloc_all None 100 (Some ''obc_ident'') (Some '''') 1 0 1 s = Some (SCH_ST_OK, s') \<and>
     plan (flash_slots s') = {#\<lparr>unixtime = 100, executions = 1, periodical = 0, node = 1,
        fp_cmd = Some ''obc_ident'', fp_args = Some ''''\<rparr>#}"
proof (rule flash_first_start [where alloc = alloc_all and junk = None and tr = True])
  show "\<forall>n. alloc_all n" by (simp add: alloc_all_def)
  fix s0 s
  assume s: "dat_repo_init False (flash_cfg alloc_all None True) flash_zero = Some s0"
    "flash_storage_flight_plan_reset s0 = Some (SCH_ST_OK, s)" "flash_fp_inv s" "plan (flash_slots s) = {#}"
    "used_containers s = 0"
  have "row_ok \<lparr>unixtime = 100, executions = 1, periodical = 0, node = 1, fp_cmd = Some ''obc_ident'',
      fp_args = Some ''''\<rparr> ''obc_ident'' ''''"
    by (simp add: row_ok_def in_int_def)
  from flash_plan_refines [where alloc = alloc_all and junk = None, OF s(3) _ _ _ this] s(4,5)
  show ?thesis using s(1,2) by (auto simp: alloc_all_def)
qed

lemma slots_find_cong:
  assumes "flash_slots s' = flash_slots s" "flash_fp_inv s" "flash_fp_inv s'" "0 \<le> t" "alloc 512"
  shows "flash_storage_flight_plan_get_args alloc t s' = flash_storage_flight_plan_get_args alloc t s"
proof (cases "find_idx (\<lambda>e. unixtime e = t) (flash_slots s)")
  case None
  then show ?thesis
    using flash_fp_absent(1) [OF assms(2) None, of alloc] flash_fp_absent(1) [of s' t alloc] assms(1,3) by simp
next
  case (Some i)
  then show ?thesis
    using flash_fp_get_args [where alloc = alloc, OF assms(2,5,4) Some]
      flash_fp_get_args [where alloc = alloc, OF assms(3,5,4), of i] assms(1) by simp
qed

text \<open>
  C8: The data repository in the flash and the FRAM survives a loss of power. If the node is switched
  off in any state that the flight plan operations leave and started again without the order to drop
  its tables, start-up succeeds and every flight plan entry, every status variable and every payload
  sample is what it was; looking up any time in the plan gives the answer it gave before.
\<close>

theorem flash_survives_power_cycle:
  assumes "flash_fp_inv s" "\<forall>n. alloc n"
  shows "\<exists>s'. dat_repo_init False (flash_cfg alloc junk tr) (power_cycle s) = Some s' \<and> flash_fp_inv s' \<and>
     flash_slots s' = flash_slots s \<and> flash_vars 7680 s' = flash_vars 7680 s \<and>
     flash_samples data_map s' = flash_samples data_map s \<and>
     (\<forall>t. 0 \<le> t \<longrightarrow> flash_storage_flight_plan_get_args alloc t s' = flash_storage_flight_plan_get_args alloc t s)"
proof (intro exI conjI allI impI)
  show "dat_repo_init False (flash_cfg alloc junk tr) (power_cycle s) = Some (booted s)"
    using flash_repo_init [OF _ assms(2)] assms(1) by (simp add: flash_fp_inv_def)
  note b = booted_same [OF assms(1)]
  show "flash_fp_inv (booted s)" "flash_slots (booted s) = flash_slots s" by (rule b)+
  show "flash_vars 7680 (booted s) = flash_vars 7680 s" "flash_samples data_map (booted s) = flash_samples data_map s"
    by (rule b)+
  fix t :: int
  assume "0 \<le> t"
  with slots_find_cong [where alloc = alloc, OF b(2) assms(1) b(1)] assms(2)
  show "flash_storage_flight_plan_get_args alloc t (booted s) = flash_storage_flight_plan_get_args alloc t s" by blast
qed

theorem flash_survives_power_cycle_witness:
  "\<exists>s s'. dat_repo_init False (flash_cfg alloc_all None True) (power_cycle s) = Some s' \<and>
     plan (flash_slots s') = {#\<lparr>unixtime = 100, executions = 1, periodical = 0, node = 1,
        fp_cmd = Some ''obc_ident'', fp_args = Some ''''\<rparr>#}"
proof (rule flash_first_start [where alloc = alloc_all and junk = None and tr = True])
  show a: "\<forall>n. alloc_all n" by (simp add: alloc_all_def)
  fix s0 s
  assume s: "flash_fp_inv s" "plan (flash_slots s) = {#}" "used_containers s = 0"
  have "row_ok \<lparr>unixtime = 100, executions = 1, periodical = 0, node = 1, fp_cmd = Some ''obc_ident'',
      fp_args = Some ''''\<rparr> ''obc_ident'' ''''"
    by (simp add: row_ok_def in_int_def)
  from flash_fp_set_empty [where alloc = alloc_all and junk = None, OF s(1) _ s(2) _ _ this] s(3) a
  obtain s1 where s1: "flash_fp_inv s1" "plan (flash_slots s1) = {#\<lparr>unixtime = 100, executions = 1, periodical = 0,
      node = 1, fp_cmd = Some ''obc_ident'', fp_args = Some ''''\<rparr>#}" by auto
  from flash_survives_power_cycle [where alloc = alloc_all and junk = None and tr = True, OF s1(1) a] s1(2)
  show ?thesis by metis
qed

section \<open>The 513th container\<close>

text \<open>A client that sets an entry and takes it out again, k times.\<close>

fun set_delete_rounds :: "(nat \<Rightarrow> bool) \<Rightarrow> byte list option \<Rightarrow> int \<Rightarrow> string \<Rightarrow> string \<Rightarrow> nat \<Rightarrow> flash \<Rightarrow> flash option" where
  "set_delete_rounds alloc junk t c a 0 s = Some s"
| "set_delete_rounds alloc junk t c a (Suc k) s =
     do { (rc, s1) \<leftarrow> flash_storage_flight_plan_set alloc junk t (Some c) (Some a) 1 0 1 s;
          (rc', s2) \<leftarrow> flash_storage_flight_plan_delete_row t s1;
          set_delete_rounds alloc junk t c a k s2 }"

lemma set_delete_round:
  assumes "flash_fp_inv s" "used_containers s < 512" "plan (flash_slots s) = {#}" "0 \<le> t" "alloc 512"
    and "row_ok \<lparr>unixtime = t, executions = 1, periodical = 0, node = 1, fp_cmd = Some c, fp_args = Some a\<rparr> c a"
  shows "\<exists>s1 s2. flash_storage_flight_plan_set alloc junk t (Some c) (Some a) 1 0 1 s = Some (SCH_ST_OK, s1) \<and>
     flash_storage_flight_plan_delete_row t s1 = Some (SCH_ST_OK, s2) \<and> flash_fp_inv s2 \<and>
     used_containers s2 = used_containers s + 1 \<and> plan (flash_slots s2) = {#}"
proof -
  let ?e = "\<lparr>unixtime = t, executions = 1, periodical = 0, node = 1, fp_cmd = Some c, fp_args = Some a\<rparr>"
  from flash_fp_set_empty [where alloc = alloc and junk = junk, OF assms] obtain s1 where
      s1: "flash_storage_flight_plan_set alloc junk t (Some c) (Some a) 1 0 1 s = Some (SCH_ST_OK, s1)" "flash_fp_inv s1"
        "used_containers s1 = used_containers s + 1" and p1: "plan (flash_slots s1) = {#?e#}" by blast
  obtain j where j: "find_idx (\<lambda>e. unixtime e = t) (flash_slots s1) = Some j"
    using find_time_plan [OF assms(4), of "flash_slots s1"] p1
    by (cases "find_idx (\<lambda>e. unixtime e = t) (flash_slots s1)") auto
  let ?f = "flash_slots s1 ! j"
  from flash_fp_delete [OF s1(2) assms(4) j] obtain s2 where
      s2: "flash_storage_flight_plan_delete_row t s1 = Some (SCH_ST_OK, s2)" "flash_fp_inv s2"
        "flash_slots s2 = (flash_slots s1)[j := fp_entry_clear ?f]" "used_containers s2 = used_containers s1" by blast
  have f: "?f \<in># plan (flash_slots s1)" using find_time_in_plan [OF assms(4) j] by auto
  have "j < length (flash_slots s1)" "\<not> fp_free ?f"
    using find_idx_SomeD [OF j] assms(4) by (auto simp: fp_free_def config_defs)
  then have "plan (flash_slots s2) = {#}"
    using plan_update [of j "flash_slots s1" "fp_entry_clear ?f"] f p1 by (simp add: s2(3))
  then show ?thesis using s1 s2 by auto
qed

lemma set_delete_rounds_used:
  assumes "flash_fp_inv s" "used_containers s + k \<le> 512" "plan (flash_slots s) = {#}" "0 \<le> t" "alloc 512"
    and "row_ok \<lparr>unixtime = t, executions = 1, periodical = 0, node = 1, fp_cmd = Some c, fp_args = Some a\<rparr> c a"
  shows "\<exists>s'. set_delete_rounds alloc junk t c a k s = Some s' \<and> flash_fp_inv s' \<and>
     used_containers s' = used_containers s + k \<and> plan (flash_slots s') = {#}"
  using assms(1-3)
proof (induction k arbitrary: s)
  case (Suc k)
  from set_delete_round [where alloc = alloc and junk = junk, OF Suc.prems(1) _ Suc.prems(3) assms(4-6)] Suc.prems(2)
  obtain s1 s2 where r: "flash_storage_flight_plan_set alloc junk t (Some c) (Some a) 1 0 1 s = Some (SCH_ST_OK, s1)"
     "flash_storage_flight_plan_delete_row t s1 = Some (SCH_ST_OK, s2)" "flash_fp_inv s2"
     "used_containers s2 = used_containers s + 1" "plan (flash_slots s2) = {#}" by auto
  from Suc.IH [OF r(3) _ r(5)] r Suc.prems(2) show ?case by auto
qed simp

text \<open>
  C39: The number of flight plan entries that can be set between two resets of the plan is bounded, even if
  every entry is taken out again. After 512 rounds of setting an entry and deleting it the plan is empty,
  but the next entry makes the code read the address of a second section from its array of
  one section, an access outside the array.
\<close>

theorem flash_plan_wears_out:
  assumes "flash_fp_inv s" "used_containers s = 0" "plan (flash_slots s) = {#}" "0 \<le> t" "alloc 512"
    and "row_ok \<lparr>unixtime = t, executions = 1, periodical = 0, node = 1, fp_cmd = Some c, fp_args = Some a\<rparr> c a"
  shows "(\<forall>k < 512. \<exists>s' s1. set_delete_rounds alloc junk t c a k s = Some s' \<and>
       flash_storage_flight_plan_set alloc junk t (Some c) (Some a) 1 0 1 s' = Some (SCH_ST_OK, s1)) \<and>
     (\<exists>s'. set_delete_rounds alloc junk t c a 512 s = Some s' \<and> plan (flash_slots s') = {#} \<and>
       flash_storage_flight_plan_set alloc junk t (Some c) (Some a) 1 0 1 s' = None)"
proof (intro conjI allI impI)
  fix k :: nat
  assume k: "k < 512"
  note rounds = set_delete_rounds_used [where alloc = alloc and junk = junk, OF assms(1) _ assms(3-6)]
  from rounds [of k] k assms(2) obtain s' where s': "set_delete_rounds alloc junk t c a k s = Some s'" "flash_fp_inv s'"
      "used_containers s' = k" "plan (flash_slots s') = {#}" by auto
  from set_delete_round [where alloc = alloc and junk = junk, OF s'(2) _ s'(4) assms(4-6)] s' k
  show "\<exists>s' s1. set_delete_rounds alloc junk t c a k s = Some s' \<and>
       flash_storage_flight_plan_set alloc junk t (Some c) (Some a) 1 0 1 s' = Some (SCH_ST_OK, s1)" by blast
next
  from set_delete_rounds_used [where k = 512 and alloc = alloc and junk = junk, OF assms(1) _ assms(3-6)] assms(2)
  obtain s' where s': "set_delete_rounds alloc junk t c a 512 s = Some s'" "flash_fp_inv s'"
      "used_containers s' = 512" "plan (flash_slots s') = {#}" by auto
  have "find_idx fp_free (flash_slots s') \<noteq> None"
    using plan_full [of "flash_slots s'"] flash_slots_length [OF s'(2)] s'(4) by auto
  from flash_fp_set_beyond [OF s'(2,3) this assms(4)] s'
  show "\<exists>s'. set_delete_rounds alloc junk t c a 512 s = Some s' \<and> plan (flash_slots s') = {#} \<and>
       flash_storage_flight_plan_set alloc junk t (Some c) (Some a) 1 0 1 s' = None" by blast
qed

theorem flash_plan_wears_out_witness:
  "\<exists>s s'. set_delete_rounds alloc_all None 1 ''fp_show'' '''' 512 s = Some s' \<and>
     flash_storage_flight_plan_set alloc_all None 1 (Some ''fp_show'') (Some '''') 1 0 1 s' = None"
proof (rule flash_first_start [where alloc = alloc_all and junk = None and tr = True])
  show "\<forall>n. alloc_all n" by (simp add: alloc_all_def)
  fix s0 s
  assume s: "flash_fp_inv s" "plan (flash_slots s) = {#}" "used_containers s = 0"
  have "row_ok \<lparr>unixtime = 1, executions = 1, periodical = 0, node = 1, fp_cmd = Some ''fp_show'', fp_args = Some ''''\<rparr>
      ''fp_show'' ''''" by (simp add: row_ok_def in_int_def)
  from flash_plan_wears_out [where alloc = alloc_all and junk = None, OF s(1,3,2) _ _ this]
  show ?thesis by (auto simp: alloc_all_def)
qed

end
