(* ===== verification/Flash_Repo.thy ===== *)
theory Flash_Repo
  imports Flash_Plan
begin

text \<open>
  The data repository over the flash. The status variables and the payload samples that repoData.c keeps
  behave the same over the flash and over the RAM, for every sequence of calls that stays within the
  capacity of the flash; and that capacity is half of what the ten sections of a payload could hold, because
  the page of a sample is counted from the first section and added to the address of its own section.
\<close>

text \<open>The page of a sample is added to the address of its section: half of the space is out of reach.\<close>

lemma flash_cap_temp: "flash_cap data_map 0 = 107520"
  by (simp add: flash_cap_def temp_payload)


lemma flash_full:
  assumes "flash_inv data_map n s" "length b = 12"
  shows "flash_storage_payload_set_data 0 107520 (Some b) (data_map ! 0) s = Some (SCH_ST_ERROR, s)"
proof -
  have s: "fl_open s" "fl_fp_base s = 262144" "fl_pay_entries s = 1"
      "fl_pay_addr s = CLive (map (\<lambda>i. 524288 + int i * 262144) [0..<10])"
    using assms(1) by (simp_all add: flash_inv_def data_map_def)
  have q: "cdiv 107520 42 = Some 2560" "cmod 107520 42 = Some 0" "cdiv 107520 21504 = Some 5"
    by (subst cdiv_pos cmod_pos; simp add: in_int_def)+
  have "arr_get (map (\<lambda>i. 524288 + int i * 262144) [0..<10]) 5 = Some 1835008"
    by (simp add: arr_get_def)
  then have "flash_get_sample_address 0 107520 12 s = Some (SCH_ST_ERROR, Some 3145728)"
    using s q by (simp add: flash_get_sample_address_def require_def in_int_def live_def Let_def config_defs)
  then show ?thesis
    using s by (simp add: flash_storage_payload_set_data_def temp_payload config_defs)
qed

lemma temp_get: "arr_get data_map 0 = Some (data_map ! 0)"
  by (simp add: arr_get_def data_map_def)

lemma flash_add_full:
  assumes "flash_inv data_map (n_copies tr) s" "length b = 12"
    and "dat_get_system_var (flash_cfg alloc junk tr) dat_drp_idx_temp s = Some 107520"
  shows "dat_add_payload_sample (flash_cfg alloc junk tr) (Some b) 0 s = Some (- 1, s)"
  using assms(3) flash_full [OF assms(1,2)] assms(2)
  by (simp add: dat_add_payload_sample_def temp_get temp_payload require_def last_sensor_def config_defs)

section \<open>Properties\<close>


lemma flash_cold:
  assumes "\<forall>n. alloc n"
  shows "\<exists>f0 f. dat_repo_init False (flash_cfg alloc junk tr) flash_zero = Some f0 \<and>
     dat_reset_status_vars (flash_cfg alloc junk tr) f0 = Some (SCH_ST_OK, f) \<and> flash_inv data_map (n_copies tr) f \<and>
     (\<forall>i < 17. dat_get_status_var (flash_cfg alloc junk tr) (int i) f = Some (sv_value (dat_get_status_var_def (int i))))"
proof -
  have z: "power_cycle flash_zero = flash_zero" by (simp add: power_cycle_def)
  have init: "dat_repo_init False (flash_cfg alloc junk tr) flash_zero = Some (booted flash_zero)"
    using flash_repo_init [OF zero_saved assms] unfolding z .
  have inv: "flash_inv data_map (n_copies tr) (booted flash_zero)"
    by (rule booted_inv) (simp_all add: flash_zero_def n_copies_def)
  have "\<exists>s'. dat_reset_status_vars (flash_cfg alloc junk tr) (booted flash_zero) = Some (SCH_ST_OK, s') \<and>
      flash_inv data_map (n_copies tr) s' \<and> () = () \<and>
      (\<forall>j < 17. vote (triple_wr (flash_cfg alloc junk tr)) (flash_vars (n_copies tr) s') j =
         sv_value (dat_get_status_var_def (int j)))"
    by (rule flash_pay.reset_status [where f = "\<lambda>_. ()", OF _ inv]) simp
  then obtain f where f: "dat_reset_status_vars (flash_cfg alloc junk tr) (booted flash_zero) = Some (SCH_ST_OK, f)"
      "flash_inv data_map (n_copies tr) f"
      "\<forall>j < 17. vote tr (flash_vars (n_copies tr) f) j = sv_value (dat_get_status_var_def (int j))" by auto
  have "dat_get_status_var (flash_cfg alloc junk tr) (int i) f = Some (sv_value (dat_get_status_var_def (int i)))"
    if "i < 17" for i
    using flash_pay.get_var [OF f(2) that, of alloc junk] f(3) that by simp
  then show ?thesis using init f(1,2) by blast
qed


text \<open>
  The capacity of a payload in the flash, for the temperature payload. Its ten sections have room for
  215040 samples of 12 bytes, but only 107520 can be stored: that many, added to an empty payload, read
  back byte for byte, the newest first; the next is an error and changes nothing.
\<close>

theorem flash_payload_half:
  assumes "flash_inv data_map (n_copies tr) s"
    and "dat_get_system_var (flash_cfg alloc junk tr) dat_drp_idx_temp s = Some 0"
    and "length bs = 107520" and "\<forall>b \<in> set bs. length b = 12" and "length b = 12"
  shows "\<exists>s'. add_samples (flash_cfg alloc junk tr) 0 bs s = Some s' \<and>
     (\<forall>j < length bs. dat_get_recent_payload_sample (flash_cfg alloc junk tr) 0 (int j) s' =
        Some (SCH_ST_OK, Some (rev bs ! j))) \<and>
     dat_add_payload_sample (flash_cfg alloc junk tr) (Some b) 0 s' = Some (- 1, s')"
proof -
  have "length bs \<le> flash_cap data_map 0" "\<forall>b \<in> set bs. length b = dm_size (data_map ! 0)"
    using assms(3,4) by (simp_all add: flash_cap_temp temp_payload)
  from flash_pay.added_samples_recent [OF assms(1,2) this] obtain s' where
      s': "add_samples (flash_cfg alloc junk tr) 0 bs s = Some s'" "flash_pay.sampling alloc junk tr s'"
        "dat_get_system_var (flash_cfg alloc junk tr) dat_drp_idx_temp s' = Some 107520"
        "\<forall>j < length bs. dat_get_recent_payload_sample (flash_cfg alloc junk tr) 0 (int j) s' =
           Some (SCH_ST_OK, Some (rev bs ! j))"
    using assms(3) by auto
  have inv: "flash_inv data_map (n_copies tr) s'" using s'(2) by (simp add: flash_pay.sampling_def)
  have "dat_add_payload_sample (flash_cfg alloc junk tr) (Some b) 0 s' = Some (- 1, s')"
    using inv assms(5) s'(3) by (rule flash_add_full)
  then show ?thesis using s'(1,4) by blast
qed

theorem flash_payload_half_witness:
  "\<exists>s s'. add_samples (flash_cfg alloc_all None True) 0 (replicate 107520 (replicate 12 5)) s = Some s' \<and>
     dat_add_payload_sample (flash_cfg alloc_all None True) (Some (replicate 12 6)) 0 s' = Some (- 1, s')"
proof -
  obtain f where f: "flash_inv data_map (n_copies True) f"
      "\<forall>i < 17. dat_get_status_var (flash_cfg alloc_all None True) (int i) f = Some (sv_value (dat_get_status_var_def (int i)))"
    using flash_cold [of alloc_all None True] by (auto simp: alloc_all_def)
  have "sv_value (dat_get_status_var_def 15) = 0"
    by (simp add: dat_get_status_var_def_def dat_status_list_def sys_var_def addr_defs Let_def of_i_def)
  then have z: "dat_get_system_var (flash_cfg alloc_all None True) dat_drp_idx_temp f = Some 0"
    using f(2) [rule_format, of 15] by (simp add: dat_get_system_var_def addr_defs v_i_def)
  have l: "length (replicate 107520 (replicate 12 (5 :: byte))) = 107520" by (rule length_replicate)
  have "\<forall>b \<in> set (replicate 107520 (replicate 12 (5 :: byte))). length b = 12"
    using in_set_replicate by auto
  from flash_payload_half [OF f(1) z l this, of "replicate 12 6"] show ?thesis by auto
qed

end
