(* ===== verification/Sensors.thy ===== *)
theory Sensors
  imports Task_Loops
begin

text \<open>
  The sensor state machine: \<^verbatim>\<open>dat_stmachine_t\<close> with its two functions of src/system/repoData.c, the
  commands of apps/suchai/src/cmdSensors.c that change it and the loop of apps/suchai/src/taskSensors.c that
  runs it once per second. The machine is a structure in memory; every second it is saved in five
  status variables, from which the task starts again after a reset. The addresses of these variables are in
  the schema of the application, which is not part of the repository: they are the parameter \<open>ad\<close>.

  The task and the commands take the semaphore of the machine only around single updates; the tests between
  them read the machine without it. The last sections model this access by access: \<open>sens_task\<close> is the task
  cut at every test, every locked section, every read of a field and every access of the repository, and
  \<open>sens_event\<close> interleaves it with the writes of the commands. \<open>sensors_tick\<close> is a whole round during which no
  command runs (\<open>sens_round\<close> shows that the steps of such a round add up to it).
\<close>

section \<open>The machine\<close>

text \<open>The enumerations have no negative values and are unsigned.\<close>

abbreviation ACT_PAUSE :: "32 word" where "ACT_PAUSE \<equiv> 0"
abbreviation ACT_START :: "32 word" where "ACT_START \<equiv> 1"
abbreviation ACT_STAND_BY :: "32 word" where "ACT_STAND_BY \<equiv> 2"
abbreviation ACT_LAST :: "32 word" where "ACT_LAST \<equiv> 3"
abbreviation ST_PAUSE :: "32 word" where "ST_PAUSE \<equiv> 0"
abbreviation ST_SAMPLING :: "32 word" where "ST_SAMPLING \<equiv> 1"

record dat_stmachine =
  m_state :: "32 word"
  m_action :: "32 word"
  active_payloads :: "32 word"
  m_step :: "32 word"
  samples_left :: int
  total_sensors :: "32 word"

definition dat_set_stmachine_state :: "32 word \<Rightarrow> 32 word \<Rightarrow> int \<Rightarrow> dat_stmachine \<Rightarrow> int \<times> dat_stmachine" where
  "dat_set_stmachine_state action step nsamples m =
     (if action < ACT_LAST \<and> step > 0 \<and> nsamples > - 2
      then (1, m\<lparr>m_action := action, m_step := step, samples_left := nsamples\<rparr>)
      else (0, m))"

text \<open>Shifting the 1 into or past the sign bit is not defined.\<close>

definition dat_stmachine_is_sensor_active :: "int \<Rightarrow> int \<Rightarrow> int \<Rightarrow> bool option" where
  "dat_stmachine_is_sensor_active payload active n_payloads =
     do { require (0 \<le> n_payloads \<and> n_payloads < 31);
          if active \<ge> 2 ^ nat n_payloads then Some False
          else do { require (0 \<le> payload \<and> payload < 31); Some (bit active (nat payload)) } }"

section \<open>Commands\<close>

definition set_state :: "string \<Rightarrow> char list option \<Rightarrow> int \<Rightarrow> dat_stmachine \<Rightarrow> (int \<times> dat_stmachine) option" where
  "set_state fmt params nparams m =
     do { parsed \<leftarrow> parse_params 0 fmt params nparams;
          case parsed of
            Some [AUint action, AUint step, AInt nsamples] \<Rightarrow>
              (let (rc, m') = dat_set_stmachine_state action step nsamples m
               in Some (if rc \<noteq> 0 then CMD_OK else CMD_ERROR, m'))
          | Some _ \<Rightarrow> None
          | None \<Rightarrow> Some (CMD_SYNTAX_ERROR, m) }"

fun activate_all :: "nat \<Rightarrow> nat \<Rightarrow> 32 word \<Rightarrow> (32 word) option" where
  "activate_all i 0 acc = Some acc"
| "activate_all i (Suc k) acc = do { require (i < 31); activate_all (Suc i) k (acc + push_bit i 1) }"

unbundle bit_operations_syntax

definition activate_sensor :: "string \<Rightarrow> char list option \<Rightarrow> int \<Rightarrow> dat_stmachine \<Rightarrow> (int \<times> dat_stmachine) option" where
  "activate_sensor fmt params nparams m =
     do { parsed \<leftarrow> parse_params 0 fmt params nparams;
          case parsed of
            Some [AInt payload, AInt activate] \<Rightarrow>
              if payload < 0 then
                if activate = 0 then Some (CMD_OK, m\<lparr>active_payloads := 0\<rparr>)
                else do { all \<leftarrow> activate_all 0 (unat (total_sensors m)) 0; Some (CMD_OK, m\<lparr>active_payloads := all\<rparr>) }
              else if of_i payload \<ge> total_sensors m then Some (CMD_SYNTAX_ERROR, m)
              else
                do { active \<leftarrow> (if activate = 1 \<or> activate = 0
                                then dat_stmachine_is_sensor_active payload (v_i (active_payloads m)) (v_i (total_sensors m))
                                else Some False);
                     if activate = 1 \<and> \<not> active then
                       Some (CMD_OK, m\<lparr>active_payloads := push_bit (nat payload) 1 OR active_payloads m\<rparr>)
                     else if activate = 0 \<and> active then
                       Some (CMD_OK, m\<lparr>active_payloads := push_bit (nat payload) 1 XOR active_payloads m\<rparr>)
                     else Some (CMD_SYNTAX_ERROR, m) }
          | Some _ \<Rightarrow> None
          | None \<Rightarrow> Some (CMD_SYNTAX_ERROR, m) }"

definition init_dummy_sensor :: "string \<Rightarrow> char list option \<Rightarrow> int \<Rightarrow> int" where
  "init_dummy_sensor fmt params nparams = CMD_OK"

definition cmd_sensors_init :: "cmd_reg list" where
  "cmd_sensors_init =
     [(''sen_set_machine'', ''set_state'', ''%u %u %d'', 3),
      (''sen_activate'', ''activate_sensor'', ''%d %d'', 2),
      (''sen_take_sample'', ''take_sample'', ''%u'', 1),
      (''sen_init_dummy'', ''init_dummy_sensor'', '''', 0)]"

section \<open>The task\<close>

record mach_addrs =
  ad_action :: int
  ad_state :: int
  ad_step :: int
  ad_payloads :: int
  ad_left :: int

definition nsensors :: nat where "nsensors = 4"

text \<open>The start of the task: the machine as it was saved, or a default if a variable is negative.\<close>

definition sensors_start :: "mach_addrs \<Rightarrow> 's dat_cfg \<Rightarrow> 's \<Rightarrow> dat_stmachine option" where
  "sensors_start ad cfg s =
     do { action \<leftarrow> dat_get_system_var cfg (ad_action ad) s;
          state \<leftarrow> dat_get_system_var cfg (ad_state ad) s;
          step \<leftarrow> dat_get_system_var cfg (ad_step ad) s;
          active \<leftarrow> dat_get_system_var cfg (ad_payloads ad) s;
          left \<leftarrow> dat_get_system_var cfg (ad_left ad) s;
          Some (if action < 0 \<or> state < 0 \<or> active < 0 \<or> step < 0
                then \<lparr>m_state = ST_PAUSE, m_action = ACT_START, active_payloads = 0, m_step = 5,
                      samples_left = - 1, total_sensors = of_nat nsensors\<rparr>
                else \<lparr>m_state = of_i state, m_action = of_i action, active_payloads = of_i active, m_step = of_i step,
                      samples_left = left, total_sensors = of_nat nsensors\<rparr>) }"

fun start_commands :: "cmd_repo \<Rightarrow> nat \<Rightarrow> cmd option list option" where
  "start_commands repo 0 = Some []"
| "start_commands repo (Suc k) =
     do { c \<leftarrow> cmd_get_str ''sen_init_dummy'' repo; cs \<leftarrow> start_commands repo k; Some (c # cs) }"

definition apply_action :: "dat_stmachine \<Rightarrow> dat_stmachine" where
  "apply_action m =
     (if m_action m = ACT_START then m\<lparr>m_state := ST_SAMPLING, m_action := ACT_STAND_BY\<rparr>
      else if m_action m = ACT_PAUSE then m\<lparr>m_state := ST_PAUSE, m_action := ACT_STAND_BY\<rparr>
      else m)"

fun sample_loop :: "cmd_repo \<Rightarrow> dat_stmachine \<Rightarrow> nat \<Rightarrow> nat \<Rightarrow> cmd option list option" where
  "sample_loop repo m i 0 = Some []"
| "sample_loop repo m i (Suc k) =
     do { active \<leftarrow> dat_stmachine_is_sensor_active (int i) (v_i (active_payloads m)) (v_i (total_sensors m));
          sent \<leftarrow> (if active then
                     do { c \<leftarrow> cmd_get_str ''sen_take_sample'' repo;
                          Some [cmd_add_params_str c (CHR '' '' # show_int (int i))] }
                   else Some []);
          rest \<leftarrow> sample_loop repo m (Suc i) k;
          Some (sent @ rest) }"

definition sampling_state :: "cmd_repo \<Rightarrow> int \<Rightarrow> dat_stmachine \<Rightarrow> (dat_stmachine \<times> cmd option list) option" where
  "sampling_state repo elapsed_sec m =
     (if m_state m \<noteq> ST_SAMPLING then Some (m, [])
      else if samples_left m = 0 then Some (m\<lparr>m_state := ST_PAUSE, m_action := ACT_STAND_BY\<rparr>, [])
      else
        do { require (m_step m \<noteq> 0);
             if of_i elapsed_sec mod m_step m = 0 then
               do { sent \<leftarrow> sample_loop repo m 0 nsensors;
                    left \<leftarrow> (if samples_left m \<noteq> - 1 then cint (samples_left m - 1) else Some (- 1));
                    Some (m\<lparr>samples_left := left\<rparr>, sent) }
             else Some (m, []) })"

fun set_vars :: "'s dat_cfg \<Rightarrow> (int \<times> int) list \<Rightarrow> 's \<Rightarrow> 's option" where
  "set_vars cfg [] s = Some s"
| "set_vars cfg ((i, v) # vs) s = do { (_, s1) \<leftarrow> dat_set_system_var cfg i v s; set_vars cfg vs s1 }"

definition save_machine :: "mach_addrs \<Rightarrow> 's dat_cfg \<Rightarrow> dat_stmachine \<Rightarrow> 's \<Rightarrow> 's option" where
  "save_machine ad cfg m s =
     set_vars cfg [(ad_action ad, v_i (m_action m)), (ad_state ad, v_i (m_state m)), (ad_step ad, v_i (m_step m)),
       (ad_payloads ad, v_i (active_payloads m)), (ad_left ad, samples_left m)] s"

text \<open>
  A round of the loop during which no command writes the machine. The loop access by access, with the semaphore and with
  commands in between, is \<open>sens_task\<close> below; \<open>sens_round\<close> shows that its steps without commands make up this round.
\<close>

definition sensors_tick ::
    "mach_addrs \<Rightarrow> 's dat_cfg \<Rightarrow> cmd_repo \<Rightarrow> int \<Rightarrow> dat_stmachine \<Rightarrow> 's \<Rightarrow>
     (int \<times> cmd option list \<times> dat_stmachine \<times> 's) option" where
  "sensors_tick ad cfg repo elapsed_sec m s =
     do { (m1, sent) \<leftarrow> sampling_state repo elapsed_sec (apply_action m);
          s1 \<leftarrow> save_machine ad cfg m1 s;
          e \<leftarrow> cint (elapsed_sec + 1);
          Some (e, sent, m1, s1) }"

fun sensors_run ::
    "mach_addrs \<Rightarrow> 's dat_cfg \<Rightarrow> cmd_repo \<Rightarrow> nat \<Rightarrow> int \<Rightarrow> dat_stmachine \<Rightarrow> 's \<Rightarrow>
     ((int \<times> cmd option list) list \<times> dat_stmachine \<times> 's) option" where
  "sensors_run ad cfg repo 0 e m s = Some ([], m, s)"
| "sensors_run ad cfg repo (Suc k) e m s =
     do { (e1, sent, m1, s1) \<leftarrow> sensors_tick ad cfg repo e m s;
          (rest, m2, s2) \<leftarrow> sensors_run ad cfg repo k e1 m1 s1;
          Some ((e, sent) # rest, m2, s2) }"


section \<open>The invariant of the machine\<close>

definition mach_fields :: "dat_stmachine \<Rightarrow> bool" where
  "mach_fields m \<longleftrightarrow> m_state m < 2 \<and> m_action m < ACT_LAST \<and> active_payloads m < 16 \<and> 0 < m_step m \<and>
     in_int (samples_left m) \<and> total_sensors m = 4"

definition mach_ok :: "dat_stmachine \<Rightarrow> bool" where
  "mach_ok m \<longleftrightarrow> mach_fields m \<and> - 1 \<le> samples_left m"

lemma mach_ok_iff:
  "mach_ok m \<longleftrightarrow> m_state m < 2 \<and> m_action m < ACT_LAST \<and> active_payloads m < 16 \<and> 0 < m_step m \<and>
     - 1 \<le> samples_left m \<and> in_int (samples_left m) \<and> total_sensors m = 4"
  by (auto simp: mach_ok_def mach_fields_def)

lemma v_i_small:
  assumes "w < 2147483648"
  shows "v_i w = uint w"
proof -
  have "uint w < 2147483648" using assms by (simp add: word_less_def)
  then have "in_int (uint w)" using uint_ge_0 [of w] unfolding in_int_def by linarith
  from v_i_of_i [OF this] show ?thesis by (simp add: of_i_def)
qed

lemma v_i_negative: "v_i w < 0 \<longleftrightarrow> \<not> w < 2147483648"
proof (cases "w < 2147483648")
  case False
  then have "2147483648 \<le> uint w" by (simp add: word_less_def)
  moreover have "uint w < 4294967296" using uint_lt2p [of w] by simp
  ultimately have "in_int (uint w - 4294967296)" by (simp add: in_int_def)
  moreover have "of_i (uint w - 4294967296) = w"
    unfolding of_i_def word_uint_eq_iff uint_word_of_int using \<open>uint w < 4294967296\<close> by simp
  ultimately have "v_i w = uint w - 4294967296" using v_i_of_i by metis
  then show ?thesis using False \<open>uint w < 4294967296\<close> by simp
qed (simp add: v_i_small)

lemma mach_ok_apply: "mach_ok m \<Longrightarrow> mach_ok (apply_action m)"
  by (simp add: mach_ok_iff apply_action_def)

lemma small16: "(a :: 32 word) < 16 \<longleftrightarrow> take_bit 4 a = a"
  by (simp add: word_less_nat_alt word_unat_eq_iff unsigned_take_bit_eq take_bit_nat_eq_self_iff)

lemma push_bit_small: "p < 4 \<Longrightarrow> push_bit p (1 :: 32 word) < 16"
proof -
  assume "p < 4"
  then have "p \<in> {0, 1, 2, 3}" by auto
  then show ?thesis by (auto simp: numeral_3_eq_3)
qed

lemma set_bit_small:
  assumes "p < 4" "a < (16 :: 32 word)"
  shows "push_bit p 1 OR a < 16" "push_bit p 1 XOR a < 16"
  using assms push_bit_small [OF assms(1)] unfolding small16 by (simp_all add: take_bit_or take_bit_xor)

lemma activate_all_four: "activate_all 0 4 0 = Some 15"
  by (simp add: numeral_eq_Suc require_def)


lemma sensor_active:
  assumes "mach_fields m" "p < 4"
  shows "dat_stmachine_is_sensor_active (int p) (v_i (active_payloads m)) (v_i (total_sensors m)) =
     Some (bit (active_payloads m) p)"
proof -
  have a: "active_payloads m < 16" "total_sensors m = 4" using assms(1) by (simp_all add: mach_fields_def)
  have "active_payloads m < 2147483648" using a(1) less_trans [of _ 16 "2147483648 :: 32 word"] by simp
  then have v: "v_i (active_payloads m) = uint (active_payloads m)" by (rule v_i_small)
  have "uint (active_payloads m) < 16" using a(1) by (simp add: word_less_def)
  moreover have "v_i (4 :: 32 word) = 4" by (simp add: v_i_def)
  ultimately show ?thesis
    using assms(2) unfolding dat_stmachine_is_sensor_active_def v a(2)
    by (simp add: require_def bit_uint_iff)
qed

lemma mach_fields_activate:
  assumes "mach_fields m" "activate_sensor fmt params n m = Some (rc, m')"
  shows "mach_fields m'"
proof -
  have all: "activate_all 0 (unat (total_sensors m)) 0 = Some 15"
    using assms(1) activate_all_four by (simp add: mach_fields_def)
  from assms(2) obtain parsed where p: "parse_params 0 fmt params n = Some parsed"
    by (auto simp: activate_sensor_def split: bind_splits)
  show ?thesis
  proof (cases "\<exists>payload activate. parsed = Some [AInt payload, AInt activate]")
    case False
    then show ?thesis using assms p
      by (auto simp: activate_sensor_def split: option.splits list.splits scan_arg.splits)
  next
    case True
    then obtain payload activate where q: "parsed = Some [AInt payload, AInt activate]" by blast
    have lt: "nat payload < 4" if "0 \<le> payload" "\<not> total_sensors m \<le> of_i payload" "in_int payload"
    proof -
      have "of_i payload < (4 :: 32 word)" using that(2) assms(1) by (simp add: mach_fields_def not_le)
      then have "payload mod 4294967296 < 4" by (simp add: of_i_def word_less_def uint_word_of_int)
      then show ?thesis using that(1,3) by (simp add: in_int_def)
    qed
    have "in_int payload" using parse_params_AInt_range [OF p [unfolded q]] by simp
    with lt have p4: "nat payload < 4" if "0 \<le> payload" "\<not> total_sensors m \<le> of_i payload" using that by blast
    have bits: "mach_fields (m\<lparr>active_payloads := push_bit (nat payload) 1 OR active_payloads m\<rparr>)"
        "mach_fields (m\<lparr>active_payloads := push_bit (nat payload) 1 XOR active_payloads m\<rparr>)" if "nat payload < 4"
      using assms(1) set_bit_small [OF that] by (simp_all add: mach_fields_def)
    have set: "mach_fields (m\<lparr>active_payloads := 0\<rparr>)" "mach_fields (m\<lparr>active_payloads := 15\<rparr>)"
      using assms(1) by (simp_all add: mach_fields_def)
    show ?thesis
      using assms(2) bits p4 set assms(1) unfolding activate_sensor_def p q all
      by (auto split: if_splits bind_splits)
  qed
qed

lemma activate_left: "activate_sensor fmt params n m = Some (rc, m') \<Longrightarrow> samples_left m' = samples_left m"
  by (auto simp: activate_sensor_def split: bind_splits option.splits list.splits scan_arg.splits if_splits)

text \<open>What \<^verbatim>\<open>sen_set_machine\<close> writes when it succeeds.\<close>

definition set_values :: "dat_stmachine \<Rightarrow> bool" where
  "set_values m \<longleftrightarrow> m_action m < ACT_LAST \<and> 0 < m_step m \<and> - 1 \<le> samples_left m \<and> in_int (samples_left m)"

lemma set_state_values:
  assumes "set_state fmt params n m = Some (CMD_OK, m')"
  shows "set_values m'"
proof -
  from assms obtain parsed where p: "parse_params 0 fmt params n = Some parsed"
    by (auto simp: set_state_def split: bind_splits)
  show ?thesis
  proof (cases "\<exists>a st k. parsed = Some [AUint a, AUint st, AInt k]")
    case False
    then show ?thesis using assms p
      by (auto simp: set_state_def config_defs split: option.splits list.splits scan_arg.splits)
  next
    case True
    then obtain a st k where q: "parsed = Some [AUint a, AUint st, AInt k]" by blast
    have "in_int k" using parse_params_AInt_range [OF p [unfolded q]] by simp
    then show ?thesis
      using assms p q by (auto simp: set_state_def dat_set_stmachine_state_def set_values_def config_defs split: if_splits)
  qed
qed

section \<open>One round\<close>

definition sample_cmds :: "cmd option \<Rightarrow> dat_stmachine \<Rightarrow> cmd option list" where
  "sample_cmds c m = map (\<lambda>i. cmd_add_params_str c (CHR '' '' # show_int (int i))) (filter (bit (active_payloads m)) [0..<4])"

lemma sample_loop_cmds:
  assumes "mach_ok m" "cmd_get_str ''sen_take_sample'' repo = Some c" "i + k = 4"
  shows "sample_loop repo m i k =
     Some (map (\<lambda>i. cmd_add_params_str c (CHR '' '' # show_int (int i))) (filter (bit (active_payloads m)) [i..<4]))"
  using assms(3)
proof (induction k arbitrary: i)
  case (Suc k)
  then have i: "i < 4" "Suc i + k = 4" by simp_all
  show ?case
    using Suc.IH [OF i(2)] sensor_active [OF _ i(1), of m] assms(1,2) i(1) by (simp add: upt_conv_Cons mach_ok_def)
qed simp

lemma due_iff: "a < 2147483648 \<Longrightarrow> (of_i (int a) mod st = 0) \<longleftrightarrow> (unat st dvd a)"
  using of_nat_word_mod_0 [of a st] by (simp add: of_i_def)

lemma sampling_state_result:
  assumes "mach_ok m" "cmd_get_str ''sen_take_sample'' repo = Some c" "a < 2147483648"
  shows "sampling_state repo (int a) m =
     Some (if m_state m \<noteq> ST_SAMPLING then (m, [])
           else if samples_left m = 0 then (m\<lparr>m_state := ST_PAUSE, m_action := ACT_STAND_BY\<rparr>, [])
           else if unat (m_step m) dvd a
           then (m\<lparr>samples_left := (if samples_left m = - 1 then - 1 else samples_left m - 1)\<rparr>, sample_cmds c m)
           else (m, []))"
proof -
  have "in_int (samples_left m - 1)" if "samples_left m \<noteq> - 1"
    using assms(1) that by (auto simp: mach_ok_iff in_int_def)
  then show ?thesis
    using assms(1) sample_loop_cmds [OF assms(1,2), of 0 4] due_iff [OF assms(3), of "m_step m"]
    by (simp add: sampling_state_def sample_cmds_def nsensors_def require_def mach_ok_iff word_gt_0)
qed

lemma mach_ok_sampling:
  assumes "mach_ok m" "cmd_get_str ''sen_take_sample'' repo = Some c" "a < 2147483648"
  shows "\<exists>m1 sent. sampling_state repo (int a) m = Some (m1, sent) \<and> mach_ok m1"
  using assms(1) by (auto simp: sampling_state_result [OF assms] mach_ok_iff in_int_def)


section \<open>Saving the machine\<close>

text \<open>The addresses are five different variables of the table.\<close>

definition addr_list :: "mach_addrs \<Rightarrow> int list" where
  "addr_list ad = [ad_action ad, ad_state ad, ad_step ad, ad_payloads ad, ad_left ad]"

definition addrs_ok :: "mach_addrs \<Rightarrow> bool" where
  "addrs_ok ad \<longleftrightarrow> distinct (addr_list ad) \<and> (\<forall>i \<in> set (addr_list ad). 0 \<le> i \<and> i < 17)"

definition default_machine :: dat_stmachine where
  "default_machine = \<lparr>m_state = ST_PAUSE, m_action = ACT_START, active_payloads = 0, m_step = 5, samples_left = - 1,
     total_sensors = 4\<rparr>"

lemma default_machine_ok: "mach_ok default_machine"
  by (simp add: mach_ok_iff default_machine_def in_int_def)

context status_repo
begin

lemma vars_set:
  assumes "inv s" "\<forall>(i, v) \<in> set vs. 0 \<le> i \<and> i < 17 \<and> in_int v" "distinct (map fst vs)"
  shows "\<exists>s'. set_vars cfg vs s = Some s' \<and> inv s' \<and>
     (\<forall>j. 0 \<le> j \<longrightarrow> j < 17 \<longrightarrow> sys s' j = (case map_of vs j of None \<Rightarrow> sys s j | Some v \<Rightarrow> v))"
  using assms
proof (induction vs arbitrary: s)
  case (Cons iv vs)
  obtain i v where iv: "iv = (i, v)" by (cases iv)
  have i: "0 \<le> i" "i < 17" "in_int v" using Cons.prems(2) iv by auto
  obtain s1 where s1: "dat_set_system_var cfg i v s = Some (SCH_ST_OK, s1)" "inv s1"
      "\<And>j. 0 \<le> j \<Longrightarrow> j < 17 \<Longrightarrow> sys s1 j = (if i = j then v else sys s j)"
    using set_sys [OF Cons.prems(1) i] by metis
  from Cons.IH [OF s1(2)] Cons.prems(2,3) obtain s' where
      s': "set_vars cfg vs s1 = Some s'" "inv s'"
        "\<forall>j. 0 \<le> j \<longrightarrow> j < 17 \<longrightarrow> sys s' j = (case map_of vs j of None \<Rightarrow> sys s1 j | Some v \<Rightarrow> v)" by auto
  have "map_of vs i = None" using Cons.prems(3) iv by (auto simp: map_of_eq_None_iff)
  then have "sys s' j = (case map_of (iv # vs) j of None \<Rightarrow> sys s j | Some v \<Rightarrow> v)" if "0 \<le> j" "j < 17" for j
    using s'(3) s1(3) [OF that] that by (auto simp: iv split: option.splits)
  then show ?case using s1(1) s'(1,2) by (auto simp: iv)
qed simp

lemma machine_saved:
  assumes "inv s" "addrs_ok ad" "mach_ok m"
  shows "\<exists>s'. save_machine ad cfg m s = Some s' \<and> inv s' \<and>
     sensors_start ad cfg s' = Some (if v_i (m_step m) < 0 then default_machine else m) \<and>
     (\<forall>j. 0 \<le> j \<longrightarrow> j < 17 \<longrightarrow> j \<notin> set (addr_list ad) \<longrightarrow> sys s' j = sys s j)"
proof -
  let ?vs = "[(ad_action ad, v_i (m_action m)), (ad_state ad, v_i (m_state m)), (ad_step ad, v_i (m_step m)),
       (ad_payloads ad, v_i (active_payloads m)), (ad_left ad, samples_left m)]"
  have ad: "distinct (map fst ?vs)" "\<forall>(i, v) \<in> set ?vs. 0 \<le> i \<and> i < 17"
    using assms(2) by (auto simp: addrs_ok_def addr_list_def)
  have "in_int (samples_left m)" using assms(3) by (simp add: mach_ok_iff)
  then have vs: "\<forall>(i, v) \<in> set ?vs. 0 \<le> i \<and> i < 17 \<and> in_int v" using ad(2) by auto
  from vars_set [OF assms(1) vs ad(1)] obtain s' where
      s': "save_machine ad cfg m s = Some s'" "inv s'"
        "\<And>j. 0 \<le> j \<Longrightarrow> j < 17 \<Longrightarrow> sys s' j = (case map_of ?vs j of None \<Rightarrow> sys s j | Some v \<Rightarrow> v)"
    unfolding save_machine_def by blast
  have get: "dat_get_system_var cfg i s' = Some v" if "(i, v) \<in> set ?vs" for i v
  proof -
    have "map_of ?vs i = Some v" using map_of_is_SomeI [OF ad(1) that] .
    then show ?thesis using get_sys [OF s'(2), of i] s'(3) [of i] ad(2) that by auto
  qed
  have small: "m_action m < 2147483648" "m_state m < 2147483648" "active_payloads m < 2147483648"
    using assms(3) less_trans [of _ _ "2147483648 :: 32 word"] by (auto simp: mach_ok_iff)
  have "0 \<le> v_i (m_action m)" "0 \<le> v_i (m_state m)" "0 \<le> v_i (active_payloads m)"
    using small by (simp_all add: v_i_small)
  moreover have "dat_get_system_var cfg (ad_action ad) s' = Some (v_i (m_action m))"
      "dat_get_system_var cfg (ad_state ad) s' = Some (v_i (m_state m))"
      "dat_get_system_var cfg (ad_step ad) s' = Some (v_i (m_step m))"
      "dat_get_system_var cfg (ad_payloads ad) s' = Some (v_i (active_payloads m))"
      "dat_get_system_var cfg (ad_left ad) s' = Some (samples_left m)"
    by (rule get; simp)+
  moreover have "total_sensors m = 4" using assms(3) by (simp add: mach_ok_iff)
  ultimately have "sensors_start ad cfg s' = Some (if v_i (m_step m) < 0 then default_machine else m)"
    by (simp add: sensors_start_def nsensors_def default_machine_def)
  moreover have "sys s' j = sys s j" if "0 \<le> j" "j < 17" "j \<notin> set (addr_list ad)" for j
    using s'(3) [OF that(1,2)] that(3) by (simp add: addr_list_def)
  ultimately show ?thesis using s'(1,2) by blast
qed

lemma tick_result:
  assumes "inv s" "addrs_ok ad" "mach_ok m" "cmd_get_str ''sen_take_sample'' repo = Some c" "a < 2147483647"
  obtains m1 sent s' where "sampling_state repo (int a) (apply_action m) = Some (m1, sent)" "mach_ok m1"
    "sensors_tick ad cfg repo (int a) m s = Some (int (Suc a), sent, m1, s')" "inv s'"
    "sensors_start ad cfg s' = Some (if v_i (m_step m1) < 0 then default_machine else m1)"
    "\<forall>j. 0 \<le> j \<longrightarrow> j < 17 \<longrightarrow> j \<notin> set (addr_list ad) \<longrightarrow> sys s' j = sys s j"
proof -
  from mach_ok_sampling [OF mach_ok_apply [OF assms(3)] assms(4), of a] assms(5) obtain m1 sent where
      m1: "sampling_state repo (int a) (apply_action m) = Some (m1, sent)" "mach_ok m1" by auto
  from machine_saved [OF assms(1,2) m1(2)] obtain s' where s': "save_machine ad cfg m1 s = Some s'" "inv s'"
      "sensors_start ad cfg s' = Some (if v_i (m_step m1) < 0 then default_machine else m1)"
      "\<forall>j. 0 \<le> j \<longrightarrow> j < 17 \<longrightarrow> j \<notin> set (addr_list ad) \<longrightarrow> sys s' j = sys s j" by blast
  have "in_int (int a + 1)" using assms(5) by (simp add: in_int_def)
  then have "sensors_tick ad cfg repo (int a) m s = Some (int (Suc a), sent, m1, s')"
    using m1(1) s'(1) by (simp add: sensors_tick_def add.commute)
  with that m1 s' show thesis by blast
qed

text \<open>The times at which a machine that samples \<open>n\<close> times, every \<open>st\<close> seconds, has samples taken.\<close>

lemma run_paused:
  assumes "inv s" "addrs_ok ad" "mach_ok m" "cmd_get_str ''sen_take_sample'' repo = Some c"
    and "m_state m = ST_PAUSE" "m_action m = ACT_STAND_BY" "a + k \<le> 2147483647"
  shows "\<exists>s'. sensors_run ad cfg repo k (int a) m s = Some (map (\<lambda>t. (int t, [])) [a..<a + k], m, s') \<and> inv s'"
  using assms(1,7)
proof (induction k arbitrary: a s)
  case (Suc k)
  have a: "a < 2147483647" using Suc.prems(2) by simp
  have m: "apply_action m = m" using assms(6) by (simp add: apply_action_def)
  have st: "sampling_state repo (int a) (apply_action m) = Some (m, [])"
    using assms(5) m by (simp add: sampling_state_def)
  obtain s1 where s1: "sensors_tick ad cfg repo (int a) m s = Some (int (Suc a), [], m, s1)" "inv s1"
    by (rule tick_result [OF Suc.prems(1) assms(2-4) a]) (use st in auto)
  from Suc.IH [OF s1(2), of "Suc a"] Suc.prems(2) s1(1) show ?case
    by (auto simp: upt_conv_Cons)
qed simp

lemma run_sampling:
  assumes "inv s" "addrs_ok ad" "mach_ok m" "cmd_get_str ''sen_take_sample'' repo = Some c"
    and "m_state m = ST_SAMPLING" "m_action m = ACT_STAND_BY" "samples_left m = int n" "a + k \<le> 2147483647"
  shows "\<exists>m' s'. sensors_run ad cfg repo k (int a) m s =
     Some (map (\<lambda>t. (int t, if t \<in> set (take n (filter (\<lambda>t. unat (m_step m) dvd t) [a..<a + k]))
                           then sample_cmds c m else [])) [a..<a + k], m', s') \<and> inv s' \<and>
     samples_left m' = int n - int (length (take n (filter (\<lambda>t. unat (m_step m) dvd t) [a..<a + k])))"
  using assms(1,3,5-8)
proof (induction k arbitrary: a s m n)
  case (Suc k)
  have a: "a < 2147483647" "a < 2147483648" using Suc.prems(6) by simp_all
  have m: "apply_action m = m" using Suc.prems(4) by (simp add: apply_action_def)
  note st = sampling_state_result [OF Suc.prems(2) assms(4) a(2)]
  let ?d = "\<lambda>t. unat (m_step m) dvd t"
  have up: "[a..<a + Suc k] = a # [Suc a..<Suc a + k]" by (simp add: upt_conv_Cons)
  show ?case
  proof (cases "n = 0")
    case True
    let ?m = "m\<lparr>m_state := ST_PAUSE, m_action := ACT_STAND_BY\<rparr>"
    have r: "sampling_state repo (int a) (apply_action m) = Some (?m, [])"
      using st Suc.prems(3,5) True unfolding m by simp
    obtain s1 where s1: "sensors_tick ad cfg repo (int a) m s = Some (int (Suc a), [], ?m, s1)" "inv s1" "mach_ok ?m"
      by (rule tick_result [OF Suc.prems(1) assms(2) Suc.prems(2) assms(4) a(1)]) (use r in auto)
    from run_paused [OF s1(2) assms(2) s1(3) assms(4), of "Suc a" k] Suc.prems(5,6) s1(1) True show ?thesis
      unfolding up by auto
  next
    case False
    then obtain n' where n': "n = Suc n'" by (cases n) auto
    show ?thesis
    proof (cases "?d a")
      case True
      let ?m = "m\<lparr>samples_left := int n'\<rparr>"
      have r: "sampling_state repo (int a) (apply_action m) = Some (?m, sample_cmds c m)"
        using st Suc.prems(3,5) True n' unfolding m by simp
      obtain s1 where s1: "sensors_tick ad cfg repo (int a) m s = Some (int (Suc a), sample_cmds c m, ?m, s1)" "inv s1" "mach_ok ?m"
        by (rule tick_result [OF Suc.prems(1) assms(2) Suc.prems(2) assms(4) a(1)]) (use r in auto)
      have same: "sample_cmds c ?m = sample_cmds c m" by (simp add: sample_cmds_def)
      from Suc.IH [OF s1(2,3), of n' "Suc a"] Suc.prems(3,4,6) s1(1) True n' show ?thesis
        unfolding up by (auto simp: same)
    next
      case ndvd: False
      have r: "sampling_state repo (int a) (apply_action m) = Some (m, [])"
        using st Suc.prems(3,5) ndvd n' unfolding m by simp
      obtain s1 where s1: "sensors_tick ad cfg repo (int a) m s = Some (int (Suc a), [], m, s1)" "inv s1"
        by (rule tick_result [OF Suc.prems(1) assms(2) Suc.prems(2) assms(4) a(1)]) (use r in auto)
      have na: "a \<notin> set (take n (filter ?d [Suc a..<Suc a + k]))" by (auto dest: in_set_takeD)
      from Suc.IH [OF s1(2) Suc.prems(2), of n "Suc a"] Suc.prems(3-6) s1(1) ndvd na show ?thesis
        unfolding up by auto
    qed
  qed
qed simp

end


section \<open>The task access by access\<close>

text \<open>
  The places in the loop of the task, with the lines of taskSensors.c that follow. \<open>S_Apply\<close>, \<open>S_Pause\<close> and \<open>S_Dec\<close>
  are the three sections under the semaphore; every other place is one test or access without it.
\<close>

datatype sens_pc =
    S_Action                     \<comment> \<open>70: is there an action?\<close>
  | S_Apply                      \<comment> \<open>71-80, locked\<close>
  | S_State                      \<comment> \<open>84: is it sampling?\<close>
  | S_Left                       \<comment> \<open>86: are there samples left?\<close>
  | S_Pause                      \<comment> \<open>87-90, locked\<close>
  | S_Step                       \<comment> \<open>93: is a sample due?\<close>
  | S_Loop nat                   \<comment> \<open>96-107: the next sensor\<close>
  | S_Test                       \<comment> \<open>108: is the number of samples limited?\<close>
  | S_Dec                        \<comment> \<open>109-111, locked\<close>
  | S_Read "int list"            \<comment> \<open>116-120: the next field, those before it read\<close>
  | S_Save "(int \<times> int) list"   \<comment> \<open>122-126: the variables still to be set\<close>
  | S_Next                       \<comment> \<open>127\<close>

text \<open>
  Where the executer is: in no command of the machine; in the locked section of \<^verbatim>\<open>dat_set_stmachine_state\<close>, with so many
  of its three fields written and the values to write; or in the locked loop of \<^verbatim>\<open>activate_sensor\<close> that activates all.
\<close>

datatype sens_cmd = C_None | C_Write nat dat_stmachine | C_All nat

record 's sens =
  s_pc :: sens_pc
  s_mach :: dat_stmachine
  s_cmd :: sens_cmd
  s_elapsed :: int
  s_store :: 's
  s_sent :: "cmd option list"

definition mach_values :: "dat_stmachine \<Rightarrow> int list" where
  "mach_values m =
     [v_i (m_action m), v_i (m_state m), v_i (m_step m), v_i (active_payloads m), samples_left m]"

fun sens_locked :: "sens_pc \<Rightarrow> bool" where
  "sens_locked S_Apply = True"
| "sens_locked S_Pause = True"
| "sens_locked S_Dec = True"
| "sens_locked pc = False"

definition sens_task :: "mach_addrs \<Rightarrow> 's dat_cfg \<Rightarrow> cmd_repo \<Rightarrow> 's sens \<Rightarrow> 's sens option" where
  "sens_task ad cfg repo x =
     (let m = s_mach x in
      case s_pc x of
        S_Action \<Rightarrow> Some (x\<lparr>s_pc := if m_action m \<noteq> ACT_STAND_BY then S_Apply else S_State\<rparr>)
      | S_Apply \<Rightarrow> Some (x\<lparr>s_mach := apply_action m, s_pc := S_State\<rparr>)
      | S_State \<Rightarrow> Some (x\<lparr>s_pc := if m_state m = ST_SAMPLING then S_Left else S_Read []\<rparr>)
      | S_Left \<Rightarrow> Some (x\<lparr>s_pc := if samples_left m = 0 then S_Pause else S_Step\<rparr>)
      | S_Pause \<Rightarrow> Some (x\<lparr>s_mach := m\<lparr>m_state := ST_PAUSE, m_action := ACT_STAND_BY\<rparr>, s_pc := S_Read []\<rparr>)
      | S_Step \<Rightarrow>
          do { require (m_step m \<noteq> 0);
               Some (x\<lparr>s_pc := if of_i (s_elapsed x) mod m_step m = 0 then S_Loop 0 else S_Read []\<rparr>) }
      | S_Loop i \<Rightarrow>
          if i < nsensors then
            do { active \<leftarrow> dat_stmachine_is_sensor_active (int i) (v_i (active_payloads m)) (v_i (total_sensors m));
                 sent \<leftarrow> (if active then
                            do { c \<leftarrow> cmd_get_str ''sen_take_sample'' repo;
                                 Some [cmd_add_params_str c (CHR '' '' # show_int (int i))] }
                          else Some []);
                 Some (x\<lparr>s_pc := S_Loop (Suc i), s_sent := s_sent x @ sent\<rparr>) }
          else Some (x\<lparr>s_pc := S_Test\<rparr>)
      | S_Test \<Rightarrow> Some (x\<lparr>s_pc := if samples_left m \<noteq> - 1 then S_Dec else S_Read []\<rparr>)
      | S_Dec \<Rightarrow>
          do { left \<leftarrow> cint (samples_left m - 1);
               Some (x\<lparr>s_mach := m\<lparr>samples_left := left\<rparr>, s_pc := S_Read []\<rparr>) }
      | S_Read vs \<Rightarrow>
          if length vs < 5 then Some (x\<lparr>s_pc := S_Read (vs @ [mach_values m ! length vs])\<rparr>)
          else Some (x\<lparr>s_pc := S_Save (zip (addr_list ad) vs)\<rparr>)
      | S_Save [] \<Rightarrow> Some (x\<lparr>s_pc := S_Next\<rparr>)
      | S_Save ((i, v) # vs) \<Rightarrow>
          do { (_, s') \<leftarrow> dat_set_system_var cfg i v (s_store x); Some (x\<lparr>s_store := s', s_pc := S_Save vs\<rparr>) }
      | S_Next \<Rightarrow> do { e \<leftarrow> cint (s_elapsed x + 1); Some (x\<lparr>s_elapsed := e, s_pc := S_Action\<rparr>) })"

text \<open>One more write of the command that holds the semaphore.\<close>

definition sens_command :: "'s sens \<Rightarrow> 's sens option" where
  "sens_command x =
     (let m = s_mach x in
      case s_cmd x of
        C_None \<Rightarrow> Some x
      | C_Write k v \<Rightarrow>
          Some (if k = 0 then x\<lparr>s_mach := m\<lparr>m_action := m_action v\<rparr>, s_cmd := C_Write 1 v\<rparr>
                else if k = 1 then x\<lparr>s_mach := m\<lparr>m_step := m_step v\<rparr>, s_cmd := C_Write 2 v\<rparr>
                else x\<lparr>s_mach := m\<lparr>samples_left := samples_left v\<rparr>, s_cmd := C_None\<rparr>)
      | C_All i \<Rightarrow>
          if i < unat (total_sensors m) then
            do { require (i < 31);
                 Some (x\<lparr>s_mach := m\<lparr>active_payloads := active_payloads m + push_bit i 1\<rparr>, s_cmd := C_All (Suc i)\<rparr>) }
          else Some (x\<lparr>s_cmd := C_None\<rparr>))"

definition activates_all :: "char list option \<Rightarrow> bool" where
  "activates_all params =
     (case parse_params 0 ''%d %d'' params 2 of
        Some (Some [AInt payload, AInt activate]) \<Rightarrow> payload < 0 \<and> activate \<noteq> 0
      | _ \<Rightarrow> False)"

text \<open>
  The events: the task goes one step on (it waits before a locked section while a command holds the semaphore); a command
  starts, if the executer is free; the command under way goes one step on; another task changes the repository.
\<close>

datatype 's sens_act =
    Task_Step
  | Set_Machine "char list option"
  | Activate "char list option"
  | Command_Step
  | Repository 's

fun sens_event :: "mach_addrs \<Rightarrow> 's dat_cfg \<Rightarrow> cmd_repo \<Rightarrow> 's sens_act \<Rightarrow> 's sens \<Rightarrow> 's sens option" where
  "sens_event ad cfg repo Task_Step x =
     (if sens_locked (s_pc x) \<and> s_cmd x \<noteq> C_None then Some x else sens_task ad cfg repo x)"
| "sens_event ad cfg repo (Set_Machine params) x =
     (if s_cmd x \<noteq> C_None then Some x
      else do { (rc, v) \<leftarrow> set_state ''%u %u %d'' params 3 (s_mach x);
                Some (if rc = CMD_OK then x\<lparr>s_cmd := C_Write 0 v\<rparr> else x) })"
| "sens_event ad cfg repo (Activate params) x =
     (if s_cmd x \<noteq> C_None then Some x
      else if activates_all params
      then Some (x\<lparr>s_mach := (s_mach x)\<lparr>active_payloads := 0\<rparr>, s_cmd := C_All 0\<rparr>)
      else do { (_, m') \<leftarrow> activate_sensor ''%d %d'' params 2 (s_mach x); Some (x\<lparr>s_mach := m'\<rparr>) })"
| "sens_event ad cfg repo Command_Step x = sens_command x"
| "sens_event ad cfg repo (Repository s') x = Some (x\<lparr>s_store := s'\<rparr>)"

fun sens_run :: "mach_addrs \<Rightarrow> 's dat_cfg \<Rightarrow> cmd_repo \<Rightarrow> 's sens_act list \<Rightarrow> 's sens \<Rightarrow> 's sens option" where
  "sens_run ad cfg repo [] x = Some x"
| "sens_run ad cfg repo (a # as) x = do { x' \<leftarrow> sens_event ad cfg repo a x; sens_run ad cfg repo as x' }"

definition sens_begin :: "dat_stmachine \<Rightarrow> 's \<Rightarrow> 's sens" where
  "sens_begin m s = \<lparr>s_pc = S_Action, s_mach = m, s_cmd = C_None, s_elapsed = 0, s_store = s, s_sent = []\<rparr>"

section \<open>A round without commands\<close>

abbreviation sens_at :: "sens_pc \<Rightarrow> dat_stmachine \<Rightarrow> int \<Rightarrow> 's \<Rightarrow> cmd option list \<Rightarrow> 's sens" where
  "sens_at pc m e s sent \<equiv>
     \<lparr>s_pc = pc, s_mach = m, s_cmd = C_None, s_elapsed = e, s_store = s, s_sent = sent\<rparr>"

definition sens_goes :: "mach_addrs \<Rightarrow> 's dat_cfg \<Rightarrow> cmd_repo \<Rightarrow> 's sens \<Rightarrow> 's sens \<Rightarrow> bool" where
  "sens_goes ad cfg repo x y \<longleftrightarrow> (\<exists>n. sens_run ad cfg repo (replicate n Task_Step) x = Some y)"

lemma sens_goes_refl: "sens_goes ad cfg repo x x"
  unfolding sens_goes_def by (rule exI [of _ 0]) simp

lemma sens_goes_step:
  assumes "s_cmd x = C_None" "sens_task ad cfg repo x = Some x'" "sens_goes ad cfg repo x' y"
  shows "sens_goes ad cfg repo x y"
proof -
  from assms(3) obtain n where "sens_run ad cfg repo (replicate n Task_Step) x' = Some y" by (auto simp: sens_goes_def)
  then have "sens_run ad cfg repo (replicate (Suc n) Task_Step) x = Some y" using assms(1,2) by simp
  then show ?thesis unfolding sens_goes_def by blast
qed

lemma sens_run_append:
  "sens_run ad cfg repo (as @ bs) x = do { y \<leftarrow> sens_run ad cfg repo as x; sens_run ad cfg repo bs y }"
  by (induction as arbitrary: x) (auto split: bind_splits)

lemma sens_goes_trans:
  assumes "sens_goes ad cfg repo x y" "sens_goes ad cfg repo y z"
  shows "sens_goes ad cfg repo x z"
proof -
  from assms obtain n k where "sens_run ad cfg repo (replicate n Task_Step) x = Some y"
      "sens_run ad cfg repo (replicate k Task_Step) y = Some z" by (auto simp: sens_goes_def)
  then have "sens_run ad cfg repo (replicate (n + k) Task_Step) x = Some z" by (simp add: replicate_add sens_run_append)
  then show ?thesis unfolding sens_goes_def by blast
qed

lemmas sens_goes_one = sens_goes_step [OF _ _ sens_goes_refl]

lemma goes_action: "sens_goes ad cfg repo (sens_at S_Action m e s sent) (sens_at S_State (apply_action m) e s sent)"
proof (cases "m_action m = ACT_STAND_BY")
  case True
  then have "apply_action m = m" by (simp add: apply_action_def)
  then show ?thesis using True by (intro sens_goes_one) (simp_all add: sens_task_def Let_def)
next
  case False
  have "sens_goes ad cfg repo (sens_at S_Action m e s sent) (sens_at S_Apply m e s sent)"
    using False by (intro sens_goes_one) (simp_all add: sens_task_def Let_def)
  moreover have "sens_goes ad cfg repo (sens_at S_Apply m e s sent) (sens_at S_State (apply_action m) e s sent)"
    by (rule sens_goes_one) (simp_all add: sens_task_def Let_def)
  ultimately show ?thesis by (rule sens_goes_trans)
qed

lemma goes_loop:
  assumes "sample_loop repo m i k = Some cs" "i + k = nsensors"
  shows "sens_goes ad cfg repo (sens_at (S_Loop i) m e s sent) (sens_at S_Test m e s (sent @ cs))"
  using assms
proof (induction k arbitrary: i cs sent)
  case 0
  then show ?case by (intro sens_goes_one) (simp_all add: sens_task_def Let_def)
next
  case (Suc k)
  then obtain active c1 c2 where
      a: "dat_stmachine_is_sensor_active (int i) (v_i (active_payloads m)) (v_i (total_sensors m)) = Some active"
      and c: "(if active then do { c \<leftarrow> cmd_get_str ''sen_take_sample'' repo;
                 Some [cmd_add_params_str c (CHR '' '' # show_int (int i))] } else Some []) = Some c1"
        "sample_loop repo m (Suc i) k = Some c2" "cs = c1 @ c2"
    by (auto simp: bind_eq_Some_conv)
  have "sens_goes ad cfg repo (sens_at (S_Loop (Suc i)) m e s (sent @ c1)) (sens_at S_Test m e s ((sent @ c1) @ c2))"
    by (rule Suc.IH [OF c(2)]) (use Suc.prems(2) in simp)
  moreover have "sens_task ad cfg repo (sens_at (S_Loop i) m e s sent) = Some (sens_at (S_Loop (Suc i)) m e s (sent @ c1))"
    unfolding sens_task_def using a c(1) Suc.prems(2) by (simp add: Let_def)
  ultimately show ?case using c(3) by (auto intro: sens_goes_step)
qed

lemma goes_sampling:
  assumes "sampling_state repo e m = Some (m', cs)"
  shows "sens_goes ad cfg repo (sens_at S_State m e s sent) (sens_at (S_Read []) m' e s (sent @ cs))"
proof -
  have stay: "m\<lparr>samples_left := - 1\<rparr> = m" if "samples_left m = - 1" using that by (cases m) simp
  have left: "sens_goes ad cfg repo (sens_at S_State m e s sent) (sens_at S_Left m e s sent)" if "m_state m = ST_SAMPLING"
    using that by (intro sens_goes_one) (simp_all add: sens_task_def Let_def)
  have sampling: "sens_goes ad cfg repo (sens_at S_State m e s sent) (sens_at S_Step m e s sent)"
    if "m_state m = ST_SAMPLING" "samples_left m \<noteq> 0"
  proof (rule sens_goes_trans [OF left])
    show "sens_goes ad cfg repo (sens_at S_Left m e s sent) (sens_at S_Step m e s sent)"
      using that by (intro sens_goes_one) (simp_all add: sens_task_def Let_def)
  qed (rule that)
  show ?thesis
  proof (cases "m_state m = ST_SAMPLING \<and> samples_left m \<noteq> 0 \<and> of_i e mod m_step m = 0")
    case True
    then obtain left where r: "m_step m \<noteq> 0" "sample_loop repo m 0 nsensors = Some cs"
        "(if samples_left m \<noteq> - 1 then cint (samples_left m - 1) else Some (- 1)) = Some left"
        "m' = m\<lparr>samples_left := left\<rparr>"
      using assms by (auto simp: sampling_state_def bind_eq_Some_conv require_def split: if_splits)
    have "sens_goes ad cfg repo (sens_at S_Test m e s (sent @ cs)) (sens_at (S_Read []) m' e s (sent @ cs))"
    proof (cases "samples_left m = - 1")
      case True
      then show ?thesis using r(3,4) stay by (intro sens_goes_one) (simp_all add: sens_task_def Let_def)
    next
      case False
      have "sens_goes ad cfg repo (sens_at S_Test m e s (sent @ cs)) (sens_at S_Dec m e s (sent @ cs))"
        using False by (intro sens_goes_one) (simp_all add: sens_task_def Let_def)
      moreover have "sens_goes ad cfg repo (sens_at S_Dec m e s (sent @ cs)) (sens_at (S_Read []) m' e s (sent @ cs))"
        using False r(3,4) by (intro sens_goes_one) (simp_all add: sens_task_def Let_def)
      ultimately show ?thesis by (rule sens_goes_trans)
    qed
    note loop = sens_goes_trans [OF goes_loop [OF r(2)] this]
    have "sens_goes ad cfg repo (sens_at S_Step m e s sent) (sens_at (S_Loop 0) m e s sent)"
      using True r(1) by (intro sens_goes_one) (simp_all add: sens_task_def Let_def require_def)
    then show ?thesis using sampling True loop sens_goes_trans by (metis add_0)
  next
    case False
    show ?thesis
    proof (cases "m_state m = ST_SAMPLING")
      case idle: False
      then have "m' = m" "cs = []" using assms by (simp_all add: sampling_state_def)
      then show ?thesis using idle by (intro sens_goes_one) (simp_all add: sens_task_def Let_def)
    next
      case st: True
      show ?thesis
      proof (cases "samples_left m = 0")
        case True
        then have m': "m' = m\<lparr>m_state := ST_PAUSE, m_action := ACT_STAND_BY\<rparr>" "cs = []"
          using assms st by (simp_all add: sampling_state_def)
        have "sens_goes ad cfg repo (sens_at S_Left m e s sent) (sens_at S_Pause m e s sent)"
          using True by (intro sens_goes_one) (simp_all add: sens_task_def Let_def)
        moreover have "sens_goes ad cfg repo (sens_at S_Pause m e s sent) (sens_at (S_Read []) m' e s (sent @ cs))"
          by (rule sens_goes_one) (simp_all add: sens_task_def Let_def m')
        ultimately show ?thesis by (rule sens_goes_trans [OF sens_goes_trans [OF left [OF st]]])
      next
        case n: False
        then have d: "of_i e mod m_step m \<noteq> 0" using False st by simp
        then have r: "m_step m \<noteq> 0" "m' = m" "cs = []"
          using assms st n by (auto simp: sampling_state_def require_def split: if_splits)
        have "sens_goes ad cfg repo (sens_at S_Step m e s sent) (sens_at (S_Read []) m' e s (sent @ cs))"
          using d r by (intro sens_goes_one) (simp_all add: sens_task_def Let_def require_def)
        then show ?thesis by (rule sens_goes_trans [OF sampling [OF st n]])
      qed
    qed
  qed
qed

lemma goes_read:
  "sens_goes ad cfg repo (sens_at (S_Read []) m e s sent)
     (sens_at (S_Save (zip (addr_list ad) (mach_values m))) m e s sent)"
proof -
  have "sens_goes ad cfg repo (sens_at (S_Read (take k (mach_values m))) m e s sent)
      (sens_at (S_Read (mach_values m)) m e s sent)" if "k \<le> 5" for k
    using that
  proof (induction "5 - k" arbitrary: k)
    case 0
    then have "take k (mach_values m) = mach_values m" by (simp add: mach_values_def)
    then show ?case by (simp add: sens_goes_refl)
  next
    case (Suc d)
    have k: "k < 5" "d = 5 - Suc k" using Suc.hyps(2) by simp_all
    have len: "length (mach_values m) = 5" by (simp add: mach_values_def)
    have "sens_task ad cfg repo (sens_at (S_Read (take k (mach_values m))) m e s sent) =
        Some (sens_at (S_Read (take (Suc k) (mach_values m))) m e s sent)"
      using k(1) len by (simp add: sens_task_def Let_def take_Suc_conv_app_nth)
    then show ?case using sens_goes_step [OF _ _ Suc.hyps(1) [OF k(2)]] k(1) by simp
  qed
  from this [of 0] have "sens_goes ad cfg repo (sens_at (S_Read []) m e s sent) (sens_at (S_Read (mach_values m)) m e s sent)"
    by simp
  moreover have "sens_task ad cfg repo (sens_at (S_Read (mach_values m)) m e s sent) =
      Some (sens_at (S_Save (zip (addr_list ad) (mach_values m))) m e s sent)"
    by (simp add: sens_task_def Let_def mach_values_def)
  ultimately show ?thesis
    using sens_goes_trans sens_goes_step [OF _ _ sens_goes_refl] by (metis sens.select_convs(3))
qed

lemma goes_save:
  assumes "set_vars cfg vs s = Some s'"
  shows "sens_goes ad cfg repo (sens_at (S_Save vs) m e s sent) (sens_at S_Next m e s' sent)"
  using assms
proof (induction vs arbitrary: s)
  case Nil
  then show ?case by (intro sens_goes_one) (simp_all add: sens_task_def Let_def)
next
  case (Cons iv vs)
  obtain i v where iv: "iv = (i, v)" by (cases iv)
  with Cons.prems obtain rc s1 where s1: "dat_set_system_var cfg i v s = Some (rc, s1)" "set_vars cfg vs s1 = Some s'"
    by (auto simp: bind_eq_Some_conv)
  have "sens_task ad cfg repo (sens_at (S_Save (iv # vs)) m e s sent) = Some (sens_at (S_Save vs) m e s1 sent)"
    using s1(1) by (simp add: sens_task_def Let_def iv)
  then show ?case using sens_goes_step [OF _ _ Cons.IH [OF s1(2)]] by simp
qed

text \<open>The steps of a round of the task during which no command runs add up to \<open>sensors_tick\<close>.\<close>

theorem sens_round:
  assumes "sensors_tick ad cfg repo e m s = Some (e', cs, m', s')"
  shows "sens_goes ad cfg repo (sens_at S_Action m e s sent) (sens_at S_Action m' e' s' (sent @ cs))"
proof -
  from assms have t: "sampling_state repo e (apply_action m) = Some (m', cs)" "save_machine ad cfg m' s = Some s'"
      "cint (e + 1) = Some e'"
    by (auto simp: sensors_tick_def bind_eq_Some_conv)
  have save: "set_vars cfg (zip (addr_list ad) (mach_values m')) s = Some s'"
    using t(2) by (simp add: save_machine_def addr_list_def mach_values_def)
  have "sens_goes ad cfg repo (sens_at S_Next m' e s' (sent @ cs)) (sens_at S_Action m' e' s' (sent @ cs))"
    by (rule sens_goes_step [OF _ _ sens_goes_refl]) (simp_all add: sens_task_def Let_def t(3))
  then show ?thesis
    using goes_action goes_sampling [OF t(1)] goes_read goes_save [OF save] sens_goes_trans by metis
qed

section \<open>The invariant of all interleavings\<close>

fun sens_counted :: "sens_pc \<Rightarrow> bool" where
  "sens_counted (S_Read vs) = True"
| "sens_counted (S_Save vs) = True"
| "sens_counted S_Next = True"
| "sens_counted pc = False"

text \<open>
  Each round lowers the number of samples by at most one, and a command sets it to -1 at least; so it never falls below
  -1 by more than the rounds that have counted.
\<close>

definition pc_ok :: "sens_pc \<Rightarrow> bool" where
  "pc_ok pc \<longleftrightarrow>
     (case pc of
        S_Read vs \<Rightarrow> length vs \<le> 5 \<and> (\<forall>v \<in> set vs. in_int v)
      | S_Save vs \<Rightarrow> (\<forall>(i, v) \<in> set vs. 0 \<le> i \<and> i < 17 \<and> in_int v)
      | _ \<Rightarrow> True)"

definition cmd_ok :: "dat_stmachine \<Rightarrow> sens_cmd \<Rightarrow> bool" where
  "cmd_ok m c \<longleftrightarrow>
     (case c of
        C_None \<Rightarrow> True
      | C_Write k v \<Rightarrow> set_values v
      | C_All i \<Rightarrow> i \<le> 4 \<and> active_payloads m = 2 ^ i - 1)"

definition sens_ok :: "('s \<Rightarrow> bool) \<Rightarrow> 's sens \<Rightarrow> bool" where
  "sens_ok okst x \<longleftrightarrow>
     mach_fields (s_mach x) \<and> okst (s_store x) \<and> 0 \<le> s_elapsed x \<and> s_elapsed x \<le> 2147483647 \<and>
     - 1 - s_elapsed x - (if sens_counted (s_pc x) then 1 else 0) \<le> samples_left (s_mach x) \<and>
     pc_ok (s_pc x) \<and> cmd_ok (s_mach x) (s_cmd x)"

lemma mach_fields_apply: "mach_fields m \<Longrightarrow> mach_fields (apply_action m)"
  by (simp add: mach_fields_def apply_action_def)

lemma apply_action_frame [simp]:
  "samples_left (apply_action m) = samples_left m" "active_payloads (apply_action m) = active_payloads m"
  by (simp_all add: apply_action_def)

lemma cmd_ok_frame: "active_payloads m' = active_payloads m \<Longrightarrow> cmd_ok m' c = cmd_ok m c"
  by (simp add: cmd_ok_def split: sens_cmd.split)

lemma mach_values_int: "mach_fields m \<Longrightarrow> k < 5 \<Longrightarrow> in_int (mach_values m ! k)"
  by (auto simp: mach_values_def mach_fields_def less_Suc_eq numeral_eq_Suc)

lemma all_mask: "i \<le> 4 \<Longrightarrow> (2 ^ i - 1 :: 32 word) < 16"
proof -
  assume "i \<le> 4"
  then have "i \<in> {0, 1, 2, 3, 4}" by auto
  then show ?thesis by (elim insertE emptyE) simp_all
qed

lemma sens_ok_command:
  assumes "sens_ok okst x" "sens_command x = Some x'"
  shows "sens_ok okst x'"
proof (cases "s_cmd x")
  case (C_Write k v)
  then show ?thesis
    using assms by (auto simp: sens_ok_def sens_command_def Let_def cmd_ok_def set_values_def mach_fields_def split: if_splits)
next
  case (C_All i)
  have n: "unat (total_sensors (s_mach x)) = 4" using assms(1) by (simp add: sens_ok_def mach_fields_def)
  show ?thesis
  proof (cases "i < 4")
    case True
    have m: "active_payloads (s_mach x) + push_bit i 1 = 2 ^ Suc i - 1"
      using assms(1) C_All by (simp add: sens_ok_def cmd_ok_def)
    then have "(2 ^ Suc i - 1 :: 32 word) < 16" using all_mask [of "Suc i"] True by simp
    then show ?thesis
      using assms C_All True m n
      by (auto simp: sens_ok_def sens_command_def Let_def cmd_ok_def mach_fields_def require_def)
  next
    case False
    then show ?thesis using assms C_All n by (auto simp: sens_ok_def sens_command_def Let_def cmd_ok_def)
  qed
qed (use assms in \<open>simp add: sens_command_def Let_def\<close>)

context status_repo
begin

lemma sens_ok_task:
  assumes "sens_ok inv x" "sens_task ad cfg repo x = Some x'" "addrs_ok ad"
  shows "sens_ok inv x'"
proof (cases "s_pc x")
  case S_Apply
  then show ?thesis using assms mach_fields_apply cmd_ok_frame [of "apply_action (s_mach x)" "s_mach x"]
    by (auto simp: sens_ok_def sens_task_def Let_def pc_ok_def)
next
  case S_Pause
  then show ?thesis using assms cmd_ok_frame [of "(s_mach x)\<lparr>m_state := ST_PAUSE, m_action := ACT_STAND_BY\<rparr>" "s_mach x"]
    by (auto simp: sens_ok_def sens_task_def Let_def pc_ok_def mach_fields_def)
next
  case S_Dec
  then have "x' = x\<lparr>s_mach := (s_mach x)\<lparr>samples_left := samples_left (s_mach x) - 1\<rparr>, s_pc := S_Read []\<rparr>"
      "in_int (samples_left (s_mach x) - 1)"
    using assms(2) by (auto simp: sens_task_def Let_def bind_eq_Some_conv cint_eq_Some)
  then show ?thesis
    using assms(1) S_Dec cmd_ok_frame [of "(s_mach x)\<lparr>samples_left := samples_left (s_mach x) - 1\<rparr>" "s_mach x"]
    by (auto simp: sens_ok_def pc_ok_def mach_fields_def)
next
  case (S_Read vs)
  have "\<forall>(i, v) \<in> set (zip (addr_list ad) vs). 0 \<le> i \<and> i < 17 \<and> in_int v"
    using assms(1,3) S_Read by (auto simp: sens_ok_def pc_ok_def addrs_ok_def dest: set_zip_leftD set_zip_rightD)
  then show ?thesis
    using assms(1,2) S_Read mach_values_int [of "s_mach x" "length vs"]
    by (auto simp: sens_ok_def sens_task_def Let_def pc_ok_def split: if_splits)
next
  case (S_Save vs)
  show ?thesis
  proof (cases vs)
    case Nil
    then show ?thesis using assms(1,2) S_Save by (auto simp: sens_ok_def sens_task_def Let_def pc_ok_def)
  next
    case (Cons iv rest)
    obtain i v where iv: "iv = (i, v)" by (cases iv)
    have i: "inv (s_store x)" "0 \<le> i" "i < 17" "in_int v"
      using assms(1) S_Save by (auto simp: sens_ok_def pc_ok_def Cons iv)
    obtain s1 where "dat_set_system_var cfg i v (s_store x) = Some (SCH_ST_OK, s1)" "inv s1"
      using set_sys [OF i] by metis
    then show ?thesis using assms(1,2) S_Save by (auto simp: sens_ok_def sens_task_def Let_def pc_ok_def Cons iv)
  qed
next
  case S_Next
  then have "x' = x\<lparr>s_elapsed := s_elapsed x + 1, s_pc := S_Action\<rparr>" "in_int (s_elapsed x + 1)"
    using assms(2) by (auto simp: sens_task_def Let_def bind_eq_Some_conv cint_eq_Some)
  then show ?thesis using assms(1) S_Next by (auto simp: sens_ok_def pc_ok_def in_int_def)
qed (use assms(1,2) in \<open>auto simp: sens_ok_def sens_task_def Let_def pc_ok_def require_def split: if_splits bind_splits\<close>)

lemma sens_ok_event:
  assumes "sens_ok inv x" "sens_event ad cfg repo a x = Some x'" "addrs_ok ad" "\<And>s'. a = Repository s' \<Longrightarrow> inv s'"
  shows "sens_ok inv x'"
proof (cases a)
  case Task_Step
  then show ?thesis using assms(1,2) sens_ok_task [OF assms(1) _ assms(3)] by (auto split: if_splits)
next
  case (Set_Machine params)
  then show ?thesis
    using assms(1,2) set_state_values
    by (auto simp: sens_ok_def cmd_ok_def bind_eq_Some_conv split: if_splits)
next
  case (Activate params)
  show ?thesis
  proof (cases "s_cmd x \<noteq> C_None \<or> activates_all params")
    case True
    then show ?thesis
      using assms(1,2) Activate by (auto simp: sens_ok_def cmd_ok_def mach_fields_def split: if_splits)
  next
    case False
    then obtain rc m' where m': "activate_sensor ''%d %d'' params 2 (s_mach x) = Some (rc, m')" "x' = x\<lparr>s_mach := m'\<rparr>"
      using assms(2) Activate by (auto simp: bind_eq_Some_conv)
    then show ?thesis
      using assms(1) False mach_fields_activate [OF _ m'(1)] activate_left [OF m'(1)]
      by (auto simp: sens_ok_def cmd_ok_def)
  qed
next
  case Command_Step
  then show ?thesis using assms(1,2) sens_ok_command by simp
next
  case (Repository s')
  then show ?thesis using assms by (auto simp: sens_ok_def)
qed

lemma sens_ok_run:
  assumes "sens_ok inv x" "sens_run ad cfg repo as x = Some y" "addrs_ok ad" "\<forall>s'. Repository s' \<in> set as \<longrightarrow> inv s'"
  shows "sens_ok inv y"
  using assms(1,2,4)
proof (induction as arbitrary: x)
  case (Cons a as)
  then obtain x1 where x1: "sens_event ad cfg repo a x = Some x1" "sens_run ad cfg repo as x1 = Some y"
    by (auto simp: bind_eq_Some_conv)
  have "sens_ok inv x1" by (rule sens_ok_event [OF Cons.prems(1) x1(1) assms(3)]) (use Cons.prems(3) in auto)
  from Cons.IH [OF this x1(2)] Cons.prems(3) show ?case by simp
qed simp

lemma sens_task_defined:
  assumes "sens_ok inv x" "s_elapsed x < 2147483647" "cmd_get_str ''sen_take_sample'' repo = Some c"
  shows "\<exists>x'. sens_task ad cfg repo x = Some x'"
proof (cases "s_pc x")
  case S_Step
  then show ?thesis using assms(1) by (simp add: sens_task_def Let_def sens_ok_def mach_fields_def require_def word_gt_0)
next
  case (S_Loop i)
  have "mach_fields (s_mach x)" using assms(1) by (simp add: sens_ok_def)
  then have "dat_stmachine_is_sensor_active (int i) (v_i (active_payloads (s_mach x))) (v_i (total_sensors (s_mach x))) =
      Some (bit (active_payloads (s_mach x)) i)" if "i < nsensors"
    using sensor_active that by (simp add: nsensors_def)
  then show ?thesis using S_Loop assms(3) by (auto simp: sens_task_def Let_def)
next
  case S_Dec
  have "in_int (samples_left (s_mach x) - 1)"
    using assms(1,2) S_Dec by (auto simp: sens_ok_def mach_fields_def in_int_def)
  then show ?thesis using S_Dec by (simp add: sens_task_def Let_def)
next
  case (S_Save vs)
  show ?thesis
  proof (cases vs)
    case (Cons iv rest)
    obtain i v where iv: "iv = (i, v)" by (cases iv)
    have i: "inv (s_store x)" "0 \<le> i" "i < 17" "in_int v"
      using assms(1) S_Save by (auto simp: sens_ok_def pc_ok_def Cons iv)
    obtain s1 where "dat_set_system_var cfg i v (s_store x) = Some (SCH_ST_OK, s1)"
      using set_sys [OF i] by metis
    then show ?thesis using S_Save by (simp add: sens_task_def Let_def Cons iv)
  qed (use S_Save in \<open>simp add: sens_task_def Let_def\<close>)
next
  case S_Next
  have "in_int (s_elapsed x + 1)" using assms(1,2) by (simp add: sens_ok_def in_int_def)
  then show ?thesis using S_Next by (simp add: sens_task_def Let_def)
qed (simp_all add: sens_task_def Let_def)

end

text \<open>The machine the task starts with, from the saved variables.\<close>

definition saved_ok :: "mach_addrs \<Rightarrow> 's dat_cfg \<Rightarrow> 's \<Rightarrow> bool" where
  "saved_ok ad cfg s \<longleftrightarrow>
     (case (dat_get_system_var cfg (ad_action ad) s, dat_get_system_var cfg (ad_state ad) s,
            dat_get_system_var cfg (ad_step ad) s, dat_get_system_var cfg (ad_payloads ad) s,
            dat_get_system_var cfg (ad_left ad) s) of
        (Some action, Some state, Some step, Some payloads, Some left) \<Rightarrow>
          action < 0 \<or> state < 0 \<or> payloads < 0 \<or> step < 0 \<or>
          action < 3 \<and> state < 2 \<and> payloads < 16 \<and> 0 < step \<and> - 1 \<le> left
      | _ \<Rightarrow> False)"

lemma of_i_less:
  assumes "0 \<le> i" "i < n" "n < 2147483648"
  shows "of_i i < (of_i n :: 32 word)"
  using assms by (simp add: of_i_def word_less_def uint_word_of_int)

lemma sensors_start_ok:
  assumes "saved_ok ad cfg s"
  obtains m where "sensors_start ad cfg s = Some m" "mach_ok m"
proof -
  obtain a st sp pl lf where v: "dat_get_system_var cfg (ad_action ad) s = Some a"
      "dat_get_system_var cfg (ad_state ad) s = Some st" "dat_get_system_var cfg (ad_step ad) s = Some sp"
      "dat_get_system_var cfg (ad_payloads ad) s = Some pl" "dat_get_system_var cfg (ad_left ad) s = Some lf"
      and ok: "a < 0 \<or> st < 0 \<or> pl < 0 \<or> sp < 0 \<or> a < 3 \<and> st < 2 \<and> pl < 16 \<and> 0 < sp \<and> - 1 \<le> lf"
    using assms by (auto simp: saved_ok_def split: option.splits)
  have "in_int sp" "in_int lf" using v(3,5) by (auto simp: dat_get_system_var_def bind_eq_Some_conv)
  show thesis
  proof (cases "a < 0 \<or> st < 0 \<or> pl < 0 \<or> sp < 0")
    case True
    then have "sensors_start ad cfg s = Some default_machine"
      using v by (simp add: sensors_start_def default_machine_def nsensors_def)
    then show ?thesis using that default_machine_ok by blast
  next
    case False
    let ?m = "\<lparr>m_state = of_i st, m_action = of_i a, active_payloads = of_i pl, m_step = of_i sp, samples_left = lf,
      total_sensors = of_nat nsensors\<rparr>"
    have "of_i st < (of_i 2 :: 32 word)" "of_i a < (of_i 3 :: 32 word)" "of_i pl < (of_i 16 :: 32 word)"
        "of_i 0 < (of_i sp :: 32 word)"
      using False ok \<open>in_int sp\<close> by (auto intro!: of_i_less simp: in_int_def)
    then have "mach_ok ?m"
      using False ok \<open>in_int lf\<close> by (auto simp: mach_ok_iff nsensors_def of_i_def)
    then show ?thesis using that v False by (simp add: sensors_start_def)
  qed
qed


section \<open>Properties\<close>

text \<open>
  C34: The sensor task never stops for an error. Let it start from saved variables that are negative (then it takes its
  default machine) or in order (action and state of the enumerations, at most the four sensors, a positive step, at least -1
  samples), and interleave its single accesses in any way with the commands \<^verbatim>\<open>sen_set_machine\<close> and \<^verbatim>\<open>sen_activate\<close> with any
  parameters, write by write, and with any work of the other tasks on the repository: then action and state stay in their
  enumerations, the step positive, at most the four sensors active, the number of samples left at most the rounds begun below
  -1, and the next step of the task is defined (it may have to wait for the semaphore), until the counter of seconds reaches its
  end after 68 years. The number of samples can really fall below -1: the task tests it for -1 before it takes the semaphore to
  lower it, so a command may set it to -1 in between (\<open>sensors_race\<close>). A saved step of 0 is not in order; with it a
  sampling machine divides by 0.
\<close>

theorem sensors_never_stuck:
  assumes "saved_ok ad (ram_cfg alloc tr) s0" "ram_inv data_map (n_copies tr) s0" "addrs_ok ad"
    and "cmd_get_str ''sen_take_sample'' repo = Some c"
    and "sensors_start ad (ram_cfg alloc tr) s0 = Some m0"
    and "sens_run ad (ram_cfg alloc tr) repo as (sens_begin m0 s0) = Some x"
    and "\<forall>s'. Repository s' \<in> set as \<longrightarrow> ram_inv data_map (n_copies tr) s'"
  shows "m_state (s_mach x) < 2 \<and> m_action (s_mach x) < ACT_LAST \<and> active_payloads (s_mach x) < 16 \<and>
     0 < m_step (s_mach x) \<and> total_sensors (s_mach x) = 4 \<and> 0 \<le> s_elapsed x \<and>
     - 2 - s_elapsed x \<le> samples_left (s_mach x) \<and>
     (s_elapsed x < 2147483647 \<longrightarrow> (\<exists>x'. sens_event ad (ram_cfg alloc tr) repo Task_Step x = Some x'))"
proof -
  have "mach_ok m0" using sensors_start_ok [OF assms(1)] assms(5) by auto
  then have "sens_ok (ram_inv data_map (n_copies tr)) (sens_begin m0 s0)"
    using assms(2) by (auto simp: sens_ok_def sens_begin_def pc_ok_def cmd_ok_def mach_ok_def)
  from ram_repo.sens_ok_run [OF this assms(6,3,7)] have ok: "sens_ok (ram_inv data_map (n_copies tr)) x" .
  have "\<exists>x'. sens_event ad (ram_cfg alloc tr) repo Task_Step x = Some x'" if "s_elapsed x < 2147483647"
    using ram_repo.sens_task_defined [OF ok that assms(4)] by auto
  then show ?thesis
    using ok by (auto simp: sens_ok_def mach_fields_def split: if_splits)
qed

text \<open>
  Sampling a given number of times. When the command starts the machine with a step of \<open>st\<close> seconds and \<open>n\<close> samples, then
  in the rounds that follow, if no command runs during them, the commands for the active sensors are sent in exactly the first \<open>n\<close> rounds whose
  time in seconds is a multiple of \<open>st\<close>, nothing is sent in any other round, and the number of samples left is what was asked for
  less what was taken.
\<close>

theorem sensors_sample_count:
  assumes "ram_inv data_map (n_copies tr) s" "addrs_ok ad" "mach_ok m" "cmd_get_str ''sen_take_sample'' repo = Some c"
    and "dat_set_stmachine_state ACT_START st (int n) m = (1, m1)" "int n < 2147483648" "a + k \<le> 2147483647"
  shows "\<exists>m' s'. sensors_run ad (ram_cfg alloc tr) repo k (int a) m1 s =
     Some (map (\<lambda>t. (int t, if t \<in> set (take n (filter (\<lambda>t. unat st dvd t) [a..<a + k]))
                           then sample_cmds c m else [])) [a..<a + k], m', s') \<and>
     (0 < k \<longrightarrow> samples_left m' = int n - int (length (take n (filter (\<lambda>t. unat st dvd t) [a..<a + k]))))"
proof (cases k)
  case (Suc k')
  let ?m = "m1\<lparr>m_state := ST_SAMPLING, m_action := ACT_STAND_BY\<rparr>"
  have m1: "m1 = m\<lparr>m_action := ACT_START, m_step := st, samples_left := int n\<rparr>" "st > 0"
    using assms(5) by (auto simp: dat_set_stmachine_state_def split: if_splits)
  have ok: "mach_ok m1" "mach_ok ?m" using assms(3,6) m1 by (simp_all add: mach_ok_iff in_int_def)
  have "apply_action m1 = ?m" "apply_action ?m = ?m" by (simp_all add: apply_action_def m1)
  then have same: "sensors_tick ad (ram_cfg alloc tr) repo e m1 s = sensors_tick ad (ram_cfg alloc tr) repo e ?m s" for e
    by (simp add: sensors_tick_def)
  have "sensors_run ad (ram_cfg alloc tr) repo k (int a) m1 s = sensors_run ad (ram_cfg alloc tr) repo k (int a) ?m s"
    by (simp add: Suc same)
  moreover have "sample_cmds c ?m = sample_cmds c m" "m_step ?m = st" by (simp_all add: sample_cmds_def m1)
  ultimately show ?thesis
    using ram_repo.run_sampling [OF assms(1,2) ok(2) assms(4), of n a k alloc] assms(7) m1 by auto
qed simp

text \<open>
  The sensor machine survives a reset. After every round without a command the task, started again from the five status variables, has the
  machine it had, if the step of the machine is less than 2 to the 31; a larger step is stored as a negative
  number and the task starts with its default machine instead. The other variables keep their values.
\<close>

theorem sensors_restart:
  assumes "ram_inv data_map (n_copies tr) s" "addrs_ok ad" "mach_ok m" "cmd_get_str ''sen_take_sample'' repo = Some c"
    and "a < 2147483647"
  shows "\<exists>sent m' s'. sensors_tick ad (ram_cfg alloc tr) repo (int a) m s = Some (int a + 1, sent, m', s') \<and>
     sensors_start ad (ram_cfg alloc tr) s' = Some (if m_step m' < 2147483648 then m' else default_machine) \<and>
     (\<forall>j. 0 \<le> j \<longrightarrow> j < 17 \<longrightarrow> j \<notin> set (addr_list ad) \<longrightarrow>
        dat_get_system_var (ram_cfg alloc tr) j s' = dat_get_system_var (ram_cfg alloc tr) j s)"
proof (rule ram_repo.tick_result [where alloc = alloc, OF assms])
  fix m1 sent s'
  assume t: "sensors_tick ad (ram_cfg alloc tr) repo (int a) m s = Some (int (Suc a), sent, m1, s')"
    "ram_inv data_map (n_copies tr) s'"
    "sensors_start ad (ram_cfg alloc tr) s' = Some (if v_i (m_step m1) < 0 then default_machine else m1)"
    "\<forall>j. 0 \<le> j \<longrightarrow> j < 17 \<longrightarrow> j \<notin> set (addr_list ad) \<longrightarrow> ram_repo.sys alloc tr s' j = ram_repo.sys alloc tr s j"
  have "v_i (m_step m1) < 0 \<longleftrightarrow> \<not> m_step m1 < 2147483648" by (rule v_i_negative)
  moreover have "dat_get_system_var (ram_cfg alloc tr) j s' = dat_get_system_var (ram_cfg alloc tr) j s"
    if "0 \<le> j" "j < 17" "j \<notin> set (addr_list ad)" for j
    using ram_repo.get_sys [OF t(2) that(1,2), of alloc] ram_repo.get_sys [OF assms(1) that(1,2), of alloc] t(4) that by simp
  ultimately show ?thesis using t(1,3) by (auto simp: add.commute)
qed


section \<open>Witnesses\<close>

lemma sensors_table:
  "\<exists>repo c. cmd_add ''sen_take_sample'' ''take_sample'' ''%u'' 1 cmd_repo_zero = Some (1, repo) \<and>
     cmd_get_str ''sen_take_sample'' repo = Some (Some c) \<and> c_function c = Some ''take_sample''"
proof -
  let ?z = "\<lparr>ce_nparams = 0, ce_fmt = None, ce_name = None, ce_function = None\<rparr> :: cmd_entry"
  let ?e = "\<lparr>ce_nparams = 1, ce_fmt = Some ''%u'', ce_name = Some ''sen_take_sample'', ce_function = Some ''take_sample''\<rparr>"
  have z: "cmd_repo_zero = \<lparr>cmd_list = ?z # replicate 254 ?z, cmd_index = 0, cmd_is_sorted = True\<rparr>"
    by (simp add: cmd_repo_zero_def numeral_eq_Suc)
  have "cmd_add ''sen_take_sample'' ''take_sample'' ''%u'' 1 cmd_repo_zero =
      Some (1, \<lparr>cmd_list = ?e # replicate 254 ?z, cmd_index = 1, cmd_is_sorted = True\<rparr>)"
    unfolding z by (simp add: cmd_add_def arr_set_def config_defs)
  moreover have "cmd_get_str ''sen_take_sample'' \<lparr>cmd_list = ?e # replicate 254 ?z, cmd_index = 1, cmd_is_sorted = True\<rparr> =
      Some (Some \<lparr>c_id = 0, c_nparams = 1, c_fmt = Some ''%u'', c_params = None, c_function = Some ''take_sample''\<rparr>)"
    by (simp add: cmd_get_str_def cmd_get_idx_def arr_get_def config_defs)
  ultimately show ?thesis by auto
qed


lemma some_addrs: "addrs_ok \<lparr>ad_action = 8, ad_state = 9, ad_step = 10, ad_payloads = 11, ad_left = 12\<rparr>"
  by (simp add: addrs_ok_def addr_list_def)

text \<open>
  The race: the machine has 10 samples to take, one every second. While the task has found the number limited and not yet
  lowered it, \<^verbatim>\<open>sen_set_machine\<close> sets it to "no limit". The task makes -2 of it, and lowers it further in every round.
\<close>

definition race :: "'s sens_act list" where
  "race = [Set_Machine (Some (''1 1 10'' @ [NUL])), Command_Step, Command_Step, Command_Step] @
     replicate 11 Task_Step @
     [Set_Machine (Some (''1 1 -1'' @ [NUL])), Command_Step, Command_Step, Command_Step, Task_Step]"

lemma race_commands:
  "set_state ''%u %u %d'' (Some (''1 1 10'' @ [NUL])) 3 default_machine =
     Some (CMD_OK, default_machine\<lparr>m_action := 1, m_step := 1, samples_left := 10\<rparr>)"
  "set_state ''%u %u %d'' (Some (''1 1 -1'' @ [NUL])) 3 (default_machine\<lparr>m_state := 1, m_action := 2, m_step := 1, samples_left := 10\<rparr>) =
     Some (CMD_OK, default_machine\<lparr>m_state := 1, m_action := 1, m_step := 1, samples_left := - 1\<rparr>)"
  by code_simp+

lemma sensors_race:
  "\<exists>x. sens_run ad cfg repo race (sens_begin default_machine s) = Some x \<and> samples_left (s_mach x) = - 2 \<and>
     s_elapsed x = 0"
proof -
  note [simp] = race_commands [unfolded default_machine_def, simplified]
  have active: "dat_stmachine_is_sensor_active i 0 4 = Some False" if "0 \<le> i" "i < 31" for i
    using that by (simp add: dat_stmachine_is_sensor_active_def require_def)
  have "v_i (0 :: 32 word) = 0" "v_i (4 :: 32 word) = 4" by (simp_all add: v_i_def)
  then show ?thesis
    by (simp add: race_def sens_begin_def default_machine_def sens_command_def Let_def sens_task_def Let_def apply_action_def require_def
        numeral_eq_Suc nsensors_def active of_i_def in_int_def)
qed

theorem sensors_never_stuck_witness:
  "\<exists>s repo x x'. dat_repo_init True (ram_cfg alloc_all False) ram_zero = Some s \<and>
     cmd_add ''sen_take_sample'' ''take_sample'' ''%u'' 1 cmd_repo_zero = Some (1, repo) \<and>
     sens_run \<lparr>ad_action = 8, ad_state = 0, ad_step = 10, ad_payloads = 11, ad_left = 12\<rparr> (ram_cfg alloc_all False) repo race
       (sens_begin default_machine s) = Some x \<and> samples_left (s_mach x) = - 2 \<and> 0 < m_step (s_mach x) \<and>
     sens_event \<lparr>ad_action = 8, ad_state = 0, ad_step = 10, ad_payloads = 11, ad_left = 12\<rparr> (ram_cfg alloc_all False) repo
       Task_Step x = Some x'"
proof -
  let ?ad = "\<lparr>ad_action = 8, ad_state = 0, ad_step = 10, ad_payloads = 11, ad_left = 12\<rparr>" and ?cfg = "ram_cfg alloc_all False"
  obtain s where s: "dat_repo_init True ?cfg ram_zero = Some s" "ram_inv data_map (n_copies False) s"
      "\<And>j. j < 17 \<Longrightarrow> vote False (ram_vars s) j = sv_value (dat_get_status_var_def (int j))"
    using ram_repo_init [of alloc_all False] by (auto simp: alloc_all_def)
  obtain repo c where r: "cmd_add ''sen_take_sample'' ''take_sample'' ''%u'' 1 cmd_repo_zero = Some (1, repo)"
      "cmd_get_str ''sen_take_sample'' repo = Some (Some c)" using sensors_table by blast
  have get: "dat_get_system_var ?cfg (int j) s = Some (v_i (sv_value (dat_get_status_var_def (int j))))" if "j < 17" for j
    using ram_repo.get_var [OF s(2) that, of alloc_all] s(3) [OF that] by (simp add: dat_get_system_var_def)
  have "v_i (sv_value (dat_get_status_var_def 0)) = - 1"
    by (simp add: dat_get_status_var_def_def dat_status_list_def sys_var_def addr_defs in_int_def)
  then have saved: "saved_ok ?ad ?cfg s" and start: "sensors_start ?ad ?cfg s = Some default_machine"
    using get [of 8] get [of 0] get [of 10] get [of 11] get [of 12]
    by (simp_all add: saved_ok_def sensors_start_def default_machine_def nsensors_def)
  obtain x where x: "sens_run ?ad ?cfg repo race (sens_begin default_machine s) = Some x" "samples_left (s_mach x) = - 2"
      "s_elapsed x = 0"
    using sensors_race [of ?ad ?cfg repo s] by auto
  have "addrs_ok ?ad" by (simp add: addrs_ok_def addr_list_def)
  moreover have "\<forall>s'. Repository s' \<in> set race \<longrightarrow> ram_inv data_map (n_copies False) s'" by (simp add: race_def)
  ultimately have "0 < m_step (s_mach x) \<and> (\<exists>x'. sens_event ?ad ?cfg repo Task_Step x = Some x')"
    using sensors_never_stuck [OF saved s(2) _ r(2) start x(1)] x(3) by simp
  then show ?thesis using s(1) r(1) x by blast
qed

theorem sensors_sample_count_witness:
  "\<exists>s repo c c' m1 m' s'. dat_repo_init True (ram_cfg alloc_all False) ram_zero = Some s \<and>
     dat_set_stmachine_state 1 2 3 (default_machine\<lparr>active_payloads := 5\<rparr>) = (1, m1) \<and>
     sensors_run \<lparr>ad_action = 8, ad_state = 9, ad_step = 10, ad_payloads = 11, ad_left = 12\<rparr> (ram_cfg alloc_all False)
       repo 8 7 m1 s =
       Some ([(7, []), (8, [c 0, c 2]), (9, []), (10, [c 0, c 2]), (11, []), (12, [c 0, c 2]), (13, []), (14, [])], m', s') \<and>
     samples_left m' = 0 \<and> c = (\<lambda>i. cmd_add_params_str (c' :: cmd option) (CHR '' '' # show_int i))"
proof -
  let ?ad = "\<lparr>ad_action = 8, ad_state = 9, ad_step = 10, ad_payloads = 11, ad_left = 12\<rparr>"
  let ?m = "default_machine\<lparr>active_payloads := 5\<rparr>"
  obtain s where s: "dat_repo_init True (ram_cfg alloc_all False) ram_zero = Some s" "ram_inv data_map (n_copies False) s"
    by (rule ram_init_inv)
  obtain repo c where r: "cmd_get_str ''sen_take_sample'' repo = Some (Some c)" using sensors_table by blast
  define f where "f = (\<lambda>i. cmd_add_params_str (Some c) (CHR '' '' # show_int i))"
  have set: "dat_set_stmachine_state 1 2 (int 3) ?m = (1, ?m\<lparr>m_action := 1, m_step := 2, samples_left := int 3\<rparr>)"
    by (simp add: dat_set_stmachine_state_def)
  have ok: "mach_ok ?m" using default_machine_ok by (simp add: mach_ok_iff)
  have "bit (5 :: 32 word) 0" "\<not> bit (5 :: 32 word) 1" "bit (5 :: 32 word) 2" "\<not> bit (5 :: 32 word) 3" by simp_all
  then have cmds: "sample_cmds (Some c) ?m = [f 0, f 2]"
    by (simp add: f_def sample_cmds_def upt_rec numeral_3_eq_3)
  have "take 3 (filter (\<lambda>t. 2 dvd t) [7..<15]) = [8, 10, 12 :: nat]" by code_simp
  then obtain m' s' where "sensors_run ?ad (ram_cfg alloc_all False) repo 8 7
      (?m\<lparr>m_action := 1, m_step := 2, samples_left := int 3\<rparr>) s =
      Some ([(7, []), (8, [f 0, f 2]), (9, []), (10, [f 0, f 2]), (11, []), (12, [f 0, f 2]), (13, []), (14, [])], m', s')"
      "samples_left m' = 0"
    using sensors_sample_count [OF s(2) some_addrs ok r set, of 7 8 alloc_all] cmds by (auto simp: upt_rec)
  then show ?thesis using s(1) set f_def by auto
qed

end
