(* ===== verification/App_Simple.thy ===== *)
theory App_Simple
  imports Repo_Spec Cmd_DRP Task_Loops Cmd_OBC Com_Frames
begin

text \<open>
  The application apps/simple: its commands (cmdAPP.c), its task (taskHousekeeping.c) and the whole chain from a
  second on the clock to the data repository: the task sends commands, the commands store samples and count
  hours. The clock and the thermal sensor of the host are parameters; so is the division of a float by 1000.
\<close>

section \<open>Commands\<close>

text \<open>
  \<open>thermal\<close> is what reading the file of the sensor gives: \<open>None\<close> when it cannot be opened, \<open>Some None\<close> when it does not
  start with a number, else the bits of the float. \<open>per_mille\<close> is the division by 1000.
\<close>

record host =
  thermal :: "value32 option option"
  per_mille :: "value32 \<Rightarrow> value32"

definition temp_data :: "value32 \<Rightarrow> value32 \<Rightarrow> value32 \<Rightarrow> byte list" where
  "temp_data index timestamp obc_temp_1 = le32 index @ le32 timestamp @ le32 obc_temp_1"

definition cmd_app_init :: "cmd_reg list" where
  "cmd_app_init =
     [(''obc_get_sensors'', ''obc_get_sensors'', '''', 0),
      (''obc_update_status'', ''obc_update_status'', '''', 0)]"

definition obc_get_sensors :: "host \<Rightarrow> int \<Rightarrow> 's dat_cfg \<Rightarrow> 's \<Rightarrow> (int \<times> 's) option" where
  "obc_get_sensors h now cfg s =
     (case thermal h of
        None \<Rightarrow> Some (CMD_ERROR, s)
      | Some None \<Rightarrow> Some (CMD_ERROR, s)
      | Some (Some millideg) \<Rightarrow>
          do { let curr_time = v_i (of_i now);
               let systemp = per_mille h millideg;
               dm \<leftarrow> arr_get data_map 0;
               index_temp \<leftarrow> dat_get_system_var cfg (sys_index dm) s;
               (_, s1) \<leftarrow> dat_add_payload_sample cfg (Some (temp_data (of_i index_temp) (of_i curr_time) systemp)) 0 s;
               Some (CMD_OK, s1) })"

definition obc_update_status :: "host \<Rightarrow> int \<Rightarrow> 's dat_cfg \<Rightarrow> 's \<Rightarrow> (int \<times> 's) option" where
  "obc_update_status h now cfg s =
     (case thermal h of
        None \<Rightarrow> Some (CMD_ERROR, s)
      | Some None \<Rightarrow> Some (CMD_ERROR, s)
      | Some (Some millideg) \<Rightarrow>
          do { (_, s1) \<leftarrow> dat_set_status_var cfg dat_obc_temp_1 (per_mille h millideg) s; Some (CMD_OK, s1) })"

section \<open>The task\<close>

definition LOG_LVL_DEBUG :: "32 word" where [config_defs]: "LOG_LVL_DEBUG = 5"

definition housekeeping_tick ::
    "'s dat_cfg \<Rightarrow> cmd_repo \<Rightarrow> 32 word \<Rightarrow> int \<Rightarrow> 32 word \<Rightarrow> 's \<Rightarrow> (32 word \<times> cmd option list \<times> 's) option" where
  "housekeeping_tick cfg repo lvl now elapsed s =
     do { let elapsed_sec = elapsed + 1;
          (_, s1) \<leftarrow> dat_set_system_var cfg dat_rtc_date_time (v_i (of_i now)) s;
          dbg \<leftarrow> (if lvl > LOG_LVL_DEBUG
                   then do { c \<leftarrow> cmd_get_str ''obc_debug'' repo; c' \<leftarrow> cmd_add_params_var c [0]; Some [c'] }
                   else Some []);
          upd \<leftarrow> (if elapsed_sec mod 60 = 0
                   then do { a \<leftarrow> cmd_get_str ''obc_get_sensors'' repo;
                             b \<leftarrow> cmd_get_str ''obc_update_status'' repo;
                             Some [a, b] }
                   else Some []);
          hrs \<leftarrow> (if elapsed_sec mod 3600 = 0
                   then do { c \<leftarrow> cmd_build_from_str ''drp_add_hrs_alive 1'' repo; Some [c] }
                   else Some []);
          Some (elapsed_sec, dbg @ upd @ hrs, s1) }"

text \<open>
  The commands the task sends, run by the executer: those that use the data repository by their handlers. (\<open>obc_debug\<close> writes a
  line and leaves the repository alone.)
\<close>

definition exec_app :: "host \<Rightarrow> int \<Rightarrow> 's dat_cfg \<Rightarrow> cmd option \<Rightarrow> 's \<Rightarrow> 's option" where
  "exec_app h now cfg c s =
     (case c of
        None \<Rightarrow> Some s
      | Some cm \<Rightarrow>
          if c_function cm = Some ''obc_get_sensors'' then map_option snd (obc_get_sensors h now cfg s)
          else if c_function cm = Some ''obc_update_status'' then map_option snd (obc_update_status h now cfg s)
          else if c_function cm = Some ''drp_update_hours_alive''
          then do { fmt \<leftarrow> c_fmt cm; map_option snd (drp_update_hours_alive cfg fmt (c_params cm) (c_nparams cm) s) }
          else Some s)"

fun exec_all :: "host \<Rightarrow> int \<Rightarrow> 's dat_cfg \<Rightarrow> cmd option list \<Rightarrow> 's \<Rightarrow> 's option" where
  "exec_all h now cfg [] s = Some s"
| "exec_all h now cfg (c # cs) s = do { s1 \<leftarrow> exec_app h now cfg c s; exec_all h now cfg cs s1 }"

text \<open>\<open>k\<close> seconds of the node, with the clock and the sensor of every second.\<close>

fun housekeeping_run ::
    "'s dat_cfg \<Rightarrow> cmd_repo \<Rightarrow> 32 word \<Rightarrow> (nat \<Rightarrow> int) \<Rightarrow> (nat \<Rightarrow> host) \<Rightarrow> nat \<Rightarrow> 's \<Rightarrow> (32 word \<times> 's) option" where
  "housekeeping_run cfg repo lvl clock hosts 0 s = Some (1, s)"
| "housekeeping_run cfg repo lvl clock hosts (Suc k) s =
     do { (e, s1) \<leftarrow> housekeeping_run cfg repo lvl clock hosts k s;
          (e', sent, s2) \<leftarrow> housekeeping_tick cfg repo lvl (clock k) e s1;
          s3 \<leftarrow> exec_all (hosts k) (clock k) cfg sent s2;
          Some (e', s3) }"


section \<open>Handlers and the view of the repository\<close>

definition app_table :: "cmd_repo \<Rightarrow> bool" where
  "app_table repo \<longleftrightarrow>
     (\<exists>g. cmd_get_str ''obc_get_sensors'' repo = Some (Some g) \<and> c_function g = Some ''obc_get_sensors'') \<and>
     (\<exists>u. cmd_get_str ''obc_update_status'' repo = Some (Some u) \<and> c_function u = Some ''obc_update_status'') \<and>
     (\<exists>d. cmd_get_str ''obc_debug'' repo = Some (Some d) \<and> c_function d = Some ''obc_debug'' \<and> c_fmt d = Some ''%d'') \<and>
     (\<exists>c. cmd_build_from_str ''drp_add_hrs_alive 1'' repo = Some (Some c) \<and>
        c_function c = Some ''drp_update_hours_alive'' \<and> c_fmt c = Some ''%d'' \<and>
        c_params c = Some (show_int 1 @ [NUL]) \<and> c_nparams c = 1)"

lemma length_temp_data [simp]: "length (temp_data i t f) = 12"
  by (simp add: temp_data_def le32_def)

context payload_repo
begin

lemma shows_get_sys: "shows_repo s (vs, bs) \<Longrightarrow> 0 \<le> i \<Longrightarrow> i < 17 \<Longrightarrow> dat_get_system_var cfg i s = Some (v_i (vs (nat i)))"
  using get_sys [of s i] by (simp add: shows_repo_def sampling_def sys_def)

lemma shows_set_sys:
  assumes "shows_repo s (vs, bs)" "0 \<le> i" "i < 17" "i \<noteq> dat_drp_idx_temp"
  shows "\<exists>s'. dat_set_system_var cfg i n s = Some (SCH_ST_OK, s') \<and> shows_repo s' (vs(nat i := of_i n), bs)"
  using shows_set [OF assms(1), of "nat i" "of_i n"] assms(2-4) by (simp add: dat_set_system_var_def)

lemma shows_index:
  assumes "shows_repo s (vs, bs)"
  shows "vs (nat dat_drp_idx_temp) = of_i (int (length bs))"
proof -
  have s: "sampling s" "held s 0 = bs" using assms by (simp_all add: shows_repo_def)
  obtain k where k: "sys s dat_drp_idx_temp = int k" "held s 0 = map (samples s 0) [0..<k]"
    using sampling_index [OF s(1) temp_payload(1)] temp_payload(3) by metis
  have "k = length bs" using k(2) s(2) by (metis diff_zero length_map length_upt)
  moreover have "vs (nat dat_drp_idx_temp) = of_i (sys s dat_drp_idx_temp)"
    using assms by (simp add: shows_repo_def sys_def addr_defs)
  ultimately show ?thesis using k(1) by simp
qed

lemma shows_sensors:
  assumes "shows_repo s (vs, bs)" "length bs < cap 0" "thermal h = Some (Some r)"
  shows "\<exists>s' vs'. obc_get_sensors h now cfg s = Some (CMD_OK, s') \<and>
     shows_repo s' (vs', bs @ [temp_data (of_nat (length bs)) (of_i now) (per_mille h r)]) \<and>
     (\<forall>i. i \<noteq> nat dat_drp_idx_temp \<longrightarrow> vs' i = vs i)"
proof -
  let ?b = "temp_data (of_i (int (length bs))) (of_i now) (per_mille h r)"
  from shows_add [OF assms(1) _ assms(2), of ?b] obtain s' where
      s': "dat_add_payload_sample cfg (Some ?b) 0 s = Some (0, s')"
        "shows_repo s' (vs(nat dat_drp_idx_temp := of_i (int (length bs) + 1)), bs @ [?b])" by auto
  have "arr_get data_map 0 = Some (data_map ! 0)" by (simp add: arr_get_def data_map_def)
  then have "obc_get_sensors h now cfg s = Some (CMD_OK, s')"
    using assms(3) s'(1) shows_get_sys [OF assms(1), of dat_drp_idx_temp] shows_index [OF assms(1)] temp_payload(3)
    by (simp add: obc_get_sensors_def addr_defs)
  moreover have "of_i (int (length bs)) = (of_nat (length bs) :: value32)" by (simp add: of_i_def)
  ultimately show ?thesis using s'(2) by (intro exI [of _ s'] exI [of _ "vs(nat dat_drp_idx_temp := of_i (int (length bs) + 1))"]) simp
qed

lemma shows_status:
  assumes "shows_repo s (vs, bs)" "thermal h = Some (Some r)"
  shows "\<exists>s'. obc_update_status h now cfg s = Some (CMD_OK, s') \<and>
     shows_repo s' (vs(nat dat_obc_temp_1 := per_mille h r), bs)"
  using shows_set [OF assms(1), of "nat dat_obc_temp_1" "per_mille h r"] assms(2)
  by (auto simp: obc_update_status_def addr_defs)

lemma shows_hours:
  assumes "shows_repo s (vs, bs)" "in_int (v_i (vs (nat dat_obc_hrs_alive)) + 1)" "in_int (v_i (vs (nat dat_obc_hrs_wo_reset)) + 1)"
  shows "\<exists>s'. drp_update_hours_alive cfg ''%d'' (Some (show_int 1 @ [NUL])) 1 s = Some (CMD_OK, s') \<and>
     shows_repo s' (vs(nat dat_obc_hrs_alive := of_i (v_i (vs (nat dat_obc_hrs_alive)) + 1),
        nat dat_obc_hrs_wo_reset := of_i (v_i (vs (nat dat_obc_hrs_wo_reset)) + 1)), bs)"
proof -
  let ?a = "dat_obc_hrs_alive" and ?w = "dat_obc_hrs_wo_reset"
  have ad: "0 \<le> ?a" "?a < 17" "?a \<noteq> dat_drp_idx_temp" "0 \<le> ?w" "?w < 17" "?w \<noteq> dat_drp_idx_temp" "nat ?a \<noteq> nat ?w"
    by (simp_all add: addr_defs)
  obtain s1 where s1: "dat_set_system_var cfg ?a (v_i (vs (nat ?a)) + 1) s = Some (SCH_ST_OK, s1)"
      "shows_repo s1 (vs(nat ?a := of_i (v_i (vs (nat ?a)) + 1)), bs)" using shows_set_sys [OF assms(1) ad(1-3)] by blast
  obtain s2 where s2: "dat_set_system_var cfg ?w (v_i (vs (nat ?w)) + 1) s1 = Some (SCH_ST_OK, s2)"
      "shows_repo s2 (vs(nat ?a := of_i (v_i (vs (nat ?a)) + 1), nat ?w := of_i (v_i (vs (nat ?w)) + 1)), bs)"
    using shows_set_sys [OF s1(2) ad(4-6)] by blast
  have "in_int 1" by (simp add: in_int_def)
  from parse_int_param [OF this, of 0]
  have "drp_update_hours_alive cfg ''%d'' (Some (show_int 1 @ [NUL])) 1 s = Some (CMD_OK, s2)"
    using shows_get_sys [OF assms(1) ad(1,2)] shows_get_sys [OF s1(2) ad(4,5)] s1(1) s2(1) ad(7) assms(2,3)
    by (simp add: drp_update_hours_alive_def in_int_def config_defs)
  then show ?thesis using s2(2) by blast
qed

end


section \<open>The seconds of the node\<close>

text \<open>The samples after the counter of seconds has reached \<open>n\<close>: one for each full minute.\<close>

definition minute_samples :: "(nat \<Rightarrow> int) \<Rightarrow> (nat \<Rightarrow> host) \<Rightarrow> nat \<Rightarrow> byte list list" where
  "minute_samples clock hosts n =
     map (\<lambda>j. temp_data (of_nat j) (of_i (clock (60 * j + 58)))
                (per_mille (hosts (60 * j + 58)) (the (the (thermal (hosts (60 * j + 58))))))) [0..<n div 60]"

lemma minute_samples_length [simp]: "length (minute_samples clock hosts n) = n div 60"
  by (simp add: minute_samples_def)

lemma minute_samples_Suc:
  "minute_samples clock hosts (Suc (Suc k)) =
     (if 60 dvd Suc (Suc k)
      then minute_samples clock hosts (Suc k) @
        [temp_data (of_nat (Suc k div 60)) (of_i (clock k)) (per_mille (hosts k) (the (the (thermal (hosts k)))))]
      else minute_samples clock hosts (Suc k))"
proof (cases "60 dvd Suc (Suc k)")
  case True
  then obtain q where q: "Suc (Suc k) = 60 * q" by (rule dvdE)
  then obtain j where j: "q = Suc j" by (cases q) auto
  have "Suc k div 60 = j" "k = 60 * j + 58" "Suc (Suc k) div 60 = Suc j" using q j by auto
  then show ?thesis using True by (simp add: minute_samples_def)
next
  case False
  then have "Suc (Suc k) div 60 = Suc k div 60" by (simp add: div_Suc dvd_eq_mod_eq_0)
  then show ?thesis using False by (simp add: minute_samples_def)
qed

lemma hour_Suc: "Suc (Suc k) div 3600 = Suc k div 3600 + (if 3600 dvd Suc (Suc k) then 1 else 0)" for k :: nat
  by (simp add: div_Suc dvd_eq_mod_eq_0)

lemma debug_cmd: "c_fmt d = Some ''%d'' \<Longrightarrow> \<exists>d'. cmd_add_params_var (Some d) [0] = Some (Some d') \<and> c_function d' = c_function d"
proof -
  assume d: "c_fmt d = Some ''%d''"
  have "length (show_int 0) < 248" using show_int_length [of 0] by (simp add: in_int_def)
  then show ?thesis using d
    by (auto simp: cmd_add_params_var_def cmd_add_params_str_def require_def config_defs Let_def)
qed

context payload_repo
begin

definition hours_view :: "(nat \<Rightarrow> value32) \<Rightarrow> int \<Rightarrow> int \<Rightarrow> bool" where
  "hours_view vs a w \<longleftrightarrow> v_i (vs (nat dat_obc_hrs_alive)) = a \<and> v_i (vs (nat dat_obc_hrs_wo_reset)) = w"

text \<open>What the commands of one second do.\<close>

lemma exec_minute:
  assumes "app_table repo" "shows_repo s (vs, bs)" "hours_view vs a w" "length bs < cap 0" "thermal h = Some (Some r)"
  shows "\<exists>g u s' vs'. cmd_get_str ''obc_get_sensors'' repo = Some g \<and> cmd_get_str ''obc_update_status'' repo = Some u \<and>
     exec_all h now cfg [g, u] s = Some s' \<and> hours_view vs' a w \<and>
     shows_repo s' (vs', bs @ [temp_data (of_nat (length bs)) (of_i now) (per_mille h r)])"
proof -
  obtain g u where g: "cmd_get_str ''obc_get_sensors'' repo = Some (Some g)" "c_function g = Some ''obc_get_sensors''"
      "cmd_get_str ''obc_update_status'' repo = Some (Some u)" "c_function u = Some ''obc_update_status''"
    using assms(1) by (auto simp: app_table_def)
  let ?bs = "bs @ [temp_data (of_nat (length bs)) (of_i now) (per_mille h r)]"
  from shows_sensors [OF assms(2,4,5), of now] obtain s1 vs1 where s1: "obc_get_sensors h now cfg s = Some (CMD_OK, s1)"
      "shows_repo s1 (vs1, ?bs)" "\<forall>i. i \<noteq> nat dat_drp_idx_temp \<longrightarrow> vs1 i = vs i" by blast
  from shows_status [OF s1(2) assms(5), of now] obtain s2 where s2: "obc_update_status h now cfg s1 = Some (CMD_OK, s2)"
      "shows_repo s2 (vs1(nat dat_obc_temp_1 := per_mille h r), ?bs)" by blast
  have "hours_view (vs1(nat dat_obc_temp_1 := per_mille h r)) a w"
    using assms(3) s1(3) by (simp add: hours_view_def addr_defs)
  then show ?thesis using g s1(1) s2 by (auto simp: exec_app_def)
qed

lemma exec_hour:
  assumes "app_table repo" "shows_repo s (vs, bs)" "hours_view vs a w" "in_int (a + 1)" "in_int (w + 1)"
  shows "\<exists>c s' vs'. cmd_build_from_str ''drp_add_hrs_alive 1'' repo = Some c \<and>
     exec_all h now cfg [c] s = Some s' \<and> hours_view vs' (a + 1) (w + 1) \<and> shows_repo s' (vs', bs)"
proof -
  obtain c where c: "cmd_build_from_str ''drp_add_hrs_alive 1'' repo = Some (Some c)"
      "c_function c = Some ''drp_update_hours_alive''" "c_fmt c = Some ''%d''" "c_params c = Some (show_int 1 @ [NUL])"
      "c_nparams c = 1" using assms(1) by (auto simp: app_table_def)
  have v: "v_i (vs (nat dat_obc_hrs_alive)) = a" "v_i (vs (nat dat_obc_hrs_wo_reset)) = w"
    using assms(3) by (simp_all add: hours_view_def)
  let ?vs = "vs(nat dat_obc_hrs_alive := of_i (a + 1), nat dat_obc_hrs_wo_reset := of_i (w + 1))"
  from shows_hours [OF assms(2)] assms(4,5) v obtain s' where
      s': "drp_update_hours_alive cfg ''%d'' (Some (show_int 1 @ [NUL])) 1 s = Some (CMD_OK, s')" "shows_repo s' (?vs, bs)"
    by auto
  have "hours_view ?vs (a + 1) (w + 1)" using assms(4,5) by (simp add: hours_view_def addr_defs)
  then show ?thesis using c s' by (auto simp: exec_app_def)
qed

end

lemma exec_all_append: "exec_all h now cfg (xs @ ys) s = do { s1 \<leftarrow> exec_all h now cfg xs s; exec_all h now cfg ys s1 }"
  by (induction xs arbitrary: s) (auto split: Option.bind_splits)


context payload_repo
begin

lemma second_minute:
  assumes "app_table repo" "shows_repo s (vs, bs)" "hours_view vs a w" "thermal h = Some (Some r)"
    and "P \<longrightarrow> length bs < cap 0"
  shows "\<exists>upd s' vs'. (if P then do { g \<leftarrow> cmd_get_str ''obc_get_sensors'' repo; u \<leftarrow> cmd_get_str ''obc_update_status'' repo;
         Some [g, u] } else Some []) = Some upd \<and>
     exec_all h now cfg upd s = Some s' \<and> hours_view vs' a w \<and>
     shows_repo s' (vs', if P then bs @ [temp_data (of_nat (length bs)) (of_i now) (per_mille h r)] else bs)"
proof (cases P)
  case True
  then show ?thesis using exec_minute [OF assms(1-3) _ assms(4), of now] assms(5) by fastforce
next
  case False
  then show ?thesis using assms(2,3) by auto
qed

lemma second_hour:
  assumes "app_table repo" "shows_repo s (vs, bs)" "hours_view vs a w"
    and "P \<longrightarrow> in_int (a + 1) \<and> in_int (w + 1)"
  shows "\<exists>hrs s' vs'. (if P then do { c \<leftarrow> cmd_build_from_str ''drp_add_hrs_alive 1'' repo; Some [c] } else Some []) = Some hrs \<and>
     exec_all h now cfg hrs s = Some s' \<and> hours_view vs' (if P then a + 1 else a) (if P then w + 1 else w) \<and>
     shows_repo s' (vs', bs)"
proof (cases P)
  case True
  then show ?thesis using exec_hour [OF assms(1-3), of h now] assms(4) by fastforce
next
  case False
  then show ?thesis using assms(2,3) by auto
qed

lemma second_debug:
  assumes "app_table repo"
  shows "\<exists>dbg. (if P then do { c \<leftarrow> cmd_get_str ''obc_debug'' repo; c' \<leftarrow> cmd_add_params_var c [0]; Some [c'] } else Some []) =
       Some dbg \<and> exec_all h now cfg dbg s = Some s"
proof (cases P)
  case True
  obtain d where d: "cmd_get_str ''obc_debug'' repo = Some (Some d)" "c_function d = Some ''obc_debug''" "c_fmt d = Some ''%d''"
    using assms by (auto simp: app_table_def)
  from debug_cmd [OF d(3)] d True show ?thesis by (auto simp: exec_app_def)
next
  case False
  then show ?thesis by auto
qed

lemma housekeeping_second:
  assumes "app_table repo" "shows_repo s (vs, bs)" "hours_view vs a w" "Suc (Suc k) < 2 ^ 32" "thermal h = Some (Some r)"
    and "60 dvd Suc (Suc k) \<longrightarrow> length bs < cap 0"
    and "3600 dvd Suc (Suc k) \<longrightarrow> in_int (a + 1) \<and> in_int (w + 1)"
  shows "\<exists>sent s2 s3 vs'. housekeeping_tick cfg repo lvl now (of_nat (Suc k)) s = Some (of_nat (Suc (Suc k)), sent, s2) \<and>
     exec_all h now cfg sent s2 = Some s3 \<and>
     hours_view vs' (if 3600 dvd Suc (Suc k) then a + 1 else a) (if 3600 dvd Suc (Suc k) then w + 1 else w) \<and>
     shows_repo s3 (vs', if 60 dvd Suc (Suc k) then bs @ [temp_data (of_nat (length bs)) (of_i now) (per_mille h r)] else bs)"
proof -
  have rtc: "0 \<le> dat_rtc_date_time" "dat_rtc_date_time < 17" "dat_rtc_date_time \<noteq> dat_drp_idx_temp" by (simp_all add: addr_defs)
  from shows_set_sys [OF assms(2) rtc, of "v_i (of_i now)"] obtain s1 where
      s1: "dat_set_system_var cfg dat_rtc_date_time (v_i (of_i now)) s = Some (SCH_ST_OK, s1)"
        "shows_repo s1 (vs(nat dat_rtc_date_time := of_i (v_i (of_i now))), bs)" by blast
  have v: "hours_view (vs(nat dat_rtc_date_time := of_i (v_i (of_i now)))) a w"
    using assms(3) by (simp add: hours_view_def addr_defs)
  from second_debug [OF assms(1), of "lvl > LOG_LVL_DEBUG" h now s1] obtain dbg where
      dbg: "(if lvl > LOG_LVL_DEBUG then do { c \<leftarrow> cmd_get_str ''obc_debug'' repo; c' \<leftarrow> cmd_add_params_var c [0]; Some [c'] }
         else Some []) = Some dbg" "exec_all h now cfg dbg s1 = Some s1" by blast
  let ?n = "of_nat (Suc k) + 1 :: 32 word"
  have n: "?n = of_nat (Suc (Suc k))" by (simp add: add.commute)
  have due: "?n mod 60 = 0 \<longleftrightarrow> 60 dvd Suc (Suc k)" "?n mod 3600 = 0 \<longleftrightarrow> 3600 dvd Suc (Suc k)"
    unfolding n using of_nat_word_mod_0 [OF assms(4), of 60] of_nat_word_mod_0 [OF assms(4), of 3600] by simp_all
  from second_minute [OF assms(1) s1(2) v assms(5,6), of now] obtain upd s2 vs2 where
      upd: "(if 60 dvd Suc (Suc k) then do { g \<leftarrow> cmd_get_str ''obc_get_sensors'' repo; u \<leftarrow> cmd_get_str ''obc_update_status'' repo;
         Some [g, u] } else Some []) = Some upd" "exec_all h now cfg upd s1 = Some s2" "hours_view vs2 a w"
        "shows_repo s2 (vs2, if 60 dvd Suc (Suc k) then bs @ [temp_data (of_nat (length bs)) (of_i now) (per_mille h r)] else bs)"
    by blast
  from second_hour [OF assms(1) upd(4,3) assms(7), of h now] obtain hrs s3 vs3 where
      hrs: "(if 3600 dvd Suc (Suc k) then do { c \<leftarrow> cmd_build_from_str ''drp_add_hrs_alive 1'' repo; Some [c] } else Some []) =
         Some hrs" "exec_all h now cfg hrs s2 = Some s3"
        "hours_view vs3 (if 3600 dvd Suc (Suc k) then a + 1 else a) (if 3600 dvd Suc (Suc k) then w + 1 else w)"
        "shows_repo s3 (vs3, if 60 dvd Suc (Suc k) then bs @ [temp_data (of_nat (length bs)) (of_i now) (per_mille h r)] else bs)"
    by blast
  have "housekeeping_tick cfg repo lvl now (of_nat (Suc k)) s = Some (of_nat (Suc (Suc k)), dbg @ upd @ hrs, s1)"
    unfolding housekeeping_tick_def Let_def due using s1(1) dbg(1) upd(1) hrs(1) n by simp
  moreover have "exec_all h now cfg (dbg @ upd @ hrs) s1 = Some s3"
    using dbg(2) upd(2) hrs(2) by (simp add: exec_all_append)
  ultimately show ?thesis using hrs(3,4) by blast
qed

lemma housekeeping_seconds:
  assumes "app_table repo" "shows_repo s (vs, [])" "hours_view vs a w" "\<forall>i < k. \<exists>r. thermal (hosts i) = Some (Some r)"
    and "Suc k < 2 ^ 32" "Suc k div 60 \<le> cap 0" "0 \<le> a" "0 \<le> w"
    and "in_int (a + int (Suc k div 3600))" "in_int (w + int (Suc k div 3600))"
  shows "\<exists>s' vs'. housekeeping_run cfg repo lvl clock hosts k s = Some (of_nat (Suc k), s') \<and>
     shows_repo s' (vs', minute_samples clock hosts (Suc k)) \<and>
     hours_view vs' (a + int (Suc k div 3600)) (w + int (Suc k div 3600))"
  using assms(4-6,9,10)
proof (induction k)
  case 0
  then show ?case using assms(2,3) by (auto simp: minute_samples_def)
next
  case (Suc k)
  let ?d = "int (Suc k div 3600)"
  have mono: "Suc k div 60 \<le> Suc (Suc k) div 60" "Suc k div 3600 \<le> Suc (Suc k) div 3600" by (simp_all add: div_le_mono)
  have in_le: "in_int (x + int m)" if "in_int (x + int n)" "m \<le> n" "0 \<le> x" for x m n
    using that by (simp add: in_int_def)
  from Suc.IH Suc.prems mono in_le [OF Suc.prems(4) mono(2) assms(7)] in_le [OF Suc.prems(5) mono(2) assms(8)] obtain s1 vs1 where
      s1: "housekeeping_run cfg repo lvl clock hosts k s = Some (of_nat (Suc k), s1)"
        "shows_repo s1 (vs1, minute_samples clock hosts (Suc k))" "hours_view vs1 (a + ?d) (w + ?d)" by auto
  obtain r where r: "thermal (hosts k) = Some (Some r)" using Suc.prems(1) by blast
  have m: "60 dvd Suc (Suc k) \<longrightarrow> length (minute_samples clock hosts (Suc k)) < cap 0"
    using Suc.prems(3) by (auto simp: div_Suc dvd_eq_mod_eq_0)
  have hh: "3600 dvd Suc (Suc k) \<longrightarrow> in_int (a + ?d + 1) \<and> in_int (w + ?d + 1)"
    using Suc.prems(4,5) unfolding hour_Suc by (auto simp: add.assoc)
  from housekeeping_second [OF assms(1) s1(2,3) Suc.prems(2) r m hh, of lvl "clock k"] obtain sent s2 s3 vs' where
      t: "housekeeping_tick cfg repo lvl (clock k) (of_nat (Suc k)) s1 = Some (of_nat (Suc (Suc k)), sent, s2)"
        "exec_all (hosts k) (clock k) cfg sent s2 = Some s3"
        "hours_view vs' (if 3600 dvd Suc (Suc k) then a + ?d + 1 else a + ?d) (if 3600 dvd Suc (Suc k) then w + ?d + 1 else w + ?d)"
        "shows_repo s3 (vs', if 60 dvd Suc (Suc k) then minute_samples clock hosts (Suc k) @
           [temp_data (of_nat (length (minute_samples clock hosts (Suc k)))) (of_i (clock k)) (per_mille (hosts k) r)]
           else minute_samples clock hosts (Suc k))"
    by blast
  have "shows_repo s3 (vs', minute_samples clock hosts (Suc (Suc k)))" using t(4) r by (simp add: minute_samples_Suc split: if_splits)
  moreover have "hours_view vs' (a + int (Suc (Suc k) div 3600)) (w + int (Suc (Suc k) div 3600))"
    using t(3) unfolding hour_Suc by (auto simp: add.assoc split: if_splits)
  ultimately show ?case using s1(1) t(1,2) by auto
qed

end


section \<open>Properties\<close>

text \<open>
  C33: From the clock to the data repository. A node that runs \<open>k\<close> rounds of the application, one per second, with a sensor that can be
  read, from an empty payload, the commands of each round being run before the next one: after them the payload holds
  \<open>(k + 1) div 60\<close> samples, each with its number, the time and the temperature of the round that sent it, the newest read back
  first; and the two counters of hours have grown by \<open>(k + 1) div 3600\<close>. The task counts its seconds from 1 and adds one before the
  tests, so that the first sample is stored in round 59 and the first hour counted in round 3599, one round before the minute and
  the hour are full. (The comments of the code speak of 10 seconds where it tests for 60.) This holds up to the 218450
  samples that the payload has room for.
\<close>

theorem app_seconds_stored:
  assumes "ram_inv data_map (n_copies tr) s" "app_table repo" "\<forall>i < k. \<exists>r. thermal (hosts i) = Some (Some r)"
    and "dat_get_system_var (ram_cfg alloc tr) dat_drp_idx_temp s = Some 0"
    and "dat_get_system_var (ram_cfg alloc tr) dat_obc_hrs_alive s = Some a" "0 \<le> a" "a < 2000000000"
    and "dat_get_system_var (ram_cfg alloc tr) dat_obc_hrs_wo_reset s = Some w" "0 \<le> w" "w < 2000000000"
    and "Suc k div 60 \<le> 218450"
  shows "\<exists>s'. housekeeping_run (ram_cfg alloc tr) repo lvl clock hosts k s = Some (of_nat (Suc k), s') \<and>
     dat_get_system_var (ram_cfg alloc tr) dat_obc_hrs_alive s' = Some (a + int (Suc k div 3600)) \<and>
     dat_get_system_var (ram_cfg alloc tr) dat_obc_hrs_wo_reset s' = Some (w + int (Suc k div 3600)) \<and>
     dat_get_system_var (ram_cfg alloc tr) dat_drp_idx_temp s' = Some (int (Suc k div 60)) \<and>
     (\<forall>j < Suc k div 60. dat_get_recent_payload_sample (ram_cfg alloc tr) 0 (int j) s' =
        Some (SCH_ST_OK, Some (rev (minute_samples clock hosts (Suc k)) ! j)))"
proof -
  let ?vs = "vote tr (ram_vars s)" and ?cfg = "ram_cfg alloc tr"
  have v: "ram_pay.shows_repo alloc tr s (?vs, [])"
    using ram_pay.empty_sampling [OF assms(1,4)] by (simp add: ram_pay.shows_repo_def)
  have ad: "0 \<le> dat_obc_hrs_alive" "dat_obc_hrs_alive < 17" "0 \<le> dat_obc_hrs_wo_reset" "dat_obc_hrs_wo_reset < 17"
      "0 \<le> dat_drp_idx_temp" "dat_drp_idx_temp < 17" by (simp_all add: addr_defs)
  note get = ram_pay.shows_get_sys [where alloc = alloc and tr = tr]
  have hv: "ram_pay.hours_view ?vs a w"
    using get [OF v ad(1,2)] get [OF v ad(3,4)] assms(5,8) by (simp add: ram_pay.hours_view_def)
  have k: "Suc k < 13107060" using assms(11) by linarith
  then have "Suc k div 3600 < 3642" by (simp add: less_mult_imp_div_less)
  then have b: "in_int (a + int (Suc k div 3600))" "in_int (w + int (Suc k div 3600))" "Suc k < 2 ^ 32"
    using assms(6,7,9,10) k by (simp_all add: in_int_def)
  have c: "Suc k div 60 \<le> ram_cap data_map 0" using assms(11) by (simp add: ram_cap_def temp_payload)
  from ram_pay.housekeeping_seconds [OF assms(2) v hv assms(3) b(3) c assms(6,9) b(1,2), of lvl clock] obtain s' vs' where
      s': "housekeeping_run ?cfg repo lvl clock hosts k s = Some (of_nat (Suc k), s')"
        "ram_pay.shows_repo alloc tr s' (vs', minute_samples clock hosts (Suc k))"
        "ram_pay.hours_view vs' (a + int (Suc k div 3600)) (w + int (Suc k div 3600))" by blast
  have "ram_pay.sampling alloc tr s'" "ram_pay.held alloc tr s' 0 = minute_samples clock hosts (Suc k)"
    using s'(2) by (simp_all add: ram_pay.shows_repo_def)
  then have "\<forall>j < Suc k div 60. dat_get_recent_payload_sample ?cfg 0 (int j) s' =
        Some (SCH_ST_OK, Some (rev (minute_samples clock hosts (Suc k)) ! j))"
    using ram_pay.recent_sample [of alloc tr s' 0] temp_payload(1) by simp
  moreover have "in_int (int (Suc k div 60))" using assms(11) by (simp add: in_int_def)
  ultimately show ?thesis
    using s'(1,3) get [OF s'(2) ad(1,2)] get [OF s'(2) ad(3,4)] get [OF s'(2) ad(5,6)] ram_pay.shows_index [OF s'(2)]
    by (simp add: ram_pay.hours_view_def)
qed


text \<open>The table that start-up and the hook of the application build.\<close>

lemma reg_lookup:
  assumes "repo_ready r" "cmd_list r = map reg_entry regs @ rest" "distinct (map fst regs)" "(name, func, fmt, n) \<in> set regs"
  shows "\<exists>i. find_idx (\<lambda>e. ce_name e = Some name) (cmd_list r) = Some i \<and> cmd_list r ! i = reg_entry (name, func, fmt, n)"
proof -
  obtain i where i: "i < length regs" "regs ! i = (name, func, fmt, n)" using assms(4) by (auto simp: in_set_conv_nth)
  have "find_idx (\<lambda>e. ce_name e = Some name) (cmd_list r) = Some i"
    using find_reg [OF assms(3) i(1), of rest] i(2) assms(2) by simp
  moreover have "cmd_list r ! i = reg_entry (name, func, fmt, n)" using i by (simp add: assms(2) nth_append)
  ultimately show ?thesis by blast
qed

lemma app_table_built:
  "\<exists>r r'. cmd_repo_init True True True cmd_repo_zero = Some (CMD_OK, r) \<and> cmd_add_all cmd_app_init r = Some r' \<and> app_table r'"
proof (rule init_zero_table)
  fix r
  assume r: "cmd_repo_init True True True cmd_repo_zero = Some (CMD_OK, r)" "repo_ready r" "cmd_index r = 61"
    "cmd_list r = map reg_entry (core_cmds True True True) @ replicate 194 null_entry"
  let ?regs = "core_cmds True True True @ cmd_app_init"
  have n: "length (core_cmds True True True) = 61" by code_simp
  have wf: "repo_wf r" using r(2) by (simp add: repo_ready_def)
  have two: "length cmd_app_init = 2" by (simp add: cmd_app_init_def)
  obtain r' where r': "cmd_add_all cmd_app_init r = Some r'" "repo_wf r'"
      "cmd_list r' = take 61 (cmd_list r) @ map reg_entry cmd_app_init @ drop 63 (cmd_list r)"
    using cmd_add_all_ok [OF wf, of cmd_app_init] r(3) two by auto
  have l: "cmd_list r' = map reg_entry ?regs @ replicate 192 null_entry"
    unfolding r'(3) r(4) using n by simp
  have ready: "repo_ready r'"
    using r'(2) by (auto simp: repo_ready_def l named_def null_entry_def)
  have d: "distinct (map fst ?regs)" by code_simp
  have m: "(''obc_debug'', ''obc_debug'', ''%d'', 1) \<in> set ?regs"
      "(''drp_add_hrs_alive'', ''drp_update_hours_alive'', ''%d'', 1) \<in> set ?regs"
      "(''obc_get_sensors'', ''obc_get_sensors'', '''', 0) \<in> set ?regs"
      "(''obc_update_status'', ''obc_update_status'', '''', 0) \<in> set ?regs" by code_simp+
  note look = reg_lookup [OF ready l d]
  have one: "strncpy_bytes ''1'' (Suc (min (Suc 0) SCH_CMD_MAX_STR_PARAMS)) = show_int 1 @ [NUL]" by code_simp
  have "app_table r'"
    using look [OF m(1)] look [OF m(2)] look [OF m(3)] look [OF m(4)]
      build_words [OF ready, of "''drp_add_hrs_alive''" "'' ''" "''1''"]
    by (auto simp: app_table_def cmd_get_str_ready [OF ready] entry_cmd_def is_space_def one)
  then show ?thesis using r(1) r'(1) by blast
qed


theorem app_seconds_stored_witness:
  "\<exists>s r r' s'. dat_repo_init True (ram_cfg alloc_all False) ram_zero = Some s \<and>
     cmd_repo_init True True True cmd_repo_zero = Some (CMD_OK, r) \<and> cmd_add_all cmd_app_init r = Some r' \<and>
     housekeeping_run (ram_cfg alloc_all False) r' 4 (\<lambda>i. 1600000000 + int i)
       (\<lambda>_. \<lparr>thermal = Some (Some 7), per_mille = (\<lambda>v. v)\<rparr>) 3600 s = Some (3601, s') \<and>
     dat_get_system_var (ram_cfg alloc_all False) dat_obc_hrs_alive s' = Some 1 \<and>
     dat_get_system_var (ram_cfg alloc_all False) dat_drp_idx_temp s' = Some 60 \<and>
     dat_get_recent_payload_sample (ram_cfg alloc_all False) 0 59 s' =
       Some (SCH_ST_OK, Some (temp_data 0 (of_i 1600000058) 7))"
proof -
  let ?cfg = "ram_cfg alloc_all False"
  obtain s where s: "dat_repo_init True ?cfg ram_zero = Some s" "ram_inv data_map (n_copies False) s"
      "\<And>j. j < 17 \<Longrightarrow> vote False (ram_vars s) j = sv_value (dat_get_status_var_def (int j))"
    using ram_repo_init [of alloc_all False] by (auto simp: alloc_all_def)
  have z: "dat_get_system_var ?cfg dat_drp_idx_temp s = Some 0" "dat_get_system_var ?cfg dat_obc_hrs_alive s = Some 0"
      "dat_get_system_var ?cfg dat_obc_hrs_wo_reset s = Some 0"
    using ram_repo.get_var [OF s(2), of 15 alloc_all] ram_repo.get_var [OF s(2), of 2 alloc_all]
      ram_repo.get_var [OF s(2), of 3 alloc_all]
    by (simp_all add: s(3) dat_get_system_var_def addr_defs)
      (simp_all add: dat_get_status_var_def_def dat_status_list_def sys_var_def addr_defs in_int_def)
  obtain r r' where r: "cmd_repo_init True True True cmd_repo_zero = Some (CMD_OK, r)" "cmd_add_all cmd_app_init r = Some r'"
      "app_table r'" using app_table_built by blast
  let ?clock = "\<lambda>i. 1600000000 + int i" and ?hosts = "\<lambda>_ :: nat. \<lparr>thermal = Some (Some 7), per_mille = (\<lambda>v. v)\<rparr>"
  have th: "\<forall>i < 3600. \<exists>r. thermal (?hosts i) = Some (Some r)" by simp
  have n: "Suc 3600 div 60 = 60" "Suc 3600 div 3600 = (1 :: nat)" by simp_all
  from app_seconds_stored [OF s(2) r(3) th z(1,2) _ _ z(3), of 4 ?clock] obtain s' where
      s': "housekeeping_run ?cfg r' 4 ?clock ?hosts 3600 s = Some (of_nat (Suc 3600), s')"
        "dat_get_system_var ?cfg dat_obc_hrs_alive s' = Some 1" "dat_get_system_var ?cfg dat_drp_idx_temp s' = Some 60"
        "\<forall>j < 60. dat_get_recent_payload_sample ?cfg 0 (int j) s' =
           Some (SCH_ST_OK, Some (rev (minute_samples ?clock ?hosts (Suc 3600)) ! j))"
    unfolding n by auto
  have "rev (minute_samples ?clock ?hosts (Suc 3600)) ! 59 = temp_data 0 (of_i 1600000058) 7"
    by (simp add: minute_samples_def rev_nth)
  then have "dat_get_recent_payload_sample ?cfg 0 59 s' = Some (SCH_ST_OK, Some (temp_data 0 (of_i 1600000058) 7))"
    using s'(4) [rule_format, of 59] by simp
  then show ?thesis using s(1) r(1,2) s'(1-3) by auto
qed

end
