(* ===== verification/Storage_Sql.thy ===== *)
theory Storage_Sql
  imports Com_Frames C_Scanf Storage_Ram Data_Schema
begin

text \<open>
  src/lib/storage/storage_sqlite.c: the storage as tables of a SQLite database. The code builds a text for every operation
  and hands it to the library; the texts are built here character by character. SQLite itself is a parameter, the record \<open>sqlite\<close>:
  whether a file can be opened, what a statement does to the contents of the database, which rows a query gives and how a
  cell reads as an integer, as a float and as text. Printing a float with \<^verbatim>\<open>%f\<close> and testing it for a number
  belong to the C library and are parameters, too.
\<close>

section \<open>State\<close>

record ('d, 'c) sqlite =
  sq_open :: "string \<Rightarrow> bool"
  sq_exec :: "string \<Rightarrow> 'd \<Rightarrow> bool \<times> 'd"
  sq_rows :: "string \<Rightarrow> 'd \<Rightarrow> 'c list list option"
  sq_int :: "'c \<Rightarrow> int"
  sq_float :: "'c \<Rightarrow> value32"
  sq_text :: "'c \<Rightarrow> string option"

record c_float =
  show_f :: "value32 \<Rightarrow> string"
  is_nan :: "value32 \<Rightarrow> bool"

text \<open>
  The handle of the database: the null pointer, one that \<^verbatim>\<open>sqlite3_open\<close> left after an error, or an open file.
  The contents of the files are part of the state.
\<close>

datatype handle = HNull | HBad | HOpen string

record 'd sql =
  sql_disk :: "string \<Rightarrow> 'd"
  sql_db :: handle
  sql_is_open :: bool
  sql_fp_table :: "string cptr"
  sql_entries :: int
  sql_schema :: "data_map list option"
  sql_table :: "string option"

definition sql_zero :: "(string \<Rightarrow> 'd) \<Rightarrow> 'd sql" where
  "sql_zero disk = \<lparr>sql_disk = disk, sql_db = HNull, sql_is_open = False, sql_fp_table = CNull, sql_entries = 0,
     sql_schema = None, sql_table = None\<rparr>"

text \<open>\<^verbatim>\<open>sqlite3_exec\<close>, and \<^verbatim>\<open>sqlite3_prepare_v2\<close> with \<^verbatim>\<open>sqlite3_step\<close>, on the handle; on the null pointer they are undefined.\<close>

definition run_sql :: "('d, 'c) sqlite \<Rightarrow> string \<Rightarrow> 'd sql \<Rightarrow> (bool \<times> 'd sql) option" where
  "run_sql en txt s =
     (case sql_db s of
        HNull \<Rightarrow> None
      | HBad \<Rightarrow> Some (False, s)
      | HOpen f \<Rightarrow> (let (ok, d) = sq_exec en txt (sql_disk s f) in Some (ok, s\<lparr>sql_disk := (sql_disk s)(f := d)\<rparr>)))"

definition query_sql :: "('d, 'c) sqlite \<Rightarrow> string \<Rightarrow> 'd sql \<Rightarrow> 'c list list option option" where
  "query_sql en txt s =
     (case sql_db s of HNull \<Rightarrow> None | HBad \<Rightarrow> Some None | HOpen f \<Rightarrow> Some (sq_rows en txt (sql_disk s f)))"

abbreviation newline :: char where "newline \<equiv> CHR 0x0A"
abbreviation quote :: string where "quote \<equiv> [CHR 0x22]"

section \<open>Opening and tables\<close>

definition sql_storage_init :: "('d, 'c) sqlite \<Rightarrow> string \<Rightarrow> 'd sql \<Rightarrow> (int \<times> 'd sql) option" where
  "sql_storage_init en db_name s =
     (if sq_open en db_name then Some (SCH_ST_OK, s\<lparr>sql_db := HOpen db_name, sql_is_open := True\<rparr>)
      else Some (SCH_ST_ERROR, s\<lparr>sql_db := HBad\<rparr>))"

text \<open>The name of the flight plan table is released only when no database is open, and stays where it was.\<close>

definition sql_storage_close :: "'d sql \<Rightarrow> (int \<times> 'd sql) option" where
  "sql_storage_close s =
     (if sql_db s \<noteq> HNull then Some (SCH_ST_OK, s\<lparr>sql_db := HNull, sql_is_open := False\<rparr>)
      else
        case sql_fp_table s of
          CNull \<Rightarrow> Some (SCH_ST_ERROR, s)
        | CLive tab \<Rightarrow> Some (SCH_ST_ERROR, s\<lparr>sql_fp_table := CFreed\<rparr>)
        | CFreed \<Rightarrow> None)"

definition sql_storage_table_status_init ::
    "('d, 'c) sqlite \<Rightarrow> string \<Rightarrow> int \<Rightarrow> bool \<Rightarrow> 'd sql \<Rightarrow> (int \<times> 'd sql) option" where
  "sql_storage_table_status_init en table n_variables drp s =
     do { (ok, s1) \<leftarrow> (if drp then run_sql en (''DROP TABLE '' @ table) s else Some (True, s));
          if \<not> ok then Some (SCH_ST_ERROR, s1)
          else
            do { (ok2, s2) \<leftarrow> run_sql en
                   (''CREATE TABLE IF NOT EXISTS '' @ table @
                    ''(idx INTEGER PRIMARY KEY, name TEXT UNIQUE, value INT);'') s1;
                 Some (if ok2 then SCH_ST_OK else SCH_ST_ERROR, s2) } }"

definition sql_storage_table_flight_plan_init ::
    "('d, 'c) sqlite \<Rightarrow> string \<Rightarrow> int \<Rightarrow> bool \<Rightarrow> 'd sql \<Rightarrow> (int \<times> 'd sql) option" where
  "sql_storage_table_flight_plan_init en table n_entires drp s =
     do { (ok, s1) \<leftarrow> (if drp then run_sql en (''DROP TABLE IF EXISTS '' @ table) s else Some (True, s));
          if \<not> ok then Some (SCH_ST_ERROR, s1)
          else
            do { (ok2, s2) \<leftarrow> run_sql en
                   (''CREATE TABLE IF NOT EXISTS '' @ table @
                    ''(time int PRIMARY KEY , command text, args text , executions int , periodical int ,node int);'') s1;
                 if \<not> ok2 then Some (SCH_ST_ERROR, s2)
                 else
                   do { require (sql_fp_table s2 \<noteq> CFreed);
                        Some (SCH_ST_OK, s2\<lparr>sql_fp_table := CLive table\<rparr>) } } }"

definition get_sql_type :: "string \<Rightarrow> string" where
  "get_sql_type c_type =
     (if strcmp c_type ''%f'' = 0 then ''REAL''
      else if strcmp c_type ''%d'' = 0 then ''INTEGER''
      else if strcmp c_type ''%u'' = 0 then ''BIGINT''
      else if strcmp c_type ''%h'' = 0 then ''INTEGER''
      else ''TEXT'')"

text \<open>The pieces of the types and of the names, in arrays of 300; the result counts the names.\<close>

definition get_payloads_tokens :: "string \<Rightarrow> string \<Rightarrow> (string list \<times> string list) option" where
  "get_payloads_tokens order names =
     do { require (length (strtok_sp order) < 300 \<and> length (strtok_sp names) < 300);
          Some (strtok_sp order, strtok_sp names) }"

fun create_columns :: "string list \<Rightarrow> string list \<Rightarrow> string \<Rightarrow> string option" where
  "create_columns syms [] acc = Some acc"
| "create_columns syms (v # vs) acc =
     (case syms of
        [] \<Rightarrow> None
      | t # ts \<Rightarrow>
          do { let line = v @ '' '' @ get_sql_type t;
               require (length line < 100);
               let acc' = acc @ line @ (if vs \<noteq> [] then '','' else '''');
               require (length acc' < SCH_BUFF_MAX_LEN * 4);
               create_columns ts vs acc' })"

definition create_payload_sql :: "data_map \<Rightarrow> string option" where
  "create_payload_sql dm =
     do { require (length (data_order dm) < 300 \<and> length (var_names dm) < SCH_BUFF_MAX_LEN * 4);
          (syms, vars) \<leftarrow> get_payloads_tokens (data_order dm) (var_names dm);
          cols \<leftarrow> create_columns syms vars
            (take (SCH_BUFF_MAX_LEN * 4 - 1)
               (''CREATE TABLE IF NOT EXISTS '' @ dm_table dm @ ''(id INTEGER, tstz TIMESTAMPTZ,''));
          require (length cols + 1 < SCH_BUFF_MAX_LEN * 4);
          Some (cols @ '')'') }"

fun drop_payloads :: "('d, 'c) sqlite \<Rightarrow> data_map list \<Rightarrow> 'd sql \<Rightarrow> 'd sql option" where
  "drop_payloads en [] s = Some s"
| "drop_payloads en (dm # dms) s =
     do { (_, s1) \<leftarrow> run_sql en (''DROP TABLE IF EXISTS '' @ dm_table dm) s; drop_payloads en dms s1 }"

fun create_payloads :: "('d, 'c) sqlite \<Rightarrow> data_map list \<Rightarrow> 'd sql \<Rightarrow> (bool \<times> 'd sql) option" where
  "create_payloads en [] s = Some (True, s)"
| "create_payloads en (dm # dms) s =
     do { txt \<leftarrow> create_payload_sql dm;
          (ok, s1) \<leftarrow> run_sql en txt s;
          if ok then create_payloads en dms s1 else Some (False, s1) }"

definition sql_storage_table_payload_init ::
    "('d, 'c) sqlite \<Rightarrow> string option \<Rightarrow> data_map list option \<Rightarrow> int \<Rightarrow> bool \<Rightarrow> 'd sql \<Rightarrow> (int \<times> 'd sql) option" where
  "sql_storage_table_payload_init en table schema n_entries drp s =
     (case (table, schema) of
        (Some tab, Some dms) \<Rightarrow>
          do { require (n_entries \<le> int (length dms));
               let ds = take (nat n_entries) dms;
               s1 \<leftarrow> (if drp then drop_payloads en ds s else Some s);
               (ok, s2) \<leftarrow> create_payloads en ds s1;
               if \<not> ok then Some (SCH_ST_ERROR, s2)
               else Some (SCH_ST_OK, s2\<lparr>sql_entries := n_entries, sql_table := Some tab, sql_schema := Some dms\<rparr>) }
      | _ \<Rightarrow> Some (SCH_ST_ERROR, s))"

section \<open>Status variables\<close>

definition status_select_sql :: "string \<Rightarrow> int \<Rightarrow> string" where
  "status_select_sql table index =
     ''SELECT value FROM '' @ table @ '' WHERE idx='' @ quote @ show_int index @ quote @ '';''"

definition status_insert_sql :: "string \<Rightarrow> int \<Rightarrow> int \<Rightarrow> string" where
  "status_insert_sql table index v =
     ''INSERT OR REPLACE INTO '' @ table @ '' (idx, name, value) VALUES ('' @ show_int index @
     '', (SELECT name FROM '' @ table @ '' WHERE idx = '' @ quote @ show_int index @ quote @ ''), '' @ show_int v @ '');''"

definition sql_storage_status_get_value_idx ::
    "('d, 'c) sqlite \<Rightarrow> string \<Rightarrow> int \<Rightarrow> 'd sql \<Rightarrow> (int \<times> value32 option) option" where
  "sql_storage_status_get_value_idx en table index s =
     (if \<not> sql_is_open s \<or> sql_db s = HNull then Some (SCH_ST_ERROR, None)
      else
        do { rows \<leftarrow> query_sql en (status_select_sql table (v_i (of_i index))) s;
             case rows of
               None \<Rightarrow> Some (SCH_ST_ERROR, None)
             | Some [] \<Rightarrow> Some (SCH_ST_ERROR, None)
             | Some (row # _) \<Rightarrow> do { c \<leftarrow> arr_get row 0; Some (SCH_ST_OK, Some (of_i (sq_int en c))) } })"

definition sql_storage_status_set_value_idx ::
    "('d, 'c) sqlite \<Rightarrow> string \<Rightarrow> int \<Rightarrow> value32 \<Rightarrow> 'd sql \<Rightarrow> (int \<times> 'd sql) option" where
  "sql_storage_status_set_value_idx en table index v s =
     (if \<not> sql_is_open s \<or> sql_db s = HNull then Some (SCH_ST_ERROR, s)
      else
        do { (ok, s1) \<leftarrow> run_sql en (status_insert_sql table index (v_i v)) s;
             Some (if ok then SCH_ST_OK else SCH_ST_ERROR, s1) })"

section \<open>Flight plan\<close>

text \<open>
  The texts of the statements. What the engine does with a text is the laws of the locale \<open>sql_engine\<close> in Sql_Laws.thy, which speak of
  the texts built here; that a text really is the statement these laws are about is shown by the engine of Sql_Repo.thy, which reads it.
\<close>

definition fp_insert_sql :: "string \<Rightarrow> int \<Rightarrow> string \<Rightarrow> string \<Rightarrow> int \<Rightarrow> int \<Rightarrow> int \<Rightarrow> string" where
  "fp_insert_sql table timetodo command args execs period nod =
     ''INSERT OR REPLACE INTO '' @ table @ '' (time, command, args, executions, periodical, node)'' @ [newline] @
     '' VALUES ('' @ show_int timetodo @ '', '' @ quote @ command @ quote @ '', '' @ quote @ args @ quote @ '', '' @
     show_int execs @ '', '' @ show_int period @ '', '' @ show_int nod @ '');''"

definition fp_select_sql :: "string \<Rightarrow> int \<Rightarrow> string" where
  "fp_select_sql table timetodo = ''SELECT * FROM '' @ table @ '' WHERE time = '' @ show_int timetodo"

definition fp_delete_sql :: "string \<Rightarrow> int \<Rightarrow> string" where
  "fp_delete_sql table timetodo = ''DELETE FROM '' @ table @ [newline] @ '' WHERE time = '' @ show_int timetodo"

definition sql_storage_flight_plan_set_st :: "('d, 'c) sqlite \<Rightarrow> fp_entry \<Rightarrow> 'd sql \<Rightarrow> (int \<times> 'd sql) option" where
  "sql_storage_flight_plan_set_st en row s =
     (case sql_fp_table s of
        CNull \<Rightarrow> Some (SCH_ST_ERROR, s)
      | CFreed \<Rightarrow> None
      | CLive tab \<Rightarrow>
          do { command \<leftarrow> fp_cmd row;
               args \<leftarrow> fp_args row;
               (ok, s1) \<leftarrow> run_sql en
                 (fp_insert_sql tab (unixtime row) command args (executions row) (periodical row) (node row)) s;
               Some (if ok then SCH_ST_OK else SCH_ST_ERROR, s1) })"

definition sql_storage_flight_plan_set ::
    "('d, 'c) sqlite \<Rightarrow> int \<Rightarrow> string option \<Rightarrow> string option \<Rightarrow> int \<Rightarrow> int \<Rightarrow> int \<Rightarrow> 'd sql \<Rightarrow> (int \<times> 'd sql) option" where
  "sql_storage_flight_plan_set en timetodo command args execs period nod s =
     (if timetodo < 0 \<or> command = None \<or> args = None then Some (SCH_ST_ERROR, s)
      else sql_storage_flight_plan_set_st en
             \<lparr>unixtime = timetodo, executions = execs, periodical = period, node = nod, fp_cmd = command, fp_args = args\<rparr> s)"

text \<open>\<^verbatim>\<open>atoi\<close>: the number at the start of the text, 0 if there is none, undefined if it does not fit.\<close>

definition atoi :: "string \<Rightarrow> int option" where
  "atoi txt = (case scan_int (skip_ws txt) of None \<Rightarrow> Some 0 | Some (v, _) \<Rightarrow> cint v)"

definition col_text :: "('d, 'c) sqlite \<Rightarrow> 'c list \<Rightarrow> int \<Rightarrow> string option" where
  "col_text en row j = do { c \<leftarrow> arr_get row j; sq_text en c }"

text \<open>The first row of \<^verbatim>\<open>sqlite3_get_table\<close> as an entry. A query that fails gives no rows.\<close>

definition table_entry :: "('d, 'c) sqlite \<Rightarrow> 'c list list option \<Rightarrow> (int \<times> fp_entry option) option" where
  "table_entry en rows =
     (case rows of
        None \<Rightarrow> Some (SCH_ST_ERROR, None)
      | Some [] \<Rightarrow> Some (SCH_ST_ERROR, None)
      | Some (row # _) \<Rightarrow>
          if row = [] then Some (SCH_ST_ERROR, None)
          else
            do { c0 \<leftarrow> col_text en row 0; t \<leftarrow> atoi c0;
                 cmd \<leftarrow> col_text en row 1;
                 args \<leftarrow> col_text en row 2;
                 c3 \<leftarrow> col_text en row 3; e \<leftarrow> atoi c3;
                 c4 \<leftarrow> col_text en row 4; p \<leftarrow> atoi c4;
                 c5 \<leftarrow> col_text en row 5; n \<leftarrow> atoi c5;
                 Some (SCH_ST_OK, Some \<lparr>unixtime = t, executions = e, periodical = p, node = n,
                   fp_cmd = Some cmd, fp_args = Some args\<rparr>) })"

definition sql_storage_flight_plan_get_st :: "('d, 'c) sqlite \<Rightarrow> int \<Rightarrow> 'd sql \<Rightarrow> (int \<times> fp_entry option) option" where
  "sql_storage_flight_plan_get_st en timetodo s =
     (case sql_fp_table s of
        CNull \<Rightarrow> Some (SCH_ST_ERROR, None)
      | CFreed \<Rightarrow> None
      | CLive tab \<Rightarrow> do { rows \<leftarrow> query_sql en (fp_select_sql tab timetodo) s; table_entry en rows })"

definition sql_storage_flight_plan_get_idx :: "('d, 'c) sqlite \<Rightarrow> int \<Rightarrow> 'd sql \<Rightarrow> (int \<times> fp_entry option) option" where
  "sql_storage_flight_plan_get_idx en index s =
     (case sql_fp_table s of
        CNull \<Rightarrow> Some (SCH_ST_ERROR, None)
      | CFreed \<Rightarrow> None
      | CLive tab \<Rightarrow>
          do { k \<leftarrow> cint (index + 1);
               rows \<leftarrow> query_sql en (''SELECT * FROM '' @ tab @ '' WHERE rowid = '' @ show_int k) s;
               table_entry en rows })"

definition sql_storage_flight_plan_get_args ::
    "('d, 'c) sqlite \<Rightarrow> int \<Rightarrow> 'd sql \<Rightarrow> (int \<times> (string \<times> string \<times> int \<times> int \<times> int) option) option" where
  "sql_storage_flight_plan_get_args en timetodo s =
     do { (rc, e) \<leftarrow> sql_storage_flight_plan_get_st en timetodo s;
          if rc \<noteq> SCH_ST_OK then Some (rc, None)
          else do { row \<leftarrow> e; c \<leftarrow> fp_cmd row; a \<leftarrow> fp_args row;
                    Some (SCH_ST_OK, Some (c, a, executions row, periodical row, node row)) } }"

definition sql_storage_flight_plan_delete_row :: "('d, 'c) sqlite \<Rightarrow> int \<Rightarrow> 'd sql \<Rightarrow> (int \<times> 'd sql) option" where
  "sql_storage_flight_plan_delete_row en timetodo s =
     (case sql_fp_table s of
        CNull \<Rightarrow> Some (SCH_ST_ERROR, s)
      | CFreed \<Rightarrow> None
      | CLive tab \<Rightarrow>
          do { (ok, s1) \<leftarrow> run_sql en (fp_delete_sql tab timetodo) s;
               Some (if ok then SCH_ST_OK else SCH_ST_ERROR, s1) })"

definition sql_storage_flight_plan_delete_row_idx :: "('d, 'c) sqlite \<Rightarrow> int \<Rightarrow> 'd sql \<Rightarrow> (int \<times> 'd sql) option" where
  "sql_storage_flight_plan_delete_row_idx en index s =
     (case sql_fp_table s of
        CNull \<Rightarrow> Some (SCH_ST_ERROR, s)
      | CFreed \<Rightarrow> None
      | CLive tab \<Rightarrow>
          do { k \<leftarrow> cint (index + 1);
               (ok, s1) \<leftarrow> run_sql en (''DELETE FROM '' @ tab @ [newline] @ '' WHERE rowid = '' @ show_int k) s;
               Some (if ok then SCH_ST_OK else SCH_ST_ERROR, s1) })"

definition sql_storage_flight_plan_reset :: "('d, 'c) sqlite \<Rightarrow> 'd sql \<Rightarrow> (int \<times> 'd sql) option" where
  "sql_storage_flight_plan_reset en s =
     (case sql_fp_table s of
        CNull \<Rightarrow> Some (SCH_ST_ERROR, s)
      | CFreed \<Rightarrow> None
      | CLive tab \<Rightarrow> sql_storage_table_flight_plan_init en tab 0 True s)"


section \<open>Payloads\<close>

text \<open>
  The letter after the percent sign of a type. Types with another letter than these have the size -1, with which the
  code would move its pointers back; they are not modelled.
\<close>

definition type_letter :: "string \<Rightarrow> char" where
  "type_letter c_type = (if length c_type < 2 then NUL else c_type ! 1)"

definition get_sizeof_type :: "string \<Rightarrow> nat option" where
  "get_sizeof_type c_type =
     (let c = type_letter c_type
      in if c = CHR ''f'' then Some 4
         else if c = CHR ''u'' \<or> c = CHR ''i'' \<or> c = CHR ''d'' then Some 4
         else if c = CHR ''h'' then Some 2
         else if c = CHR ''s'' then Some SCH_ST_STR_SIZE
         else None)"

text \<open>
  The text of a value. The case of \<^verbatim>\<open>%u\<close> runs on into that of \<^verbatim>\<open>%d\<close>, which prints over it. A string that is longer
  than the size given to \<^verbatim>\<open>snprintf\<close> moves the pointer past what was written and is not modelled.
\<close>

definition get_value_string :: "c_float \<Rightarrow> string \<Rightarrow> byte list \<Rightarrow> string option" where
  "get_value_string cf c_type data =
     (let c = type_letter c_type
      in if c = CHR ''f'' then
           do { bs \<leftarrow> blk_read data 0 4;
                Some ('' '' @ (if is_nan cf (of_word_bytes bs) then ''NULL'' else show_f cf (of_word_bytes bs)) @ '','') }
         else if c = CHR ''u'' \<or> c = CHR ''i'' \<or> c = CHR ''d'' then
           do { bs \<leftarrow> blk_read data 0 4; Some ('' '' @ show_int (v_i (of_word_bytes bs)) @ '','') }
         else if c = CHR ''h'' then
           do { bs \<leftarrow> blk_read data 0 2; Some ('' '' @ show_int (sint (of_le16 (bs ! 0) (bs ! 1))) @ '','') }
         else if c = CHR ''s'' then
           do { txt \<leftarrow> cstr_of (chars_of data);
                require (length txt + 4 < SCH_ST_STR_SIZE + 5);
                Some ('' '' @ [CHR 0x27] @ txt @ [CHR 0x27] @ '','') }
         else None)"

fun value_texts :: "c_float \<Rightarrow> string list \<Rightarrow> string list \<Rightarrow> byte list \<Rightarrow> (string \<times> string) option" where
  "value_texts cf (t # ts) (v # vs) data =
     do { size \<leftarrow> get_sizeof_type t;
          val \<leftarrow> get_value_string cf t data;
          (names, vals) \<leftarrow> value_texts cf ts vs (drop size data);
          Some ('' '' @ v @ '','' @ names, val @ vals) }"
| "value_texts cf ts vs data = Some ([], [])"

definition ST_SQL_MAX_LEN :: nat where [config_defs]: "ST_SQL_MAX_LEN = 1000"

definition payload_insert_sql :: "c_float \<Rightarrow> data_map \<Rightarrow> int \<Rightarrow> byte list \<Rightarrow> string option" where
  "payload_insert_sql cf dm index data =
     do { (names, vals) \<leftarrow> value_texts cf (strtok_sp (data_order dm)) (strtok_sp (var_names dm)) data;
          let sql_names = ''(id, tstz,'' @ names;
          let sql_values = ''('' @ show_int index @ '', current_timestamp,'' @ vals;
          require (length sql_values < ST_SQL_MAX_LEN \<and> length sql_names < ST_SQL_MAX_LEN);
          Some (take (2 * ST_SQL_MAX_LEN - 1)
                  (''INSERT INTO '' @ dm_table dm @ '' '' @ butlast sql_names @ '')'' @ '' VALUES '' @ butlast sql_values @ '')'')) }"

definition sql_storage_payload_set_data ::
    "('d, 'c) sqlite \<Rightarrow> c_float \<Rightarrow> int \<Rightarrow> int \<Rightarrow> byte list option \<Rightarrow> data_map \<Rightarrow> 'd sql \<Rightarrow> (int \<times> 'd sql) option" where
  "sql_storage_payload_set_data en cf payload index data schema s =
     (case data of
        None \<Rightarrow> Some (SCH_ST_ERROR, s)
      | Some bytes \<Rightarrow>
          do { txt \<leftarrow> payload_insert_sql cf schema index bytes;
               (ok, s1) \<leftarrow> run_sql en txt s;
               Some (if ok then SCH_ST_OK else SCH_ST_ERROR, s1) })"

definition payload_select_sql :: "data_map \<Rightarrow> int \<Rightarrow> string" where
  "payload_select_sql dm index =
     ''SELECT '' @ map (\<lambda>c. if c = CHR '' '' then CHR '','' else c) (var_names dm) @ '' FROM '' @ dm_table dm @
     '' WHERE id='' @ show_int index @ '' LIMIT 1''"

definition get_sqlite_value :: "('d, 'c) sqlite \<Rightarrow> string \<Rightarrow> 'c \<Rightarrow> byte list option" where
  "get_sqlite_value en c_type c =
     (let l = type_letter c_type
      in if l = CHR ''f'' then Some (le32 (sq_float en c))
         else if l = CHR ''d'' \<or> l = CHR ''i'' \<or> l = CHR ''u'' then Some (le32 (of_i (sq_int en c)))
         else if l = CHR ''h'' then Some (le16 (word_of_int (sq_int en c)))
         else do { txt \<leftarrow> sq_text en c; Some (bytes_of (strncpy_bytes txt SCH_ST_STR_SIZE)) })"

fun row_bytes :: "('d, 'c) sqlite \<Rightarrow> string list \<Rightarrow> 'c list \<Rightarrow> byte list option" where
  "row_bytes en [] row = Some []"
| "row_bytes en (t # ts) row =
     (case row of
        [] \<Rightarrow> None
      | c # cs \<Rightarrow>
          do { param_size \<leftarrow> get_sizeof_type t;
               bs \<leftarrow> get_sqlite_value en t c;
               rest \<leftarrow> row_bytes en ts cs;
               Some (bs @ rest) })"

definition sql_storage_payload_get_data ::
    "('d, 'c) sqlite \<Rightarrow> int \<Rightarrow> int \<Rightarrow> data_map \<Rightarrow> 'd sql \<Rightarrow> (int \<times> byte list option) option" where
  "sql_storage_payload_get_data en payload index schema s =
     do { require (length (payload_select_sql schema index) < 2 * ST_SQL_MAX_LEN);
          rows \<leftarrow> query_sql en (payload_select_sql schema index) s;
          case rows of
            None \<Rightarrow> Some (SCH_ST_ERROR, None)
          | Some [] \<Rightarrow> Some (SCH_ST_ERROR, None)
          | Some (row # _) \<Rightarrow>
              do { bs \<leftarrow> row_bytes en (strtok_sp (data_order schema)) row; Some (SCH_ST_OK, Some bs) } }"

definition sql_storage_payload_reset :: "('d, 'c) sqlite \<Rightarrow> 'd sql \<Rightarrow> (int \<times> 'd sql) option" where
  "sql_storage_payload_reset en s = sql_storage_table_payload_init en (sql_table s) (sql_schema s) (sql_entries s) True s"

definition sql_storage_payload_reset_table :: "('d, 'c) sqlite \<Rightarrow> int \<Rightarrow> 'd sql \<Rightarrow> (int \<times> 'd sql) option" where
  "sql_storage_payload_reset_table en payload s =
     (case sql_schema s of
        None \<Rightarrow> Some (SCH_ST_ERROR, s)
      | Some dms \<Rightarrow>
          if sql_db s = HNull \<or> \<not> sql_is_open s \<or> payload \<ge> sql_entries s then Some (SCH_ST_ERROR, s)
          else
            do { dm \<leftarrow> arr_get dms payload;
                 (ok, s1) \<leftarrow> run_sql en (''DELETE FROM '' @ dm_table dm) s;
                 Some (if ok then SCH_ST_OK else SCH_ST_ERROR, s1) })"

section \<open>The interface\<close>

definition DAT_TABLE_STATUS :: string where "DAT_TABLE_STATUS = ''dat_status''"
definition DAT_TABLE_DATA :: string where "DAT_TABLE_DATA = ''dat_data''"
definition DAT_TABLE_FP :: string where "DAT_TABLE_FP = ''dat_flightplan''"

text \<open>The storage as repoData.c calls it, with its names of tables and the name of the file.\<close>

definition sql_ops :: "('d, 'c) sqlite \<Rightarrow> c_float \<Rightarrow> string \<Rightarrow> 'd sql storage_ops" where
  "sql_ops en cf file =
     \<lparr>op_init = sql_storage_init en file,
      op_close = sql_storage_close,
      op_status_init = sql_storage_table_status_init en DAT_TABLE_STATUS,
      op_fp_init = sql_storage_table_flight_plan_init en DAT_TABLE_FP,
      op_payload_init = sql_storage_table_payload_init en (Some DAT_TABLE_DATA) (Some data_map),
      op_status_get = sql_storage_status_get_value_idx en DAT_TABLE_STATUS,
      op_status_set = sql_storage_status_set_value_idx en DAT_TABLE_STATUS,
      op_fp_set = sql_storage_flight_plan_set en,
      op_fp_get_idx = sql_storage_flight_plan_get_idx en,
      op_fp_get_args = sql_storage_flight_plan_get_args en,
      op_fp_delete_row = sql_storage_flight_plan_delete_row en,
      op_fp_delete_row_idx = sql_storage_flight_plan_delete_row_idx en,
      op_fp_reset = sql_storage_flight_plan_reset en,
      op_payload_set = sql_storage_payload_set_data en cf,
      op_payload_get = sql_storage_payload_get_data en,
      op_payload_reset = sql_storage_payload_reset en,
      op_payload_reset_table = sql_storage_payload_reset_table en\<rparr>"

end
