(* ===== verification/Sql_Laws.thy ===== *)
theory Sql_Laws
  imports Storage_Sql Repo_Spec
begin

text \<open>
  The data repository over SQLite. \<open>sql_engine\<close> states what the SQL language documents of the five statements the
  code uses for status variables and flight plan: inserting or replacing a row by its primary key, selecting it and deleting
  it. From these laws the status variables behave as over every other storage. The flight plan does not: it is a
  function from seconds to entries instead of a multiset of 255.
\<close>

section \<open>The contract of SQLite\<close>

abbreviation DQ :: char where "DQ \<equiv> CHR 0x22"

lemma atoi_show [simp]: "atoi (show_int v) = cint v"
  using scan_int_show [of "[]" v] skip_ws_show_int [of v "[]"] by (simp add: atoi_def)

lemma table_entry_row:
  assumes "map (sq_text en) row = map Some [show_int t, c, a, show_int e, show_int p, show_int nd]"
    and "in_int t" "in_int e" "in_int p" "in_int nd"
  shows "table_entry en (Some [row]) = Some (SCH_ST_OK, Some \<lparr>unixtime = t, executions = e, periodical = p, node = nd,
     fp_cmd = Some c, fp_args = Some a\<rparr>)"
proof -
  have len: "length row = 6" using assms(1) by (metis length_map length_Cons list.size(3) eval_nat_numeral numeral_nat One_nat_def)
  have col: "col_text en row (int j) = map Some [show_int t, c, a, show_int e, show_int p, show_int nd] ! j" if "j < 6" for j
    using that len nth_map [of j row "sq_text en"] by (simp only: assms(1)) (simp add: col_text_def arr_get_def)
  show ?thesis
    using len assms(2-5) col [of 0] col [of 1] col [of 2] col [of 3] col [of 4] col [of 5]
    by (auto simp: table_entry_def)
qed

locale sql_engine =
  fixes en :: "('d, 'c) sqlite"
    and ready :: "'d \<Rightarrow> bool"
    and vars_of :: "'d \<Rightarrow> int \<Rightarrow> int option"
    and plan_of :: "'d \<Rightarrow> int \<Rightarrow> (string \<times> string \<times> int \<times> int \<times> int) option"
  assumes status_insert: "ready d \<Longrightarrow> in_int i \<Longrightarrow> in_int v \<Longrightarrow>
      \<exists>d'. sq_exec en (status_insert_sql DAT_TABLE_STATUS i v) d = (True, d') \<and> ready d' \<and>
           vars_of d' = (vars_of d)(i := Some v) \<and> plan_of d' = plan_of d"
    and status_select: "ready d \<Longrightarrow> in_int i \<Longrightarrow>
      sq_rows en (status_select_sql DAT_TABLE_STATUS i) d \<noteq> None \<and>
      (case vars_of d i of
         None \<Rightarrow> sq_rows en (status_select_sql DAT_TABLE_STATUS i) d = Some []
       | Some v \<Rightarrow> \<exists>c. sq_rows en (status_select_sql DAT_TABLE_STATUS i) d = Some [[c]] \<and> sq_int en c = v)"
    and fp_insert: "ready d \<Longrightarrow> in_int t \<Longrightarrow> in_int e \<Longrightarrow> in_int p \<Longrightarrow> in_int n \<Longrightarrow> DQ \<notin> set c \<Longrightarrow> DQ \<notin> set a \<Longrightarrow>
      \<exists>d'. sq_exec en (fp_insert_sql DAT_TABLE_FP t c a e p n) d = (True, d') \<and> ready d' \<and>
           vars_of d' = vars_of d \<and> plan_of d' = (plan_of d)(t := Some (c, a, e, p, n))"
    and fp_select: "ready d \<Longrightarrow> in_int t \<Longrightarrow>
      (case plan_of d t of
         None \<Rightarrow> sq_rows en (fp_select_sql DAT_TABLE_FP t) d = Some []
       | Some (c, a, e, p, n) \<Rightarrow> \<exists>row. sq_rows en (fp_select_sql DAT_TABLE_FP t) d = Some [row] \<and>
           map (sq_text en) row = map Some [show_int t, c, a, show_int e, show_int p, show_int n])"
    and fp_delete: "ready d \<Longrightarrow> in_int t \<Longrightarrow>
      \<exists>d'. sq_exec en (fp_delete_sql DAT_TABLE_FP t) d = (True, d') \<and> ready d' \<and>
           vars_of d' = vars_of d \<and> plan_of d' = (plan_of d)(t := None)"
begin

definition contents :: "'d sql \<Rightarrow> 'd" where
  "contents s = sql_disk s (case sql_db s of HOpen f \<Rightarrow> f | _ \<Rightarrow> [])"

definition sql_plan :: "'d sql \<Rightarrow> int \<Rightarrow> (string \<times> string \<times> int \<times> int \<times> int) option" where
  "sql_plan s = plan_of (contents s)"

definition sql_vars :: "nat \<Rightarrow> 'd sql \<Rightarrow> value32 list" where
  "sql_vars n s = map (\<lambda>i. of_i (the (vars_of (contents s) (int i)))) [0..<n]"

definition sql_up :: "'d sql \<Rightarrow> bool" where
  "sql_up s \<longleftrightarrow> (\<exists>f. sql_db s = HOpen f) \<and> sql_is_open s \<and> sql_fp_table s = CLive DAT_TABLE_FP \<and> ready (contents s) \<and>
     (\<forall>t c a e p n. sql_plan s t = Some (c, a, e, p, n) \<longrightarrow> in_int e \<and> in_int p \<and> in_int n)"

definition sql_inv :: "nat \<Rightarrow> 'd sql \<Rightarrow> bool" where
  "sql_inv n s \<longleftrightarrow> sql_up s \<and> n < 2147483648 \<and> (\<forall>i < n. \<exists>v. vars_of (contents s) (int i) = Some v \<and> in_int v)"

lemma sql_vars_length [simp]: "length (sql_vars n s) = n"
  by (simp add: sql_vars_def)

lemma run_sql_open:
  assumes "sql_up s" "sq_exec en txt (contents s) = (ok, d)"
  shows "\<exists>s'. run_sql en txt s = Some (ok, s') \<and> contents s' = d \<and>
     sql_db s' = sql_db s \<and> sql_is_open s' = sql_is_open s \<and> sql_fp_table s' = sql_fp_table s"
  using assms by (auto simp: sql_up_def run_sql_def contents_def)

lemma query_sql_open: "sql_up s \<Longrightarrow> query_sql en txt s = Some (sq_rows en txt (contents s))"
  by (auto simp: sql_up_def query_sql_def contents_def)

lemma sql_up_cong:
  assumes "sql_up s" "sql_db s' = sql_db s" "sql_is_open s' = sql_is_open s" "sql_fp_table s' = sql_fp_table s"
    and "ready (contents s')" "\<forall>t c a e p n. sql_plan s' t = Some (c, a, e, p, n) \<longrightarrow> in_int e \<and> in_int p \<and> in_int n"
  shows "sql_up s'"
  using assms by (simp add: sql_up_def)

lemma sql_status_get:
  assumes "sql_inv n s" "i < n"
  shows "sql_storage_status_get_value_idx en DAT_TABLE_STATUS (int i) s = Some (SCH_ST_OK, Some (sql_vars n s ! i))"
proof -
  have s: "sql_up s" "ready (contents s)" "in_int (int i)" using assms by (auto simp: sql_inv_def sql_up_def in_int_def)
  obtain v where v: "vars_of (contents s) (int i) = Some v" using assms by (auto simp: sql_inv_def)
  with status_select [OF s(2,3)] obtain c where
      "sq_rows en (status_select_sql DAT_TABLE_STATUS (int i)) (contents s) = Some [[c]]" "sq_int en c = v" by auto
  moreover have "sql_is_open s" "sql_db s \<noteq> HNull" using s(1) by (auto simp: sql_up_def)
  ultimately show ?thesis
    using query_sql_open [OF s(1)] s(3) v assms(2)
    by (simp add: sql_storage_status_get_value_idx_def arr_get_def sql_vars_def)
qed

lemma sql_status_set_up:
  assumes "sql_up s" "in_int i"
  shows "\<exists>s'. sql_storage_status_set_value_idx en DAT_TABLE_STATUS i v s = Some (SCH_ST_OK, s') \<and> sql_up s' \<and>
     vars_of (contents s') = (vars_of (contents s))(i := Some (v_i v)) \<and> sql_plan s' = sql_plan s"
proof -
  have r: "ready (contents s)" and o: "sql_is_open s" "sql_db s \<noteq> HNull" using assms(1) by (auto simp: sql_up_def)
  from status_insert [OF r assms(2), of "v_i v"] obtain d where
      d: "sq_exec en (status_insert_sql DAT_TABLE_STATUS i (v_i v)) (contents s) = (True, d)" "ready d"
        "vars_of d = (vars_of (contents s))(i := Some (v_i v))" "plan_of d = plan_of (contents s)" by auto
  from run_sql_open [OF assms(1) d(1)] obtain s' where
      s': "run_sql en (status_insert_sql DAT_TABLE_STATUS i (v_i v)) s = Some (True, s')" "contents s' = d"
        "sql_db s' = sql_db s" "sql_is_open s' = sql_is_open s" "sql_fp_table s' = sql_fp_table s" by blast
  have plan: "sql_plan s' = sql_plan s" using d(4) s'(2) by (simp add: sql_plan_def)
  have "sql_up s'"
    by (rule sql_up_cong [OF assms(1) s'(3-5)]) (use assms(1) d(2) s'(2) plan in \<open>auto simp: sql_up_def\<close>)
  then show ?thesis using s'(1,2) d(3) plan o by (simp add: sql_storage_status_set_value_idx_def)
qed

lemma sql_status_set:
  assumes "sql_inv n s" "i < n"
  shows "\<exists>s'. sql_storage_status_set_value_idx en DAT_TABLE_STATUS (int i) v s = Some (SCH_ST_OK, s') \<and> sql_inv n s' \<and>
     sql_vars n s' = (sql_vars n s)[i := v]"
proof -
  have s: "sql_up s" "in_int (int i)" using assms by (auto simp: sql_inv_def in_int_def)
  from sql_status_set_up [OF s, of v] obtain s' where
      s': "sql_storage_status_set_value_idx en DAT_TABLE_STATUS (int i) v s = Some (SCH_ST_OK, s')" "sql_up s'"
        "vars_of (contents s') = (vars_of (contents s))(int i := Some (v_i v))" by blast
  have "sql_inv n s'" using assms(1) s'(2,3) by (auto simp: sql_inv_def)
  moreover have "sql_vars n s' = (sql_vars n s)[i := v]"
    by (rule nth_equalityI) (auto simp: sql_vars_def s'(3) nth_list_update)
  ultimately show ?thesis using s'(1) by blast
qed

lemma sql_status_set_plan:
  "sql_inv n s \<Longrightarrow> sql_storage_status_set_value_idx en DAT_TABLE_STATUS i v s = Some (rc, s') \<Longrightarrow> in_int i \<Longrightarrow> sql_plan s' = sql_plan s"
  using sql_status_set_up [of s i v] by (auto simp: sql_inv_def)

section \<open>Flight plan\<close>

lemma sql_fp_set:
  assumes "sql_inv n s" "0 \<le> t" "in_int t" "in_int e" "in_int p" "in_int nd" "DQ \<notin> set c" "DQ \<notin> set a"
  shows "\<exists>s'. sql_storage_flight_plan_set en t (Some c) (Some a) e p nd s = Some (SCH_ST_OK, s') \<and> sql_inv n s' \<and>
     sql_vars n s' = sql_vars n s \<and> sql_plan s' = (sql_plan s)(t := Some (c, a, e, p, nd))"
proof -
  have up: "sql_up s" "ready (contents s)" "sql_fp_table s = CLive DAT_TABLE_FP"
    using assms(1) by (auto simp: sql_inv_def sql_up_def)
  from fp_insert [OF up(2) assms(3-8)] obtain d where
      d: "sq_exec en (fp_insert_sql DAT_TABLE_FP t c a e p nd) (contents s) = (True, d)" "ready d"
        "vars_of d = vars_of (contents s)" "plan_of d = (plan_of (contents s))(t := Some (c, a, e, p, nd))" by blast
  from run_sql_open [OF up(1) d(1)] obtain s' where
      s': "run_sql en (fp_insert_sql DAT_TABLE_FP t c a e p nd) s = Some (True, s')" "contents s' = d"
        "sql_db s' = sql_db s" "sql_is_open s' = sql_is_open s" "sql_fp_table s' = sql_fp_table s" by blast
  have plan: "sql_plan s' = (sql_plan s)(t := Some (c, a, e, p, nd))" using d(4) s'(2) by (simp add: sql_plan_def)
  have "sql_up s'"
    by (rule sql_up_cong [OF up(1) s'(3-5)]) (use up(1) d(2) s'(2) plan assms(4-6) in \<open>auto simp: sql_up_def\<close>)
  then have "sql_inv n s'" using assms(1) d(3) s'(2) by (simp add: sql_inv_def)
  moreover have "sql_vars n s' = sql_vars n s" using d(3) s'(2) by (simp add: sql_vars_def)
  ultimately show ?thesis
    using s'(1) up(3) assms(2) plan by (simp add: sql_storage_flight_plan_set_def sql_storage_flight_plan_set_st_def)
qed

lemma sql_fp_delete:
  assumes "sql_inv n s" "in_int t"
  shows "\<exists>s'. sql_storage_flight_plan_delete_row en t s = Some (SCH_ST_OK, s') \<and> sql_inv n s' \<and>
     sql_vars n s' = sql_vars n s \<and> sql_plan s' = (sql_plan s)(t := None)"
proof -
  have up: "sql_up s" "ready (contents s)" "sql_fp_table s = CLive DAT_TABLE_FP"
    using assms(1) by (auto simp: sql_inv_def sql_up_def)
  from fp_delete [OF up(2) assms(2)] obtain d where
      d: "sq_exec en (fp_delete_sql DAT_TABLE_FP t) (contents s) = (True, d)" "ready d"
        "vars_of d = vars_of (contents s)" "plan_of d = (plan_of (contents s))(t := None)" by blast
  from run_sql_open [OF up(1) d(1)] obtain s' where
      s': "run_sql en (fp_delete_sql DAT_TABLE_FP t) s = Some (True, s')" "contents s' = d"
        "sql_db s' = sql_db s" "sql_is_open s' = sql_is_open s" "sql_fp_table s' = sql_fp_table s" by blast
  have plan: "sql_plan s' = (sql_plan s)(t := None)" using d(4) s'(2) by (simp add: sql_plan_def)
  have "sql_up s'"
    by (rule sql_up_cong [OF up(1) s'(3-5)]) (use up(1) d(2) s'(2) plan in \<open>auto simp: sql_up_def split: if_splits\<close>)
  then have "sql_inv n s'" using assms(1) d(3) s'(2) by (simp add: sql_inv_def)
  moreover have "sql_vars n s' = sql_vars n s" using d(3) s'(2) by (simp add: sql_vars_def)
  ultimately show ?thesis using s'(1) up(3) plan by (simp add: sql_storage_flight_plan_delete_row_def)
qed

end

context sql_engine
begin

lemma sql_fp_get:
  assumes "sql_inv n s" "in_int t"
  shows "sql_storage_flight_plan_get_args en t s =
     Some (if sql_plan s t = None then SCH_ST_ERROR else SCH_ST_OK, sql_plan s t)"
proof -
  have up: "sql_up s" "ready (contents s)" "sql_fp_table s = CLive DAT_TABLE_FP"
    using assms(1) by (auto simp: sql_inv_def sql_up_def)
  note sel = fp_select [OF up(2) assms(2)] and q = query_sql_open [OF up(1), of "fp_select_sql DAT_TABLE_FP t"]
  show ?thesis
  proof (cases "sql_plan s t")
    case None
    then have "sq_rows en (fp_select_sql DAT_TABLE_FP t) (contents s) = Some []" using sel by (simp add: sql_plan_def)
    then show ?thesis
      using None q up(3)
      by (simp add: sql_storage_flight_plan_get_args_def sql_storage_flight_plan_get_st_def table_entry_def config_defs)
  next
    case (Some x)
    obtain c a e p nd where x: "x = (c, a, e, p, nd)" by (cases x) auto
    obtain row where row: "sq_rows en (fp_select_sql DAT_TABLE_FP t) (contents s) = Some [row]"
        "map (sq_text en) row = map Some [show_int t, c, a, show_int e, show_int p, show_int nd]"
      using sel Some unfolding sql_plan_def x by auto
    have rng: "in_int e" "in_int p" "in_int nd" using up(1) Some x by (auto simp: sql_up_def)
    have te: "table_entry en (Some [row]) = Some (SCH_ST_OK, Some \<lparr>unixtime = t, executions = e, periodical = p, node = nd,
        fp_cmd = Some c, fp_args = Some a\<rparr>)"
      by (rule table_entry_row [OF row(2) assms(2) rng])
    have "sql_storage_flight_plan_get_st en t s = Some (SCH_ST_OK, Some \<lparr>unixtime = t, executions = e, periodical = p,
        node = nd, fp_cmd = Some c, fp_args = Some a\<rparr>)"
      using q up(3) row(1) te by (simp add: sql_storage_flight_plan_get_st_def)
    then show ?thesis using Some x by (simp add: sql_storage_flight_plan_get_args_def)
  qed
qed

end

end
