(* ===== verification/Sql_Repo.thy ===== *)
theory Sql_Repo
  imports Sql_Laws
begin

text \<open>
  The flight plan of repoData.c over SQLite. The entries are rows whose primary key is the second, so an entry replaces
  another one of the same second, and deleting a second that has no entry succeeds; \<^verbatim>\<open>dat_fpl_queue\<close> counts the calls
  that succeeded instead of the entries. The specification \<open>time_plan\<close> states this, and every sequence of calls refines it.
\<close>

definition sql_cfg :: "('d, 'c) sqlite \<Rightarrow> c_float \<Rightarrow> string \<Rightarrow> bool \<Rightarrow> 'd sql dat_cfg" where
  "sql_cfg en cf fn tr = storage_ops.extend (sql_ops en cf fn) \<lparr>triple_wr = tr\<rparr>"

lemma sql_cfg_simps [simp]:
  "op_status_get (sql_cfg en cf fn tr) = sql_storage_status_get_value_idx en DAT_TABLE_STATUS"
  "op_status_set (sql_cfg en cf fn tr) = sql_storage_status_set_value_idx en DAT_TABLE_STATUS"
  "op_fp_set (sql_cfg en cf fn tr) = sql_storage_flight_plan_set en"
  "op_fp_get_args (sql_cfg en cf fn tr) = sql_storage_flight_plan_get_args en"
  "op_fp_delete_row (sql_cfg en cf fn tr) = sql_storage_flight_plan_delete_row en"
  "triple_wr (sql_cfg en cf fn tr) = tr"
  by (simp_all add: sql_cfg_def sql_ops_def storage_ops.defs)

section \<open>Calls and their specification\<close>

datatype plan_call = Set_Entry int string string int int | Get_Entry int | Del_Entry int

datatype plan_answer = Done int | Entry int "(string \<times> string \<times> int \<times> int) option"

fun plan_call_run :: "'s dat_cfg \<Rightarrow> plan_call \<Rightarrow> 's \<Rightarrow> (plan_answer \<times> 's) option" where
  "plan_call_run cfg (Set_Entry t c a e p) s =
     do { (rc, s1) \<leftarrow> dat_set_fp cfg t (Some c) (Some a) e p s; Some (Done rc, s1) }"
| "plan_call_run cfg (Get_Entry t) s = do { (rc, x, s1) \<leftarrow> dat_get_fp cfg t s; Some (Entry rc x, s1) }"
| "plan_call_run cfg (Del_Entry t) s = do { (rc, s1) \<leftarrow> dat_del_fp cfg t s; Some (Done rc, s1) }"

fun plan_calls_run :: "'s dat_cfg \<Rightarrow> plan_call list \<Rightarrow> 's \<Rightarrow> (plan_answer list \<times> 's) option" where
  "plan_calls_run cfg [] s = Some ([], s)"
| "plan_calls_run cfg (c # cs) s =
     do { (a, s1) \<leftarrow> plan_call_run cfg c s; (as, s2) \<leftarrow> plan_calls_run cfg cs s1; Some (a # as, s2) }"

text \<open>The plan as a function of the second, with the value of the counter beside it.\<close>

type_synonym time_plan = "(int \<Rightarrow> (string \<times> string \<times> int \<times> int) option) \<times> int"

fun time_call :: "plan_call \<Rightarrow> time_plan \<Rightarrow> plan_answer \<times> time_plan" where
  "time_call (Set_Entry t c a e p) (m, n) = (Done SCH_ST_OK, m(t := Some (c, a, e, p)), n + 1)"
| "time_call (Get_Entry t) (m, n) =
     (case m t of
        None \<Rightarrow> (Entry SCH_ST_ERROR None, m, n)
      | Some x \<Rightarrow> (Entry SCH_ST_OK (Some x), m(t := None), n - 1))"
| "time_call (Del_Entry t) (m, n) = (Done SCH_ST_OK, m(t := None), n - 1)"

fun time_calls :: "plan_call list \<Rightarrow> time_plan \<Rightarrow> plan_answer list \<times> time_plan" where
  "time_calls [] x = ([], x)"
| "time_calls (c # cs) x = (let (a, y) = time_call c x; (as, z) = time_calls cs y in (a # as, z))"

text \<open>Numbers of 32 bits and texts without quotation marks.\<close>

fun plan_call_ok :: "plan_call \<Rightarrow> bool" where
  "plan_call_ok (Set_Entry t c a e p) \<longleftrightarrow>
     0 \<le> t \<and> in_int t \<and> in_int e \<and> in_int p \<and> DQ \<notin> set c \<and> DQ \<notin> set a"
| "plan_call_ok (Get_Entry t) \<longleftrightarrow> in_int t"
| "plan_call_ok (Del_Entry t) \<longleftrightarrow> in_int t"

lemma time_call_count: "\<bar>snd (snd (time_call c (m, n)))\<bar> \<le> \<bar>n\<bar> + 1"
  by (cases c) (auto split: option.split)

sublocale sql_engine \<subseteq> st: status_repo "sql_cfg en cf fn tr" "\<lambda>s. sql_inv (n_copies tr) s \<and> sql_plan s = P"
  "sql_vars (n_copies tr)" for cf fn tr P
proof unfold_locales
  fix s :: "'d sql" and i v
  assume s: "sql_inv (n_copies tr) s \<and> sql_plan s = P" and i: "0 \<le> i" "i < int (length (sql_vars (n_copies tr) s))"
  have lt: "nat i < n_copies tr" "int (nat i) = i" using i by simp_all
  show "op_status_get (sql_cfg en cf fn tr) i s = Some (SCH_ST_OK, Some (sql_vars (n_copies tr) s ! nat i))"
    using sql_status_get [of "n_copies tr" s "nat i"] s lt by simp
  have r: "in_int i" using s i by (simp add: sql_inv_def in_int_def)
  obtain s' where s': "sql_storage_status_set_value_idx en DAT_TABLE_STATUS i v s = Some (SCH_ST_OK, s')"
      "sql_inv (n_copies tr) s'" "sql_vars (n_copies tr) s' = (sql_vars (n_copies tr) s)[nat i := v]"
    using sql_status_set [of "n_copies tr" s "nat i" v] s lt by auto
  moreover have "sql_plan s' = P" using sql_status_set_plan [OF _ s'(1) r] s by blast
  ultimately show "\<exists>s'. op_status_set (sql_cfg en cf fn tr) i v s = Some (SCH_ST_OK, s') \<and>
      (sql_inv (n_copies tr) s' \<and> sql_plan s' = P) \<and> sql_vars (n_copies tr) s' = (sql_vars (n_copies tr) s)[nat i := v]"
    by simp
qed simp

context sql_engine
begin

text \<open>A state shows the plan \<open>m\<close> and the counter \<open>n\<close>. The code gives every entry the same node.\<close>

definition shows_plan :: "bool \<Rightarrow> 'd sql \<Rightarrow> time_plan \<Rightarrow> bool" where
  "shows_plan tr s x \<longleftrightarrow> sql_inv (n_copies tr) s \<and>
     sql_plan s = (\<lambda>t. map_option (\<lambda>(c, a, e, p). (c, a, e, p, SCH_COMM_NODE)) (fst x t)) \<and>
     v_i (vote tr (sql_vars (n_copies tr) s) (nat dat_fpl_queue)) = snd x"

lemma shows_counter:
  assumes "shows_plan tr s (m, n)"
  shows "dat_get_system_var (sql_cfg en cf fn tr) dat_fpl_queue s = Some n"
  using st.get_sys [of tr s "sql_plan s" dat_fpl_queue cf fn] assms st.sys_def
  by (simp add: shows_plan_def addr_defs)

text \<open>The last step of every call: the counter is written.\<close>

lemma shows_count:
  assumes "sql_inv (n_copies tr) s" "in_int n"
    and "sql_plan s = (\<lambda>t. map_option (\<lambda>(c, a, e, p). (c, a, e, p, SCH_COMM_NODE)) (m t))"
  shows "\<exists>s'. dat_set_system_var (sql_cfg en cf fn tr) dat_fpl_queue n s = Some (SCH_ST_OK, s') \<and> shows_plan tr s' (m, n)"
proof -
  have q: "0 \<le> dat_fpl_queue" "dat_fpl_queue < 17" by (simp_all add: addr_defs)
  from st.set_sys [of tr s "sql_plan s", OF _ q assms(2)] assms(1) obtain s' where
      s': "dat_set_system_var (sql_cfg en cf fn tr) dat_fpl_queue n s = Some (SCH_ST_OK, s')"
        "sql_inv (n_copies tr) s' \<and> sql_plan s' = sql_plan s"
        "\<And>j. 0 \<le> j \<Longrightarrow> j < 17 \<Longrightarrow> st.sys cf fn tr s' j = (if dat_fpl_queue = j then n else st.sys cf fn tr s j)"
    by blast
  from s'(3) [OF q] have "st.sys cf fn tr s' dat_fpl_queue = n" by simp
  with s'(1,2) show ?thesis using assms(3) by (auto simp: shows_plan_def st.sys_def)
qed

lemma shows_call:
  assumes s: "shows_plan tr s (m, n)" and ok: "plan_call_ok c" and n: "\<bar>n\<bar> < 2147483647"
  shows "\<exists>s'. plan_call_run (sql_cfg en cf fn tr) c s = Some (fst (time_call c (m, n)), s') \<and>
     shows_plan tr s' (snd (time_call c (m, n)))"
proof -
  have inv: "sql_inv (n_copies tr) s"
    and pl: "sql_plan s = (\<lambda>t. map_option (\<lambda>(c, a, e, p). (c, a, e, p, SCH_COMM_NODE)) (m t))"
    using s by (simp_all add: shows_plan_def)
  have r: "in_int (n + 1)" "in_int (n - 1)" using n by (auto simp: in_int_def)
  have del: "\<exists>s1 s2. sql_storage_flight_plan_delete_row en t s = Some (SCH_ST_OK, s1) \<and>
      dat_set_system_var (sql_cfg en cf fn tr) dat_fpl_queue (n - 1) s1 = Some (SCH_ST_OK, s2) \<and>
      shows_plan tr s2 (m(t := None), n - 1)" if r_t: "in_int t" for t
  proof -
    obtain s1 where s1: "sql_storage_flight_plan_delete_row en t s = Some (SCH_ST_OK, s1)"
        "sql_inv (n_copies tr) s1" "sql_plan s1 = (sql_plan s)(t := None)"
      using sql_fp_delete [OF inv r_t] by blast
    show ?thesis using shows_count [OF s1(2) r(2), of "m(t := None)" cf fn] s1 pl by (auto simp: fun_eq_iff)
  qed
  show ?thesis
  proof (cases c)
    case (Set_Entry t c a e p)
    obtain s1 where s1: "sql_storage_flight_plan_set en t (Some c) (Some a) e p SCH_COMM_NODE s = Some (SCH_ST_OK, s1)"
        "sql_inv (n_copies tr) s1" "sql_plan s1 = (sql_plan s)(t := Some (c, a, e, p, SCH_COMM_NODE))"
      using sql_fp_set [OF inv, of t e p SCH_COMM_NODE c a] ok Set_Entry by (auto simp: in_int_def config_defs)
    have "sql_plan s1 = (\<lambda>t'. map_option (\<lambda>(c, a, e, p). (c, a, e, p, SCH_COMM_NODE)) ((m(t := Some (c, a, e, p))) t'))"
      using s1(3) pl by (auto simp: fun_eq_iff)
    from shows_count [where m = "m(t := Some (c, a, e, p))", OF s1(2) r(1) this, of cf fn] show ?thesis
      using s1(1) shows_counter [OF s, of cf fn] r(1) Set_Entry
      by (auto simp: dat_set_fp_def dat_set_fp_count_def)
  next
    case (Get_Entry t)
    have g: "sql_storage_flight_plan_get_args en t s = Some (if m t = None then SCH_ST_ERROR else SCH_ST_OK, sql_plan s t)"
      using sql_fp_get [OF inv, of t] ok Get_Entry pl by simp
    have "(SCH_ST_ERROR = SCH_ST_OK) = False" by (simp add: config_defs)
    then show ?thesis
      using g del [of t] ok shows_counter [OF s, of cf fn] r(2) Get_Entry s pl
      by (cases "m t") (auto simp: dat_get_fp_def split: option.split)
  next
    case (Del_Entry t)
    then show ?thesis
      using del [of t] ok shows_counter [OF s, of cf fn] r(2) by (auto simp: dat_del_fp_def)
  qed
qed

lemma shows_plan_calls:
  assumes "shows_plan tr s x" "\<forall>c \<in> set cs. plan_call_ok c" "\<bar>snd x\<bar> + int (length cs) \<le> 2147483647"
  shows "\<exists>s'. plan_calls_run (sql_cfg en cf fn tr) cs s = Some (fst (time_calls cs x), s') \<and>
     shows_plan tr s' (snd (time_calls cs x))"
  using assms
proof (induction cs arbitrary: s x)
  case (Cons c cs)
  obtain m n where x: "x = (m, n)" by (cases x)
  have "\<bar>n\<bar> < 2147483647" using Cons.prems(3) x by simp
  from shows_call [OF Cons.prems(1) [unfolded x] _ this, of c cf fn] Cons.prems(2) obtain s1 where
      s1: "plan_call_run (sql_cfg en cf fn tr) c s = Some (fst (time_call c x), s1)" "shows_plan tr s1 (snd (time_call c x))"
    by (auto simp: x)
  have "\<bar>snd (snd (time_call c x))\<bar> + int (length cs) \<le> 2147483647"
    using time_call_count [of c m n] Cons.prems(3) x by simp
  with Cons.IH [OF s1(2)] Cons.prems(2) obtain s' where
      "plan_calls_run (sql_cfg en cf fn tr) cs s1 = Some (fst (time_calls cs (snd (time_call c x))), s')"
      "shows_plan tr s' (snd (time_calls cs (snd (time_call c x))))" by auto
  then show ?case using s1(1) by (auto simp: split_beta Let_def)
qed simp

end

section \<open>An engine for these statements\<close>

text \<open>
  A small engine that reads exactly the statements above. It shows that the laws of \<open>sql_engine\<close> can hold; nothing else
  rests on it.
\<close>

type_synonym mini_db = "(int \<Rightarrow> int option) \<times> (int \<Rightarrow> (string \<times> string \<times> int \<times> int \<times> int) option)"

datatype cell = CInt int | CText string

fun cell_int :: "cell \<Rightarrow> int" where
  "cell_int (CInt v) = v"
| "cell_int (CText txt) = 0"

fun cell_text :: "cell \<Rightarrow> string" where
  "cell_text (CInt v) = show_int v"
| "cell_text (CText txt) = txt"

fun strip :: "string \<Rightarrow> string \<Rightarrow> string option" where
  "strip [] s = Some s"
| "strip (p # ps) [] = None"
| "strip (p # ps) (c # cs) = (if p = c then strip ps cs else None)"

definition quoted :: "string \<Rightarrow> (string \<times> string) option" where
  "quoted s = do { r \<leftarrow> strip [DQ] s; r' \<leftarrow> strip [DQ] (dropWhile (\<lambda>c. c \<noteq> DQ) r); Some (takeWhile (\<lambda>c. c \<noteq> DQ) r, r') }"

definition exec_status :: "string \<Rightarrow> mini_db \<Rightarrow> mini_db option" where
  "exec_status txt d =
     do { r \<leftarrow> strip ''INSERT OR REPLACE INTO dat_status (idx, name, value) VALUES ('' txt;
          (i, r1) \<leftarrow> scan_int r;
          r2 \<leftarrow> strip '', (SELECT name FROM dat_status WHERE idx = '' r1;
          (_, r3) \<leftarrow> quoted r2;
          r4 \<leftarrow> strip ''), '' r3;
          (v, r5) \<leftarrow> scan_int r4;
          Some ((fst d)(i := Some v), snd d) }"

definition exec_insert :: "string \<Rightarrow> mini_db \<Rightarrow> mini_db option" where
  "exec_insert txt d =
     do { r0 \<leftarrow> strip ''INSERT OR REPLACE INTO dat_flightplan (time, command, args, executions, periodical, node)'' txt;
          r \<leftarrow> strip (newline # '' VALUES ('') r0;
          (t, r1) \<leftarrow> scan_int r;
          r2 \<leftarrow> strip '', '' r1;
          (c, r3) \<leftarrow> quoted r2;
          r4 \<leftarrow> strip '', '' r3;
          (a, r5) \<leftarrow> quoted r4;
          r6 \<leftarrow> strip '', '' r5;
          (e, r7) \<leftarrow> scan_int r6;
          r8 \<leftarrow> strip '', '' r7;
          (p, r9) \<leftarrow> scan_int r8;
          r10 \<leftarrow> strip '', '' r9;
          (n, r11) \<leftarrow> scan_int r10;
          Some (fst d, (snd d)(t := Some (c, a, e, p, n))) }"

definition exec_delete :: "string \<Rightarrow> mini_db \<Rightarrow> mini_db option" where
  "exec_delete txt d =
     do { r0 \<leftarrow> strip ''DELETE FROM dat_flightplan'' txt;
          r \<leftarrow> strip (newline # '' WHERE time = '') r0;
          (t, r1) \<leftarrow> scan_int r;
          Some (fst d, (snd d)(t := None)) }"

definition mini_exec :: "string \<Rightarrow> mini_db \<Rightarrow> bool \<times> mini_db" where
  "mini_exec txt d =
     (case exec_status txt d of Some d' \<Rightarrow> (True, d') | None \<Rightarrow>
      case exec_insert txt d of Some d' \<Rightarrow> (True, d') | None \<Rightarrow>
      case exec_delete txt d of Some d' \<Rightarrow> (True, d') | None \<Rightarrow>
      (strip ''CREATE TABLE IF NOT EXISTS '' txt \<noteq> None, d))"

definition rows_status :: "string \<Rightarrow> mini_db \<Rightarrow> cell list list option" where
  "rows_status txt d =
     do { r \<leftarrow> strip ''SELECT value FROM dat_status WHERE idx='' txt;
          (k, r1) \<leftarrow> quoted r;
          (i, r2) \<leftarrow> scan_int k;
          Some (case fst d i of None \<Rightarrow> [] | Some v \<Rightarrow> [[CInt v]]) }"

definition rows_plan :: "string \<Rightarrow> mini_db \<Rightarrow> cell list list option" where
  "rows_plan txt d =
     do { r \<leftarrow> strip ''SELECT * FROM dat_flightplan WHERE time = '' txt;
          (t, r1) \<leftarrow> scan_int r;
          Some (case snd d t of None \<Rightarrow> []
                | Some (c, a, e, p, n) \<Rightarrow> [[CInt t, CText c, CText a, CInt e, CInt p, CInt n]]) }"

definition mini_engine :: "(mini_db, cell) sqlite" where
  "mini_engine = \<lparr>sq_open = (\<lambda>_. True), sq_exec = mini_exec,
     sq_rows = (\<lambda>txt d. case rows_status txt d of Some r \<Rightarrow> Some r | None \<Rightarrow> rows_plan txt d),
     sq_int = cell_int, sq_float = (\<lambda>_. 0), sq_text = (\<lambda>c. Some (cell_text c))\<rparr>"

lemma quoted_DQ [simp]: "DQ \<notin> set c \<Longrightarrow> quoted (DQ # c @ DQ # r) = Some (c, r)"
proof -
  assume "DQ \<notin> set c"
  then have "list_all (\<lambda>x. x \<noteq> DQ) c" by (auto simp: list_all_iff)
  then show ?thesis by (simp add: quoted_def takeWhile_prefix dropWhile_prefix)
qed

lemma DQ_show_int [simp]: "DQ \<notin> set (show_int v)"
proof -
  have "DQ \<notin> set (show_nat n)" for n using show_nat_digits [of n] by (auto simp: list_all_iff is_digit_def)
  then show ?thesis by (auto simp: show_int_def)
qed

lemma scan_int_end [simp]: "scan_int (show_int v) = Some (v, [])"
  using scan_int_show [of "[]" v] by simp

lemmas mini_defs = exec_status_def exec_insert_def exec_delete_def rows_status_def rows_plan_def
  DAT_TABLE_STATUS_def DAT_TABLE_FP_def scan_int_show is_digit_def

lemma mini_status:
  "mini_exec (status_insert_sql DAT_TABLE_STATUS i v) d = (True, (fst d)(i := Some v), snd d)"
  by (simp add: mini_exec_def status_insert_sql_def mini_defs)

lemma mini_insert:
  "DQ \<notin> set c \<Longrightarrow> DQ \<notin> set a \<Longrightarrow>
   mini_exec (fp_insert_sql DAT_TABLE_FP t c a e p n) d = (True, fst d, (snd d)(t := Some (c, a, e, p, n)))"
  by (simp add: mini_exec_def fp_insert_sql_def mini_defs)

lemma mini_delete: "mini_exec (fp_delete_sql DAT_TABLE_FP t) d = (True, fst d, (snd d)(t := None))"
  by (simp add: mini_exec_def fp_delete_sql_def mini_defs)

lemma mini_rows_status: "rows_status (status_select_sql DAT_TABLE_STATUS i) d =
   Some (case fst d i of None \<Rightarrow> [] | Some v \<Rightarrow> [[CInt v]])"
  by (simp add: status_select_sql_def mini_defs)

lemma mini_rows_plan: "rows_status (fp_select_sql DAT_TABLE_FP t) d = None"
  "rows_plan (fp_select_sql DAT_TABLE_FP t) d = Some (case snd d t of None \<Rightarrow> []
                | Some (c, a, e, p, n) \<Rightarrow> [[CInt t, CText c, CText a, CInt e, CInt p, CInt n]])"
  by (simp_all add: fp_select_sql_def mini_defs)

interpretation mini: sql_engine mini_engine "\<lambda>_. True" fst snd
  by unfold_locales
    (auto simp: mini_engine_def mini_status mini_insert mini_delete mini_rows_status mini_rows_plan split: option.split)

section \<open>Properties\<close>

text \<open>
  C11: Over SQLite the flight plan is a function from seconds to entries. Every sequence of calls that set entries (texts without
  quotation marks), take them out by their second and delete them by their second succeeds with the answers of the specification
  \<open>time_calls\<close>: an entry replaces the one of the same second, an entry taken out is the last one set for its second, deleting
  a second without an entry is no error. The counter grows with every entry set and shrinks with every deletion,
  so it is not the number of entries.
\<close>

theorem sql_plan_by_time:
  assumes "sql_engine en ready vars_of plan_of"
    and "sql_engine.shows_plan ready vars_of plan_of tr s (m, n)"
    and "\<forall>c \<in> set cs. plan_call_ok c" "\<bar>n\<bar> + int (length cs) \<le> 2147483647"
  shows "\<exists>s'. plan_calls_run (sql_cfg en cf fn tr) cs s = Some (fst (time_calls cs (m, n)), s') \<and>
     sql_engine.shows_plan ready vars_of plan_of tr s' (snd (time_calls cs (m, n))) \<and>
     dat_get_system_var (sql_cfg en cf fn tr) dat_fpl_queue s' = Some (snd (snd (time_calls cs (m, n))))"
proof -
  from sql_engine.shows_plan_calls [OF assms(1,2,3), of cf fn] assms(4) obtain s' where
      s': "plan_calls_run (sql_cfg en cf fn tr) cs s = Some (fst (time_calls cs (m, n)), s')"
        "sql_engine.shows_plan ready vars_of plan_of tr s' (snd (time_calls cs (m, n)))" by auto
  from sql_engine.shows_counter [OF assms(1), of tr s' "fst (snd (time_calls cs (m, n)))"] s'
  show ?thesis by auto
qed

definition mini_start :: "mini_db sql" where
  "mini_start = \<lparr>sql_disk = (\<lambda>_. (\<lambda>i. if 0 \<le> i \<and> i < 17 then Some 0 else None, \<lambda>_. None)), sql_db = HOpen ''fs.db'',
     sql_is_open = True, sql_fp_table = CLive DAT_TABLE_FP, sql_entries = 1, sql_schema = Some data_map,
     sql_table = Some DAT_TABLE_DATA\<rparr>"

lemma mini_start_shows: "mini.shows_plan False mini_start (\<lambda>_. None, 0)"
proof -
  have "mini.sql_inv (n_copies False) mini_start"
    by (auto simp: mini.sql_inv_def mini.sql_up_def mini.sql_plan_def mini.contents_def mini_start_def n_copies_def in_int_def)
  then show ?thesis
    by (simp add: mini.shows_plan_def mini.sql_plan_def mini.sql_vars_def mini.contents_def mini_start_def n_copies_def vote_def
        addr_defs in_int_def)
qed

theorem sql_plan_by_time_witness:
  "\<exists>s'. plan_calls_run (sql_cfg mini_engine \<lparr>show_f = \<lambda>_. [], is_nan = \<lambda>_. False\<rparr> ''fs.db'' False)
       [Set_Entry 10 ''obc_ident'' '''' 1 0, Set_Entry 10 ''obc_reset'' ''1'' 1 0, Del_Entry 99, Get_Entry 10] mini_start =
     Some ([Done SCH_ST_OK, Done SCH_ST_OK, Done SCH_ST_OK, Entry SCH_ST_OK (Some (''obc_reset'', ''1'', 1, 0))], s') \<and>
     dat_get_system_var (sql_cfg mini_engine \<lparr>show_f = \<lambda>_. [], is_nan = \<lambda>_. False\<rparr> ''fs.db'' False) dat_fpl_queue s' = Some 0"
proof -
  let ?cs = "[Set_Entry 10 ''obc_ident'' '''' 1 0, Set_Entry 10 ''obc_reset'' ''1'' 1 0, Del_Entry 99, Get_Entry 10]"
  have ok: "\<forall>c \<in> set ?cs. plan_call_ok c" by (simp add: in_int_def)
  have sp: "time_calls ?cs (\<lambda>_. None, 0) =
      ([Done SCH_ST_OK, Done SCH_ST_OK, Done SCH_ST_OK, Entry SCH_ST_OK (Some (''obc_reset'', ''1'', 1, 0))], \<lambda>_. None, 0)"
    by (simp add: fun_eq_iff)
  have "\<bar>0 :: int\<bar> + int (length ?cs) \<le> 2147483647" by simp
  from sql_plan_by_time [OF mini.sql_engine_axioms mini_start_shows ok this, unfolded sp fst_conv snd_conv]
  show ?thesis by blast
qed

end
