(* ===== verification/Math_Utils.thy ===== *)
theory Math_Utils
  imports C_Prelude Complex_Main
begin

text \<open>
  src/lib/utils/math_utils.c: vectors, quaternions, matrices and the error-state Kalman filter. A \<^verbatim>\<open>double\<close> is any type with the
  operations the code applies to it; no law is assumed of them in the definitions. What the code takes from
  the C library and the comparison of doubles are the record \<open>libm\<close>, whose field \<open>lit\<close> gives the value of a literal.

  The unions are records of their components, and a pointer to their array is the list of these. An argument \<open>dst\<close> is what the object that receives the
  result holds before the call (for a null \<^verbatim>\<open>res\<close> the operand itself); results and operands are otherwise different objects,
  as in every call of the code. Local arrays start with the contents \<open>junk\<close>.
\<close>

section \<open>Types\<close>

record 'a libm =
  lit :: "rat \<Rightarrow> 'a"
  feq :: "'a \<Rightarrow> 'a \<Rightarrow> bool"
  fpow :: "'a \<Rightarrow> 'a \<Rightarrow> 'a"
  fsqrt :: "'a \<Rightarrow> 'a"
  fsin :: "'a \<Rightarrow> 'a"
  fcos :: "'a \<Rightarrow> 'a"
  facos :: "'a \<Rightarrow> 'a"
  ffabs :: "'a \<Rightarrow> 'a"
  fatan2 :: "'a \<Rightarrow> 'a \<Rightarrow> 'a"
  flog :: "'a \<Rightarrow> 'a"
  ffloor :: "'a \<Rightarrow> int"
  ftrunc :: "'a \<Rightarrow> int"

record 'a quaternion =
  q0 :: 'a
  q1 :: 'a
  q2 :: 'a
  q3 :: 'a

record 'a vector3 =
  v0 :: 'a
  v1 :: 'a
  v2 :: 'a

record 'a matrix3 =
  m00 :: 'a
  m01 :: 'a
  m02 :: 'a
  m10 :: 'a
  m11 :: 'a
  m12 :: 'a
  m20 :: 'a
  m21 :: 'a
  m22 :: 'a

definition q_arr :: "'a quaternion \<Rightarrow> 'a list" where
  "q_arr q = [q0 q, q1 q, q2 q, q3 q]"

definition arr_q :: "'a list \<Rightarrow> 'a quaternion option" where
  "arr_q xs = (case xs of [a, b, c, d] \<Rightarrow> Some \<lparr>q0 = a, q1 = b, q2 = c, q3 = d\<rparr> | _ \<Rightarrow> None)"

definition v_arr :: "'a vector3 \<Rightarrow> 'a list" where
  "v_arr v = [v0 v, v1 v, v2 v]"

definition arr_v :: "'a list \<Rightarrow> 'a vector3 option" where
  "arr_v xs = (case xs of [a, b, c] \<Rightarrow> Some \<lparr>v0 = a, v1 = b, v2 = c\<rparr> | _ \<Rightarrow> None)"

definition m_arr :: "'a matrix3 \<Rightarrow> 'a list" where
  "m_arr m = [m00 m, m01 m, m02 m, m10 m, m11 m, m12 m, m20 m, m21 m, m22 m]"

definition arr_m :: "'a list \<Rightarrow> 'a matrix3 option" where
  "arr_m xs =
     (case xs of
        [a, b, c, d, e, f, g, h, i] \<Rightarrow>
          Some \<lparr>m00 = a, m01 = b, m02 = c, m10 = d, m11 = e, m12 = f, m20 = g, m21 = h, m22 = i\<rparr>
      | _ \<Rightarrow> None)"

section \<open>Quaternions\<close>

definition quat_sum :: "'a::plus quaternion \<Rightarrow> 'a quaternion \<Rightarrow> 'a quaternion" where
  "quat_sum qa qb = \<lparr>q0 = q0 qa + q0 qb, q1 = q1 qa + q1 qb, q2 = q2 qa + q2 qb, q3 = q3 qa + q3 qb\<rparr>"

definition quat_mult :: "'a::{plus, minus, uminus, times} quaternion \<Rightarrow> 'a quaternion \<Rightarrow> 'a quaternion" where
  "quat_mult lhs rhs =
     \<lparr>q0 = q3 lhs * q0 rhs - q2 lhs * q1 rhs + q1 lhs * q2 rhs + q0 lhs * q3 rhs,
      q1 = q2 lhs * q0 rhs + q3 lhs * q1 rhs - q0 lhs * q2 rhs + q1 lhs * q3 rhs,
      q2 = - q1 lhs * q0 rhs + q0 lhs * q1 rhs + q3 lhs * q2 rhs + q2 lhs * q3 rhs,
      q3 = - q0 lhs * q0 rhs - q1 lhs * q1 rhs - q2 lhs * q2 rhs + q3 lhs * q3 rhs\<rparr>"

definition quat_normalize :: "'a::{plus, times, inverse} libm \<Rightarrow> 'a quaternion \<Rightarrow> 'a quaternion \<Rightarrow> 'a quaternion" where
  "quat_normalize m q dst =
     (let n = lit m 0 + fpow m (q0 q) (lit m 2) + fpow m (q1 q) (lit m 2) + fpow m (q2 q) (lit m 2) + fpow m (q3 q) (lit m 2)
      in if feq m n (lit m 0) then dst
         else (let k = lit m 1 / fsqrt m n in \<lparr>q0 = q0 q * k, q1 = q1 q * k, q2 = q2 q * k, q3 = q3 q * k\<rparr>))"

definition quat_conjugate :: "'a::uminus quaternion \<Rightarrow> 'a quaternion" where
  "quat_conjugate q = \<lparr>q0 = - q0 q, q1 = - q1 q, q2 = - q2 q, q3 = q3 q\<rparr>"

text \<open>For the quaternion 0 the local \<^verbatim>\<open>temp1\<close> is not written.\<close>

definition quat_inverse ::
    "'a::{plus, times, inverse, uminus} libm \<Rightarrow> 'a quaternion \<Rightarrow> 'a quaternion \<Rightarrow> 'a quaternion" where
  "quat_inverse m junk q = quat_conjugate (quat_normalize m q junk)"

definition quat_frame_conv ::
    "'a::{plus, minus, uminus, times} libm \<Rightarrow> 'a quaternion \<Rightarrow> 'a vector3 \<Rightarrow> 'a vector3" where
  "quat_frame_conv m q_rot_a2b v_a =
     (let q_conj = quat_conjugate q_rot_a2b;
          vec_as_quat = \<lparr>q0 = v0 v_a, q1 = v1 v_a, q2 = v2 v_a, q3 = lit m 0\<rparr>;
          temp = quat_mult q_conj vec_as_quat;
          res_vec = quat_mult temp q_rot_a2b
      in \<lparr>v0 = q0 res_vec, v1 = q1 res_vec, v2 = q2 res_vec\<rparr>)"

definition quat_to_dcm :: "'a::{plus, minus, times} libm \<Rightarrow> 'a quaternion \<Rightarrow> 'a matrix3" where
  "quat_to_dcm m q =
     (let q1 = q0 q; q2 = Math_Utils.q1 q; q3 = Math_Utils.q2 q; q4 = Math_Utils.q3 q; sq = (\<lambda>x. fpow m x (lit m 2))
      in \<lparr>m00 = sq q1 - sq q2 - sq q3 + sq q4,
          m01 = lit m 2 * (q1 * q2 + q3 * q4),
          m02 = lit m 2 * (q1 * q3 - q2 * q4),
          m10 = lit m 2 * (q1 * q2 - q3 * q4),
          m11 = lit m (- 1) * sq q1 + sq q2 - sq q3 + sq q4,
          m12 = lit m 2 * (q2 * q3 + q1 * q4),
          m20 = lit m 2 * (q1 * q3 + q2 * q4),
          m21 = lit m 2 * (q2 * q3 - q1 * q4),
          m22 = lit m (- 1) * sq q1 - sq q2 + sq q3 + sq q4\<rparr>)"

definition axis_rotation_to_quat :: "'a::times libm \<Rightarrow> 'a vector3 \<Rightarrow> 'a \<Rightarrow> 'a quaternion" where
  "axis_rotation_to_quat m axis rot =
     (let r = rot * lit m (1 / 2)
      in \<lparr>q0 = v0 axis * fsin m r, q1 = v1 axis * fsin m r, q2 = v2 axis * fsin m r, q3 = fcos m r\<rparr>)"

section \<open>Vectors\<close>

definition vec_norm :: "'a::plus libm \<Rightarrow> 'a vector3 \<Rightarrow> 'a" where
  "vec_norm m vec =
     fsqrt m (lit m 0 + fpow m (v0 vec) (lit m 2) + fpow m (v1 vec) (lit m 2) + fpow m (v2 vec) (lit m 2))"

definition vec_cons_mult :: "'a::times \<Rightarrow> 'a vector3 \<Rightarrow> 'a vector3" where
  "vec_cons_mult a vec = \<lparr>v0 = v0 vec * a, v1 = v1 vec * a, v2 = v2 vec * a\<rparr>"

text \<open>
  No check for the zero vector: in doubles \<^verbatim>\<open>1.0 / rot\<close> is then infinite and the result NaN, where
  the division of the reals gives 0. What is proved of it over the reals is for other vectors.
\<close>

definition vec_to_quat :: "'a::{plus, times, inverse} libm \<Rightarrow> 'a vector3 \<Rightarrow> 'a quaternion" where
  "vec_to_quat m axis =
     (let rot = vec_norm m axis; u = vec_cons_mult (lit m 1 / rot) axis in axis_rotation_to_quat m u rot)"

definition vec_normalize :: "'a::{plus, times, inverse} libm \<Rightarrow> 'a vector3 \<Rightarrow> 'a vector3 \<Rightarrow> int \<times> 'a vector3" where
  "vec_normalize m vec dst =
     (let n = vec_norm m vec
      in if feq m n (lit m 0) then (0, dst)
         else (let k = lit m 1 / n in (1, \<lparr>v0 = v0 vec * k, v1 = v1 vec * k, v2 = v2 vec * k\<rparr>)))"

definition vec_inner_product :: "'a::{plus, times} libm \<Rightarrow> 'a vector3 \<Rightarrow> 'a vector3 \<Rightarrow> 'a" where
  "vec_inner_product m lhs rhs = lit m 0 + v0 lhs * v0 rhs + v1 lhs * v1 rhs + v2 lhs * v2 rhs"

definition vec_outer_product :: "'a::{minus, times} vector3 \<Rightarrow> 'a vector3 \<Rightarrow> 'a vector3" where
  "vec_outer_product lhs rhs =
     \<lparr>v0 = v1 lhs * v2 rhs - v2 lhs * v1 rhs,
      v1 = v2 lhs * v0 rhs - v0 lhs * v2 rhs,
      v2 = v0 lhs * v1 rhs - v1 lhs * v0 rhs\<rparr>"

definition vec_angle :: "'a::{plus, times, inverse} libm \<Rightarrow> 'a vector3 \<Rightarrow> 'a vector3 \<Rightarrow> 'a" where
  "vec_angle m va vb = facos m (vec_inner_product m va vb / (vec_norm m va * vec_norm m vb))"

definition vec_sum :: "'a::plus vector3 \<Rightarrow> 'a vector3 \<Rightarrow> 'a vector3" where
  "vec_sum lhs rhs = \<lparr>v0 = v0 lhs + v0 rhs, v1 = v1 lhs + v1 rhs, v2 = v2 lhs + v2 rhs\<rparr>"

text \<open>The loop of \<^verbatim>\<open>quat_cons_mult\<close> stops after three of the four components.\<close>

definition quat_cons_mult :: "'a::times \<Rightarrow> 'a quaternion \<Rightarrow> 'a quaternion \<Rightarrow> 'a quaternion" where
  "quat_cons_mult a vec dst = dst\<lparr>q0 := q0 vec * a, q1 := q1 vec * a, q2 := q2 vec * a\<rparr>"

section \<open>Matrices in arrays\<close>

text \<open>\<^verbatim>\<open>for(i=0; i<n; ++i)\<close> over a body that may leave an array.\<close>

fun for_upto :: "nat \<Rightarrow> (nat \<Rightarrow> 's \<Rightarrow> 's option) \<Rightarrow> 's \<Rightarrow> 's option" where
  "for_upto 0 f s = Some s"
| "for_upto (Suc n) f s = do { s1 \<leftarrow> for_upto n f s; f n s1 }"

definition arr_mat_cons_mult :: "'a::times \<Rightarrow> 'a list \<Rightarrow> 'a list \<Rightarrow> nat \<Rightarrow> nat \<Rightarrow> 'a list option" where
  "arr_mat_cons_mult a mat dst n_x n_y =
     for_upto (n_x * n_y) (\<lambda>i res. do { x \<leftarrow> arr_get mat (int i); arr_set res (int i) (x * a) }) dst"

definition arr_mat_vec_mult ::
    "'a::{plus, times} libm \<Rightarrow> 'a list \<Rightarrow> 'a list \<Rightarrow> 'a list \<Rightarrow> nat \<Rightarrow> nat \<Rightarrow> 'a list option" where
  "arr_mat_vec_mult m mat vec dst n_x n_y =
     for_upto n_x (\<lambda>i res.
       do { res1 \<leftarrow> arr_set res (int i) (lit m 0);
            for_upto n_y (\<lambda>j res.
              do { a \<leftarrow> arr_get mat (int (i * n_y + j));
                   b \<leftarrow> arr_get vec (int j);
                   r \<leftarrow> arr_get res (int i);
                   arr_set res (int i) (r + a * b) }) res1 }) dst"

definition arr_mat_mat_mult ::
    "'a::{plus, times} libm \<Rightarrow> 'a list \<Rightarrow> 'a list \<Rightarrow> 'a list \<Rightarrow> nat \<Rightarrow> nat \<Rightarrow> nat \<Rightarrow> 'a list option" where
  "arr_mat_mat_mult m lhs rhs dst n_x n_y n_z =
     for_upto n_x (\<lambda>i. for_upto n_z (\<lambda>k res.
       do { res1 \<leftarrow> arr_set res (int (i * n_z + k)) (lit m 0);
            for_upto n_y (\<lambda>j res.
              do { a \<leftarrow> arr_get lhs (int (i * n_y + j));
                   b \<leftarrow> arr_get rhs (int (j * n_z + k));
                   r \<leftarrow> arr_get res (int (i * n_z + k));
                   arr_set res (int (i * n_z + k)) (r + a * b) }) res1 })) dst"

definition arr_mat_mat_sum :: "'a::plus list \<Rightarrow> 'a list \<Rightarrow> 'a list \<Rightarrow> nat \<Rightarrow> nat \<Rightarrow> 'a list option" where
  "arr_mat_mat_sum lhs rhs dst n_x n_y =
     for_upto (n_x * n_y) (\<lambda>i res.
       do { a \<leftarrow> arr_get lhs (int i); b \<leftarrow> arr_get rhs (int i); arr_set res (int i) (a + b) }) dst"

definition arr_mat_transpose :: "'a list \<Rightarrow> 'a list \<Rightarrow> nat \<Rightarrow> nat \<Rightarrow> 'a list option" where
  "arr_mat_transpose mat dst n_x n_y =
     for_upto n_x (\<lambda>i. for_upto n_y (\<lambda>j res.
       do { a \<leftarrow> arr_get mat (int (n_y * i + j)); arr_set res (int (n_x * j + i)) a })) dst"

text \<open>The rows are taken to be as long as the matrices are high.\<close>

definition arr_mat_copy ::
    "'a list \<Rightarrow> 'a list \<Rightarrow> nat \<Rightarrow> nat \<Rightarrow> nat \<Rightarrow> nat \<Rightarrow> nat \<Rightarrow> nat \<Rightarrow> 'a list option" where
  "arr_mat_copy mat dst matx maty resx resy p_i p_j =
     for_upto matx (\<lambda>i. for_upto maty (\<lambda>j res.
       do { a \<leftarrow> arr_get mat (int (matx * i + j)); arr_set res (int (resx * (i + p_i) + j + p_j)) a })) dst"

definition arr_mat_set_diag :: "'a libm \<Rightarrow> 'a list \<Rightarrow> 'a \<Rightarrow> nat \<Rightarrow> nat \<Rightarrow> 'a list option" where
  "arr_mat_set_diag m dst val n_x n_y =
     for_upto n_x (\<lambda>i. for_upto n_y (\<lambda>j res.
       arr_set res (int (i * n_y + j)) (if i = j then val else lit m 0))) dst"

section \<open>Matrices of fixed size\<close>

definition mat_vec_mult :: "'a::{plus, times} libm \<Rightarrow> 'a matrix3 \<Rightarrow> 'a vector3 \<Rightarrow> 'a vector3 \<Rightarrow> 'a vector3 option" where
  "mat_vec_mult m mat vec dst = do { r \<leftarrow> arr_mat_vec_mult m (m_arr mat) (v_arr vec) (v_arr dst) 3 3; arr_v r }"

text \<open>A matrix of four rows is the list of its sixteen elements.\<close>

definition mat_quat_mult :: "'a::{plus, times} libm \<Rightarrow> 'a list \<Rightarrow> 'a quaternion \<Rightarrow> 'a quaternion \<Rightarrow> 'a quaternion option" where
  "mat_quat_mult m mat vec dst = do { r \<leftarrow> arr_mat_vec_mult m mat (q_arr vec) (q_arr dst) 4 4; arr_q r }"

definition mat_mat_mult :: "'a::{plus, times} libm \<Rightarrow> 'a matrix3 \<Rightarrow> 'a matrix3 \<Rightarrow> 'a matrix3 \<Rightarrow> 'a matrix3 option" where
  "mat_mat_mult m lhs rhs dst = do { r \<leftarrow> arr_mat_mat_mult m (m_arr lhs) (m_arr rhs) (m_arr dst) 3 3 3; arr_m r }"

definition mat_mat_sum :: "'a::plus matrix3 \<Rightarrow> 'a matrix3 \<Rightarrow> 'a matrix3 \<Rightarrow> 'a matrix3 option" where
  "mat_mat_sum lhs rhs dst = do { r \<leftarrow> arr_mat_mat_sum (m_arr lhs) (m_arr rhs) (m_arr dst) 3 3; arr_m r }"

definition mat_set_diag :: "'a libm \<Rightarrow> 'a \<Rightarrow> 'a \<Rightarrow> 'a \<Rightarrow> 'a matrix3" where
  "mat_set_diag m a b c =
     \<lparr>m00 = a, m01 = lit m 0, m02 = lit m 0, m10 = lit m 0, m11 = b, m12 = lit m 0, m20 = lit m 0, m21 = lit m 0, m22 = c\<rparr>"

definition mat_set_diag4x :: "'a libm \<Rightarrow> 'a \<Rightarrow> 'a \<Rightarrow> 'a \<Rightarrow> 'a \<Rightarrow> 'a list" where
  "mat_set_diag4x m a b c d =
     [a, lit m 0, lit m 0, lit m 0,
      lit m 0, b, lit m 0, lit m 0,
      lit m 0, lit m 0, c, lit m 0,
      lit m 0, lit m 0, lit m 0, d]"

definition mat_cons_mult :: "'a::times \<Rightarrow> 'a matrix3 \<Rightarrow> 'a matrix3" where
  "mat_cons_mult a m =
     \<lparr>m00 = m00 m * a, m01 = m01 m * a, m02 = m02 m * a, m10 = m10 m * a, m11 = m11 m * a, m12 = m12 m * a,
      m20 = m20 m * a, m21 = m21 m * a, m22 = m22 m * a\<rparr>"

definition mat_transpose :: "'a matrix3 \<Rightarrow> 'a matrix3 \<Rightarrow> 'a matrix3 option" where
  "mat_transpose mat dst = do { r \<leftarrow> arr_mat_transpose (m_arr mat) (m_arr dst) 3 3; arr_m r }"

text \<open>\<^verbatim>\<open>mat_skew\<close> does not write the diagonal.\<close>

definition mat_skew :: "'a::times libm \<Rightarrow> 'a vector3 \<Rightarrow> 'a matrix3 \<Rightarrow> 'a matrix3" where
  "mat_skew m vec dst =
     dst\<lparr>m10 := v2 vec, m20 := lit m (- 1) * v1 vec, m01 := lit m (- 1) * v2 vec, m02 := v1 vec,
         m21 := v0 vec, m12 := lit m (- 1) * v0 vec\<rparr>"

definition mat_inverse :: "'a::{plus, minus, times, inverse, ord} libm \<Rightarrow> 'a matrix3 \<Rightarrow> 'a matrix3 option" where
  "mat_inverse m mat =
     (let a = m00 mat; b = m01 mat; c = m02 mat;
          d = m10 mat; e = m11 mat; f = m12 mat;
          g = m20 mat; h = m21 mat; i = m22 mat;
          A = e * i - f * h;
          B = lit m (- 1) * (d * i - f * g);
          C = d * h - e * g;
          D = lit m (- 1) * (b * i - c * h);
          E = a * i - c * g;
          F = lit m (- 1) * (a * h - b * g);
          G = b * f - c * e;
          H = lit m (- 1) * (a * f - c * d);
          I = a * e - b * d;
          detmat = a * A + b * B + c * C
      in if ffabs m detmat \<ge> lit m (1 / 10 ^ 25) then
           Some \<lparr>m00 = A / detmat, m01 = D / detmat, m02 = G / detmat,
                 m10 = B / detmat, m11 = E / detmat, m12 = H / detmat,
                 m20 = C / detmat, m21 = F / detmat, m22 = I / detmat\<rparr>
         else None)"

section \<open>The error-state Kalman filter\<close>

definition eskf_integrate ::
    "'a::{plus, minus, uminus, times, inverse} libm \<Rightarrow> 'a quaternion \<Rightarrow> 'a vector3 \<Rightarrow> 'a \<Rightarrow> 'a quaternion" where
  "eskf_integrate m q omega dt =
     (let omega_dt = vec_cons_mult dt omega; q_omega_dt = vec_to_quat m omega_dt in quat_mult q q_omega_dt)"

abbreviation std_rw_w :: "'a libm \<Rightarrow> 'a" where "std_rw_w m \<equiv> lit m (1 / 1000)"
abbreviation std_rn_w :: "'a libm \<Rightarrow> 'a" where "std_rn_w m \<equiv> lit m (1 / 1000)"
abbreviation std_rn_mag :: "'a libm \<Rightarrow> 'a" where "std_rn_mag m \<equiv> lit m (1 / 1000)"

abbreviation junk_arr :: "(nat \<Rightarrow> 'a) \<Rightarrow> nat \<Rightarrow> 'a list" where
  "junk_arr junk n \<equiv> map junk [0..<n]"

definition junk_m :: "(nat \<Rightarrow> 'a) \<Rightarrow> 'a matrix3" where
  "junk_m junk =
     \<lparr>m00 = junk 0, m01 = junk 1, m02 = junk 2, m10 = junk 3, m11 = junk 4, m12 = junk 5,
      m20 = junk 6, m21 = junk 7, m22 = junk 8\<rparr>"

text \<open>The matrix \<open>F\<close> of the prediction, in four blocks.\<close>

definition eskf_F ::
    "'a::{plus, minus, times, inverse} libm \<Rightarrow> (nat \<Rightarrow> 'a) \<Rightarrow> 'a vector3 \<Rightarrow> 'a \<Rightarrow> 'a list option" where
  "eskf_F m junk omega dt =
     do { let omega_dt = vec_cons_mult dt omega;
          let dq_omegadt = vec_to_quat m omega_dt;
          let rwb = quat_to_dcm m dq_omegadt;
          temp \<leftarrow> mat_transpose rwb (junk_m junk);
          F1 \<leftarrow> arr_mat_copy (m_arr temp) (junk_arr junk 36) 3 3 6 6 0 0;
          let diag_val = lit m (- 1) * dt;
          F2 \<leftarrow> arr_mat_copy (m_arr (mat_set_diag m diag_val diag_val diag_val)) F1 3 3 6 6 0 3;
          F3 \<leftarrow> arr_mat_copy (m_arr (mat_set_diag m (lit m 0) (lit m 0) (lit m 0))) F2 3 3 6 6 3 0;
          arr_mat_copy (m_arr (mat_set_diag m (lit m 1) (lit m 1) (lit m 1))) F3 3 3 6 6 3 3 }"

definition eskf_Q :: "'a::times libm \<Rightarrow> 'a \<Rightarrow> 'a list \<Rightarrow> 'a list option" where
  "eskf_Q m dt Q =
     for_upto 2 (\<lambda>i. for_upto 2 (\<lambda>j Q.
       if i = 0 \<and> j = 0 then
         (let val = fpow m (std_rn_w m) (lit m 2) * fpow m dt (lit m 2)
          in arr_mat_copy (m_arr (mat_set_diag m val val val)) Q 3 3 6 6 0 0)
       else if i = 1 \<and> j = 1 then
         (let val = fpow m (std_rw_w m) (lit m 2) * dt
          in arr_mat_copy (m_arr (mat_set_diag m val val val)) Q 3 3 6 6 3 3)
       else arr_mat_copy (m_arr (mat_set_diag m (lit m 0) (lit m 0) (lit m 0))) Q 3 3 6 6 (i * 3) (j * 3))) Q"

text \<open>The new covariance \<open>P\<close> and noise \<open>Q\<close>.\<close>

definition eskf_compute_error ::
    "'a::{plus, minus, times, inverse} libm \<Rightarrow> (nat \<Rightarrow> 'a) \<Rightarrow> 'a vector3 \<Rightarrow> 'a \<Rightarrow> 'a list \<Rightarrow> 'a list \<Rightarrow>
      ('a list \<times> 'a list) option" where
  "eskf_compute_error m junk omega dt P Q =
     do { F \<leftarrow> eskf_F m junk omega dt;
          Q1 \<leftarrow> eskf_Q m dt Q;
          Ft \<leftarrow> arr_mat_transpose F (junk_arr junk 36) 6 6;
          FP \<leftarrow> arr_mat_mat_mult m F P (junk_arr junk 36) 6 6 6;
          FPFt \<leftarrow> arr_mat_mat_mult m FP Ft (junk_arr junk 36) 6 6 6;
          P1 \<leftarrow> arr_mat_mat_sum FPFt Q1 P 6 6;
          Some (P1, Q1) }"

text \<open>The Jacobian \<open>H\<close> of the magnetometer, three rows of six.\<close>

definition eskf_H ::
    "'a::{plus, minus, times} libm \<Rightarrow> (nat \<Rightarrow> 'a) \<Rightarrow> 'a vector3 \<Rightarrow> 'a list option" where
  "eskf_H m junk mag_b =
     do { let temp = mat_skew m mag_b (junk_m junk);
          H1 \<leftarrow> arr_mat_copy (m_arr temp) (junk_arr junk 18) 3 3 3 6 0 0;
          arr_mat_copy (m_arr (mat_set_diag m (lit m 0) (lit m 0) (lit m 0))) H1 3 3 3 6 0 3 }"

text \<open>The update: the new \<open>R\<close>, quaternion and bias. The covariance \<open>P1\<close> is computed, but \<open>P\<close> keeps its value.\<close>

definition eskf_update_mag ::
    "'a::{plus, minus, uminus, times, inverse, ord} libm \<Rightarrow> (nat \<Rightarrow> 'a) \<Rightarrow> 'a vector3 \<Rightarrow> 'a vector3 \<Rightarrow> 'a list \<Rightarrow>
      'a quaternion \<Rightarrow> 'a vector3 \<Rightarrow> ('a matrix3 \<times> 'a quaternion \<times> 'a vector3) option" where
  "eskf_update_mag m junk mag_sensor mag_i P q wb =
     do { let mag_n = snd (vec_normalize m mag_i mag_i);
          let rwb = quat_to_dcm m q;
          mag_b \<leftarrow> mat_vec_mult m rwb mag_n \<lparr>v0 = junk 0, v1 = junk 1, v2 = junk 2\<rparr>;
          H \<leftarrow> eskf_H m junk mag_b;
          Ht \<leftarrow> arr_mat_transpose H (junk_arr junk 18) 3 6;
          PHt \<leftarrow> arr_mat_mat_mult m P Ht (junk_arr junk 18) 6 6 3;
          s1 \<leftarrow> arr_mat_mat_mult m H PHt (m_arr (junk_m junk)) 3 6 3;
          S1 \<leftarrow> arr_m s1;
          let rval = fpow m (std_rn_mag m) (lit m 2);
          let R = mat_set_diag m rval rval rval;
          S \<leftarrow> mat_mat_sum S1 R (junk_m junk);
          SI \<leftarrow> mat_inverse m S;
          K \<leftarrow> arr_mat_mat_mult m PHt (m_arr SI) (junk_arr junk 18) 6 3 3;
          let nmag_b = vec_cons_mult (lit m (- 1)) mag_b;
          let y = vec_sum mag_sensor nmag_b;
          dx \<leftarrow> arr_mat_mat_mult m K (v_arr y) (junk_arr junk 6) 6 3 1;
          I6 \<leftarrow> arr_mat_set_diag m (junk_arr junk 36) (lit m 1) 6 6;
          KH \<leftarrow> arr_mat_mat_mult m K H (junk_arr junk 36) 6 3 6;
          nKH \<leftarrow> arr_mat_cons_mult (lit m (- 1)) KH KH 6 6;
          IKH \<leftarrow> arr_mat_mat_sum I6 nKH (junk_arr junk 36) 6 6;
          P1 \<leftarrow> arr_mat_mat_mult m IKH P (junk_arr junk 36) 6 6 6;
          dtheta \<leftarrow> arr_v (take 3 dx);
          dwb \<leftarrow> arr_v (drop 3 dx);
          let dq = vec_to_quat m dtheta;
          Some (R, quat_mult q dq, vec_sum wb dwb) }"

section \<open>Quaternions from matrices\<close>

definition abs_double :: "'a libm \<Rightarrow> 'a \<Rightarrow> 'a" where
  "abs_double m x = fsqrt m (fpow m x (lit m 2))"

text \<open>The loop that looks for the component of the largest size.\<close>

fun max_loop :: "'a::ord libm \<Rightarrow> 'a list \<Rightarrow> nat \<Rightarrow> 'a \<Rightarrow> nat \<Rightarrow> nat" where
  "max_loop m [] i maxval maxidx = maxidx"
| "max_loop m (x # xs) i maxval maxidx =
     (if abs_double m x > maxval then max_loop m xs (Suc i) (abs_double m x) i else max_loop m xs (Suc i) maxval maxidx)"

definition quat_from_dcm :: "'a::{plus, minus, times, inverse, ord} libm \<Rightarrow> 'a matrix3 \<Rightarrow> 'a quaternion" where
  "quat_from_dcm m d =
     (let a = fsqrt m (lit m 1 + m00 d - m11 d - m22 d) / lit m 2;
          b = fsqrt m (lit m 1 - m00 d + m11 d - m22 d) / lit m 2;
          c = fsqrt m (lit m 1 - m00 d - m11 d + m22 d) / lit m 2;
          e = fsqrt m (lit m 1 + m00 d + m11 d + m22 d) / lit m 2;
          maxidx = max_loop m [a, b, c, e] 0 (lit m 0) 0
      in if maxidx = 0 then
           \<lparr>q0 = a, q1 = (m01 d + m10 d) / (lit m 4 * a), q2 = (m02 d + m20 d) / (lit m 4 * a), q3 = (m12 d - m21 d) / (lit m 4 * a)\<rparr>
         else if maxidx = 1 then
           \<lparr>q0 = (m01 d + m10 d) / (lit m 4 * b), q1 = b, q2 = (m21 d + m12 d) / (lit m 4 * b), q3 = (m20 d - m02 d) / (lit m 4 * b)\<rparr>
         else if maxidx = 2 then
           \<lparr>q0 = (m20 d + m02 d) / (lit m 4 * c), q1 = (m21 d + m12 d) / (lit m 4 * c), q2 = c, q3 = (m01 d - m10 d) / (lit m 4 * c)\<rparr>
         else
           \<lparr>q0 = (m12 d - m21 d) / (lit m 4 * e), q1 = (m20 d - m02 d) / (lit m 4 * e), q2 = (m01 d - m10 d) / (lit m 4 * e), q3 = e\<rparr>)"

end
