(* ===== verification/Math_Laws.thy ===== *)
theory Math_Laws
  imports Math_Utils
begin

text \<open>
  What the matrix loops of math_utils.c store, cell by cell, for any arithmetic; and, where doubles are exact real numbers, that they
  compute products, sums and transposed matrices.
\<close>

section \<open>Loops over the cells of an array\<close>

lemma cell_bound: "i < n \<Longrightarrow> j < k \<Longrightarrow> i * k + j < n * (k :: nat)"
proof -
  assume "i < n" "j < k"
  then have "i * k + j < Suc i * k" by simp
  also have "\<dots> \<le> n * k" using \<open>i < n\<close> by (intro mult_le_mono1) simp
  finally show ?thesis .
qed

lemma cell_inj: "j < k \<Longrightarrow> j' < k \<Longrightarrow> i * k + j = i' * k + j' \<longleftrightarrow> i = i' \<and> j = (j' :: nat)"
proof -
  assume j: "j < k" "j' < k"
  have "(i * k + j) div k = i" "(i' * k + j') div k = i'" "(i * k + j) mod k = j" "(i' * k + j') mod k = j'" using j by simp_all
  then show ?thesis by metis
qed

lemma for_upto_fill:
  assumes "\<And>i res. i < n \<Longrightarrow> length res = L \<Longrightarrow> f i res = Some (res[idx i := g i])"
    and "inj_on idx {..<n}" "\<And>i. i < n \<Longrightarrow> idx i < L" "length dst = L"
  shows "\<exists>res. for_upto n f dst = Some res \<and> length res = L \<and> (\<forall>i < n. res ! idx i = g i) \<and>
     (\<forall>p. (\<forall>i < n. idx i \<noteq> p) \<longrightarrow> res ! p = dst ! p)"
  using assms
proof (induction n)
  case (Suc n)
  have "inj_on idx {..<n}" using Suc.prems(2) by (rule inj_on_subset) auto
  from Suc.IH [OF _ this] Suc.prems obtain res where
      res: "for_upto n f dst = Some res" "length res = L" "\<forall>i < n. res ! idx i = g i"
        "\<forall>p. (\<forall>i < n. idx i \<noteq> p) \<longrightarrow> res ! p = dst ! p" by auto
  have ne: "idx i \<noteq> idx n" if "i < n" for i
    using Suc.prems(2) that by (auto simp: inj_on_def)
  have "res[idx n := g n] ! idx i = g i" if "i < Suc n" for i
    using that ne [of i] res(2,3) Suc.prems(3) [of n] by (cases "i = n") simp_all
  moreover have "res[idx n := g n] ! p = dst ! p" if "\<forall>i < Suc n. idx i \<noteq> p" for p
    using that res(4) by simp
  ultimately show ?case
    using res(1,2) Suc.prems(1) [of n res] by simp
qed simp

lemma nested_fill:
  assumes body: "\<And>i j res. i < n \<Longrightarrow> j < k \<Longrightarrow> length res = L \<Longrightarrow> f i j res = Some (res[idx i j := g i j])"
    and inj: "\<And>i j i' j'. i < n \<Longrightarrow> j < k \<Longrightarrow> i' < n \<Longrightarrow> j' < k \<Longrightarrow> idx i j = idx i' j' \<Longrightarrow> i = i' \<and> j = j'"
    and bound: "\<And>i j. i < n \<Longrightarrow> j < k \<Longrightarrow> idx i j < L" and len: "length dst = L"
  shows "\<exists>res. for_upto n (\<lambda>i. for_upto k (f i)) dst = Some res \<and> length res = L \<and>
     (\<forall>i < n. \<forall>j < k. res ! idx i j = g i j) \<and> (\<forall>p. (\<forall>i < n. \<forall>j < k. idx i j \<noteq> p) \<longrightarrow> res ! p = dst ! p)"
  using body inj bound
proof (induction n)
  case (Suc n)
  have "\<exists>res. for_upto n (\<lambda>i. for_upto k (f i)) dst = Some res \<and> length res = L \<and>
     (\<forall>i < n. \<forall>j < k. res ! idx i j = g i j) \<and> (\<forall>p. (\<forall>i < n. \<forall>j < k. idx i j \<noteq> p) \<longrightarrow> res ! p = dst ! p)"
    by (rule Suc.IH, rule Suc.prems(1), simp_all add: Suc.prems(3), rule Suc.prems(2)) simp_all
  then obtain res where
      res: "for_upto n (\<lambda>i. for_upto k (f i)) dst = Some res" "length res = L" "\<forall>i < n. \<forall>j < k. res ! idx i j = g i j"
        "\<forall>p. (\<forall>i < n. \<forall>j < k. idx i j \<noteq> p) \<longrightarrow> res ! p = dst ! p" by blast
  have "\<exists>res'. for_upto k (f n) res = Some res' \<and> length res' = L \<and> (\<forall>j < k. res' ! idx n j = g n j) \<and>
     (\<forall>p. (\<forall>j < k. idx n j \<noteq> p) \<longrightarrow> res' ! p = res ! p)"
  proof (rule for_upto_fill)
    show "inj_on (idx n) {..<k}" using Suc.prems(2) [of n _ n] by (auto simp: inj_on_def)
  qed (simp_all add: Suc.prems(1,3) res(2))
  then obtain res' where
      res': "for_upto k (f n) res = Some res'" "length res' = L" "\<forall>j < k. res' ! idx n j = g n j"
        "\<forall>p. (\<forall>j < k. idx n j \<noteq> p) \<longrightarrow> res' ! p = res ! p" by blast
  have "res' ! idx i j = g i j" if "i < Suc n" "j < k" for i j
  proof (cases "i = n")
    case False
    then have "\<forall>j' < k. idx n j' \<noteq> idx i j" using Suc.prems(2) that by (metis lessI)
    then show ?thesis using res'(4) res(3) that False by (simp add: less_Suc_eq)
  qed (use res'(3) that in auto)
  moreover have "res' ! p = dst ! p" if "\<forall>i < Suc n. \<forall>j < k. idx i j \<noteq> p" for p
    using that res'(4) res(4) by (simp add: less_Suc_eq)
  ultimately show ?case using res(1) res'(1,2) by auto
qed (use len in auto)

section \<open>Products\<close>

text \<open>The sum of products in the order of the loop.\<close>

fun dot :: "(nat \<Rightarrow> 'a::{plus, times}) \<Rightarrow> (nat \<Rightarrow> 'a) \<Rightarrow> 'a \<Rightarrow> nat \<Rightarrow> 'a" where
  "dot l r x 0 = x"
| "dot l r x (Suc n) = dot l r x n + l n * r n"

lemma dot_sum: "dot l r 0 n = (\<Sum>j<n. l j * r j :: real)"
  by (induction n) simp_all

lemma accumulate:
  assumes "\<And>j. j < n \<Longrightarrow> il j < length lhs" "\<And>j. j < n \<Longrightarrow> ir j < length rhs" "p < length res"
  shows "for_upto n (\<lambda>j res. do { a \<leftarrow> arr_get lhs (int (il j)); b \<leftarrow> arr_get rhs (int (ir j));
       r \<leftarrow> arr_get res (int p); arr_set res (int p) (r + a * b) }) (res[p := x]) =
     Some (res[p := dot (\<lambda>j. lhs ! il j) (\<lambda>j. rhs ! ir j) x n])"
  using assms by (induction n) simp_all

lemma mat_mult_cells:
  assumes "length lhs = n_x * n_y" "length rhs = n_y * n_z" "length dst = n_x * n_z"
  shows "\<exists>res. arr_mat_mat_mult m lhs rhs dst n_x n_y n_z = Some res \<and> length res = n_x * n_z \<and>
     (\<forall>i < n_x. \<forall>k < n_z. res ! (i * n_z + k) = dot (\<lambda>j. lhs ! (i * n_y + j)) (\<lambda>j. rhs ! (j * n_z + k)) (lit m 0) n_y)"
proof -
  have body: "do { res1 \<leftarrow> arr_set res (int (i * n_z + k)) (lit m 0);
            for_upto n_y (\<lambda>j res.
              do { a \<leftarrow> arr_get lhs (int (i * n_y + j));
                   b \<leftarrow> arr_get rhs (int (j * n_z + k));
                   r \<leftarrow> arr_get res (int (i * n_z + k));
                   arr_set res (int (i * n_z + k)) (r + a * b) }) res1 } =
      Some (res[i * n_z + k := dot (\<lambda>j. lhs ! (i * n_y + j)) (\<lambda>j. rhs ! (j * n_z + k)) (lit m 0) n_y])"
    if "i < n_x" "k < n_z" "length res = n_x * n_z" for i k res
  proof -
    have p: "i * n_z + k < length res" using cell_bound [OF that(1,2)] that(3) by simp
    then have s: "arr_set res (int (i * n_z + k)) (lit m 0) = Some (res[i * n_z + k := lit m 0])" by (rule arr_set_ok)
    show ?thesis unfolding s bind.bind_lunit
      by (rule accumulate) (use that assms p in \<open>simp_all add: cell_bound\<close>)
  qed
  have "\<exists>res. arr_mat_mat_mult m lhs rhs dst n_x n_y n_z = Some res \<and> length res = n_x * n_z \<and>
     (\<forall>i < n_x. \<forall>k < n_z. res ! (i * n_z + k) = dot (\<lambda>j. lhs ! (i * n_y + j)) (\<lambda>j. rhs ! (j * n_z + k)) (lit m 0) n_y) \<and>
     (\<forall>p. (\<forall>i < n_x. \<forall>k < n_z. i * n_z + k \<noteq> p) \<longrightarrow> res ! p = dst ! p)"
    unfolding arr_mat_mat_mult_def
    by (rule nested_fill, rule body) (use assms in \<open>simp_all add: cell_bound cell_inj\<close>)
  then show ?thesis by blast
qed

lemma mat_transpose_cells:
  assumes "length mat = n_x * n_y" "length dst = n_x * n_y"
  shows "\<exists>res. arr_mat_transpose mat dst n_x n_y = Some res \<and> length res = n_x * n_y \<and>
     (\<forall>i < n_x. \<forall>j < n_y. res ! (j * n_x + i) = mat ! (i * n_y + j))"
proof -
  have "\<exists>res. arr_mat_transpose mat dst n_x n_y = Some res \<and> length res = n_x * n_y \<and>
     (\<forall>i < n_x. \<forall>j < n_y. res ! (n_x * j + i) = mat ! (n_y * i + j)) \<and>
     (\<forall>p. (\<forall>i < n_x. \<forall>j < n_y. n_x * j + i \<noteq> p) \<longrightarrow> res ! p = dst ! p)"
    unfolding arr_mat_transpose_def
  proof (rule nested_fill)
    fix i j assume ij: "i < n_x" "j < n_y"
    show "n_x * j + i < n_x * n_y" using cell_bound [OF ij(2,1)] by (simp add: mult.commute)
    fix res :: "'a list" assume res: "length res = n_x * n_y"
    have "n_y * i + j < length mat" using cell_bound [OF ij] assms(1) by (simp add: mult.commute)
    moreover have "n_x * j + i < length res" using cell_bound [OF ij(2,1)] res by (simp add: mult.commute)
    ultimately show "arr_get mat (int (n_y * i + j)) \<bind> arr_set res (int (n_x * j + i)) = Some (res[n_x * j + i := mat ! (n_y * i + j)])"
      by (simp only: arr_get_ok arr_set_ok bind.bind_lunit)
  next
    fix i j i' j' assume "i < n_x" "j < n_y" "i' < n_x" "j' < n_y" "n_x * j + i = n_x * j' + i'"
    then show "i = i' \<and> j = j'" using cell_inj [of i n_x i' j j'] by (simp add: mult.commute)
  qed (rule assms(2))
  then show ?thesis by (auto simp: mult.commute)
qed

lemma mat_sum_cells:
  assumes "length lhs = n_x * n_y" "length rhs = n_x * n_y" "length dst = n_x * n_y"
  shows "\<exists>res. arr_mat_mat_sum lhs rhs dst n_x n_y = Some res \<and> length res = n_x * n_y \<and>
     (\<forall>p < n_x * n_y. res ! p = lhs ! p + rhs ! p)"
proof -
  have "\<exists>res. arr_mat_mat_sum lhs rhs dst n_x n_y = Some res \<and> length res = n_x * n_y \<and>
     (\<forall>p < n_x * n_y. res ! p = lhs ! p + rhs ! p) \<and> (\<forall>p. (\<forall>i < n_x * n_y. i \<noteq> p) \<longrightarrow> res ! p = dst ! p)"
    unfolding arr_mat_mat_sum_def by (rule for_upto_fill) (use assms in simp_all)
  then show ?thesis by blast
qed

text \<open>A block of \<open>n\<close> rows and columns copied into a square matrix of size \<open>k\<close>.\<close>

lemma mat_copy_cells:
  assumes "length mat = n * n" "length dst = k * k" "p_i + n \<le> k" "p_j + n \<le> k"
  shows "\<exists>res. arr_mat_copy mat dst n n k k p_i p_j = Some res \<and> length res = k * k \<and>
     (\<forall>i < k. \<forall>j < k. res ! (i * k + j) =
        (if p_i \<le> i \<and> i < p_i + n \<and> p_j \<le> j \<and> j < p_j + n then mat ! ((i - p_i) * n + (j - p_j)) else dst ! (i * k + j)))"
proof -
  have b: "k * (i + p_i) + j + p_j < k * k" if "i < n" "j < n" for i j
    using cell_bound [of "i + p_i" k "j + p_j" k] that assms(3,4) by (simp add: mult.commute)
  have "\<exists>res. arr_mat_copy mat dst n n k k p_i p_j = Some res \<and> length res = k * k \<and>
     (\<forall>i < n. \<forall>j < n. res ! (k * (i + p_i) + j + p_j) = mat ! (n * i + j)) \<and>
     (\<forall>p. (\<forall>i < n. \<forall>j < n. k * (i + p_i) + j + p_j \<noteq> p) \<longrightarrow> res ! p = dst ! p)"
    unfolding arr_mat_copy_def
  proof (rule nested_fill)
    fix i j assume ij: "i < n" "j < n"
    show "k * (i + p_i) + j + p_j < k * k" by (rule b [OF ij])
    fix res :: "'a list" assume res: "length res = k * k"
    have "n * i + j < length mat" using cell_bound [OF ij] assms(1) by (simp add: mult.commute)
    moreover have "k * (i + p_i) + j + p_j < length res" using b [OF ij] res by simp
    ultimately show "arr_get mat (int (n * i + j)) \<bind> arr_set res (int (k * (i + p_i) + j + p_j)) =
        Some (res[k * (i + p_i) + j + p_j := mat ! (n * i + j)])"
      by (simp only: arr_get_ok arr_set_ok bind.bind_lunit)
  next
    fix i j i' j' assume "i < n" "j < n" "i' < n" "j' < n" "k * (i + p_i) + j + p_j = k * (i' + p_i) + j' + p_j"
    then show "i = i' \<and> j = j'"
      using cell_inj [of "j + p_j" k "j' + p_j" "i + p_i" "i' + p_i"] assms(4) by (simp add: mult.commute)
  qed (rule assms(2))
  then obtain res where res: "arr_mat_copy mat dst n n k k p_i p_j = Some res" "length res = k * k"
      "\<forall>i < n. \<forall>j < n. res ! (k * (i + p_i) + j + p_j) = mat ! (n * i + j)"
      "\<forall>p. (\<forall>i < n. \<forall>j < n. k * (i + p_i) + j + p_j \<noteq> p) \<longrightarrow> res ! p = dst ! p" by blast
  have "res ! (i * k + j) =
      (if p_i \<le> i \<and> i < p_i + n \<and> p_j \<le> j \<and> j < p_j + n then mat ! ((i - p_i) * n + (j - p_j)) else dst ! (i * k + j))"
    if ij: "i < k" "j < k" for i j
  proof (cases "p_i \<le> i \<and> i < p_i + n \<and> p_j \<le> j \<and> j < p_j + n")
    case True
    then have lt: "i - p_i < n" "j - p_j < n" and "k * (i - p_i + p_i) + (j - p_j) + p_j = i * k + j" by auto
    with res(3) [rule_format, OF lt] True show ?thesis by (simp add: mult.commute)
  next
    case False
    have "k * (i' + p_i) + j' + p_j \<noteq> i * k + j" if "i' < n" "j' < n" for i' j'
    proof
      assume "k * (i' + p_i) + j' + p_j = i * k + j"
      then have "(i' + p_i) * k + (j' + p_j) = i * k + j" by (simp add: mult.commute)
      then have "i' + p_i = i" "j' + p_j = j"
        using cell_inj [of "j' + p_j" k j "i' + p_i" i] that(2) ij(2) assms(4) by simp_all
      with that False show False by auto
    qed
    with res(4) False show ?thesis by auto
  qed
  with res(1,2) show ?thesis by blast
qed

section \<open>Exact arithmetic\<close>

text \<open>What the C standard says of the operations, if no result is rounded.\<close>

locale exact_math =
  fixes m :: "real libm"
  assumes lit_exact: "lit m r = of_rat r"
    and feq_exact [simp]: "feq m x y \<longleftrightarrow> x = y"
    and pow_exact [simp]: "fpow m x 2 = x * x"
    and sqrt_exact: "0 \<le> x \<Longrightarrow> fsqrt m x = sqrt x"
    and fabs_exact [simp]: "ffabs m x = \<bar>x\<bar>"
    and sin_exact [simp]: "fsin m x = sin x"
    and cos_exact [simp]: "fcos m x = cos x"
begin

lemma lits [simp]: "lit m 0 = 0" "lit m 1 = 1" "lit m 2 = 2" "lit m 4 = 4" "lit m (- 1) = - 1" "lit m (1 / 2) = 1 / 2"
  by (simp_all add: lit_exact of_rat_divide of_rat_minus)

lemma lit_tiny: "lit m (1 / 10 ^ 25) = 1 / 10 ^ 25"
  by (simp add: lit_exact of_rat_divide)

lemma mat_mult_exact:
  assumes "length lhs = n_x * n_y" "length rhs = n_y * n_z" "length dst = n_x * n_z"
  shows "\<exists>res. arr_mat_mat_mult m lhs rhs dst n_x n_y n_z = Some res \<and> length res = n_x * n_z \<and>
     (\<forall>i < n_x. \<forall>k < n_z. res ! (i * n_z + k) = (\<Sum>j<n_y. lhs ! (i * n_y + j) * rhs ! (j * n_z + k)))"
  using mat_mult_cells [OF assms, of m] by (simp add: dot_sum)

lemma mat_vec_exact:
  "mat_vec_mult m M v dst =
     Some \<lparr>v0 = m00 M * v0 v + m01 M * v1 v + m02 M * v2 v, v1 = m10 M * v0 v + m11 M * v1 v + m12 M * v2 v,
           v2 = m20 M * v0 v + m21 M * v1 v + m22 M * v2 v\<rparr>"
  by (simp add: mat_vec_mult_def arr_mat_vec_mult_def m_arr_def v_arr_def arr_v_def eval_nat_numeral arr_get_def arr_set_def)

lemma mat_mat_exact:
  "mat_mat_mult m A B dst =
     Some \<lparr>m00 = m00 A * m00 B + m01 A * m10 B + m02 A * m20 B, m01 = m00 A * m01 B + m01 A * m11 B + m02 A * m21 B,
           m02 = m00 A * m02 B + m01 A * m12 B + m02 A * m22 B, m10 = m10 A * m00 B + m11 A * m10 B + m12 A * m20 B,
           m11 = m10 A * m01 B + m11 A * m11 B + m12 A * m21 B, m12 = m10 A * m02 B + m11 A * m12 B + m12 A * m22 B,
           m20 = m20 A * m00 B + m21 A * m10 B + m22 A * m20 B, m21 = m20 A * m01 B + m21 A * m11 B + m22 A * m21 B,
           m22 = m20 A * m02 B + m21 A * m12 B + m22 A * m22 B\<rparr>"
  by (simp add: mat_mat_mult_def arr_mat_mat_mult_def m_arr_def arr_m_def eval_nat_numeral arr_get_def arr_set_def)

lemma frame_conv_exact: "mat_vec_mult m (quat_to_dcm m q) v dst = Some (quat_frame_conv m q v)"
  unfolding mat_vec_exact
  by (simp add: quat_to_dcm_def quat_frame_conv_def quat_mult_def quat_conjugate_def Let_def) algebra

end

section \<open>Quaternions and inverses\<close>

definition det3 :: "real matrix3 \<Rightarrow> real" where
  "det3 M = m00 M * (m11 M * m22 M - m12 M * m21 M) - m01 M * (m10 M * m22 M - m12 M * m20 M) +
     m02 M * (m10 M * m21 M - m11 M * m20 M)"

definition id3 :: "real matrix3" where
  "id3 = \<lparr>m00 = 1, m01 = 0, m02 = 0, m10 = 0, m11 = 1, m12 = 0, m20 = 0, m21 = 0, m22 = 1\<rparr>"

definition quat_norm2 :: "real quaternion \<Rightarrow> real" where
  "quat_norm2 q = q0 q * q0 q + q1 q * q1 q + q2 q * q2 q + q3 q * q3 q"

definition quat_neg :: "real quaternion \<Rightarrow> real quaternion" where
  "quat_neg q = \<lparr>q0 = - q0 q, q1 = - q1 q, q2 = - q2 q, q3 = - q3 q\<rparr>"

lemma quat_mult_norm2: "quat_norm2 (quat_mult p q) = quat_norm2 p * quat_norm2 q"
  by (simp add: quat_norm2_def quat_mult_def) algebra

context exact_math
begin

lemma mat_inverse_exact:
  "mat_inverse m M =
     (if 1 / 10 ^ 25 \<le> \<bar>det3 M\<bar> then
        Some \<lparr>m00 = (m11 M * m22 M - m12 M * m21 M) / det3 M, m01 = (m02 M * m21 M - m01 M * m22 M) / det3 M,
              m02 = (m01 M * m12 M - m02 M * m11 M) / det3 M, m10 = (m12 M * m20 M - m10 M * m22 M) / det3 M,
              m11 = (m00 M * m22 M - m02 M * m20 M) / det3 M, m12 = (m02 M * m10 M - m00 M * m12 M) / det3 M,
              m20 = (m10 M * m21 M - m11 M * m20 M) / det3 M, m21 = (m01 M * m20 M - m00 M * m21 M) / det3 M,
              m22 = (m00 M * m11 M - m01 M * m10 M) / det3 M\<rparr>
      else None)"
proof -
  have d: "m00 M * (m11 M * m22 M - m12 M * m21 M) + m01 M * (- 1 * (m10 M * m22 M - m12 M * m20 M)) +
      m02 M * (m10 M * m21 M - m11 M * m20 M) = det3 M"
    by (simp add: det3_def algebra_simps)
  show ?thesis unfolding mat_inverse_def Let_def lits fabs_exact lit_tiny d by simp
qed

lemma mat_inverse_both_sides:
  assumes "mat_inverse m M = Some N"
  shows "mat_mat_mult m M N dst = Some id3 \<and> mat_mat_mult m N M dst = Some id3"
proof -
  have nz: "det3 M \<noteq> 0" using assms by (auto simp: mat_inverse_exact split: if_splits)
  have N: "N = \<lparr>m00 = (m11 M * m22 M - m12 M * m21 M) / det3 M, m01 = (m02 M * m21 M - m01 M * m22 M) / det3 M,
              m02 = (m01 M * m12 M - m02 M * m11 M) / det3 M, m10 = (m12 M * m20 M - m10 M * m22 M) / det3 M,
              m11 = (m00 M * m22 M - m02 M * m20 M) / det3 M, m12 = (m02 M * m10 M - m00 M * m12 M) / det3 M,
              m20 = (m10 M * m21 M - m11 M * m20 M) / det3 M, m21 = (m01 M * m20 M - m00 M * m21 M) / det3 M,
              m22 = (m00 M * m11 M - m01 M * m10 M) / det3 M\<rparr>"
    using assms by (simp add: mat_inverse_exact split: if_splits)
  show ?thesis
    unfolding mat_mat_exact N id3_def using nz
    by (simp add: add_divide_distrib [symmetric] eq_divide_eq divide_eq_eq) (simp add: det3_def algebra_simps)
qed

lemma vec_to_quat_unit:
  assumes "v \<noteq> \<lparr>v0 = 0, v1 = 0, v2 = 0\<rparr>"
  shows "quat_norm2 (vec_to_quat m v) = 1"
proof -
  let ?n2 = "v0 v * v0 v + v1 v * v1 v + v2 v * v2 v"
  have n0: "0 \<le> ?n2" by simp
  have "?n2 \<noteq> 0"
  proof
    assume "?n2 = 0"
    then have "v0 v = 0 \<and> v1 v = 0 \<and> v2 v = 0" by (smt (verit) mult_eq_0_iff zero_le_square)
    with assms show False by (simp add: vector3.equality)
  qed
  with n0 have pos: "0 < ?n2" by linarith
  have norm: "vec_norm m v = sqrt ?n2" using sqrt_exact [OF n0] by (simp add: vec_norm_def)
  let ?s = "sin (sqrt ?n2 / 2)" and ?c = "cos (sqrt ?n2 / 2)"
  have scaled: "quat_norm2 \<lparr>q0 = a * k * t, q1 = b * k * t, q2 = c * k * t, q3 = d\<rparr> =
      (a * a + b * b + c * c) * (k * k) * (t * t) + d * d" for a b c d k t :: real
    by (simp add: quat_norm2_def algebra_simps)
  have "vec_to_quat m v = \<lparr>q0 = v0 v * (1 / sqrt ?n2) * ?s, q1 = v1 v * (1 / sqrt ?n2) * ?s, q2 = v2 v * (1 / sqrt ?n2) * ?s, q3 = ?c\<rparr>"
    by (simp add: vec_to_quat_def axis_rotation_to_quat_def vec_cons_mult_def norm Let_def)
  then have "quat_norm2 (vec_to_quat m v) = ?n2 * (1 / sqrt ?n2 * (1 / sqrt ?n2)) * (?s * ?s) + ?c * ?c"
    by (simp only: scaled)
  also have "?n2 * (1 / sqrt ?n2 * (1 / sqrt ?n2)) = 1" using pos by simp
  also have "1 * (?s * ?s) + ?c * ?c = ?s * ?s + ?c * ?c" by simp
  also have "\<dots> = 1" using sin_cos_squared_add [of "sqrt ?n2 / 2"] by (simp add: power2_eq_square)
  finally show ?thesis .
qed

end

section \<open>Quaternions from matrices\<close>

context exact_math
begin

lemma abs_exact [simp]: "abs_double m x = \<bar>x\<bar>"
  using sqrt_exact [of "x * x"] by (simp add: abs_double_def)

lemma dcm_exact:
  "quat_to_dcm m q =
     \<lparr>m00 = q0 q * q0 q - q1 q * q1 q - q2 q * q2 q + q3 q * q3 q, m01 = 2 * (q0 q * q1 q + q2 q * q3 q),
      m02 = 2 * (q0 q * q2 q - q1 q * q3 q), m10 = 2 * (q0 q * q1 q - q2 q * q3 q),
      m11 = - (q0 q * q0 q) + q1 q * q1 q - q2 q * q2 q + q3 q * q3 q, m12 = 2 * (q1 q * q2 q + q0 q * q3 q),
      m20 = 2 * (q0 q * q2 q + q1 q * q3 q), m21 = 2 * (q1 q * q2 q - q0 q * q3 q),
      m22 = - (q0 q * q0 q) - q1 q * q1 q + q2 q * q2 q + q3 q * q3 q\<rparr>"
  by (simp add: quat_to_dcm_def Let_def)

lemma max_loop_cases:
  "(max_loop m xs i mv mi = mi \<and> (\<forall>x \<in> set xs. \<bar>x\<bar> \<le> mv)) \<or>
   (\<exists>k < length xs. max_loop m xs i mv mi = i + k \<and> mv < \<bar>xs ! k\<bar>)"
proof (induction xs arbitrary: i mv mi)
  case (Cons x xs)
  show ?case
  proof (cases "mv < \<bar>x\<bar>")
    case True
    with Cons.IH [of "Suc i" "\<bar>x\<bar>" i] show ?thesis
      by (auto intro: exI [of _ 0] exI [of _ "Suc k" for k])
  next
    case False
    with Cons.IH [of "Suc i" mv mi] show ?thesis by (auto intro: exI [of _ "Suc k" for k])
  qed
qed simp

lemma sqrt_square4: "y = 4 * (x * x) \<Longrightarrow> fsqrt m y / 2 = \<bar>x\<bar>"
proof -
  assume y: "y = 4 * (x * x)"
  have "y = (2 * x) * (2 * x)" using y by simp
  then have "fsqrt m y = \<bar>2 * x\<bar>" using sqrt_exact [of y] by (metis real_sqrt_abs2 zero_le_square)
  then show ?thesis by simp
qed

lemma quat_from_dcm_exact:
  assumes "quat_norm2 q = 1"
  shows "quat_from_dcm m (quat_to_dcm m q) = q \<or> quat_from_dcm m (quat_to_dcm m q) = quat_neg q"
proof -
  obtain a b c d where q: "q = \<lparr>q0 = a, q1 = b, q2 = c, q3 = d\<rparr>" by (cases q)
  have one: "a * a + b * b + c * c + d * d = 1" using assms by (simp add: quat_norm2_def q)
  let ?D = "quat_to_dcm m q"
  have roots: "fsqrt m (1 + m00 ?D - m11 ?D - m22 ?D) / 2 = \<bar>a\<bar>" "fsqrt m (1 - m00 ?D + m11 ?D - m22 ?D) / 2 = \<bar>b\<bar>"
      "fsqrt m (1 - m00 ?D - m11 ?D + m22 ?D) / 2 = \<bar>c\<bar>" "fsqrt m (1 + m00 ?D + m11 ?D + m22 ?D) / 2 = \<bar>d\<bar>"
    by (rule sqrt_square4, use one in \<open>simp add: dcm_exact q\<close>)+
  have nz: "\<not> (a = 0 \<and> b = 0 \<and> c = 0 \<and> d = 0)" using one by auto
  have off: "m01 ?D + m10 ?D = 4 * (a * b)" "m02 ?D + m20 ?D = 4 * (a * c)" "m12 ?D - m21 ?D = 4 * (a * d)"
      "m21 ?D + m12 ?D = 4 * (b * c)" "m20 ?D - m02 ?D = 4 * (b * d)" "m01 ?D - m10 ?D = 4 * (c * d)"
      "m20 ?D + m02 ?D = 4 * (a * c)"
    by (simp_all add: dcm_exact q)
  consider "max_loop m [\<bar>a\<bar>, \<bar>b\<bar>, \<bar>c\<bar>, \<bar>d\<bar>] 0 0 0 = 0" "a \<noteq> 0" | "max_loop m [\<bar>a\<bar>, \<bar>b\<bar>, \<bar>c\<bar>, \<bar>d\<bar>] 0 0 0 = 1" "b \<noteq> 0"
    | "max_loop m [\<bar>a\<bar>, \<bar>b\<bar>, \<bar>c\<bar>, \<bar>d\<bar>] 0 0 0 = 2" "c \<noteq> 0" | "max_loop m [\<bar>a\<bar>, \<bar>b\<bar>, \<bar>c\<bar>, \<bar>d\<bar>] 0 0 0 = 3" "d \<noteq> 0"
  proof -
    have "\<not> (\<forall>x \<in> set [\<bar>a\<bar>, \<bar>b\<bar>, \<bar>c\<bar>, \<bar>d\<bar>]. \<bar>x\<bar> \<le> 0)" using nz by auto
    with max_loop_cases [of "[\<bar>a\<bar>, \<bar>b\<bar>, \<bar>c\<bar>, \<bar>d\<bar>]" 0 0 0] obtain k where
        k: "k < length [\<bar>a\<bar>, \<bar>b\<bar>, \<bar>c\<bar>, \<bar>d\<bar>]" "max_loop m [\<bar>a\<bar>, \<bar>b\<bar>, \<bar>c\<bar>, \<bar>d\<bar>] 0 0 0 = 0 + k"
          "0 < \<bar>[\<bar>a\<bar>, \<bar>b\<bar>, \<bar>c\<bar>, \<bar>d\<bar>] ! k\<bar>" by blast
    have "k = 0 \<or> k = 1 \<or> k = 2 \<or> k = 3" using k(1) by auto
    then show thesis
    proof (elim disjE)
      assume "k = 0" then show thesis using k(2,3) by (intro that(1)) simp_all
    next
      assume "k = 1" then show thesis using k(2,3) by (intro that(2)) simp_all
    next
      assume "k = 2" then show thesis using k(2,3) by (intro that(3)) simp_all
    next
      assume "k = 3" then show thesis using k(2,3) by (intro that(4)) simp_all
    qed
  qed
  then show ?thesis
  proof cases
    case 1
    show ?thesis unfolding quat_from_dcm_def Let_def lits roots off 1(1)
      using 1(2) by (cases "0 < a") (simp_all add: q quat_neg_def)
  next
    case 2
    show ?thesis unfolding quat_from_dcm_def Let_def lits roots off 2(1)
      using 2(2) by (cases "0 < b") (simp_all add: q quat_neg_def)
  next
    case 3
    show ?thesis unfolding quat_from_dcm_def Let_def lits roots off 3(1)
      using 3(2) by (cases "0 < c") (simp_all add: q quat_neg_def)
  next
    case 4
    show ?thesis unfolding quat_from_dcm_def Let_def lits roots off 4(1)
      using 4(2) by (cases "0 < d") (simp_all add: q quat_neg_def)
  qed
qed

end

end
