(* ===== verification/Math_Filter.thy ===== *)
theory Math_Filter
  imports Math_Laws
begin

text \<open>
  Properties of math_utils.c: rotations, inverses and the prediction step of the error-state Kalman filter, in exact arithmetic;
  and what the update step does with its Jacobian, in any arithmetic.
\<close>

section \<open>Arrays as functions of their cells\<close>

lemma cells_eq:
  assumes "length xs = n * k" "\<And>i j. i < n \<Longrightarrow> j < k \<Longrightarrow> xs ! (i * k + j) = f i j"
  shows "xs = map (\<lambda>p. f (p div k) (p mod k)) [0..<n * k]"
proof (rule nth_equalityI)
  fix p assume "p < length xs"
  then have p: "p < n * k" using assms(1) by simp
  then have "0 < k" by (cases k) auto
  then have "p div k < n" "p mod k < k" using p by (simp_all add: less_mult_imp_div_less)
  from assms(2) [OF this] show "xs ! p = map (\<lambda>p. f (p div k) (p mod k)) [0..<n * k] ! p" using p by simp
qed (simp add: assms(1))

lemma mat_mult_eq:
  assumes "length lhs = n_x * n_y" "length rhs = n_y * n_z" "length dst = n_x * n_z"
  shows "arr_mat_mat_mult m lhs rhs dst n_x n_y n_z =
     Some (map (\<lambda>p. dot (\<lambda>j. lhs ! (p div n_z * n_y + j)) (\<lambda>j. rhs ! (j * n_z + p mod n_z)) (lit m 0) n_y) [0..<n_x * n_z])"
proof -
  obtain res where res: "arr_mat_mat_mult m lhs rhs dst n_x n_y n_z = Some res" "length res = n_x * n_z"
      "\<forall>i < n_x. \<forall>k < n_z. res ! (i * n_z + k) = dot (\<lambda>j. lhs ! (i * n_y + j)) (\<lambda>j. rhs ! (j * n_z + k)) (lit m 0) n_y"
    using mat_mult_cells [OF assms, of m] by blast
  show ?thesis unfolding res(1) by (rule arg_cong [of _ _ Some], rule cells_eq [OF res(2)]) (use res(3) in blast)
qed

lemma mat_transpose_eq:
  assumes "length mat = n_x * n_y" "length dst = n_x * n_y"
  shows "arr_mat_transpose mat dst n_x n_y = Some (map (\<lambda>p. mat ! (p mod n_x * n_y + p div n_x)) [0..<n_y * n_x])"
proof -
  obtain res where res: "arr_mat_transpose mat dst n_x n_y = Some res" "length res = n_x * n_y"
      "\<forall>i < n_x. \<forall>j < n_y. res ! (j * n_x + i) = mat ! (i * n_y + j)"
    using mat_transpose_cells [OF assms] by blast
  have "length res = n_y * n_x" using res(2) by (simp add: mult.commute)
  then show ?thesis unfolding res(1) by (intro arg_cong [of _ _ Some], rule cells_eq) (use res(3) in blast)
qed

lemma mat_sum_eq:
  assumes "length lhs = n_x * n_y" "length rhs = n_x * n_y" "length dst = n_x * n_y"
  shows "arr_mat_mat_sum lhs rhs dst n_x n_y = Some (map (\<lambda>p. lhs ! p + rhs ! p) [0..<n_x * n_y])"
proof -
  obtain res where res: "arr_mat_mat_sum lhs rhs dst n_x n_y = Some res" "length res = n_x * n_y"
      "\<forall>p < n_x * n_y. res ! p = lhs ! p + rhs ! p"
    using mat_sum_cells [OF assms] by blast
  show ?thesis unfolding res(1) by (rule arg_cong [of _ _ Some], rule nth_equalityI) (use res(2,3) in simp_all)
qed

section \<open>The prediction\<close>

abbreviation cell6 :: "'a list \<Rightarrow> nat \<Rightarrow> nat \<Rightarrow> 'a" where
  "cell6 xs i j \<equiv> xs ! (i * 6 + j)"

definition sym6 :: "'a list \<Rightarrow> bool" where
  "sym6 xs \<longleftrightarrow> length xs = 36 \<and> (\<forall>i < 6. \<forall>j < 6. cell6 xs i j = cell6 xs j i)"

lemma length_m_arr [simp]: "length (m_arr A) = 9"
  by (simp add: m_arr_def)

lemma eskf_F_value:
  "\<exists>F. length F = 36 \<and> (\<forall>junk. eskf_F m junk omega dt = Some F)"
proof -
  let ?D = "quat_to_dcm m (vec_to_quat m (vec_cons_mult dt omega))" and ?z = "lit m 0" and ?o = "lit m 1" and ?d = "lit m (- 1) * dt"
  let ?F = "[m00 ?D, m10 ?D, m20 ?D, ?d, ?z, ?z, m01 ?D, m11 ?D, m21 ?D, ?z, ?d, ?z, m02 ?D, m12 ?D, m22 ?D, ?z, ?z, ?d,
      ?z, ?z, ?z, ?o, ?z, ?z, ?z, ?z, ?z, ?z, ?o, ?z, ?z, ?z, ?z, ?z, ?z, ?o]"
  have "eskf_F m junk omega dt = Some ?F" for junk
    by (simp add: eskf_F_def Let_def mat_transpose_def arr_mat_transpose_def arr_mat_copy_def m_arr_def arr_m_def mat_set_diag_def
        junk_m_def eval_nat_numeral arr_get_def arr_set_def upt_rec)
  then show ?thesis by (intro exI [of _ ?F]) simp
qed

lemma eskf_Q_value:
  assumes "length Q = 36"
  shows "\<exists>Q1. eskf_Q m dt Q = Some Q1 \<and> sym6 Q1"
proof -
  let ?z = "lit m 0" and ?a = "fpow m (std_rn_w m) (lit m 2) * fpow m dt (lit m 2)" and ?b = "fpow m (std_rw_w m) (lit m 2) * dt"
  let ?Q = "[?a, ?z, ?z, ?z, ?z, ?z, ?z, ?a, ?z, ?z, ?z, ?z, ?z, ?z, ?a, ?z, ?z, ?z,
      ?z, ?z, ?z, ?b, ?z, ?z, ?z, ?z, ?z, ?z, ?b, ?z, ?z, ?z, ?z, ?z, ?z, ?b]"
  have "eskf_Q m dt (junk_arr junk 36) = Some ?Q" for junk
    by (simp add: eskf_Q_def Let_def arr_mat_copy_def m_arr_def mat_set_diag_def eval_nat_numeral arr_get_def arr_set_def upt_rec)
  from this [of "\<lambda>p. Q ! p"] have "eskf_Q m dt Q = Some ?Q" using assms map_nth [of Q] by simp
  moreover have "sym6 ?Q" by (simp add: sym6_def eval_nat_numeral All_less_Suc)
  ultimately show ?thesis by blast
qed

lemma length_prod6 [simp]: "length (map f [0..<6 * 6]) = 36"
  by simp

lemma cell6_map: "i < 6 \<Longrightarrow> j < 6 \<Longrightarrow> cell6 (map f [0..<6 * 6]) i j = f (i * 6 + j)"
  using cell_bound [of i 6 j 6] by simp

text \<open>Turning a product of three matrices around a symmetric one.\<close>

lemma congruence_symmetric:
  fixes P F :: "nat \<Rightarrow> nat \<Rightarrow> real"
  assumes "\<And>l k. l < n \<Longrightarrow> k < n \<Longrightarrow> P l k = P k l"
  shows "(\<Sum>k<n. (\<Sum>l<n. F i l * P l k) * F j k) = (\<Sum>k<n. (\<Sum>l<n. F j l * P l k) * F i k)"
proof -
  have "(\<Sum>k<n. (\<Sum>l<n. F i l * P l k) * F j k) = (\<Sum>k<n. \<Sum>l<n. F i l * P l k * F j k)"
    by (simp add: sum_distrib_right)
  also have "\<dots> = (\<Sum>l<n. \<Sum>k<n. F i l * P l k * F j k)" by (rule sum.swap)
  also have "\<dots> = (\<Sum>l<n. \<Sum>k<n. F j k * P k l * F i l)"
    by (intro sum.cong refl) (use assms in \<open>simp add: ac_simps\<close>)
  also have "\<dots> = (\<Sum>k<n. (\<Sum>l<n. F j l * P l k) * F i k)" by (simp add: sum_distrib_right)
  finally show ?thesis .
qed

context exact_math
begin

lemma eskf_predict:
  assumes "sym6 P" "length Q = 36"
  shows "\<exists>P1 Q1. (\<forall>junk. eskf_compute_error m junk omega dt P Q = Some (P1, Q1)) \<and> sym6 P1 \<and> sym6 Q1"
proof -
  obtain F where F: "length F = 36" "\<And>junk. eskf_F m junk omega dt = Some F" using eskf_F_value by blast
  obtain Q1 where Q1: "eskf_Q m dt Q = Some Q1" "sym6 Q1" using eskf_Q_value [OF assms(2)] by blast
  have len: "length P = 6 * 6" "length F = 6 * 6" "length Q1 = 6 * 6" "length (junk_arr junk 36) = 6 * 6" for junk :: "nat \<Rightarrow> real"
    using assms(1) F(1) Q1(2) by (simp_all add: sym6_def)
  define Ft where "Ft = map (\<lambda>p. F ! (p mod 6 * 6 + p div 6)) [0..<6 * 6]"
  define FP where "FP = map (\<lambda>p. dot (\<lambda>j. F ! (p div 6 * 6 + j)) (\<lambda>j. P ! (j * 6 + p mod 6)) (lit m 0) 6) [0..<6 * 6]"
  define G where "G = map (\<lambda>p. dot (\<lambda>j. FP ! (p div 6 * 6 + j)) (\<lambda>j. Ft ! (j * 6 + p mod 6)) (lit m 0) 6) [0..<6 * 6]"
  define P1 where "P1 = map (\<lambda>p. G ! p + Q1 ! p) [0..<6 * 6]"
  have l2: "length Ft = 6 * 6" "length FP = 6 * 6" "length G = 6 * 6" by (simp_all add: Ft_def FP_def G_def)
  have "eskf_compute_error m junk omega dt P Q = Some (P1, Q1)" for junk
    using F(2) Q1(1) mat_transpose_eq [OF len(2,4), folded Ft_def] mat_mult_eq [OF len(2,1,4), of m, folded FP_def]
      mat_mult_eq [OF l2(2,1) len(4), of m, folded G_def] mat_sum_eq [OF l2(3) len(3,1), folded P1_def]
    by (simp add: eskf_compute_error_def)
  moreover have "sym6 P1"
  proof -
    have fp: "cell6 FP i k = (\<Sum>l<6. cell6 F i l * cell6 P l k)" if "i < 6" "k < 6" for i k
      using that unfolding FP_def by (subst cell6_map) (simp_all add: dot_sum)
    have ft: "cell6 Ft k j = cell6 F j k" if "k < 6" "j < 6" for k j
      using that unfolding Ft_def by (subst cell6_map) simp_all
    have g: "cell6 G i j = (\<Sum>k<6. (\<Sum>l<6. cell6 F i l * cell6 P l k) * cell6 F j k)" if "i < 6" "j < 6" for i j
    proof -
      have "cell6 G i j = (\<Sum>k<6. cell6 FP i k * cell6 Ft k j)"
        using that unfolding G_def by (subst cell6_map) (simp_all add: dot_sum)
      also have "\<dots> = (\<Sum>k<6. (\<Sum>l<6. cell6 F i l * cell6 P l k) * cell6 F j k)"
        by (intro sum.cong refl) (use that in \<open>simp add: fp ft\<close>)
      finally show ?thesis .
    qed
    have "cell6 G i j = cell6 G j i" if "i < 6" "j < 6" for i j
      unfolding g [OF that] g [OF that(2,1)]
      by (rule congruence_symmetric) (use assms(1) in \<open>simp add: sym6_def\<close>)
    moreover have "cell6 P1 i j = cell6 G i j + cell6 Q1 i j" if "i < 6" "j < 6" for i j
      using that unfolding P1_def by (subst cell6_map) simp_all
    ultimately show ?thesis using Q1(2) by (simp add: sym6_def P1_def)
  qed
  ultimately show ?thesis using Q1(2) by blast
qed

end

context exact_math
begin

lemma quat_normalize_exact:
  assumes "quat_norm2 q \<noteq> 0"
  shows "quat_normalize m q dst = \<lparr>q0 = q0 q / sqrt (quat_norm2 q), q1 = q1 q / sqrt (quat_norm2 q),
     q2 = q2 q / sqrt (quat_norm2 q), q3 = q3 q / sqrt (quat_norm2 q)\<rparr>"
proof -
  have "0 \<le> quat_norm2 q" by (simp add: quat_norm2_def)
  then have "fsqrt m (quat_norm2 q) = sqrt (quat_norm2 q)" by (rule sqrt_exact)
  then show ?thesis using assms by (simp add: quat_normalize_def quat_norm2_def Let_def)
qed

lemma quat_inverse_exact:
  assumes "quat_norm2 q \<noteq> 0"
  shows "quat_mult q (quat_inverse m junk q) = \<lparr>q0 = 0, q1 = 0, q2 = 0, q3 = sqrt (quat_norm2 q)\<rparr>"
proof -
  have n: "0 < quat_norm2 q" using assms by (simp add: quat_norm2_def order.strict_iff_order)
  have conj: "quat_mult q \<lparr>q0 = - (q0 q / s), q1 = - (q1 q / s), q2 = - (q2 q / s), q3 = q3 q / s\<rparr> =
      \<lparr>q0 = 0, q1 = 0, q2 = 0, q3 = quat_norm2 q / s\<rparr>" for s
    by (simp add: quat_mult_def quat_norm2_def add_divide_distrib)
  have "quat_norm2 q / sqrt (quat_norm2 q) = sqrt (quat_norm2 q)" using n by (simp add: real_div_sqrt)
  then show ?thesis
    using conj [of "sqrt (quat_norm2 q)"] by (simp add: quat_inverse_def quat_conjugate_def quat_normalize_exact [OF assms])
qed

lemma eskf_integrate_norm:
  assumes "vec_cons_mult dt omega \<noteq> \<lparr>v0 = 0, v1 = 0, v2 = 0\<rparr>"
  shows "quat_norm2 (eskf_integrate m q omega dt) = quat_norm2 q"
  using vec_to_quat_unit [OF assms] by (simp add: eskf_integrate_def Let_def quat_mult_norm2)

end

section \<open>Real numbers\<close>

definition real_math :: "real libm" where
  "real_math = \<lparr>lit = of_rat, feq = (=), fpow = (\<lambda>x y. if y \<in> \<nat> then x ^ nat \<lfloor>y\<rfloor> else x powr y), fsqrt = sqrt, fsin = sin,
     fcos = cos, facos = arccos, ffabs = abs, fatan2 = (\<lambda>y x. Arg (Complex x y)), flog = ln, ffloor = floor,
     ftrunc = (\<lambda>x. if 0 \<le> x then \<lfloor>x\<rfloor> else \<lceil>x\<rceil>)\<rparr>"

interpretation real_numbers: exact_math real_math
  by unfold_locales (simp_all add: real_math_def power2_eq_square)

section \<open>Properties\<close>

text \<open>
  The two ways in which math_utils.c rotates a vector agree. In exact arithmetic the matrix that
  \<^verbatim>\<open>quat_to_dcm\<close> makes of a quaternion, applied to a vector with the loops of \<^verbatim>\<open>mat_vec_mult\<close>, gives what
  \<^verbatim>\<open>quat_frame_conv\<close> computes with two quaternion products, for every quaternion, and in particular never leaves an array.
\<close>

theorem quat_rotation_agrees:
  assumes "exact_math m"
  shows "mat_vec_mult m (quat_to_dcm m q) v dst = Some (quat_frame_conv m q v)"
  using exact_math.frame_conv_exact [OF assms] .

theorem quat_rotation_agrees_witness:
  "mat_vec_mult real_math (quat_to_dcm real_math \<lparr>q0 = 1, q1 = 0, q2 = 2, q3 = 3\<rparr>) \<lparr>v0 = 1, v1 = 2, v2 = 3\<rparr> \<lparr>v0 = 0, v1 = 0, v2 = 0\<rparr> =
     Some (quat_frame_conv real_math \<lparr>q0 = 1, q1 = 0, q2 = 2, q3 = 3\<rparr> \<lparr>v0 = 1, v1 = 2, v2 = 3\<rparr>)"
  by (rule quat_rotation_agrees [OF real_numbers.exact_math_axioms])

text \<open>
  C17: A unit quaternion turned into a rotation matrix and back is the same rotation. In exact arithmetic \<^verbatim>\<open>quat_from_dcm\<close>
  of \<^verbatim>\<open>quat_to_dcm\<close> of a quaternion of norm 1 is that quaternion or its negative, whichever of the four
  components the code divides by.
\<close>

theorem quat_dcm_roundtrip:
  assumes "exact_math m" "quat_norm2 q = 1"
  shows "quat_from_dcm m (quat_to_dcm m q) = q \<or> quat_from_dcm m (quat_to_dcm m q) = quat_neg q"
  using exact_math.quat_from_dcm_exact [OF assms] .

theorem quat_dcm_roundtrip_witness:
  "quat_norm2 \<lparr>q0 = 0, q1 = - 3 / 5, q2 = 0, q3 = 4 / 5\<rparr> = 1 \<and>
   (quat_from_dcm real_math (quat_to_dcm real_math \<lparr>q0 = 0, q1 = - 3 / 5, q2 = 0, q3 = 4 / 5\<rparr>) = \<lparr>q0 = 0, q1 = - 3 / 5, q2 = 0, q3 = 4 / 5\<rparr> \<or>
    quat_from_dcm real_math (quat_to_dcm real_math \<lparr>q0 = 0, q1 = - 3 / 5, q2 = 0, q3 = 4 / 5\<rparr>) =
      quat_neg \<lparr>q0 = 0, q1 = - 3 / 5, q2 = 0, q3 = 4 / 5\<rparr>)"
proof -
  have n: "quat_norm2 \<lparr>q0 = 0, q1 = - 3 / 5, q2 = 0, q3 = 4 / 5\<rparr> = 1" by (simp add: quat_norm2_def)
  show ?thesis using quat_dcm_roundtrip [OF real_numbers.exact_math_axioms n] n by blast
qed

text \<open>
  C30: \<^verbatim>\<open>mat_inverse\<close> either stops at its assertion or gives the inverse. In exact arithmetic, for a determinant below
  1E-25 in size the assertion fails; otherwise the result, multiplied from either side with the loops of
  \<^verbatim>\<open>mat_mat_mult\<close>, is the identity.
\<close>

theorem mat_inverse_inverts:
  assumes "exact_math m"
  shows "if \<bar>det3 M\<bar> < 1 / 10 ^ 25 then mat_inverse m M = None
     else \<exists>N. mat_inverse m M = Some N \<and> mat_mat_mult m M N dst = Some id3 \<and> mat_mat_mult m N M dst = Some id3"
proof (cases "\<bar>det3 M\<bar> < 1 / 10 ^ 25")
  case True
  then show ?thesis by (simp add: exact_math.mat_inverse_exact [OF assms])
next
  case False
  then obtain N where N: "mat_inverse m M = Some N" by (auto simp: exact_math.mat_inverse_exact [OF assms])
  from exact_math.mat_inverse_both_sides [OF assms N] N False show ?thesis by auto
qed

theorem mat_inverse_inverts_witness:
  "\<exists>N. mat_inverse real_math (id3\<lparr>m01 := 2, m22 := 4\<rparr>) = Some N \<and> mat_mat_mult real_math (id3\<lparr>m01 := 2, m22 := 4\<rparr>) N id3 = Some id3"
proof -
  have "\<not> \<bar>det3 (id3\<lparr>m01 := 2, m22 := 4\<rparr>)\<bar> < 1 / 10 ^ 25" by (simp add: det3_def id3_def)
  with mat_inverse_inverts [OF real_numbers.exact_math_axioms, of "id3\<lparr>m01 := 2, m22 := 4\<rparr>" id3] show ?thesis by auto
qed

text \<open>
  The prediction of the filter keeps a covariance a covariance. In exact arithmetic, \<^verbatim>\<open>eskf_compute_error\<close> on a symmetric \<open>P\<close> of six
  rows stays inside its arrays, gives a symmetric \<open>P\<close> and a symmetric \<open>Q\<close>, and its result does not depend on what its
  local arrays held before: they are all written before they are read.
\<close>

theorem eskf_covariance_symmetric:
  assumes "exact_math m" "sym6 P" "length Q = 36"
  shows "\<exists>P1 Q1. (\<forall>junk. eskf_compute_error m junk omega dt P Q = Some (P1, Q1)) \<and> sym6 P1 \<and> sym6 Q1"
  using exact_math.eskf_predict [OF assms] .

theorem eskf_covariance_symmetric_witness:
  "\<exists>P1 Q1. (\<forall>junk. eskf_compute_error real_math junk \<lparr>v0 = 1, v1 = 0, v2 = 0\<rparr> (1 / 2) (replicate 36 1) (replicate 36 0) = Some (P1, Q1)) \<and>
     sym6 P1 \<and> sym6 Q1"
proof (rule eskf_covariance_symmetric [OF real_numbers.exact_math_axioms])
  show "sym6 (replicate 36 (1 :: real))" using cell_bound [of _ 6 _ 6] by (simp add: sym6_def)
qed simp

text \<open>
  The Jacobian of the magnetometer update is not the one meant, a skew matrix beside zeros. \<^verbatim>\<open>_mat_copy\<close> takes the
  number of rows for the length of a row, so both blocks are written into the first twelve cells: only the first row of the skew
  matrix is left, its first cell is what the local variable held before, since \<^verbatim>\<open>mat_skew\<close> does not write the diagonal, and
  the last six cells are never written. This holds for any arithmetic.
\<close>

theorem eskf_jacobian_unwritten:
  "eskf_H m junk b =
     Some ([junk 0, lit m (- 1) * v2 b, v1 b] @ replicate 9 (lit m 0) @ map junk [12..<18])"
  by (simp add: eskf_H_def Let_def mat_skew_def junk_m_def arr_mat_copy_def m_arr_def mat_set_diag_def eval_nat_numeral
      arr_get_def arr_set_def upt_rec)

end
