(* ===== verification/Sat_State.thy ===== *)
theory Sat_State
  imports Repo_Data Math_Utils
begin

text \<open>
  The vectors and quaternions among the status variables: the four functions at the end of src/system/repoData.c. A component is
  kept as a \<^verbatim>\<open>float\<close> in one status variable; the conversions between \<^verbatim>\<open>double\<close> and the bits of a
  \<^verbatim>\<open>float\<close> are the arguments \<open>widen\<close> and \<open>narrow\<close>.
\<close>

definition get_sat_quaterion ::
    "'s dat_cfg \<Rightarrow> (value32 \<Rightarrow> 'a) \<Rightarrow> 'a quaternion \<Rightarrow> int \<Rightarrow> 's \<Rightarrow> 'a quaternion option" where
  "get_sat_quaterion cfg widen q index s =
     do { require (index + 4 < dat_status_last_address);
          xs \<leftarrow> for_upto 4 (\<lambda>i xs. do { v \<leftarrow> dat_get_status_var cfg (index + int i) s; arr_set xs (int i) (widen v) }) (q_arr q);
          arr_q xs }"

definition set_sat_quaterion :: "'s dat_cfg \<Rightarrow> ('a \<Rightarrow> value32) \<Rightarrow> 'a quaternion \<Rightarrow> int \<Rightarrow> 's \<Rightarrow> 's option" where
  "set_sat_quaterion cfg narrow q index s =
     do { require (index + 4 < dat_status_last_address);
          for_upto 4 (\<lambda>i s. do { x \<leftarrow> arr_get (q_arr q) (int i);
                                  (_, s1) \<leftarrow> dat_set_status_var cfg (index + int i) (narrow x) s; Some s1 }) s }"

definition get_sat_vector ::
    "'s dat_cfg \<Rightarrow> (value32 \<Rightarrow> 'a) \<Rightarrow> 'a vector3 \<Rightarrow> int \<Rightarrow> 's \<Rightarrow> 'a vector3 option" where
  "get_sat_vector cfg widen r index s =
     do { require (index + 3 < dat_status_last_address);
          xs \<leftarrow> for_upto 3 (\<lambda>i xs. do { v \<leftarrow> dat_get_status_var cfg (index + int i) s; arr_set xs (int i) (widen v) }) (v_arr r);
          arr_v xs }"

definition set_sat_vector :: "'s dat_cfg \<Rightarrow> ('a \<Rightarrow> value32) \<Rightarrow> 'a vector3 \<Rightarrow> int \<Rightarrow> 's \<Rightarrow> 's option" where
  "set_sat_vector cfg narrow r index s =
     do { require (index + 3 < dat_status_last_address);
          for_upto 3 (\<lambda>i s. do { x \<leftarrow> arr_get (v_arr r) (int i);
                                  (_, s1) \<leftarrow> dat_set_status_var cfg (index + int i) (narrow x) s; Some s1 }) s }"

section \<open>Reading back\<close>

context status_repo
begin

text \<open>A run of consecutive variables written by a loop, and read by one.\<close>

lemma set_run:
  assumes "inv s" "k + length xs \<le> 17" "n \<le> length xs"
  shows "\<exists>s'. for_upto n (\<lambda>i s. do { x \<leftarrow> arr_get xs (int i);
        (_, s1) \<leftarrow> dat_set_status_var cfg (int k + int i) (narrow x) s; Some s1 }) s = Some s' \<and> inv s' \<and>
     (\<forall>j < 17. vote (triple_wr cfg) (vars s') j =
        (if k \<le> j \<and> j < k + n then narrow (xs ! (j - k)) else vote (triple_wr cfg) (vars s) j))"
  using assms(3)
proof (induction n)
  case (Suc n)
  then obtain s1 where s1: "for_upto n (\<lambda>i s. do { x \<leftarrow> arr_get xs (int i);
        (_, s1) \<leftarrow> dat_set_status_var cfg (int k + int i) (narrow x) s; Some s1 }) s = Some s1" "inv s1"
      "\<forall>j < 17. vote (triple_wr cfg) (vars s1) j =
        (if k \<le> j \<and> j < k + n then narrow (xs ! (j - k)) else vote (triple_wr cfg) (vars s) j)" by auto
  have "k + n < 17" using Suc.prems assms(2) by simp
  from set_var_vote [OF s1(2) this, of "narrow (xs ! n)"] obtain s2 where
      s2: "dat_set_status_var cfg (int (k + n)) (narrow (xs ! n)) s1 = Some (SCH_ST_OK, s2)" "inv s2"
        "\<And>j. j < 17 \<Longrightarrow> vote (triple_wr cfg) (vars s2) j = (if k + n = j then narrow (xs ! n) else vote (triple_wr cfg) (vars s1) j)"
    by metis
  have "for_upto (Suc n) (\<lambda>i s. do { x \<leftarrow> arr_get xs (int i);
        (_, s1) \<leftarrow> dat_set_status_var cfg (int k + int i) (narrow x) s; Some s1 }) s = Some s2"
    using s1(1) s2(1) Suc.prems by simp
  moreover have "vote (triple_wr cfg) (vars s2) j =
      (if k \<le> j \<and> j < k + Suc n then narrow (xs ! (j - k)) else vote (triple_wr cfg) (vars s) j)" if "j < 17" for j
    using s2(3) [OF that] s1(3) that by (cases "j = k + n") auto
  ultimately show ?case using s2(2) by blast
qed (use assms(1) in auto)

lemma get_run:
  assumes "inv s" "k + length xs \<le> 17" "n \<le> length xs"
  shows "for_upto n (\<lambda>i xs. do { v \<leftarrow> dat_get_status_var cfg (int k + int i) s; arr_set xs (int i) (widen v) }) xs =
     Some (map (\<lambda>i. widen (vote (triple_wr cfg) (vars s) (k + i))) [0..<n] @ drop n xs)"
  using assms(3)
proof (induction n)
  case (Suc n)
  have "k + n < 17" using Suc.prems assms(2) by simp
  from get_var [OF assms(1) this] Suc show ?case
    by (simp add: arr_set_def list_update_append Cons_nth_drop_Suc [symmetric])
qed simp

lemma sat_quaternion_roundtrip:
  assumes "inv s" "k + 4 < 17"
  shows "\<exists>s'. set_sat_quaterion cfg narrow q (int k) s = Some s' \<and> inv s' \<and>
     get_sat_quaterion cfg widen q' (int k) s' = Some \<lparr>q0 = widen (narrow (q0 q)), q1 = widen (narrow (q1 q)),
       q2 = widen (narrow (q2 q)), q3 = widen (narrow (q3 q))\<rparr> \<and>
     (\<forall>j < 17. j \<notin> {k..<k + 4} \<longrightarrow> vote (triple_wr cfg) (vars s') j = vote (triple_wr cfg) (vars s) j)"
proof -
  have len: "k + length (q_arr q) \<le> 17" "k + length (q_arr q') \<le> 17" "4 \<le> length (q_arr q)" "4 \<le> length (q_arr q')"
    using assms(2) by (simp_all add: q_arr_def)
  from set_run [OF assms(1) len(1,3), of narrow] obtain s' where
      s': "for_upto 4 (\<lambda>i s. do { x \<leftarrow> arr_get (q_arr q) (int i);
          (_, s1) \<leftarrow> dat_set_status_var cfg (int k + int i) (narrow x) s; Some s1 }) s = Some s'" "inv s'"
        "\<forall>j < 17. vote (triple_wr cfg) (vars s') j =
          (if k \<le> j \<and> j < k + 4 then narrow (q_arr q ! (j - k)) else vote (triple_wr cfg) (vars s) j)" by blast
  have "set_sat_quaterion cfg narrow q (int k) s = Some s'"
    using s'(1) assms(2) by (simp add: set_sat_quaterion_def addr_defs)
  moreover have "get_sat_quaterion cfg widen q' (int k) s' = Some \<lparr>q0 = widen (narrow (q0 q)), q1 = widen (narrow (q1 q)),
       q2 = widen (narrow (q2 q)), q3 = widen (narrow (q3 q))\<rparr>"
    using get_run [OF s'(2) len(2,4), of widen] s'(3) assms(2)
    by (simp add: get_sat_quaterion_def addr_defs q_arr_def arr_q_def upt_rec)
  ultimately show ?thesis using s'(2,3) by auto
qed

lemma sat_vector_get:
  assumes "inv s" "k + 3 < 17"
  shows "get_sat_vector cfg widen r (int k) s = Some \<lparr>v0 = widen (vote (triple_wr cfg) (vars s) k),
     v1 = widen (vote (triple_wr cfg) (vars s) (k + 1)), v2 = widen (vote (triple_wr cfg) (vars s) (k + 2))\<rparr>"
  using get_run [OF assms(1), of k "v_arr r" 3 widen] assms(2)
  by (simp add: get_sat_vector_def addr_defs v_arr_def arr_v_def upt_rec)

lemma sat_quaternion_get:
  assumes "inv s" "k + 4 < 17"
  shows "get_sat_quaterion cfg widen q (int k) s = Some \<lparr>q0 = widen (vote (triple_wr cfg) (vars s) k),
     q1 = widen (vote (triple_wr cfg) (vars s) (k + 1)), q2 = widen (vote (triple_wr cfg) (vars s) (k + 2)),
     q3 = widen (vote (triple_wr cfg) (vars s) (k + 3))\<rparr>"
  using get_run [OF assms(1), of k "q_arr q" 4 widen] assms(2)
  by (simp add: get_sat_quaterion_def addr_defs q_arr_def arr_q_def upt_rec numeral_3_eq_3)

lemma sat_vector_set:
  assumes "inv s" "k + 3 < 17"
  shows "\<exists>s'. set_sat_vector cfg narrow v (int k) s = Some s' \<and> inv s' \<and>
     (\<forall>j < 17. j \<notin> {k..<k + 3} \<longrightarrow> vote (triple_wr cfg) (vars s') j = vote (triple_wr cfg) (vars s) j) \<and>
     (\<forall>j < 3. vote (triple_wr cfg) (vars s') (k + j) = narrow (v_arr v ! j))"
  using set_run [OF assms(1), of k "v_arr v" 3 narrow] assms(2)
  by (auto simp: set_sat_vector_def addr_defs v_arr_def)

end

end
