(* ===== verification/Cmd_GSSB.thy ===== *)
theory Cmd_GSSB
  imports Cmd_FP
begin

text \<open>
  src/apps/suchai/src/cmdGSSB.c: the commands for the devices on the GSSB bus (antenna release, interstage boards, sun sensors). The
  functions \<^verbatim>\<open>gs_gssb_*\<close> belong to a library that is not in the repository. A call of it is a value of \<open>gs_call\<close>, and
  the devices are a parameter \<open>ans\<close>: what a call returns and hands back, given the calls made before. The calls made are part of
  the state, so that what is asked of the devices, and in which order, is what the model is about. The lines logged as
  results are part of the result; error and debug lines are not.
\<close>

section \<open>Calls\<close>

record burn_settings =
  std_time_ms :: "16 word"
  increment_ms :: "16 word"
  short_cnt_down :: "16 word"
  max_repeat :: "8 word"
  rep_time_s :: "8 word"
  switch_polarity :: "8 word"
  reboot_deploy_cnt :: "8 word"
  bs_locked :: "8 word"
  bs_status :: "8 word"

record backup_settings =
  bk_minutes :: "16 word"
  bk_active :: "8 word"
  bk_max_burn :: "8 word"

datatype gs_call =
    Pwr_Switch nat bool
  | Delay nat
  | Bus_Scan byte byte
  | Sun_Sample byte | Sun_Read byte | Sun_Sample_Temp byte | Sun_Get_Temp byte
  | Sun_Conf byte "16 word" | Sun_Conf_Save byte
  | Set_I2c_Addr byte byte | Commit_I2c_Addr byte | Get_Version byte | Get_Uuid byte | Get_Model byte
  | Istage_Temp byte | Msp_Temp byte | Msp_Calibrate byte "16 word" "16 word" | Internal_Temp byte | Istage_Sun byte
  | Istage_Burn byte | Get_Burn byte | Set_Burn byte burn_settings | Set_Burn_Cnt byte burn_settings
  | Unlock byte | Lock byte | Set_Arm byte byte | Set_State byte byte | Soft_Reset byte | Istage_Status byte
  | Ar6_Burn byte byte | Ar6_Release byte | Ar6_Board byte
  | Ant6_Burn byte byte byte | Ant6_Stop byte | Ant6_Release byte | Ant6_Backup byte | Ant6_Board byte
  | Ant6_Reset_Count byte | Ant6_Set_Backup byte backup_settings | Ant6_Get_Backup byte
  | I4_Release byte | I4_Backup byte | I4_Board byte

text \<open>What a call hands back: fields of a structure in the order in which the code prints them, a text, a float, or settings.\<close>

datatype gs_model = MSP | AR6 | ISTAGE | ANT6 | I4 | OtherModel

datatype gs_reply = RNone | RModel gs_model | RFields "int list" | RText "char list" | RFloat value32 | RBurn burn_settings | RBackup backup_settings

type_synonym gs_devices = "gs_call list \<Rightarrow> gs_call \<Rightarrow> int \<times> gs_reply"

record gs_state =
  i2c_addr :: byte
  calls :: "gs_call list"

definition gs_zero :: gs_state where
  "gs_zero = \<lparr>i2c_addr = 5, calls = []\<rparr>"

definition gs :: "gs_devices \<Rightarrow> gs_call \<Rightarrow> gs_state \<Rightarrow> int \<times> gs_reply \<times> gs_state" where
  "gs ans c st = (let (rc, r) = ans (calls st) c in (rc, r, st\<lparr>calls := calls st @ [c]\<rparr>))"

text \<open>
  Calls one after the other. A checked one, \<^verbatim>\<open>if(f(...) != GS_OK) return CMD_ERROR_FAIL;\<close>, ends the sequence when it fails.
\<close>

fun gs_seq :: "gs_devices \<Rightarrow> (bool \<times> gs_call) list \<Rightarrow> gs_state \<Rightarrow> bool \<times> gs_state" where
  "gs_seq ans [] st = (True, st)"
| "gs_seq ans ((checked, c) # cs) st =
     (let (rc, _, st1) = gs ans c st in if checked \<and> rc \<noteq> 0 then (False, st1) else gs_seq ans cs st1)"

type_synonym gs_result = "(int \<times> string list \<times> gs_state) option"

text \<open>A command that makes calls, logs and has nothing to read.\<close>

definition run_calls :: "gs_devices \<Rightarrow> (bool \<times> gs_call) list \<Rightarrow> string list \<Rightarrow> gs_state \<Rightarrow> gs_result" where
  "run_calls ans cs lines st = (let (ok, st1) = gs_seq ans cs st in Some (if ok then (CMD_OK, lines, st1) else (CMD_ERROR, [], st1)))"

text \<open>A command that makes one call and logs what it hands back.\<close>

definition read_call :: "gs_devices \<Rightarrow> gs_call \<Rightarrow> (gs_reply \<Rightarrow> string list option) \<Rightarrow> gs_state \<Rightarrow> gs_result" where
  "read_call ans c lines st =
     (let (rc, r, st1) = gs ans c st
      in if rc \<noteq> 0 then Some (CMD_ERROR, [], st1) else do { ls \<leftarrow> lines r; Some (CMD_OK, ls, st1) })"

text \<open>Commands that do not check their parameters for null give the null pointer to \<^verbatim>\<open>sscanf\<close>.\<close>

definition scan_params :: "string \<Rightarrow> char list option \<Rightarrow> int \<Rightarrow> scan_arg list option option" where
  "scan_params fmt params nparams = do { require (params \<noteq> None); parse_params 0 fmt params nparams }"

abbreviation u8 :: "int \<Rightarrow> byte" where "u8 n \<equiv> word_of_int n"
abbreviation u16 :: "int \<Rightarrow> 16 word" where "u16 n \<equiv> word_of_int n"

abbreviation TAB :: string where "TAB \<equiv> [CHR 0x09]"
abbreviation CR :: string where "CR \<equiv> [CHR 0x0D]"

definition tabs :: "nat \<Rightarrow> string" where
  "tabs n = replicate n (CHR 0x09)"

fun show_hex_nat :: "nat \<Rightarrow> string" where
  "show_hex_nat n =
     (let d = n mod 16; c = [char_of (if d < 10 then 48 + d else 55 + d)]
      in if n < 16 then c else show_hex_nat (n div 16) @ c)"

declare show_hex_nat.simps [simp del]

text \<open>\<^verbatim>\<open>%#X\<close>\<close>

definition show_hex :: "byte \<Rightarrow> string" where
  "show_hex b = (if b = 0 then ''0'' else ''0X'' @ show_hex_nat (unat b))"

definition show_u :: "'a::len word \<Rightarrow> string" where
  "show_u w = show_int (uint w)"

section \<open>Bus and sensors\<close>

definition cmd_gssb_init :: "cmd_reg list" where
  "cmd_gssb_init =
     [(''gssb_pwr'', ''gssb_pwr'', ''%d %d'', 2),
      (''gssb_select'', ''gssb_select_addr'', ''%i'', 1),
      (''gssb_scan'', ''gssb_bus_scan'', ''%i %i'', 2),
      (''gssb_fss_get_sun'', ''gssb_read_sunsensor'', '''', 0),
      (''gssb_fss_get_temp'', ''gssb_get_temp'', '''', 0),
      (''gssb_fss_set_config'', ''gssb_sunsensor_conf'', ''%d'', 1),
      (''gssb_fss_commit_config'', ''gssb_sunsensor_conf_save'', '''', 0),
      (''gssb_set_addr'', ''gssb_set_i2c_addr'', ''%i'', 1),
      (''gssb_commit_addr'', ''gssb_commit_i2c_addr'', '''', 0),
      (''gssb_get_version'', ''gssb_get_version'', '''', 0),
      (''gssb_get_uuid'', ''gssb_get_uuid'', '''', 0),
      (''gssb_get_model'', ''gssb_get_model'', '''', 0),
      (''gssb_get_temp'', ''gssb_interstage_temp'', '''', 0),
      (''gssb_msp_get_temp'', ''gssb_msp_outside_temp'', '''', 0),
      (''gssb_msp_cal_temp'', ''gssb_msp_outside_temp_calibrate'', ''%d %d'', 2),
      (''gssb_get_temp_int'', ''gssb_internal_temp'', '''', 0),
      (''gssb_burn'', ''gssb_interstage_burn'', '''', 0),
      (''gssb_get_sun'', ''gssb_common_sun_voltage'', '''', 0),
      (''gssb_get_burn_config'', ''gssb_interstage_get_burn_settings'', '''', 0),
      (''gssb_set_burn_config'', ''gssb_interstage_set_burn_settings'', ''%d %d %d %d %d %d %d'', 7),
      (''gssb_arm_auto'', ''gssb_interstage_arm'', ''%d'', 1),
      (''gssb_arm_manual'', ''gssb_interstage_state'', ''%d'', 1),
      (''gssb_unlock_config'', ''gssb_interstage_settings_unlock'', ''%d'', 1),
      (''gssb_reset'', ''gssb_soft_reset'', '''', 0),
      (''gssb_get_status'', ''gssb_interstage_get_status'', '''', 0),
      (''gssb_update_status'', ''gssb_update_status'', '''', 0),
      (''gssb_antenna_release'', ''gssb_antenna_release'', ''%d %d %d %d'', 4)]"

definition gssb_pwr :: "gs_devices \<Rightarrow> string \<Rightarrow> char list option \<Rightarrow> int \<Rightarrow> gs_state \<Rightarrow> gs_result" where
  "gssb_pwr ans fmt params nparams st =
     do { parsed \<leftarrow> parse_params 0 fmt params nparams;
          case parsed of
            None \<Rightarrow> Some (CMD_SYNTAX_ERROR, [], st)
          | Some [AInt vcc_on, AInt vcc2_on] \<Rightarrow>
              run_calls ans [(False, Pwr_Switch 1 (vcc_on > 0)), (False, Pwr_Switch 2 (vcc2_on > 0)), (False, Delay 100)]
                [''Set GSSB switch state to: '' @ show_int vcc_on @ '' '' @ show_int vcc2_on] st
          | Some _ \<Rightarrow> None }"

definition gssb_select_addr :: "string \<Rightarrow> char list option \<Rightarrow> int \<Rightarrow> gs_state \<Rightarrow> gs_result" where
  "gssb_select_addr fmt params nparams st =
     do { parsed \<leftarrow> parse_params 0 fmt params nparams;
          case parsed of
            None \<Rightarrow> Some (CMD_SYNTAX_ERROR, [], st)
          | Some [AInt addr] \<Rightarrow>
              (let st1 = (if addr > 0 then st\<lparr>i2c_addr := u8 addr\<rparr> else st)
               in Some (CMD_OK, [''Selected I2C addr '' @ show_hex (i2c_addr st1) @ '' ('' @ show_u (i2c_addr st1) @ '')''], st1))
          | Some _ \<Rightarrow> None }"

fun scan_lines :: "int list \<Rightarrow> nat list \<Rightarrow> string list option" where
  "scan_lines devices [] = Some []"
| "scan_lines devices (addr # as) =
     do { d \<leftarrow> arr_get devices (int addr);
          ls \<leftarrow> scan_lines devices as;
          Some (if d = 0 then (TAB @ ''Found device at: '' @ show_hex (of_nat addr) @ '' ('' @ show_int (int addr) @ '')'') # ls else ls) }"

text \<open>The array of the devices has 128 elements. Without two parameters the whole bus is scanned.\<close>

definition gssb_bus_scan :: "gs_devices \<Rightarrow> string \<Rightarrow> char list option \<Rightarrow> int \<Rightarrow> gs_state \<Rightarrow> gs_result" where
  "gssb_bus_scan ans fmt params nparams st =
     do { parsed \<leftarrow> parse_params 0 fmt params nparams;
          (first, last') \<leftarrow> (case parsed of
              None \<Rightarrow> Some (1, 100)
            | Some [AInt a, AInt b] \<Rightarrow> Some (a, b)
            | Some _ \<Rightarrow> None);
          let head = ''Scanning I2C bus from '' @ show_int first @ '' to '' @ show_int last' @ ''...'';
          if first > 128 \<or> last' > 128 then Some (CMD_SYNTAX_ERROR, [head], st)
          else
            (let (rc, r, st1) = gs ans (Bus_Scan (u8 first) (u8 last')) st
             in case r of
                  RFields devices \<Rightarrow>
                    do { ls \<leftarrow> scan_lines (take 128 devices) [unat (u8 first)..<unat (u8 last')];
                         Some (CMD_OK, head # ls, st1) }
                | _ \<Rightarrow> None) }"

definition gssb_read_sunsensor :: "gs_devices \<Rightarrow> gs_state \<Rightarrow> gs_result" where
  "gssb_read_sunsensor ans st =
     (let a = i2c_addr st; (ok, st1) = gs_seq ans [(True, Sun_Sample a), (False, Delay 30)] st
      in if \<not> ok then Some (CMD_ERROR, [], st1)
         else read_call ans (Sun_Read a) (\<lambda>r. case r of
                RFields [s0, s1, s2, s3] \<Rightarrow>
                  Some (map (\<lambda>(i, s). ''GSSB '' @ show_u a @ '' sun sensor '' @ show_int i @ '': '' @ show_int s)
                          [(0, s0), (1, s1), (2, s2), (3, s3)])
              | _ \<Rightarrow> None) st1)"

text \<open>\<open>show_float\<close> is the text of a float for a format.\<close>

definition gssb_get_temp :: "(string \<Rightarrow> value32 \<Rightarrow> string) \<Rightarrow> gs_devices \<Rightarrow> gs_state \<Rightarrow> gs_result" where
  "gssb_get_temp show_float ans st =
     (let a = i2c_addr st; (ok, st1) = gs_seq ans [(True, Sun_Sample_Temp a), (False, Delay 20)] st
      in if \<not> ok then Some (CMD_ERROR, [], st1)
         else read_call ans (Sun_Get_Temp a) (\<lambda>r. case r of
                RFloat temp \<Rightarrow> Some [''GSSB '' @ show_u a @ '' temp: '' @ show_float ''%.4f'' temp @ '' '' @ [CHR 0xC2, CHR 0xB0] @ ''C'']
              | _ \<Rightarrow> None) st1)"

definition gssb_sunsensor_conf :: "gs_devices \<Rightarrow> string \<Rightarrow> char list option \<Rightarrow> int \<Rightarrow> gs_state \<Rightarrow> gs_result" where
  "gssb_sunsensor_conf ans fmt params nparams st =
     do { parsed \<leftarrow> parse_params 0 fmt params nparams;
          case parsed of
            None \<Rightarrow> Some (CMD_SYNTAX_ERROR, [], st)
          | Some [AInt conf] \<Rightarrow> run_calls ans [(True, Sun_Conf (i2c_addr st) (u16 conf))] [] st
          | Some _ \<Rightarrow> None }"

definition gssb_sunsensor_conf_save :: "gs_devices \<Rightarrow> gs_state \<Rightarrow> gs_result" where
  "gssb_sunsensor_conf_save ans st = run_calls ans [(True, Sun_Conf_Save (i2c_addr st))] [] st"

text \<open>The new address is used from now on, if a device answers there.\<close>

definition gssb_set_i2c_addr :: "gs_devices \<Rightarrow> string \<Rightarrow> char list option \<Rightarrow> int \<Rightarrow> gs_state \<Rightarrow> gs_result" where
  "gssb_set_i2c_addr ans fmt params nparams st =
     do { parsed \<leftarrow> parse_params 0 fmt params nparams;
          case parsed of
            None \<Rightarrow> Some (CMD_SYNTAX_ERROR, [], st)
          | Some [AInt new] \<Rightarrow>
              (let head = ''Setting address to '' @ show_hex (u8 new) @ ''...'';
                   (ok, st1) = gs_seq ans [(False, Set_I2c_Addr (i2c_addr st) (u8 new)), (True, Get_Uuid (u8 new))] st
               in Some (if ok then (CMD_OK, [head], st1\<lparr>i2c_addr := u8 new\<rparr>) else (CMD_ERROR, [head], st1)))
          | Some _ \<Rightarrow> None }"

definition gssb_commit_i2c_addr :: "gs_devices \<Rightarrow> gs_state \<Rightarrow> gs_result" where
  "gssb_commit_i2c_addr ans st = run_calls ans [(True, Commit_I2c_Addr (i2c_addr st))] [] st"

definition gssb_get_version :: "gs_devices \<Rightarrow> gs_state \<Rightarrow> gs_result" where
  "gssb_get_version ans st =
     read_call ans (Get_Version (i2c_addr st)) (\<lambda>r. case r of
         RText rx_buff \<Rightarrow>
           do { require (length rx_buff = 20); v \<leftarrow> cstr_of (rx_buff[19 := NUL]); Some [''Git version: '' @ v] }
       | _ \<Rightarrow> None) st"

definition gssb_get_uuid :: "gs_devices \<Rightarrow> gs_state \<Rightarrow> gs_result" where
  "gssb_get_uuid ans st =
     read_call ans (Get_Uuid (i2c_addr st)) (\<lambda>r. case r of RFields [uuid] \<Rightarrow> Some [''Device UUID: '' @ show_int uuid] | _ \<Rightarrow> None) st"

definition gssb_get_model :: "gs_devices \<Rightarrow> gs_state \<Rightarrow> gs_result" where
  "gssb_get_model ans st =
     read_call ans (Get_Model (i2c_addr st)) (\<lambda>r. case r of
         RModel model \<Rightarrow>
           Some [case model of MSP \<Rightarrow> ''Model: MSP'' | AR6 \<Rightarrow> ''Model: AR6'' | ISTAGE \<Rightarrow> ''Model: Interstage''
                 | ANT6 \<Rightarrow> ''Model: ANT6'' | I4 \<Rightarrow> ''Model: I4'' | OtherModel \<Rightarrow> ''Model: Unknown'']
       | _ \<Rightarrow> None) st"

definition gssb_interstage_temp :: "(string \<Rightarrow> value32 \<Rightarrow> string) \<Rightarrow> gs_devices \<Rightarrow> gs_state \<Rightarrow> gs_result" where
  "gssb_interstage_temp show_float ans st =
     read_call ans (Istage_Temp (i2c_addr st)) (\<lambda>r. case r of RFloat temp \<Rightarrow> Some [''Temp: '' @ show_float ''%f'' temp] | _ \<Rightarrow> None) st"

definition gssb_msp_outside_temp :: "gs_devices \<Rightarrow> gs_state \<Rightarrow> gs_result" where
  "gssb_msp_outside_temp ans st =
     read_call ans (Msp_Temp (i2c_addr st)) (\<lambda>r. case r of RFields [temp] \<Rightarrow> Some [''Outside temp: '' @ show_int temp] | _ \<Rightarrow> None) st"

text \<open>Nanoamperes and milliohms, divided by ten to fit 16 bits.\<close>

definition gssb_msp_outside_temp_calibrate :: "gs_devices \<Rightarrow> string \<Rightarrow> char list option \<Rightarrow> int \<Rightarrow> gs_state \<Rightarrow> gs_result" where
  "gssb_msp_outside_temp_calibrate ans fmt params nparams st =
     do { parsed \<leftarrow> parse_params 0 fmt params nparams;
          case parsed of
            None \<Rightarrow> Some (CMD_SYNTAX_ERROR, [], st)
          | Some [AInt cur, AInt res] \<Rightarrow>
              if cur > 400000 \<or> cur < 100000 then Some (CMD_SYNTAX_ERROR, [], st)
              else if res > 200000 \<or> res < 50000 then Some (CMD_SYNTAX_ERROR, [], st)
              else
                do { c \<leftarrow> cdiv cur 10;
                     r \<leftarrow> cdiv res 10;
                     run_calls ans [(True, Msp_Calibrate (i2c_addr st) (u16 c) (u16 r))] [] st }
          | Some _ \<Rightarrow> None }"

definition gssb_internal_temp :: "gs_devices \<Rightarrow> gs_state \<Rightarrow> gs_result" where
  "gssb_internal_temp ans st =
     read_call ans (Internal_Temp (i2c_addr st)) (\<lambda>r. case r of RFields [temp] \<Rightarrow> Some [''Internal temp: '' @ show_int temp] | _ \<Rightarrow> None) st"

definition gssb_interstage_burn :: "gs_devices \<Rightarrow> gs_state \<Rightarrow> gs_result" where
  "gssb_interstage_burn ans st = run_calls ans [(True, Istage_Burn (i2c_addr st))] [''Istage burning...''] st"

definition gssb_common_sun_voltage :: "gs_devices \<Rightarrow> gs_state \<Rightarrow> gs_result" where
  "gssb_common_sun_voltage ans st =
     read_call ans (Istage_Sun (i2c_addr st)) (\<lambda>r. case r of RFields [v] \<Rightarrow> Some [''Sun voltage: '' @ show_int v] | _ \<Rightarrow> None) st"

section \<open>Interstage\<close>

definition gssb_interstage_get_burn_settings :: "gs_devices \<Rightarrow> char list option \<Rightarrow> int \<Rightarrow> gs_state \<Rightarrow> gs_result" where
  "gssb_interstage_get_burn_settings ans params nparams st =
     (if params = None \<or> nparams = 0 then
        read_call ans (Get_Burn (i2c_addr st)) (\<lambda>r. case r of
            RBurn s \<Rightarrow>
              Some [''Deploy mode:'' @ tabs 2 @ (if bs_status s = 2 then '' ARMED AUTO'' else '' NOT ARMED''),
                    ''Deploy delay from boot:'' @ TAB @ '' '' @ show_u (short_cnt_down s) @ '' s'',
                    ''-------- Deploy algorithm config ----------'',
                    ''Knife on time:'' @ tabs 2 @ '' '' @ show_u (std_time_ms s) @ '' ms'',
                    ''Increment:'' @ tabs 2 @ '' '' @ show_u (increment_ms s) @ '' ms'',
                    ''Max repeats:'' @ tabs 2 @ '' '' @ show_u (max_repeat s),
                    ''Repeat time:'' @ tabs 2 @ '' '' @ show_u (rep_time_s s) @ '' s'',
                    ''Switch polarity:'' @ TAB @ '' '' @ show_u (switch_polarity s),
                    ''Settings locked:'' @ TAB @ '' '' @ show_u (bs_locked s)]
          | _ \<Rightarrow> None) st
      else Some (CMD_SYNTAX_ERROR, [], st))"

text \<open>Writing settings: they are unlocked, written in two parts with pauses for the memory, and locked again.\<close>

definition write_settings :: "byte \<Rightarrow> burn_settings \<Rightarrow> (bool \<times> gs_call) list" where
  "write_settings a s =
     [(True, Unlock a), (True, Set_Burn a s), (False, Delay 50), (True, Set_Burn_Cnt a s), (False, Delay 20), (True, Lock a),
      (False, Soft_Reset a)]"

definition gssb_interstage_set_burn_settings ::
    "gs_devices \<Rightarrow> string \<Rightarrow> char list option \<Rightarrow> int \<Rightarrow> gs_state \<Rightarrow> gs_result" where
  "gssb_interstage_set_burn_settings ans fmt params nparams st =
     do { parsed \<leftarrow> scan_params fmt params nparams;
          case parsed of
            None \<Rightarrow> Some (CMD_SYNTAX_ERROR, [], st)
          | Some [AInt std_time, AInt increment, AInt short_cnt, AInt max_rep, AInt rep_time, AInt polarity, AInt reboot_cnt] \<Rightarrow>
              (let a = i2c_addr st; (rc, r, st1) = gs ans (Get_Burn a) st
               in if rc \<noteq> 0 then Some (CMD_ERROR, [], st1)
                  else
                    (case r of
                       RBurn s \<Rightarrow>
                         if std_time > 65535 \<or> std_time < 0 then Some (CMD_SYNTAX_ERROR, [], st1)
                         else if increment > 65535 \<or> increment < 0 then Some (CMD_SYNTAX_ERROR, [], st1)
                         else if short_cnt > 65535 \<or> short_cnt < 0 then Some (CMD_SYNTAX_ERROR, [], st1)
                         else if max_rep > 255 \<or> max_rep < 0 then Some (CMD_SYNTAX_ERROR, [], st1)
                         else if rep_time > 255 \<or> rep_time < 0 then Some (CMD_SYNTAX_ERROR, [], st1)
                         else if polarity > 1 \<or> polarity < 0 then Some (CMD_SYNTAX_ERROR, [], st1)
                         else if reboot_cnt > 255 \<or> reboot_cnt < 0 then Some (CMD_SYNTAX_ERROR, [], st1)
                         else
                           run_calls ans (write_settings a
                             (s\<lparr>std_time_ms := u16 std_time, increment_ms := u16 increment, short_cnt_down := u16 short_cnt,
                                max_repeat := u8 max_rep, rep_time_s := u8 rep_time, switch_polarity := u8 polarity,
                                reboot_deploy_cnt := u8 reboot_cnt\<rparr>)) [] st1
                     | _ \<Rightarrow> None))
          | Some _ \<Rightarrow> None }"

definition gssb_interstage_arm :: "gs_devices \<Rightarrow> string \<Rightarrow> char list option \<Rightarrow> int \<Rightarrow> gs_state \<Rightarrow> gs_result" where
  "gssb_interstage_arm ans fmt params nparams st =
     do { parsed \<leftarrow> parse_params 0 fmt params nparams;
          case parsed of
            None \<Rightarrow> Some (CMD_SYNTAX_ERROR, [], st)
          | Some [AInt arm_auto] \<Rightarrow>
              (let a = i2c_addr st
               in run_calls ans [(True, Unlock a), (True, Set_Arm a (if arm_auto \<noteq> 0 then 0x04 else 0x08)), (True, Lock a)] [] st)
          | Some _ \<Rightarrow> None }"

definition gssb_interstage_state :: "gs_devices \<Rightarrow> string \<Rightarrow> char list option \<Rightarrow> int \<Rightarrow> gs_state \<Rightarrow> gs_result" where
  "gssb_interstage_state ans fmt params nparams st =
     do { parsed \<leftarrow> parse_params 0 fmt params nparams;
          case parsed of
            None \<Rightarrow> Some (CMD_SYNTAX_ERROR, [], st)
          | Some [AInt armed_manual] \<Rightarrow>
              (let a = i2c_addr st
               in run_calls ans [(True, Unlock a), (True, Set_State a (u8 armed_manual)), (True, Lock a)] [] st)
          | Some _ \<Rightarrow> None }"

definition gssb_interstage_settings_unlock ::
    "gs_devices \<Rightarrow> string \<Rightarrow> char list option \<Rightarrow> int \<Rightarrow> gs_state \<Rightarrow> gs_result" where
  "gssb_interstage_settings_unlock ans fmt params nparams st =
     do { parsed \<leftarrow> scan_params fmt params nparams;
          case parsed of
            None \<Rightarrow> Some (CMD_SYNTAX_ERROR, [], st)
          | Some [AInt unlock] \<Rightarrow>
              run_calls ans [(True, if unlock \<noteq> 0 then Unlock (i2c_addr st) else Lock (i2c_addr st))]
                [''Parameters unlock: '' @ show_int unlock] st
          | Some _ \<Rightarrow> None }"

definition gssb_soft_reset :: "gs_devices \<Rightarrow> gs_state \<Rightarrow> gs_result" where
  "gssb_soft_reset ans st =
     (let head = ''Resetting device '' @ show_hex (i2c_addr st) @ ''...'';
          (ok, st1) = gs_seq ans [(True, Soft_Reset (i2c_addr st))] st
      in Some (if ok then CMD_OK else CMD_ERROR, [head], st1))"

definition gssb_interstage_get_status :: "gs_devices \<Rightarrow> gs_state \<Rightarrow> gs_result" where
  "gssb_interstage_get_status ans st =
     read_call ans (Istage_Status (i2c_addr st)) (\<lambda>r. case r of
         RFields [state, release_status, deploy_in_s, number_of_deploys, active_knife, total_deploys, reboot_cnt] \<Rightarrow>
           Some [''Current state:'' @ tabs 4 @ '' '' @
                   (if state = 0 then ''Not armed'' else if state = 1 then ''Armed for manual deploy''
                    else if state = 2 then ''Armed for automatical deploy'' else if state = 3 \<or> state = 4 then ''Deploying''
                    else ''Unknown state''),
                 ''Antenna state:'' @ tabs 4 @ '' '' @ (if release_status = 1 then ''Released'' else ''Not released''),
                 ''Delay till deploy:'' @ tabs 3 @ '' '' @ show_int deploy_in_s @ '' s'',
                 ''Number of attempts since boot:'' @ tabs 2 @ '' '' @ show_int number_of_deploys,
                 ''Knife that will be used in next deploy:'' @ TAB @ '' '' @ show_int active_knife,
                 ''Total deploy attempts:'' @ tabs 3 @ '' '' @ show_int total_deploys,
                 ''Reboot deploy cnt:'' @ tabs 3 @ '' '' @ show_int reboot_cnt]
       | _ \<Rightarrow> None) st"

section \<open>Antenna boards\<close>

definition gssb_ar6_burn :: "gs_devices \<Rightarrow> string \<Rightarrow> char list option \<Rightarrow> int \<Rightarrow> gs_state \<Rightarrow> gs_result" where
  "gssb_ar6_burn ans fmt params nparams st =
     do { parsed \<leftarrow> parse_params 0 fmt params nparams;
          case parsed of
            None \<Rightarrow> Some (CMD_SYNTAX_ERROR, [], st)
          | Some [AInt duration] \<Rightarrow>
              if duration > 20 \<or> duration < 0 then Some (CMD_SYNTAX_ERROR, [], st)
              else run_calls ans [(True, Ar6_Burn (i2c_addr st) (u8 duration))] [] st
          | Some _ \<Rightarrow> None }"

text \<open>The three parts of a status, and the lines that were logged before a call failed.\<close>

definition status_parts ::
    "gs_devices \<Rightarrow> gs_call \<Rightarrow> (int list \<Rightarrow> string list option) \<Rightarrow> gs_call \<Rightarrow> gs_call \<Rightarrow> gs_state \<Rightarrow> gs_result" where
  "status_parts ans release release_lines backup board st =
     (let (rc1, r1, st1) = gs ans release st
      in if rc1 \<noteq> 0 then Some (CMD_ERROR, [], st1)
         else
           (case r1 of
              RFields fs \<Rightarrow>
                do { ls1 \<leftarrow> release_lines fs;
                     let (rc2, r2, st2) = gs ans backup st1;
                     if rc2 \<noteq> 0 then Some (CMD_ERROR, ls1, st2)
                     else
                       (case r2 of
                          RFields [state, seconds_to_deploy] \<Rightarrow>
                            (let ls2 = ls1 @ [''Backup'' @ CR, TAB @ ''State:'' @ tabs 5 @ '' ''] @
                                   (if state = 0 then [''Finished successful'']
                                    else if state = 1 then [''Waiting to deploy'', TAB @ ''Seconds to backup deploy:'' @ tabs 2 @ '' '' @ show_int seconds_to_deploy]
                                    else if state = 2 then [''Deploying'']
                                    else if state = 3 then [''Finished unsuccessful'']
                                    else if state = 4 then [''Not active''] else []);
                                 (rc3, r3, st3) = gs ans board st2
                             in if rc3 \<noteq> 0 then Some (CMD_ERROR, ls2, st3)
                                else
                                  (case r3 of
                                     RFields [seconds_since_boot, reboot_count] \<Rightarrow>
                                       Some (CMD_OK, ls2 @ [''Board'' @ CR, TAB @ ''Seconds since boot:'' @ tabs 3 @ '' '' @ show_int seconds_since_boot,
                                              TAB @ ''Number of reboots:'' @ tabs 3 @ '' '' @ show_int reboot_count], st3)
                                   | _ \<Rightarrow> None))
                        | _ \<Rightarrow> None) }
            | _ \<Rightarrow> None))"

definition burn_line :: "int \<Rightarrow> string" where
  "burn_line state = TAB @ ''Burn state:'' @ tabs 4 @ '' '' @ (if state = 1 then ''Burning'' else ''Idle'')"

definition left_line :: "int \<Rightarrow> string" where
  "left_line n = TAB @ ''Burn time left:'' @ tabs 4 @ '' '' @ show_int n"

definition antenna_line :: "bool \<Rightarrow> string" where
  "antenna_line released = TAB @ ''Antenna state:'' @ tabs 4 @ '' '' @ (if released then ''Released'' else ''Not released'')"

definition tries_line :: "int \<Rightarrow> string" where
  "tries_line n = TAB @ ''Burn attempts:'' @ tabs 4 @ '' '' @ show_int n"

definition gssb_ar6_get_status :: "gs_devices \<Rightarrow> gs_state \<Rightarrow> gs_result" where
  "gssb_ar6_get_status ans st =
     (let a = i2c_addr st
      in status_parts ans (Ar6_Release a) (\<lambda>fs. case fs of
             [state, burn_time_left, status, burn_tries] \<Rightarrow>
               Some [''Antenna release'' @ CR, burn_line state, left_line burn_time_left, antenna_line (status = 1), tries_line burn_tries]
           | _ \<Rightarrow> None) (Ant6_Backup a) (Ar6_Board a) st)"

definition gssb_common_burn_channel :: "gs_devices \<Rightarrow> string \<Rightarrow> char list option \<Rightarrow> int \<Rightarrow> gs_state \<Rightarrow> gs_result" where
  "gssb_common_burn_channel ans fmt params nparams st =
     do { parsed \<leftarrow> parse_params 0 fmt params nparams;
          case parsed of
            None \<Rightarrow> Some (CMD_SYNTAX_ERROR, [], st)
          | Some [AInt channel, AInt duration] \<Rightarrow>
              if channel > 10 \<or> channel < 0 then Some (CMD_SYNTAX_ERROR, [], st)
              else if duration > 60 \<or> duration < 0 then Some (CMD_SYNTAX_ERROR, [], st)
              else run_calls ans [(True, Ant6_Burn (i2c_addr st) (u8 channel) (u8 duration))] [] st
          | Some _ \<Rightarrow> None }"

definition gssb_common_stop_burn :: "gs_devices \<Rightarrow> char list option \<Rightarrow> gs_state \<Rightarrow> gs_result" where
  "gssb_common_stop_burn ans params st =
     (if params = None then Some (CMD_SYNTAX_ERROR, [], st) else run_calls ans [(True, Ant6_Stop (i2c_addr st))] [] st)"

definition gssb_ant6_get_status_all_channels :: "gs_devices \<Rightarrow> gs_state \<Rightarrow> gs_result" where
  "gssb_ant6_get_status_all_channels ans st =
     (let a = i2c_addr st
      in status_parts ans (Ant6_Release a) (\<lambda>fs. case fs of
             [state0, left0, status0, tries0, state1, left1, status1, tries1] \<Rightarrow>
               Some [''Channel 0'' @ CR, burn_line state0, left_line left0, antenna_line (status0 = 1), tries_line tries0,
                     ''Channel 1'' @ CR, burn_line state1, left_line left1, antenna_line (status1 = 1), tries_line tries1]
           | _ \<Rightarrow> None) (Ant6_Backup a) (Ant6_Board a) st)"

definition gssb_i4_get_status_all_channels :: "gs_devices \<Rightarrow> gs_state \<Rightarrow> gs_result" where
  "gssb_i4_get_status_all_channels ans st =
     (let a = i2c_addr st
      in status_parts ans (I4_Release a) (\<lambda>fs. case fs of
             [state0, left0, status00, status01, tries0, state1, left1, status10, status11, tries1] \<Rightarrow>
               Some [''Channel 0'' @ CR, burn_line state0, left_line left0, antenna_line (status00 = 1), antenna_line (status01 = 2),
                     tries_line tries0,
                     ''Channel 1'' @ CR, burn_line state1, left_line left1, antenna_line (status10 = 1), antenna_line (status11 = 2),
                     tries_line tries1]
           | _ \<Rightarrow> None) (I4_Backup a) (I4_Board a) st)"

definition gssb_common_reset_count :: "gs_devices \<Rightarrow> char list option \<Rightarrow> gs_state \<Rightarrow> gs_result" where
  "gssb_common_reset_count ans params st =
     (if params = None then Some (CMD_SYNTAX_ERROR, [], st) else run_calls ans [(True, Ant6_Reset_Count (i2c_addr st))] [] st)"

definition backup_lines :: "backup_settings \<Rightarrow> string list" where
  "backup_lines s =
     [''Backup deploy settings:'' @ CR @ TAB @ ''Minutes until deploy:'' @ tabs 3 @ '' '' @ show_int (sint (bk_minutes s)) @ CR @ TAB @
        ''Backup deployment:'' @ tabs 3 @ '' '',
      (if bk_active s = 1 then ''Active'' else ''Not active'') @ CR,
      TAB @ ''Max burn duration:'' @ tabs 3 @ '' '' @ show_u (bk_max_burn s) @ CR]"

definition gssb_common_backup_settings :: "gs_devices \<Rightarrow> string \<Rightarrow> char list option \<Rightarrow> int \<Rightarrow> gs_state \<Rightarrow> gs_result" where
  "gssb_common_backup_settings ans fmt params nparams st =
     do { parsed \<leftarrow> scan_params fmt params nparams;
          case parsed of
            None \<Rightarrow>
              read_call ans (Ant6_Get_Backup (i2c_addr st)) (\<lambda>r. case r of RBackup s \<Rightarrow> Some (backup_lines s) | _ \<Rightarrow> None) st
          | Some [AInt minutes, AInt active, AInt max_burn] \<Rightarrow>
              if minutes > 5000 \<or> minutes < 0 then Some (CMD_SYNTAX_ERROR, [], st)
              else if active \<noteq> 1 \<and> active \<noteq> 0 then Some (CMD_SYNTAX_ERROR, [], st)
              else if max_burn > 127 \<or> max_burn < 0 then Some (CMD_SYNTAX_ERROR, [], st)
              else
                (let s = \<lparr>bk_minutes = u16 minutes, bk_active = u8 active, bk_max_burn = u8 max_burn\<rparr>
                 in run_calls ans [(True, Ant6_Set_Backup (i2c_addr st) s)]
                      ((CR @ ''Reboot board for changes to take effect'' @ CR) # backup_lines s) st)
          | Some _ \<Rightarrow> None }"

section \<open>Release of the antennas\<close>

text \<open>The sum of the release states of the four boards.\<close>

fun release_sum :: "gs_devices \<Rightarrow> byte list \<Rightarrow> int \<Rightarrow> gs_state \<Rightarrow> (int option \<times> gs_state) option" where
  "release_sum ans [] acc st = Some (Some acc, st)"
| "release_sum ans (a # as) acc st =
     (let (rc, r, st1) = gs ans (Istage_Status a) st
      in if rc \<noteq> 0 then Some (None, st1)
         else
           (case r of
              RFields (state # release_status # _) \<Rightarrow> do { n \<leftarrow> cint (acc + release_status); release_sum ans as n st1 }
            | _ \<Rightarrow> None))"

text \<open>\<open>deployed\<close> is the address of the status variable \<^verbatim>\<open>dat_dep_ant_deployed\<close>.\<close>

definition gssb_update_status :: "'s dat_cfg \<Rightarrow> int \<Rightarrow> gs_devices \<Rightarrow> gs_state \<times> 's \<Rightarrow> (int \<times> gs_state \<times> 's) option" where
  "gssb_update_status cfg deployed ans x =
     do { (released, st1) \<leftarrow> release_sum ans [0x10, 0x11, 0x12, 0x13] 0 (fst x);
          case released of
            None \<Rightarrow> Some (CMD_ERROR, st1, snd x)
          | Some deploy_status \<Rightarrow>
              if deploy_status \<ge> 0 then
                do { (_, s1) \<leftarrow> dat_set_system_var cfg deployed deploy_status (snd x); Some (CMD_OK, st1, s1) }
              else Some (CMD_ERROR, st1, snd x) }"

definition gssb_antenna_release :: "gs_devices \<Rightarrow> string \<Rightarrow> char list option \<Rightarrow> int \<Rightarrow> gs_state \<Rightarrow> gs_result" where
  "gssb_antenna_release ans fmt params nparams st =
     (if params = None then Some (CMD_ERROR, [], st)
      else
        do { parsed \<leftarrow> parse_params 0 fmt params nparams;
             case parsed of
               None \<Rightarrow> Some (CMD_ERROR, [], st)
             | Some [AInt addr, AInt knife_on, AInt knife_off, AInt repeats] \<Rightarrow>
                 (let a = u8 addr; (rc, r, st1) = gs ans (Get_Burn a) st
                  in if rc \<noteq> 0 then Some (CMD_ERROR, [], st1)
                     else
                       (case r of
                          RBurn s \<Rightarrow>
                            (let s1 = s\<lparr>std_time_ms := u16 knife_on, increment_ms := 0, short_cnt_down := 0, max_repeat := u8 repeats,
                                        rep_time_s := u8 knife_off\<rparr>;
                                 line1 = ''istage on: '' @ show_int knife_on @ ''. Off: '' @ show_int knife_off @ ''. Rep: '' @
                                         show_int repeats @ ''. (rc: 1)'';
                                 (ok, st2) = gs_seq ans (write_settings a s1) st1
                             in if \<not> ok then Some (CMD_ERROR, [], st2)
                                else
                                  (let (ok2, st3) = gs_seq ans [(True, Unlock a), (True, Set_Arm a 0x08), (True, Istage_Burn a)] st2
                                   in Some (if ok2 then (CMD_OK, [line1, ''GSSB istage '' @ show_int addr @ '' deploying! (rc: 1)''], st3)
                                            else (CMD_ERROR, [line1], st3))))
                        | _ \<Rightarrow> None))
             | Some _ \<Rightarrow> None })"

section \<open>Locked settings\<close>

text \<open>
  The boards take settings only between an unlock and a lock. \<open>settings_open a cs\<close>: the settings of the board at \<open>a\<close> are unlocked
  after the calls \<open>cs\<close>. \<open>guarded a cs\<close>: every call that writes settings of \<open>a\<close> came while they were unlocked.
\<close>

fun turns :: "byte \<Rightarrow> gs_call \<Rightarrow> bool \<Rightarrow> bool" where
  "turns a (Unlock b) u = (if a = b then True else u)"
| "turns a (Lock b) u = (if a = b then False else u)"
| "turns a _ u = u"

fun writes :: "byte \<Rightarrow> gs_call \<Rightarrow> bool" where
  "writes a (Set_Burn b s) = (a = b)"
| "writes a (Set_Burn_Cnt b s) = (a = b)"
| "writes a (Set_Arm b d) = (a = b)"
| "writes a (Set_State b d) = (a = b)"
| "writes a _ = False"

definition open_from :: "bool \<Rightarrow> byte \<Rightarrow> gs_call list \<Rightarrow> bool" where
  "open_from u a cs = fold (turns a) cs u"

fun guarded_from :: "bool \<Rightarrow> byte \<Rightarrow> gs_call list \<Rightarrow> bool" where
  "guarded_from u a [] \<longleftrightarrow> True"
| "guarded_from u a (c # cs) \<longleftrightarrow> (writes a c \<longrightarrow> u) \<and> guarded_from (turns a c u) a cs"

abbreviation settings_open :: "byte \<Rightarrow> gs_call list \<Rightarrow> bool" where
  "settings_open a cs \<equiv> open_from False a cs"

abbreviation guarded :: "byte \<Rightarrow> gs_call list \<Rightarrow> bool" where
  "guarded a cs \<equiv> guarded_from False a cs"

lemma open_from_append [simp]: "open_from u a (xs @ ys) = open_from (open_from u a xs) a ys"
  by (simp add: open_from_def)

lemma open_from_Cons: "open_from u a (c # cs) = open_from (turns a c u) a cs"
  by (simp add: open_from_def)

lemma guarded_append: "guarded_from u a (xs @ ys) \<longleftrightarrow> guarded_from u a xs \<and> guarded_from (open_from u a xs) a ys"
  by (induction xs arbitrary: u) (auto simp: open_from_def)

lemma guarded_take: "guarded_from u a cs \<Longrightarrow> guarded_from u a (take n cs)"
  using guarded_append [of u a "take n cs" "drop n cs"] by simp

text \<open>The calls a sequence makes: a part of it from the start, all of it if none fails.\<close>

lemma gs_calls: "gs ans c st = (rc, r, st1) \<Longrightarrow> calls st1 = calls st @ [c] \<and> i2c_addr st1 = i2c_addr st"
  by (auto simp: gs_def Let_def split: prod.splits)

lemma gs_seq_calls:
  "gs_seq ans cs st = (ok, st') \<Longrightarrow>
   \<exists>n. calls st' = calls st @ map snd (take n cs) \<and> (ok \<longrightarrow> take n cs = cs) \<and> i2c_addr st' = i2c_addr st"
proof (induction cs arbitrary: st)
  case (Cons x cs)
  obtain checked c where x: "x = (checked, c)" by (cases x)
  obtain rc r st1 where g: "gs ans c st = (rc, r, st1)" by (cases "gs ans c st") auto
  note c1 = gs_calls [OF g]
  show ?case
  proof (cases "checked \<and> rc \<noteq> 0")
    case True
    then have "ok = False" "st' = st1" using Cons.prems by (auto simp: x g)
    then show ?thesis using c1 by (intro exI [of _ 1]) (simp add: x)
  next
    case False
    then have "gs_seq ans cs st1 = (ok, st')" using Cons.prems by (auto simp: x g)
    from Cons.IH [OF this] obtain n where "calls st' = calls st1 @ map snd (take n cs)" "ok \<longrightarrow> take n cs = cs"
        "i2c_addr st' = i2c_addr st1" by blast
    then show ?thesis using c1 by (intro exI [of _ "Suc n"]) (simp add: x)
  qed
qed (auto intro: exI [of _ 0])

lemma gs_seq_guarded:
  assumes "gs_seq ans cs st = (ok, st')" "guarded a (calls st)" "\<And>u. guarded_from u a (map snd cs)"
  shows "guarded a (calls st')" and "ok \<Longrightarrow> settings_open b (calls st') = open_from (settings_open b (calls st)) b (map snd cs)"
proof -
  obtain n where n: "calls st' = calls st @ map snd (take n cs)" "ok \<longrightarrow> take n cs = cs" using gs_seq_calls [OF assms(1)] by blast
  show "guarded a (calls st')"
    using assms(2) guarded_take [OF assms(3), where n = n] by (simp add: n(1) guarded_append take_map)
  show "ok \<Longrightarrow> settings_open b (calls st') = open_from (settings_open b (calls st)) b (map snd cs)" using n by simp
qed

lemma run_calls_guarded:
  assumes "run_calls ans cs ls st = Some (rc, ls', st')" "guarded a (calls st)" "\<And>u. guarded_from u a (map snd cs)"
  shows "guarded a (calls st') \<and> (rc = CMD_OK \<longrightarrow> settings_open b (calls st') = open_from (settings_open b (calls st)) b (map snd cs))"
proof -
  obtain ok st1 where s: "gs_seq ans cs st = (ok, st1)" by (cases "gs_seq ans cs st") auto
  have "st' = st1" "rc = CMD_OK \<longrightarrow> ok" using assms(1) by (auto simp: run_calls_def s config_defs split: if_splits)
  then show ?thesis using gs_seq_guarded [OF s assms(2,3)] by auto
qed

lemma write_settings_guarded: "guarded_from u a (map snd (write_settings b s))"
  by (cases "a = b") (simp_all add: write_settings_def)

lemma write_settings_locks: "\<not> open_from u a (map snd (write_settings a s))"
  by (simp add: write_settings_def open_from_def)

lemma read_burn_guarded: "gs ans (Get_Burn b) st = (rc, r, st1) \<Longrightarrow> guarded a (calls st) \<Longrightarrow> guarded a (calls st1)"
  by (auto dest!: gs_calls simp: guarded_append)

lemma set_burn_guarded:
  assumes "gssb_interstage_set_burn_settings ans fmt params nparams st = Some (rc, ls, st')" "guarded a (calls st)"
  shows "guarded a (calls st') \<and> (rc = CMD_OK \<longrightarrow> \<not> settings_open (i2c_addr st) (calls st'))"
proof -
  obtain rc1 r st1 where g: "gs ans (Get_Burn (i2c_addr st)) st = (rc1, r, st1)" by (cases "gs ans (Get_Burn (i2c_addr st)) st") auto
  note g1 = read_burn_guarded [OF g assms(2)]
  show ?thesis
    using assms g1 run_calls_guarded [OF _ g1 write_settings_guarded, where b = "i2c_addr st" and ans = ans] write_settings_locks
    by (auto simp: gssb_interstage_set_burn_settings_def g config_defs split: bind_splits option.splits list.splits
        scan_arg.splits gs_reply.splits if_splits; fastforce)
qed

text \<open>One write between an unlock and a lock.\<close>

lemma bracket_guarded:
  assumes "run_calls ans [(True, Unlock b), (True, c), (True, Lock b)] ls st = Some (rc, ls', st')" "guarded a (calls st)"
    and "c = Set_Arm b d \<or> c = Set_State b d"
  shows "guarded a (calls st') \<and> (rc = CMD_OK \<longrightarrow> \<not> settings_open b (calls st'))"
proof -
  have g: "guarded_from u a (map snd [(True, Unlock b), (True, c), (True, Lock b)])" for u
    using assms(3) by (cases "a = b") auto
  have "\<not> open_from u b (map snd [(True, Unlock b), (True, c), (True, Lock b)])" for u
    using assms(3) by (auto simp: open_from_def)
  with run_calls_guarded [OF assms(1,2) g, of b] show ?thesis by blast
qed

lemma arm_guarded:
  assumes "gssb_interstage_arm ans fmt params nparams st = Some (rc, ls, st')" "guarded a (calls st)"
  shows "guarded a (calls st') \<and> (rc = CMD_OK \<longrightarrow> \<not> settings_open (i2c_addr st) (calls st'))"
  using assms bracket_guarded [OF _ assms(2)]
  by (auto simp: gssb_interstage_arm_def Let_def config_defs split: bind_splits option.splits list.splits scan_arg.splits)

lemma state_guarded:
  assumes "gssb_interstage_state ans fmt params nparams st = Some (rc, ls, st')" "guarded a (calls st)"
  shows "guarded a (calls st') \<and> (rc = CMD_OK \<longrightarrow> \<not> settings_open (i2c_addr st) (calls st'))"
  using assms bracket_guarded [OF _ assms(2)]
  by (auto simp: gssb_interstage_state_def Let_def config_defs split: bind_splits option.splits list.splits scan_arg.splits)

lemma release_guarded:
  assumes "gssb_antenna_release ans fmt params nparams st = Some (rc, ls, st')" "guarded a (calls st)"
    and "parse_params 0 fmt params nparams = Some (Some [AInt addr, AInt knife_on, AInt knife_off, AInt repeats])"
  shows "guarded a (calls st') \<and> (rc = CMD_OK \<longrightarrow> settings_open (u8 addr) (calls st') \<and> last (calls st') = Istage_Burn (u8 addr))"
proof -
  let ?b = "u8 addr" and ?cs = "[(True, Unlock (u8 addr)), (True, Set_Arm (u8 addr) 0x08), (True, Istage_Burn (u8 addr))]"
  obtain rc1 r st1 where g: "gs ans (Get_Burn ?b) st = (rc1, r, st1)" by (cases "gs ans (Get_Burn ?b) st") auto
  note g1 = read_burn_guarded [OF g assms(2)]
  have p: "params \<noteq> None" using assms(3) by (cases params) simp_all
  show ?thesis
  proof (cases "rc1 \<noteq> 0")
    case True
    then show ?thesis
      using assms(1,3) p g g1 by (auto simp: gssb_antenna_release_def config_defs)
  next
    case False
    then obtain s where s: "r = RBurn s"
      using assms(1,3) p g by (cases r) (auto simp: gssb_antenna_release_def Let_def)
    define s1 where "s1 = s\<lparr>std_time_ms := u16 knife_on, increment_ms := 0, short_cnt_down := 0, max_repeat := u8 repeats, rep_time_s := u8 knife_off\<rparr>"
    obtain ok st2 where w: "gs_seq ans (write_settings ?b s1) st1 = (ok, st2)" by (cases "gs_seq ans (write_settings ?b s1) st1") auto
    note g2 = gs_seq_guarded(1) [OF w g1 write_settings_guarded]
    obtain ok2 st3 where b: "gs_seq ans ?cs st2 = (ok2, st3)" by (cases "gs_seq ans ?cs st2") auto
    have "guarded_from u a (map snd ?cs)" for u by (cases "a = ?b") simp_all
    note g3 = gs_seq_guarded [OF b g2 this]
    obtain n where n: "calls st3 = calls st2 @ map snd (take n ?cs)" "ok2 \<longrightarrow> take n ?cs = ?cs" using gs_seq_calls [OF b] by blast
    have res: "(rc, st') = (if \<not> ok then (CMD_ERROR, st2) else if ok2 then (CMD_OK, st3) else (CMD_ERROR, st3))"
      using assms(1,3) p g False s w b unfolding s1_def by (auto simp: gssb_antenna_release_def Let_def split: if_splits)
    show ?thesis
    proof (cases "ok \<and> ok2")
      case True
      have "settings_open ?b (calls st3)" using g3(2) [of ?b] True by (simp add: open_from_def)
      moreover have "last (calls st3) = Istage_Burn ?b" using n True by simp
      ultimately show ?thesis using res True g3(1) by simp
    next
      case False
      then show ?thesis using res g2 g3(1) by (auto simp: config_defs split: if_splits)
    qed
  qed
qed

section \<open>Properties\<close>

text \<open>
  C32: The four commands that write the settings of an interstage board write them only while they are unlocked, whatever the
  devices answer and wherever a call fails: if every write so far was guarded, every write after the command is. When they report
  success, three of them have locked the selected board again: \<^verbatim>\<open>gssb_interstage_set_burn_settings\<close>, \<^verbatim>\<open>gssb_interstage_arm\<close> and
  \<^verbatim>\<open>gssb_interstage_state\<close>. The fourth, \<^verbatim>\<open>gssb_antenna_release\<close> with its four numbers, has not: its board is burning and its
  settings are still unlocked, since they are unlocked a second time for arming and never locked.
\<close>

theorem gssb_settings_guarded:
  assumes "\<forall>a. guarded a (calls st)"
  shows "(gssb_interstage_set_burn_settings ans fmt params nparams st = Some (rc, ls, st') \<or>
      gssb_interstage_arm ans fmt params nparams st = Some (rc, ls, st') \<or>
      gssb_interstage_state ans fmt params nparams st = Some (rc, ls, st') \<longrightarrow>
        (\<forall>a. guarded a (calls st')) \<and> (rc = CMD_OK \<longrightarrow> \<not> settings_open (i2c_addr st) (calls st'))) \<and>
    (gssb_antenna_release ans fmt params nparams st = Some (rc, ls, st') \<and>
      parse_params 0 fmt params nparams = Some (Some [AInt addr, AInt knife_on, AInt knife_off, AInt repeats]) \<longrightarrow>
        (\<forall>a. guarded a (calls st')) \<and>
        (rc = CMD_OK \<longrightarrow> settings_open (u8 addr) (calls st') \<and> last (calls st') = Istage_Burn (u8 addr)))"
proof (intro conjI impI)
  assume "gssb_interstage_set_burn_settings ans fmt params nparams st = Some (rc, ls, st') \<or>
      gssb_interstage_arm ans fmt params nparams st = Some (rc, ls, st') \<or>
      gssb_interstage_state ans fmt params nparams st = Some (rc, ls, st')"
  then have "guarded a (calls st') \<and> (rc = CMD_OK \<longrightarrow> \<not> settings_open (i2c_addr st) (calls st'))" for a
    using assms [rule_format, of a]
    by (elim disjE) (rule set_burn_guarded arm_guarded state_guarded; assumption)+
  then show "\<forall>a. guarded a (calls st')" "rc = CMD_OK \<Longrightarrow> \<not> settings_open (i2c_addr st) (calls st')"
    by blast+
next
  assume r: "gssb_antenna_release ans fmt params nparams st = Some (rc, ls, st') \<and>
      parse_params 0 fmt params nparams = Some (Some [AInt addr, AInt knife_on, AInt knife_off, AInt repeats])"
  then have g: "guarded a (calls st') \<and>
      (rc = CMD_OK \<longrightarrow> settings_open (u8 addr) (calls st') \<and> last (calls st') = Istage_Burn (u8 addr))" for a
    using release_guarded [of ans fmt params nparams st rc ls st' a] assms by blast
  show "\<forall>a. guarded a (calls st')" using g by blast
  assume "rc = CMD_OK"
  then show "settings_open (u8 addr) (calls st')" "last (calls st') = Istage_Burn (u8 addr)" using g by blast+
qed

theorem gssb_settings_guarded_witness:
  "\<exists>ls st'. gssb_interstage_arm (\<lambda>_ _. (0, RNone)) ''%d'' (Some (show_int 1 @ [NUL])) 1 gs_zero = Some (CMD_OK, ls, st') \<and>
     calls st' = [Unlock 5, Set_Arm 5 4, Lock 5] \<and> \<not> settings_open 5 (calls st')"
proof -
  have p: "parse_params 0 ''%d'' (Some (show_int 1 @ [NUL])) 1 = Some (Some [AInt 1])" by (rule parse_int_param) (simp add: in_int_def)
  have r: "gssb_interstage_arm (\<lambda>_ _. (0, RNone)) ''%d'' (Some (show_int 1 @ [NUL])) 1 gs_zero =
      Some (CMD_OK, [], \<lparr>i2c_addr = 5, calls = [Unlock 5, Set_Arm 5 4, Lock 5]\<rparr>)"
    using p by (simp add: gssb_interstage_arm_def run_calls_def gs_def gs_zero_def Let_def)
  have z: "\<forall>a. guarded a (calls gs_zero)" by (simp add: gs_zero_def)
  from gssb_settings_guarded [OF z, THEN conjunct1, rule_format, OF disjI2, OF disjI1, OF r]
  have "\<not> settings_open 5 [Unlock 5, Set_Arm 5 4, Lock 5]" by (simp add: gs_zero_def)
  then show ?thesis using r by auto
qed

end
