(* ===== verification/Cmd_RW.thy ===== *)
theory Cmd_RW
  imports Cmd_FP
begin

text \<open>
  src/apps/suchai/src/cmdRW.c: the commands of the reaction wheels and of the upper interstage board. The driver of the wheels and the bus are libraries that
  are not in the repository: a call of them is a value of \<open>rw_call\<close>, what it returns, given the calls made before, is the parameter \<open>ans\<close>, and the calls made are part of
  the result. The numbers of the motors are constants of the driver, the parameter \<open>motors\<close>. What is printed is not modelled.
\<close>

datatype rw_call =
    Get_Speed int | Get_Current int | Set_Speed int int
  | Transaction "byte list" nat  \<comment> \<open>the bytes written to the board, and how many are read\<close>

type_synonym rw_devices = "rw_call list \<Rightarrow> rw_call \<Rightarrow> int"
type_synonym rw_result = "(int \<times> rw_call list) option"

datatype upper_istage_cmd =
    IS2_START_SENSORS_TEMP | IS2_STOP_SENSORS_TEMP | IS2_GET_TEMP | IS2_READ_SW_FACE | IS2_BURN_FACE | IS2_SET_BURN | IS2_SENSORS_TEMP_STATUS

fun istage_code :: "upper_istage_cmd \<Rightarrow> byte" where
  "istage_code IS2_START_SENSORS_TEMP = 30"
| "istage_code IS2_STOP_SENSORS_TEMP = 31"
| "istage_code IS2_GET_TEMP = 32"
| "istage_code IS2_READ_SW_FACE = 33"
| "istage_code IS2_BURN_FACE = 34"
| "istage_code IS2_SET_BURN = 35"
| "istage_code IS2_SENSORS_TEMP_STATUS = 36"

definition cmd_rw_init :: "bool \<Rightarrow> cmd_reg list" where
  "cmd_rw_init SCH_USE_ISTAGE2 =
     [(''rw_get_speed'', ''rw_get_speed'', '''', 0),
      (''rw_get_current'', ''rw_get_current'', '''', 0),
      (''rw_set_speed'', ''rw_set_speed'', ''%d %d'', 2)] @
     (if SCH_USE_ISTAGE2 then
        [(''is2_get_temp'', ''istage2_get_temp'', '''', 0),
         (''is2_get_state'', ''istage2_get_state_panel'', ''%d'', 1),
         (''is2_deploy'', ''istage2_deploy_panel'', ''%d'', 1),
         (''is2_set_deploy'', ''istage2_set_deploy'', ''%d'', 1),
         (''is2_get_status'', ''istage2_get_sensors_status'', '''', 0)]
      else [])"

section \<open>Wheels\<close>

definition rw_get_speed :: "int list \<Rightarrow> rw_call list \<Rightarrow> rw_result" where
  "rw_get_speed motors past = Some (CMD_OK, past @ map Get_Speed motors)"

definition rw_get_current :: "int list \<Rightarrow> rw_call list \<Rightarrow> rw_result" where
  "rw_get_current motors past = Some (1, past @ map Get_Current motors)"

definition rw_set_speed :: "rw_devices \<Rightarrow> string \<Rightarrow> char list option \<Rightarrow> int \<Rightarrow> rw_call list \<Rightarrow> rw_result" where
  "rw_set_speed ans fmt params nparams past =
     do { parsed \<leftarrow> parse_params 0 fmt params nparams;
          case parsed of
            None \<Rightarrow> Some (CMD_SYNTAX_ERROR, past)
          | Some [AInt motor_id, AInt speed] \<Rightarrow>
              (let c = Set_Speed motor_id speed in Some (if ans past c = 0 then CMD_OK else CMD_ERROR, past @ [c]))
          | Some _ \<Rightarrow> None }"

section \<open>Upper interstage\<close>

definition istage_call :: "upper_istage_cmd \<Rightarrow> int \<Rightarrow> nat \<Rightarrow> rw_call" where
  "istage_call c arg n = Transaction [istage_code c, word_of_int arg] n"

text \<open>One transaction, and its return code.\<close>

definition istage_once :: "rw_devices \<Rightarrow> rw_call \<Rightarrow> rw_call list \<Rightarrow> rw_result" where
  "istage_once ans c past = Some (if ans past c \<noteq> 0 then CMD_ERROR else CMD_OK, past @ [c])"

definition istage2_get_temp :: "rw_devices \<Rightarrow> rw_call list \<Rightarrow> rw_result" where
  "istage2_get_temp ans past =
     (let start = istage_call IS2_START_SENSORS_TEMP 0 1; temp = istage_call IS2_GET_TEMP 0 16; stop = istage_call IS2_STOP_SENSORS_TEMP 0 0
      in if ans past start \<noteq> 0 then Some (CMD_ERROR, past @ [start])
         else if ans (past @ [start]) temp \<noteq> 0 then Some (CMD_ERROR, past @ [start, temp])
         else if ans (past @ [start, temp]) stop \<noteq> 0 then Some (CMD_ERROR, past @ [start, temp, stop])
         else Some (CMD_OK, past @ [start, temp, stop]))"

text \<open>The three commands that take one number and make one transaction.\<close>

definition istage_param ::
    "upper_istage_cmd \<Rightarrow> nat \<Rightarrow> rw_devices \<Rightarrow> string \<Rightarrow> char list option \<Rightarrow> int \<Rightarrow> rw_call list \<Rightarrow> rw_result" where
  "istage_param c n ans fmt params nparams past =
     do { parsed \<leftarrow> parse_params 0 fmt params nparams;
          case parsed of
            None \<Rightarrow> Some (CMD_SYNTAX_ERROR, past)
          | Some [AInt panel] \<Rightarrow> istage_once ans (istage_call c panel n) past
          | Some _ \<Rightarrow> None }"

definition istage2_get_state_panel :: "rw_devices \<Rightarrow> string \<Rightarrow> char list option \<Rightarrow> int \<Rightarrow> rw_call list \<Rightarrow> rw_result" where
  "istage2_get_state_panel = istage_param IS2_READ_SW_FACE 1"

definition istage2_deploy_panel :: "rw_devices \<Rightarrow> string \<Rightarrow> char list option \<Rightarrow> int \<Rightarrow> rw_call list \<Rightarrow> rw_result" where
  "istage2_deploy_panel = istage_param IS2_BURN_FACE 0"

definition istage2_set_deploy :: "rw_devices \<Rightarrow> string \<Rightarrow> char list option \<Rightarrow> int \<Rightarrow> rw_call list \<Rightarrow> rw_result" where
  "istage2_set_deploy = istage_param IS2_SET_BURN 0"

definition istage2_get_sensors_status :: "rw_devices \<Rightarrow> rw_call list \<Rightarrow> rw_result" where
  "istage2_get_sensors_status ans = istage_once ans (istage_call IS2_SENSORS_TEMP_STATUS 0 1)"

section \<open>What the commands ask of the board\<close>

text \<open>The temperature sensors are left running exactly when the start succeeded and the reading failed.\<close>

lemma get_temp_stops:
  assumes "istage2_get_temp ans [] = Some (rc, cs)"
  shows "istage_call IS2_STOP_SENSORS_TEMP 0 0 \<in> set cs \<longleftrightarrow>
     ans [] (istage_call IS2_START_SENSORS_TEMP 0 1) = 0 \<and> ans [istage_call IS2_START_SENSORS_TEMP 0 1] (istage_call IS2_GET_TEMP 0 16) = 0"
  using assms by (auto simp: istage2_get_temp_def Let_def istage_call_def split: if_splits)

text \<open>A face is burnt only by the command that deploys it, once, and for the number it was given, cut to a byte.\<close>

lemma burn_only_on_deploy:
  assumes "istage_param c n ans fmt params nparams past = Some (rc, cs)" "Transaction [istage_code IS2_BURN_FACE, face] k \<in> set cs"
    "Transaction [istage_code IS2_BURN_FACE, face] k \<notin> set past"
  shows "c = IS2_BURN_FACE \<and> (\<exists>panel. parse_params 0 fmt params nparams = Some (Some [AInt panel]) \<and> face = word_of_int panel)"
  using assms
  by (cases c) (auto simp: istage_param_def istage_once_def istage_call_def split: Option.bind_splits option.splits list.splits scan_arg.splits)

end
