(* ===== verification/Igrf.thy ===== *)
theory Igrf
  imports Math_Utils
begin

text \<open>
  The geomagnetic field model, src/lib/igrf/igrf13.c, for any arithmetic of doubles. The static variables are the record \<open>geomag\<close>; the
  values for the given date and those for one year later (\<^verbatim>\<open>x\<close> and \<^verbatim>\<open>xtemp\<close>, ...) are its two fields \<open>cur\<close> and \<open>temp\<close>, and the argument \<open>gh\<close> of
  the functions says, as in the code, which of them is meant: 3 or 4. Every local array is a list of options: \<open>None\<close> is an element that
  was not written yet, and reading it is undefined. Messages on the terminal are left out.

  \<^verbatim>\<open>read_model\<close> and \<^verbatim>\<open>getshc\<close>, which read the coefficients from a file, are not modelled: the first is called only if the flag
  \<^verbatim>\<open>first_flg\<close> is set, which nothing does, and is an argument of \<open>IgrfCalc\<close>; the second is not called.
\<close>

section \<open>State\<close>

record 'a elements =
  e_x :: 'a
  e_y :: 'a
  e_z :: 'a
  e_d :: 'a
  e_f :: 'a
  e_h :: 'a
  e_i :: 'a

record 'a geomag =
  gh1 :: "'a list"
  gh2 :: "'a list"
  gha :: "'a list"
  ghb :: "'a list"
  cur :: "'a elements"
  temp :: "'a elements"
  warn_H :: int
  warn_H_strong :: int
  warn_P :: int
  modelI :: int
  max1 :: "int list"
  max2 :: "int list"
  max3 :: "int list"
  nmax :: int
  igdgc :: int
  epoch :: "'a list"
  yrmin :: "'a list"
  yrmax :: "'a list"
  minyr :: 'a
  maxyr :: 'a
  altmin :: "'a list"
  altmax :: "'a list"
  minalt :: 'a
  maxalt :: 'a
  alt :: 'a
  sdate :: 'a
  latitude :: 'a
  longitude :: 'a
  ddot :: 'a
  fdot :: 'a
  hdot :: 'a
  idot :: 'a
  xdot :: 'a
  ydot :: 'a
  zdot :: 'a
  warn_H_val :: 'a
  warn_H_strong_val :: 'a
  gccolat :: 'a
  first_flg :: int

definition MAXDEG :: nat where "MAXDEG = 13"
definition MAXCOEFF :: nat where "MAXCOEFF = MAXDEG * (MAXDEG + 2) + 1"
definition MAXMOD :: nat where "MAXMOD = 30"

text \<open>The coefficients of the model of 2020 and their change per year, in hundredths; what the initialiser leaves out is 0.\<close>

definition gh1_init :: "int list" where
  "gh1_init = [
    0, - 2940480, - 145090, 465250, - 249960, 298200, - 299160, 167700, - 73460, 136320, - 238120, - 8210, 123620, 24190, 52570, - 54340,
    90300, 80950, 28190, 8630, - 15840, - 30940, 19970, 4800, - 34970, - 23430, 36320, 4770, 18780, 20830, - 14070, - 12120, - 15120, 3230,
    1350, 9890, 6600, 6550, - 1910, 7290, 2510, - 12150, 5280, - 3620, - 6450, 1350, 890, - 6470, 6810, 8060, - 7670, - 5150, - 820,
    - 1690, 5650, 220, 1580, 2350, 640, - 220, - 720, - 2720, 980, - 180, 2370, 970, 840, - 1760, - 1530, - 50, 1280, - 2110, - 1170, 1530,
    1490, 1370, 360, - 1650, - 690, - 30, 280, 500, 840, - 2340, 290, 1100, - 150, 980, - 110, - 510, - 1320, - 630, 110, 780, 880, 40,
    - 930, - 140, - 1190, 960, - 190, - 620, 340, - 10, - 20, 170, 360, - 90, 480, 70, - 860, - 90, - 10, 190, - 430, 140, - 340, - 240,
    - 10, - 380, - 880, 300, - 140, 0, - 250, 250, 230, - 60, - 90, - 40, 30, 60, - 70, - 20, - 10, - 170, 140, - 160, - 60, - 300, 20,
    - 200, 310, - 260, - 200, - 10, - 120, 50, 50, 130, 140, - 120, - 180, 70, 10, 30, 80, 50, - 20, - 30, 60, - 50, 20, 10, - 90, - 110,
    0, - 30, 50, 10, - 90, - 90, 50, 60, 70, 140, - 30, - 40, 80, - 130, 0, - 10, 80, 30, 0, - 10, 40, 50, 10, 50, 50, - 40, - 50, - 40,
    - 40, - 60]"

definition gh2_init :: "int list" where
  "gh2_init = [
    0, 570, 740, - 2590, - 1100, - 700, - 3020, - 210, - 2240, 220, - 590, 600, 310, - 110, - 1200, 50, - 120, - 160, - 10, - 590, 650,
    520, 360, - 510, - 500, - 30, 50, 0, - 60, 250, 20, - 60, 130, 300, 90, 30, - 50, - 30, 0, 40, - 160, 130, - 130, - 140, 80, 0, 0, 90,
    100, - 10, - 20, 60, 0, 60, 70, - 80, 10, - 20, - 50, - 110, - 80, 10, 80, 30, 0, 10, - 20, - 10, 60, 40, - 20, - 10, 50, 40, - 30, 30,
    - 40, - 10, 50, 40]"

definition coeffs :: "'a libm \<Rightarrow> int list \<Rightarrow> 'a list" where
  "coeffs m xs = map (\<lambda>n. lit m (of_int n / 100)) xs @ replicate (MAXCOEFF - length xs) (lit m 0)"

abbreviation zero_elements :: "'a libm \<Rightarrow> 'a elements" where
  "zero_elements m \<equiv> \<lparr>e_x = lit m 0, e_y = lit m 0, e_z = lit m 0, e_d = lit m 0, e_f = lit m 0, e_h = lit m 0, e_i = lit m 0\<rparr>"

definition geomag_init :: "'a::uminus libm \<Rightarrow> 'a geomag" where
  "geomag_init m =
     \<lparr>gh1 = coeffs m gh1_init, gh2 = coeffs m gh2_init, gha = replicate MAXCOEFF (lit m 0), ghb = replicate MAXCOEFF (lit m 0),
      cur = zero_elements m, temp = zero_elements m, warn_H = 0, warn_H_strong = 0, warn_P = 0, modelI = 0,
      max1 = replicate MAXMOD 0, max2 = replicate MAXMOD 0, max3 = replicate MAXMOD 0, nmax = 0, igdgc = 3,
      epoch = replicate MAXMOD (lit m 0), yrmin = replicate MAXMOD (lit m 0), yrmax = replicate MAXMOD (lit m 0), minyr = lit m 0,
      maxyr = lit m 0, altmin = replicate MAXMOD (lit m 0), altmax = replicate MAXMOD (lit m 0), minalt = lit m 0, maxalt = lit m 0,
      alt = - lit m 999999, sdate = - lit m 1, latitude = lit m 200, longitude = lit m 200, ddot = lit m 0, fdot = lit m 0,
      hdot = lit m 0, idot = lit m 0, xdot = lit m 0, ydot = lit m 0, zdot = lit m 0, warn_H_val = lit m 0,
      warn_H_strong_val = lit m 0, gccolat = lit m 0, first_flg = 0\<rparr>"

text \<open>The variables a \<^verbatim>\<open>switch(gh)\<close> chooses.\<close>

definition on_gh :: "int \<Rightarrow> ('a list \<Rightarrow> 'a list option) \<Rightarrow> 'a geomag \<Rightarrow> 'a geomag option" where
  "on_gh gh f st =
     (if gh = 3 then do { a \<leftarrow> f (gha st); Some (st\<lparr>gha := a\<rparr>) }
      else if gh = 4 then do { a \<leftarrow> f (ghb st); Some (st\<lparr>ghb := a\<rparr>) }
      else Some st)"

definition on_el :: "int \<Rightarrow> ('a elements \<Rightarrow> 'a elements) \<Rightarrow> 'a geomag \<Rightarrow> 'a geomag" where
  "on_el gh f st =
     (if gh = 3 then st\<lparr>cur := f (cur st)\<rparr> else if gh = 4 then st\<lparr>temp := f (temp st)\<rparr> else st)"

section \<open>Constants and small functions\<close>

definition my_isnan :: "'a libm \<Rightarrow> 'a \<Rightarrow> bool" where
  "my_isnan m d \<longleftrightarrow> \<not> feq m d d"

abbreviation NaN :: "'a::uminus libm \<Rightarrow> 'a" where "NaN m \<equiv> flog m (- lit m 1)"
abbreviation PI :: "'a libm \<Rightarrow> 'a" where "PI m \<equiv> lit m (3141592654 / 10 ^ 9)"
abbreviation DEG2RAD :: "'a libm \<Rightarrow> 'a" where "DEG2RAD m \<equiv> lit m (17453292519943295769236907684886 / 10 ^ 33)"
abbreviation RAD2DEG :: "'a::inverse libm \<Rightarrow> 'a" where "RAD2DEG m \<equiv> lit m 180 / PI m"

text \<open>An \<^verbatim>\<open>int\<close> converted to a \<^verbatim>\<open>double\<close>.\<close>

abbreviation num :: "'a libm \<Rightarrow> int \<Rightarrow> 'a" where "num m n \<equiv> lit m (of_int n)"

definition RotationZ :: "'a::{plus, minus, times} libm \<Rightarrow> 'a vector3 \<Rightarrow> 'a \<Rightarrow> 'a vector3" where
  "RotationZ m bfr theta =
     \<lparr>v0 = fcos m theta * v0 bfr - fsin m theta * v1 bfr, v1 = fsin m theta * v0 bfr + fcos m theta * v1 bfr, v2 = v2 bfr\<rparr>"

definition RotationY :: "'a::{plus, uminus, times} libm \<Rightarrow> 'a vector3 \<Rightarrow> 'a \<Rightarrow> 'a vector3" where
  "RotationY m bfr theta =
     \<lparr>v0 = fcos m theta * v0 bfr + fsin m theta * v2 bfr, v1 = v1 bfr,
      v2 = - fsin m theta * v0 bfr + fcos m theta * v2 bfr\<rparr>"

definition RotationX :: "'a::{plus, uminus, times} libm \<Rightarrow> 'a vector3 \<Rightarrow> 'a \<Rightarrow> 'a vector3" where
  "RotationX m bfr theta =
     \<lparr>v0 = v0 bfr, v1 = fcos m theta * v1 bfr + fsin m theta * v2 bfr,
      v2 = - fsin m theta * v1 bfr + fcos m theta * v2 bfr\<rparr>"

definition TransMagaxisToECI ::
    "'a::{plus, minus, uminus, times} libm \<Rightarrow> 'a vector3 \<Rightarrow> 'a \<Rightarrow> 'a \<Rightarrow> 'a \<Rightarrow> 'a vector3" where
  "TransMagaxisToECI m mag_ned lonrad thetarad gmst =
     (let temp1 = RotationY m mag_ned (num m (- 1) * (num m 180 * DEG2RAD m - thetarad));
          temp2 = RotationZ m temp1 lonrad
      in RotationZ m temp2 gmst)"

definition degrees_to_decimal ::
    "'a::{plus, uminus, inverse, ord} libm \<Rightarrow> int \<Rightarrow> int \<Rightarrow> int \<Rightarrow> 'a" where
  "degrees_to_decimal m degrees minutes seconds =
     (let deg = num m degrees; min = num m minutes / lit m 60; sec = num m seconds / lit m 3600;
          decimal = ffabs m sec + ffabs m min + ffabs m deg
      in if deg < lit m 0 then - decimal
         else if feq m deg (lit m 0) then
           (if min < lit m 0 then - decimal
            else if feq m min (lit m 0) then (if sec < lit m 0 then - decimal else decimal)
            else decimal)
         else decimal)"

section \<open>Coefficients for a date\<close>

text \<open>\<^verbatim>\<open>for(ii = k+1; ii <= l; ++ii) a[ii] = f(ii)\<close>.\<close>

definition fill_range :: "int \<Rightarrow> int \<Rightarrow> (int \<Rightarrow> 'a option) \<Rightarrow> 'a list \<Rightarrow> 'a list option" where
  "fill_range k l f a = for_upto (nat (l - k)) (\<lambda>i a. do { v \<leftarrow> f (k + 1 + int i); arr_set a (k + 1 + int i) v }) a"

text \<open>\<^verbatim>\<open>n * (n + 2)\<close>, the number of coefficients up to degree \<open>n\<close>.\<close>

definition sh_count :: "int \<Rightarrow> int option" where
  "sh_count n = do { t \<leftarrow> cint (n + 2); cint (n * t) }"

definition extrapsh ::
    "'a::{plus, minus, times} \<Rightarrow> 'a \<Rightarrow> int \<Rightarrow> int \<Rightarrow> int \<Rightarrow> 'a geomag \<Rightarrow> (int \<times> 'a geomag) option" where
  "extrapsh date dte1 nmax1 nmax2 gh st =
     (let factor = date - dte1 in
      do { (k, nmax, st1) \<leftarrow>
             (if nmax1 = nmax2 then do { k \<leftarrow> sh_count nmax1; Some (k, nmax1, st) }
              else if nmax1 > nmax2 then
                do { k \<leftarrow> sh_count nmax2;
                     l \<leftarrow> sh_count nmax1;
                     st1 \<leftarrow> on_gh gh (fill_range k l (\<lambda>ii. arr_get (gh1 st) ii)) st;
                     Some (k, nmax1, st1) }
              else
                do { k \<leftarrow> sh_count nmax1;
                     l \<leftarrow> sh_count nmax2;
                     st1 \<leftarrow> on_gh gh (fill_range k l (\<lambda>ii. do { b \<leftarrow> arr_get (gh2 st) ii; Some (factor * b) })) st;
                     Some (k, nmax2, st1) });
           st2 \<leftarrow> on_gh gh (fill_range 0 k (\<lambda>ii. do { a \<leftarrow> arr_get (gh1 st) ii; b \<leftarrow> arr_get (gh2 st) ii;
                                                  Some (a + factor * b) })) st1;
           Some (nmax, st2) })"

definition interpsh ::
    "'a::{plus, minus, uminus, times, inverse} \<Rightarrow> 'a \<Rightarrow> int \<Rightarrow> 'a \<Rightarrow> int \<Rightarrow> int \<Rightarrow> 'a geomag \<Rightarrow> (int \<times> 'a geomag) option" where
  "interpsh date dte1 nmax1 dte2 nmax2 gh st =
     (let factor = (date - dte1) / (dte2 - dte1) in
      do { (k, nmax, st1) \<leftarrow>
             (if nmax1 = nmax2 then do { k \<leftarrow> sh_count nmax1; Some (k, nmax1, st) }
              else if nmax1 > nmax2 then
                do { k \<leftarrow> sh_count nmax2;
                     l \<leftarrow> sh_count nmax1;
                     st1 \<leftarrow> on_gh gh (fill_range k l (\<lambda>ii. do { a \<leftarrow> arr_get (gh1 st) ii; Some (a + factor * (- a)) })) st;
                     Some (k, nmax1, st1) }
              else
                do { k \<leftarrow> sh_count nmax1;
                     l \<leftarrow> sh_count nmax2;
                     st1 \<leftarrow> on_gh gh (fill_range k l (\<lambda>ii. do { b \<leftarrow> arr_get (gh2 st) ii; Some (factor * b) })) st;
                     Some (k, nmax2, st1) });
           st2 \<leftarrow> on_gh gh (fill_range 0 k (\<lambda>ii. do { a \<leftarrow> arr_get (gh1 st) ii; b \<leftarrow> arr_get (gh2 st) ii;
                                                  Some (a + factor * (b - a)) })) st1;
           Some (nmax, st2) })"

section \<open>The field at a point\<close>

text \<open>The local variables of the loop of \<^verbatim>\<open>shval3\<close>.\<close>

record 'a shv =
  sv_p :: "'a option list"
  sv_q :: "'a option list"
  sv_sl :: "'a option list"
  sv_cl :: "'a option list"
  sv_l :: int
  sv_n :: int
  sv_m :: int
  sv_rr :: "'a option"
  sv_fn :: "'a option"

definition rd :: "'a option list \<Rightarrow> int \<Rightarrow> 'a option" where
  "rd a j = do { v \<leftarrow> arr_get a j; v }"

definition wr :: "'a option list \<Rightarrow> int \<Rightarrow> 'a \<Rightarrow> 'a option list option" where
  "wr a j v = arr_set a j (Some v)"

text \<open>The next row of the triangle, when the last one is complete.\<close>

definition sh_row :: "'a libm \<Rightarrow> 'a \<Rightarrow> 'a shv \<Rightarrow> 'a shv" where
  "sh_row m ratio s =
     (if sv_n s < sv_m s then
        (let n = sv_n s + 1
         in s\<lparr>sv_m := 0, sv_n := n, sv_rr := Some (fpow m ratio (num m (n + 2))), sv_fn := Some (num m n)\<rparr>)
      else s)"

text \<open>The Legendre function and its derivative from those of the rows before.\<close>

definition sh_legendre ::
    "'a::{plus, minus, times, inverse} libm \<Rightarrow> 'a \<Rightarrow> 'a \<Rightarrow> int \<Rightarrow> 'a shv \<Rightarrow> 'a shv option" where
  "sh_legendre m slat clat k s =
     (let fm = num m (sv_m s) in
      if k \<ge> 5 then
        (if sv_m s = sv_n s then
           (let aa = fsqrt m (lit m 1 - lit m (1 / 2) / fm); j = k - sv_n s - 1 in
            do { pj \<leftarrow> rd (sv_p s) j;
                 p \<leftarrow> wr (sv_p s) k ((lit m 1 + lit m 1 / fm) * aa * clat * pj);
                 qj \<leftarrow> rd (sv_q s) j;
                 pj \<leftarrow> rd p j;
                 q \<leftarrow> wr (sv_q s) k (aa * (clat * qj + slat / fm * pj));
                 s0 \<leftarrow> rd (sv_sl s) (sv_m s - 1);
                 c1 \<leftarrow> rd (sv_cl s) 1;
                 c0 \<leftarrow> rd (sv_cl s) (sv_m s - 1);
                 s1 \<leftarrow> rd (sv_sl s) 1;
                 sl \<leftarrow> wr (sv_sl s) (sv_m s) (s0 * c1 + c0 * s1);
                 s0 \<leftarrow> rd sl (sv_m s - 1);
                 s1 \<leftarrow> rd sl 1;
                 cl \<leftarrow> wr (sv_cl s) (sv_m s) (c0 * c1 - s0 * s1);
                 Some (s\<lparr>sv_p := p, sv_q := q, sv_sl := sl, sv_cl := cl\<rparr>) })
         else
           do { fn \<leftarrow> sv_fn s;
                let aa = fsqrt m (fn * fn - fm * fm);
                let bb = fsqrt m ((fn - lit m 1) * (fn - lit m 1) - fm * fm) / aa;
                let cc = (lit m 2 * fn - lit m 1) / aa;
                let ii = k - sv_n s;
                let j = k - 2 * sv_n s + 1;
                pii \<leftarrow> rd (sv_p s) ii;
                pj \<leftarrow> rd (sv_p s) j;
                p \<leftarrow> wr (sv_p s) k ((fn + lit m 1) * (cc * slat / fn * pii - bb / (fn - lit m 1) * pj));
                qii \<leftarrow> rd (sv_q s) ii;
                pii \<leftarrow> rd p ii;
                qj \<leftarrow> rd (sv_q s) j;
                q \<leftarrow> wr (sv_q s) k (cc * (slat * qii - clat / fn * pii) - bb * qj);
                Some (s\<lparr>sv_p := p, sv_q := q\<rparr>) })
      else Some s)"

text \<open>The term of degree \<^verbatim>\<open>n\<close> and order \<^verbatim>\<open>m\<close>, added to the components.\<close>

definition sh_add ::
    "'a::{plus, minus, times, inverse, ord} libm \<Rightarrow> int \<Rightarrow> 'a \<Rightarrow> 'a \<Rightarrow> int \<Rightarrow> 'a geomag \<times> 'a shv \<Rightarrow> ('a geomag \<times> 'a shv) option" where
  "sh_add m gh slat clat k = (\<lambda>(st, s).
     let fm = num m (sv_m s); g = (if gh = 3 then gha st else ghb st) in
     if gh \<noteq> 3 \<and> gh \<noteq> 4 then Some (st, if sv_m s = 0 then s\<lparr>sv_l := sv_l s + 1\<rparr> else s)
     else
       do { rr \<leftarrow> sv_rr s;
            a \<leftarrow> arr_get g (sv_l s);
            let aa = rr * a;
            if sv_m s = 0 then
              do { q \<leftarrow> rd (sv_q s) k;
                   p \<leftarrow> rd (sv_p s) k;
                   Some (on_el gh (\<lambda>e. e\<lparr>e_x := e_x e + aa * q, e_z := e_z e - aa * p\<rparr>) st, s\<lparr>sv_l := sv_l s + 1\<rparr>) }
            else
              do { b \<leftarrow> arr_get g (sv_l s + 1);
                   let bb = rr * b;
                   c \<leftarrow> rd (sv_cl s) (sv_m s);
                   sn \<leftarrow> rd (sv_sl s) (sv_m s);
                   let cc = aa * c + bb * sn;
                   q \<leftarrow> rd (sv_q s) k;
                   p \<leftarrow> rd (sv_p s) k;
                   fn \<leftarrow> sv_fn s;
                   let dy = (if clat > lit m 0 then (aa * sn - bb * c) * fm * p / ((fn + lit m 1) * clat)
                             else (aa * sn - bb * c) * q * slat);
                   Some (on_el gh (\<lambda>e. e\<lparr>e_x := e_x e + cc * q, e_z := e_z e - cc * p, e_y := e_y e + dy\<rparr>) st,
                         s\<lparr>sv_l := sv_l s + 2\<rparr>) } })"

definition sh_step ::
    "'a::{plus, minus, times, inverse, ord} libm \<Rightarrow> int \<Rightarrow> 'a \<Rightarrow> 'a \<Rightarrow> 'a \<Rightarrow> int \<Rightarrow> 'a geomag \<times> 'a shv \<Rightarrow> ('a geomag \<times> 'a shv) option" where
  "sh_step m gh ratio slat clat k = (\<lambda>(st, s).
     do { s1 \<leftarrow> sh_legendre m slat clat k (sh_row m ratio s);
          (st2, s2) \<leftarrow> sh_add m gh slat clat k (st, s1);
          Some (st2, s2\<lparr>sv_m := sv_m s2 + 1\<rparr>) })"

text \<open>From geodetic to geocentric coordinates: radius, cosine and sine of the angle between the verticals, sine and cosine of the latitude.\<close>

definition sh_geodetic ::
    "'a::{plus, minus, times, inverse} libm \<Rightarrow> 'a \<Rightarrow> 'a \<Rightarrow> 'a \<Rightarrow> 'a \<times> 'a \<times> 'a \<times> 'a \<times> 'a" where
  "sh_geodetic m elev slat clat =
     (let a2 = lit m (4068063159 / 100); b2 = lit m (4040829998 / 100);
          aa = a2 * clat * clat;
          bb = b2 * slat * slat;
          cc = aa + bb;
          dd = fsqrt m cc;
          r = fsqrt m (elev * (elev + lit m 2 * dd) + (a2 * aa + b2 * bb) / cc);
          cd = (elev + dd) / r;
          sd = (a2 - b2) / dd * slat * clat / r
      in (r, cd, sd, slat * cd - clat * sd, clat * cd + slat * sd))"

text \<open>The first four elements and the local arrays before the loop.\<close>

definition sh_start :: "'a::{minus, uminus, times} libm \<Rightarrow> 'a \<Rightarrow> 'a \<Rightarrow> 'a \<Rightarrow> 'a \<Rightarrow> 'a shv" where
  "sh_start m s1 c1 slat clat =
     (let aa = fsqrt m (lit m 3)
      in \<lparr>sv_p = (replicate 119 None)[1 := Some (lit m 2 * slat), 2 := Some (lit m 2 * clat),
              3 := Some (lit m (9 / 2) * slat * slat - lit m (3 / 2)), 4 := Some (lit m 3 * aa * clat * slat)],
          sv_q = (replicate 119 None)[1 := Some (- clat), 2 := Some slat, 3 := Some (- lit m 3 * clat * slat),
              4 := Some (aa * (slat * slat - clat * clat))],
          sv_sl = (replicate 14 None)[1 := Some s1],
          sv_cl = (replicate 14 None)[1 := Some c1],
          sv_l = 1, sv_n = 0, sv_m = 1, sv_rr = None, sv_fn = None\<rparr>)"

text \<open>The elements outside the sum (\<^verbatim>\<open>iext\<close>) and the turn back to geodetic axes.\<close>

definition sh_external :: "'a::{plus, minus, times} \<Rightarrow> 'a \<Rightarrow> 'a \<Rightarrow> 'a \<Rightarrow> 'a \<Rightarrow> 'a \<Rightarrow> 'a \<Rightarrow> 'a elements \<Rightarrow> 'a elements" where
  "sh_external ext1 ext2 ext3 s1 c1 slat clat e =
     (let aa = ext2 * c1 + ext3 * s1
      in e\<lparr>e_x := e_x e - ext1 * clat + aa * slat, e_y := e_y e + ext2 * s1 - ext3 * c1,
           e_z := e_z e + ext1 * slat + aa * clat\<rparr>)"

definition sh_turn :: "'a::{plus, minus, times} \<Rightarrow> 'a \<Rightarrow> 'a elements \<Rightarrow> 'a elements" where
  "sh_turn cd sd e = e\<lparr>e_x := e_x e * cd + e_z e * sd, e_z := e_z e * cd - e_x e * sd\<rparr>"

definition shval3 ::
    "'a::{plus, minus, uminus, times, inverse, ord} libm \<Rightarrow> int \<Rightarrow> 'a \<Rightarrow> 'a \<Rightarrow> 'a \<Rightarrow> int \<Rightarrow> int \<Rightarrow> int \<Rightarrow> 'a \<Rightarrow> 'a \<Rightarrow> 'a
       \<Rightarrow> 'a geomag \<Rightarrow> (int \<times> 'a geomag) option" where
  "shval3 m gdgc flat flon elev deg gh iext ext1 ext2 ext3 st =
     (let dtr = lit m (1745329 / 10 ^ 8);
          slat0 = fsin m (flat * dtr);
          aa = (if lit m 90 - flat < lit m (1 / 1000) then lit m (89999 / 1000)
                else if lit m 90 + flat < lit m (1 / 1000) then - lit m (89999 / 1000) else flat);
          clat0 = fcos m (aa * dtr);
          s1 = fsin m (flon * dtr);
          c1 = fcos m (flon * dtr);
          st1 = on_el gh (\<lambda>e. e\<lparr>e_x := lit m 0, e_y := lit m 0, e_z := lit m 0\<rparr>) st;
          (r, cd, sd, slat, clat) =
            (if gdgc = 1 then sh_geodetic m elev slat0 clat0 else (elev, lit m 1, lit m 0, slat0, clat0));
          st2 = (if gdgc = 1 then st1\<lparr>gccolat := fatan2 m clat slat\<rparr> else st1);
          ratio = lit m (63712 / 10) / r in
      do { t \<leftarrow> cint (deg + 3);
           u \<leftarrow> cint (deg * t);
           npq \<leftarrow> cdiv u 2;
           (st3, _) \<leftarrow> for_upto (nat npq) (\<lambda>i. sh_step m gh ratio slat clat (int i + 1)) (st2, sh_start m s1 c1 slat clat);
           let st4 = (if iext \<noteq> 0 then on_el gh (sh_external ext1 ext2 ext3 s1 c1 slat clat) st3 else st3);
           Some (0, on_el gh (sh_turn cd sd) st4) })"

section \<open>Declination, inclination and intensity\<close>

definition dihf_el :: "'a::{plus, times, uminus, ord} libm \<Rightarrow> 'a elements \<Rightarrow> 'a elements" where
  "dihf_el m e =
     (let sn = lit m (1 / 10000);
          h2 = e_x e * e_x e + e_y e * e_y e;
          h = fsqrt m h2;
          f = fsqrt m (h2 + e_z e * e_z e);
          e1 = e\<lparr>e_h := h, e_f := f\<rparr>
      in if f < sn then e1\<lparr>e_d := NaN m, e_i := NaN m\<rparr>
         else
           (let e2 = e1\<lparr>e_i := fatan2 m (e_z e) h\<rparr>
            in if h < sn then e2\<lparr>e_d := NaN m\<rparr>
               else (let hpx = h + e_x e
                     in if hpx < sn then e2\<lparr>e_d := PI m\<rparr> else e2\<lparr>e_d := lit m 2 * fatan2 m (e_y e) hpx\<rparr>)))"

definition dihf :: "'a::{plus, times, uminus, ord} libm \<Rightarrow> int \<Rightarrow> 'a geomag \<Rightarrow> int \<times> 'a geomag" where
  "dihf m gh st = (gh, on_el gh (dihf_el m) st)"

section \<open>The model for a date and a place\<close>

definition calc_rates :: "'a::{plus, minus, uminus, times, inverse, ord} libm \<Rightarrow> 'a geomag \<Rightarrow> 'a geomag" where
  "calc_rates m st =
     (let d0 = (e_d (temp st) - e_d (cur st)) * RAD2DEG m;
          d1 = (if d0 > lit m 180 then d0 - lit m 360 else d0);
          d2 = (if d1 \<le> - lit m 180 then d1 + lit m 360 else d1)
      in st\<lparr>ddot := d2 * lit m 60,
            idot := (e_i (temp st) - e_i (cur st)) * RAD2DEG m * num m 60,
            hdot := e_h (temp st) - e_h (cur st), xdot := e_x (temp st) - e_x (cur st),
            ydot := e_y (temp st) - e_y (cur st), zdot := e_z (temp st) - e_z (cur st),
            fdot := e_f (temp st) - e_f (cur st),
            cur := (cur st)\<lparr>e_d := e_d (cur st) * RAD2DEG m, e_i := e_i (cur st) * RAD2DEG m\<rparr>\<rparr>)"

definition calc_poles :: "'a::{minus, uminus, ord} libm \<Rightarrow> 'a geomag \<Rightarrow> 'a geomag" where
  "calc_poles m st =
     (let h = e_h (cur st);
          st1 = (if h < lit m 100 then st\<lparr>cur := (cur st)\<lparr>e_d := NaN m\<rparr>, ddot := NaN m\<rparr> else st);
          st2 = (if h < lit m 1000 then
                   st1\<lparr>warn_H := 0, warn_H_strong := 1,
                       warn_H_strong_val := (if h < warn_H_strong_val st1 then h else warn_H_strong_val st1)\<rparr>
                 else if h < lit m 5000 \<and> warn_H_strong st1 = 0 then
                   st1\<lparr>warn_H := 1, warn_H_val := (if h < warn_H_val st1 then h else warn_H_val st1)\<rparr>
                 else st1)
      in if lit m 90 - ffabs m (latitude st2) \<le> lit m (1 / 1000) then
           st2\<lparr>cur := (cur st2)\<lparr>e_x := NaN m, e_y := NaN m, e_d := NaN m\<rparr>, xdot := NaN m, ydot := NaN m, ddot := NaN m,
               warn_P := 1, warn_H := 0, warn_H_strong := 0\<rparr>
         else st2)"

definition calc_mag_coords ::
    "'a::{plus, minus, uminus, times, inverse, ord} libm \<Rightarrow> 'a geomag \<Rightarrow> 'a geomag option" where
  "calc_mag_coords m st =
     do { lo \<leftarrow> arr_get (altmin st) (modelI st);
          hi \<leftarrow> arr_get (altmax st) (modelI st);
          let st1 = st\<lparr>igdgc := 1, minalt := lo * lit m 1000, maxalt := hi * lit m 1000, alt := alt st * lit m (1 / 1000)\<rparr>;
          n1 \<leftarrow> arr_get (max1 st1) (modelI st1);
          n2 \<leftarrow> arr_get (max2 st1) (modelI st1);
          st3 \<leftarrow>
            (if n2 = 0 then
               do { y1 \<leftarrow> arr_get (yrmin st1) (modelI st1);
                    y2 \<leftarrow> arr_get (yrmin st1) (modelI st1 + 1);
                    n3 \<leftarrow> arr_get (max1 st1) (modelI st1 + 1);
                    (_, st2) \<leftarrow> interpsh (sdate st1) y1 n1 y2 n3 3 st1;
                    (nm, st3) \<leftarrow> interpsh (sdate st2 + num m 1) y1 n1 y2 n3 4 st2;
                    Some (st3\<lparr>nmax := nm\<rparr>) }
             else
               do { ep \<leftarrow> arr_get (epoch st1) (modelI st1);
                    (_, st2) \<leftarrow> extrapsh (sdate st1) ep n1 n2 3 st1;
                    (nm, st3) \<leftarrow> extrapsh (sdate st2 + num m 1) ep n1 n2 4 st2;
                    Some (st3\<lparr>nmax := nm\<rparr>) });
          (_, st4) \<leftarrow> shval3 m (igdgc st3) (latitude st3) (longitude st3) (alt st3) (nmax st3) 3 0 (lit m 0) (lit m 0) (lit m 0) st3;
          let st5 = snd (dihf m 3 st4);
          (_, st6) \<leftarrow> shval3 m (igdgc st5) (latitude st5) (longitude st5) (alt st5) (nmax st5) 4 0 (lit m 0) (lit m 0) (lit m 0) st5;
          let st7 = snd (dihf m 4 st6);
          Some (calc_poles m (calc_rates m st7)) }"

definition IgrfCalc ::
    "'a::{plus, minus, uminus, times, inverse, ord} libm \<Rightarrow> ('a geomag \<Rightarrow> 'a geomag option) \<Rightarrow>
       'a \<Rightarrow> 'a \<Rightarrow> 'a \<Rightarrow> 'a \<Rightarrow> 'a \<Rightarrow> 'a geomag \<Rightarrow> ('a vector3 \<times> 'a geomag) option" where
  "IgrfCalc m read_model decyear latrad lonrad altm side st =
     do { let st1 = st\<lparr>sdate := decyear, alt := altm, latitude := latrad * RAD2DEG m, longitude := lonrad * RAD2DEG m\<rparr>;
          st2 \<leftarrow>
            (if first_flg st1 \<noteq> 0 then do { s \<leftarrow> read_model st1; Some (s\<lparr>first_flg := 0\<rparr>) }
             else
               do { ymin \<leftarrow> arr_set (yrmin st1) 0 (num m 2020);
                    ymax \<leftarrow> arr_set (yrmax st1) 0 (num m 2025);
                    ep \<leftarrow> arr_set (epoch st1) 0 (num m 2020);
                    x1 \<leftarrow> arr_set (max1 st1) 0 13;
                    x2 \<leftarrow> arr_set (max2 st1) 0 8;
                    x3 \<leftarrow> arr_set (max3 st1) 0 0;
                    lo \<leftarrow> arr_set (altmin st1) 0 (num m (- 1));
                    hi \<leftarrow> arr_set (altmax st1) 0 (num m 600);
                    Some (st1\<lparr>yrmin := ymin, modelI := 0, minyr := num m 2020, maxyr := num m 2025, yrmax := ymax, epoch := ep,
                              max1 := x1, max2 := x2, max3 := x3, altmin := lo, altmax := hi\<rparr>) });
          st3 \<leftarrow> calc_mag_coords m st2;
          let mag_ned = \<lparr>v0 = e_x (cur st3), v1 = e_y (cur st3), v2 = e_z (cur st3)\<rparr>;
          Some (TransMagaxisToECI m mag_ned lonrad (gccolat st3) side, st3) }"

end
