(* ===== verification/Igrf_Laws.thy ===== *)
theory Igrf_Laws
  imports Igrf Math_Filter
begin

text \<open>
  What the loop of \<^verbatim>\<open>shval3\<close> computes, for any arithmetic: the linear index of the code runs through a triangle of degrees and orders, the local
  arrays hold the values of two recurrences over it, and every element is written before it is read. The functions around the loop stay inside
  their arrays too.
\<close>

section \<open>The triangle\<close>

text \<open>Degree and order of the element with a given index.\<close>

fun deg_ord :: "nat \<Rightarrow> nat \<times> nat" where
  "deg_ord 0 = (0, 0)"
| "deg_ord (Suc k) = (let (n, j) = deg_ord k in if j = n then (Suc n, 0) else (n, Suc j))"

fun tri :: "nat \<Rightarrow> nat" where
  "tri 0 = 0"
| "tri (Suc n) = tri n + n + 1"

lemma tri_closed: "2 * (tri n + n) = n * (n + 3)"
  by (induction n) (simp_all add: algebra_simps)

lemma deg_ord_index: "deg_ord k = (n, j) \<Longrightarrow> k = tri n + j \<and> j \<le> n"
proof (induction k arbitrary: n j)
  case (Suc k)
  obtain n' j' where d: "deg_ord k = (n', j')" by force
  from Suc.IH [OF d] Suc.prems d show ?case by (auto simp: Let_def split: if_splits)
qed simp

lemma tri_less: "n < n' \<Longrightarrow> tri n + n < tri n'"
proof (induction n')
  case (Suc k)
  then show ?case by (cases "n = k") auto
qed simp

lemma tri_unique:
  assumes "tri n + j = tri n' + j'" "j \<le> n" "j' \<le> n'"
  shows "n = n' \<and> j = j'"
proof (cases n n' rule: linorder_cases)
  case less
  with tri_less [OF less] assms show ?thesis by linarith
next
  case equal
  with assms show ?thesis by simp
next
  case greater
  with tri_less [OF greater] assms show ?thesis by linarith
qed

lemma deg_ord_tri: "j \<le> n \<Longrightarrow> deg_ord (tri n + j) = (n, j)"
proof -
  assume j: "j \<le> n"
  obtain n' j' where d: "deg_ord (tri n + j) = (n', j')" by force
  with deg_ord_index [OF d] tri_unique [of n j n' j'] j show ?thesis by simp
qed

lemma deg_ord_pos: "0 < k \<Longrightarrow> 0 < fst (deg_ord k)"
  using deg_ord_index [of k] by (cases "deg_ord k"; cases "fst (deg_ord k)") auto

lemma deg_ord_bound: "k \<le> tri n + n \<Longrightarrow> fst (deg_ord k) \<le> n"
proof (rule ccontr)
  assume k: "k \<le> tri n + n" and "\<not> fst (deg_ord k) \<le> n"
  then have "tri n + n < tri (fst (deg_ord k))" by (intro tri_less) simp
  moreover have "tri (fst (deg_ord k)) \<le> k" using deg_ord_index [of k] by (cases "deg_ord k") auto
  ultimately show False using k by simp
qed

lemma deg_ord_104:
  assumes "deg_ord k = (n, j)" "1 \<le> k" "k \<le> 104"
  shows "j \<le> n" "n \<le> 13" "0 < n"
proof -
  have t: "tri 13 + 13 = 104" by (simp add: eval_nat_numeral)
  show "j \<le> n" using deg_ord_index [OF assms(1)] by simp
  show "n \<le> 13" using deg_ord_bound [of k 13] assms(1,3) t by simp
  show "0 < n" using deg_ord_pos [of k] assms(1,2) by simp
qed

text \<open>The elements a new one is made from: the same order one and two rows before, and the last of the row before.\<close>

lemma deg_ord_before:
  assumes "deg_ord k = (n, j)" "5 \<le> k"
  shows "2 \<le> n" "j = n \<Longrightarrow> deg_ord (k - n - 1) = (n - 1, n - 1) \<and> 1 \<le> k - n - 1 \<and> n + 1 \<le> k"
    "j < n \<Longrightarrow> deg_ord (k - n) = (n - 1, j) \<and> 1 \<le> k - n \<and> n \<le> k"
    "j < n \<Longrightarrow> deg_ord (k + 1 - 2 * n) = (if j = n - 1 then (n - 1, 0) else (n - 2, j)) \<and> 1 \<le> k + 1 - 2 * n \<and> 2 * n \<le> k + 1"
proof -
  from deg_ord_index [OF assms(1)] have k: "k = tri n + j" "j \<le> n" by auto
  show n2: "2 \<le> n"
  proof (rule ccontr)
    assume "\<not> 2 \<le> n"
    then have "n = 0 \<or> n = 1" by auto
    then show False using k assms(2) by auto
  qed
  then obtain n1 where n1: "n = Suc (Suc n1)" by (metis Suc_le_D numeral_2_eq_2 Suc_le_mono)
  show "deg_ord (k - n - 1) = (n - 1, n - 1) \<and> 1 \<le> k - n - 1 \<and> n + 1 \<le> k" if "j = n"
  proof -
    have "k - n - 1 = tri (Suc n1) + Suc n1" "n + 1 \<le> k" using k that n1 by simp_all
    with deg_ord_tri [of "Suc n1" "Suc n1"] n1 show ?thesis by (simp del: tri.simps)
  qed
  show "deg_ord (k - n) = (n - 1, j) \<and> 1 \<le> k - n \<and> n \<le> k" if "j < n"
  proof -
    have "k - n = tri (Suc n1) + j" "n \<le> k" using k that n1 by simp_all
    moreover have "1 \<le> tri (Suc n1)" by simp
    ultimately show ?thesis using deg_ord_tri [of j "Suc n1"] that n1 by (simp del: tri.simps)
  qed
  show "deg_ord (k + 1 - 2 * n) = (if j = n - 1 then (n - 1, 0) else (n - 2, j)) \<and> 1 \<le> k + 1 - 2 * n \<and> 2 * n \<le> k + 1" if "j < n"
  proof (cases "j = Suc n1")
    case True
    then have "k + 1 - 2 * n = tri (Suc n1) + 0" "2 * n \<le> k + 1" using k that n1 by simp_all
    moreover have "1 \<le> tri (Suc n1)" by simp
    ultimately show ?thesis using deg_ord_tri [of 0 "Suc n1"] True n1 by (simp del: tri.simps)
  next
    case False
    then have "k + 1 - 2 * n = tri n1 + j" "2 * n \<le> k + 1" using k that n1 by simp_all
    moreover have "0 < n1" using k False that n1 assms(2) by (cases n1) auto
    then have "0 < tri n1" by (cases n1) auto
    ultimately show ?thesis using deg_ord_tri [of j n1] False that n1 by (simp del: tri.simps)
  qed
qed

section \<open>The recurrences\<close>

text \<open>The values of \<^verbatim>\<open>p\<close> and \<^verbatim>\<open>q\<close> for a degree and an order.\<close>

function leg :: "'a::{plus, minus, uminus, times, inverse} libm \<Rightarrow> 'a \<Rightarrow> 'a \<Rightarrow> nat \<Rightarrow> nat \<Rightarrow> 'a \<times> 'a" where
  "leg m s c n j =
     (if n \<le> 1 then (if j = 0 then (lit m 2 * s, - c) else (lit m 2 * c, s))
      else if n = 2 \<and> j = 0 then (lit m (9 / 2) * s * s - lit m (3 / 2), - lit m 3 * c * s)
      else if n = 2 \<and> j = 1 then (lit m 3 * fsqrt m (lit m 3) * c * s, fsqrt m (lit m 3) * (s * s - c * c))
      else if j = n then
        (let fm = num m (int j); aa = fsqrt m (lit m 1 - lit m (1 / 2) / fm); (p, q) = leg m s c (n - 1) (n - 1)
         in ((lit m 1 + lit m 1 / fm) * aa * c * p, aa * (c * q + s / fm * p)))
      else
        (let fm = num m (int j); fn = num m (int n); aa = fsqrt m (fn * fn - fm * fm);
             bb = fsqrt m ((fn - lit m 1) * (fn - lit m 1) - fm * fm) / aa; cc = (lit m 2 * fn - lit m 1) / aa;
             (p1, q1) = leg m s c (n - 1) j;
             (p2, q2) = (if j = n - 1 then leg m s c (n - 1) 0 else leg m s c (n - 2) j)
         in ((fn + lit m 1) * (cc * s / fn * p1 - bb / (fn - lit m 1) * p2), cc * (s * q1 - c / fn * p1) - bb * q2)))"
  by pat_completeness auto
termination by (relation "measure (\<lambda>(_, _, _, n, _). n)") auto

declare leg.simps [simp del]

abbreviation leg_at :: "'a::{plus, minus, uminus, times, inverse} libm \<Rightarrow> 'a \<Rightarrow> 'a \<Rightarrow> nat \<Rightarrow> 'a \<times> 'a" where
  "leg_at m s c k \<equiv> leg m s c (fst (deg_ord k)) (snd (deg_ord k))"

text \<open>Sine and cosine of multiples of the longitude.\<close>

fun multiple :: "'a::{plus, minus, times} \<Rightarrow> 'a \<Rightarrow> nat \<Rightarrow> 'a \<times> 'a" where
  "multiple s1 c1 0 = (s1, c1)"
| "multiple s1 c1 (Suc j) = (if j = 0 then (s1, c1) else let (s, c) = multiple s1 c1 j in (s * c1 + c * s1, c * c1 - s * s1))"

section \<open>The invariant of the loop\<close>

definition sh_inv ::
    "'a::{plus, minus, uminus, times, inverse} libm \<Rightarrow> 'a \<Rightarrow> 'a \<Rightarrow> 'a \<Rightarrow> 'a \<Rightarrow> 'a \<Rightarrow> nat \<Rightarrow> 'a shv \<Rightarrow> bool" where
  "sh_inv m ratio s1 c1 slat clat i s \<longleftrightarrow>
     (let n = fst (deg_ord i); j = snd (deg_ord i) in
      length (sv_p s) = 119 \<and> length (sv_q s) = 119 \<and> length (sv_sl s) = 14 \<and> length (sv_cl s) = 14 \<and>
      sv_n s = int n \<and> sv_m s = int j + 1 \<and> sv_l s = int (n * n + 2 * j + 1) \<and>
      (0 < i \<longrightarrow> sv_rr s = Some (fpow m ratio (num m (int n + 2))) \<and> sv_fn s = Some (num m (int n))) \<and>
      (\<forall>k. 1 \<le> k \<longrightarrow> k \<le> max 4 i \<longrightarrow> sv_p s ! k = Some (fst (leg_at m slat clat k)) \<and> sv_q s ! k = Some (snd (leg_at m slat clat k))) \<and>
      (\<forall>h. 1 \<le> h \<longrightarrow> h \<le> max 1 (if j = n then n else n - 1) \<longrightarrow>
         sv_sl s ! h = Some (fst (multiple s1 c1 h)) \<and> sv_cl s ! h = Some (snd (multiple s1 c1 h))))"

lemma leg_first:
  "leg m s c 1 0 = (lit m 2 * s, - c)" "leg m s c 1 1 = (lit m 2 * c, s)"
  "leg m s c 2 0 = (lit m (9 / 2) * s * s - lit m (3 / 2), - lit m 3 * c * s)"
  "leg m s c 2 1 = (lit m 3 * fsqrt m (lit m 3) * c * s, fsqrt m (lit m 3) * (s * s - c * c))"
  by (subst leg.simps, simp)+

lemma deg_ord_first: "deg_ord 1 = (1, 0)" "deg_ord 2 = (1, 1)" "deg_ord 3 = (2, 0)" "deg_ord 4 = (2, 1)"
  by (simp_all add: eval_nat_numeral)

lemma sh_inv_start: "sh_inv m ratio s1 c1 slat clat 0 (sh_start m s1 c1 slat clat)"
proof -
  let ?s = "sh_start m s1 c1 slat clat"
  have "sv_p ?s ! k = Some (fst (leg_at m slat clat k)) \<and> sv_q ?s ! k = Some (snd (leg_at m slat clat k))"
    if "1 \<le> k" "k \<le> 4" for k
  proof -
    from that have "k = 1 \<or> k = 2 \<or> k = 3 \<or> k = 4" by auto
    then show ?thesis by (elim disjE) (simp_all only: deg_ord_first fst_conv snd_conv leg_first, simp_all add: sh_start_def Let_def)
  qed
  moreover have "h = 1" if "1 \<le> h" "h \<le> 1" for h :: nat using that by simp
  ultimately show ?thesis unfolding sh_inv_def by (simp add: sh_start_def Let_def)
qed

text \<open>After the first part of a round the local variables stand at the element with the index of the round.\<close>

definition sh_at ::
    "'a::{plus, minus, uminus, times, inverse} libm \<Rightarrow> 'a \<Rightarrow> 'a \<Rightarrow> 'a \<Rightarrow> 'a \<Rightarrow> 'a \<Rightarrow> nat \<Rightarrow> nat \<Rightarrow> nat \<Rightarrow> 'a shv \<Rightarrow> bool" where
  "sh_at m ratio s1 c1 slat clat k hi h s \<longleftrightarrow>
     (let n = fst (deg_ord k); j = snd (deg_ord k) in
      length (sv_p s) = 119 \<and> length (sv_q s) = 119 \<and> length (sv_sl s) = 14 \<and> length (sv_cl s) = 14 \<and>
      sv_n s = int n \<and> sv_m s = int j \<and> sv_l s = int (n * n + (if j = 0 then 0 else 2 * j - 1)) \<and>
      sv_rr s = Some (fpow m ratio (num m (int n + 2))) \<and> sv_fn s = Some (num m (int n)) \<and>
      (\<forall>k'. 1 \<le> k' \<longrightarrow> k' \<le> hi \<longrightarrow> sv_p s ! k' = Some (fst (leg_at m slat clat k')) \<and> sv_q s ! k' = Some (snd (leg_at m slat clat k'))) \<and>
      (\<forall>h'. 1 \<le> h' \<longrightarrow> h' \<le> h \<longrightarrow>
         sv_sl s ! h' = Some (fst (multiple s1 c1 h')) \<and> sv_cl s ! h' = Some (snd (multiple s1 c1 h'))))"

lemma sh_row_at:
  assumes "sh_inv m ratio s1 c1 slat clat i s"
  shows "sh_at m ratio s1 c1 slat clat (Suc i) (max 4 i) (max 1 (fst (deg_ord (Suc i)) - 1)) (sh_row m ratio s)"
proof -
  obtain n j where d: "deg_ord i = (n, j)" by force
  with deg_ord_index [OF d] have j: "j \<le> n" by simp
  show ?thesis
  proof (cases "j = n")
    case True
    have n: "int n + 1 = int (Suc n)" by simp
    have "sh_row m ratio s = s\<lparr>sv_m := 0, sv_n := int (Suc n), sv_rr := Some (fpow m ratio (num m (int (Suc n) + 2))),
        sv_fn := Some (num m (int (Suc n)))\<rparr>"
      using True assms d unfolding n [symmetric] by (simp add: sh_inv_def sh_row_def Let_def)
    moreover have "sv_l s = int (Suc n * Suc n)" using True assms d by (simp add: sh_inv_def Let_def algebra_simps)
    ultimately show ?thesis using True assms d
      by (simp add: sh_inv_def sh_at_def Let_def del: of_nat_Suc mult_Suc mult_Suc_right)
  next
    case False
    then have i: "0 < i" using d j by (cases i) auto
    have "sh_row m ratio s = s" using False j assms d by (simp add: sh_inv_def sh_row_def Let_def)
    with False i assms d show ?thesis by (simp add: sh_inv_def sh_at_def Let_def)
  qed
qed

lemma rd_ok [simp]: "j < length a \<Longrightarrow> rd a (int j) = a ! j"
  by (simp add: rd_def)

lemma wr_ok [simp]: "j < length a \<Longrightarrow> wr a (int j) v = Some (a[j := Some v])"
  by (simp add: wr_def)

lemma leg_diag:
  assumes "2 \<le> n"
  shows "leg m s c n n =
     (let fm = num m (int n); aa = fsqrt m (lit m 1 - lit m (1 / 2) / fm); (p, q) = leg m s c (n - 1) (n - 1)
      in ((lit m 1 + lit m 1 / fm) * aa * c * p, aa * (c * q + s / fm * p)))"
  using assms by (subst leg.simps) simp

lemma leg_off:
  assumes "2 \<le> n" "j < n" "n = 2 \<longrightarrow> 1 < j"
  shows "leg m s c n j =
     (let fm = num m (int j); fn = num m (int n); aa = fsqrt m (fn * fn - fm * fm);
          bb = fsqrt m ((fn - lit m 1) * (fn - lit m 1) - fm * fm) / aa; cc = (lit m 2 * fn - lit m 1) / aa;
          (p1, q1) = leg m s c (n - 1) j;
          (p2, q2) = (if j = n - 1 then leg m s c (n - 1) 0 else leg m s c (n - 2) j)
      in ((fn + lit m 1) * (cc * s / fn * p1 - bb / (fn - lit m 1) * p2), cc * (s * q1 - c / fn * p1) - bb * q2))"
  using assms by (subst leg.simps) simp

lemma multiple_Suc: "0 < j \<Longrightarrow> multiple s1 c1 (Suc j) =
    (fst (multiple s1 c1 j) * c1 + snd (multiple s1 c1 j) * s1, snd (multiple s1 c1 j) * c1 - fst (multiple s1 c1 j) * s1)"
  by (simp add: case_prod_beta)

declare multiple.simps(2) [simp del] deg_ord.simps(2) [simp del]

lemma multiple_1: "multiple s1 c1 (Suc 0) = (s1, c1)"
  by (simp add: multiple.simps)

text \<open>An element written at the next index extends the part of the arrays that is known.\<close>

lemma known_extend:
  assumes "\<forall>k'. 1 \<le> k' \<longrightarrow> k' \<le> hi \<longrightarrow> a ! k' = Some (f k')" "hi < k" "k \<le> Suc hi" "k < length a"
  shows "\<forall>k'. 1 \<le> k' \<longrightarrow> k' \<le> k \<longrightarrow> a[k := Some (f k)] ! k' = Some (f k')"
  using assms by (auto simp: nth_list_update)

lemma sh_legendre_diag:
  assumes "sh_at m ratio s1 c1 slat clat k (k - 1) (n - 1) s" "5 \<le> k" "deg_ord k = (n, n)" "n \<le> 13" "k < 119"
  shows "\<exists>s'. sh_legendre m slat clat (int k) s = Some s' \<and> sh_at m ratio s1 c1 slat clat k k n s'"
proof -
  note b = deg_ord_before [OF assms(3,2)]
  let ?j = "k - n - 1" and ?P = "leg m slat clat (n - 1) (n - 1)" and ?S = "multiple s1 c1 (n - 1)"
  let ?fm = "num m (int n)"
  let ?aa = "fsqrt m (lit m 1 - lit m (1 / 2) / ?fm)"
  have j: "int k - int n - 1 = int ?j" "?j < 119" "1 \<le> ?j" "?j \<le> k - 1" "?j \<noteq> k" "int n - 1 = int (n - 1)" "(1 :: int) = int 1"
    using b(1) b(2) assms(5) by auto
  from assms(1,3) have len: "length (sv_p s) = 119" "length (sv_q s) = 119" "length (sv_sl s) = 14" "length (sv_cl s) = 14"
      and nm: "sv_n s = int n" "sv_m s = int n"
      and pq: "\<forall>k'. 1 \<le> k' \<longrightarrow> k' \<le> k - 1 \<longrightarrow> sv_p s ! k' = Some (fst (leg_at m slat clat k'))"
        "\<forall>k'. 1 \<le> k' \<longrightarrow> k' \<le> k - 1 \<longrightarrow> sv_q s ! k' = Some (snd (leg_at m slat clat k'))"
      and sc: "\<forall>h'. 1 \<le> h' \<longrightarrow> h' \<le> n - 1 \<longrightarrow> sv_sl s ! h' = Some (fst (multiple s1 c1 h'))"
        "\<forall>h'. 1 \<le> h' \<longrightarrow> h' \<le> n - 1 \<longrightarrow> sv_cl s ! h' = Some (snd (multiple s1 c1 h'))"
    by (simp_all add: sh_at_def Let_def)
  have at_j: "sv_p s ! ?j = Some (fst ?P)" "sv_q s ! ?j = Some (snd ?P)"
    using pq j b(2) by simp_all
  have at_h: "sv_sl s ! (n - 1) = Some (fst ?S)" "sv_cl s ! (n - 1) = Some (snd ?S)" "sv_sl s ! 1 = Some s1" "sv_cl s ! 1 = Some c1"
    using sc b(1) by (simp_all add: multiple_1)
  let ?s = "s\<lparr>sv_p := (sv_p s)[k := Some (fst (leg m slat clat n n))], sv_q := (sv_q s)[k := Some (snd (leg m slat clat n n))],
      sv_sl := (sv_sl s)[n := Some (fst (multiple s1 c1 n))], sv_cl := (sv_cl s)[n := Some (snd (multiple s1 c1 n))]\<rparr>"
  have mult: "multiple s1 c1 n = (fst ?S * c1 + snd ?S * s1, snd ?S * c1 - fst ?S * s1)"
    using multiple_Suc [of "n - 1" s1 c1] b(1) by simp
  have ne: "n \<noteq> n - 1" "n \<noteq> 1" "n < 14" "n - 1 < 14" using b(1) assms(4) by auto
  have rdj: "rd a (int k - int n - 1) = a ! ?j" if "length a = 119" for a :: "'a option list"
    unfolding j(1) using j(2) that by simp
  have rdn: "rd a (int n - 1) = a ! (n - 1)" "rd a 1 = a ! 1" if "length a = 14" for a :: "'a option list"
    using rd_ok [of "n - 1" a] rd_ok [of 1 a] ne that unfolding j(6) by simp_all
  have "sh_legendre m slat clat (int k) s = Some ?s"
    unfolding sh_legendre_def Let_def nm leg_diag [OF b(1)] mult
    using assms(2,5) len at_j at_h ne j(5) by (simp add: case_prod_beta rdj rdn)
  moreover have "sh_at m ratio s1 c1 slat clat k k n ?s"
  proof -
    have p: "\<forall>k'. 1 \<le> k' \<longrightarrow> k' \<le> k \<longrightarrow> (sv_p s)[k := Some (fst (leg m slat clat n n))] ! k' = Some (fst (leg_at m slat clat k'))"
      using known_extend [OF pq(1), of k] assms(2,3,5) len by simp
    have q: "\<forall>k'. 1 \<le> k' \<longrightarrow> k' \<le> k \<longrightarrow> (sv_q s)[k := Some (snd (leg m slat clat n n))] ! k' = Some (snd (leg_at m slat clat k'))"
      using known_extend [OF pq(2), of k] assms(2,3,5) len by simp
    have sl: "\<forall>h'. 1 \<le> h' \<longrightarrow> h' \<le> n \<longrightarrow> (sv_sl s)[n := Some (fst (multiple s1 c1 n))] ! h' = Some (fst (multiple s1 c1 h'))"
      using known_extend [OF sc(1), of n] b(1) assms(4) len by simp
    have cl: "\<forall>h'. 1 \<le> h' \<longrightarrow> h' \<le> n \<longrightarrow> (sv_cl s)[n := Some (snd (multiple s1 c1 n))] ! h' = Some (snd (multiple s1 c1 h'))"
      using known_extend [OF sc(2), of n] b(1) assms(4) len by simp
    from assms(1,3) p q sl cl show ?thesis by (simp add: sh_at_def Let_def)
  qed
  ultimately show ?thesis by blast
qed

lemma sh_legendre_off:
  assumes "sh_at m ratio s1 c1 slat clat k (k - 1) h s" "5 \<le> k" "deg_ord k = (n, j)" "j < n" "k < 119"
  shows "\<exists>s'. sh_legendre m slat clat (int k) s = Some s' \<and> sh_at m ratio s1 c1 slat clat k k h s'"
proof -
  note b = deg_ord_before [OF assms(3,2)]
  let ?ii = "k - n" and ?j = "k + 1 - 2 * n" and ?P = "leg m slat clat n j"
  let ?P1 = "leg m slat clat (n - 1) j" and ?P2 = "if j = n - 1 then leg m slat clat (n - 1) 0 else leg m slat clat (n - 2) j"
  have i: "int k - int n = int ?ii" "int k - 2 * int n + 1 = int ?j"
    using b(1) b(3,4) [OF assms(4)] by (auto simp: of_nat_diff)
  have j: "?ii < 119" "1 \<le> ?ii" "?ii \<le> k - 1" "?ii \<noteq> k" "?j < 119" "1 \<le> ?j" "?j \<le> k - 1" "?j \<noteq> k"
    using b(1) b(3,4) [OF assms(4)] assms(5) by auto
  have n2: "n = 2 \<longrightarrow> 1 < j" using deg_ord_index [OF assms(3)] assms(2) by (auto simp: eval_nat_numeral)
  from assms(1,3) have len: "length (sv_p s) = 119" "length (sv_q s) = 119"
      and nm: "sv_n s = int n" "sv_m s = int j" "sv_fn s = Some (num m (int n))"
      and pq: "\<forall>k'. 1 \<le> k' \<longrightarrow> k' \<le> k - 1 \<longrightarrow> sv_p s ! k' = Some (fst (leg_at m slat clat k'))"
        "\<forall>k'. 1 \<le> k' \<longrightarrow> k' \<le> k - 1 \<longrightarrow> sv_q s ! k' = Some (snd (leg_at m slat clat k'))"
    by (simp_all add: sh_at_def Let_def)
  have at_i: "sv_p s ! ?ii = Some (fst ?P1)" "sv_q s ! ?ii = Some (snd ?P1)"
    using pq j(2,3) b(3) [OF assms(4)] by simp_all
  have at_j: "sv_p s ! ?j = Some (fst ?P2)" "sv_q s ! ?j = Some (snd ?P2)"
    using pq j(6,7) b(4) [OF assms(4)] by simp_all
  let ?s = "s\<lparr>sv_p := (sv_p s)[k := Some (fst ?P)], sv_q := (sv_q s)[k := Some (snd ?P)]\<rparr>"
  have rdi: "rd a (int k - int n) = a ! ?ii" "rd a (int k - 2 * int n + 1) = a ! ?j" if "length a = 119" for a :: "'a option list"
    using rd_ok [of ?ii a] rd_ok [of ?j a] j that unfolding i by simp_all
  have "int j \<noteq> int n" using assms(4) by simp
  then have "sh_legendre m slat clat (int k) s = Some ?s"
    unfolding sh_legendre_def Let_def nm leg_off [OF b(1) assms(4) n2]
    using assms(2,5) len at_i at_j j(4) by (simp add: case_prod_beta rdi)
  moreover have "sh_at m ratio s1 c1 slat clat k k h ?s"
  proof -
    have p: "\<forall>k'. 1 \<le> k' \<longrightarrow> k' \<le> k \<longrightarrow> (sv_p s)[k := Some (fst ?P)] ! k' = Some (fst (leg_at m slat clat k'))"
      using known_extend [OF pq(1), of k] assms(2,3,5) len by simp
    have q: "\<forall>k'. 1 \<le> k' \<longrightarrow> k' \<le> k \<longrightarrow> (sv_q s)[k := Some (snd ?P)] ! k' = Some (snd (leg_at m slat clat k'))"
      using known_extend [OF pq(2), of k] assms(2,3,5) len by simp
    from assms(1,3) p q show ?thesis by (simp add: sh_at_def Let_def)
  qed
  ultimately show ?thesis by blast
qed

text \<open>The highest order whose sine and cosine are known.\<close>

definition orders :: "nat \<Rightarrow> nat" where
  "orders k = max 1 (if snd (deg_ord k) = fst (deg_ord k) then fst (deg_ord k) else fst (deg_ord k) - 1)"

lemma sh_legendre_ok:
  assumes "sh_inv m ratio s1 c1 slat clat i s" "Suc i \<le> 104"
  shows "\<exists>s'. sh_legendre m slat clat (int (Suc i)) (sh_row m ratio s) = Some s' \<and>
     sh_at m ratio s1 c1 slat clat (Suc i) (max 4 (Suc i)) (orders (Suc i)) s'"
proof -
  note at = sh_row_at [OF assms(1)]
  obtain n j where d: "deg_ord (Suc i) = (n, j)" by force
  have n: "j \<le> n" "n \<le> 13" using deg_ord_104 [OF d _ assms(2)] by simp_all
  show ?thesis
  proof (cases "5 \<le> Suc i")
    case True
    note n2 = deg_ord_before(1) [OF d True]
    have at': "sh_at m ratio s1 c1 slat clat (Suc i) (Suc i - 1) (n - 1) (sh_row m ratio s)"
    proof -
      have "max 4 i = Suc i - 1" "max 1 (n - 1) = n - 1" using True n2 by simp_all
      with at d show ?thesis by simp
    qed
    have "orders (Suc i) = (if j = n then n else n - 1)" using d n2 by (auto simp: orders_def max_def)
    then show ?thesis
      using sh_legendre_diag [OF at' True _ n(2)] sh_legendre_off [OF at' True d] d n True assms(2) by (cases "j = n") (auto simp: max_def)
  next
    case False
    then have "i = 0 \<or> i = 1 \<or> i = 2 \<or> i = 3" by auto
    then have "orders (Suc i) = max 1 (fst (deg_ord (Suc i)) - 1)" by (auto simp: orders_def eval_nat_numeral deg_ord.simps)
    then have "sh_at m ratio s1 c1 slat clat (Suc i) (max 4 (Suc i)) (orders (Suc i)) (sh_row m ratio s)"
    proof -
      have "max 4 i = max 4 (Suc i)" using False by simp
      with at \<open>orders (Suc i) = _\<close> show ?thesis by simp
    qed
    moreover have "sh_legendre m slat clat (int (Suc i)) (sh_row m ratio s) = Some (sh_row m ratio s)"
      using False by (simp add: sh_legendre_def)
    ultimately show ?thesis by blast
  qed
qed

section \<open>The sum\<close>

text \<open>The coefficients of a degree and an order in the array.\<close>

definition coef_g :: "nat \<Rightarrow> nat \<Rightarrow> nat" where
  "coef_g n j = n * n + (if j = 0 then 0 else 2 * j - 1)"

definition coef_h :: "nat \<Rightarrow> nat \<Rightarrow> nat" where
  "coef_h n j = n * n + 2 * j"

definition sh_term ::
    "'a::{plus, minus, uminus, times, inverse, ord} libm \<Rightarrow> 'a \<Rightarrow> 'a \<Rightarrow> 'a \<Rightarrow> 'a \<Rightarrow> 'a \<Rightarrow> 'a list \<Rightarrow> nat \<times> nat \<Rightarrow> 'a elements \<Rightarrow> 'a elements" where
  "sh_term m ratio s1 c1 slat clat g = (\<lambda>(n, j) e.
     let rr = fpow m ratio (num m (int n + 2)); (p, q) = leg m slat clat n j; aa = rr * g ! coef_g n j;
         bb = rr * g ! coef_h n j; (sn, c) = multiple s1 c1 j; fm = num m (int j); fn = num m (int n); cc = aa * c + bb * sn
     in if j = 0 then e\<lparr>e_x := e_x e + aa * q, e_z := e_z e - aa * p\<rparr>
        else e\<lparr>e_x := e_x e + cc * q, e_z := e_z e - cc * p,
               e_y := e_y e + (if clat > lit m 0 then (aa * sn - bb * c) * fm * p / ((fn + lit m 1) * clat)
                              else (aa * sn - bb * c) * q * slat)\<rparr>)"

fun sh_terms ::
    "'a::{plus, minus, uminus, times, inverse, ord} libm \<Rightarrow> 'a \<Rightarrow> 'a \<Rightarrow> 'a \<Rightarrow> 'a \<Rightarrow> 'a \<Rightarrow> 'a list \<Rightarrow> nat \<Rightarrow> 'a elements \<Rightarrow> 'a elements" where
  "sh_terms m ratio s1 c1 slat clat g 0 e = e"
| "sh_terms m ratio s1 c1 slat clat g (Suc i) e =
     sh_term m ratio s1 c1 slat clat g (deg_ord (Suc i)) (sh_terms m ratio s1 c1 slat clat g i e)"

definition gh_arr :: "int \<Rightarrow> 'a geomag \<Rightarrow> 'a list" where
  "gh_arr gh st = (if gh = 3 then gha st else ghb st)"

lemma gh_arr_on_el [simp]: "gh_arr gh (on_el gh' f st) = gh_arr gh st"
  by (simp add: gh_arr_def on_el_def)

lemma on_el_id [simp]: "on_el gh (\<lambda>e. e) st = st"
  by (simp add: on_el_def)

lemma on_el_twice: "on_el gh f (on_el gh f' st) = on_el gh (\<lambda>e. f (f' e)) st"
  by (simp add: on_el_def)

lemma coef_bound: "n \<le> 13 \<Longrightarrow> j \<le> n \<Longrightarrow> coef_g n j < 196 \<and> coef_h n j < 196"
proof -
  assume "n \<le> 13" "j \<le> n"
  then have "n * n \<le> 13 * 13" by (intro mult_le_mono) simp_all
  with \<open>n \<le> 13\<close> \<open>j \<le> n\<close> show ?thesis by (auto simp: coef_g_def coef_h_def)
qed

lemma sh_add_eq:
  assumes "gh = 3 \<or> gh = 4"
  shows "sh_add m gh slat clat k (st, s) =
     do { rr \<leftarrow> sv_rr s;
          a \<leftarrow> arr_get (gh_arr gh st) (sv_l s);
          if sv_m s = 0 then
            do { q \<leftarrow> rd (sv_q s) k;
                 p \<leftarrow> rd (sv_p s) k;
                 Some (on_el gh (\<lambda>e. e\<lparr>e_x := e_x e + rr * a * q, e_z := e_z e - rr * a * p\<rparr>) st, s\<lparr>sv_l := sv_l s + 1\<rparr>) }
          else
            do { b \<leftarrow> arr_get (gh_arr gh st) (sv_l s + 1);
                 c \<leftarrow> rd (sv_cl s) (sv_m s);
                 sn \<leftarrow> rd (sv_sl s) (sv_m s);
                 q \<leftarrow> rd (sv_q s) k;
                 p \<leftarrow> rd (sv_p s) k;
                 fn \<leftarrow> sv_fn s;
                 Some (on_el gh (\<lambda>e. e\<lparr>e_x := e_x e + (rr * a * c + rr * b * sn) * q, e_z := e_z e - (rr * a * c + rr * b * sn) * p,
                     e_y := e_y e + (if clat > lit m 0 then (rr * a * sn - rr * b * c) * num m (sv_m s) * p / ((fn + lit m 1) * clat)
                             else (rr * a * sn - rr * b * c) * q * slat)\<rparr>) st,
                       s\<lparr>sv_l := sv_l s + 2\<rparr>) } }"
  using assms by (auto simp: sh_add_def gh_arr_def Let_def)

lemma sh_add_ok:
  assumes at: "sh_at m ratio s1 c1 slat clat k (max 4 k) (orders k) s" and k: "1 \<le> k" "k \<le> 104"
    and g: "gh = 3 \<or> gh = 4" "length (gh_arr gh st) = 196"
  shows "\<exists>s'. sh_add m gh slat clat (int k) (st, s) = Some (on_el gh (sh_term m ratio s1 c1 slat clat (gh_arr gh st) (deg_ord k)) st, s') \<and>
     sh_inv m ratio s1 c1 slat clat k (s'\<lparr>sv_m := sv_m s' + 1\<rparr>)"
proof -
  obtain n j where d: "deg_ord k = (n, j)" by force
  note n = deg_ord_104 [OF d k]
  note cb = coef_bound [OF n(2,1)]
  have fields: "sv_n s = int n" "sv_m s = int j" "sv_l s = int (coef_g n j)" "sv_rr s = Some (fpow m ratio (num m (int n + 2)))"
      "sv_fn s = Some (num m (int n))" "length (sv_p s) = 119" "length (sv_q s) = 119" "length (sv_sl s) = 14" "length (sv_cl s) = 14"
      "sv_p s ! k = Some (fst (leg m slat clat n j))" "sv_q s ! k = Some (snd (leg m slat clat n j))"
    using at d k by (auto simp: sh_at_def Let_def coef_g_def)
  have gh: "arr_get (gh_arr gh st) (int (coef_g n j)) = Some (gh_arr gh st ! coef_g n j)"
    "arr_get (gh_arr gh st) (int (coef_h n j)) = Some (gh_arr gh st ! coef_h n j)" using cb g(2) by simp_all
  show ?thesis
  proof (cases "j = 0")
    case True
    let ?s = "s\<lparr>sv_l := int (coef_g n j) + 1\<rparr>"
    have "sh_add m gh slat clat (int k) (st, s) = Some (on_el gh (sh_term m ratio s1 c1 slat clat (gh_arr gh st) (deg_ord k)) st, ?s)"
      unfolding sh_add_eq [OF g(1)] fields gh bind.bind_lunit using True k d by (simp add: fields sh_term_def Let_def case_prod_beta)
    moreover have "sh_inv m ratio s1 c1 slat clat k (?s\<lparr>sv_m := sv_m ?s + 1\<rparr>)"
      using at d True n by (auto simp: sh_inv_def sh_at_def Let_def orders_def coef_g_def)
    ultimately show ?thesis by blast
  next
    case False
    let ?s = "s\<lparr>sv_l := int (coef_g n j) + 2\<rparr>"
    have ord: "j \<le> orders k" using n d by (auto simp: orders_def)
    have sc: "sv_sl s ! j = Some (fst (multiple s1 c1 j))" "sv_cl s ! j = Some (snd (multiple s1 c1 j))"
      using at False ord by (auto simp: sh_at_def Let_def)
    have l1: "int (coef_g n j) + 1 = int (coef_h n j)" using False by (simp add: coef_g_def coef_h_def)
    have "sh_add m gh slat clat (int k) (st, s) = Some (on_el gh (sh_term m ratio s1 c1 slat clat (gh_arr gh st) (deg_ord k)) st, ?s)"
      unfolding sh_add_eq [OF g(1)] fields l1 gh bind.bind_lunit
      using False k d n by (simp add: fields sc sh_term_def Let_def case_prod_beta)
    moreover have "sh_inv m ratio s1 c1 slat clat k (?s\<lparr>sv_m := sv_m ?s + 1\<rparr>)"
      using at d False n by (auto simp: sh_inv_def sh_at_def Let_def orders_def coef_g_def)
    ultimately show ?thesis by blast
  qed
qed

lemma sh_loop:
  assumes "gh = 3 \<or> gh = 4" "length (gh_arr gh st) = 196" "i \<le> 104"
  shows "\<exists>s. for_upto i (\<lambda>i. sh_step m gh ratio slat clat (int i + 1)) (st, sh_start m s1 c1 slat clat) =
       Some (on_el gh (sh_terms m ratio s1 c1 slat clat (gh_arr gh st) i) st, s) \<and> sh_inv m ratio s1 c1 slat clat i s"
  using assms(3)
proof (induction i)
  case 0
  show ?case using sh_inv_start by auto
next
  case (Suc i)
  let ?T = "sh_terms m ratio s1 c1 slat clat (gh_arr gh st)" and ?t = "sh_term m ratio s1 c1 slat clat (gh_arr gh st) (deg_ord (Suc i))"
  from Suc obtain s where s: "for_upto i (\<lambda>i. sh_step m gh ratio slat clat (int i + 1)) (st, sh_start m s1 c1 slat clat) =
      Some (on_el gh (?T i) st, s)" "sh_inv m ratio s1 c1 slat clat i s" by auto
  from sh_legendre_ok [OF s(2) Suc.prems] obtain sl where
      sl: "sh_legendre m slat clat (int (Suc i)) (sh_row m ratio s) = Some sl"
        "sh_at m ratio s1 c1 slat clat (Suc i) (max 4 (Suc i)) (orders (Suc i)) sl" by blast
  have "length (gh_arr gh (on_el gh (?T i) st)) = 196" using assms(2) by simp
  from sh_add_ok [OF sl(2) _ Suc.prems assms(1) this] obtain sa where
      sa: "sh_add m gh slat clat (int (Suc i)) (on_el gh (?T i) st, sl) = Some (on_el gh ?t (on_el gh (?T i) st), sa)"
        "sh_inv m ratio s1 c1 slat clat (Suc i) (sa\<lparr>sv_m := sv_m sa + 1\<rparr>)" by auto
  have k: "int i + 1 = int (Suc i)" by simp
  have T: "?T (Suc i) = (\<lambda>e. ?t (?T i e))" by (rule ext) simp
  have "for_upto (Suc i) (\<lambda>i. sh_step m gh ratio slat clat (int i + 1)) (st, sh_start m s1 c1 slat clat) =
      Some (on_el gh (?T (Suc i)) st, sa\<lparr>sv_m := sv_m sa + 1\<rparr>)"
    unfolding for_upto.simps s(1) bind.bind_lunit
    using sl(1) sa(1) unfolding k sh_step_def by (simp add: on_el_twice T del: of_nat_Suc sh_terms.simps)
  with sa(2) show ?case by blast
qed

section \<open>The field at a point\<close>

text \<open>The coordinates \<^verbatim>\<open>shval3\<close> works with: radius, the turn, sine and cosine of the latitude.\<close>

definition sh_coords :: "'a::{plus, minus, uminus, times, inverse, ord} libm \<Rightarrow> int \<Rightarrow> 'a \<Rightarrow> 'a \<Rightarrow> 'a \<times> 'a \<times> 'a \<times> 'a \<times> 'a" where
  "sh_coords m gdgc flat elev =
     (let dtr = lit m (1745329 / 10 ^ 8);
          slat = fsin m (flat * dtr);
          aa = (if lit m 90 - flat < lit m (1 / 1000) then lit m (89999 / 1000)
                else if lit m 90 + flat < lit m (1 / 1000) then - lit m (89999 / 1000) else flat);
          clat = fcos m (aa * dtr)
      in if gdgc = 1 then sh_geodetic m elev slat clat else (elev, lit m 1, lit m 0, slat, clat))"

text \<open>What \<^verbatim>\<open>shval3\<close> makes of the components.\<close>

definition sh_value ::
    "'a::{plus, minus, uminus, times, inverse, ord} libm \<Rightarrow> 'a \<times> 'a \<times> 'a \<times> 'a \<times> 'a \<Rightarrow> 'a \<Rightarrow> 'a list \<Rightarrow> nat \<Rightarrow> 'a elements \<Rightarrow> 'a elements" where
  "sh_value m = (\<lambda>(r, cd, sd, slat, clat) flon g N e.
     let s1 = fsin m (flon * lit m (1745329 / 10 ^ 8)); c1 = fcos m (flon * lit m (1745329 / 10 ^ 8))
     in sh_turn cd sd (sh_terms m (lit m (63712 / 10) / r) s1 c1 slat clat g (tri N + N)
          (e\<lparr>e_x := lit m 0, e_y := lit m 0, e_z := lit m 0\<rparr>)))"

definition sh_colat :: "'a libm \<Rightarrow> int \<Rightarrow> 'a \<times> 'a \<times> 'a \<times> 'a \<times> 'a \<Rightarrow> 'a geomag \<Rightarrow> 'a geomag" where
  "sh_colat m gdgc = (\<lambda>(r, cd, sd, slat, clat) st. if gdgc = 1 then st\<lparr>gccolat := fatan2 m clat slat\<rparr> else st)"

lemma tri_bound: "N \<le> 13 \<Longrightarrow> tri N + N \<le> 104"
proof -
  assume "N \<le> 13"
  then have "2 * (tri N + N) \<le> 13 * 16" unfolding tri_closed by (intro mult_le_mono) simp_all
  then show ?thesis by simp
qed

lemma sh_size: "N \<le> 13 \<Longrightarrow> do { t \<leftarrow> cint (int N + 3); u \<leftarrow> cint (int N * t); cdiv u 2 } = Some (int (tri N + N))"
proof -
  assume N: "N \<le> 13"
  have e: "int N * (int N + 3) = int (2 * (tri N + N))" unfolding tri_closed by simp
  have "in_int (int N + 3)" "in_int (int (2 * (tri N + N)))" using N tri_bound [OF N] by (simp_all add: in_int_def)
  moreover have "cdiv (int (2 * (tri N + N))) 2 = Some (int (tri N + N))"
    using cdiv_nat [of 2 "2 * (tri N + N)"] \<open>in_int (int (2 * (tri N + N)))\<close> by simp
  ultimately show ?thesis using e by (simp del: of_nat_mult)
qed

lemma shval3_eq:
  assumes "gh = 3 \<or> gh = 4" "length (gh_arr gh st) = 196" "N \<le> 13"
  shows "shval3 m gdgc flat flon elev (int N) gh 0 x1 x2 x3 st =
     Some (0, on_el gh (sh_value m (sh_coords m gdgc flat elev) flon (gh_arr gh st) N) (sh_colat m gdgc (sh_coords m gdgc flat elev) st))"
proof -
  obtain r cd sd slat clat where c: "sh_coords m gdgc flat elev = (r, cd, sd, slat, clat)" by (metis prod_cases5)
  define st2 where "st2 = sh_colat m gdgc (r, cd, sd, slat, clat) (on_el gh (\<lambda>e. e\<lparr>e_x := lit m 0, e_y := lit m 0, e_z := lit m 0\<rparr>) st)"
  have st2: "gh_arr gh st2 = gh_arr gh st"
    by (simp add: st2_def sh_colat_def gh_arr_def on_el_def)
  have col: "st2 = on_el gh (\<lambda>e. e\<lparr>e_x := lit m 0, e_y := lit m 0, e_z := lit m 0\<rparr>) (sh_colat m gdgc (r, cd, sd, slat, clat) st)"
    by (simp add: st2_def sh_colat_def on_el_def)
  let ?s1 = "fsin m (flon * lit m (1745329 / 10 ^ 8))" and ?c1 = "fcos m (flon * lit m (1745329 / 10 ^ 8))"
  let ?ratio = "lit m (63712 / 10) / r"
  obtain s where "for_upto (tri N + N) (\<lambda>i. sh_step m gh ?ratio slat clat (int i + 1)) (st2, sh_start m ?s1 ?c1 slat clat) =
      Some (on_el gh (sh_terms m ?ratio ?s1 ?c1 slat clat (gh_arr gh st) (tri N + N)) st2, s)"
    using sh_loop [OF assms(1), of st2 "tri N + N" m ?ratio slat clat ?s1 ?c1] assms(2) st2 tri_bound [OF assms(3)] by auto
  moreover have "shval3 m gdgc flat flon elev (int N) gh 0 x1 x2 x3 st =
      do { npq \<leftarrow> do { t \<leftarrow> cint (int N + 3); u \<leftarrow> cint (int N * t); cdiv u 2 };
           (st3, _) \<leftarrow> for_upto (nat npq) (\<lambda>i. sh_step m gh ?ratio slat clat (int i + 1)) (st2, sh_start m ?s1 ?c1 slat clat);
           Some (0, on_el gh (sh_turn cd sd) st3) }"
    using c by (simp add: shval3_def Let_def sh_coords_def st2_def sh_colat_def split: prod.splits if_splits)
  ultimately have "shval3 m gdgc flat flon elev (int N) gh 0 x1 x2 x3 st =
      Some (0, on_el gh (sh_turn cd sd) (on_el gh (sh_terms m ?ratio ?s1 ?c1 slat clat (gh_arr gh st) (tri N + N)) st2))"
    unfolding sh_size [OF assms(3)] bind.bind_lunit nat_int by simp
  then show ?thesis unfolding c col on_el_twice sh_value_def by (simp add: Let_def)
qed

section \<open>Coefficients for a date\<close>

lemma fill_range_ok:
  assumes "\<And>i. k < i \<Longrightarrow> i \<le> l \<Longrightarrow> f (int i) = Some (v i)" "l < length a" "k \<le> l"
  shows "fill_range (int k) (int l) f a = Some (map (\<lambda>i. if k < i \<and> i \<le> l then v i else a ! i) [0..<length a])"
proof -
  have "for_upto n (\<lambda>i a. do { v \<leftarrow> f (int k + 1 + int i); arr_set a (int k + 1 + int i) v }) a =
      Some (map (\<lambda>i. if k < i \<and> i \<le> k + n then v i else a ! i) [0..<length a])" if "n \<le> l - k" for n
    using that
  proof (induction n)
    case (Suc n)
    have i: "int k + 1 + int n = int (Suc (k + n))" by simp
    have "f (int (Suc (k + n))) = Some (v (Suc (k + n)))" using assms(1) [of "Suc (k + n)"] Suc.prems assms(3) by simp
    moreover have "Suc (k + n) < length a" using Suc.prems assms(2,3) by simp
    moreover have "(map (\<lambda>i. if k < i \<and> i \<le> k + n then v i else a ! i) [0..<length a])[Suc (k + n) := v (Suc (k + n))] =
        map (\<lambda>i. if k < i \<and> i \<le> k + Suc n then v i else a ! i) [0..<length a]"
      using Suc.prems assms(2,3) by (intro nth_equalityI) (auto simp: nth_list_update)
    ultimately show ?case using Suc by (simp add: i del: of_nat_Suc)
  next
    case 0
    have "map (\<lambda>i. if k < i \<and> i \<le> k + 0 then v i else a ! i) [0..<length a] = map (nth a) [0..<length a]" by (intro map_cong) auto
    then show ?case by (simp add: map_nth)
  qed
  from this [of "l - k"] assms(3) show ?thesis by (simp add: fill_range_def nat_diff_distrib)
qed

lemma sh_count_ok: "N \<le> 13 \<Longrightarrow> sh_count (int N) = Some (int (N * (N + 2)))"
proof -
  assume N: "N \<le> 13"
  then have "N * (N + 2) \<le> 13 * 15" by (intro mult_le_mono) simp_all
  moreover have "in_int (int n)" if "n \<le> 13 * 15" for n using that by (simp add: in_int_def)
  ultimately have "in_int (int (N * (N + 2)))" by blast
  moreover have "in_int (int N + 2)" using N by (simp add: in_int_def)
  moreover have "int N * (int N + 2) = int (N * (N + 2))" by (simp add: algebra_simps)
  ultimately show ?thesis unfolding sh_count_def by (simp del: of_nat_mult of_nat_add)
qed

text \<open>What \<^verbatim>\<open>extrapsh\<close> writes when the model of change is the smaller one, as it is here.\<close>

definition extrapolated :: "'a::{plus, minus, times} \<Rightarrow> nat \<Rightarrow> nat \<Rightarrow> 'a list \<Rightarrow> 'a list \<Rightarrow> 'a list \<Rightarrow> 'a list" where
  "extrapolated factor n1 n2 g1 g2 a =
     map (\<lambda>i. if 0 < i \<and> i \<le> n2 * (n2 + 2) then g1 ! i + factor * g2 ! i
               else if n2 * (n2 + 2) < i \<and> i \<le> n1 * (n1 + 2) then g1 ! i else a ! i) [0..<length a]"

lemma extrapsh_eq:
  assumes "gh = 3 \<or> gh = 4" "n2 < n1" "n1 \<le> 13" "length (gh1 st) = 196" "length (gh2 st) = 196" "length (gh_arr gh st) = 196"
  shows "extrapsh date ep (int n1) (int n2) gh st =
     Some (int n1, if gh = 3 then st\<lparr>gha := extrapolated (date - ep) n1 n2 (gh1 st) (gh2 st) (gha st)\<rparr>
                   else st\<lparr>ghb := extrapolated (date - ep) n1 n2 (gh1 st) (gh2 st) (ghb st)\<rparr>)"
proof -
  let ?k = "n2 * (n2 + 2)" and ?l = "n1 * (n1 + 2)"
  have kl: "?k \<le> ?l" using assms(2) by (intro mult_le_mono) simp_all
  have l: "?l < 196"
  proof -
    have "?l \<le> 13 * 15" using assms(3) by (intro mult_le_mono) simp_all
    then show ?thesis by simp
  qed
  have c: "sh_count (int n2) = Some (int ?k)" "sh_count (int n1) = Some (int ?l)" using assms(2,3) by (intro sh_count_ok; simp)+
  have f1: "fill_range (int ?k) (int ?l) (\<lambda>ii. arr_get (gh1 st) ii) a =
      Some (map (\<lambda>i. if ?k < i \<and> i \<le> ?l then gh1 st ! i else a ! i) [0..<length a])" if "length a = 196" for a
    using kl l that assms(4) by (intro fill_range_ok) simp_all
  have f2: "fill_range (int 0) (int ?k) (\<lambda>ii. do { a \<leftarrow> arr_get (gh1 st) ii; b \<leftarrow> arr_get (gh2 st) ii; Some (a + (date - ep) * b) }) a =
      Some (map (\<lambda>i. if 0 < i \<and> i \<le> ?k then gh1 st ! i + (date - ep) * gh2 st ! i else a ! i) [0..<length a])" if "length a = 196" for a
    using kl l that assms(4,5) by (intro fill_range_ok) simp_all
  have m: "map (\<lambda>i. if 0 < i \<and> i \<le> ?k then gh1 st ! i + (date - ep) * gh2 st ! i
        else map (\<lambda>i. if ?k < i \<and> i \<le> ?l then gh1 st ! i else a ! i) [0..<length a] ! i) [0..<length a] =
      extrapolated (date - ep) n1 n2 (gh1 st) (gh2 st) a" for a
    unfolding extrapolated_def by (intro map_cong refl) auto
  have n: "int n1 \<noteq> int n2" "int n2 < int n1" using assms(2) by simp_all
  show ?thesis
  proof (cases "gh = 3")
    case True
    then have len: "length (gha st) = 196" using assms(6) by (simp add: gh_arr_def)
    show ?thesis unfolding extrapsh_def Let_def c
      using n True f1 [OF len] f2 [unfolded of_nat_0, of "map (\<lambda>i. if ?k < i \<and> i \<le> ?l then gh1 st ! i else gha st ! i) [0..<length (gha st)]"]
        m [of "gha st"] len
      by (simp add: on_gh_def del: of_nat_mult of_nat_add)
  next
    case False
    then have gh: "gh = 4" and len: "length (ghb st) = 196" using assms(1,6) by (auto simp: gh_arr_def)
    show ?thesis unfolding extrapsh_def Let_def c
      using n gh f1 [OF len] f2 [unfolded of_nat_0, of "map (\<lambda>i. if ?k < i \<and> i \<le> ?l then gh1 st ! i else ghb st ! i) [0..<length (ghb st)]"]
        m [of "ghb st"] len
      by (simp add: on_gh_def del: of_nat_mult of_nat_add)
  qed
qed

section \<open>The whole calculation\<close>

definition igrf_wf :: "'a geomag \<Rightarrow> bool" where
  "igrf_wf st \<longleftrightarrow>
     length (gh1 st) = 196 \<and> length (gh2 st) = 196 \<and> length (gha st) = 196 \<and> length (ghb st) = 196 \<and>
     length (epoch st) = 30 \<and> length (yrmin st) = 30 \<and> length (yrmax st) = 30 \<and> length (altmin st) = 30 \<and> length (altmax st) = 30 \<and>
     length (max1 st) = 30 \<and> length (max2 st) = 30 \<and> length (max3 st) = 30 \<and> first_flg st = 0"

lemma dihf_el_xyz [simp]: "e_x (dihf_el m e) = e_x e" "e_y (dihf_el m e) = e_y e" "e_z (dihf_el m e) = e_z e"
  by (simp_all add: dihf_el_def Let_def)

lemma calc_poles_z [simp]: "e_z (cur (calc_poles m st)) = e_z (cur st)" "gccolat (calc_poles m st) = gccolat st"
  "igrf_wf (calc_poles m st) = igrf_wf st"
  by (simp_all add: calc_poles_def Let_def igrf_wf_def)

lemma calc_poles_xy:
  "\<not> lit m 90 - ffabs m (latitude st) \<le> lit m (1 / 1000) \<Longrightarrow>
     e_x (cur (calc_poles m st)) = e_x (cur st) \<and> e_y (cur (calc_poles m st)) = e_y (cur st)"
  by (simp add: calc_poles_def Let_def)

lemma calc_rates_xyz [simp]: "e_x (cur (calc_rates m st)) = e_x (cur st)" "e_y (cur (calc_rates m st)) = e_y (cur st)"
  "e_z (cur (calc_rates m st)) = e_z (cur st)" "latitude (calc_rates m st) = latitude st" "gccolat (calc_rates m st) = gccolat st"
  "igrf_wf (calc_rates m st) = igrf_wf st"
  by (simp_all add: calc_rates_def Let_def igrf_wf_def)

lemma length_extrapolated [simp]: "length (extrapolated f n1 n2 g1 g2 a) = length a"
  by (simp add: extrapolated_def)

text \<open>The state \<^verbatim>\<open>calc_mag_coords\<close> starts from: the model of 2020.\<close>

lemma calc_mag_coords_eq:
  fixes st :: "'a::{plus, minus, uminus, times, inverse, ord} geomag" and m :: "'a libm"
  assumes "igrf_wf st" "modelI st = 0" "max1 st ! 0 = 13" "max2 st ! 0 = 8"
  defines "ga \<equiv> extrapolated (sdate st - epoch st ! 0) 13 8 (gh1 st) (gh2 st) (gha st)"
    and "co \<equiv> sh_coords m 1 (latitude st) (alt st * lit m (1 / 1000))"
  defines "v \<equiv> sh_value m co (longitude st) ga 13 (cur st)"
  shows "\<exists>st'. calc_mag_coords m st = Some st' \<and> igrf_wf st' \<and> gccolat st' = (case co of (r, cd, sd, slat, clat) \<Rightarrow> fatan2 m clat slat) \<and>
     e_z (cur st') = e_z v \<and>
     (\<not> lit m 90 - ffabs m (latitude st) \<le> lit m (1 / 1000) \<longrightarrow> e_x (cur st') = e_x v \<and> e_y (cur st') = e_y v)"
proof -
  define st1 where "st1 = st\<lparr>igdgc := 1, minalt := altmin st ! 0 * lit m 1000, maxalt := altmax st ! 0 * lit m 1000,
      alt := alt st * lit m (1 / 1000)\<rparr>"
  define st2 where "st2 = st1\<lparr>gha := ga\<rparr>"
  define gb where "gb = extrapolated (sdate st + num m 1 - epoch st ! 0) 13 8 (gh1 st) (gh2 st) (ghb st)"
  define st3 where "st3 = st2\<lparr>ghb := gb, nmax := 13\<rparr>"
  define st4 where "st4 = on_el 3 (sh_value m co (longitude st) ga 13) (sh_colat m 1 co st3)"
  define st6 where "st6 = on_el 4 (sh_value m co (longitude st) gb 13) (sh_colat m 1 co (snd (dihf m 3 st4)))"
  have len: "length (gh1 st) = 196" "length (gh2 st) = 196" "length (gha st) = 196" "length (ghb st) = 196"
      "length (epoch st) = 30" "length (altmin st) = 30" "length (altmax st) = 30" "length (max1 st) = 30" "length (max2 st) = 30"
    using assms(1) by (simp_all add: igrf_wf_def)
  have st1_sdate: "sdate st1 = sdate st" by (simp add: st1_def)
  have e1: "extrapsh (sdate st1) (epoch st ! 0) 13 8 3 st1 = Some (13, st2)"
    using extrapsh_eq [of 3 8 13 st1 "sdate st1" "epoch st ! 0"] len by (simp add: st1_def st2_def ga_def gh_arr_def)
  have e2: "extrapsh (sdate st2 + num m 1) (epoch st ! 0) 13 8 4 st2 = Some (13, st2\<lparr>ghb := gb\<rparr>)"
    using extrapsh_eq [of 4 8 13 st2 "sdate st2 + num m 1" "epoch st ! 0"] len
    by (simp add: st1_def st2_def gb_def gh_arr_def ga_def)
  have v1: "shval3 m (igdgc st3) (latitude st3) (longitude st3) (alt st3) (nmax st3) 3 0 (lit m 0) (lit m 0) (lit m 0) st3 = Some (0, st4)"
    using shval3_eq [of 3 st3 13 m 1 "latitude st" "longitude st" "alt st * lit m (1 / 1000)"] len
    by (simp add: st1_def st2_def st3_def st4_def ga_def gh_arr_def co_def)
  have f4: "igdgc (snd (dihf m 3 st4)) = 1" "latitude (snd (dihf m 3 st4)) = latitude st" "longitude (snd (dihf m 3 st4)) = longitude st"
      "alt (snd (dihf m 3 st4)) = alt st * lit m (1 / 1000)" "nmax (snd (dihf m 3 st4)) = 13" "ghb (snd (dihf m 3 st4)) = gb"
    by (simp_all add: dihf_def st4_def on_el_def sh_colat_def st3_def st2_def st1_def split: prod.splits)
  have v2: "shval3 m (igdgc (snd (dihf m 3 st4))) (latitude (snd (dihf m 3 st4))) (longitude (snd (dihf m 3 st4))) (alt (snd (dihf m 3 st4)))
      (nmax (snd (dihf m 3 st4))) 4 0 (lit m 0) (lit m 0) (lit m 0) (snd (dihf m 3 st4)) = Some (0, st6)"
    using shval3_eq [of 4 "snd (dihf m 3 st4)" 13 m 1 "latitude st" "longitude st" "alt st * lit m (1 / 1000)"] len
    by (simp add: f4 gh_arr_def st6_def co_def gb_def)
  let ?st' = "calc_poles m (calc_rates m (snd (dihf m 4 st6)))"
  have "calc_mag_coords m st = Some ?st'"
    unfolding calc_mag_coords_def using assms(2-4) len e1 [unfolded st1_sdate] e2 v1 v2
    by (simp add: arr_get_def st1_def [symmetric] st3_def [symmetric])
  moreover have "igrf_wf (snd (dihf m 4 st6))"
    using assms(1) by (simp add: igrf_wf_def dihf_def st6_def st4_def on_el_def sh_colat_def st3_def st2_def st1_def ga_def gb_def split: prod.splits)
  then have "igrf_wf ?st'" by simp
  moreover have "gccolat ?st' = (case co of (r, cd, sd, slat, clat) \<Rightarrow> fatan2 m clat slat)"
    by (simp add: dihf_def st6_def on_el_def sh_colat_def split: prod.splits)
  moreover have c: "cur (snd (dihf m 4 st6)) = dihf_el m v"
    by (simp add: dihf_def st6_def st4_def on_el_def sh_colat_def v_def st3_def st2_def st1_def split: prod.splits)
  moreover have "latitude (snd (dihf m 4 st6)) = latitude st" using f4(2) by (simp add: dihf_def st6_def on_el_def sh_colat_def split: prod.splits)
  ultimately show ?thesis using calc_poles_xy [of m "calc_rates m (snd (dihf m 4 st6))"] by simp
qed

lemma IgrfCalc_eq:
  fixes st :: "'a::{plus, minus, uminus, times, inverse, ord} geomag" and m :: "'a libm" and decyear latrad lonrad altm :: 'a
  assumes "igrf_wf st"
  defines "ga \<equiv> extrapolated (decyear - num m 2020) 13 8 (gh1 st) (gh2 st) (gha st)"
    and "co \<equiv> sh_coords m 1 (latrad * RAD2DEG m) (altm * lit m (1 / 1000))"
  defines "v \<equiv> sh_value m co (lonrad * RAD2DEG m) ga 13 (cur st)"
  shows "\<exists>st'. IgrfCalc m rm decyear latrad lonrad altm side st =
       Some (TransMagaxisToECI m \<lparr>v0 = e_x (cur st'), v1 = e_y (cur st'), v2 = e_z (cur st')\<rparr> lonrad (gccolat st') side, st') \<and>
     igrf_wf st' \<and> gccolat st' = (case co of (r, cd, sd, slat, clat) \<Rightarrow> fatan2 m clat slat) \<and> e_z (cur st') = e_z v \<and>
     (\<not> lit m 90 - ffabs m (latrad * RAD2DEG m) \<le> lit m (1 / 1000) \<longrightarrow> e_x (cur st') = e_x v \<and> e_y (cur st') = e_y v)"
proof -
  define st2 where "st2 = st\<lparr>sdate := decyear, alt := altm, latitude := latrad * RAD2DEG m, longitude := lonrad * RAD2DEG m,
      yrmin := (yrmin st)[0 := num m 2020], modelI := 0, minyr := num m 2020, maxyr := num m 2025, yrmax := (yrmax st)[0 := num m 2025],
      epoch := (epoch st)[0 := num m 2020], max1 := (max1 st)[0 := 13], max2 := (max2 st)[0 := 8], max3 := (max3 st)[0 := 0],
      altmin := (altmin st)[0 := num m (- 1)], altmax := (altmax st)[0 := num m 600]\<rparr>"
  have "igrf_wf st2" "modelI st2 = 0" "max1 st2 ! 0 = 13" "max2 st2 ! 0 = 8" "epoch st2 ! 0 = num m 2020"
      "sdate st2 = decyear" "latitude st2 = latrad * RAD2DEG m" "longitude st2 = lonrad * RAD2DEG m" "alt st2 = altm"
      "gh1 st2 = gh1 st" "gh2 st2 = gh2 st" "gha st2 = gha st" "cur st2 = cur st"
    using assms(1) by (simp_all add: igrf_wf_def st2_def)
  note f = this
  from calc_mag_coords_eq [OF f(1-4), of m] f obtain st' where
    st': "calc_mag_coords m st2 = Some st'" "igrf_wf st'" "gccolat st' = (case co of (r, cd, sd, slat, clat) \<Rightarrow> fatan2 m clat slat)"
      "e_z (cur st') = e_z v"
      "\<not> lit m 90 - ffabs m (latrad * RAD2DEG m) \<le> lit m (1 / 1000) \<longrightarrow> e_x (cur st') = e_x v \<and> e_y (cur st') = e_y v"
    by (auto simp: ga_def co_def v_def)
  have "IgrfCalc m rm decyear latrad lonrad altm side st =
      Some (TransMagaxisToECI m \<lparr>v0 = e_x (cur st'), v1 = e_y (cur st'), v2 = e_z (cur st')\<rparr> lonrad (gccolat st') side, st')"
    unfolding IgrfCalc_def using assms(1) st'(1) [unfolded st2_def] by (simp add: igrf_wf_def arr_set_def)
  with st' show ?thesis by blast
qed

end
