(* ===== verification/Igrf_Field.thy ===== *)
theory Igrf_Field
  imports Igrf_Laws
begin

text \<open>
  The geomagnetic field in exact arithmetic. The reference is the textbook: a potential that is a sum of spherical harmonics with Schmidt's
  normalisation of the Legendre functions, and the field as its gradient. The code computes these without a derivative, from recurrences for the functions and for
  their derivatives in one loop over an array.
\<close>

locale exact_field = exact_math +
  assumes pow_nat: "fpow m x (real n) = x ^ n"
begin

lemma num_exact [simp]: "num m k = real_of_int k"
  by (simp add: lit_exact)

lemma lit_nat [simp]: "lit m (rat_of_nat n) = real n" "lit m (rat_of_nat n + 2) = real n + 2"
  by (simp_all add: lit_exact of_rat_add)

lemma lits_field [simp]: "lit m 3 = 3" "lit m (9 / 2) = 9 / 2" "lit m (3 / 2) = 3 / 2" "lit m 90 = 90" "lit m 180 = 180"
  by (simp_all add: lit_exact of_rat_divide)

lemma pow_deg [simp]: "fpow m x (real n + 2) = x ^ (n + 2)"
  using pow_nat [of x "n + 2"] by (simp add: ac_simps)

end

interpretation real_field: exact_field real_math
  by unfold_locales (simp add: real_math_def)

section \<open>Legendre functions\<close>

text \<open>Schmidt's quasi-normalised Legendre functions of the sine of a latitude.\<close>

function schmidt :: "nat \<Rightarrow> nat \<Rightarrow> real \<Rightarrow> real" where
  "schmidt n j phi =
     (if n < j then 0
      else if n = 0 then 1
      else if j = n then (if n = 1 then cos phi else sqrt (1 - 1 / (2 * real n)) * cos phi * schmidt (n - 1) (n - 1) phi)
      else ((2 * real n - 1) * sin phi * schmidt (n - 1) j phi - sqrt ((real n - 1)\<^sup>2 - (real j)\<^sup>2) * schmidt (n - 2) j phi) /
             sqrt ((real n)\<^sup>2 - (real j)\<^sup>2))"
  by pat_completeness auto
termination by (relation "measure (\<lambda>(n, _, _). n)") auto

declare schmidt.simps [simp del]

lemma schmidt_diag: "2 \<le> n \<Longrightarrow> schmidt n n phi = sqrt (1 - 1 / (2 * real n)) * cos phi * schmidt (n - 1) (n - 1) phi"
  by (subst schmidt.simps) simp

lemma schmidt_off:
  "j < n \<Longrightarrow> schmidt n j phi =
     ((2 * real n - 1) * sin phi * schmidt (n - 1) j phi - sqrt ((real n - 1)\<^sup>2 - (real j)\<^sup>2) * schmidt (n - 2) j phi) /
       sqrt ((real n)\<^sup>2 - (real j)\<^sup>2)"
  by (subst schmidt.simps) simp

lemma schmidt_0: "schmidt 0 0 phi = 1"
  by (simp add: schmidt.simps)

lemma schmidt_11: "schmidt 1 1 phi = cos phi"
  by (simp add: schmidt.simps)

lemma schmidt_10: "schmidt 1 0 phi = sin phi"
  by (simp add: schmidt_off schmidt_0)

lemma schmidt_20: "schmidt 2 0 phi = 3 / 2 * (sin phi)\<^sup>2 - 1 / 2"
  by (simp add: schmidt_off schmidt_10 [unfolded One_nat_def] schmidt_0 power2_eq_square field_simps)

lemma schmidt_21: "schmidt 2 1 phi = sqrt 3 * cos phi * sin phi"
  by (simp add: schmidt_off schmidt_11 [unfolded One_nat_def] real_div_sqrt field_simps)

context exact_field
begin

text \<open>The recurrence of the code is that of the functions, and its second component that of their derivatives.\<close>

definition leg_ok :: "nat \<Rightarrow> nat \<Rightarrow> bool" where
  "leg_ok n j \<longleftrightarrow> (\<forall>phi. fst (leg m (sin phi) (cos phi) n j) = (real n + 1) * schmidt n j phi \<and>
     (schmidt n j has_real_derivative - snd (leg m (sin phi) (cos phi) n j)) (at phi))"

lemma leg_ok_diag:
  assumes "2 \<le> n" "leg_ok (n - 1) (n - 1)"
  shows "leg_ok n n"
  unfolding leg_ok_def
proof
  fix phi
  let ?C = "fst (leg m (sin phi) (cos phi) n n) = (real n + 1) * schmidt n n phi \<and>
     (schmidt n n has_real_derivative - snd (leg m (sin phi) (cos phi) n n)) (at phi)"
  let ?L = "leg m (sin phi) (cos phi) (n - 1) (n - 1)" and ?a = "sqrt (1 - 1 / (2 * real n))"
  from assms have IH: "fst ?L = real n * schmidt (n - 1) (n - 1) phi"
      "(schmidt (n - 1) (n - 1) has_real_derivative - snd ?L) (at phi)" by (simp_all add: leg_ok_def of_nat_diff)
  have a: "fsqrt m (1 - 1 / (2 * real n)) = ?a" using assms(1) by (intro sqrt_exact) (simp add: field_simps)
  have "schmidt n n = (\<lambda>phi. ?a * cos phi * schmidt (n - 1) (n - 1) phi)" using assms(1) by (intro ext schmidt_diag)
  moreover have "((\<lambda>phi. ?a * cos phi * schmidt (n - 1) (n - 1) phi) has_real_derivative
      - (?a * (cos phi * snd ?L + sin phi * schmidt (n - 1) (n - 1) phi))) (at phi)"
    by (rule derivative_eq_intros refl IH(2))+ (simp add: algebra_simps)
  moreover have "leg m (sin phi) (cos phi) n n =
      ((1 + 1 / real n) * ?a * cos phi * fst ?L, ?a * (cos phi * snd ?L + sin phi / real n * fst ?L))"
    using assms(1) by (simp add: leg_diag Let_def case_prod_beta a)
  moreover have "(1 + 1 / real n) * ?a * cos phi * (real n * x) = (real n + 1) * (?a * cos phi * x)"
      "sin phi / real n * (real n * x) = sin phi * x" for x using assms(1) by (simp_all add: distrib_right)
  ultimately show ?C using assms(1) IH(1) by simp
qed

lemma leg_ok_off:
  assumes "3 \<le> n" "j < n" "leg_ok (n - 1) j" "j \<noteq> n - 1 \<Longrightarrow> leg_ok (n - 2) j"
  shows "leg_ok n j"
  unfolding leg_ok_def
proof
  fix phi
  let ?L1 = "leg m (sin phi) (cos phi) (n - 1) j"
  let ?L2 = "if j = n - 1 then leg m (sin phi) (cos phi) (n - 1) 0 else leg m (sin phi) (cos phi) (n - 2) j"
  let ?aa = "sqrt ((real n)\<^sup>2 - (real j)\<^sup>2)" and ?b = "sqrt ((real n - 1)\<^sup>2 - (real j)\<^sup>2)"
  from assms(1-3) have IH1: "fst ?L1 = real n * schmidt (n - 1) j phi"
      "(schmidt (n - 1) j has_real_derivative - snd ?L1) (at phi)" by (simp_all add: leg_ok_def of_nat_diff)
  have IH2: "?b * fst ?L2 = ?b * ((real n - 1) * schmidt (n - 2) j phi) \<and>
      ((\<lambda>phi. ?b * schmidt (n - 2) j phi) has_real_derivative - (?b * snd ?L2)) (at phi)"
  proof (cases "j = n - 1")
    case True
    then have "?b = 0" using assms(1,2) by (simp add: of_nat_diff)
    then show ?thesis by simp
  next
    case False
    with assms have "fst ?L2 = (real n - 1) * schmidt (n - 2) j phi"
      "(schmidt (n - 2) j has_real_derivative - snd ?L2) (at phi)" by (simp_all add: leg_ok_def of_nat_diff)
    then show ?thesis by (auto intro!: derivative_eq_intros)
  qed
  have pos: "0 < (real n)\<^sup>2 - (real j)\<^sup>2" using assms(1,2) by (simp add: power_strict_mono)
  have "real j \<le> real n - 1" using assms(1,2) by linarith
  then have "(real j)\<^sup>2 \<le> (real n - 1)\<^sup>2" by (rule power_mono) simp
  then have r: "fsqrt m (real n * real n - real j * real j) = ?aa" "fsqrt m ((real n - 1) * (real n - 1) - real j * real j) = ?b"
    using pos sqrt_exact [of "(real n)\<^sup>2 - (real j)\<^sup>2"] sqrt_exact [of "(real n - 1)\<^sup>2 - (real j)\<^sup>2"] by (simp_all add: power2_eq_square)
  have D1: "((\<lambda>phi. (2 * real n - 1) * sin phi * schmidt (n - 1) j phi) has_real_derivative
      (2 * real n - 1) * (cos phi * schmidt (n - 1) j phi - sin phi * snd ?L1)) (at phi)"
    by (rule derivative_eq_intros refl IH1(2))+ (simp add: algebra_simps)
  have frac: "x / ?aa * u - ?b / ?aa * w = (x * u - ?b * w) / ?aa" for x u w :: real by (simp add: diff_divide_distrib)
  have n: "sin phi / real n * (real n * x) = sin phi * x" "cos phi / real n * (real n * x) = cos phi * x" for x
    using assms(1,2) by simp_all
  have L2: "?b / ?aa / (real n - 1) * fst ?L2 = ?b / ?aa * schmidt (n - 2) j phi"
  proof -
    have "?b / ?aa / (real n - 1) * fst ?L2 = (?b * fst ?L2) / (?aa * (real n - 1))" by simp
    also have "\<dots> = ?b / ?aa * schmidt (n - 2) j phi" unfolding conjunct1 [OF IH2] using assms(1,2) by simp
    finally show ?thesis .
  qed
  have leg: "leg m (sin phi) (cos phi) n j =
      ((real n + 1) * ((2 * real n - 1) / ?aa * (sin phi / real n * fst ?L1) - ?b / ?aa / (real n - 1) * fst ?L2),
       (2 * real n - 1) / ?aa * (sin phi * snd ?L1 - cos phi / real n * fst ?L1) - ?b / ?aa * snd ?L2)"
    using assms(1,2) by (simp add: leg_off Let_def case_prod_beta r)
  have "fst (leg m (sin phi) (cos phi) n j) = (real n + 1) * schmidt n j phi"
    unfolding leg fst_conv IH1(1) L2 n frac schmidt_off [OF assms(2)] by (simp add: mult.assoc)
  moreover have "snd (leg m (sin phi) (cos phi) n j) =
      ((2 * real n - 1) * (sin phi * snd ?L1 - cos phi * schmidt (n - 1) j phi) - ?b * snd ?L2) / ?aa"
    unfolding leg snd_conv IH1(1) n frac by simp
  moreover have "schmidt n j = (\<lambda>phi. ((2 * real n - 1) * sin phi * schmidt (n - 1) j phi - ?b * schmidt (n - 2) j phi) / ?aa)"
    using assms(1,2) by (intro ext schmidt_off)
  moreover have "((\<lambda>phi. ((2 * real n - 1) * sin phi * schmidt (n - 1) j phi - ?b * schmidt (n - 2) j phi) / ?aa) has_real_derivative
      - (((2 * real n - 1) * (sin phi * snd ?L1 - cos phi * schmidt (n - 1) j phi) - ?b * snd ?L2) / ?aa)) (at phi)"
    by (rule DERIV_cong [OF DERIV_cdivide [OF DERIV_diff [OF D1 conjunct2 [OF IH2]]]])
      (simp add: minus_divide_left algebra_simps del: minus_divide_left [symmetric])
  ultimately show "fst (leg m (sin phi) (cos phi) n j) = (real n + 1) * schmidt n j phi \<and>
     (schmidt n j has_real_derivative - snd (leg m (sin phi) (cos phi) n j)) (at phi)" by (simp only:)
qed

lemma leg_schmidt: "1 \<le> n \<Longrightarrow> j \<le> n \<Longrightarrow> leg_ok n j"
proof (induction n arbitrary: j rule: less_induct)
  case (less n)
  consider "n = 1" "j = 0" | "n = 1" "j = 1" | "n = 2" "j = 0" | "n = 2" "j = 1" | "2 \<le> n" "j = n" | "3 \<le> n" "j < n"
    using less.prems by linarith
  then show ?case
  proof cases
    case 1
    have "schmidt 1 0 = sin" by (rule ext) (rule schmidt_10)
    with 1 show ?thesis unfolding leg_ok_def by (simp only: leg_first fst_conv snd_conv) (auto intro!: derivative_eq_intros simp: lits)
  next
    case 2
    have "schmidt 1 1 = cos" by (rule ext) (rule schmidt_11)
    with 2 show ?thesis unfolding leg_ok_def by (simp only: leg_first fst_conv snd_conv) (auto intro!: derivative_eq_intros simp: lits)
  next
    case 3
    have "schmidt 2 0 = (\<lambda>phi. 3 / 2 * (sin phi)\<^sup>2 - 1 / 2)" by (rule ext) (rule schmidt_20)
    with 3 show ?thesis unfolding leg_ok_def
      by (simp only: leg_first fst_conv snd_conv) (auto intro!: derivative_eq_intros simp: power2_eq_square field_simps)
  next
    case 4
    have "schmidt 2 1 = (\<lambda>phi. sqrt 3 * cos phi * sin phi)" by (rule ext) (rule schmidt_21)
    with 4 sqrt_exact [of 3] show ?thesis unfolding leg_ok_def
      by (simp only: leg_first fst_conv snd_conv) (auto intro!: derivative_eq_intros simp: power2_eq_square field_simps)
  next
    case 5
    with less.IH [of "n - 1" "n - 1"] leg_ok_diag show ?thesis by simp
  next
    case 6
    with less.IH [of "n - 1" j] less.IH [of "n - 2" j] leg_ok_off show ?thesis by simp
  qed
qed

end

section \<open>The potential and its gradient\<close>

text \<open>The Earth's radius of the model, and the potential at a radius, a latitude and a longitude.\<close>

definition earths_radius :: real where "earths_radius = 63712 / 10"

definition harmonic :: "real list \<Rightarrow> nat \<Rightarrow> nat \<Rightarrow> real \<Rightarrow> real" where
  "harmonic g n j lam = g ! coef_g n j * cos (real j * lam) + g ! coef_h n j * sin (real j * lam)"

definition potential :: "real list \<Rightarrow> nat \<Rightarrow> real \<Rightarrow> real \<Rightarrow> real \<Rightarrow> real" where
  "potential g N r phi lam =
     earths_radius * (\<Sum>n = 1..N. \<Sum>j\<le>n. (earths_radius / r) ^ (n + 1) * (harmonic g n j lam * schmidt n j phi))"

text \<open>Summing along the index of the code is summing over degrees and orders.\<close>

lemma sum_triangle: "(\<Sum>k = 1..tri N + N. f (deg_ord k)) = (\<Sum>n = 1..N. \<Sum>j\<le>n. f (n, j) :: real)"
proof (induction N)
  case (Suc N)
  have "(\<Sum>k = 1..tri (Suc N) + Suc N. f (deg_ord k)) =
      (\<Sum>k = 1..tri N + N. f (deg_ord k)) + (\<Sum>k = tri N + N + 1..tri (Suc N) + Suc N. f (deg_ord k))"
    using sum.ub_add_nat [of 1 "tri N + N" "\<lambda>k. f (deg_ord k)" "Suc N + 1"] by (simp add: ac_simps)
  also have "(\<Sum>k = tri N + N + 1..tri (Suc N) + Suc N. f (deg_ord k)) = (\<Sum>j = 0..Suc N. f (deg_ord (j + tri (Suc N))))"
    using sum.shift_bounds_cl_nat_ivl [of "\<lambda>k. f (deg_ord k)" 0 "tri (Suc N)" "Suc N"] by (simp add: ac_simps)
  also have "\<dots> = (\<Sum>j\<le>Suc N. f (Suc N, j))"
    unfolding atMost_atLeast0 by (intro sum.cong refl) (simp add: add.commute [of _ "tri (Suc N)"] deg_ord_tri del: tri.simps)
  finally show ?case using Suc by (simp del: tri.simps)
qed simp

lemma multiple_exact: "1 \<le> j \<Longrightarrow> multiple (sin lam) (cos lam) j = (sin (real j * lam), cos (real j * lam))"
proof (induction j)
  case (Suc j)
  show ?case
  proof (cases "j = 0")
    case False
    with Suc show ?thesis by (simp add: multiple_Suc sin_add cos_add distrib_right add.commute)
  qed (simp add: multiple_1)
qed simp

context exact_field
begin

text \<open>The three components the loop adds up.\<close>

lemma sh_terms_exact:
  fixes g :: "real list" and ratio lam phi :: real
  assumes "0 < cos phi"
  defines "T \<equiv> sh_terms m ratio (sin lam) (cos lam) (sin phi) (cos phi) g"
  shows "e_x (T k e) = e_x e + (\<Sum>i = 1..k. (\<lambda>(n, j). ratio ^ (n + 2) * harmonic g n j lam * snd (leg m (sin phi) (cos phi) n j)) (deg_ord i))"
    "e_z (T k e) = e_z e - (\<Sum>i = 1..k. (\<lambda>(n, j). ratio ^ (n + 2) * harmonic g n j lam * fst (leg m (sin phi) (cos phi) n j)) (deg_ord i))"
    "e_y (T k e) = e_y e + (\<Sum>i = 1..k. (\<lambda>(n, j). ratio ^ (n + 2) * (g ! coef_g n j * sin (real j * lam) - g ! coef_h n j * cos (real j * lam)) *
       real j * fst (leg m (sin phi) (cos phi) n j) / ((real n + 1) * cos phi)) (deg_ord i))"
proof (induction k)
  case 0
  {
    case 1 show ?case by (simp add: T_def)
  next
    case 2 show ?case by (simp add: T_def)
  next
    case 3 show ?case by (simp add: T_def)
  }
next
  case (Suc k)
  obtain n j where d: "deg_ord (Suc k) = (n, j)" by force
  have t: "T (Suc k) e = sh_term m ratio (sin lam) (cos lam) (sin phi) (cos phi) g (n, j) (T k e)" by (simp add: T_def d)
  {
    case 1
    show ?case using Suc(1) d unfolding t by (cases "j = 0")
        (simp_all add: sh_term_def Let_def case_prod_beta harmonic_def multiple_exact algebra_simps)
  next
    case 2
    show ?case using Suc(2) d unfolding t by (cases "j = 0")
        (simp_all add: sh_term_def Let_def case_prod_beta harmonic_def multiple_exact algebra_simps)
  next
    case 3
    show ?case using Suc(3) d assms(1) unfolding t by (cases "j = 0")
        (simp_all add: sh_term_def Let_def case_prod_beta multiple_exact algebra_simps)
  }
qed

end

lemma potential_deriv:
  fixes c :: "nat \<Rightarrow> nat \<Rightarrow> real \<Rightarrow> real"
  assumes "\<And>n j. 1 \<le> n \<Longrightarrow> j \<le> n \<Longrightarrow> ((\<lambda>t. earths_radius * c n j t) has_real_derivative d n j) (at t0)"
  shows "((\<lambda>t. earths_radius * (\<Sum>n = 1..N. \<Sum>j\<le>n. c n j t)) has_real_derivative (\<Sum>n = 1..N. \<Sum>j\<le>n. d n j)) (at t0)"
  unfolding sum_distrib_left by (intro DERIV_sum) (use assms in simp)

lemma ratio_step: "0 < r \<Longrightarrow> earths_radius * (earths_radius / r) ^ (n + 1) = r * (earths_radius / r) ^ (n + 2)"
  by simp

context exact_field
begin

text \<open>The sums of the code are the derivatives of the potential.\<close>

lemma north_deriv:
  assumes "0 < r"
  shows "((\<lambda>t. potential g N r t lam) has_real_derivative
     - r * (\<Sum>n = 1..N. \<Sum>j\<le>n. (earths_radius / r) ^ (n + 2) * harmonic g n j lam * snd (leg m (sin phi) (cos phi) n j))) (at phi)"
proof -
  have "((\<lambda>t. earths_radius * ((earths_radius / r) ^ (n + 1) * (harmonic g n j lam * schmidt n j t))) has_real_derivative
      - r * ((earths_radius / r) ^ (n + 2) * harmonic g n j lam * snd (leg m (sin phi) (cos phi) n j))) (at phi)"
    if "1 \<le> n" "j \<le> n" for n j
  proof -
    have "(schmidt n j has_real_derivative - snd (leg m (sin phi) (cos phi) n j)) (at phi)"
      using leg_schmidt [OF that] by (simp add: leg_ok_def)
    from DERIV_cmult [OF this, of "earths_radius * (earths_radius / r) ^ (n + 1) * harmonic g n j lam"] show ?thesis
      unfolding ratio_step [OF assms] mult.assoc [symmetric] by (simp add: mult.assoc)
  qed
  from potential_deriv [OF this] show ?thesis unfolding potential_def by (simp add: sum_distrib_left)
qed

lemma east_deriv:
  assumes "0 < r" "0 < cos phi"
  shows "((\<lambda>t. potential g N r phi t) has_real_derivative
     - r * cos phi * (\<Sum>n = 1..N. \<Sum>j\<le>n. (earths_radius / r) ^ (n + 2) *
         (g ! coef_g n j * sin (real j * lam) - g ! coef_h n j * cos (real j * lam)) * real j *
         fst (leg m (sin phi) (cos phi) n j) / ((real n + 1) * cos phi))) (at lam)"
proof -
  have "((\<lambda>t. earths_radius * ((earths_radius / r) ^ (n + 1) * (harmonic g n j t * schmidt n j phi))) has_real_derivative
      - r * cos phi * ((earths_radius / r) ^ (n + 2) *
         (g ! coef_g n j * sin (real j * lam) - g ! coef_h n j * cos (real j * lam)) * real j *
         fst (leg m (sin phi) (cos phi) n j) / ((real n + 1) * cos phi))) (at lam)"
    if "1 \<le> n" "j \<le> n" for n j
  proof -
    let ?D = "- (g ! coef_g n j * sin (real j * lam) - g ! coef_h n j * cos (real j * lam)) * real j"
    have f: "fst (leg m (sin phi) (cos phi) n j) / ((real n + 1) * cos phi) = schmidt n j phi / cos phi"
      using leg_schmidt [OF that] by (simp add: leg_ok_def add_nonneg_eq_0_iff)
    have "(harmonic g n j has_real_derivative ?D) (at lam)"
      unfolding harmonic_def [abs_def] by (auto intro!: derivative_eq_intros simp: algebra_simps)
    then have "((\<lambda>t. r * (earths_radius / r) ^ (n + 2) * harmonic g n j t * schmidt n j phi) has_real_derivative
        r * (earths_radius / r) ^ (n + 2) * ?D * schmidt n j phi) (at lam)"
      by (intro DERIV_cmult_right DERIV_cmult)
    moreover have "- r * cos phi * (x * y * z * (w / cos phi)) = r * x * (- y * z) * w" for x y z w using assms(2) by simp
    ultimately show ?thesis
      unfolding times_divide_eq_right [symmetric] f by (simp only: mult.assoc [symmetric] ratio_step [OF assms(1)])
  qed
  from potential_deriv [OF this] show ?thesis unfolding potential_def by (simp add: sum_distrib_left)
qed

lemma down_deriv:
  assumes "0 < r"
  shows "((\<lambda>t. potential g N t phi lam) has_real_derivative
     - (\<Sum>n = 1..N. \<Sum>j\<le>n. (earths_radius / r) ^ (n + 2) * harmonic g n j lam * fst (leg m (sin phi) (cos phi) n j))) (at r)"
proof -
  have "((\<lambda>t. earths_radius * ((earths_radius / t) ^ (n + 1) * (harmonic g n j lam * schmidt n j phi))) has_real_derivative
      - ((earths_radius / r) ^ (n + 2) * harmonic g n j lam * fst (leg m (sin phi) (cos phi) n j))) (at r)"
    if "1 \<le> n" "j \<le> n" for n j
  proof -
    have "((\<lambda>t. earths_radius / t) has_real_derivative - (earths_radius / r\<^sup>2)) (at r)"
      using assms by (auto intro!: derivative_eq_intros simp: power2_eq_square)
    from DERIV_power [OF this, of "n + 1"]
    have p: "((\<lambda>t. (earths_radius / t) ^ (n + 1)) has_real_derivative real (n + 1) * (earths_radius / r) ^ n * (- (earths_radius / r\<^sup>2))) (at r)"
      by (simp add: mult_ac)
    have "earths_radius * (real (n + 1) * (earths_radius / r) ^ n * (- (earths_radius / r\<^sup>2))) = - ((real n + 1) * (earths_radius / r) ^ (n + 2))"
      by (simp add: power_add power2_eq_square power_divide mult_ac add.commute)
    with DERIV_cmult_right [OF DERIV_cmult [OF p, of earths_radius], of "harmonic g n j lam * schmidt n j phi"] show ?thesis
      using leg_schmidt [OF that] by (simp add: leg_ok_def mult_ac power2_eq_square add.commute)
  qed
  from potential_deriv [OF this] show ?thesis unfolding potential_def by (simp add: sum_negf)
qed

end

section \<open>Geodetic coordinates\<close>

text \<open>The squares of the axes of the reference ellipsoid.\<close>

definition axis_a2 :: real where "axis_a2 = 4068063159 / 100"
definition axis_b2 :: real where "axis_b2 = 4040829998 / 100"

text \<open>The identities between the radius, the angle of the verticals and the ellipsoid, for the distance \<open>dd\<close>.\<close>

lemma geodetic_radius:
  fixes a b s c e dd :: real
  assumes "s * s + c * c = 1" "dd * dd = a * c * c + b * s * s" "dd \<noteq> 0"
  shows "e * (e + 2 * dd) + (a * (a * c * c) + b * (b * s * s)) / (a * c * c + b * s * s) =
     (e + dd) * (e + dd) + (a - b) / dd * s * c * ((a - b) / dd * s * c)"
proof -
  let ?cc = "a * c * c + b * s * s"
  have "?cc * ?cc + (a - b) * (a - b) * (s * s) * (c * c) = (a * a * (c * c) + b * b * (s * s)) * (s * s + c * c)"
    by (simp add: algebra_simps)
  from this [unfolded assms(1)]
  have k: "a * (a * c * c) + b * (b * s * s) = ?cc * ?cc + (a - b) * (a - b) * (s * s) * (c * c)" by (simp add: mult.assoc)
  have "(a - b) / dd * s * c * ((a - b) / dd * s * c) = (a - b) * (a - b) * (s * s) * (c * c) / ?cc"
    unfolding assms(2) [symmetric] by (simp add: algebra_simps)
  moreover have "(e + dd) * (e + dd) = e * (e + 2 * dd) + ?cc" unfolding assms(2) [symmetric] by (simp add: algebra_simps)
  moreover have "?cc \<noteq> 0" using assms(2,3) by (metis mult_eq_0_iff)
  ultimately show ?thesis unfolding k by (simp add: add_divide_distrib)
qed

lemma geodetic_position:
  fixes a b s c e dd :: real
  assumes "s * s + c * c = 1" "dd * dd = a * c * c + b * s * s" "dd \<noteq> 0"
  shows "c * (e + dd) + s * ((a - b) / dd * s * c) = (e + a / dd) * c"
    "s * (e + dd) - c * ((a - b) / dd * s * c) = (e + b / dd) * s"
proof -
  have "c * (e + dd) + s * ((a - b) / dd * s * c) = c * (e + (dd * dd + (a - b) * (s * s)) / dd)"
    using assms(3) by (simp add: field_simps)
  also have "dd * dd + (a - b) * (s * s) = a * (s * s + c * c)" unfolding assms(2) by (simp add: algebra_simps)
  finally show "c * (e + dd) + s * ((a - b) / dd * s * c) = (e + a / dd) * c" using assms(1) by (simp add: mult.commute)
  have "s * (e + dd) - c * ((a - b) / dd * s * c) = s * (e + (dd * dd - (a - b) * (c * c)) / dd)"
    using assms(3) by (simp add: field_simps)
  also have "dd * dd - (a - b) * (c * c) = b * (s * s + c * c)" unfolding assms(2) by (simp add: algebra_simps)
  finally show "s * (e + dd) - c * ((a - b) / dd * s * c) = (e + b / dd) * s" using assms(1) by (simp add: mult.commute)
qed

context exact_field
begin

lemma geodetic_turn:
  assumes "s * s + c * c = 1" "0 \<le> elev"
  defines "dd \<equiv> sqrt (axis_a2 * c * c + axis_b2 * s * s)"
  shows "\<exists>r cd sd. sh_geodetic m elev s c = (r, cd, sd, s * cd - c * sd, c * cd + s * sd) \<and> 0 < r \<and> cd * cd + sd * sd = 1 \<and>
     r * (c * cd + s * sd) = (elev + axis_a2 / dd) * c \<and> r * (s * cd - c * sd) = (elev + axis_b2 / dd) * s"
proof -
  let ?cc = "axis_a2 * c * c + axis_b2 * s * s"
  have ab: "0 < axis_b2" "axis_b2 < axis_a2" by (simp_all add: axis_a2_def axis_b2_def)
  have "axis_b2 = axis_b2 * (s * s + c * c)" using assms(1) by simp
  also have "\<dots> \<le> ?cc" using ab by (simp add: distrib_left mult.assoc mult_right_mono)
  finally have cc0: "0 < ?cc" using ab by linarith
  then have dd: "0 < dd" "dd * dd = ?cc" "dd \<noteq> 0" by (simp_all add: dd_def)
  define u w where "u = elev + dd" and "w = (axis_a2 - axis_b2) / dd * s * c"
  note r2 = geodetic_radius [OF assms(1) dd(2,3), of elev, folded u_def w_def]
  have "0 < u" using assms(2) dd by (simp add: u_def)
  then have pos: "0 < u * u + w * w" by (simp add: add_pos_nonneg)
  define r where "r = sqrt (u * u + w * w)"
  have r: "0 < r" "r * r = u * u + w * w" using pos by (simp_all add: r_def)
  have f: "fsqrt m ?cc = dd" "fsqrt m (u * u + w * w) = r" using cc0 pos by (simp_all add: sqrt_exact dd_def r_def)
  have l: "lit m (4068063159 / 100) = axis_a2" "lit m (4040829998 / 100) = axis_b2"
    by (simp_all add: lit_exact of_rat_divide axis_a2_def axis_b2_def)
  have "sh_geodetic m elev s c = (r, u / r, w / r, s * (u / r) - c * (w / r), c * (u / r) + s * (w / r))"
    unfolding sh_geodetic_def Let_def l lits f(1) r2 f(2) by (simp add: u_def w_def)
  moreover have "u / r * (u / r) + w / r * (w / r) = 1" using r(1) by (simp add: add_divide_distrib [symmetric] r(2) [symmetric])
  moreover have "r * (c * (u / r) + s * (w / r)) = (elev + axis_a2 / dd) * c"
    using r(1) geodetic_position(1) [OF assms(1) dd(2,3), of elev, folded u_def w_def] by (simp add: distrib_left)
  moreover have "r * (s * (u / r) - c * (w / r)) = (elev + axis_b2 / dd) * s"
    using r(1) geodetic_position(2) [OF assms(1) dd(2,3), of elev, folded u_def w_def] by (simp add: right_diff_distrib)
  ultimately show ?thesis using r(1) by blast
qed

end

section \<open>The field\<close>

text \<open>North, east and down are the components of the gradient of a potential in spherical coordinates, with the sign of the field.\<close>

definition is_field :: "(real \<Rightarrow> real \<Rightarrow> real \<Rightarrow> real) \<Rightarrow> real \<Rightarrow> real \<Rightarrow> real \<Rightarrow> real \<Rightarrow> real \<Rightarrow> real \<Rightarrow> bool" where
  "is_field V r phi lam north east down \<longleftrightarrow>
     ((\<lambda>t. V r t lam) has_real_derivative - r * north) (at phi) \<and>
     ((\<lambda>t. V r phi t) has_real_derivative - r * cos phi * east) (at lam) \<and>
     ((\<lambda>t. V t phi lam) has_real_derivative down) (at r)"

text \<open>The point at a height over the ellipsoid, in spherical coordinates.\<close>

definition over_ellipsoid :: "real \<Rightarrow> real \<Rightarrow> real \<Rightarrow> real \<Rightarrow> bool" where
  "over_ellipsoid elev phi r phi' \<longleftrightarrow>
     0 < r \<and>
     r * cos phi' = (elev + axis_a2 / sqrt (axis_a2 * (cos phi)\<^sup>2 + axis_b2 * (sin phi)\<^sup>2)) * cos phi \<and>
     r * sin phi' = (elev + axis_b2 / sqrt (axis_a2 * (cos phi)\<^sup>2 + axis_b2 * (sin phi)\<^sup>2)) * sin phi"

text \<open>Degrees to radians, with the constant of the code.\<close>

definition dtr :: real where "dtr = 1745329 / 10 ^ 8"

definition turned_field :: "real elements \<Rightarrow> (real \<Rightarrow> real \<Rightarrow> real \<Rightarrow> real) \<Rightarrow> real \<Rightarrow> real \<Rightarrow> real \<Rightarrow> bool" where
  "turned_field e V elev phi lam \<longleftrightarrow>
     (\<exists>r phi' north down. over_ellipsoid elev phi r phi' \<and> is_field V r phi' lam north (e_y e) down \<and>
        e_x e = north * cos (phi - phi') + down * sin (phi - phi') \<and>
        e_z e = down * cos (phi - phi') - north * sin (phi - phi'))"

context exact_field
begin

lemma sh_value_field:
  assumes "0 < r" "0 < cos phi" and that: "v = sh_value m (r, cd, sd, sin phi, cos phi) flon g N e"
  shows "\<exists>north down. is_field (potential g N) r phi (flon * dtr) north (e_y v) down \<and>
       e_x v = north * cd + down * sd \<and> e_z v = down * cd - north * sd"
proof -
  let ?lam = "flon * dtr" and ?e0 = "e\<lparr>e_x := 0, e_y := 0, e_z := 0\<rparr>"
  have l: "lit m (1745329 / 10 ^ 8) = dtr" "lit m (63712 / 10) = earths_radius"
    by (simp_all add: lit_exact of_rat_divide dtr_def earths_radius_def)
  let ?T = "sh_terms m (earths_radius / r) (sin ?lam) (cos ?lam) (sin phi) (cos phi) g (tri N + N) ?e0"
  have v: "v = sh_turn cd sd ?T" unfolding that sh_value_def by (simp add: Let_def l [simplified])
  note t = sh_terms_exact [OF assms(2), of "earths_radius / r" ?lam g "tri N + N" ?e0, unfolded sum_triangle split_conv]
  have "is_field (potential g N) r phi ?lam (e_x ?T) (e_y ?T) (e_z ?T)"
    unfolding is_field_def t using north_deriv [OF assms(1)] east_deriv [OF assms(1,2)] down_deriv [OF assms(1)] by simp
  then show ?thesis unfolding v by (auto simp: sh_turn_def)
qed

lemma sh_coords_exact:
  assumes "0 \<le> elev" "1 / 1000 \<le> 90 - flat" "1 / 1000 \<le> 90 + flat" "0 < cos (flat * dtr)"
  shows "\<exists>r delta. sh_coords m 1 flat elev = (r, cos delta, sin delta, sin (flat * dtr - delta), cos (flat * dtr - delta)) \<and>
     over_ellipsoid elev (flat * dtr) r (flat * dtr - delta) \<and> 0 < cos (flat * dtr - delta)"
proof -
  let ?s = "sin (flat * dtr)" and ?c = "cos (flat * dtr)"
  let ?dd = "sqrt (axis_a2 * ?c * ?c + axis_b2 * ?s * ?s)"
  have l: "lit m (1745329 / 10 ^ 8) = dtr" "lit m (1 / 1000) = 1 / 1000"
    by (simp_all add: lit_exact of_rat_divide dtr_def)
  have "?s * ?s + ?c * ?c = 1" using sin_cos_squared_add [of "flat * dtr"] by (simp add: power2_eq_square)
  from geodetic_turn [OF this assms(1)] obtain r cd sd where
      g: "sh_geodetic m elev ?s ?c = (r, cd, sd, ?s * cd - ?c * sd, ?c * cd + ?s * sd)" "0 < r" "cd * cd + sd * sd = 1"
        "r * (?c * cd + ?s * sd) = (elev + axis_a2 / ?dd) * ?c" "r * (?s * cd - ?c * sd) = (elev + axis_b2 / ?dd) * ?s" by blast
  from g(3) obtain delta where d: "cd = cos delta" "sd = sin delta" using sincos_total_2pi [of cd sd] by (auto simp: power2_eq_square)
  have ang: "sin (flat * dtr - delta) = ?s * cd - ?c * sd" "cos (flat * dtr - delta) = ?c * cd + ?s * sd"
    by (simp_all add: d sin_diff cos_diff)
  have "sh_coords m 1 flat elev = (r, cd, sd, sin (flat * dtr - delta), cos (flat * dtr - delta))"
    unfolding sh_coords_def Let_def l ang using assms(2,3) g(1) by simp
  moreover have "over_ellipsoid elev (flat * dtr) r (flat * dtr - delta)"
    unfolding over_ellipsoid_def ang power2_eq_square using g(2,4,5) by (simp add: mult.assoc)
  moreover have "0 < cos (flat * dtr - delta)"
  proof -
    have "0 \<le> ?dd" "0 < axis_a2" by (simp_all add: axis_a2_def axis_b2_def)
    moreover have "?dd \<noteq> 0"
    proof -
      have "0 < axis_a2 * ?c * ?c" using assms(4) by (simp add: axis_a2_def)
      moreover have "0 \<le> axis_b2 * ?s * ?s" by (simp add: axis_b2_def mult.assoc)
      ultimately show ?thesis by simp
    qed
    ultimately have "0 < (elev + axis_a2 / ?dd) * ?c" using assms(1,4) by (intro mult_pos_pos add_nonneg_pos) simp_all
    then show ?thesis using g(2,4) unfolding ang by (metis zero_less_mult_pos)
  qed
  ultimately show ?thesis unfolding d by blast
qed

lemma sh_value_gradient:
  assumes "0 \<le> elev" "1 / 1000 \<le> 90 - flat" "1 / 1000 \<le> 90 + flat" "0 < cos (flat * dtr)"
  shows "turned_field (sh_value m (sh_coords m 1 flat elev) flon g N e) (potential g N) elev (flat * dtr) (flon * dtr)"
proof -
  from sh_coords_exact [OF assms] obtain r delta where
      c: "sh_coords m 1 flat elev = (r, cos delta, sin delta, sin (flat * dtr - delta), cos (flat * dtr - delta))"
        "over_ellipsoid elev (flat * dtr) r (flat * dtr - delta)" "0 < cos (flat * dtr - delta)" by blast
  then have "0 < r" by (simp add: over_ellipsoid_def)
  from sh_value_field [OF this c(3) refl, of g N flon "cos delta" "sin delta" e] obtain north down where
    f: "is_field (potential g N) r (flat * dtr - delta) (flon * dtr) north (e_y (sh_value m (sh_coords m 1 flat elev) flon g N e)) down"
      "e_x (sh_value m (sh_coords m 1 flat elev) flon g N e) = north * cos delta + down * sin delta"
      "e_z (sh_value m (sh_coords m 1 flat elev) flon g N e) = down * cos delta - north * sin delta"
    unfolding c(1) by blast
  have "flat * dtr - (flat * dtr - delta) = delta" by simp
  with f c(2) show ?thesis unfolding turned_field_def by metis
qed

end

context exact_field
begin

lemma igrf_gradient:
  assumes "igrf_wf st" "0 \<le> altm" "lat = latrad * RAD2DEG m" "lon = lonrad * RAD2DEG m" "1 / 1000 < 90 - \<bar>lat\<bar>" "0 < cos (lat * dtr)"
  shows "\<exists>st' g. IgrfCalc m rm decyear latrad lonrad altm side st =
       Some (TransMagaxisToECI m \<lparr>v0 = e_x (cur st'), v1 = e_y (cur st'), v2 = e_z (cur st')\<rparr> lonrad (gccolat st') side, st') \<and>
     length g = 196 \<and> (\<forall>i. 0 < i \<longrightarrow> i < 196 \<longrightarrow> g ! i = gh1 st ! i + (if i \<le> 80 then (decyear - 2020) * gh2 st ! i else 0)) \<and>
     turned_field (cur st') (potential g 13) (altm / 1000) (lat * dtr) (lon * dtr)"
proof -
  let ?g = "extrapolated (decyear - num m 2020) 13 8 (gh1 st) (gh2 st) (gha st)"
  let ?v = "sh_value m (sh_coords m 1 lat (altm * lit m (1 / 1000))) lon ?g 13 (cur st)"
  have l: "lit m (1 / 1000) = 1 / 1000" by (simp add: lit_exact of_rat_divide)
  have alt: "altm * lit m (1 / 1000) = altm / 1000" unfolding l by simp
  from IgrfCalc_eq [OF assms(1), of m rm decyear latrad lonrad altm side, folded assms(3,4)] obtain st' where
    st': "IgrfCalc m rm decyear latrad lonrad altm side st =
        Some (TransMagaxisToECI m \<lparr>v0 = e_x (cur st'), v1 = e_y (cur st'), v2 = e_z (cur st')\<rparr> lonrad (gccolat st') side, st')"
      "e_z (cur st') = e_z ?v" "\<not> lit m 90 - ffabs m lat \<le> lit m (1 / 1000) \<longrightarrow> e_x (cur st') = e_x ?v \<and> e_y (cur st') = e_y ?v" by blast
  have "\<not> lit m 90 - ffabs m lat \<le> lit m (1 / 1000)" using assms(5) unfolding l by simp
  with st'(3) have xy: "e_x (cur st') = e_x ?v" "e_y (cur st') = e_y ?v" by blast+
  have "turned_field ?v (potential ?g 13) (altm * lit m (1 / 1000)) (lat * dtr) (lon * dtr)"
    by (rule sh_value_gradient) (use assms(2,5,6) l in simp_all)
  then have "turned_field (cur st') (potential ?g 13) (altm / 1000) (lat * dtr) (lon * dtr)"
    unfolding turned_field_def xy st'(2) alt .
  moreover have "?g ! i = gh1 st ! i + (if i \<le> 80 then (decyear - 2020) * gh2 st ! i else 0)" if "0 < i" "i < 196" for i
    using that assms(1) by (simp add: extrapolated_def igrf_wf_def lit_exact)
  moreover have "length ?g = 196" using assms(1) by (simp add: igrf_wf_def)
  ultimately show ?thesis using st'(1) by blast
qed

end

section \<open>Properties\<close>

lemma igrf_wf_init: "igrf_wf (geomag_init m)"
  by (simp add: igrf_wf_def geomag_init_def coeffs_def gh1_init_def gh2_init_def MAXCOEFF_def MAXDEG_def MAXMOD_def)

text \<open>
  C18: The magnetic field model stays inside its memory, whatever the arithmetic of doubles does (infinities and values that are not numbers included). From the
  initial state on, every call of \<^verbatim>\<open>IgrfCalc\<close> returns: all accesses of \<^verbatim>\<open>shval3\<close> to its four local arrays and to the table of coefficients are within bounds,
  no local element is read before it was written, the file of the model is never read (\<open>rm\<close> is not called), and the next call starts from a state as good.
\<close>

theorem igrf_in_bounds:
  "igrf_wf (geomag_init m) \<and>
   (igrf_wf st \<longrightarrow> (\<exists>mag st'. (\<forall>rm. IgrfCalc m rm decyear latrad lonrad altm side st = Some (mag, st')) \<and> igrf_wf st'))"
proof (intro conjI impI igrf_wf_init)
  assume wf: "igrf_wf st"
  define r where "r = IgrfCalc m (\<lambda>_. None) decyear latrad lonrad altm side st"
  have eq: "IgrfCalc m rm decyear latrad lonrad altm side st = r" for rm
    using wf by (simp add: r_def IgrfCalc_def igrf_wf_def)
  from IgrfCalc_eq [OF wf, of m "\<lambda>_. None" decyear latrad lonrad altm side] obtain mag st' where
    "r = Some (mag, st')" "igrf_wf st'" unfolding eq by blast
  with eq show "\<exists>mag st'. (\<forall>rm. IgrfCalc m rm decyear latrad lonrad altm side st = Some (mag, st')) \<and> igrf_wf st'" by blast
qed

theorem igrf_in_bounds_witness:
  "\<exists>mag st'. IgrfCalc real_math (\<lambda>_. None) 2021 0 1 500000 0 (geomag_init real_math) = Some (mag, st') \<and> igrf_wf st'"
  using igrf_in_bounds [of real_math "geomag_init real_math" 2021 0 1 500000 0] by blast

text \<open>
  C13: In exact arithmetic the model computes the geomagnetic field. Away from the poles, the components \<^verbatim>\<open>x\<close>, \<^verbatim>\<open>y\<close>, \<^verbatim>\<open>z\<close> that \<^verbatim>\<open>IgrfCalc\<close> finds are the gradient of the
  potential with the coefficients extrapolated to the date, up to degree 13, at the point with the given height over the ellipsoid, turned to the axes of that point; what it returns
  is this vector after the rotations of \<^verbatim>\<open>TransMagaxisToECI\<close>. The code has no derivative: that the second recurrence of its loop gives derivatives of the first is part of the proof.
\<close>

theorem igrf_field_gradient:
  assumes "exact_field m" "igrf_wf st" "0 \<le> altm"
    and "lat = latrad * RAD2DEG m" "lon = lonrad * RAD2DEG m" "1 / 1000 < 90 - \<bar>lat\<bar>" "0 < cos (lat * dtr)"
  shows "\<exists>st' g. IgrfCalc m rm decyear latrad lonrad altm side st =
       Some (TransMagaxisToECI m \<lparr>v0 = e_x (cur st'), v1 = e_y (cur st'), v2 = e_z (cur st')\<rparr> lonrad (gccolat st') side, st') \<and>
     length g = 196 \<and> (\<forall>i. 0 < i \<longrightarrow> i < 196 \<longrightarrow> g ! i = gh1 st ! i + (if i \<le> 80 then (decyear - 2020) * gh2 st ! i else 0)) \<and>
     turned_field (cur st') (potential g 13) (altm / 1000) (lat * dtr) (lon * dtr)"
  using exact_field.igrf_gradient [OF assms] .

theorem igrf_field_gradient_witness:
  "\<exists>st' g. IgrfCalc real_math (\<lambda>_. None) 2021 0 0 500000 0 (geomag_init real_math) =
       Some (TransMagaxisToECI real_math \<lparr>v0 = e_x (cur st'), v1 = e_y (cur st'), v2 = e_z (cur st')\<rparr> 0 (gccolat st') 0, st') \<and>
     length g = 196 \<and> turned_field (cur st') (potential g 13) 500 0 0"
  using igrf_field_gradient [OF real_field.exact_field_axioms igrf_wf_init [of real_math], of 500000 0 0 0 0 "\<lambda>_. None" 2021 0] by fastforce

end
