(* ===== verification/Cmd_ADCS.thy ===== *)
theory Cmd_ADCS
  imports Sat_State Cmd_COM
begin

text \<open>
  src/apps/suchai/src/cmdADCS.c: the attitude commands. They keep attitude, rates and targets in status variables, compute with math_utils.c and talk to the
  attitude computer over libcsp. The schema of this application is not in the repository, so the addresses of its variables are a record \<open>adcs_addrs\<close>. The
  conversions of doubles (between the bits of a float and a double, printed and read) are the record \<open>dbl_io\<close>; libcsp is the record \<open>adcs_net\<close>. What is sent is part
  of the result. Local variables that are not initialised hold \<open>junk\<close>.
\<close>

section \<open>Environment\<close>

record adcs_addrs =
  dat_ads_pos_x :: int
  dat_ads_q0 :: int
  dat_ads_omega_x :: int
  dat_ads_mag_x :: int
  dat_tgt_q0 :: int
  dat_tgt_omega_x :: int

record 'a dbl_io =
  print_f :: "string \<Rightarrow> 'a \<Rightarrow> string"
  scan_lf :: "string \<Rightarrow> ('a \<times> string) option"
  widen :: "value32 \<Rightarrow> 'a"
  narrow :: "'a \<Rightarrow> value32"

record adcs_packet =
  pk_data :: string
  pk_length :: int

record adcs_net =
  an_buf :: bool
  an_sendto :: bool
  an_transaction :: "string \<Rightarrow> int \<times> char list"

definition DAT_OBC_OPMODE_REF_POINT :: int where [config_defs]: "DAT_OBC_OPMODE_REF_POINT = 4"
definition DAT_OBC_OPMODE_NAD_POINT :: int where [config_defs]: "DAT_OBC_OPMODE_NAD_POINT = 5"
definition DAT_OBC_OPMODE_DETUMB_MAG :: int where [config_defs]: "DAT_OBC_OPMODE_DETUMB_MAG = 6"

definition cmd_adcs_init :: "cmd_reg list" where
  "cmd_adcs_init =
     [(''adcs_quat'', ''adcs_get_quaternion'', '''', 0),
      (''adcs_omega'', ''adcs_get_omega'', '''', 0),
      (''adcs_mag'', ''adcs_get_mag'', '''', 0),
      (''adcs_do_control'', ''adcs_control_torque'', ''%lf'', 1),
      (''adcs_mag_moment'', ''adcs_mag_moment'', '''', 0),
      (''adcs_set_target'', ''adcs_set_target'', ''%lf %lf %lf %lf %lf %lf'', 6),
      (''adcs_set_to_nadir'', ''adcs_target_nadir'', '''', 0),
      (''adcs_detumbling_mag'', ''adcs_detumbling_mag'', '''', 0),
      (''adcs_send_attitude'', ''adcs_send_attitude'', '''', 0)]"

text \<open>Doubles printed one after the other with one blank between them, as in all formats used here.\<close>

definition print_fs :: "'a dbl_io \<Rightarrow> string \<Rightarrow> 'a list \<Rightarrow> string" where
  "print_fs io conv xs = concat (map (\<lambda>x. '' '' @ print_f io conv x) xs)"

text \<open>
  \<^verbatim>\<open>sscanf\<close> with a format of \<^verbatim>\<open>%lf\<close> and blanks: how many the format has (other formats are not modelled), and the doubles read before the first that fails. When the
  input ends before the first, \<^verbatim>\<open>sscanf\<close> returns \<^verbatim>\<open>EOF\<close>.
\<close>

fun lf_directives :: "string \<Rightarrow> nat option" where
  "lf_directives [] = Some 0"
| "lf_directives (c # cs) =
     (if is_space c then lf_directives cs
      else if c = CHR ''%'' then
        (case cs of d # e # r \<Rightarrow> if d = CHR ''l'' \<and> e = CHR ''f'' then map_option Suc (lf_directives r) else None | _ \<Rightarrow> None)
      else None)"

fun scan_lfs :: "'a dbl_io \<Rightarrow> nat \<Rightarrow> string \<Rightarrow> 'a list" where
  "scan_lfs io 0 s = []"
| "scan_lfs io (Suc n) s =
     (case scan_lf io (skip_ws s) of None \<Rightarrow> [] | Some (x, r) \<Rightarrow> x # scan_lfs io n r)"

definition sscanf_lf :: "'a dbl_io \<Rightarrow> string \<Rightarrow> string \<Rightarrow> (int \<times> 'a list) option" where
  "sscanf_lf io s fmt =
     do { n \<leftarrow> lf_directives fmt;
          let xs = scan_lfs io n s;
          Some (if 0 < n \<and> skip_ws s = [] then - 1 else int (length xs), xs) }"

text \<open>The parameters of a command, \<open>k\<close> doubles: \<^verbatim>\<open>params == NULL || sscanf(params, fmt, ...) != nparams\<close> is the inner \<open>None\<close>.\<close>

definition parse_lfs :: "'a dbl_io \<Rightarrow> nat \<Rightarrow> string \<Rightarrow> char list option \<Rightarrow> int \<Rightarrow> 'a list option option" where
  "parse_lfs io k fmt params nparams =
     (case params of
        None \<Rightarrow> Some None
      | Some b \<Rightarrow>
          do { p \<leftarrow> cstr_of b;
               (rc, xs) \<leftarrow> sscanf_lf io p fmt;
               require (length xs \<le> k);
               if rc \<noteq> nparams then Some None else do { require (length xs = k); Some (Some xs) } })"

text \<open>\<^verbatim>\<open>snprintf\<close> into the packet, whose length is what \<^verbatim>\<open>snprintf\<close> returns: the length of the whole text, even when it was cut.\<close>

definition adcs_packet_of :: "string \<Rightarrow> adcs_packet" where
  "adcs_packet_of text = \<lparr>pk_data = take (COM_FRAME_MAX_LEN - 1) text, pk_length = int (length text)\<rparr>"

text \<open>\<^verbatim>\<open>csp_buffer_get\<close>, the text, \<^verbatim>\<open>csp_sendto\<close>: the code that ends four of the commands.\<close>

definition adcs_send :: "adcs_net \<Rightarrow> string \<Rightarrow> int \<times> adcs_packet list" where
  "adcs_send net text =
     (if \<not> an_buf net then (CMD_ERROR, [])
      else if an_sendto net then (CMD_OK, [adcs_packet_of text]) else (CMD_ERROR, []))"

definition junk_q :: "(nat \<Rightarrow> 'a) \<Rightarrow> 'a quaternion" where
  "junk_q junk = \<lparr>q0 = junk 0, q1 = junk 1, q2 = junk 2, q3 = junk 3\<rparr>"

definition junk_v :: "(nat \<Rightarrow> 'a) \<Rightarrow> 'a vector3" where
  "junk_v junk = \<lparr>v0 = junk 0, v1 = junk 1, v2 = junk 2\<rparr>"

section \<open>Readings\<close>

definition adcs_point ::
    "'a dbl_io \<Rightarrow> (nat \<Rightarrow> 'a) \<Rightarrow> adcs_addrs \<Rightarrow> adcs_net \<Rightarrow> 's dat_cfg \<Rightarrow> 's \<Rightarrow> (int \<times> adcs_packet list) option" where
  "adcs_point io junk A net cfg s =
     (if \<not> an_buf net then Some (CMD_SYNTAX_ERROR, [])
      else
        do { r \<leftarrow> get_sat_vector cfg (widen io) (junk_v junk) (dat_ads_pos_x A) s;
             Some (adcs_send net (''adcs_point_to'' @ print_fs io ''%lf'' (v_arr r))) })"

definition adcs_get_quaternion ::
    "'a dbl_io \<Rightarrow> adcs_addrs \<Rightarrow> adcs_net \<Rightarrow> 's dat_cfg \<Rightarrow> 's \<Rightarrow> (int \<times> 's) option" where
  "adcs_get_quaternion io A net cfg s =
     (let (rc, in_buff) = an_transaction net ''adcs_get_quaternion 0''
      in if rc = int COM_FRAME_MAX_LEN then
           do { text \<leftarrow> cstr_of in_buff;
                (n, xs) \<leftarrow> sscanf_lf io text ''%lf %lf %lf %lf'';
                if n = 4 then
                  do { q \<leftarrow> arr_q xs;
                       s1 \<leftarrow> set_sat_quaterion cfg (narrow io) q (dat_ads_q0 A) s;
                       Some (CMD_OK, s1) }
                else Some (CMD_SYNTAX_ERROR, s) }
         else Some (CMD_SYNTAX_ERROR, s))"

text \<open>The sensors of the board are read on one target only: \<open>None\<close> on the others, \<open>Some None\<close> when the driver reports an error.\<close>

definition adcs_get_omega ::
    "'a dbl_io \<Rightarrow> adcs_addrs \<Rightarrow> 'a vector3 option option \<Rightarrow> 's dat_cfg \<Rightarrow> 's \<Rightarrow> (int \<times> 's) option" where
  "adcs_get_omega io A gyro_reading cfg s =
     (case gyro_reading of
        None \<Rightarrow> Some (CMD_OK, s)
      | Some None \<Rightarrow> Some (CMD_ERROR, s)
      | Some (Some omega) \<Rightarrow> do { s1 \<leftarrow> set_sat_vector cfg (narrow io) omega (dat_ads_omega_x A) s; Some (CMD_OK, s1) })"

definition adcs_get_mag ::
    "'a dbl_io \<Rightarrow> adcs_addrs \<Rightarrow> 'a vector3 option option \<Rightarrow> 's dat_cfg \<Rightarrow> 's \<Rightarrow> (int \<times> 's) option" where
  "adcs_get_mag io A hmc_reading cfg s =
     (case hmc_reading of
        None \<Rightarrow> Some (CMD_OK, s)
      | Some None \<Rightarrow> Some (CMD_ERROR, s)
      | Some (Some mag) \<Rightarrow> do { s1 \<leftarrow> set_sat_vector cfg (narrow io) mag (dat_ads_mag_x A) s; Some (CMD_OK, s1) })"

section \<open>Control\<close>

text \<open>The torque, from the estimated and the target attitude and rates.\<close>

definition control_torque ::
    "'a::{plus, minus, uminus, times, inverse} libm \<Rightarrow> (nat \<Rightarrow> 'a) \<Rightarrow> 'a \<Rightarrow> 'a quaternion \<Rightarrow> 'a quaternion \<Rightarrow> 'a vector3 \<Rightarrow> 'a vector3 \<Rightarrow> 'a vector3 option" where
  "control_torque m junk ctrl_cycle q_i2b_est q_i2b_tar omega_b_est omega_b_tar =
     (let I_quat = mat_set_diag m (lit m 0) (lit m 0) (lit m 0);
          P_quat = mat_set_diag m (lit m (1 / 1000)) (lit m (1 / 1000)) (lit m (1 / 1000));
          P_omega = mat_set_diag m (lit m (3 / 1000)) (lit m (3 / 1000)) (lit m (3 / 1000));
          q_b2i_est = quat_conjugate q_i2b_est;
          now2tar = quat_mult q_b2i_est q_i2b_tar;
          q_i2b_now2tar = quat_normalize m now2tar now2tar;
          dir = \<lparr>v0 = q0 q_i2b_now2tar, v1 = q1 q_i2b_now2tar, v2 = q2 q_i2b_now2tar\<rparr>
      in do { require (feq m (v0 dir) (q0 q_i2b_now2tar) \<and> feq m (v1 dir) (q1 q_i2b_now2tar) \<and> feq m (v2 dir) (q2 q_i2b_now2tar));
              let torq_dir = snd (vec_normalize m dir dir);
              let att_rot = lit m 2 * facos m (q3 q_i2b_now2tar);
              let error_integral = vec_cons_mult (att_rot * ctrl_cycle) torq_dir;
              let torque_rot = vec_cons_mult att_rot torq_dir;
              P \<leftarrow> mat_vec_mult m P_quat torque_rot (junk_v junk);
              I \<leftarrow> mat_vec_mult m I_quat error_integral (junk_v junk);
              let omega_b = vec_sum omega_b_tar (vec_cons_mult (- lit m 1) omega_b_est);
              P_o \<leftarrow> mat_vec_mult m P_omega omega_b (junk_v junk);
              Some (vec_sum P_o (vec_sum P I)) })"

definition adcs_control_torque ::
    "'a::{plus, minus, uminus, times, inverse} libm \<Rightarrow> 'a dbl_io \<Rightarrow> (nat \<Rightarrow> 'a) \<Rightarrow> adcs_addrs \<Rightarrow> adcs_net \<Rightarrow> 's dat_cfg \<Rightarrow>
       string \<Rightarrow> char list option \<Rightarrow> int \<Rightarrow> 's \<Rightarrow> (int \<times> adcs_packet list) option" where
  "adcs_control_torque m io junk A net cfg fmt params nparams s =
     do { args \<leftarrow> parse_lfs io 1 fmt params nparams;
          case args of
            None \<Rightarrow> Some (CMD_SYNTAX_ERROR, [])
          | Some xs \<Rightarrow>
              do { ctrl_cycle \<leftarrow> arr_get xs 0;
                   q_i2b_est \<leftarrow> get_sat_quaterion cfg (widen io) (junk_q junk) (dat_ads_q0 A) s;
                   q_i2b_tar \<leftarrow> get_sat_quaterion cfg (widen io) (junk_q junk) (dat_tgt_q0 A) s;
                   omega_b_est \<leftarrow> get_sat_vector cfg (widen io) (junk_v junk) (dat_ads_omega_x A) s;
                   omega_b_tar \<leftarrow> get_sat_vector cfg (widen io) (junk_v junk) (dat_tgt_omega_x A) s;
                   t \<leftarrow> control_torque m junk ctrl_cycle q_i2b_est q_i2b_tar omega_b_est omega_b_tar;
                   Some (adcs_send net (''adcs_set_torque'' @ print_fs io ''%.06f'' (v_arr t))) } }"

text \<open>A comparison stored into a double: 1 or 0.\<close>

definition dbl_bool :: "'a libm \<Rightarrow> bool \<Rightarrow> 'a" where
  "dbl_bool m b = lit m (if b then 1 else 0)"

text \<open>The magnetic moment against the rates, limited by what the coils can do in the field.\<close>

definition mag_moment ::
    "'a::{plus, minus, uminus, times, inverse, ord} libm \<Rightarrow> (nat \<Rightarrow> 'a) \<Rightarrow> int \<Rightarrow> 'a vector3 \<Rightarrow> 'a vector3 \<Rightarrow> 'a vector3 \<Rightarrow> 'a vector3 option" where
  "mag_moment m junk mode mag_earth_b_est omega_b_est omega_b_tar =
     (let rw_lower_limit = lit m 0;
          max_mag_am2 = \<lparr>v0 = lit m (35 / 100), v1 = lit m (35 / 100), v2 = lit m (35 / 100)\<rparr>;
          I_c = mat_set_diag m (lit m (35 / 1000)) (lit m (35 / 1000)) (lit m (7 / 1000));
          nT2T = lit m (1 / 10 ^ 9);
          sel = (\<lambda>w. if mode = DAT_OBC_OPMODE_DETUMB_MAG then lit m 1 else dbl_bool m (ffabs m w < rw_lower_limit));
          err = vec_sum omega_b_est (vec_cons_mult (- lit m 1) omega_b_tar)
      in do { torque \<leftarrow> mat_vec_mult m I_c (vec_cons_mult (- lit m 1) err) (junk_v junk);
              let norm_torque = vec_norm m torque;
              let inv_norm_torque = (if norm_torque \<ge> fpow m (lit m 10) (- lit m 9) then lit m 1 / norm_torque else lit m 1);
              let t = vec_cons_mult inv_norm_torque torque;
              let B = vec_cons_mult nT2T mag_earth_b_est;
              let max_torque = vec_outer_product max_mag_am2 B;
              let t' = \<lparr>v0 = v0 t * (sel (v0 omega_b_est) * ffabs m (v0 max_torque)),
                        v1 = v1 t * (sel (v1 omega_b_est) * ffabs m (v1 max_torque)),
                        v2 = v2 t * (sel (v2 omega_b_est) * ffabs m (v2 max_torque))\<rparr>;
              let inv_b_norm2 = lit m 1 / fpow m (nT2T * vec_norm m mag_earth_b_est) (lit m 2);
              Some (vec_cons_mult inv_b_norm2 (vec_outer_product B t')) })"

text \<open>A \<^verbatim>\<open>double\<close> converted to a \<^verbatim>\<open>uint8_t\<close>: truncated, and undefined when the result does not fit.\<close>

definition to_uint8 :: "'a libm \<Rightarrow> 'a \<Rightarrow> int option" where
  "to_uint8 m x = do { require (0 \<le> ftrunc m x \<and> ftrunc m x \<le> 255); Some (ftrunc m x) }"

text \<open>
  Three commands set the duty cycle of the coils. The vector \<^verbatim>\<open>magMoment_control_unit\<close> of the code is not used for anything; the duty
  cycles are the components of the moment itself.
\<close>

definition mtq_commands :: "cmd_repo \<Rightarrow> int \<Rightarrow> int \<Rightarrow> int \<Rightarrow> cmd option list option" where
  "mtq_commands repo d0 d1 d2 =
     do { pwr \<leftarrow> cmd_get_str ''obc_pwm_pwr'' repo;
          cx \<leftarrow> cmd_get_str ''obc_set_pwm_duty'' repo;
          x \<leftarrow> cmd_add_params_var cx [d0, 0];
          cy \<leftarrow> cmd_get_str ''obc_set_pwm_duty'' repo;
          y \<leftarrow> cmd_add_params_var cy [d1, 1];
          cz \<leftarrow> cmd_get_str ''obc_set_pwm_duty'' repo;
          z \<leftarrow> cmd_add_params_var cz [d2, 2];
          Some [cmd_add_params_str pwr ''1'', x, y, z] }"

definition adcs_mag_moment ::
    "'a::{plus, minus, uminus, times, inverse, ord} libm \<Rightarrow> 'a dbl_io \<Rightarrow> (nat \<Rightarrow> 'a) \<Rightarrow> adcs_addrs \<Rightarrow> adcs_net \<Rightarrow> cmd_repo \<Rightarrow> 's dat_cfg \<Rightarrow>
       's \<Rightarrow> (int \<times> cmd option list \<times> adcs_packet list) option" where
  "adcs_mag_moment m io junk A net repo cfg s =
     do { mag \<leftarrow> get_sat_vector cfg (widen io) (junk_v junk) (dat_ads_mag_x A) s;
          omega_b_est \<leftarrow> get_sat_vector cfg (widen io) (junk_v junk) (dat_ads_omega_x A) s;
          omega_b_tar \<leftarrow> get_sat_vector cfg (widen io) (junk_v junk) (dat_tgt_omega_x A) s;
          mode \<leftarrow> dat_get_system_var cfg dat_obc_opmode s;
          mm \<leftarrow> mag_moment m junk mode mag omega_b_est omega_b_tar;
          if \<not> an_buf net then Some (CMD_ERROR, [], [])
          else
            do { d0 \<leftarrow> to_uint8 m (v0 mm);
                 d1 \<leftarrow> to_uint8 m (v1 mm);
                 d2 \<leftarrow> to_uint8 m (v2 mm);
                 cmds \<leftarrow> mtq_commands repo d0 d1 d2;
                 let (rc, sent) = adcs_send net (''adcs_set_mag_moment'' @ print_fs io ''%.06f'' (v_arr mm));
                 Some (rc, cmds, sent) } }"

section \<open>Targets\<close>

text \<open>The attitude in which the face Z+ points along a direction, reached from an attitude by one rotation.\<close>

definition target_attitude ::
    "'a::{plus, minus, uminus, times, inverse} libm \<Rightarrow> 'a quaternion \<Rightarrow> 'a vector3 \<Rightarrow> 'a quaternion" where
  "target_attitude m q_i2b_est i_tar =
     (let norm = (\<lambda>v. snd (vec_normalize m v v));
          b_dir = norm \<lparr>v0 = lit m 0, v1 = lit m 0, v2 = lit m 1\<rparr>;
          b_tar = norm (quat_frame_conv m q_i2b_est (norm i_tar));
          b_lambda = norm (vec_outer_product b_dir b_tar);
          rot = facos m (vec_inner_product m b_dir b_tar);
          q = axis_rotation_to_quat m b_lambda rot;
          q_b2b_now2tar = quat_normalize m q q
      in quat_mult q_i2b_est q_b2b_now2tar)"

definition adcs_set_target ::
    "'a::{plus, minus, uminus, times, inverse} libm \<Rightarrow> 'a dbl_io \<Rightarrow> (nat \<Rightarrow> 'a) \<Rightarrow> adcs_addrs \<Rightarrow> 's dat_cfg \<Rightarrow>
       string \<Rightarrow> char list option \<Rightarrow> int \<Rightarrow> 's \<Rightarrow> (int \<times> 's) option" where
  "adcs_set_target m io junk A cfg fmt params nparams s =
     do { args \<leftarrow> parse_lfs io 6 fmt params nparams;
          case args of
            None \<Rightarrow> Some (CMD_ERROR, s)
          | Some xs \<Rightarrow>
              do { i_tar \<leftarrow> arr_v (take 3 xs);
                   omega_tar \<leftarrow> arr_v (drop 3 xs);
                   q_i2b_est \<leftarrow> get_sat_quaterion cfg (widen io) (junk_q junk) (dat_ads_q0 A) s;
                   s1 \<leftarrow> set_sat_quaterion cfg (narrow io) (target_attitude m q_i2b_est i_tar) (dat_tgt_q0 A) s;
                   s2 \<leftarrow> set_sat_vector cfg (narrow io) omega_tar (dat_tgt_omega_x A) s1;
                   Some (CMD_OK, s2) } }"

text \<open>Six doubles printed into the buffer of the parameters and handed to \<^verbatim>\<open>adcs_set_target\<close> as a text.\<close>

abbreviation six_lf :: string where "six_lf \<equiv> ''%lf %lf %lf %lf %lf %lf''"

definition target_params :: "'a dbl_io \<Rightarrow> 'a vector3 \<Rightarrow> 'a vector3 \<Rightarrow> char list" where
  "target_params io i_tar omega =
     (let text = tl (print_fs io ''%lf'' (v_arr i_tar @ v_arr omega)); t = take (SCH_CMD_MAX_STR_PARAMS - 1) text
      in t @ replicate (SCH_CMD_MAX_STR_PARAMS - length t) NUL)"

definition nadir ::
    "'a::{plus, minus, uminus, times, inverse} libm \<Rightarrow> 'a dbl_io \<Rightarrow> (nat \<Rightarrow> 'a) \<Rightarrow> adcs_addrs \<Rightarrow> 's dat_cfg \<Rightarrow> 's \<Rightarrow> 'a vector3 option" where
  "nadir m io junk A cfg s =
     do { r \<leftarrow> get_sat_vector cfg (widen io) (junk_v junk) (dat_ads_pos_x A) s;
          let v = vec_cons_mult (- lit m 1) r;
          Some (snd (vec_normalize m v v)) }"

definition adcs_target_nadir ::
    "'a::{plus, minus, uminus, times, inverse} libm \<Rightarrow> 'a dbl_io \<Rightarrow> (nat \<Rightarrow> 'a) \<Rightarrow> adcs_addrs \<Rightarrow> 's dat_cfg \<Rightarrow> 's \<Rightarrow> (int \<times> 's) option" where
  "adcs_target_nadir m io junk A cfg s =
     do { i_tar \<leftarrow> nadir m io junk A cfg s;
          let omega_i_tar = \<lparr>v0 = lit m (38772452510785394 / 10 ^ 20), v1 = - lit m (10289117582512489 / 10 ^ 19),
                             v2 = - lit m (14131086334682821 / 10 ^ 20)\<rparr>;
          q_i2b_est \<leftarrow> get_sat_quaterion cfg (widen io) (junk_q junk) (dat_ads_q0 A) s;
          let omega_b_tar = quat_frame_conv m q_i2b_est omega_i_tar;
          adcs_set_target m io junk A cfg six_lf (Some (target_params io i_tar omega_b_tar)) 6 s }"

text \<open>Three assignments go to the first component; the other two are never written.\<close>

definition adcs_detumbling_mag ::
    "'a::{plus, minus, uminus, times, inverse} libm \<Rightarrow> 'a dbl_io \<Rightarrow> (nat \<Rightarrow> 'a) \<Rightarrow> adcs_addrs \<Rightarrow> 's dat_cfg \<Rightarrow> 's \<Rightarrow> (int \<times> 's) option" where
  "adcs_detumbling_mag m io junk A cfg s =
     do { i_tar \<leftarrow> nadir m io junk A cfg s;
          let omega_b_tar = (junk_v junk)\<lparr>v0 := lit m 0\<rparr>;
          adcs_set_target m io junk A cfg six_lf (Some (target_params io i_tar omega_b_tar)) 6 s }"

definition adcs_send_attitude ::
    "'a dbl_io \<Rightarrow> (nat \<Rightarrow> 'a) \<Rightarrow> adcs_addrs \<Rightarrow> adcs_net \<Rightarrow> 's dat_cfg \<Rightarrow> 's \<Rightarrow> (int \<times> adcs_packet list) option" where
  "adcs_send_attitude io junk A net cfg s =
     do { q_est \<leftarrow> get_sat_quaterion cfg (widen io) (junk_q junk) (dat_ads_q0 A) s;
          q_tgt \<leftarrow> get_sat_quaterion cfg (widen io) (junk_q junk) (dat_tgt_q0 A) s;
          Some (adcs_send net (''adcs_set_attitude'' @ print_fs io ''%lf'' (q_arr q_est @ q_arr q_tgt))) }"

end
