(* ===== verification/Task_ADCS.thy ===== *)
theory Task_ADCS
  imports Cmd_ADCS
begin

text \<open>
  src/apps/suchai/src/taskADCS.c: the attitude task and the functions it has for the time, the sun, the prediction of the filter and the place over
  the ground. \<^verbatim>\<open>deg2rad\<close>, \<^verbatim>\<open>twopi\<close>, \<^verbatim>\<open>pi\<close> and \<^verbatim>\<open>gstime\<close> come from the library of the propagator, which is not in the repository: the
  record \<open>sgp4\<close>. As in the other tasks, the commands a round hands to \<^verbatim>\<open>cmd_send\<close> are part of its result.
\<close>

record 'a sgp4 =
  deg2rad :: 'a
  twopi :: 'a
  sgp4_pi :: 'a
  gstime :: "'a \<Rightarrow> 'a"

text \<open>A \<^verbatim>\<open>double\<close> with an integral value converted to \<^verbatim>\<open>int\<close>, undefined out of its range.\<close>

definition to_int :: "int \<Rightarrow> int option" where
  "to_int k = do { require (in_int k); Some k }"

abbreviation dbl :: "'a libm \<Rightarrow> int \<Rightarrow> 'a" where "dbl m k \<equiv> lit m (of_int k)"

section \<open>Time\<close>

definition unixt_to_jd :: "'a::{plus, inverse} libm \<Rightarrow> 32 word \<Rightarrow> 'a" where
  "unixt_to_jd m unix_time = dbl m (uint unix_time) / lit m 86400 + lit m (24405875 / 10)"

definition jd_to_dec :: "'a::{plus, minus, times, inverse, ord} libm \<Rightarrow> 'a \<Rightarrow> 'a option" where
  "jd_to_dec m jd =
     do { let temp = jd - lit m (24150195 / 10);
          let tu = temp / lit m (36525 / 100);
          f \<leftarrow> to_int (ffloor m tu);
          year \<leftarrow> to_int (1900 + f);
          y1 \<leftarrow> to_int (year - 1901);
          leapyrs \<leftarrow> to_int (ffloor m (dbl m y1 * lit m (25 / 100)));
          let days = temp - (dbl m (year - 1900) * lit m 365 + dbl m leapyrs) + lit m (1 / 10 ^ 11);
          (year, days) \<leftarrow>
            (if days < lit m 1 then
               do { year \<leftarrow> to_int (year - 1);
                    y1 \<leftarrow> to_int (year - 1901);
                    leapyrs \<leftarrow> to_int (ffloor m (dbl m y1 * lit m (25 / 100)));
                    Some (year, temp - (dbl m (year - 1900) * lit m 365 + dbl m leapyrs)) }
             else Some (year, days));
          Some (dbl m year + days / lit m (36525 / 100)) }"

section \<open>Places\<close>

text \<open>The distance to the sun is computed too and not used.\<close>

definition calc_sun_pos_i :: "'a::{plus, minus, times} libm \<Rightarrow> 'a sgp4 \<Rightarrow> 'a \<Rightarrow> 'a vector3" where
  "calc_sun_pos_i m g jd =
     (let n = jd - lit m 2451545;
          l = lit m (280459 / 1000) + lit m (98564736 / 10 ^ 8) * n;
          a = (lit m (357529 / 1000) + lit m (98560023 / 10 ^ 8) * n) * deg2rad g;
          lam = (l + lit m (1915 / 1000) * fsin m a + lit m (2 / 100) * fsin m (lit m 2 * a)) * deg2rad g;
          e = (lit m (23439 / 1000) - lit m (356 / 10 ^ 9) * n) * deg2rad g
      in \<lparr>v0 = fcos m lam, v1 = fcos m e * fsin m lam, v2 = fsin m lam * fsin m e\<rparr>)"

definition fmod2p :: "'a::{plus, minus, times, inverse, ord} libm \<Rightarrow> 'a sgp4 \<Rightarrow> 'a \<Rightarrow> 'a option" where
  "fmod2p m g x =
     do { i \<leftarrow> to_int (ftrunc m (x / twopi g));
          let ret_val = x - dbl m i * twopi g;
          Some (if ret_val < lit m 0 then ret_val + twopi g else ret_val) }"

abbreviation radiusearthkm :: "'a libm \<Rightarrow> 'a" where "radiusearthkm m \<equiv> lit m (6378137 / 1000)"

text \<open>The body of the \<^verbatim>\<open>do\<close> loop: the next latitude and the factor it was computed with.\<close>

definition eci_body ::
    "'a::{plus, minus, times, inverse} libm \<Rightarrow> 'a \<Rightarrow> 'a \<Rightarrow> 'a \<Rightarrow> 'a \<Rightarrow> 'a \<times> 'a" where
  "eci_body m z r e2 phi =
     (let c = lit m 1 / fsqrt m (lit m 1 - e2 * fsin m phi * fsin m phi)
      in (fatan2 m (z + radiusearthkm m * c * e2 * fsin m phi * lit m 1000) r, c))"

partial_function (option) eci_loop ::
    "'a::{plus, minus, times, inverse, ord} libm \<Rightarrow> 'a \<Rightarrow> 'a \<Rightarrow> 'a \<Rightarrow> 'a \<Rightarrow> ('a \<times> 'a) option" where
  "eci_loop m z r e2 lat_rad =
     (if lit m (1 / 10 ^ 10) \<le> ffabs m (fst (eci_body m z r e2 lat_rad) - lat_rad)
      then eci_loop m z r e2 (fst (eci_body m z r e2 lat_rad))
      else Some (eci_body m z r e2 lat_rad))"

text \<open>The function has no \<^verbatim>\<open>return\<close>: its value is indeterminate, and only the vector it fills is modelled.\<close>

definition eci_to_geo ::
    "'a::{plus, minus, times, inverse, ord} libm \<Rightarrow> 'a sgp4 \<Rightarrow> 'a vector3 \<Rightarrow> 'a \<Rightarrow> 'a vector3 option" where
  "eci_to_geo m g sat_pos current_jd =
     do { let f = lit m 1 / lit m (298257223563 / 10 ^ 9);
          let current_side = gstime g current_jd;
          let theta = fatan2 m (v1 sat_pos) (v0 sat_pos);
          lon_rad \<leftarrow> fmod2p m g (theta - current_side);
          let r = fsqrt m (v0 sat_pos * v0 sat_pos + v1 sat_pos * v1 sat_pos);
          let e2 = f * (lit m 2 - f);
          (lat_rad, c) \<leftarrow> eci_loop m (v2 sat_pos) r e2 (fatan2 m (v2 sat_pos) r);
          let alt_m = r / fcos m lat_rad - radiusearthkm m * c * lit m 1000;
          Some \<lparr>v0 = (if sgp4_pi g / lit m 2 < lat_rad then lat_rad - twopi g else lat_rad), v1 = lon_rad, v2 = alt_m\<rparr> }"

section \<open>Prediction\<close>

definition eskf_predict_state ::
    "'a::{plus, minus, uminus, times, inverse} libm \<Rightarrow> 'a dbl_io \<Rightarrow> (nat \<Rightarrow> 'a) \<Rightarrow> adcs_addrs \<Rightarrow> 's dat_cfg \<Rightarrow> 'a list \<Rightarrow> 'a \<Rightarrow> 's \<Rightarrow>
       ('a list \<times> 's) option" where
  "eskf_predict_state m io junk A cfg P dt s =
     do { let wb = \<lparr>v0 = lit m 0, v1 = lit m 0, v2 = lit m 0\<rparr>;
          q \<leftarrow> get_sat_quaterion cfg (widen io) (junk_q junk) (dat_ads_q0 A) s;
          w \<leftarrow> get_sat_vector cfg (widen io) (junk_v junk) (dat_ads_omega_x A) s;
          let wb = vec_cons_mult (- lit m 1) wb;
          let diffw = vec_sum w wb;
          s1 \<leftarrow> set_sat_quaterion cfg (narrow io) (eskf_integrate m q diffw dt) (dat_ads_q0 A) s;
          Q \<leftarrow> arr_mat_set_diag m (junk_arr junk 36) (lit m 1) 6 6;
          (P1, _) \<leftarrow> eskf_compute_error m junk diffw dt P Q;
          Some (P1, s1) }"

section \<open>The task\<close>

text \<open>Before the loop. The covariance that is set up there is not used by the loop.\<close>

definition adcs_start :: "cmd_repo \<Rightarrow> 's dat_cfg \<Rightarrow> 's \<Rightarrow> (cmd option list \<times> 's) option" where
  "adcs_start repo cfg s =
     do { tle1 \<leftarrow> cmd_get_str ''obc_set_tle'' repo;
          tle2 \<leftarrow> cmd_get_str ''obc_set_tle'' repo;
          upd \<leftarrow> cmd_get_str ''obc_update_tle'' repo;
          tle_u \<leftarrow> cmd_get_str ''obc_get_tle'' repo;
          (_, s1) \<leftarrow> dat_set_system_var cfg dat_obc_opmode DAT_OBC_OPMODE_DETUMB_MAG s;
          Some ([cmd_add_params_str tle1 ''1 42788U 17036Z   20027.14771603  .00000881  00000-0  39896-4 0  9992'',
                 cmd_add_params_str tle2 ''2 42788  97.3234  85.2817 0012095 159.3521 200.8207 15.23399088144212'',
                 upd, tle_u], s1) }"

definition prop_tle :: "cmd_repo \<Rightarrow> cmd option option" where
  "prop_tle repo = do { c \<leftarrow> cmd_get_str ''obc_prop_tle'' repo; Some (cmd_add_params_str c ''0'') }"

text \<open>
  The estimation, twice a second: attitude and rates are read and written back; the direction of the sun and the year are computed and not used.
\<close>

definition adcs_estimate ::
    "'a::{plus, minus, times, inverse, ord} libm \<Rightarrow> 'a dbl_io \<Rightarrow> (nat \<Rightarrow> 'a) \<Rightarrow> adcs_addrs \<Rightarrow> cmd_repo \<Rightarrow> 's dat_cfg \<Rightarrow> int \<Rightarrow> 's \<Rightarrow>
       (cmd option list \<times> 's) option" where
  "adcs_estimate m io junk A repo cfg now s =
     do { c \<leftarrow> prop_tle repo;
          r \<leftarrow> get_sat_vector cfg (widen io) (junk_v junk) (dat_ads_pos_x A) s;
          q_est \<leftarrow> get_sat_quaterion cfg (widen io) (junk_q junk) (dat_ads_q0 A) s;
          w \<leftarrow> get_sat_vector cfg (widen io) (junk_v junk) (dat_ads_omega_x A) s;
          dec_year \<leftarrow> jd_to_dec m (unixt_to_jd m (word_of_int now));
          s1 \<leftarrow> set_sat_quaterion cfg (narrow io) q_est (dat_ads_q0 A) s;
          s2 \<leftarrow> set_sat_vector cfg (narrow io) w (dat_ads_omega_x A) s1;
          Some ([c], s2) }"

text \<open>\<^verbatim>\<open>cmd_add_params_var\<close> called with doubles, for a format of \<^verbatim>\<open>%lf\<close> and blanks.\<close>

fun vsprintf_lfs :: "'a dbl_io \<Rightarrow> string \<Rightarrow> 'a list \<Rightarrow> string option" where
  "vsprintf_lfs io [] vs = Some []"
| "vsprintf_lfs io (c # cs) vs =
     (if c \<noteq> CHR ''%'' then map_option ((#) c) (vsprintf_lfs io cs vs)
      else
        case (cs, vs) of
          (d # e # r, v # vs') \<Rightarrow>
            if d = CHR ''l'' \<and> e = CHR ''f'' then map_option ((@) (print_f io ''%lf'' v)) (vsprintf_lfs io r vs') else None
        | _ \<Rightarrow> None)"

definition cmd_add_params_dbl :: "'a dbl_io \<Rightarrow> cmd option \<Rightarrow> 'a list \<Rightarrow> cmd option option" where
  "cmd_add_params_dbl io c args =
     (case c of
        None \<Rightarrow> Some None
      | Some cm \<Rightarrow>
          do { fmt \<leftarrow> c_fmt cm;
               str_params \<leftarrow> vsprintf_lfs io fmt args;
               require (length str_params < SCH_CMD_MAX_STR_PARAMS);
               Some (cmd_add_params_str c str_params) })"

text \<open>
  The command that points: in every mode but three the pointer that is sent was never set. The command that controls: its parameter is an
  \<^verbatim>\<open>unsigned int\<close>, whatever the format of the command.
\<close>

definition adcs_cmd_point :: "'a libm \<Rightarrow> 'a dbl_io \<Rightarrow> cmd_repo \<Rightarrow> int \<Rightarrow> cmd option option" where
  "adcs_cmd_point m io repo mode =
     (if mode = DAT_OBC_OPMODE_REF_POINT then
        do { c \<leftarrow> cmd_get_str ''adcs_set_target'' repo;
             cmd_add_params_dbl io c [lit m 1, lit m 1, lit m 1, lit m (1 / 100), lit m (1 / 100), lit m (1 / 100)] }
      else if mode = DAT_OBC_OPMODE_NAD_POINT then cmd_get_str ''adcs_set_to_nadir'' repo
      else if mode = DAT_OBC_OPMODE_DETUMB_MAG then cmd_get_str ''adcs_detumbling_mag'' repo
      else None)"

definition adcs_cmd_ctrl :: "cmd_repo \<Rightarrow> int \<Rightarrow> cmd option option" where
  "adcs_cmd_ctrl repo mode =
     (if mode = DAT_OBC_OPMODE_DETUMB_MAG then cmd_get_str ''adcs_mag_moment'' repo
      else do { c \<leftarrow> cmd_get_str ''adcs_do_control'' repo; cmd_add_params_var c [1000 * 1000] })"

definition adcs_control ::
    "'a libm \<Rightarrow> 'a dbl_io \<Rightarrow> cmd_repo \<Rightarrow> 's dat_cfg \<Rightarrow> 's \<Rightarrow> cmd option list option" where
  "adcs_control m io repo cfg s =
     do { cmd_tle_prop \<leftarrow> prop_tle repo;
          cmd_stt \<leftarrow> cmd_get_str ''adcs_quat'' repo;
          cmd_acc \<leftarrow> cmd_get_str ''adcs_acc'' repo;
          cmd_mag \<leftarrow> cmd_get_str ''adcs_mag'' repo;
          mode \<leftarrow> dat_get_system_var cfg dat_obc_opmode s;
          cmd_point \<leftarrow> adcs_cmd_point m io repo mode;
          cmd_ctrl \<leftarrow> adcs_cmd_ctrl repo mode;
          cmd_att \<leftarrow> cmd_get_str ''adcs_send_attitude'' repo;
          Some [cmd_tle_prop, cmd_stt, cmd_acc, cmd_mag, cmd_point, cmd_ctrl, cmd_att] }"

text \<open>One round of the loop; \<open>now\<close> is the clock when the estimation reads it, \<open>now'\<close> when the time is stored.\<close>

definition adcs_round ::
    "'a::{plus, minus, times, inverse, ord} libm \<Rightarrow> 'a dbl_io \<Rightarrow> (nat \<Rightarrow> 'a) \<Rightarrow> adcs_addrs \<Rightarrow> cmd_repo \<Rightarrow> 's dat_cfg \<Rightarrow> int \<Rightarrow> int \<Rightarrow>
       32 word \<Rightarrow> 's \<Rightarrow> (32 word \<times> cmd option list \<times> 's) option" where
  "adcs_round m io junk A repo cfg now now' elapsed s =
     do { let elapsed_msec = elapsed + 100;
          (est, s1) \<leftarrow>
            (if elapsed_msec mod 10 = 0 \<and> elapsed_msec mod 500 = 0 then adcs_estimate m io junk A repo cfg now s else Some ([], s));
          (_, s2) \<leftarrow> dat_set_system_var cfg dat_rtc_date_time (v_i (of_i now')) s1;
          ctrl \<leftarrow> (if elapsed_msec mod 1000 = 0 then adcs_control m io repo cfg s2 else Some []);
          hrs \<leftarrow> (if elapsed_msec mod 3600000 = 0
                   then do { c \<leftarrow> cmd_get_str ''drp_add_hrs_alive'' repo; c' \<leftarrow> cmd_add_params_var c [1]; Some [c'] }
                   else Some []);
          Some (elapsed_msec, est @ ctrl @ hrs, s2) }"

text \<open>\<open>k\<close> rounds, with the clock of each, and everything that was sent.\<close>

fun adcs_rounds ::
    "'a::{plus, minus, times, inverse, ord} libm \<Rightarrow> 'a dbl_io \<Rightarrow> (nat \<Rightarrow> 'a) \<Rightarrow> adcs_addrs \<Rightarrow> cmd_repo \<Rightarrow> 's dat_cfg \<Rightarrow> (nat \<Rightarrow> int) \<Rightarrow>
       nat \<Rightarrow> 's \<Rightarrow> (32 word \<times> cmd option list \<times> 's) option" where
  "adcs_rounds m io junk A repo cfg clock 0 s = Some (0, [], s)"
| "adcs_rounds m io junk A repo cfg clock (Suc k) s =
     do { (e, sent, s1) \<leftarrow> adcs_rounds m io junk A repo cfg clock k s;
          (e', more, s2) \<leftarrow> adcs_round m io junk A repo cfg (clock k) (clock k) e s1;
          Some (e', sent @ more, s2) }"

end
