(* ===== verification/Adcs_Laws.thy ===== *)
theory Adcs_Laws
  imports Cmd_ADCS Math_Filter
begin

text \<open>
  What the attitude commands compute, in exact arithmetic: the target attitude points the face Z+ along the target (unless it is exactly opposite), the torque is a proportional and
  derivative law, and the moment asked of the coils is always smaller than one unit of their duty cycle.
\<close>

locale exact_attitude = exact_math +
  assumes acos_exact: "- 1 \<le> x \<Longrightarrow> x \<le> 1 \<Longrightarrow> facos m x = arccos x"
    and trunc_exact: "ftrunc m x = (if 0 \<le> x then \<lfloor>x\<rfloor> else \<lceil>x\<rceil>)"
    and pow_nano: "fpow m 10 (- 9) = 1 / 10 ^ 9"

lemma neg_9_not_nat: "(- 9 :: real) \<notin> \<nat>"
proof
  assume "(- 9 :: real) \<in> \<nat>"
  then obtain n where "(- 9 :: real) = real n" by (auto elim: Nats_cases)
  then show False using of_nat_0_le_iff [of n, where 'a = real] by linarith
qed

interpretation real_attitude: exact_attitude real_math
  by unfold_locales (simp_all add: real_math_def powr_minus_divide neg_9_not_nat)

section \<open>Vectors\<close>

definition vnorm2 :: "real vector3 \<Rightarrow> real" where
  "vnorm2 v = v0 v * v0 v + v1 v * v1 v + v2 v * v2 v"

definition vdot :: "real vector3 \<Rightarrow> real vector3 \<Rightarrow> real" where
  "vdot u v = v0 u * v0 v + v1 u * v1 v + v2 u * v2 v"

abbreviation zero3 :: "real vector3" where "zero3 \<equiv> \<lparr>v0 = 0, v1 = 0, v2 = 0\<rparr>"
abbreviation unit_z :: "real vector3" where "unit_z \<equiv> \<lparr>v0 = 0, v1 = 0, v2 = 1\<rparr>"

definition vscale :: "real \<Rightarrow> real vector3 \<Rightarrow> real vector3" where
  "vscale k v = \<lparr>v0 = k * v0 v, v1 = k * v1 v, v2 = k * v2 v\<rparr>"

lemma vnorm2_nonneg [simp]: "0 \<le> vnorm2 v"
  by (simp add: vnorm2_def)

lemma vnorm2_eq_0: "vnorm2 v = 0 \<longleftrightarrow> v = zero3"
  by (auto simp: vnorm2_def add_nonneg_eq_0_iff intro: vector3.equality)

lemma vnorm2_vscale: "vnorm2 (vscale k v) = k * k * vnorm2 v"
  by (simp add: vnorm2_def vscale_def algebra_simps)

lemma vscale_1 [simp]: "vscale 1 v = v"
  by (simp add: vscale_def)

lemma quat_mult_one: "quat_mult q \<lparr>q0 = 0, q1 = 0, q2 = 0, q3 = 1\<rparr> = (q :: real quaternion)"
  by (simp add: quat_mult_def)

lemma quat_mult_assoc: "quat_mult (quat_mult p q) r = quat_mult p (quat_mult q r :: real quaternion)"
  by (simp add: quat_mult_def algebra_simps)

lemma quat_conj_mult: "quat_mult (quat_conjugate q) q = \<lparr>q0 = 0, q1 = 0, q2 = 0, q3 = quat_norm2 q\<rparr>"
  by (simp add: quat_mult_def quat_conjugate_def quat_norm2_def)

lemma quat_one_mult: "quat_mult \<lparr>q0 = 0, q1 = 0, q2 = 0, q3 = 1\<rparr> q = (q :: real quaternion)"
  by (simp add: quat_mult_def)

context exact_math
begin

lemma vec_norm_exact: "vec_norm m v = sqrt (vnorm2 v)"
  using sqrt_exact [of "vnorm2 v"] by (simp add: vec_norm_def vnorm2_def)

text \<open>\<^verbatim>\<open>vec_normalize\<close> in place: the unit vector, and the vector 0 left alone.\<close>

lemma normalize_exact: "snd (vec_normalize m v v) = (if v = zero3 then v else vscale (1 / sqrt (vnorm2 v)) v)"
  by (simp add: vec_normalize_def vec_norm_exact Let_def vnorm2_eq_0 vscale_def)

lemma normalize_unit: "v \<noteq> zero3 \<Longrightarrow> vnorm2 (snd (vec_normalize m v v)) = 1"
  using vnorm2_eq_0 [of v] by (simp add: normalize_exact vnorm2_vscale)

lemma normalize_of_unit: "vnorm2 v = 1 \<Longrightarrow> snd (vec_normalize m v v) = v"
  by (simp add: normalize_exact)

lemma quat_normalize_of_unit: "quat_norm2 q = 1 \<Longrightarrow> quat_normalize m q q = q"
  by (simp add: quat_normalize_exact)

text \<open>Turning a vector twice is turning it by the product; a unit quaternion keeps its length.\<close>

lemma frame_conv_mult: "quat_frame_conv m (quat_mult p q) v = quat_frame_conv m q (quat_frame_conv m p v)"
  by (simp add: quat_frame_conv_def quat_mult_def quat_conjugate_def Let_def) algebra

lemma frame_conv_norm: "vnorm2 (quat_frame_conv m q v) = quat_norm2 q * quat_norm2 q * vnorm2 v"
  by (simp add: quat_frame_conv_def quat_mult_def quat_conjugate_def Let_def vnorm2_def quat_norm2_def) algebra

lemma axis_rotation_norm: "quat_norm2 (axis_rotation_to_quat m u a) = 1" if "vnorm2 u = 1"
proof -
  have "quat_norm2 (axis_rotation_to_quat m u a) = vnorm2 u * (sin (a / 2) * sin (a / 2)) + cos (a / 2) * cos (a / 2)"
    by (simp add: axis_rotation_to_quat_def Let_def quat_norm2_def vnorm2_def algebra_simps)
  with that show ?thesis using sin_cos_squared_add [of "a / 2"] by (simp add: power2_eq_square)
qed

end

section \<open>Pointing\<close>

context exact_attitude
begin

text \<open>A rotation by twice an angle about a horizontal axis, written with sine and cosine of the angle, turns a direction to Z+.\<close>

lemma axis_turn:
  fixes l0 l1 s c :: real
  assumes "l0 * l0 + l1 * l1 = 1" "s * s + c * c = 1"
  shows "quat_frame_conv m \<lparr>q0 = l0 * s, q1 = l1 * s, q2 = 0, q3 = c\<rparr> \<lparr>v0 = l1 * (2 * s * c), v1 = - l0 * (2 * s * c), v2 = c * c - s * s\<rparr> = unit_z"
  using assms by (simp add: quat_frame_conv_def quat_mult_def quat_conjugate_def Let_def) algebra

lemma half_arccos:
  fixes z :: real
  assumes "- 1 \<le> z" "z \<le> 1"
  defines "a \<equiv> arccos z / 2"
  shows "cos a * cos a - sin a * sin a = z" "2 * sin a * cos a = sqrt (1 - z * z)" "sin a * sin a + cos a * cos a = 1"
proof -
  have "cos (2 * a) = z" using assms by (simp add: a_def cos_arccos)
  then show "cos a * cos a - sin a * sin a = z" by (simp add: cos_double power2_eq_square)
  have "sin (2 * a) = sqrt (1 - z * z)" using assms(1,2) by (simp add: a_def sin_arccos power2_eq_square)
  then show "2 * sin a * cos a = sqrt (1 - z * z)" by (simp add: sin_double)
  show "sin a * sin a + cos a * cos a = 1" using sin_cos_squared_add [of a] by (simp add: power2_eq_square)
qed

text \<open>The rotation the code builds from the cross product and the angle between Z+ and a direction.\<close>

lemma turn_to_z:
  assumes "vnorm2 b = 1" and opp: "b \<noteq> \<lparr>v0 = 0, v1 = 0, v2 = - 1\<rparr>"
  defines "l \<equiv> vec_outer_product unit_z b"
  defines "q \<equiv> axis_rotation_to_quat m (snd (vec_normalize m l l)) (facos m (vec_inner_product m unit_z b))"
  shows "quat_norm2 q = 1" "quat_frame_conv m q b = unit_z"
proof -
  obtain x y z where b: "b = \<lparr>v0 = x, v1 = y, v2 = z\<rparr>" by (cases b)
  have n: "x * x + y * y + z * z = 1" using assms(1) by (simp add: b vnorm2_def)
  have l: "l = \<lparr>v0 = - y, v1 = x, v2 = 0\<rparr>" by (simp add: l_def b vec_outer_product_def)
  have "z * z \<le> 1" using n by (smt (verit) zero_le_square)
  then have z: "- 1 \<le> z" "z \<le> 1" by (metis abs_le_square_iff abs_le_iff abs_one minus_le_iff one_power2 power2_eq_square)+
  define a where "a = arccos z / 2"
  note h = half_arccos [OF z, folded a_def]
  have q: "q = axis_rotation_to_quat m (snd (vec_normalize m l l)) (2 * a)"
    using z by (simp add: q_def b vec_inner_product_def acos_exact a_def)
  have "quat_norm2 q = 1 \<and> quat_frame_conv m q b = unit_z"
  proof (cases "l = zero3")
    case True
    then have xy: "x = 0" "y = 0" by (simp_all add: l)
    with n opp have "z = 1" by (auto simp: square_eq_1_iff b)
    moreover have "q = \<lparr>q0 = 0, q1 = 0, q2 = 0, q3 = cos a\<rparr>"
      unfolding q normalize_exact using True by (simp add: axis_rotation_to_quat_def Let_def)
    ultimately show ?thesis using xy
      by (auto simp: b a_def quat_norm2_def quat_frame_conv_def quat_mult_def quat_conjugate_def Let_def)
  next
    case False
    let ?h = "sqrt (x * x + y * y)"
    have ln: "vnorm2 l = x * x + y * y" by (simp add: l vnorm2_def add.commute)
    have "x * x + y * y \<noteq> 0" using False vnorm2_eq_0 [of l] ln by simp
    then have hp: "0 < ?h" "?h * ?h = x * x + y * y" by (simp_all add: order.strict_iff_order)
    have hz: "2 * sin a * cos a = ?h" using h(2) n by (simp add: algebra_simps)
    have u: "vnorm2 (snd (vec_normalize m l l)) = 1" by (rule normalize_unit [OF False])
    have ax: "snd (vec_normalize m l l) = \<lparr>v0 = - y / ?h, v1 = x / ?h, v2 = 0\<rparr>"
      using False by (simp add: normalize_exact ln vscale_def) (simp add: l)
    have qq: "q = \<lparr>q0 = - y / ?h * sin a, q1 = x / ?h * sin a, q2 = 0, q3 = cos a\<rparr>"
      unfolding q ax by (simp add: axis_rotation_to_quat_def Let_def)
    have bb: "b = \<lparr>v0 = x / ?h * (2 * sin a * cos a), v1 = - (- y / ?h) * (2 * sin a * cos a), v2 = cos a * cos a - sin a * sin a\<rparr>"
      unfolding hz h(1) b using hp(1) by simp
    have "- y / ?h * (- y / ?h) + x / ?h * (x / ?h) = 1" using u by (simp add: ax vnorm2_def)
    from axis_turn [OF this h(3)] have "quat_frame_conv m q b = unit_z" unfolding qq by (subst bb) simp
    then show ?thesis using axis_rotation_norm [OF u] q by simp
  qed
  then show "quat_norm2 q = 1" "quat_frame_conv m q b = unit_z" by simp_all
qed

lemma target_attitude_points:
  assumes "quat_norm2 q = 1" "i_tar \<noteq> zero3"
  defines "u \<equiv> snd (vec_normalize m i_tar i_tar)"
  assumes opp: "quat_frame_conv m q u \<noteq> \<lparr>v0 = 0, v1 = 0, v2 = - 1\<rparr>"
  shows "quat_norm2 (target_attitude m q i_tar) = 1 \<and> quat_frame_conv m (target_attitude m q i_tar) u = unit_z"
proof -
  let ?b = "quat_frame_conv m q u"
  let ?l = "vec_outer_product unit_z ?b"
  let ?q = "axis_rotation_to_quat m (snd (vec_normalize m ?l ?l)) (facos m (vec_inner_product m unit_z ?b))"
  have b1: "vnorm2 ?b = 1" using assms(1) normalize_unit [OF assms(2)] by (simp add: frame_conv_norm u_def)
  have z1: "snd (vec_normalize m unit_z unit_z) = unit_z" by (rule normalize_of_unit) (simp add: vnorm2_def)
  have t: "target_attitude m q i_tar = quat_mult q (quat_normalize m ?q ?q)"
    unfolding target_attitude_def Let_def u_def [symmetric] lits z1 normalize_of_unit [OF b1] ..
  note q = turn_to_z [OF b1 opp]
  show ?thesis unfolding t quat_normalize_of_unit [OF q(1)] using q assms(1)
    by (simp add: frame_conv_mult quat_mult_norm2)
qed

end

section \<open>Torque\<close>

context exact_attitude
begin

lemma dec_lits: "lit m (1 / 1000) = 1 / 1000" "lit m (3 / 1000) = 3 / 1000" "lit m (35 / 100) = 35 / 100" "lit m (35 / 1000) = 35 / 1000"
    "lit m (7 / 1000) = 7 / 1000" "lit m (1 / 10 ^ 9) = 1 / 10 ^ 9" "lit m 9 = 9" "lit m 10 = 10"
  by (simp_all add: lit_exact of_rat_divide)

lemma diag_mult: "mat_vec_mult m (mat_set_diag m a b c) v dst = Some \<lparr>v0 = a * v0 v, v1 = b * v1 v, v2 = c * v2 v\<rparr>"
  by (simp add: mat_vec_exact mat_set_diag_def)

text \<open>The axis and the angle that the controller takes from a rotation are those it was made of, up to a full turn.\<close>

lemma rotation_axis_angle:
  assumes "vnorm2 u = 1" "0 \<le> \<theta>" "\<theta> < 2 * pi"
  defines "q \<equiv> axis_rotation_to_quat m u \<theta>"
  defines "d \<equiv> \<lparr>v0 = q0 q, v1 = q1 q, v2 = q2 q\<rparr>"
  shows "vscale (2 * facos m (q3 q)) (snd (vec_normalize m d d)) = vscale \<theta> u"
proof -
  have "facos m (q3 q) = \<theta> / 2"
    using assms(2,3) by (simp add: q_def axis_rotation_to_quat_def Let_def acos_exact arccos_cos)
  moreover have d: "d = vscale (sin (\<theta> / 2)) u"
    by (simp add: d_def q_def axis_rotation_to_quat_def Let_def vscale_def mult.commute)
  moreover have "snd (vec_normalize m d d) = u" if "\<theta> \<noteq> 0"
  proof -
    have pos: "0 < sin (\<theta> / 2)" using assms(2,3) that by (intro sin_gt_zero) auto
    have n: "vnorm2 d = sin (\<theta> / 2) * sin (\<theta> / 2)" by (simp add: d vnorm2_vscale assms(1))
    then have "d \<noteq> zero3" using pos vnorm2_eq_0 [of d] by auto
    then show ?thesis using pos by (simp add: normalize_exact n) (simp add: d vscale_def)
  qed
  ultimately show ?thesis by (cases "\<theta> = 0") (simp_all add: vscale_def)
qed

lemma control_torque_exact:
  assumes "quat_norm2 est = 1" "vnorm2 u = 1" "0 \<le> \<theta>" "\<theta> < 2 * pi"
  shows "control_torque m junk cycle est (quat_mult est (axis_rotation_to_quat m u \<theta>)) w w_tar =
     Some (vec_sum (vscale (3 / 1000) (vec_sum w_tar (vscale (- 1) w))) (vscale (\<theta> / 1000) u))"
proof -
  let ?q = "axis_rotation_to_quat m u \<theta>"
  have q: "quat_mult (quat_conjugate est) (quat_mult est ?q) = ?q"
    by (simp add: quat_mult_assoc [symmetric] quat_conj_mult assms(1) quat_one_mult)
  have r: "quat_normalize m ?q ?q = ?q" by (rule quat_normalize_of_unit [OF axis_rotation_norm [OF assms(2)]])
  have sc: "vec_cons_mult k v = vscale k v" for k v by (simp add: vec_cons_mult_def vscale_def)
  show ?thesis
    unfolding control_torque_def Let_def q r sc lits rotation_axis_angle [OF assms(2-4)]
    by (simp add: diag_mult dec_lits) (simp add: vec_sum_def vscale_def)
qed

end

section \<open>Coils\<close>

lemma mult_diff_bound: "\<bar>y\<bar> * \<bar>y - x\<bar> \<le> 3 / 2 * (y * y) + x * x / (2 :: real)"
proof -
  have "0 \<le> x * x + 2 * (x * y) + y * y" "0 \<le> x * x - 2 * (x * y) + y * y" "0 \<le> y * y"
    using zero_le_square [of "x + y"] zero_le_square [of "x - y"] by (simp_all add: algebra_simps)
  moreover have "\<bar>y\<bar> * \<bar>y - x\<bar> = \<bar>y * y - x * y\<bar>" by (simp add: abs_mult [symmetric] algebra_simps)
  ultimately show ?thesis by linarith
qed

lemma cross_bound:
  fixes x y z s t c :: real
  assumes "\<bar>t\<bar> \<le> c * \<bar>y - x\<bar>" "\<bar>s\<bar> \<le> c * \<bar>x - z\<bar>" "0 \<le> c"
  shows "\<bar>y * t - z * s\<bar> \<le> 3 / 2 * c * (x * x + y * y + z * z)"
proof -
  have "\<bar>y\<bar> * \<bar>t\<bar> \<le> \<bar>y\<bar> * (c * \<bar>y - x\<bar>)" "\<bar>z\<bar> * \<bar>s\<bar> \<le> \<bar>z\<bar> * (c * \<bar>z - x\<bar>)"
    using assms(1,2) by (simp_all add: mult_left_mono abs_minus_commute)
  moreover have "c * (\<bar>y\<bar> * \<bar>y - x\<bar>) \<le> c * (3 / 2 * (y * y) + x * x / 2)" "c * (\<bar>z\<bar> * \<bar>z - x\<bar>) \<le> c * (3 / 2 * (z * z) + x * x / 2)"
    by (rule mult_left_mono [OF mult_diff_bound assms(3)])+
  then have "\<bar>y\<bar> * (c * \<bar>y - x\<bar>) \<le> 3 / 2 * (c * (y * y)) + c * (x * x) / 2" "\<bar>z\<bar> * (c * \<bar>z - x\<bar>) \<le> 3 / 2 * (c * (z * z)) + c * (x * x) / 2"
    by (simp_all only: distrib_left mult.left_commute times_divide_eq_right)
  moreover have "\<bar>y * t - z * s\<bar> \<le> \<bar>y\<bar> * \<bar>t\<bar> + \<bar>z\<bar> * \<bar>s\<bar>"
    by (metis abs_mult abs_triangle_ineq4)
  moreover have "0 \<le> c * (x * x)" using assms(3) by simp
  moreover have "3 / 2 * c * (x * x + y * y + z * z) = 3 / 2 * (c * (x * x)) + 3 / 2 * (c * (y * y)) + 3 / 2 * (c * (z * z))"
    by (simp add: algebra_simps)
  ultimately show ?thesis by linarith
qed

lemma cross_orthogonal: "vdot (vec_cons_mult a (vec_outer_product (vec_cons_mult c u) t)) u = 0"
  by (simp add: vdot_def vec_cons_mult_def vec_outer_product_def algebra_simps)

lemma component_le_norm: "\<bar>v0 v\<bar> \<le> sqrt (vnorm2 v)" "\<bar>v1 v\<bar> \<le> sqrt (vnorm2 v)" "\<bar>v2 v\<bar> \<le> sqrt (vnorm2 v)"
  by (simp_all add: vnorm2_def real_le_rsqrt power2_eq_square)

context exact_attitude
begin

text \<open>The direction of the torque: normalised unless it is tiny, so no component exceeds 1.\<close>

lemma limited_direction:
  defines "n \<equiv> \<lambda>t. sqrt (vnorm2 t)"
  defines "k \<equiv> \<lambda>t. if 1 / 10 ^ 9 \<le> n t then 1 / n t else 1"
  shows "\<bar>v0 t * k t\<bar> \<le> 1" "\<bar>v1 t * k t\<bar> \<le> 1" "\<bar>v2 t * k t\<bar> \<le> 1"
proof -
  have "\<bar>x * k t\<bar> \<le> 1" if "\<bar>x\<bar> \<le> n t" for x
  proof (cases "1 / 10 ^ 9 \<le> n t")
    case True
    then have "0 < n t" by (smt (verit) zero_less_divide_1_iff zero_less_power)
    then show ?thesis using that True by (simp add: k_def abs_mult)
  next
    case False
    have "(1 :: real) / 10 ^ 9 \<le> 1" by simp
    then show ?thesis using that False unfolding k_def by simp
  qed
  then show "\<bar>v0 t * k t\<bar> \<le> 1" "\<bar>v1 t * k t\<bar> \<le> 1" "\<bar>v2 t * k t\<bar> \<le> 1" using component_le_norm [of t] by (simp_all add: n_def)
qed

lemma limited_component: "\<bar>d\<bar> \<le> 1 \<Longrightarrow> s = 0 \<or> s = 1 \<Longrightarrow> \<bar>d * (s * \<bar>b\<bar>)\<bar> \<le> \<bar>b :: real\<bar>"
  by (auto simp: abs_mult mult_left_le_one_le)

lemma mag_moment_small:
  assumes "mag \<noteq> zero3"
  shows "\<exists>mm. mag_moment m junk mode mag w w_tar = Some mm \<and> vdot mm mag = 0 \<and>
     \<bar>v0 mm\<bar> \<le> 21 / 40 \<and> \<bar>v1 mm\<bar> \<le> 21 / 40 \<and> \<bar>v2 mm\<bar> \<le> 21 / 40"
proof -
  define B where "B = vec_cons_mult (1 / 10 ^ 9) mag"
  define e where "e = vec_cons_mult (- 1) (vec_sum w (vec_cons_mult (- 1) w_tar))"
  define t where "t = \<lparr>v0 = 35 / 1000 * v0 e, v1 = 35 / 1000 * v1 e, v2 = 7 / 1000 * v2 e\<rparr>"
  define k where "k = (if 1 / 10 ^ 9 \<le> sqrt (vnorm2 t) then 1 / sqrt (vnorm2 t) else 1)"
  define s where "s = (\<lambda>x :: real. if mode = DAT_OBC_OPMODE_DETUMB_MAG then 1 else dbl_bool m (\<bar>x\<bar> < 0))"
  define mt where "mt = vec_outer_product \<lparr>v0 = 35 / 100, v1 = 35 / 100, v2 = 35 / 100\<rparr> B"
  define d where "d = vec_cons_mult k t"
  define t' where "t' = \<lparr>v0 = v0 d * (s (v0 w) * \<bar>v0 mt\<bar>), v1 = v1 d * (s (v1 w) * \<bar>v1 mt\<bar>), v2 = v2 d * (s (v2 w) * \<bar>v2 mt\<bar>)\<rparr>"
  define mm where "mm = vec_cons_mult (1 / vnorm2 B) (vec_outer_product B t')"
  have n: "fpow m (1 / 10 ^ 9 * sqrt (vnorm2 mag)) 2 = vnorm2 B"
    by (simp add: B_def vec_cons_mult_def vnorm2_def algebra_simps)
  have m: "mag_moment m junk mode mag w w_tar = Some mm"
    unfolding mag_moment_def Let_def lits dec_lits diag_mult pow_nano bind.simps fabs_exact e_def [symmetric] t_def [symmetric]
      B_def [symmetric] vec_norm_exact k_def [symmetric] d_def [symmetric] mt_def [symmetric] mm_def
    by (simp only: t'_def s_def n)
  have pos: "0 < vnorm2 B"
    using assms vnorm2_eq_0 [of mag] n vnorm2_nonneg [of mag] by (simp add: order.strict_iff_order)
  have sel: "s x = 0 \<or> s x = 1" for x by (simp add: s_def dbl_bool_def)
  have t: "\<bar>v0 t'\<bar> \<le> \<bar>v0 mt\<bar>" "\<bar>v1 t'\<bar> \<le> \<bar>v1 mt\<bar>" "\<bar>v2 t'\<bar> \<le> \<bar>v2 mt\<bar>"
    using limited_direction [of t] limited_component [OF _ sel] by (simp_all add: t'_def d_def k_def vec_cons_mult_def)
  have sc: "\<bar>35 / 100 * a - 35 / 100 * b\<bar> = 7 / 20 * \<bar>a - b\<bar>" for a b :: real
    unfolding right_diff_distrib [symmetric] abs_mult by simp
  have mt: "\<bar>v0 mt\<bar> = 7 / 20 * \<bar>v2 B - v1 B\<bar>" "\<bar>v1 mt\<bar> = 7 / 20 * \<bar>v0 B - v2 B\<bar>" "\<bar>v2 mt\<bar> = 7 / 20 * \<bar>v1 B - v0 B\<bar>"
    unfolding mt_def vec_outer_product_def by (simp_all only: vector3.simps sc)
  note t = t [unfolded mt]
  have bound: "\<bar>x * (1 / vnorm2 B)\<bar> \<le> 21 / 40" if "\<bar>x\<bar> \<le> 3 / 2 * (7 / 20) * n" "n = vnorm2 B" for x n
    using that pos by (simp add: abs_mult divide_le_eq)
  have "\<bar>v0 mm\<bar> \<le> 21 / 40" "\<bar>v1 mm\<bar> \<le> 21 / 40" "\<bar>v2 mm\<bar> \<le> 21 / 40"
    using bound [OF cross_bound [OF t(3) t(2)]] bound [OF cross_bound [OF t(1) t(3)]] bound [OF cross_bound [OF t(2) t(1)]]
    by (simp_all add: mm_def vec_cons_mult_def vec_outer_product_def vnorm2_def)
  moreover have "vdot mm mag = 0"
    unfolding mm_def B_def by (rule cross_orthogonal)
  ultimately show ?thesis using m by blast
qed

end
text \<open>No component of the moment reaches 1, so every duty cycle is cut to 0.\<close>

context exact_attitude
begin

lemma to_uint8_small: "\<bar>x\<bar> \<le> 21 / 40 \<Longrightarrow> to_uint8 m x = Some 0"
  by (auto simp: to_uint8_def trunc_exact floor_eq_iff ceiling_eq_iff abs_le_iff split: if_splits)

lemma adcs_mag_moment_exact:
  assumes "get_sat_vector cfg (widen io) (junk_v junk) (dat_ads_mag_x A) s = Some mag" "mag \<noteq> zero3"
    "get_sat_vector cfg (widen io) (junk_v junk) (dat_ads_omega_x A) s = Some w"
    "get_sat_vector cfg (widen io) (junk_v junk) (dat_tgt_omega_x A) s = Some w_tar"
    "dat_get_system_var cfg dat_obc_opmode s = Some mode"
  shows "\<exists>mm. mag_moment m junk mode mag w w_tar = Some mm \<and> vdot mm mag = 0 \<and>
     \<bar>v0 mm\<bar> < 1 \<and> \<bar>v1 mm\<bar> < 1 \<and> \<bar>v2 mm\<bar> < 1 \<and>
     adcs_mag_moment m io junk A net repo cfg s =
       (if \<not> an_buf net then Some (CMD_ERROR, [], [])
        else do { cmds \<leftarrow> mtq_commands repo 0 0 0;
                  let (rc, sent) = adcs_send net (''adcs_set_mag_moment'' @ print_fs io ''%.06f'' (v_arr mm));
                  Some (rc, cmds, sent) })"
proof -
  obtain mm where mm: "mag_moment m junk mode mag w w_tar = Some mm" "vdot mm mag = 0"
      and b: "\<bar>v0 mm\<bar> \<le> 21 / 40" "\<bar>v1 mm\<bar> \<le> 21 / 40" "\<bar>v2 mm\<bar> \<le> 21 / 40"
    using mag_moment_small [OF assms(2), of junk mode w w_tar] by blast
  note duty = b [THEN to_uint8_small]
  have "\<bar>v0 mm\<bar> < 1" "\<bar>v1 mm\<bar> < 1" "\<bar>v2 mm\<bar> < 1" using b by simp_all
  with mm duty show ?thesis unfolding adcs_mag_moment_def assms(1,3-5) bind.simps mm(1) by (intro exI [of _ mm]) simp
qed

end

section \<open>Properties\<close>

text \<open>
  C16: Where a new target turns the satellite. In exact arithmetic, from a unit estimate of the attitude and for a target direction that is not 0 and is not
  seen exactly on the face opposite to Z+, the target attitude of \<^verbatim>\<open>adcs_set_target\<close> is a unit quaternion that turns the unit vector of the target onto the
  face Z+ of the body. A target exactly opposite is left out: there the axis of the turn is 0, and what the code stores depends on the rounding
  of \<^verbatim>\<open>cos(acos(-1) * 0.5)\<close>. In doubles this is about 6.1e-17 and not 0, \<^verbatim>\<open>quat_normalize\<close> turns it into the identity, and the target
  stored is the present attitude: no turn at all.
\<close>

theorem adcs_target_points:
  assumes "exact_attitude m" "quat_norm2 q = 1" "i_tar \<noteq> zero3"
    and "quat_frame_conv m q (snd (vec_normalize m i_tar i_tar)) \<noteq> \<lparr>v0 = 0, v1 = 0, v2 = - 1\<rparr>"
  shows "quat_norm2 (target_attitude m q i_tar) = 1 \<and>
     quat_frame_conv m (target_attitude m q i_tar) (snd (vec_normalize m i_tar i_tar)) = unit_z"
  by (rule exact_attitude.target_attitude_points [OF assms])

lemma identity_turn: "quat_frame_conv real_math \<lparr>q0 = 0, q1 = 0, q2 = 0, q3 = 1\<rparr> v = v"
  by (simp add: quat_frame_conv_def quat_mult_def quat_conjugate_def Let_def)

theorem adcs_target_points_witness:
  "quat_norm2 (target_attitude real_math \<lparr>q0 = 0, q1 = 0, q2 = 0, q3 = 1\<rparr> \<lparr>v0 = 3, v1 = 0, v2 = 4\<rparr>) = 1 \<and>
   quat_frame_conv real_math (target_attitude real_math \<lparr>q0 = 0, q1 = 0, q2 = 0, q3 = 1\<rparr> \<lparr>v0 = 3, v1 = 0, v2 = 4\<rparr>)
       \<lparr>v0 = 3 / 5, v1 = 0, v2 = 4 / 5\<rparr> = unit_z"
proof -
  let ?id = "\<lparr>q0 = 0, q1 = 0, q2 = 0, q3 = 1\<rparr> :: real quaternion"
  have u: "snd (vec_normalize real_math \<lparr>v0 = 3, v1 = 0, v2 = 4\<rparr> \<lparr>v0 = 3, v1 = 0, v2 = 4\<rparr>) = \<lparr>v0 = 3 / 5, v1 = 0, v2 = 4 / 5\<rparr>"
    by (simp add: real_numbers.normalize_exact vnorm2_def vscale_def)
  have q: "quat_norm2 ?id = 1" by (simp add: quat_norm2_def)
  show ?thesis
    using adcs_target_points [OF real_attitude.exact_attitude_axioms q, of "\<lparr>v0 = 3, v1 = 0, v2 = 4\<rparr>"]
    by (simp add: u identity_turn)
qed

text \<open>
  C19: The control law. When the target attitude is reached from the estimated one by a turn of \<open>\<theta>\<close> about the unit axis \<open>u\<close>, with \<open>\<theta>\<close> between 0 and a full
  turn, \<^verbatim>\<open>adcs_control_torque\<close> computes 0.003 times the error of the rates plus 0.001 times \<open>\<theta>\<close> along the axis. The control period, the
  parameter of the command, and what was in memory have no part in it, and a turn of more than half a circle is not taken the shorter way round.
\<close>

theorem adcs_torque_is_pd:
  assumes "exact_attitude m" "quat_norm2 est = 1" "vnorm2 u = 1" "0 \<le> \<theta>" "\<theta> < 2 * pi"
  shows "control_torque m junk cycle est (quat_mult est (axis_rotation_to_quat m u \<theta>)) w w_tar =
     Some (vec_sum (vscale (3 / 1000) (vec_sum w_tar (vscale (- 1) w))) (vscale (\<theta> / 1000) u))"
  by (rule exact_attitude.control_torque_exact [OF assms])

theorem adcs_torque_is_pd_witness:
  "control_torque real_math (\<lambda>_. 0) 1000 \<lparr>q0 = 0, q1 = 0, q2 = 0, q3 = 1\<rparr>
     (quat_mult \<lparr>q0 = 0, q1 = 0, q2 = 0, q3 = 1\<rparr> (axis_rotation_to_quat real_math \<lparr>v0 = 0, v1 = 1, v2 = 0\<rparr> 2)) \<lparr>v0 = 1, v1 = 2, v2 = 3\<rparr> zero3 =
   Some \<lparr>v0 = - 3 / 1000, v1 = - 4 / 1000, v2 = - 9 / 1000\<rparr>"
  using adcs_torque_is_pd [OF real_attitude.exact_attitude_axioms, of "\<lparr>q0 = 0, q1 = 0, q2 = 0, q3 = 1\<rparr>" "\<lparr>v0 = 0, v1 = 1, v2 = 0\<rparr>" 2 "\<lambda>_. 0" 1000
      "\<lparr>v0 = 1, v1 = 2, v2 = 3\<rparr>" zero3] pi_ge_two
  by (simp add: quat_norm2_def vnorm2_def vec_sum_def vscale_def)

text \<open>
  C20: The coils are never driven. In every field that is not 0, at every rate and in every mode, \<^verbatim>\<open>adcs_mag_moment\<close> computes a moment across the
  field whose components are all smaller than 1, and as it converts them to duty cycles without scaling, each of the three commands it sends sets the duty
  cycle 0; the message to the attitude computer carries the moment itself.
\<close>

theorem adcs_coils_never_driven:
  assumes "exact_attitude m" "get_sat_vector cfg (widen io) (junk_v junk) (dat_ads_mag_x A) s = Some mag" "mag \<noteq> zero3"
    "get_sat_vector cfg (widen io) (junk_v junk) (dat_ads_omega_x A) s = Some w"
    "get_sat_vector cfg (widen io) (junk_v junk) (dat_tgt_omega_x A) s = Some w_tar"
    "dat_get_system_var cfg dat_obc_opmode s = Some mode"
  shows "\<exists>mm. mag_moment m junk mode mag w w_tar = Some mm \<and> vdot mm mag = 0 \<and>
     \<bar>v0 mm\<bar> < 1 \<and> \<bar>v1 mm\<bar> < 1 \<and> \<bar>v2 mm\<bar> < 1 \<and>
     adcs_mag_moment m io junk A net repo cfg s =
       (if \<not> an_buf net then Some (CMD_ERROR, [], [])
        else do { cmds \<leftarrow> mtq_commands repo 0 0 0;
                  let (rc, sent) = adcs_send net (''adcs_set_mag_moment'' @ print_fs io ''%.06f'' (v_arr mm));
                  Some (rc, cmds, sent) })"
  by (rule exact_attitude.adcs_mag_moment_exact [OF assms])

definition wit_io :: "real dbl_io" where
  "wit_io = \<lparr>print_f = (\<lambda>f x. ''1.0''), scan_lf = (\<lambda>s. None), widen = (\<lambda>v. 1 + real (unat v)), narrow = (\<lambda>x. 0)\<rparr>"

definition wit_addrs :: adcs_addrs where
  "wit_addrs = \<lparr>dat_ads_pos_x = 2, dat_ads_q0 = 3, dat_ads_omega_x = 7, dat_ads_mag_x = 3, dat_tgt_q0 = 7, dat_tgt_omega_x = 11\<rparr>"

definition wit_net :: adcs_net where
  "wit_net = \<lparr>an_buf = True, an_sendto = True, an_transaction = (\<lambda>s. (0, []))\<rparr>"

lemma pwm_not_registered:
  assumes "repo_ready r" "cmd_list r = map reg_entry (core_cmds True True True) @ replicate 194 null_entry"
  shows "mtq_commands r d0 d1 d2 = Some [None, None, None, None]"
proof -
  have "list_all (\<lambda>e. ce_name (reg_entry e) \<notin> {Some ''obc_pwm_pwr'', Some ''obc_set_pwm_duty''}) (core_cmds True True True)" by code_simp
  then have "cmd_get_str n r = Some None" if "n = ''obc_pwm_pwr'' \<or> n = ''obc_set_pwm_duty''" for n
    using that by (auto simp: cmd_get_str_ready [OF assms(1)] find_idx_eq_None assms(2) list_all_iff null_entry_def)
  then show ?thesis by (simp add: mtq_commands_def cmd_add_params_var_def cmd_add_params_str_def)
qed

theorem adcs_coils_never_driven_witness:
  "\<exists>s r sent. dat_repo_init True (ram_cfg alloc_all False) ram_zero = Some s \<and> cmd_repo_init True True True cmd_repo_zero = Some (CMD_OK, r) \<and>
     adcs_mag_moment real_math wit_io (\<lambda>_. 0) wit_addrs wit_net r (ram_cfg alloc_all False) s =
       Some (CMD_OK, [None, None, None, None], sent)"
proof (rule ram_init_inv [of False], rule init_zero_table)
  fix s r
  assume init: "dat_repo_init True (ram_cfg alloc_all False) ram_zero = Some s" and inv: "ram_inv data_map (n_copies False) s"
    and r: "cmd_repo_init True True True cmd_repo_zero = Some (CMD_OK, r)" "repo_ready r"
      "cmd_list r = map reg_entry (core_cmds True True True) @ replicate 194 null_entry"
  let ?cfg = "ram_cfg alloc_all False"
  note get = ram_repo.sat_vector_get [OF inv, of _ alloc_all "widen wit_io" "junk_v (\<lambda>_. 0)"]
  obtain mag where mag: "get_sat_vector ?cfg (widen wit_io) (junk_v (\<lambda>_. 0)) (dat_ads_mag_x wit_addrs) s = Some mag" "mag \<noteq> zero3"
    using get [of 3] by (simp add: wit_addrs_def wit_io_def add_nonneg_eq_0_iff del: of_nat_unat)
  obtain w where w: "get_sat_vector ?cfg (widen wit_io) (junk_v (\<lambda>_. 0)) (dat_ads_omega_x wit_addrs) s = Some w"
    using get [of 7] by (simp add: wit_addrs_def)
  obtain w_tar where w_tar: "get_sat_vector ?cfg (widen wit_io) (junk_v (\<lambda>_. 0)) (dat_tgt_omega_x wit_addrs) s = Some w_tar"
    using get [of 11] by (simp add: wit_addrs_def)
  obtain mode where mode: "dat_get_system_var ?cfg dat_obc_opmode s = Some mode"
    using ram_repo.get_var [OF inv, of "nat dat_obc_opmode" alloc_all] by (simp add: dat_get_system_var_def addr_defs)
  show ?thesis
    using adcs_coils_never_driven [OF real_attitude.exact_attitude_axioms mag w w_tar mode, of wit_net r] init r(1) pwm_not_registered [OF r(2,3)]
    by (auto simp: adcs_send_def wit_net_def)
qed

end
