(* ===== verification/Adcs_Task_Laws.thy ===== *)
theory Adcs_Task_Laws
  imports Task_ADCS Adcs_Laws App_Simple
begin

text \<open>
  What the attitude task does in the course of time, and its functions of time and place in exact arithmetic.
\<close>

section \<open>Time\<close>

text \<open>The leap years since 1900 that are over when a year begins, as the function counts them.\<close>

definition leap_days :: "int \<Rightarrow> int" where
  "leap_days y = (y - 1901) div 4"

lemma leap_days_next: "leap_days (y + 1) = leap_days y + (if 4 dvd y then 1 else 0)"
proof (cases "4 dvd y")
  case True
  then have "(y + 1 - 1901) div 4 = (y - 1901) div 4 + 1" by presburger
  with True show ?thesis by (simp add: leap_days_def)
next
  case False
  then have "(y + 1 - 1901) div 4 = (y - 1901) div 4" by presburger
  with False show ?thesis by (simp add: leap_days_def)
qed

locale exact_time = exact_attitude +
  assumes floor_exact: "ffloor m x = \<lfloor>x\<rfloor>"
begin

lemma lit_int: "lit m (of_int k) = real_of_int k"
  by (simp add: lit_exact)

lemma time_lits: "lit m (36525 / 100) = 1461 / 4" "lit m (25 / 100) = 1 / 4" "lit m 365 = 365" "lit m (24150195 / 10) = 4830039 / 2"
    "lit m (24405875 / 10) = 4881175 / 2" "lit m 86400 = 86400" "lit m (1 / 10 ^ 11) = 1 / 10 ^ 11"
  by (simp_all add: lit_exact of_rat_divide)

lemma to_int_small: "- 100000 \<le> k \<Longrightarrow> k \<le> 100000 \<Longrightarrow> to_int k = Some k"
  by (simp add: to_int_def in_int_def)

lemma floor_quarter: "\<lfloor>real_of_int k * (1 / 4)\<rfloor> = k div 4"
  using floor_divide_of_int_eq [of k 4, where 'a = real] by simp

text \<open>The function without the conversions, for years near ours.\<close>

lemma jd_to_dec_exact:
  assumes "0 \<le> jd - 4830039 / 2" "jd - 4830039 / 2 \<le> 10 ^ 6"
  defines "t \<equiv> jd - 4830039 / 2"
  defines "y \<equiv> 1900 + \<lfloor>t * 4 / 1461\<rfloor>"
  defines "d \<equiv> \<lambda>y. t - (real_of_int (y - 1900) * 365 + real_of_int (leap_days y))"
  shows "jd_to_dec m jd =
     Some (if d y + 1 / 10 ^ 11 < 1 then real_of_int (y - 1) + d (y - 1) * 4 / 1461 else real_of_int y + (d y + 1 / 10 ^ 11) * 4 / 1461)"
proof -
  have f: "0 \<le> \<lfloor>t * 4 / 1461\<rfloor>" "\<lfloor>t * 4 / 1461\<rfloor> \<le> 3000"
    using assms(1,2) by (simp_all add: t_def floor_le_iff)
  then have y: "1900 \<le> y" "y \<le> 4900" by (simp_all add: y_def)
  have tu: "(jd - 4830039 / 2) / (1461 / 4) = t * 4 / 1461" by (simp add: t_def)
  have i: "to_int \<lfloor>t * 4 / 1461\<rfloor> = Some \<lfloor>t * 4 / 1461\<rfloor>" "to_int (1900 + \<lfloor>t * 4 / 1461\<rfloor>) = Some y"
    using f y by (simp_all add: to_int_small y_def)
  have z: "to_int (z - 1901) = Some (z - 1901)" "to_int (leap_days z) = Some (leap_days z)" "to_int z = Some z" if "1899 \<le> z" "z \<le> 4900" for z
    using that by (simp_all add: to_int_small leap_days_def)
  show ?thesis
    unfolding jd_to_dec_def Let_def floor_exact lit_int time_lits lits tu i bind.simps
    using z [of y] z [of "y - 1"] y
    by (simp only: bind.simps floor_quarter leap_days_def [symmetric] split: if_split) (simp add: d_def t_def [symmetric] floor_quarter leap_days_def)
qed

text \<open>A day \<open>d\<close> of a year \<open>y\<close>, counted from 1 at the start of January 1st.\<close>

lemma jd_to_dec_year:
  assumes "1901 \<le> y" "y \<le> 2099" "1 \<le> d" "d + 1 / 10 ^ 11 < 366 + (if 4 dvd y then 1 else 0)"
  shows "\<exists>x. jd_to_dec m (4830039 / 2 + (real_of_int (y - 1900) * 365 + real_of_int (leap_days y) + d)) = Some x \<and>
     \<bar>x - (real_of_int y + d * 4 / 1461)\<bar> \<le> 1 / 10 ^ 11"
proof -
  define t where "t = real_of_int (y - 1900) * 365 + real_of_int (leap_days y) + d"
  let ?n = "y - 1900"
  have d: "d < 367" using assms(4) by (simp split: if_splits)
  have l: "?n - 4 \<le> 4 * leap_days y" "4 * leap_days y \<le> ?n - 1" unfolding leap_days_def by presburger+
  then have lr: "real_of_int ?n - 4 \<le> 4 * real_of_int (leap_days y)" "4 * real_of_int (leap_days y) \<le> real_of_int ?n - 1" by linarith+
  have n: "1 \<le> real_of_int ?n" "real_of_int ?n \<le> 199" using assms(1,2) by linarith+
  have t: "0 \<le> t" "t \<le> 10 ^ 6" "real_of_int ?n \<le> t * 4 / 1461" "t * 4 / 1461 < real_of_int ?n + 2"
    unfolding t_def using lr n d assms(3) by (simp_all add: field_simps)
  have j: "4830039 / 2 + t - 4830039 / 2 = t" by simp
  note ex = jd_to_dec_exact [of "4830039 / 2 + t", unfolded j, OF t(1,2)]
  have "\<lfloor>t * 4 / 1461\<rfloor> = ?n \<or> \<lfloor>t * 4 / 1461\<rfloor> = ?n + 1" using t(3,4) by linarith
  then show ?thesis
  proof
    assume f: "\<lfloor>t * 4 / 1461\<rfloor> = ?n"
    have "t - (real_of_int ?n * 365 + real_of_int (leap_days y)) = d" by (simp add: t_def)
    then have "jd_to_dec m (4830039 / 2 + t) = Some (real_of_int y + (d + 1 / 10 ^ 11) * 4 / 1461)"
      using ex assms(3) unfolding f by simp
    moreover have "real_of_int y + (d + 1 / 10 ^ 11) * 4 / 1461 - (real_of_int y + d * 4 / 1461) = 4 / (1461 * 10 ^ 11)"
      by (simp add: field_simps)
    moreover have "\<bar>4 / (1461 * 10 ^ 11)\<bar> \<le> (1 :: real) / 10 ^ 11" by simp
    ultimately show ?thesis unfolding t_def [symmetric] by (metis (no_types, lifting))
  next
    assume f: "\<lfloor>t * 4 / 1461\<rfloor> = ?n + 1"
    have "leap_days (y + 1) = leap_days y + (if 4 dvd y then 1 else 0)" by (rule leap_days_next)
    then have lt: "t - (real_of_int (y + 1 - 1900) * 365 + real_of_int (leap_days (y + 1))) + 1 / 10 ^ 11 < 1"
      using assms(4) by (simp add: t_def split: if_splits)
    have e: "1900 + (?n + 1) = y + 1" "y + 1 - 1 = y" by simp_all
    have "t - (real_of_int ?n * 365 + real_of_int (leap_days y)) = d" by (simp add: t_def)
    with ex lt have "jd_to_dec m (4830039 / 2 + t) = Some (real_of_int y + d * 4 / 1461)" unfolding f e by (simp only: if_True)
    then show ?thesis unfolding t_def [symmetric] by simp
  qed
qed

lemma jd_to_dec_now: "\<exists>x. jd_to_dec m (unixt_to_jd m w) = Some x"
proof -
  have "uint w < 4294967296" using uint_lt2p [of w] by simp
  then have u: "0 \<le> real_of_int (uint w)" "real_of_int (uint w) \<le> 4294967295" using uint_ge_0 [of w] by linarith+
  have "unixt_to_jd m w - 4830039 / 2 = real_of_int (uint w) / 86400 + 25568"
    unfolding unixt_to_jd_def lit_int time_lits by simp
  then show ?thesis using jd_to_dec_exact [of "unixt_to_jd m w"] u by simp
qed

end

interpretation real_time: exact_time real_math
  by unfold_locales (simp add: real_math_def)

section \<open>Rounds\<close>

text \<open>The variables of the attitude are status variables, and the mode is not among those that the estimation writes back.\<close>

definition adcs_layout :: "adcs_addrs \<Rightarrow> bool" where
  "adcs_layout A \<longleftrightarrow> 0 \<le> dat_ads_pos_x A \<and> dat_ads_pos_x A + 3 < dat_status_last_address \<and>
     0 \<le> dat_ads_q0 A \<and> dat_ads_q0 A + 4 < dat_status_last_address \<and> dat_obc_opmode \<notin> {dat_ads_q0 A..<dat_ads_q0 A + 4} \<and>
     0 \<le> dat_ads_omega_x A \<and> dat_ads_omega_x A + 3 < dat_status_last_address \<and> dat_obc_opmode \<notin> {dat_ads_omega_x A..<dat_ads_omega_x A + 3}"

text \<open>The function of a command that is sent; a null pointer is not sent.\<close>

definition fn :: "cmd option \<Rightarrow> string option" where
  "fn c = (case c of None \<Rightarrow> None | Some cm \<Rightarrow> c_function cm)"

definition registered :: "cmd_repo \<Rightarrow> string \<Rightarrow> string option" where
  "registered repo name = (case cmd_get_str name repo of Some c \<Rightarrow> fn c | None \<Rightarrow> None)"

text \<open>What round \<open>i\<close> sends, at ten rounds a second.\<close>

definition round_functions :: "cmd_repo \<Rightarrow> nat \<Rightarrow> string option list" where
  "round_functions repo i = map (registered repo)
     ((if 5 dvd i then [''obc_prop_tle''] else []) @
      (if 10 dvd i then [''obc_prop_tle'', ''adcs_quat'', ''adcs_acc'', ''adcs_mag'', ''adcs_detumbling_mag'', ''adcs_mag_moment'', ''adcs_send_attitude''] else []) @
      (if 36000 dvd i then [''drp_add_hrs_alive''] else []))"

lemma get_str_registered:
  assumes "repo_ready repo"
  obtains c where "cmd_get_str name repo = Some c" "fn c = registered repo name"
  using cmd_get_str_ready [OF assms, of name] that by (auto simp: registered_def)

lemma fn_add_params_str [simp]: "fn (cmd_add_params_str c p) = fn c"
  by (auto simp: fn_def cmd_add_params_str_def split: option.splits)

lemma prop_tle_ready:
  assumes "repo_ready repo"
  obtains c where "prop_tle repo = Some c" "fn c = registered repo ''obc_prop_tle''"
proof -
  obtain c where "cmd_get_str ''obc_prop_tle'' repo = Some c" "fn c = registered repo ''obc_prop_tle''" by (rule get_str_registered [OF assms])
  then show thesis using that [of "cmd_add_params_str c ''0''"] by (simp add: prop_tle_def)
qed

text \<open>A pointer that is not null has the format of its command, so the command that counts hours gets its number.\<close>

definition hours_fmt :: "cmd_repo \<Rightarrow> bool" where
  "hours_fmt repo \<longleftrightarrow> (\<forall>c. cmd_get_str ''drp_add_hrs_alive'' repo = Some (Some c) \<longrightarrow> c_fmt c = Some ''%d'')"

lemma hours_command:
  assumes "repo_ready repo" "hours_fmt repo"
  obtains c c' where "cmd_get_str ''drp_add_hrs_alive'' repo = Some c" "cmd_add_params_var c [1] = Some c'"
    "fn c' = registered repo ''drp_add_hrs_alive''"
proof -
  obtain c where c: "cmd_get_str ''drp_add_hrs_alive'' repo = Some c" "fn c = registered repo ''drp_add_hrs_alive''"
    by (rule get_str_registered [OF assms(1)])
  have "vsprintf_ints ''%d'' [1] = Some ''1''" by code_simp
  then have "\<exists>c'. cmd_add_params_var c [1] = Some c' \<and> fn c' = fn c"
    using assms(2) c(1) by (cases c) (auto simp: cmd_add_params_var_def hours_fmt_def SCH_CMD_MAX_STR_PARAMS_def)
  then show thesis using that c by auto
qed

context status_repo
begin

definition detumbling :: "'s \<Rightarrow> bool" where
  "detumbling s \<longleftrightarrow> inv s \<and> dat_get_system_var cfg dat_obc_opmode s = Some DAT_OBC_OPMODE_DETUMB_MAG"

lemma opmode_vote: "inv s \<Longrightarrow> dat_get_system_var cfg dat_obc_opmode s = Some (v_i (vote (triple_wr cfg) (vars s) (nat dat_obc_opmode)))"
  using get_var [of s "nat dat_obc_opmode"] by (simp add: dat_get_system_var_def addr_defs)

lemma detumbling_vote:
  assumes "detumbling s" "inv s'" "vote (triple_wr cfg) (vars s') (nat dat_obc_opmode) = vote (triple_wr cfg) (vars s) (nat dat_obc_opmode)"
  shows "detumbling s'"
  using assms opmode_vote [of s] opmode_vote [of s'] by (auto simp: detumbling_def)

lemma estimate_ok:
  assumes "detumbling s" "adcs_layout A" "repo_ready repo" "\<exists>x. jd_to_dec m (unixt_to_jd m (word_of_int now)) = Some x"
  shows "\<exists>c s'. adcs_estimate m io junk A repo cfg now s = Some ([c], s') \<and> fn c = registered repo ''obc_prop_tle'' \<and> detumbling s'"
proof -
  obtain p q w where a: "dat_ads_pos_x A = int p" "p + 3 < 17" "dat_ads_q0 A = int q" "q + 4 < 17" "nat dat_obc_opmode \<notin> {q..<q + 4}"
      "dat_ads_omega_x A = int w" "w + 3 < 17" "nat dat_obc_opmode \<notin> {w..<w + 3}"
    using assms(2) that [of "nat (dat_ads_pos_x A)" "nat (dat_ads_q0 A)" "nat (dat_ads_omega_x A)"]
    by (auto simp: adcs_layout_def addr_defs)
  obtain c where c: "prop_tle repo = Some c" "fn c = registered repo ''obc_prop_tle''" by (rule prop_tle_ready [OF assms(3)])
  have i: "inv s" using assms(1) by (simp add: detumbling_def)
  obtain r where r: "get_sat_vector cfg (widen io) (junk_v junk) (int p) s = Some r" using sat_vector_get [OF i a(2)] by blast
  obtain w0 where w0: "get_sat_vector cfg (widen io) (junk_v junk) (int w) s = Some w0" using sat_vector_get [OF i a(7)] by blast
  obtain q0 where q0: "get_sat_quaterion cfg (widen io) (junk_q junk) (int q) s = Some q0" using sat_quaternion_get [OF i a(4)] by blast
  obtain s1 where s1: "set_sat_quaterion cfg (narrow io) q0 (int q) s = Some s1" "inv s1"
      "\<forall>j < 17. j \<notin> {q..<q + 4} \<longrightarrow> vote (triple_wr cfg) (vars s1) j = vote (triple_wr cfg) (vars s) j"
    using sat_quaternion_roundtrip [OF i a(4), of "narrow io" q0] by blast
  obtain s2 where s2: "set_sat_vector cfg (narrow io) w0 (int w) s1 = Some s2" "inv s2"
      "\<forall>j < 17. j \<notin> {w..<w + 3} \<longrightarrow> vote (triple_wr cfg) (vars s2) j = vote (triple_wr cfg) (vars s1) j"
    using sat_vector_set [OF s1(2) a(7), of "narrow io" w0] by blast
  have "nat dat_obc_opmode < 17" by (simp add: addr_defs)
  then have "detumbling s2" using detumbling_vote [OF assms(1) s2(2)] s1(3) s2(3) a(5,8) by simp
  then show ?thesis using assms(4) c r w0 q0 s1(1) s2(1) by (auto simp: adcs_estimate_def a)
qed

lemma control_ok:
  assumes "detumbling s" "repo_ready repo"
  shows "\<exists>cs. adcs_control m io repo cfg s = Some cs \<and> map fn cs = map (registered repo)
     [''obc_prop_tle'', ''adcs_quat'', ''adcs_acc'', ''adcs_mag'', ''adcs_detumbling_mag'', ''adcs_mag_moment'', ''adcs_send_attitude'']"
proof -
  note get = get_str_registered [OF assms(2)]
  obtain c0 where c0: "prop_tle repo = Some c0" "fn c0 = registered repo ''obc_prop_tle''" by (rule prop_tle_ready [OF assms(2)])
  obtain c1 where c1: "cmd_get_str ''adcs_quat'' repo = Some c1" "fn c1 = registered repo ''adcs_quat''" by (rule get)
  obtain c2 where c2: "cmd_get_str ''adcs_acc'' repo = Some c2" "fn c2 = registered repo ''adcs_acc''" by (rule get)
  obtain c3 where c3: "cmd_get_str ''adcs_mag'' repo = Some c3" "fn c3 = registered repo ''adcs_mag''" by (rule get)
  obtain c4 where c4: "cmd_get_str ''adcs_detumbling_mag'' repo = Some c4" "fn c4 = registered repo ''adcs_detumbling_mag''" by (rule get)
  obtain c5 where c5: "cmd_get_str ''adcs_mag_moment'' repo = Some c5" "fn c5 = registered repo ''adcs_mag_moment''" by (rule get)
  obtain c6 where c6: "cmd_get_str ''adcs_send_attitude'' repo = Some c6" "fn c6 = registered repo ''adcs_send_attitude''" by (rule get)
  show ?thesis using assms(1) c0 c1 c2 c3 c4 c5 c6
    by (simp add: adcs_control_def detumbling_def adcs_cmd_point_def adcs_cmd_ctrl_def config_defs)
qed

end
text \<open>The counter is 32 bits wide. After it has wrapped round, no multiple of 100 comes up until it has wrapped 25 times.\<close>

lemma wrapped_not_due:
  assumes "i < 1073741824" "100 dvd (100 * i mod 2 ^ 32 :: nat)"
  shows "100 * i < 2 ^ 32"
proof -
  define j where "j = 100 * i div 2 ^ 32"
  have "100 * i = j * 2 ^ 32 + 100 * i mod 2 ^ 32" unfolding j_def by (rule div_mult_mod_eq [symmetric])
  then have "100 dvd j * 2 ^ 32" using assms(2) by (metis dvd_add_left_iff dvd_triv_left)
  moreover have "j * 2 ^ 32 = 96 * j + 100 * (j * 42949672)" by simp
  ultimately have "100 dvd 96 * j" by (metis dvd_add_left_iff dvd_triv_left)
  then have "100 dvd 100 * j - 96 * j" by (intro dvd_diff_nat) simp_all
  then have "100 dvd 4 * j" by simp
  moreover have "4 * j < 100" using assms(1) by (simp add: j_def less_mult_imp_div_less)
  ultimately have "4 * j = 0" by (meson nat_dvd_not_less not_gr0)
  then have "j = 0" by simp
  then show ?thesis by (simp add: j_def div_eq_0_iff)
qed

lemma round_due_iff:
  assumes "i < 1073741824" "unat d = 100 * k"
  shows "(of_nat (100 * i) :: 32 word) mod d = 0 \<longleftrightarrow> 100 * i < 2 ^ 32 \<and> k dvd i"
proof -
  have "(of_nat (100 * i) :: 32 word) mod d = 0 \<longleftrightarrow> 100 * k dvd 100 * i mod 2 ^ 32"
    by (simp add: word_unat_eq_iff unat_mod unat_of_nat assms(2) mod_eq_0_iff_dvd del: of_nat_mult)
  also have "\<dots> \<longleftrightarrow> 100 * i < 2 ^ 32 \<and> k dvd i"
    using wrapped_not_due [OF assms(1)] by (auto dest: dvd_mult_left)
  finally show ?thesis .
qed

context status_repo
begin

lemma round_ok:
  assumes "detumbling s" "adcs_layout A" "repo_ready repo" "hours_fmt repo" "\<exists>x. jd_to_dec m (unixt_to_jd m (word_of_int now)) = Some x"
    "i + 1 < 1073741824"
  shows "\<exists>cs s'. adcs_round m io junk A repo cfg now now' (of_nat (100 * i)) s = Some (of_nat (100 * (i + 1)), cs, s') \<and> detumbling s' \<and>
     map fn cs = (if 100 * (i + 1) < 2 ^ 32 then round_functions repo (i + 1) else [])"
proof -
  let ?e = "of_nat (100 * (i + 1)) :: 32 word"
  note due = round_due_iff [OF assms(6)]
  have d: "?e mod 500 = 0 \<longleftrightarrow> 100 * (i + 1) < 2 ^ 32 \<and> 5 dvd i + 1" "?e mod 1000 = 0 \<longleftrightarrow> 100 * (i + 1) < 2 ^ 32 \<and> 10 dvd i + 1"
      "?e mod 3600000 = 0 \<longleftrightarrow> 100 * (i + 1) < 2 ^ 32 \<and> 36000 dvd i + 1"
    by (rule due, simp)+
  have ten: "?e mod 10 = 0" if "100 * (i + 1) < 2 ^ 32"
    using that by (simp add: word_unat_eq_iff unat_mod unat_of_nat del: of_nat_mult of_nat_add)
  have e: "of_nat (100 * i) + 100 = ?e" by simp
  obtain est s1 where s1: "(if ?e mod 10 = 0 \<and> ?e mod 500 = 0 then adcs_estimate m io junk A repo cfg now s else Some ([], s)) = Some (est, s1)"
      "detumbling s1" "map fn est = (if 100 * (i + 1) < 2 ^ 32 \<and> 5 dvd i + 1 then [registered repo ''obc_prop_tle''] else [])"
    using estimate_ok [OF assms(1-3,5), of io junk] assms(1) d(1) ten by (cases "?e mod 500 = 0") auto
  have i: "inv s1" "nat dat_rtc_date_time < 17" "int (nat dat_rtc_date_time) = dat_rtc_date_time" "nat dat_rtc_date_time \<noteq> nat dat_obc_opmode"
      "nat dat_obc_opmode < 17"
    using s1(2) by (simp_all add: detumbling_def addr_defs)
  obtain s2 where s2: "dat_set_status_var cfg dat_rtc_date_time (of_i (v_i (of_i now'))) s1 = Some (SCH_ST_OK, s2)" "inv s2"
      "\<And>j. j < 17 \<Longrightarrow> vote (triple_wr cfg) (vars s2) j = (if nat dat_rtc_date_time = j then of_i (v_i (of_i now')) else vote (triple_wr cfg) (vars s1) j)"
    using set_var_vote [OF i(1,2), unfolded i(3)] by metis
  have det: "detumbling s2" by (rule detumbling_vote [OF s1(2) s2(2)]) (simp add: s2(3) i)
  obtain ctrl where ctrl: "(if ?e mod 1000 = 0 then adcs_control m io repo cfg s2 else Some []) = Some ctrl"
      "map fn ctrl = (if 100 * (i + 1) < 2 ^ 32 \<and> 10 dvd i + 1 then map (registered repo) [''obc_prop_tle'', ''adcs_quat'', ''adcs_acc'', ''adcs_mag'',
         ''adcs_detumbling_mag'', ''adcs_mag_moment'', ''adcs_send_attitude''] else [])"
    using control_ok [OF det assms(3), of m io] d(2) by (cases "?e mod 1000 = 0") auto
  obtain h h' where h: "cmd_get_str ''drp_add_hrs_alive'' repo = Some h" "cmd_add_params_var h [1] = Some h'"
    "fn h' = registered repo ''drp_add_hrs_alive''" by (rule hours_command [OF assms(3,4)])
  obtain hrs where hrs: "(if ?e mod 3600000 = 0 then do { c \<leftarrow> cmd_get_str ''drp_add_hrs_alive'' repo; c' \<leftarrow> cmd_add_params_var c [1]; Some [c'] } else Some []) =
      Some hrs" "map fn hrs = (if 100 * (i + 1) < 2 ^ 32 \<and> 36000 dvd i + 1 then [registered repo ''drp_add_hrs_alive''] else [])"
    using h d(3) by (cases "?e mod 3600000 = 0") auto
  have "adcs_round m io junk A repo cfg now now' (of_nat (100 * i)) s = Some (?e, est @ ctrl @ hrs, s2)"
    unfolding adcs_round_def Let_def e s1(1) bind.simps case_prod_conv dat_set_system_var_def s2(1) ctrl(1) hrs(1) ..
  moreover have "map fn (est @ ctrl @ hrs) = (if 100 * (i + 1) < 2 ^ 32 then round_functions repo (i + 1) else [])"
    unfolding map_append s1(3) ctrl(2) hrs(2) round_functions_def by simp
  ultimately show ?thesis using det by blast
qed

lemma rounds_ok:
  assumes "detumbling s" "adcs_layout A" "repo_ready repo" "hours_fmt repo" "\<forall>now. \<exists>x. jd_to_dec m (unixt_to_jd m (word_of_int now)) = Some x"
    "k < 1073741824"
  shows "\<exists>cs s'. adcs_rounds m io junk A repo cfg clock k s = Some (of_nat (100 * k), cs, s') \<and> detumbling s' \<and>
     map fn cs = concat (map (\<lambda>i. if 100 * i < 2 ^ 32 then round_functions repo i else []) [1..<k + 1])"
  using assms(6)
proof (induction k)
  case (Suc k)
  then obtain cs s1 where s1: "adcs_rounds m io junk A repo cfg clock k s = Some (of_nat (100 * k), cs, s1)" "detumbling s1"
      "map fn cs = concat (map (\<lambda>i. if 100 * i < 2 ^ 32 then round_functions repo i else []) [1..<k + 1])" by auto
  from round_ok [OF s1(2) assms(2-4) assms(5) [rule_format, of "clock k"], of k io junk "clock k"] Suc.prems show ?case
    using s1(1,3) by (auto simp del: of_nat_mult)
qed (use assms(1) in simp)

end
context status_repo
begin

lemma start_ok:
  assumes "inv s" "repo_ready repo"
  shows "\<exists>cs s'. adcs_start repo cfg s = Some (cs, s') \<and> detumbling s' \<and>
     map fn cs = map (registered repo) [''obc_set_tle'', ''obc_set_tle'', ''obc_update_tle'', ''obc_get_tle'']"
proof -
  note get = get_str_registered [OF assms(2)]
  obtain c1 where c1: "cmd_get_str ''obc_set_tle'' repo = Some c1" "fn c1 = registered repo ''obc_set_tle''" by (rule get)
  obtain c2 where c2: "cmd_get_str ''obc_update_tle'' repo = Some c2" "fn c2 = registered repo ''obc_update_tle''" by (rule get)
  obtain c3 where c3: "cmd_get_str ''obc_get_tle'' repo = Some c3" "fn c3 = registered repo ''obc_get_tle''" by (rule get)
  have a: "nat dat_obc_opmode < 17" "int (nat dat_obc_opmode) = dat_obc_opmode" by (simp_all add: addr_defs)
  obtain s' where s': "dat_set_status_var cfg dat_obc_opmode (of_i DAT_OBC_OPMODE_DETUMB_MAG) s = Some (SCH_ST_OK, s')" "inv s'"
      "\<And>j. j < 17 \<Longrightarrow> vote (triple_wr cfg) (vars s') j =
         (if nat dat_obc_opmode = j then of_i DAT_OBC_OPMODE_DETUMB_MAG else vote (triple_wr cfg) (vars s) j)"
    using set_var_vote [OF assms(1) a(1), unfolded a(2)] by metis
  have "detumbling s'" using s'(2,3) a(1) by (simp add: detumbling_def opmode_vote) (simp add: config_defs in_int_def)
  then show ?thesis using c1 c2 c3 s'(1) by (simp add: adcs_start_def dat_set_system_var_def)
qed

end

section \<open>Prediction and sun\<close>

text \<open>The four components of a quaternion, each through a function: a double stored as a float and read again.\<close>

definition map_q :: "('a \<Rightarrow> 'b) \<Rightarrow> 'a quaternion \<Rightarrow> 'b quaternion" where
  "map_q f q = \<lparr>q0 = f (q0 q), q1 = f (q1 q), q2 = f (q2 q), q3 = f (q3 q)\<rparr>"

context exact_math
begin

text \<open>The direction of the sun is a unit vector, whatever the constant that turns degrees to radians.\<close>

lemma sun_direction_unit: "vnorm2 (calc_sun_pos_i m g jd) = 1"
proof -
  have "cos l * cos l + cos e * sin l * (cos e * sin l) + sin l * sin e * (sin l * sin e) = 1" for l e :: real
    using sin_cos_squared_add [of l] sin_cos_squared_add [of e] unfolding power2_eq_square by algebra
  then show ?thesis by (simp add: calc_sun_pos_i_def Let_def vnorm2_def)
qed

lemma eskf_integrate_turn:
  assumes "w \<noteq> zero3" "0 < dt"
  shows "eskf_integrate m q w dt =
    (let n = sqrt (vnorm2 w) in quat_mult q
       \<lparr>q0 = v0 w / n * sin (n * dt / 2), q1 = v1 w / n * sin (n * dt / 2), q2 = v2 w / n * sin (n * dt / 2), q3 = cos (n * dt / 2)\<rparr>)"
proof -
  have "vnorm2 (vec_cons_mult dt w) = vnorm2 w * (dt * dt)"
    by (simp add: vnorm2_def vec_cons_mult_def algebra_simps)
  then have "vec_norm m (vec_cons_mult dt w) = sqrt (vnorm2 w) * dt"
    using assms(2) vnorm2_nonneg by (simp add: vec_norm_exact real_sqrt_mult)
  then show ?thesis
    using assms(2) by (simp add: eskf_integrate_def vec_to_quat_def axis_rotation_to_quat_def Let_def) (simp add: vec_cons_mult_def)
qed

lemma diag6_length: "\<exists>Q. arr_mat_set_diag m (junk_arr junk 36) d 6 6 = Some Q \<and> length Q = 36"
  by (simp add: arr_mat_set_diag_def eval_nat_numeral arr_set_def)

end

context status_repo
begin

lemma predict_state_ok:
  assumes "exact_math m" "inv s" "dat_ads_q0 A = int a" "a + 4 < 17" "dat_ads_omega_x A = int b" "b + 3 < 17" "sym6 P"
    "get_sat_quaterion cfg (widen io) (junk_q junk) (dat_ads_q0 A) s = Some q"
    "get_sat_vector cfg (widen io) (junk_v junk) (dat_ads_omega_x A) s = Some w"
  shows "\<exists>P1 s1. eskf_predict_state m io junk A cfg P dt s = Some (P1, s1) \<and> sym6 P1 \<and> inv s1 \<and>
     get_sat_quaterion cfg (widen io) (junk_q junk) (dat_ads_q0 A) s1 = Some (map_q (\<lambda>x. widen io (narrow io x)) (eskf_integrate m q w dt))"
proof -
  obtain Q where Q: "arr_mat_set_diag m (junk_arr junk 36) (lit m 1) 6 6 = Some Q" "length Q = 36" using exact_math.diag6_length [OF assms(1)] by blast
  have w: "vec_sum w (vec_cons_mult (- lit m 1) \<lparr>v0 = lit m 0, v1 = lit m 0, v2 = lit m 0\<rparr>) = w"
    using exact_math.lits [OF assms(1)] by (simp add: vec_sum_def vec_cons_mult_def)
  obtain P1 Q1 where P1: "eskf_compute_error m junk w dt P Q = Some (P1, Q1)" "sym6 P1" using exact_math.eskf_predict [OF assms(1,7) Q(2)] by blast
  obtain s1 where s1: "set_sat_quaterion cfg (narrow io) (eskf_integrate m q w dt) (int a) s = Some s1" "inv s1"
      "get_sat_quaterion cfg (widen io) (junk_q junk) (int a) s1 = Some (map_q (\<lambda>x. widen io (narrow io x)) (eskf_integrate m q w dt))"
    using sat_quaternion_roundtrip [OF assms(2,4), of "narrow io" "eskf_integrate m q w dt" "widen io" "junk_q junk"]
    by (auto simp: map_q_def)
  have "eskf_predict_state m io junk A cfg P dt s = Some (P1, s1)"
    unfolding eskf_predict_state_def Let_def assms(8,9) bind.simps w unfolding assms(3) s1(1) bind.simps Q(1) P1(1) by simp
  then show ?thesis using P1(2) s1(2,3) assms(3) by simp
qed

end

section \<open>Properties\<close>

text \<open>
  C15: What the attitude task sends in the course of time. From any state of the data repository in which it starts, for any clock and any table of commands, every
  round is defined, and what has been sent after \<open>k\<close> rounds is this: the propagation of the orbit twice a second, the seven commands of the control loop once a
  second, the count of hours once an hour, in this order, each only when a command of that name was registered. It stays so while the 32-bit counter
  of milliseconds has not wrapped, for 49.7 days; in the rounds after that, up to 25 times as long, nothing is sent at all.
\<close>

theorem adcs_task_commands:
  assumes "exact_time m" "ram_inv data_map (n_copies tr) s" "adcs_layout A" "repo_ready repo" "hours_fmt repo" "k < 1073741824"
  shows "\<exists>start s1 sent s2. adcs_start repo (ram_cfg alloc tr) s = Some (start, s1) \<and>
     map fn start = map (registered repo) [''obc_set_tle'', ''obc_set_tle'', ''obc_update_tle'', ''obc_get_tle''] \<and>
     adcs_rounds m io junk A repo (ram_cfg alloc tr) clock k s1 = Some (of_nat (100 * k), sent, s2) \<and>
     map fn sent = concat (map (\<lambda>i. if 100 * i < 2 ^ 32 then round_functions repo i else []) [1..<k + 1]) \<and>
     ram_inv data_map (n_copies tr) s2 \<and> dat_get_system_var (ram_cfg alloc tr) dat_obc_opmode s2 = Some DAT_OBC_OPMODE_DETUMB_MAG"
proof -
  obtain cs s1 where s1: "adcs_start repo (ram_cfg alloc tr) s = Some (cs, s1)" "ram_repo.detumbling alloc tr s1"
      "map fn cs = map (registered repo) [''obc_set_tle'', ''obc_set_tle'', ''obc_update_tle'', ''obc_get_tle'']"
    using ram_repo.start_ok [OF assms(2,4), of alloc] by blast
  have jd: "\<forall>now. \<exists>x. jd_to_dec m (unixt_to_jd m (word_of_int now)) = Some x" using exact_time.jd_to_dec_now [OF assms(1)] by blast
  from ram_repo.rounds_ok [OF s1(2) assms(3-5) jd assms(6), of io junk clock] show ?thesis
    using s1(1,3) by (auto simp: ram_repo.detumbling_def simp del: of_nat_mult)
qed

lemma adcs_table_built:
  "\<exists>r r'. cmd_repo_init True True True cmd_repo_zero = Some (CMD_OK, r) \<and> cmd_add_all cmd_adcs_init r = Some r' \<and> repo_ready r' \<and> hours_fmt r' \<and>
     (\<exists>c. cmd_get_str ''adcs_do_control'' r' = Some (Some c) \<and> c_fmt c = Some ''%lf'') \<and> round_functions r' 5 = [None] \<and>
     round_functions r' 10 = [None, None, Some ''adcs_get_quaternion'', None, Some ''adcs_get_mag'', Some ''adcs_detumbling_mag'',
       Some ''adcs_mag_moment'', Some ''adcs_send_attitude'']"
proof (rule init_zero_table)
  fix r
  assume r: "cmd_repo_init True True True cmd_repo_zero = Some (CMD_OK, r)" "repo_ready r" "cmd_index r = 61"
    "cmd_list r = map reg_entry (core_cmds True True True) @ replicate 194 null_entry"
  let ?regs = "core_cmds True True True @ cmd_adcs_init"
  have n: "length (core_cmds True True True) = 61" by code_simp
  have wf: "repo_wf r" using r(2) by (simp add: repo_ready_def)
  have nine: "length cmd_adcs_init = 9" by (simp add: cmd_adcs_init_def)
  obtain r' where r': "cmd_add_all cmd_adcs_init r = Some r'" "repo_wf r'"
      "cmd_list r' = take 61 (cmd_list r) @ map reg_entry cmd_adcs_init @ drop 70 (cmd_list r)"
    using cmd_add_all_ok [OF wf, of cmd_adcs_init] r(3) nine by auto
  have l: "cmd_list r' = map reg_entry ?regs @ replicate 185 null_entry"
    unfolding r'(3) r(4) using n by simp
  have ready: "repo_ready r'"
    using r'(2) by (auto simp: repo_ready_def l named_def null_entry_def)
  have d: "distinct (map fst ?regs)" by code_simp
  note look = reg_lookup [OF ready l d]
  have reg: "registered r' name = Some func" if "(name, func, fmt, n) \<in> set ?regs" for name func fmt n
    using look [OF that] by (auto simp: registered_def fn_def cmd_get_str_ready [OF ready] entry_cmd_def)
  have none: "registered r' name = None" if "name \<notin> set (''null'' # map fst ?regs)" for name
  proof -
    have "find_idx (\<lambda>e. ce_name e = Some name) (cmd_list r') = None"
      using that by (auto simp: find_idx_eq_None l null_entry_def) force+
    then show ?thesis by (simp add: registered_def fn_def cmd_get_str_ready [OF ready])
  qed
  have m: "(''adcs_quat'', ''adcs_get_quaternion'', '''', 0) \<in> set ?regs" "(''adcs_mag'', ''adcs_get_mag'', '''', 0) \<in> set ?regs"
      "(''adcs_detumbling_mag'', ''adcs_detumbling_mag'', '''', 0) \<in> set ?regs" "(''adcs_mag_moment'', ''adcs_mag_moment'', '''', 0) \<in> set ?regs"
      "(''adcs_send_attitude'', ''adcs_send_attitude'', '''', 0) \<in> set ?regs" "(''drp_add_hrs_alive'', ''drp_update_hours_alive'', ''%d'', 1) \<in> set ?regs"
    by code_simp+
  have ctl: "(''adcs_do_control'', ''adcs_control_torque'', ''%lf'', 1) \<in> set ?regs" by code_simp
  have "\<exists>c. cmd_get_str ''adcs_do_control'' r' = Some (Some c) \<and> c_fmt c = Some ''%lf''"
    using look [OF ctl] by (auto simp: cmd_get_str_ready [OF ready] entry_cmd_def)
  moreover have u: "''obc_prop_tle'' \<notin> set (''null'' # map fst ?regs)" "''adcs_acc'' \<notin> set (''null'' # map fst ?regs)" by code_simp+
  moreover have "hours_fmt r'" using look [OF m(6)] by (auto simp: hours_fmt_def cmd_get_str_ready [OF ready] entry_cmd_def)
  ultimately show ?thesis
    using r(1) r'(1) ready reg [OF m(1)] reg [OF m(2)] reg [OF m(3)] reg [OF m(4)] reg [OF m(5)] none [OF u(1)] none [OF u(2)]
    by (auto simp: round_functions_def)
qed

theorem adcs_task_commands_witness:
  "\<exists>r r' s s1 start sent s2. cmd_repo_init True True True cmd_repo_zero = Some (CMD_OK, r) \<and> cmd_add_all cmd_adcs_init r = Some r' \<and>
     dat_repo_init True (ram_cfg alloc_all False) ram_zero = Some s \<and> adcs_start r' (ram_cfg alloc_all False) s = Some (start, s1) \<and>
     adcs_rounds real_math wit_io (\<lambda>_. 0) wit_addrs r' (ram_cfg alloc_all False) (\<lambda>i. 1600000000) 10 s1 = Some (1000, sent, s2) \<and>
     map fn sent = [None, None, None, Some ''adcs_get_quaternion'', None, Some ''adcs_get_mag'', Some ''adcs_detumbling_mag'',
       Some ''adcs_mag_moment'', Some ''adcs_send_attitude'']"
proof (rule ram_init_inv [of False])
  fix s
  assume s: "dat_repo_init True (ram_cfg alloc_all False) ram_zero = Some s" "ram_inv data_map (n_copies False) s"
  obtain r r' where r: "cmd_repo_init True True True cmd_repo_zero = Some (CMD_OK, r)" "cmd_add_all cmd_adcs_init r = Some r'" "repo_ready r'"
      "hours_fmt r'" "round_functions r' 5 = [None]"
      "round_functions r' 10 = [None, None, Some ''adcs_get_quaternion'', None, Some ''adcs_get_mag'', Some ''adcs_detumbling_mag'',
       Some ''adcs_mag_moment'', Some ''adcs_send_attitude'']"
    using adcs_table_built by blast
  have "adcs_layout wit_addrs" by (simp add: adcs_layout_def wit_addrs_def addr_defs)
  from adcs_task_commands [OF real_time.exact_time_axioms s(2) this r(3,4), of 10 alloc_all wit_io "\<lambda>_. 0" "\<lambda>_. 1600000000"]
  obtain start s1 sent s2 where x: "adcs_start r' (ram_cfg alloc_all False) s = Some (start, s1)"
      "adcs_rounds real_math wit_io (\<lambda>_. 0) wit_addrs r' (ram_cfg alloc_all False) (\<lambda>i. 1600000000) 10 s1 = Some (of_nat (100 * 10), sent, s2)"
      "map fn sent = concat (map (\<lambda>i. if 100 * i < 2 ^ 32 then round_functions r' i else []) [1..<10 + 1])"
    by (auto simp del: of_nat_mult)
  have quiet: "round_functions r' i = []" if "i \<in> {1, 2, 3, 4, 6, 7, 8, 9}" for i
    using that by (auto simp: round_functions_def)
  have "[1..<10 + 1] = [1, 2, 3, 4, 5, 6, 7, 8, 9, 10 :: nat]" by code_simp
  then have "map fn sent = round_functions r' 5 @ round_functions r' 10" using x(3) by (simp add: quiet)
  then show ?thesis using s(1) r(1,2) x(1,2) unfolding r(5,6) by auto
qed

text \<open>
  C35: The modes in which the control loop is defined. With the commands of the attitude registered, the control loop is defined in the mode of
  detumbling and in no other: elsewhere it sends a pointer that was never set or prints an integer with the format of a double.
\<close>

theorem adcs_control_modes:
  assumes "repo_ready repo" "cmd_get_str ''adcs_do_control'' repo = Some (Some c)" "c_fmt c = Some ''%lf''"
    "dat_get_system_var cfg dat_obc_opmode s = Some mode"
  shows "adcs_control m io repo cfg s = None \<longleftrightarrow> mode \<noteq> DAT_OBC_OPMODE_DETUMB_MAG"
proof -
  have all: "\<exists>c. cmd_get_str name repo = Some c" for name using get_str_registered [OF assms(1)] by metis
  have "vsprintf_ints ''%lf'' [1000 * 1000] = None" by simp
  then have "adcs_cmd_ctrl repo mode = None \<longleftrightarrow> mode \<noteq> DAT_OBC_OPMODE_DETUMB_MAG"
    using assms(2,3) all [of "''adcs_mag_moment''"] by (auto simp: adcs_cmd_ctrl_def cmd_add_params_var_def)
  moreover have "adcs_cmd_point m io repo mode \<noteq> None" if "mode = DAT_OBC_OPMODE_DETUMB_MAG"
    using that all [of "''adcs_detumbling_mag''"] by (auto simp: adcs_cmd_point_def config_defs)
  ultimately show ?thesis
    using all [of "''obc_prop_tle''"] all [of "''adcs_quat''"] all [of "''adcs_acc''"] all [of "''adcs_mag''"] all [of "''adcs_send_attitude''"]
    by (auto simp: adcs_control_def prop_tle_def assms(4) split: Option.bind_splits)
qed

theorem adcs_control_modes_witness:
  "\<exists>r r' s s1 start. cmd_repo_init True True True cmd_repo_zero = Some (CMD_OK, r) \<and> cmd_add_all cmd_adcs_init r = Some r' \<and>
     dat_repo_init True (ram_cfg alloc_all False) ram_zero = Some s \<and> dat_get_system_var (ram_cfg alloc_all False) dat_obc_opmode s = Some (- 1) \<and>
     adcs_control real_math wit_io r' (ram_cfg alloc_all False) s = None \<and>
     adcs_start r' (ram_cfg alloc_all False) s = Some (start, s1) \<and> adcs_control real_math wit_io r' (ram_cfg alloc_all False) s1 \<noteq> None"
proof -
  let ?cfg = "ram_cfg alloc_all False"
  obtain s where s: "dat_repo_init True ?cfg ram_zero = Some s" "ram_inv data_map (n_copies False) s"
      "\<And>j. j < 17 \<Longrightarrow> vote False (ram_vars s) j = sv_value (dat_get_status_var_def (int j))"
    using ram_repo_init [of alloc_all False] by (auto simp: alloc_all_def)
  have mode: "dat_get_system_var ?cfg dat_obc_opmode s = Some (- 1)"
    using ram_repo.get_var [OF s(2), of 0 alloc_all]
    by (simp add: s(3) dat_get_system_var_def addr_defs)
      (simp add: dat_get_status_var_def_def dat_status_list_def sys_var_def addr_defs in_int_def)
  obtain r r' c where r: "cmd_repo_init True True True cmd_repo_zero = Some (CMD_OK, r)" "cmd_add_all cmd_adcs_init r = Some r'" "repo_ready r'"
      "cmd_get_str ''adcs_do_control'' r' = Some (Some c)" "c_fmt c = Some ''%lf''"
    using adcs_table_built by blast
  obtain start s1 where s1: "adcs_start r' ?cfg s = Some (start, s1)" "ram_repo.detumbling alloc_all False s1"
    using ram_repo.start_ok [OF s(2) r(3), of alloc_all] by blast
  have m: "dat_get_system_var ?cfg dat_obc_opmode s1 = Some DAT_OBC_OPMODE_DETUMB_MAG" using s1(2) by (simp add: ram_repo.detumbling_def)
  have "adcs_control real_math wit_io r' ?cfg s = None"
    using adcs_control_modes [OF r(3-5) mode, of real_math wit_io] by (simp add: config_defs)
  moreover have "adcs_control real_math wit_io r' ?cfg s1 \<noteq> None"
    using adcs_control_modes [OF r(3-5) m, of real_math wit_io] by simp
  ultimately show ?thesis using s(1) r(1,2) mode s1(1) by blast
qed

text \<open>
  C40: The decimal year of the field model. For day \<open>d\<close> of a year from 1901 to 2099, counted from 1 at the start of January 1st, \<^verbatim>\<open>jd_to_dec\<close>
  returns the year plus \<open>d / 365.25\<close>, up to the nudge it adds. The start of a year is therefore returned one day late.
\<close>

theorem jd_to_dec_calendar:
  assumes "exact_time m" "1901 \<le> y" "y \<le> 2099" "1 \<le> d" "d + 1 / 10 ^ 11 < 366 + (if 4 dvd y then 1 else 0)"
  shows "\<exists>x. jd_to_dec m (4830039 / 2 + (real_of_int (y - 1900) * 365 + real_of_int (leap_days y) + d)) = Some x \<and>
     \<bar>x - (real_of_int y + d * 4 / 1461)\<bar> \<le> 1 / 10 ^ 11"
  by (rule exact_time.jd_to_dec_year [OF assms])

theorem jd_to_dec_calendar_witness:
  "unixt_to_jd real_math 1577836800 = 4917699 / 2 \<and> (\<exists>x. jd_to_dec real_math (4917699 / 2) = Some x \<and> \<bar>x - (2020 + 4 / 1461)\<bar> \<le> 1 / 10 ^ 11)"
proof
  show "unixt_to_jd real_math 1577836800 = 4917699 / 2"
    unfolding unixt_to_jd_def real_time.lit_int real_time.time_lits by simp
  show "\<exists>x. jd_to_dec real_math (4917699 / 2) = Some x \<and> \<bar>x - (2020 + 4 / 1461)\<bar> \<le> 1 / 10 ^ 11"
    using jd_to_dec_calendar [OF real_time.exact_time_axioms, of 2020 1] by (simp add: leap_days_def)
qed


text \<open>
  C21: The prediction of the filter as the task has it. In exact arithmetic, from any repository, a symmetric covariance, rates that are not all 0 and a
  positive time step, \<^verbatim>\<open>eskf_predict_state\<close> returns a symmetric covariance, and the attitude it stores is the attitude read, turned about the axis of the rates
  by their size times the step, and rounded to floats. Without a rotation (rates 0, or step 0) the code divides by 0, so that in doubles the attitude
  stored is NaN; this case is left out.
\<close>

theorem predict_state_stored:
  assumes "exact_math m" "ram_inv data_map (n_copies tr) s" "adcs_layout A" "sym6 P"
    and "get_sat_vector (ram_cfg alloc tr) (widen io) (junk_v junk) (dat_ads_omega_x A) s = Some w" "w \<noteq> zero3" "0 < dt"
  shows "\<exists>q P1 s1. get_sat_quaterion (ram_cfg alloc tr) (widen io) (junk_q junk) (dat_ads_q0 A) s = Some q \<and>
     eskf_predict_state m io junk A (ram_cfg alloc tr) P dt s = Some (P1, s1) \<and> sym6 P1 \<and> ram_inv data_map (n_copies tr) s1 \<and>
     get_sat_quaterion (ram_cfg alloc tr) (widen io) (junk_q junk) (dat_ads_q0 A) s1 =
       Some (map_q (\<lambda>x. widen io (narrow io x))
         (let n = sqrt (vnorm2 w) in quat_mult q
            \<lparr>q0 = v0 w / n * sin (n * dt / 2), q1 = v1 w / n * sin (n * dt / 2), q2 = v2 w / n * sin (n * dt / 2), q3 = cos (n * dt / 2)\<rparr>))"
proof -
  obtain a b where a: "dat_ads_q0 A = int a" "a + 4 < 17" "dat_ads_omega_x A = int b" "b + 3 < 17"
    using assms(3) that [of "nat (dat_ads_q0 A)" "nat (dat_ads_omega_x A)"] by (auto simp: adcs_layout_def addr_defs)
  obtain q where q: "get_sat_quaterion (ram_cfg alloc tr) (widen io) (junk_q junk) (dat_ads_q0 A) s = Some q"
    using ram_repo.sat_quaternion_get [OF assms(2) a(2), of alloc "widen io" "junk_q junk"] a(1) by simp
  show ?thesis
    using ram_repo.predict_state_ok [OF assms(1,2) a assms(4) q assms(5), of dt] q
    unfolding exact_math.eskf_integrate_turn [OF assms(1,6,7)] by blast
qed

text \<open>Floats as thousandths: from no rotation, at one radian per second about Z, half a turn.\<close>

definition milli_io :: "real dbl_io" where
  "milli_io = wit_io\<lparr>widen := (\<lambda>v. real_of_int (v_i v) / 1000), narrow := (\<lambda>x. of_i \<lfloor>1000 * x\<rfloor>)\<rparr>"

theorem predict_state_stored_witness:
  "\<exists>s s1 s2 P1 s3. dat_repo_init True (ram_cfg alloc_all False) ram_zero = Some s \<and>
     set_sat_quaterion (ram_cfg alloc_all False) (narrow milli_io) \<lparr>q0 = 0, q1 = 0, q2 = 0, q3 = 1\<rparr> 3 s = Some s1 \<and>
     set_sat_vector (ram_cfg alloc_all False) (narrow milli_io) \<lparr>v0 = 0, v1 = 0, v2 = 1\<rparr> 7 s1 = Some s2 \<and>
     eskf_predict_state real_math milli_io (\<lambda>_. 0) wit_addrs (ram_cfg alloc_all False) (replicate 36 1) pi s2 = Some (P1, s3) \<and> sym6 P1 \<and>
     get_sat_quaterion (ram_cfg alloc_all False) (widen milli_io) (junk_q (\<lambda>_. 0)) 3 s3 = Some \<lparr>q0 = 0, q1 = 0, q2 = 1, q3 = 0\<rparr>"
proof (rule ram_init_inv [of False])
  let ?cfg = "ram_cfg alloc_all False" and ?inv = "ram_inv data_map (n_copies False)"
  let ?q = "\<lparr>q0 = 0, q1 = 0, q2 = 0, q3 = 1\<rparr> :: real quaternion" and ?w = "\<lparr>v0 = 0, v1 = 0, v2 = 1\<rparr> :: real vector3"
  fix s
  assume s: "dat_repo_init True ?cfg ram_zero = Some s" "?inv s"
  have l: "adcs_layout wit_addrs" by (simp add: adcs_layout_def wit_addrs_def addr_defs)
  have sym: "sym6 (replicate 36 (1 :: real))" using cell_bound [of _ 6 _ 6] by (simp add: sym6_def)
  have io: "widen milli_io (narrow milli_io (real_of_int x)) = real_of_int x" if "\<bar>x\<bar> \<le> 1" for x
  proof -
    have "\<lfloor>1000 * real_of_int x\<rfloor> = 1000 * x" by (simp add: floor_eq_iff)
    moreover have "in_int (1000 * x)" using that by (simp add: in_int_def abs_le_iff)
    ultimately show ?thesis by (simp add: milli_io_def)
  qed
  note io01 = io [of 0, simplified] io [of 1, simplified]
  obtain s1 where s1: "set_sat_quaterion ?cfg (narrow milli_io) ?q (int 3) s = Some s1" "?inv s1"
      "get_sat_quaterion ?cfg (widen milli_io) (junk_q (\<lambda>_. 0)) (int 3) s1 = Some ?q"
    using ram_repo.sat_quaternion_roundtrip [OF s(2), of 3 alloc_all "narrow milli_io" ?q "widen milli_io" "junk_q (\<lambda>_. 0)"] io01 by auto
  obtain s2 where s2: "set_sat_vector ?cfg (narrow milli_io) ?w (int 7) s1 = Some s2" "?inv s2"
      "\<forall>j < 17. j \<notin> {7..<7 + 3} \<longrightarrow> vote False (ram_vars s2) j = vote False (ram_vars s1) j"
      "\<forall>j < 3. vote False (ram_vars s2) (7 + j) = narrow milli_io (v_arr ?w ! j)"
    using ram_repo.sat_vector_set [OF s1(2), of 7 alloc_all "narrow milli_io" ?w] by auto
  have q2: "get_sat_quaterion ?cfg (widen milli_io) (junk_q (\<lambda>_. 0)) (int 3) s2 = Some ?q"
    using s1(3) s2(3)
    by (simp add: ram_repo.sat_quaternion_get [OF s1(2), of 3, simplified] ram_repo.sat_quaternion_get [OF s2(2), of 3, simplified])
  have w2: "get_sat_vector ?cfg (widen milli_io) (junk_v (\<lambda>_. 0)) (int 7) s2 = Some ?w"
    using s2(4) [rule_format, of 0] s2(4) [rule_format, of 1] s2(4) [rule_format, of 2] io01
    by (simp add: ram_repo.sat_vector_get [OF s2(2), of 7, simplified] v_arr_def)
  from predict_state_stored [OF real_numbers.exact_math_axioms s2(2) l sym, of alloc_all milli_io "\<lambda>_. 0" ?w pi] obtain P1 s3 where
      "eskf_predict_state real_math milli_io (\<lambda>_. 0) wit_addrs ?cfg (replicate 36 1) pi s2 = Some (P1, s3)" "sym6 P1"
      "get_sat_quaterion ?cfg (widen milli_io) (junk_q (\<lambda>_. 0)) 3 s3 = Some \<lparr>q0 = 0, q1 = 0, q2 = 1, q3 = 0\<rparr>"
    using q2 w2 io01 by (auto simp: wit_addrs_def vnorm2_def map_q_def quat_mult_def Let_def)
  then show ?thesis using s(1) s1(1) s2(1) by auto
qed

end
