(* ===== verification/Adcs_Orbit.thy ===== *)
theory Adcs_Orbit
  imports Adcs_Task_Laws
begin

text \<open>
  The place over the ground: the loop of \<^verbatim>\<open>eci_to_geo\<close> is the iteration of a contraction, so it ends, and what it returns is close to the
  geodetic latitude.
\<close>

section \<open>Lipschitz bounds\<close>

lemma deriv_bound:
  fixes f f' :: "real \<Rightarrow> real"
  assumes "\<And>x. DERIV f x :> f' x" "\<And>x. \<bar>f' x\<bar> \<le> L"
  shows "\<bar>f x - f y\<bar> \<le> L * \<bar>x - y\<bar>"
proof -
  have *: "\<bar>f b - f a\<bar> \<le> L * \<bar>b - a\<bar>" if "a < b" for a b
  proof -
    have "\<exists>c > a. c < b \<and> f b - f a = (b - a) * f' c" by (rule MVT2 [OF that assms(1)])
    then obtain c where "f b - f a = (b - a) * f' c" by blast
    then show ?thesis using assms(2) [of c] by (simp add: abs_mult mult.commute mult_right_mono)
  qed
  show ?thesis using * [of x y] * [of y x] by (cases x y rule: linorder_cases) (auto simp: abs_minus_commute)
qed

lemma arctan_lipschitz: "\<bar>arctan x - arctan y\<bar> \<le> \<bar>x - y\<bar>"
proof -
  have "\<bar>inverse (1 + x\<^sup>2)\<bar> \<le> 1" for x :: real by (simp add: inverse_le_1_iff)
  from deriv_bound [OF DERIV_arctan this, of x y] show ?thesis by simp
qed

text \<open>The same function of the height of a point at a distance from the axis: flat far from the axis, and flat far from the equator.\<close>

lemma arctan_far:
  assumes "0 < b" "b \<le> r"
  shows "\<bar>arctan (u / r) - arctan (v / r)\<bar> \<le> \<bar>u - v\<bar> / b"
proof -
  have "\<bar>arctan (u / r) - arctan (v / r)\<bar> \<le> \<bar>u - v\<bar> / r"
    using arctan_lipschitz [of "u / r" "v / r"] assms by (simp add: diff_divide_distrib [symmetric] abs_divide)
  also have "\<dots> \<le> \<bar>u - v\<bar> / b" using assms by (simp add: divide_left_mono)
  finally show ?thesis .
qed

lemma arctan_high:
  assumes "0 < r" "r \<le> b" "2 * b \<le> \<bar>u\<bar>" "2 * b \<le> \<bar>v\<bar>" "sgn u = sgn v"
  shows "\<bar>arctan (u / r) - arctan (v / r)\<bar> \<le> \<bar>u - v\<bar> / b"
proof -
  have n: "u \<noteq> 0" "v \<noteq> 0" using assms(1-4) by auto
  have i: "arctan (w / r) = sgn w * pi / 2 - arctan (r / w)" if "w \<noteq> 0" for w
    using arctan_inverse [of "r / w"] that assms(1) by (simp add: sgn_divide)
  have "\<bar>arctan (u / r) - arctan (v / r)\<bar> = \<bar>arctan (r / v) - arctan (r / u)\<bar>" by (simp add: i n assms(5))
  also have "\<dots> \<le> \<bar>r / v - r / u\<bar>" by (rule arctan_lipschitz)
  also have "\<dots> = r * \<bar>u - v\<bar> / (\<bar>u\<bar> * \<bar>v\<bar>)"
    using n assms(1) by (simp add: diff_frac_eq abs_mult abs_divide right_diff_distrib [symmetric] mult.commute)
  also have "\<dots> \<le> b * \<bar>u - v\<bar> / (b * b)"
  proof (rule frac_le)
    show "b * b \<le> \<bar>u\<bar> * \<bar>v\<bar>" using assms(1-4) by (intro mult_mono) auto
  qed (use assms(1,2) in \<open>auto intro: mult_right_mono\<close>)
  finally show ?thesis using assms(1,2) by simp
qed

section \<open>The ellipsoid\<close>

text \<open>The radius of curvature in units of the radius of the equator, and how it changes with the latitude.\<close>

definition curv :: "real \<Rightarrow> real \<Rightarrow> real" where
  "curv e2 phi = 1 / sqrt (1 - e2 * sin phi * sin phi)"

definition bulge :: "real \<Rightarrow> real \<Rightarrow> real" where
  "bulge e2 phi = 6378137 * e2 * curv e2 phi * sin phi"

lemma ellipse_term:
  assumes "0 \<le> e2" "e2 \<le> 7 / 1000"
  shows "993 / 1000 \<le> 1 - e2 * sin phi * sin (phi :: real)" "1 - e2 * sin phi * sin phi \<le> 1"
proof -
  have "sin phi * sin phi \<le> 1" using abs_sin_le_one [of phi] abs_le_square_iff [of "sin phi" 1] by (simp add: power2_eq_square)
  then have "e2 * (sin phi * sin phi) \<le> 7 / 1000 * 1" using assms by (intro mult_mono) auto
  then show "993 / 1000 \<le> 1 - e2 * sin phi * sin phi" "1 - e2 * sin phi * sin phi \<le> 1" using assms(1) by (simp_all add: mult.assoc)
qed

lemma curv_bounds:
  assumes "0 \<le> e2" "e2 \<le> 7 / 1000"
  shows "0 < curv e2 phi" "curv e2 phi \<le> 1000 / 993"
proof -
  let ?d = "1 - e2 * sin phi * sin phi"
  note d = ellipse_term [OF assms, of phi]
  have "?d * ?d \<le> ?d" using d by (simp add: mult_left_le)
  then have "?d \<le> sqrt ?d" using d(1) by (simp add: real_le_rsqrt power2_eq_square)
  then have s: "993 / 1000 \<le> sqrt ?d" using d(1) by linarith
  show "0 < curv e2 phi" using d(1) by (simp add: curv_def)
  have "1 / sqrt ?d \<le> 1 / (993 / 1000)" using s d(1) by (intro divide_left_mono) auto
  then show "curv e2 phi \<le> 1000 / 993" by (simp add: curv_def)
qed

lemma curv_sq:
  assumes "0 \<le> e2" "e2 \<le> 7 / 1000"
  shows "curv e2 phi * curv e2 phi * (1 - e2 * sin phi * sin phi) = 1"
  using ellipse_term [OF assms, of phi] by (simp add: curv_def)

lemma curv_deriv:
  assumes "0 \<le> e2" "e2 \<le> 7 / 1000"
  shows "DERIV (curv e2) phi :> e2 * sin phi * cos phi * (curv e2 phi * curv e2 phi * curv e2 phi)"
proof -
  let ?d = "1 - e2 * sin phi * sin phi"
  have d: "0 < ?d" using ellipse_term [OF assms, of phi] by linarith
  let ?i = "inverse (sqrt ?d)"
  have "DERIV (\<lambda>x. 1 - e2 * sin x * sin x) phi :> - (2 * e2 * sin phi * cos phi)"
    by (auto intro!: derivative_eq_intros)
  then have "DERIV (\<lambda>x. sqrt (1 - e2 * sin x * sin x)) phi :> ?i / 2 * - (2 * e2 * sin phi * cos phi)"
    by (rule DERIV_chain2 [of sqrt "?i / 2" "\<lambda>x. 1 - e2 * sin x * sin x" phi, OF DERIV_real_sqrt [OF d]])
  then have "DERIV (\<lambda>x. inverse (sqrt (1 - e2 * sin x * sin x))) phi :> - (?i * (?i / 2 * - (2 * e2 * sin phi * cos phi)) * ?i)"
    using d by (intro DERIV_inverse') auto
  then show ?thesis by (simp add: curv_def [abs_def] inverse_eq_divide mult.assoc)
qed

lemma bulge_deriv:
  assumes "0 \<le> e2" "e2 \<le> 7 / 1000"
  shows "DERIV (bulge e2) phi :> 6378137 * e2 * cos phi * (curv e2 phi * curv e2 phi * curv e2 phi)"
proof -
  let ?c = "curv e2 phi"
  have "DERIV (bulge e2) phi :> 6378137 * e2 * (e2 * sin phi * cos phi * (?c * ?c * ?c)) * sin phi + 6378137 * e2 * ?c * cos phi"
    unfolding bulge_def [abs_def] by (auto intro!: derivative_eq_intros curv_deriv [OF assms])
  moreover have "?c = ?c * (?c * ?c * (1 - e2 * sin phi * sin phi))" using curv_sq [OF assms, of phi] by simp
  then have "6378137 * e2 * (e2 * sin phi * cos phi * (?c * ?c * ?c)) * sin phi + 6378137 * e2 * ?c * cos phi =
      6378137 * e2 * cos phi * (?c * ?c * ?c)" by algebra
  ultimately show ?thesis by simp
qed


lemma bulge_lipschitz:
  assumes "0 \<le> e2" "e2 \<le> 7 / 1000"
  shows "\<bar>bulge e2 x - bulge e2 y\<bar> \<le> 46000 * \<bar>x - y\<bar>"
proof -
  have "\<bar>6378137 * e2 * cos phi * (curv e2 phi * curv e2 phi * curv e2 phi)\<bar> \<le> 46000" for phi
  proof -
    let ?c = "curv e2 phi"
    note c = curv_bounds [OF assms, of phi]
    have "?c * ?c \<le> 1000 / 993 * (1000 / 993)" using c by (intro mult_mono) auto
    then have "?c * ?c * ?c \<le> 1000 / 993 * (1000 / 993) * (1000 / 993)" using c by (intro mult_mono) auto
    moreover have "\<bar>6378137 * e2 * cos phi\<bar> \<le> 6378137 * (7 / 1000) * 1"
      unfolding abs_mult using assms by (intro mult_mono) auto
    ultimately have "\<bar>6378137 * e2 * cos phi\<bar> * (?c * ?c * ?c) \<le> 6378137 * (7 / 1000) * 1 * (1000 / 993 * (1000 / 993) * (1000 / 993))"
      using mult_mono [of "\<bar>6378137 * e2 * cos phi\<bar>" "6378137 * (7 / 1000) * 1" "?c * ?c * ?c"
        "1000 / 993 * (1000 / 993) * (1000 / 993)"] c(1) by simp
    moreover have "\<bar>?c * ?c * ?c\<bar> = ?c * ?c * ?c" using c(1) by simp
    ultimately show ?thesis unfolding abs_mult [of "6378137 * e2 * cos phi"] by simp
  qed
  then show ?thesis by (rule deriv_bound [OF bulge_deriv [OF assms]])
qed

lemma bulge_bound:
  assumes "0 \<le> e2" "e2 \<le> 7 / 1000"
  shows "\<bar>bulge e2 x\<bar> \<le> 46000"
proof -
  note c = curv_bounds [OF assms, of x]
  have "6378137 * e2 * curv e2 x \<le> 6378137 * (7 / 1000) * (1000 / 993)" using assms c by (intro mult_mono) auto
  then have "\<bar>6378137 * e2 * curv e2 x\<bar> * \<bar>sin x\<bar> \<le> 6378137 * (7 / 1000) * (1000 / 993) * 1"
    using assms c(1) by (intro mult_mono) auto
  then show ?thesis unfolding bulge_def abs_mult [of "6378137 * e2 * curv e2 x"] by linarith
qed

text \<open>One step of the iteration, from a point at least 6000 km from the centre, brings two latitudes together.\<close>

lemma step_contracts:
  assumes "0 \<le> e2" "e2 \<le> 7 / 1000" "0 < r" "36 * 10 ^ 12 \<le> r * r + z * z"
  shows "\<bar>arctan ((z + bulge e2 x) / r) - arctan ((z + bulge e2 y) / r)\<bar> \<le> 3 / 100 * \<bar>x - y\<bar>"
proof -
  let ?u = "z + bulge e2 x" and ?v = "z + bulge e2 y"
  have "\<bar>arctan (?u / r) - arctan (?v / r)\<bar> \<le> \<bar>?u - ?v\<bar> / 1600000"
  proof (cases "1600000 \<le> r")
    case True
    then show ?thesis by (intro arctan_far) auto
  next
    case False
    then have "r * r \<le> 1600000 * 1600000" using assms(3) by (intro mult_mono) auto
    then have "4000000 * 4000000 \<le> z * z" using assms(4) by simp
    then have z: "4000000 \<le> \<bar>z\<bar>" using abs_le_square_iff [of 4000000 z] by (simp add: power2_eq_square)
    show ?thesis
    proof (rule arctan_high)
      show "2 * 1600000 \<le> \<bar>?u\<bar>" "2 * 1600000 \<le> \<bar>?v\<bar>" "sgn ?u = sgn ?v"
        using z bulge_bound [OF assms(1,2), of x] bulge_bound [OF assms(1,2), of y] by (auto simp: sgn_if abs_if split: if_splits)
    qed (use False assms(3) in auto)
  qed
  also have "\<dots> \<le> 46000 * \<bar>x - y\<bar> / 1600000" using bulge_lipschitz [OF assms(1,2), of x y] by simp
  also have "\<dots> \<le> 3 / 100 * \<bar>x - y\<bar>" by simp
  finally show ?thesis .
qed


text \<open>The ellipsoid of the code, and a point at a geodetic latitude and a height over it.\<close>

definition wgs_e2 :: real where
  "wgs_e2 = 1000000000 / 298257223563 * (2 - 1000000000 / 298257223563)"

definition over_ground :: "real vector3 \<Rightarrow> real \<Rightarrow> real \<Rightarrow> bool" where
  "over_ground p phi h \<longleftrightarrow> \<bar>phi\<bar> < pi / 2 \<and> 0 < 6378137 * curv wgs_e2 phi + h \<and>
     sqrt (v0 p * v0 p + v1 p * v1 p) = (6378137 * curv wgs_e2 phi + h) * cos phi \<and>
     v2 p = (6378137 * curv wgs_e2 phi * (1 - wgs_e2) + h) * sin phi"

lemma wgs_e2_bounds: "0 \<le> wgs_e2" "wgs_e2 \<le> 7 / 1000"
  by (simp_all add: wgs_e2_def)

lemma over_ground_fixed:
  assumes "over_ground p phi h"
  shows "arctan ((v2 p + bulge wgs_e2 phi) / sqrt (v0 p * v0 p + v1 p * v1 p)) = phi"
proof -
  let ?n = "6378137 * curv wgs_e2 phi + h"
  note a = assms [unfolded over_ground_def]
  have c: "0 < cos phi" using a by (intro cos_gt_zero_pi) auto
  have "v2 p + bulge wgs_e2 phi = ?n * sin phi" using a by (simp add: bulge_def algebra_simps)
  then have "(v2 p + bulge wgs_e2 phi) / sqrt (v0 p * v0 p + v1 p * v1 p) = tan phi" using a c by (simp add: tan_def)
  moreover have "arctan (tan phi) = phi" using a by (intro arctan_tan) auto
  ultimately show ?thesis by simp
qed

section \<open>The loop\<close>

locale exact_orbit = exact_time +
  assumes atan2_exact: "0 < x \<Longrightarrow> fatan2 m y x = arctan (y / x)"
    and atan2_bound: "\<bar>fatan2 m y x\<bar> \<le> pi"
begin

lemma orbit_lits: "lit m (6378137 / 1000) = 6378137 / 1000" "lit m 1000 = 1000" "lit m (1 / 10 ^ 10) = 1 / 10 ^ 10"
    "lit m (298257223563 / 10 ^ 9) = 298257223563 / 10 ^ 9"
  by (simp_all add: lit_exact of_rat_divide)

lemma eci_body_exact:
  assumes "0 < r" "0 \<le> e2" "e2 \<le> 7 / 1000"
  shows "eci_body m z r e2 phi = (arctan ((z + bulge e2 phi) / r), curv e2 phi)"
proof -
  have "fsqrt m (1 - e2 * sin phi * sin phi) = sqrt (1 - e2 * sin phi * sin phi)"
    using ellipse_term [OF assms(2,3), of phi] by (intro sqrt_exact) linarith
  then show ?thesis using assms(1)
    by (simp add: eci_body_def Let_def orbit_lits atan2_exact bulge_def curv_def mult.assoc)
qed

lemma eci_loop_exact:
  assumes "0 < r" "0 \<le> e2" "e2 \<le> 7 / 1000"
  shows "eci_loop m z r e2 x =
     (if 1 / 10 ^ 10 \<le> \<bar>arctan ((z + bulge e2 x) / r) - x\<bar> then eci_loop m z r e2 (arctan ((z + bulge e2 x) / r))
      else Some (arctan ((z + bulge e2 x) / r), curv e2 x))"
  by (subst eci_loop.simps) (simp only: eci_body_exact [OF assms] orbit_lits(3) fabs_exact fst_conv)

text \<open>The latitudes that the loop goes through, their steps, and where it stops.\<close>

lemma loop_stops:
  assumes "0 < r" "0 \<le> e2" "e2 \<le> 7 / 1000" "36 * 10 ^ 12 \<le> r * r + z * z" "\<bar>arctan ((z + bulge e2 x) / r) - x\<bar> * (3 / 100) ^ n < 1 / 10 ^ 10"
  shows "\<exists>y. eci_loop m z r e2 x = Some (arctan ((z + bulge e2 y) / r), curv e2 y) \<and> \<bar>arctan ((z + bulge e2 y) / r) - y\<bar> < 1 / 10 ^ 10"
  using assms(5)
proof (induction n arbitrary: x)
  case 0
  then show ?case using eci_loop_exact [OF assms(1-3), of z x] by auto
next
  case (Suc n)
  let ?f = "\<lambda>x. arctan ((z + bulge e2 x) / r)"
  show ?case
  proof (cases "\<bar>?f x - x\<bar> < 1 / 10 ^ 10")
    case True
    then show ?thesis using eci_loop_exact [OF assms(1-3), of z x] by auto
  next
    case False
    have "\<bar>?f (?f x) - ?f x\<bar> \<le> 3 / 100 * \<bar>?f x - x\<bar>" by (rule step_contracts [OF assms(2,3,1,4)])
    then have "\<bar>?f (?f x) - ?f x\<bar> * (3 / 100) ^ n \<le> 3 / 100 * \<bar>?f x - x\<bar> * (3 / 100) ^ n" by (intro mult_right_mono) auto
    also have "\<dots> < 1 / 10 ^ 10" using Suc.prems by (simp add: ac_simps)
    finally have "\<bar>?f (?f x) - ?f x\<bar> * (3 / 100) ^ n < 1 / 10 ^ 10" .
    from Suc.IH [OF this] False show ?thesis using eci_loop_exact [OF assms(1-3), of z x] by auto
  qed
qed

lemma loop_ends:
  assumes "0 < r" "0 \<le> e2" "e2 \<le> 7 / 1000" "36 * 10 ^ 12 \<le> r * r + z * z"
  shows "\<exists>y. eci_loop m z r e2 (arctan (z / r)) = Some (arctan ((z + bulge e2 y) / r), curv e2 y) \<and>
     \<bar>arctan ((z + bulge e2 y) / r) - y\<bar> < 1 / 10 ^ 10"
proof (rule loop_stops [OF assms, of _ 7])
  let ?x = "arctan (z / r)"
  have "\<bar>arctan ((z + bulge e2 ?x) / r) - ?x\<bar> \<le> 4"
    using arctan_bounded [of "(z + bulge e2 ?x) / r"] arctan_bounded [of "z / r"] pi_less_4 by linarith
  then have "\<bar>arctan ((z + bulge e2 ?x) / r) - ?x\<bar> * (3 / 100) ^ 7 \<le> 4 * (3 / 100) ^ 7" by (intro mult_right_mono) auto
  moreover have "4 * (3 / 100) ^ 7 < (1 :: real) / 10 ^ 10" by (simp add: power_divide)
  ultimately show "\<bar>arctan ((z + bulge e2 ?x) / r) - ?x\<bar> * (3 / 100) ^ 7 < 1 / 10 ^ 10" by (rule le_less_trans)
qed

text \<open>A geodetic latitude is where the iteration stands still, so it is close to where the loop stops.\<close>

lemma near_fixed_point:
  assumes "0 < r" "0 \<le> e2" "e2 \<le> 7 / 1000" "36 * 10 ^ 12 \<le> r * r + z * z" "arctan ((z + bulge e2 phi) / r) = phi"
    "\<bar>arctan ((z + bulge e2 y) / r) - y\<bar> < 1 / 10 ^ 10"
  shows "\<bar>arctan ((z + bulge e2 y) / r) - phi\<bar> \<le> 1 / 10 ^ 11"
proof -
  let ?a = "arctan ((z + bulge e2 y) / r)"
  have "\<bar>?a - phi\<bar> \<le> 3 / 100 * \<bar>y - phi\<bar>" using step_contracts [OF assms(2,3,1,4), of y phi] unfolding assms(5) .
  moreover have "\<bar>y - phi\<bar> \<le> \<bar>?a - y\<bar> + \<bar>?a - phi\<bar>" by linarith
  moreover have "\<bar>?a - y\<bar> < 10 * (1 / 10 ^ 11)" "(0 :: real) \<le> 1 / 10 ^ 11" using assms(6) by simp_all
  moreover have "a \<le> e" if "a \<le> 3 / 100 * b" "b \<le> c + a" "c < 10 * e" "0 \<le> e" for a b c e :: real using that by linarith
  ultimately show ?thesis by blast
qed

lemma trunc_near:
  "- 1 < x - real_of_int (ftrunc m x)" "x - real_of_int (ftrunc m x) < 1"
  "- 1000000 \<le> x \<Longrightarrow> - 1000000 \<le> ftrunc m x" "x \<le> 1000000 \<Longrightarrow> ftrunc m x \<le> 1000000"
  unfolding trunc_exact by (cases "0 \<le> x"; simp; linarith)+

lemma fmod2p_range:
  assumes "twopi g = 2 * pi" "\<bar>x\<bar> \<le> 10 ^ 6"
  shows "\<exists>y. fmod2p m g x = Some y \<and> 0 \<le> y \<and> y < 2 * pi"
proof -
  let ?t = "ftrunc m (x / (2 * pi))"
  have p: "1 \<le> 2 * pi" using pi_ge_two by linarith
  have "\<bar>x / (2 * pi)\<bar> \<le> 1000000 / 1" unfolding abs_divide using p assms(2) by (intro frac_le) auto
  then have "- 1000000 \<le> x / (2 * pi)" "x / (2 * pi) \<le> 1000000" by linarith+
  then have "- 1000000 \<le> ?t" "?t \<le> 1000000" using trunc_near(3,4) [of "x / (2 * pi)"] by simp_all
  then have "to_int ?t = Some ?t" by (simp add: to_int_def in_int_def)
  moreover have "- 1 < x / (2 * pi) - real_of_int ?t" "x / (2 * pi) - real_of_int ?t < 1"
    by (rule trunc_near)+
  then have "- (2 * pi) < x - real_of_int ?t * (2 * pi)" "x - real_of_int ?t * (2 * pi) < 2 * pi" by (simp_all add: field_simps)
  ultimately show ?thesis by (auto simp: fmod2p_def Let_def assms(1) lit_int simp del: of_int_mult)
qed

lemma eci_to_geo_exact:
  assumes "twopi g = 2 * pi" "sgp4_pi g = pi" "\<bar>gstime g jd\<bar> \<le> 1000" "0 < v0 p * v0 p + v1 p * v1 p"
    "36 * 10 ^ 12 \<le> v0 p * v0 p + v1 p * v1 p + v2 p * v2 p"
  shows "\<exists>lla. eci_to_geo m g p jd = Some lla \<and> \<bar>v0 lla\<bar> < pi / 2 \<and> 0 \<le> v1 lla \<and> v1 lla < 2 * pi \<and>
     (\<forall>phi h. over_ground p phi h \<longrightarrow> \<bar>v0 lla - phi\<bar> \<le> 1 / 10 ^ 11)"
proof -
  define r where "r = sqrt (v0 p * v0 p + v1 p * v1 p)"
  have r: "fsqrt m (v0 p * v0 p + v1 p * v1 p) = r" "0 < r" "36 * 10 ^ 12 \<le> r * r + v2 p * v2 p"
    using assms(4,5) by (simp_all add: r_def sqrt_exact)
  have "\<bar>fatan2 m (v1 p) (v0 p) - gstime g jd\<bar> \<le> 10 ^ 6"
    using atan2_bound [of "v1 p" "v0 p"] assms(3) pi_less_4 by simp
  from fmod2p_range [OF assms(1) this] obtain lon where
      lon: "fmod2p m g (fatan2 m (v1 p) (v0 p) - gstime g jd) = Some lon" "0 \<le> lon" "lon < 2 * pi" by blast
  from loop_ends [OF r(2) wgs_e2_bounds r(3)] obtain y where
      y: "eci_loop m (v2 p) r wgs_e2 (arctan (v2 p / r)) = Some (arctan ((v2 p + bulge wgs_e2 y) / r), curv wgs_e2 y)"
        "\<bar>arctan ((v2 p + bulge wgs_e2 y) / r) - y\<bar> < 1 / 10 ^ 10" by blast
  let ?lat = "arctan ((v2 p + bulge wgs_e2 y) / r)"
  have b: "- (pi / 2) < ?lat" "?lat < pi / 2" using arctan_bounded [of "(v2 p + bulge wgs_e2 y) / r"] by simp_all
  have e: "1 / (298257223563 / 10 ^ 9) * (2 - 1 / (298257223563 / 10 ^ 9)) = wgs_e2" by (simp add: wgs_e2_def)
  have "\<exists>alt. eci_to_geo m g p jd = Some \<lparr>v0 = ?lat, v1 = lon, v2 = alt\<rparr>"
    unfolding eci_to_geo_def Let_def lon(1) bind.simps r(1) atan2_exact [OF r(2)] lits orbit_lits e y(1) case_prod_conv assms(2)
    using b by auto
  moreover have "\<bar>?lat - phi\<bar> \<le> 1 / 10 ^ 11" if "over_ground p phi h" for phi h
    using near_fixed_point [OF r(2) wgs_e2_bounds r(3) _ y(2)] over_ground_fixed [OF that] by (simp add: r_def)
  ultimately show ?thesis using b lon(2,3) by fastforce
qed

end

text \<open>The library's argument of a complex number is the \<^verbatim>\<open>atan2\<close> of C.\<close>

lemma Arg_arctan:
  assumes "0 < x"
  shows "Arg (Complex x y) = arctan (y / x)"
proof (rule cis_Arg_unique)
  have "x\<^sup>2 + y\<^sup>2 = x\<^sup>2 * (1 + (y / x)\<^sup>2)" using assms by (simp add: distrib_left power_divide)
  then have n: "norm (Complex x y) = x * sqrt (1 + (y / x)\<^sup>2)"
    unfolding complex_norm using assms by (simp only: real_sqrt_mult real_sqrt_abs abs_of_pos)
  show "sgn (Complex x y) = cis (arctan (y / x))"
    unfolding complex_eq_iff Re_sgn Im_sgn n cis.simps cos_arctan sin_arctan using assms by simp
qed (use arctan_bounded [of "y / x"] pi_gt_zero in \<open>linarith+\<close>)

interpretation real_orbit: exact_orbit real_math
  using Arg_bounded by unfold_locales (auto simp: real_math_def Arg_arctan abs_le_iff less_imp_le minus_le_iff)

section \<open>Properties\<close>

text \<open>
  C14: The loop of \<^verbatim>\<open>eci_to_geo\<close> ends and is right. In exact arithmetic, for every position off the axis of the earth and at least 6000 km from its centre,
  the function returns, with a latitude between the poles and a longitude of one turn; and when the position is the point at a geodetic latitude and a height
  over the ellipsoid, the latitude returned is within 1e-11 of it, ten times closer than the limit at which the loop stops.
\<close>

theorem eci_to_geo_converges:
  assumes "exact_orbit m" "twopi g = 2 * pi" "sgp4_pi g = pi" "\<bar>gstime g jd\<bar> \<le> 1000" "0 < v0 p * v0 p + v1 p * v1 p"
    "36 * 10 ^ 12 \<le> v0 p * v0 p + v1 p * v1 p + v2 p * v2 p"
  shows "\<exists>lla. eci_to_geo m g p jd = Some lla \<and> \<bar>v0 lla\<bar> < pi / 2 \<and> 0 \<le> v1 lla \<and> v1 lla < 2 * pi \<and>
     (\<forall>phi h. over_ground p phi h \<longrightarrow> \<bar>v0 lla - phi\<bar> \<le> 1 / 10 ^ 11)"
  by (rule exact_orbit.eci_to_geo_exact [OF assms])

theorem eci_to_geo_converges_witness:
  "\<exists>lla. eci_to_geo real_math \<lparr>deg2rad = pi / 180, twopi = 2 * pi, sgp4_pi = pi, gstime = (\<lambda>_. 1)\<rparr> \<lparr>v0 = 0, v1 = 7000000, v2 = 0\<rparr> 2458850 = Some lla \<and>
     \<bar>v0 lla\<bar> \<le> 1 / 10 ^ 11"
proof -
  let ?g = "\<lparr>deg2rad = pi / 180, twopi = 2 * pi, sgp4_pi = pi, gstime = (\<lambda>_. 1)\<rparr> :: real sgp4"
  let ?p = "\<lparr>v0 = 0, v1 = 7000000, v2 = 0\<rparr> :: real vector3"
  have "over_ground ?p 0 621863" by (simp add: over_ground_def curv_def)
  then show ?thesis using eci_to_geo_converges [OF real_orbit.exact_orbit_axioms, of ?g 2458850 ?p] by fastforce
qed

end
