(* ===== verification/Spec2Isabelle.thy ===== *)
theory Spec2Isabelle
  imports Task_Loops Os_Time Telemetry Flash_Repo Sensors App_Simple Sql_Repo Math_Filter Sat_State Cmd_GSSB Cmd_RW Igrf_Field Adcs_Orbit
begin

text \<open>
  A verification development of the SUCHAI flight software (src/src, with the applications src/apps/simple and src/apps/suchai).

  \<^bold>\<open>The program.\<close> The software is a command processor. Tasks (console, communications, flight plan, watchdog, application) build commands
  and put them into a queue; the dispatcher takes them from the queue and hands them to the executer one at a time; the executer runs their handlers. The command
  repository holds the table of commands. The data repository holds status variables, a flight plan and payload samples in one of three
  storages: RAM, flash with FRAM, or SQLite. The communication commands and their task move telecommands, telemetry and files
  in frames over libcsp.

  \<^bold>\<open>How it is modelled.\<close> C_Prelude.thy says how C is read: an operation is a function into an option, where \<open>None\<close> is undefined behaviour and
  every error the code reports is a value; integers keep their width; memory blocks have bounds. C_Scanf.thy holds the part of \<^verbatim>\<open>sscanf\<close> and
  \<^verbatim>\<open>printf\<close> that the code uses. Code that is not in the repository (libcsp, SQLite, the drivers of the boards, the functions of the host, the
  arithmetic of doubles) is a parameter of the definitions; what is relied upon is a locale, interpreted on a concrete instance. The build options are those of include/suchai/config.h.in and
  of the application simple; triple writing of the status variables is left open.

  \<^bold>\<open>The theories\<close>, in the order in which they build on each other:

  \<^item> Os_Queue.thy, Os_Time.thy: src/os/linux (pthread_queue.c, osQueue.c, osSemphr.c, osDelay.c) and the clock of src/os/sim. The ring buffer is
    a bounded queue for any interleaving of the threads that send and receive (locale \<open>fifo\<close>); sends end in one of three ways; the release times of periodic tasks drift by what the sleeps overrun.
  \<^item> Repo_Command.thy: src/system/repoCommand.c. Registration and look-up, commands built from lines of text.
  \<^item> Storage.thy, Storage_Ram.thy, Data_Schema.thy, Repo_Data.thy: src/lib/storage/storage.h, storage_ram.c, src/system/repoDataSchema.c and repoData.c. The data repository
    is written against the interface of a storage; the locales \<open>status_store\<close>, \<open>flight_store\<close> and \<open>payload_store\<close> state what a storage promises, and \<open>status_repo\<close>,
    \<open>flight_repo\<close> and \<open>payload_repo\<close> prove once what the repository makes of it: triple writing survives one wrong word, the flight plan is a multiset of
    at most 255 entries with an exact counter, samples read back by index and from the newest.
  \<^item> Repo_Spec.thy, Storage_Flash.thy, Flash_Laws.thy, Flash_Plan.thy, Flash_Repo.thy: storage_flash.c. The flash keeps the same promises within its capacity, survives a loss of power, and
    wears out after 512 entries of the plan; RAM and flash answer alike until the flash is full at 107520 samples.
  \<^item> Storage_Sql.thy, Sql_Laws.thy, Sql_Repo.thy: storage_sqlite.c with every statement as a text. From the laws of SQLite (locale \<open>sql_engine\<close>) status variables behave as over every other storage; the flight plan is a
    function from seconds to entries and its counter counts calls.
  \<^item> Cmd_FP.thy, Cmd_DRP.thy, Cmd_OBC.thy: the handlers of src/system/cmdFP.c, cmdDRP.c, cmdOBC.c and cmdConsole.c, the logger and the processor functions of the x86 target.
  \<^item> Tasks.thy, Task_Loops.thy: taskDispatcher.c, taskExecuter.c, taskFlightPlan.c, taskWatchdog.c, taskConsole.c, taskInit.c. Dispatcher and executer are a step relation, interleaved with any senders: commands run once each and in
    order, the counters are what the commands make of them, and what was sent can always be finished. The other tasks are rounds of their loops.
  \<^item> Com_Frames.thy, Cmd_COM.thy, Task_Comm.thy, File_Transfer.thy, Cmd_TM.thy, Telemetry.thy: cmdCOM.c, taskCommunications.c, cmdTM.c. Byte order (locale \<open>byte_order\<close>), frames, files and telemetry, from the bytes sent to what the receiver stores.
  \<^item> Sensors.thy: the sensor machine of repoData.c with taskSensors.c and cmdSensors.c of the application suchai, access by access between the task and the commands. App_Simple.thy: the application simple.
  \<^item> Cmd_GSSB.thy, Cmd_RW.thy: the commands of the application suchai for the boards that release the antennas, and for the reaction wheels and the upper interstage, as the calls they make on the bus: settings are
    written only while unlocked (and one command leaves them so), and a panel is burnt only by the command that deploys it.
  \<^item> Math_Utils.thy, Math_Laws.thy, Math_Filter.thy: src/lib/utils/math_utils.c for any arithmetic, and in exact arithmetic (locale \<open>exact_math\<close>) rotations, inverses and the prediction of the Kalman filter. Sat_State.thy: vectors
    and quaternions kept in status variables.
  \<^item> Igrf.thy, Igrf_Laws.thy, Igrf_Field.thy: src/lib/igrf/igrf13.c. The loop over the triangle of coefficients is compared with a recurrence by degree and order: it stays inside its arrays and reads
    nothing that was not written, and in exact arithmetic (locale \<open>exact_field\<close>) the sum it computes is the gradient of the potential of the coefficients.
  \<^item> Cmd_ADCS.thy, Adcs_Laws.thy: cmdADCS.c of the application suchai, and in exact arithmetic (locale \<open>exact_attitude\<close>) where a target points, the control law, and the moment of the coils.
  \<^item> Task_ADCS.thy, Adcs_Task_Laws.thy, Adcs_Orbit.thy: taskADCS.c, what its rounds send until its counter wraps and after, and its functions of time and place; the loop for the geodetic latitude is
    the iteration of a contraction (locales \<open>exact_time\<close>, \<open>exact_orbit\<close>).

  \<^bold>\<open>Bounds and fuel.\<close> Loops of the code are recursion over their counters or over the data, and all functions are total; the two loops without a bound, those of \<^verbatim>\<open>com_send_telemetry\<close> and \<^verbatim>\<open>eci_to_geo\<close>, are partial functions that
  are proved to return where they do. Waiting for a condition variable is a list of wake-ups; the tasks of the command pipeline wait without a limit, where the queues of Linux give up after 49.7 days. The capacities in the theorems (255 entries, 512 containers, 107520 samples, 248 characters, 32 bits) are those of the code.

  \<^bold>\<open>Not modelled.\<close> Threads and the scheduler, whose interleavings are step relations; the layer for FreeRTOS, which only calls it; the drivers and ports of the boards; the start of libcsp and of the tasks in taskInit.c; the terminal; \<^verbatim>\<open>take_sample\<close> of
  cmdSensors.c, whose samples belong to a schema that is not in the repository (the attitude commands use it too: there the addresses are a parameter); reading a file of coefficients in igrf13.c, which is never called; \<^verbatim>\<open>calc_magnetic_model\<close> of taskADCS.c, whose call does
  not match the function; rounding of doubles. Files are byte lists; the time is an argument.
\<close>

end
